(* ===== verification/Prelude.thy ===== *)
theory Prelude
  imports Main "HOL-Library.Word" "HOL-Library.Monad_Syntax" "HOL-Library.Multiset"
begin

text \<open>
  Shared vocabulary of the development: the machine-integer types of the C sources, the
  kernel error numbers the drivers return, the crash monad in which a NULL dereference is a
  value, and generic lemmas on lists, options and words.

  A C function of type \<^verbatim>\<open>int\<close> that reports success as \<open>0\<close> and failure as a negative errno
  is modelled as a function into \<^typ>\<open>int\<close>. A function that can dereference a NULL pointer
  returns an \<open>option\<close>: \<^const>\<open>None\<close> is the kernel oops, \<^const>\<open>Some\<close> an ordinary return.
\<close>

type_synonym u8 = "8 word"
type_synonym u16 = "16 word"
type_synonym u32 = "32 word"
type_synonym u64 = "64 word"

unbundle bit_operations_syntax

text \<open>Kernel error numbers, as the sources return them (negated).\<close>

abbreviation ENOENT :: int where "ENOENT \<equiv> 2"
abbreviation ENOMEM :: int where "ENOMEM \<equiv> 12"
abbreviation EFAULT :: int where "EFAULT \<equiv> 14"
abbreviation EEXIST :: int where "EEXIST \<equiv> 17"
abbreviation ENODEV :: int where "ENODEV \<equiv> 19"
abbreviation EINVAL :: int where "EINVAL \<equiv> 22"
abbreviation ENOSPC :: int where "ENOSPC \<equiv> 28"
abbreviation ERANGE :: int where "ERANGE \<equiv> 34"
abbreviation EOVERFLOW :: int where "EOVERFLOW \<equiv> 75"
abbreviation EOPNOTSUPP :: int where "EOPNOTSUPP \<equiv> 95"

text \<open>Collections the component proofs draw on.\<close>

named_theorems frame_simps \<open>fields an operation leaves alone\<close>
named_theorems mem_simps \<open>pointwise values of memory after an update\<close>
named_theorems unfold_ops \<open>definitions of straight-line operations, for unfolding\<close>

section \<open>Sequences of calls\<close>

text \<open>
  A component that is called from outside, in any order: whatever every acceptable call keeps
  holds after any sequence of acceptable calls.
\<close>

locale call_sequence =
  fixes step :: "'c \<Rightarrow> 's \<Rightarrow> 's" and acceptable :: "'c \<Rightarrow> bool" and inv :: "'s \<Rightarrow> bool"
  assumes step_inv: "inv s \<Longrightarrow> acceptable c \<Longrightarrow> inv (step c s)"
begin

lemma run_inv: "inv s \<Longrightarrow> list_all acceptable cs \<Longrightarrow> inv (fold step cs s)"
  by (induction cs arbitrary: s) (simp_all add: step_inv)

lemma prefix_inv: "inv s \<Longrightarrow> list_all acceptable (cs @ cs') \<Longrightarrow> inv (fold step cs s)"
  by (rule run_inv) simp_all

end

section \<open>Overwriting a stretch of a list\<close>

definition overwrite :: "nat \<Rightarrow> 'a list \<Rightarrow> 'a list \<Rightarrow> 'a list" where
  "overwrite k ys xs = take k xs @ ys @ drop (k + length ys) xs"

lemma overwrite_Nil [simp]: "overwrite k [] xs = xs"
  by (simp add: overwrite_def)

lemma length_overwrite [simp]: "k + length ys \<le> length xs \<Longrightarrow> length (overwrite k ys xs) = length xs"
  by (simp add: overwrite_def)

lemma overwrite_Cons: "k < length xs \<Longrightarrow> overwrite k (y # ys) xs = overwrite (Suc k) ys (xs[k := y])"
  by (simp add: overwrite_def take_Suc_conv_app_nth take_update_swap list_update_append)

lemma take_overwrite: "j \<le> k \<Longrightarrow> k \<le> length xs \<Longrightarrow> take j (overwrite k ys xs) = take j xs"
  by (simp add: overwrite_def)

lemma drop_overwrite: "k \<le> length xs \<Longrightarrow> drop k (overwrite k ys xs) = ys @ drop (k + length ys) xs"
  by (simp add: overwrite_def)

lemma overwrite_overwrite:
  "\<lbrakk>length ys = length zs; k \<le> length xs\<rbrakk> \<Longrightarrow> overwrite k zs (overwrite k ys xs) = overwrite k zs xs"
  by (simp add: overwrite_def)

section \<open>Sums over all elements but one\<close>

definition sum_others :: "nat \<Rightarrow> ('a \<Rightarrow> 'b::comm_monoid_add) \<Rightarrow> 'a list \<Rightarrow> 'b" where
  "sum_others q f xs = sum_list (map f (take q xs @ drop (Suc q) xs))"

lemma sum_others: "q < length xs \<Longrightarrow> sum_list (map f xs) = sum_others q f xs + f (xs ! q)"
  by (subst id_take_nth_drop [of q xs]) (simp_all add: sum_others_def ac_simps min_def)

lemma sum_others_update [simp]: "sum_others q f (xs[q := y]) = sum_others q f xs"
  by (simp add: sum_others_def)

lemma sum_list_update_others:
  "q < length xs \<Longrightarrow> sum_list (map f (xs[q := y])) = sum_others q f xs + f y"
  using sum_others [of q "xs[q := y]" f] by simp

section \<open>Selected elements of a list as a multiset\<close>

lemma mset_filter_update:
  assumes "k < length xs"
  shows "mset (map f (filter P (xs[k := y]))) + (if P (xs ! k) then {# f (xs ! k) #} else {#}) =
    mset (map f (filter P xs)) + (if P y then {# f y #} else {#})"
proof -
  have "mset (map f (filter P xs)) = mset (map f (filter P (take k xs @ xs ! k # drop (Suc k) xs)))"
    using assms by (metis id_take_nth_drop)
  moreover have "mset (map f (filter P (xs[k := y]))) = mset (map f (filter P (take k xs @ y # drop (Suc k) xs)))"
    using assms by (simp add: upd_conv_take_nth_drop)
  ultimately show ?thesis by simp
qed

section \<open>Ring indices\<close>

lemma unat_add_of_nat: "unat (w + of_nat k :: u32) = (unat w + k) mod 2 ^ 32"
  by (simp only: unat_word_ariths(1) unat_of_nat mod_add_right_eq) simp

lemma mod_add_inj:
  assumes "(a + j) mod n = (a + k) mod n" "j < n" "k < n"
  shows "j = (k :: nat)"
proof -
  have "(int a + int j) mod int n = (int a + int k) mod int n"
    using assms(1) by (metis of_nat_add of_nat_mod)
  then have "int j mod int n = int k mod int n"
    by (simp add: mod_eq_dvd_iff)
  with assms(2,3) show ?thesis by simp
qed

end
