(* ===== verification/Bridge_Mem.thy ===== *)
theory Bridge_Mem
  imports Prelude
begin

text \<open>
  The byte-level layer of the ABI bridge (\<^verbatim>\<open>ipa-final/ipacm_abi_bridge_v5.c\<close>): the memory of
  the \<^verbatim>\<open>ipacm\<close> process as a map from addresses to bytes, the copying and little-endian access
  loops, and the bounded C-string helpers. Every loop of the source is a recursion over the
  same index; closed forms follow each definition and carry the later proofs.

  Addresses are natural numbers, so pointer arithmetic does not wrap; the kernel and
  \<^verbatim>\<open>ipacm\<close> never hand the bridge an object that straddles the top of the address space.
\<close>

unbundle bit_operations_syntax

type_synonym mem = "nat \<Rightarrow> u8"

section \<open>Copying and clearing\<close>

primrec mem_zero :: "mem \<Rightarrow> nat \<Rightarrow> nat \<Rightarrow> mem" where
  "mem_zero m p 0 = m"
| "mem_zero m p (Suc n) = (mem_zero m p n)(p + n := 0)"

primrec mem_copy :: "mem \<Rightarrow> nat \<Rightarrow> nat \<Rightarrow> nat \<Rightarrow> mem" where
  "mem_copy m d s 0 = m"
| "mem_copy m d s (Suc n) = (let m' = mem_copy m d s n in m'(d + n := m' (s + n)))"

text \<open>Two half-open byte ranges that share no address.\<close>

definition disjoint_ranges :: "nat \<Rightarrow> nat \<Rightarrow> nat \<Rightarrow> nat \<Rightarrow> bool" where
  "disjoint_ranges p n q k \<longleftrightarrow> p + n \<le> q \<or> q + k \<le> p"

lemma mem_zero_apply [mem_simps]:
  "mem_zero m p n a = (if p \<le> a \<and> a < p + n then 0 else m a)"
  by (induction n) auto

lemma mem_copy_apply [mem_simps]:
  "disjoint_ranges d n s n \<Longrightarrow>
   mem_copy m d s n a = (if d \<le> a \<and> a < d + n then m (s + (a - d)) else m a)"
proof (induction n arbitrary: a)
  case 0
  show ?case by auto
next
  case (Suc n)
  then have disj: "disjoint_ranges d n s n" by (auto simp: disjoint_ranges_def)
  have src: "mem_copy m d s n (s + n) = m (s + n)"
    using Suc.prems by (auto simp: Suc.IH [OF disj] disjoint_ranges_def)
  show ?case
    using Suc.IH [OF disj, of a] src by (auto simp: Let_def)
qed

lemma mem_copy_frame: "a < d \<or> d + n \<le> a \<Longrightarrow> mem_copy m d s n a = m a"
  by (induction n) (auto simp: Let_def)

text \<open>
  A sequence of copies \<open>(d, s, n)\<close>. When every source lies in a window that no destination
  touches and the destinations do not overlap, each destination ends up with its source's bytes.
\<close>

primrec copies :: "(nat \<times> nat \<times> nat) list \<Rightarrow> mem \<Rightarrow> mem" where
  "copies [] m = m"
| "copies (c # cs) m = (case c of (d, s, n) \<Rightarrow> copies cs (mem_copy m d s n))"

primrec copies_ok :: "nat \<Rightarrow> nat \<Rightarrow> (nat \<times> nat \<times> nat) list \<Rightarrow> bool" where
  "copies_ok lo len [] = True"
| "copies_ok lo len (c # cs) =
     (case c of (d, s, n) \<Rightarrow> lo \<le> s \<and> s + n \<le> lo + len \<and> disjoint_ranges d n lo len
        \<and> (\<forall>(d', s', n') \<in> set cs. disjoint_ranges d n d' n') \<and> copies_ok lo len cs)"

lemma copies_frame:
  "(\<forall>(d, s, n) \<in> set cs. a < d \<or> d + n \<le> a) \<Longrightarrow> copies cs m a = m a"
proof (induction cs arbitrary: m)
  case (Cons c cs)
  then show ?case by (cases c) (auto simp: mem_copy_frame)
qed simp

lemma copies_hit:
  "copies_ok lo len cs \<Longrightarrow> (d, s, n) \<in> set cs \<Longrightarrow> i < n \<Longrightarrow> copies cs m (d + i) = m (s + i)"
proof (induction cs arbitrary: m)
  case (Cons c cs)
  obtain d0 s0 n0 where c: "c = (d0, s0, n0)" by (cases c)
  let ?m = "mem_copy m d0 s0 n0"
  from Cons.prems have sep: "disjoint_ranges d0 n0 lo len" "lo \<le> s0" "s0 + n0 \<le> lo + len"
    and ok: "copies_ok lo len cs"
    and apart: "\<forall>(d', s', n') \<in> set cs. disjoint_ranges d0 n0 d' n'"
    by (auto simp: c)
  have tail_src: "lo \<le> s' \<and> s' + n' \<le> lo + len" if "(d', s', n') \<in> set cs" for d' s' n'
    using ok that by (induction cs) auto
  show ?case
  proof (cases "(d, s, n) = c")
    case True
    with apart Cons.prems(3) have "copies cs ?m (d + i) = ?m (d + i)"
      by (intro copies_frame) (force simp: c disjoint_ranges_def)
    moreover have "disjoint_ranges d0 n0 s0 n0"
      using sep by (auto simp: disjoint_ranges_def)
    ultimately show ?thesis
      using True Cons.prems(3) by (simp add: c mem_copy_apply)
  next
    case False
    with Cons.prems have tl: "(d, s, n) \<in> set cs" by auto
    then have "copies cs ?m (d + i) = ?m (s + i)"
      by (rule Cons.IH [OF ok _ Cons.prems(3)])
    also have "?m (s + i) = m (s + i)"
      using tail_src [OF tl] sep Cons.prems(3)
      by (intro mem_copy_frame) (auto simp: disjoint_ranges_def)
    finally show ?thesis by (simp add: c)
  qed
qed simp

section \<open>Little-endian access\<close>

definition rd32 :: "mem \<Rightarrow> nat \<Rightarrow> u32" where
  "rd32 m p = ucast (m p) OR push_bit 8 (ucast (m (p + 1)))
     OR push_bit 16 (ucast (m (p + 2))) OR push_bit 24 (ucast (m (p + 3)))"

definition wr32 :: "mem \<Rightarrow> nat \<Rightarrow> u32 \<Rightarrow> mem" where
  "wr32 m p v = m(p := ucast (v AND 0xff),
     p + 1 := ucast (drop_bit 8 v AND 0xff),
     p + 2 := ucast (drop_bit 16 v AND 0xff),
     p + 3 := ucast (drop_bit 24 v AND 0xff))"

primrec wr64_from :: "mem \<Rightarrow> nat \<Rightarrow> u64 \<Rightarrow> nat \<Rightarrow> mem" where
  "wr64_from m p v 0 = m"
| "wr64_from m p v (Suc i) = (wr64_from m p v i)(p + i := ucast (drop_bit (i * 8) v AND 0xff))"

definition wr64 :: "mem \<Rightarrow> nat \<Rightarrow> u64 \<Rightarrow> mem" where
  "wr64 m p v = wr64_from m p v 8"

lemma rd32_cong: "(\<And>i. i < 4 \<Longrightarrow> m (p + i) = m' (q + i)) \<Longrightarrow> rd32 m p = rd32 m' q"
proof -
  assume eq: "\<And>i. i < 4 \<Longrightarrow> m (p + i) = m' (q + i)"
  have "m p = m' q" using eq [of 0] by simp
  moreover have "m (p + 1) = m' (q + 1)" "m (p + 2) = m' (q + 2)" "m (p + 3) = m' (q + 3)"
    using eq [of 1] eq [of 2] eq [of 3] by simp_all
  ultimately show ?thesis by (simp only: rd32_def)
qed

lemma wr32_frame [mem_simps]: "a < p \<or> p + 4 \<le> a \<Longrightarrow> wr32 m p v a = m a"
  by (auto simp: wr32_def)

lemma wr64_from_apply:
  "wr64_from m p v n a =
     (if p \<le> a \<and> a < p + n then ucast (drop_bit ((a - p) * 8) v AND 0xff) else m a)"
  by (induction n) auto

lemma wr64_frame [mem_simps]: "a < p \<or> p + 8 \<le> a \<Longrightarrow> wr64 m p v a = m a"
  by (auto simp: wr64_def wr64_from_apply)

lemma byte_mask: "(0xff :: 'a::len word) = mask 8"
  by (simp add: mask_eq_exp_minus_1)

lemma rd32_wr32: "rd32 (wr32 m p v) p = v"
proof -
  have "rd32 (wr32 m p v) p =
      ucast (ucast (v AND 0xff) :: u8)
      OR push_bit 8 (ucast (ucast (drop_bit 8 v AND 0xff) :: u8))
      OR push_bit 16 (ucast (ucast (drop_bit 16 v AND 0xff) :: u8))
      OR push_bit 24 (ucast (ucast (drop_bit 24 v AND 0xff) :: u8))"
    by (simp add: rd32_def wr32_def)
  also have "\<dots> = v" (is "?w = v")
  proof (rule bit_word_eqI)
    fix n
    assume "n < LENGTH(32)"
    then consider "n < 8" | k where "n = 8 + k" "k < 8"
      | k where "n = 16 + k" "k < 8" | k where "n = 24 + k" "k < 8"
      using le_Suc_ex [of 8 n] le_Suc_ex [of 16 n] le_Suc_ex [of 24 n] by force
    then show "bit ?w n = bit v n"
      by cases (auto simp: byte_mask bit_simps)
  qed
  finally show ?thesis .
qed

text \<open>Reference reader for what \<open>wr64\<close> stores.\<close>

definition rd64 :: "mem \<Rightarrow> nat \<Rightarrow> u64" where
  "rd64 m p = ucast (rd32 m p) OR push_bit 32 (ucast (rd32 m (p + 4)))"

lemma rd32_bytes:
  assumes "\<And>i. i < 4 \<Longrightarrow> m (p + i) = ucast (drop_bit (i * 8) v AND 0xff)"
  shows "rd32 m p = v"
proof -
  have "rd32 m p = rd32 (wr32 m p v) p"
  proof (rule rd32_cong)
    fix i :: nat
    assume "i < 4"
    then consider "i = 0" | "i = 1" | "i = 2" | "i = 3" by linarith
    then show "m (p + i) = wr32 m p v (p + i)"
      by cases (use assms [of 0] assms [of 1] assms [of 2] assms [of 3] in \<open>simp_all add: wr32_def\<close>)
  qed
  then show ?thesis by (simp add: rd32_wr32)
qed

lemma byte_of_halves:
  fixes v :: u64
  assumes "i < 4"
  shows "(ucast (drop_bit (i * 8) v AND 0xff) :: u8) = ucast (drop_bit (i * 8) (ucast v :: u32) AND 0xff)"
    and "(ucast (drop_bit (32 + i * 8) v AND 0xff) :: u8)
      = ucast (drop_bit (i * 8) (ucast (drop_bit 32 v) :: u32) AND 0xff)"
  using assms by (auto intro!: bit_word_eqI simp: byte_mask bit_simps algebra_simps)

lemma rd64_wr64: "rd64 (wr64 m p v) p = v"
proof -
  have "rd32 (wr64 m p v) p = ucast v"
    by (rule rd32_bytes) (simp add: wr64_def wr64_from_apply byte_of_halves)
  moreover have "rd32 (wr64 m p v) (p + 4) = ucast (drop_bit 32 v)"
    by (rule rd32_bytes) (simp add: wr64_def wr64_from_apply byte_of_halves add.assoc)
  ultimately have "rd64 (wr64 m p v) p = ucast (ucast v :: u32) OR push_bit 32 (ucast (ucast (drop_bit 32 v) :: u32))"
    by (simp add: rd64_def)
  also have "\<dots> = v"
  proof (rule bit_word_eqI)
    fix n assume "n < LENGTH(64)"
    then consider "n < 32" | k where "n = 32 + k" "k < 32"
      using le_Suc_ex [of 32 n] by force
    then show "bit (ucast (ucast v :: u32) OR push_bit 32 (ucast (ucast (drop_bit 32 v) :: u32)) :: u64) n
        = bit v n"
      by cases (auto simp: bit_simps)
  qed
  finally show ?thesis .
qed

section \<open>C strings\<close>

text \<open>
  A \<^verbatim>\<open>char *\<close> is a \<^typ>\<open>string\<close>: the bytes readable from the pointer, followed by NUL bytes.
  A literal is itself; a fixed array in an ioctl argument is read with \<open>cstr_at\<close>, and the
  helpers that receive one stop at its length.
\<close>

abbreviation NUL :: char where "NUL \<equiv> CHR 0x00"

definition at :: "string \<Rightarrow> nat \<Rightarrow> char" where
  "at s i = (if i < length s then s ! i else NUL)"

definition cstr :: "string \<Rightarrow> string" where
  "cstr s = takeWhile (\<lambda>c. c \<noteq> NUL) s"

definition cstr_at :: "mem \<Rightarrow> nat \<Rightarrow> nat \<Rightarrow> string" where
  "cstr_at m p n = map (\<lambda>i. char_of (unat (m (p + i)))) [0..<n]"

text \<open>\<open>cstr_len\<close>: the first index below \<open>max\<close> that holds NUL, or \<open>max\<close>.\<close>

function cstr_len_from :: "string \<Rightarrow> nat \<Rightarrow> nat \<Rightarrow> nat" where
  "cstr_len_from s mx i =
     (if i < mx \<and> at s i \<noteq> NUL then cstr_len_from s mx (Suc i) else i)"
  by pat_completeness auto
termination
  by (relation "measure (\<lambda>(s, mx, i). mx - i)") auto

declare cstr_len_from.simps [simp del]

definition cstr_len :: "string \<Rightarrow> nat \<Rightarrow> nat" where
  "cstr_len s mx = cstr_len_from s mx 0"

function str_eq_from :: "string \<Rightarrow> string \<Rightarrow> nat \<Rightarrow> bool" where
  "str_eq_from a b i =
     (if at a i \<noteq> at b i then False
      else if at a i = NUL then True
      else str_eq_from a b (Suc i))"
  by pat_completeness auto
termination
  by (relation "measure (\<lambda>(a, b, i). length a - i)") (auto simp: at_def split: if_splits)

declare str_eq_from.simps [simp del]

definition str_eq :: "string \<Rightarrow> string \<Rightarrow> bool" where
  "str_eq a b = str_eq_from a b 0"

function str_eq_n_from :: "string \<Rightarrow> string \<Rightarrow> nat \<Rightarrow> nat \<Rightarrow> bool" where
  "str_eq_n_from a b mx i =
     (if i < mx then
        (if at a i \<noteq> at b i then False
         else if at a i = NUL then True
         else str_eq_n_from a b mx (Suc i))
      else True)"
  by pat_completeness auto
termination
  by (relation "measure (\<lambda>(a, b, mx, i). mx - i)") auto

declare str_eq_n_from.simps [simp del]

definition str_eq_n :: "string \<Rightarrow> string \<Rightarrow> nat \<Rightarrow> bool" where
  "str_eq_n a b mx = str_eq_n_from a b mx 0"

text \<open>\<open>str_eq_32\<close> is the same loop with the bound \<^verbatim>\<open>IPA_RESOURCE_NAME_MAX\<close>.\<close>

definition str_eq_32 :: "nat \<Rightarrow> string \<Rightarrow> string \<Rightarrow> bool" where
  "str_eq_32 name_max a b = str_eq_n_from a b name_max 0"

text \<open>
  \<open>copy_cstr\<close> copies up to the first NUL and at most \<open>max - 1\<close> characters; the result is the
  string the destination array then holds (\<^const>\<open>None\<close>: the destination is left alone).
\<close>

function copy_cstr_from :: "nat \<Rightarrow> string \<Rightarrow> nat \<Rightarrow> string \<Rightarrow> string" where
  "copy_cstr_from mx src i dst =
     (if i + 1 < mx \<and> at src i \<noteq> NUL
      then copy_cstr_from mx src (Suc i) (dst @ [at src i]) else dst)"
  by pat_completeness auto
termination
  by (relation "measure (\<lambda>(mx, src, i, dst). mx - i)") auto

declare copy_cstr_from.simps [simp del]

definition copy_cstr :: "string \<Rightarrow> nat \<Rightarrow> string \<Rightarrow> string" where
  "copy_cstr dst mx src = (if mx = 0 then dst else copy_cstr_from mx src 0 [])"

subsection \<open>What the string loops compute\<close>

lemma at_drop: "at (drop k s) i = at s (k + i)"
  by (auto simp: at_def)

lemma cstr_drop_step: "at s i \<noteq> NUL \<Longrightarrow> cstr (drop i s) = at s i # cstr (drop (Suc i) s)"
  by (auto simp: at_def cstr_def Cons_nth_drop_Suc [symmetric] split: if_splits)

lemma cstr_drop_stop: "at s i = NUL \<Longrightarrow> cstr (drop i s) = []"
proof (cases "i < length s")
  case True
  then show "at s i = NUL \<Longrightarrow> ?thesis"
    by (simp add: at_def cstr_def Cons_nth_drop_Suc [symmetric])
qed (simp add: cstr_def)

lemma cstr_len_from_eq:
  "i \<le> mx \<Longrightarrow> cstr_len_from s mx i = min mx (i + length (cstr (drop i s)))"
proof (induction s mx i rule: cstr_len_from.induct)
  case (1 s mx i)
  then show ?case
    by (cases "i < mx \<and> at s i \<noteq> NUL")
      (auto simp: cstr_len_from.simps [of s mx i] cstr_drop_step cstr_drop_stop)
qed

lemma cstr_len_eq: "cstr_len s mx = min mx (length (cstr s))"
  by (simp add: cstr_len_def cstr_len_from_eq)

lemma str_eq_from_eq: "str_eq_from a b i \<longleftrightarrow> cstr (drop i a) = cstr (drop i b)"
proof (induction a b i rule: str_eq_from.induct)
  case (1 a b i)
  show ?case
    by (cases "at a i = NUL"; cases "at b i = NUL"; cases "at a i = at b i")
      (auto simp: str_eq_from.simps [of a b i] cstr_drop_step cstr_drop_stop 1)
qed

lemma str_eq_eq: "str_eq a b \<longleftrightarrow> cstr a = cstr b"
  by (simp add: str_eq_def str_eq_from_eq)

lemma str_eq_n_from_eq:
  "str_eq_n_from a b mx i \<longleftrightarrow> take (mx - i) (cstr (drop i a)) = take (mx - i) (cstr (drop i b))"
proof (induction a b mx i rule: str_eq_n_from.induct)
  case (1 a b mx i)
  show ?case
  proof (cases "i < mx")
    case True
    then have "mx - i = Suc (mx - Suc i)" by simp
    with True show ?thesis
      by (cases "at a i = NUL"; cases "at b i = NUL"; cases "at a i = at b i")
        (auto simp: str_eq_n_from.simps [of a b mx i] cstr_drop_step cstr_drop_stop 1)
  qed (simp add: str_eq_n_from.simps [of a b mx i])
qed

lemma str_eq_n_eq: "str_eq_n a b mx \<longleftrightarrow> take mx (cstr a) = take mx (cstr b)"
  by (simp add: str_eq_n_def str_eq_n_from_eq)

lemma str_eq_32_eq: "str_eq_32 mx a b \<longleftrightarrow> take mx (cstr a) = take mx (cstr b)"
  by (simp add: str_eq_32_def str_eq_n_from_eq)

lemma copy_cstr_from_eq:
  "copy_cstr_from mx src i dst = dst @ take (mx - 1 - i) (cstr (drop i src))"
proof (induction mx src i dst rule: copy_cstr_from.induct)
  case (1 mx src i dst)
  show ?case
  proof (cases "i + 1 < mx \<and> at src i \<noteq> NUL")
    case True
    then have "mx - 1 - i = Suc (mx - 1 - Suc i)" by arith
    with True 1 show ?thesis
      by (simp add: copy_cstr_from.simps [of mx src i dst] cstr_drop_step)
  next
    case False
    then show ?thesis
      by (auto simp: copy_cstr_from.simps [of mx src i dst] cstr_drop_stop)
  qed
qed

lemma copy_cstr_eq: "0 < mx \<Longrightarrow> copy_cstr dst mx src = take (mx - 1) (cstr src)"
  by (simp add: copy_cstr_def copy_cstr_from_eq)

lemma cstr_id: "NUL \<notin> set s \<Longrightarrow> cstr s = s"
  by (auto simp: cstr_def takeWhile_eq_all_conv)

lemma cstr_no_NUL: "NUL \<notin> set (cstr s)"
  by (auto simp: cstr_def dest: set_takeWhileD)

end
