(* ===== verification/Bridge_Cfg.thy ===== *)
theory Bridge_Cfg
  imports Bridge_Mem
begin

text \<open>
  The bridge's configuration (\<^verbatim>\<open>ipacm_abi_bridge_v5.c\<close>, \<open>env_get\<close> to \<open>fd_is_ipa_dev\<close>): the
  process environment is read once, the switches are parsed from it, and interface names are
  matched against comma-separated lists.

  The operating system is a parameter \<^verbatim>\<open>os\<close>: its calls act on a kernel state \<^typ>\<open>'k\<close> that the
  bridge never looks into. \<open>sys_write\<close> is recorded as a trace of \<open>(fd, bytes)\<close> pairs.
\<close>

section \<open>State\<close>

record bridge_cfg =
  cfg_loaded :: bool
  cfg_mode_translate :: bool
  cfg_tx :: bool
  cfg_rx :: bool
  cfg_ext :: bool
  cfg_rt_flt_log :: bool
  cfg_rt_flt_translate :: bool
  cfg_fail_closed :: bool
  cfg_hexdump_once :: bool
  cfg_allow :: string
  cfg_translate :: string
  cfg_log_path :: string

record 'k bridge =
  g_cfg :: bridge_cfg
  g_hexdump_mask :: u32
  env_loaded :: bool
  env_buf :: string
  cached_fd :: int
  cached_is_ipa :: bool
  pmem :: mem
  kst :: 'k
  writes :: "(int \<times> string) list"

record 'k os =
  os_open :: "string \<Rightarrow> nat \<Rightarrow> nat \<Rightarrow> 'k \<Rightarrow> int \<times> 'k"
  os_read :: "int \<Rightarrow> nat \<Rightarrow> 'k \<Rightarrow> (int \<times> string) \<times> 'k"
  os_readlink :: "string \<Rightarrow> nat \<Rightarrow> 'k \<Rightarrow> (int \<times> string) \<times> 'k"
  os_ioctl :: "int \<Rightarrow> u32 \<Rightarrow> nat \<Rightarrow> mem \<Rightarrow> 'k \<Rightarrow> int \<times> mem \<times> 'k"

abbreviation MAX_ENV_BUF :: nat where "MAX_ENV_BUF \<equiv> 4096"
abbreviation MAX_CFG_STR :: nat where "MAX_CFG_STR \<equiv> 256"
abbreviation MAX_LOG_PATH :: nat where "MAX_LOG_PATH \<equiv> 160"

definition bridge_cfg_zero :: bridge_cfg where
  "bridge_cfg_zero = \<lparr>cfg_loaded = False, cfg_mode_translate = False, cfg_tx = False,
     cfg_rx = False, cfg_ext = False, cfg_rt_flt_log = False, cfg_rt_flt_translate = False,
     cfg_fail_closed = False, cfg_hexdump_once = False, cfg_allow = [], cfg_translate = [],
     cfg_log_path = []\<rparr>"

text \<open>The statics when the library is mapped into \<^verbatim>\<open>ipacm\<close>.\<close>

definition bridge_init :: "mem \<Rightarrow> 'k \<Rightarrow> 'k bridge" where
  "bridge_init m k = \<lparr>g_cfg = bridge_cfg_zero, g_hexdump_mask = 0, env_loaded = False,
     env_buf = [], cached_fd = -1, cached_is_ipa = False, pmem = m, kst = k, writes = []\<rparr>"

section \<open>Environment lookup\<close>

definition env_load :: "'k os \<Rightarrow> 'k bridge \<Rightarrow> 'k bridge" where
  "env_load os st =
     (if env_loaded st then st
      else
        (case os_open os ''/proc/self/environ'' 0 0 (kst st) of (fd, k) \<Rightarrow>
           let st = st\<lparr>kst := k\<rparr> in
           (if fd \<ge> 0 then
              (case os_read os fd (MAX_ENV_BUF - 1) (kst st) of ((n, bytes), k) \<Rightarrow>
                 st\<lparr>kst := k, env_buf := (if n < 0 then [] else take (nat n) bytes)\<rparr>)
            else st)\<lparr>env_loaded := True\<rparr>))"

function env_entry_end :: "string \<Rightarrow> nat \<Rightarrow> nat" where
  "env_entry_end env pos =
     (if pos < length env \<and> at env pos \<noteq> NUL then env_entry_end env (Suc pos) else pos)"
  by pat_completeness auto
termination
  by (relation "measure (\<lambda>(env, pos). length env - pos)") auto

declare env_entry_end.simps [simp del]

lemma env_entry_end_eq: "env_entry_end env pos = pos + length (cstr (drop pos env))"
proof (induction env pos rule: env_entry_end.induct)
  case (1 env pos)
  show ?case
  proof (cases "pos < length env \<and> at env pos \<noteq> NUL")
    case True
    with 1 show ?thesis
      by (simp add: env_entry_end.simps [of env pos] cstr_drop_step)
  next
    case False
    then have "cstr (drop pos env) = []"
      by (cases "pos < length env") (simp_all add: cstr_drop_stop, simp add: cstr_def)
    with False show ?thesis by (auto simp: env_entry_end.simps [of env pos])
  qed
qed

function env_copy_value :: "string \<Rightarrow> nat \<Rightarrow> nat \<Rightarrow> nat \<Rightarrow> string \<Rightarrow> string" where
  "env_copy_value env v pos out_sz out =
     (if v < pos \<and> length out + 1 < out_sz
      then env_copy_value env (Suc v) pos out_sz (out @ [at env v]) else out)"
  by pat_completeness auto
termination
  by (relation "measure (\<lambda>(env, v, pos, out_sz, out). pos - v)") auto

declare env_copy_value.simps [simp del]

text \<open>
  The scan of \<open>env_get\<close>: \<open>pos\<close> is the start of an entry; \<^const>\<open>None\<close> is the return value 0
  with an empty \<open>out\<close>, \<^const>\<open>Some\<close> the return value 1 with the string left in \<open>out\<close>.
\<close>

function env_scan :: "string \<Rightarrow> string \<Rightarrow> nat \<Rightarrow> nat \<Rightarrow> nat \<Rightarrow> string option" where
  "env_scan env name name_len out_sz start =
     (if start < length env then
        (let pos = env_entry_end env start in
         if pos > start + name_len \<and> at env (start + name_len) = CHR ''=''
            \<and> list_all (\<lambda>i. at env (start + i) = at name i) [0..<name_len]
         then Some (env_copy_value env (start + name_len + 1) pos out_sz [])
         else env_scan env name name_len out_sz (Suc pos))
      else None)"
  by pat_completeness auto
termination
  by (relation "measure (\<lambda>(env, name, name_len, out_sz, start). length env - start)")
    (auto simp: env_entry_end_eq)

declare env_scan.simps [simp del]

definition env_get :: "'k os \<Rightarrow> string \<Rightarrow> nat \<Rightarrow> 'k bridge \<Rightarrow> string option \<times> 'k bridge" where
  "env_get os name out_sz st =
     (let st = env_load os st in
      if out_sz = 0 then (None, st)
      else (env_scan (env_buf st) name (cstr_len name 128) out_sz 0, st))"

section \<open>Switches\<close>

definition bool_of_text :: "string \<Rightarrow> bool \<Rightarrow> bool" where
  "bool_of_text v dflt =
     (if str_eq v ''1'' \<or> str_eq v ''yes'' \<or> str_eq v ''true'' \<or> str_eq v ''on'' then True
      else if str_eq v ''0'' \<or> str_eq v ''no'' \<or> str_eq v ''false'' \<or> str_eq v ''off'' then False
      else dflt)"

definition parse_bool_env :: "'k os \<Rightarrow> string \<Rightarrow> bool \<Rightarrow> 'k bridge \<Rightarrow> bool \<times> 'k bridge" where
  "parse_bool_env os name dflt st =
     (case env_get os name 16 st of
        (None, st) \<Rightarrow> (dflt, st)
      | (Some v, st) \<Rightarrow> (bool_of_text v dflt, st))"

text \<open>
  One assignment \<^verbatim>\<open>g_cfg.<field> = parse_bool_env(...)\<close> and one
  \<^verbatim>\<open>if (env_get(...)) <update g_cfg>\<close> of \<open>load_cfg\<close>.
\<close>

definition load_flag ::
  "'k os \<Rightarrow> string \<Rightarrow> bool \<Rightarrow> (bool \<Rightarrow> bridge_cfg \<Rightarrow> bridge_cfg) \<Rightarrow> 'k bridge \<Rightarrow> 'k bridge" where
  "load_flag os name dflt upd st =
     (case parse_bool_env os name dflt st of (b, st) \<Rightarrow> st\<lparr>g_cfg := upd b (g_cfg st)\<rparr>)"

definition load_text ::
  "'k os \<Rightarrow> string \<Rightarrow> (string \<Rightarrow> bridge_cfg \<Rightarrow> bridge_cfg) \<Rightarrow> 'k bridge \<Rightarrow> 'k bridge" where
  "load_text os name upd st =
     (case env_get os name MAX_CFG_STR st of
        (None, st) \<Rightarrow> st
      | (Some v, st) \<Rightarrow> st\<lparr>g_cfg := upd v (g_cfg st)\<rparr>)"

definition cfg_defaults :: "bridge_cfg \<Rightarrow> bridge_cfg" where
  "cfg_defaults c = c\<lparr>cfg_allow := copy_cstr (cfg_allow c) MAX_CFG_STR ''eth0'',
     cfg_translate := copy_cstr (cfg_translate c) MAX_CFG_STR [],
     cfg_log_path := copy_cstr (cfg_log_path c) MAX_LOG_PATH ''/usrdata/ipacm_abi_bridge_v5.log''\<rparr>"

definition load_cfg_flags :: "'k os \<Rightarrow> 'k bridge \<Rightarrow> 'k bridge" where
  "load_cfg_flags os st =
     (let st = load_flag os ''IPA_ABI_BRIDGE_TX'' True (\<lambda>b c. c\<lparr>cfg_tx := b\<rparr>) st;
          st = load_flag os ''IPA_ABI_BRIDGE_RX'' True (\<lambda>b c. c\<lparr>cfg_rx := b\<rparr>) st;
          st = load_flag os ''IPA_ABI_BRIDGE_EXT'' True (\<lambda>b c. c\<lparr>cfg_ext := b\<rparr>) st;
          st = load_flag os ''IPA_ABI_BRIDGE_RT_FLT_LOG'' True (\<lambda>b c. c\<lparr>cfg_rt_flt_log := b\<rparr>) st;
          st = load_flag os ''IPA_ABI_BRIDGE_RT_FLT_TRANSLATE'' False
                 (\<lambda>b c. c\<lparr>cfg_rt_flt_translate := b\<rparr>) st;
          st = load_flag os ''IPA_ABI_BRIDGE_FAIL_CLOSED'' True (\<lambda>b c. c\<lparr>cfg_fail_closed := b\<rparr>) st
      in load_flag os ''IPA_ABI_BRIDGE_HEXDUMP_ONCE'' True (\<lambda>b c. c\<lparr>cfg_hexdump_once := b\<rparr>) st)"

definition load_cfg_texts :: "'k os \<Rightarrow> 'k bridge \<Rightarrow> 'k bridge" where
  "load_cfg_texts os st =
     (let st = load_text os ''IPA_ABI_BRIDGE_MODE''
                 (\<lambda>v c. if str_eq v ''translate'' then c\<lparr>cfg_mode_translate := True\<rparr> else c) st;
          st = load_text os ''IPA_ABI_BRIDGE_ALLOW_IFACES''
                 (\<lambda>v c. c\<lparr>cfg_allow := copy_cstr (cfg_allow c) MAX_CFG_STR v\<rparr>) st;
          st = load_text os ''IPA_ABI_BRIDGE_TRANSLATE_IFACES''
                 (\<lambda>v c. c\<lparr>cfg_translate := copy_cstr (cfg_translate c) MAX_CFG_STR v\<rparr>) st
      in load_text os ''IPA_ABI_BRIDGE_LOG''
           (\<lambda>v c. c\<lparr>cfg_log_path := copy_cstr (cfg_log_path c) MAX_LOG_PATH v\<rparr>) st)"

definition load_cfg :: "'k os \<Rightarrow> 'k bridge \<Rightarrow> 'k bridge" where
  "load_cfg os st =
     (if cfg_loaded (g_cfg st) then st
      else
        let st = st\<lparr>g_cfg := (g_cfg st)\<lparr>cfg_loaded := True, cfg_mode_translate := False\<rparr>\<rparr>;
            st = load_cfg_flags os st;
            st = st\<lparr>g_cfg := cfg_defaults (g_cfg st)\<rparr>
        in load_cfg_texts os st)"

section \<open>Interface lists\<close>

function csv_skip :: "string \<Rightarrow> nat \<Rightarrow> nat" where
  "csv_skip csv pos =
     (if at csv pos = CHR '' '' \<or> at csv pos = CHR '','' then csv_skip csv (Suc pos) else pos)"
  by pat_completeness auto
termination
  by (relation "measure (\<lambda>(csv, pos). length csv - pos)") (auto simp: at_def split: if_splits)

function csv_token_end :: "string \<Rightarrow> nat \<Rightarrow> nat" where
  "csv_token_end csv pos =
     (if at csv pos \<noteq> NUL \<and> at csv pos \<noteq> CHR '','' then csv_token_end csv (Suc pos) else pos)"
  by pat_completeness auto
termination
  by (relation "measure (\<lambda>(csv, pos). length csv - pos)") (auto simp: at_def split: if_splits)

declare csv_skip.simps [simp del] csv_token_end.simps [simp del]

primrec csv_trim_len :: "string \<Rightarrow> nat \<Rightarrow> nat \<Rightarrow> nat" where
  "csv_trim_len csv start 0 = 0"
| "csv_trim_len csv start (Suc len) =
     (if at csv (start + len) = CHR '' '' then csv_trim_len csv start len else Suc len)"

lemma csv_skip_ge: "pos \<le> csv_skip csv pos"
  by (induction csv pos rule: csv_skip.induct) (subst csv_skip.simps, auto)

lemma csv_token_end_ge: "pos \<le> csv_token_end csv pos"
  by (induction csv pos rule: csv_token_end.induct) (subst csv_token_end.simps, auto)

lemma csv_step_advances:
  "at csv pos \<noteq> NUL \<Longrightarrow> pos < csv_token_end csv (csv_skip csv pos)"
proof (cases "at csv pos = CHR '' '' \<or> at csv pos = CHR '',''")
  case True
  then have "Suc pos \<le> csv_skip csv pos"
    using csv_skip_ge [of "Suc pos" csv] by (simp add: csv_skip.simps [of csv pos])
  then show ?thesis using csv_token_end_ge [of "csv_skip csv pos" csv] by simp
next
  case False
  assume "at csv pos \<noteq> NUL"
  with False have "csv_skip csv pos = pos"
    and "csv_token_end csv pos = csv_token_end csv (Suc pos)"
    by (auto simp: csv_skip.simps [of csv pos] csv_token_end.simps [of csv pos])
  then show ?thesis using csv_token_end_ge [of "Suc pos" csv] by simp
qed

function csv_loop :: "string \<Rightarrow> string \<Rightarrow> nat \<Rightarrow> nat \<Rightarrow> bool" where
  "csv_loop csv name nlen pos =
     (if at csv pos \<noteq> NUL then
        (let start = csv_skip csv pos;
             pos = csv_token_end csv start;
             len = csv_trim_len csv start (pos - start) in
         if len = nlen \<and> list_all (\<lambda>i. at csv (start + i) = at name i) [0..<len] then True
         else csv_loop csv name nlen pos)
      else False)"
  by pat_completeness auto
termination
proof (relation "measure (\<lambda>(csv, name, nlen, pos). length csv - pos)", goal_cases)
  case (2 csv name nlen pos)
  then have "pos < length csv" by (auto simp: at_def split: if_splits)
  with 2 show ?case using csv_step_advances [of csv pos] by auto
qed simp

declare csv_loop.simps [simp del]

text \<open>
  \<open>csv_has\<close>: \<open>name\<close> is the fixed array of \<open>name_max\<close> characters in the query argument
  (\<^verbatim>\<open>IPA_RESOURCE_NAME_MAX\<close>, a constant of the kernel header).
\<close>

definition csv_has :: "nat \<Rightarrow> string \<Rightarrow> string \<Rightarrow> bool" where
  "csv_has name_max csv name =
     (let nlen = cstr_len name name_max in
      if at csv 0 = NUL then False
      else if at csv 0 = CHR ''*'' \<and> at csv 1 = NUL then True
      else csv_loop csv name nlen 0)"

definition iface_allowed :: "nat \<Rightarrow> 'k os \<Rightarrow> string \<Rightarrow> 'k bridge \<Rightarrow> bool \<times> 'k bridge" where
  "iface_allowed name_max os name st =
     (let st = load_cfg os st in (csv_has name_max (cfg_allow (g_cfg st)) name, st))"

definition iface_translate_allowed :: "nat \<Rightarrow> 'k os \<Rightarrow> string \<Rightarrow> 'k bridge \<Rightarrow> bool \<times> 'k bridge" where
  "iface_translate_allowed name_max os name st =
     (let st = load_cfg os st in
      (cfg_mode_translate (g_cfg st) \<and> csv_has name_max (cfg_translate (g_cfg st)) name, st))"

section \<open>Is this descriptor the IPA device?\<close>

text \<open>
  The digits of \<^verbatim>\<open>(unsigned int)fd\<close>, least significant first, as the \<^verbatim>\<open>do\<close>-\<^verbatim>\<open>while\<close> loop stores
  them in \<^verbatim>\<open>rev\<close>; \<^const>\<open>None\<close> is the early \<^verbatim>\<open>return 0\<close> when \<^verbatim>\<open>rev\<close> (12 bytes) is full.
\<close>

fun rev_digits :: "nat \<Rightarrow> string \<Rightarrow> string option" where
  "rev_digits v acc =
     (if length acc \<ge> 12 then None
      else
        let acc = acc @ [char_of (48 + v mod 10)] in
        if v div 10 = 0 then Some acc else rev_digits (v div 10) acc)"

declare rev_digits.simps [simp del]

definition fd_is_ipa_dev :: "'k os \<Rightarrow> int \<Rightarrow> 'k bridge \<Rightarrow> bool \<times> 'k bridge" where
  "fd_is_ipa_dev os fd st =
     (if fd = cached_fd st then (cached_is_ipa st, st)
      else
        let st = st\<lparr>cached_fd := fd, cached_is_ipa := False\<rparr> in
        (case rev_digits (unat (word_of_int fd :: u32)) [] of
           None \<Rightarrow> (False, st)
         | Some digits \<Rightarrow>
             (case os_readlink os (''/proc/self/fd/'' @ rev digits) 63 (kst st) of
                ((n, link), k) \<Rightarrow>
                  let st = st\<lparr>kst := k\<rparr> in
                  if n \<le> 0 then (False, st)
                  else
                    let st = (if str_eq_n (take (nat n) link) ''/dev/ipa'' 8
                              then st\<lparr>cached_is_ipa := True\<rparr> else st)
                    in (cached_is_ipa st, st))))"

section \<open>Environment lookup against a reference\<close>

text \<open>
  The environment block is a sequence of NUL-terminated entries; a variable's value is what
  follows \<open>NAME=\<close> in the first entry that starts so.
\<close>

function env_entries :: "string \<Rightarrow> string list" where
  "env_entries s =
     (if s = [] then [] else cstr s # env_entries (drop (Suc (length (cstr s))) s))"
  by pat_completeness auto
termination
  by (relation "measure length") auto

declare env_entries.simps [simp del]

definition env_lookup :: "string \<Rightarrow> string list \<Rightarrow> string option" where
  "env_lookup name es =
     map_option (drop (Suc (length name)))
       (find (\<lambda>e. take (Suc (length name)) e = name @ ''='') es)"

lemma length_cstr_le: "length (cstr s) \<le> length s"
  unfolding cstr_def by (rule length_takeWhile_le)

lemma cstr_nth: "i < length (cstr (drop k s)) \<Longrightarrow> cstr (drop k s) ! i = at s (k + i)"
proof -
  assume i: "i < length (cstr (drop k s))"
  then have "i < length (drop k s)"
    using length_cstr_le [of "drop k s"] by simp
  with i show ?thesis by (auto simp: cstr_def at_def takeWhile_nth)
qed

lemma env_copy_value_eq:
  "length out < sz \<Longrightarrow> pos \<le> length env \<Longrightarrow>
   env_copy_value env v pos sz out = out @ take (sz - 1 - length out) (take (pos - v) (drop v env))"
proof (induction env v pos sz out rule: env_copy_value.induct)
  case (1 env v pos sz out)
  show ?case
  proof (cases "v < pos \<and> length out + 1 < sz")
    case True
    with 1 have "at env v = env ! v" "drop v env = env ! v # drop (Suc v) env"
      by (auto simp: at_def Cons_nth_drop_Suc)
    moreover from True have "sz - 1 - length out = Suc (sz - 1 - Suc (length out))"
      "pos - v = Suc (pos - Suc v)" by arith+
    ultimately show ?thesis
      using 1 True by (simp add: env_copy_value.simps [of env v pos sz out])
  next
    case False
    with 1 show ?thesis by (auto simp: env_copy_value.simps [of env v pos sz out])
  qed
qed

lemma env_entry_match:
  fixes env :: string and start :: nat
  defines "e \<equiv> cstr (drop start env)"
  shows "(start + length e > start + length name \<and> at env (start + length name) = CHR ''=''
      \<and> list_all (\<lambda>i. at env (start + i) = at name i) [0..<length name])
    \<longleftrightarrow> take (Suc (length name)) e = name @ ''=''" (is "?l \<longleftrightarrow> ?r")
proof
  assume ?l
  then show ?r
    by (intro nth_equalityI)
      (auto simp: e_def cstr_nth nth_append list_all_iff at_def less_Suc_eq)
next
  assume r: ?r
  then have len: "length name < length e"
    by (metis Suc_le_eq length_append_singleton length_take min.cobounded1)
  have "e ! i = (name @ ''='') ! i" if "i \<le> length name" for i
    using r that by (metis le_imp_less_Suc nth_take)
  then have nth: "at env (start + i) = (name @ ''='') ! i" if "i \<le> length name" for i
    using that len by (simp add: e_def cstr_nth)
  then show ?l
    using len nth [of "length name"] by (auto simp: list_all_iff nth_append at_def)
qed

lemma env_scan_lookup:
  "0 < sz \<Longrightarrow> env_scan env name (length name) sz start =
     map_option (take (sz - 1)) (env_lookup name (env_entries (drop start env)))"
proof (induction env name "length name" sz start rule: env_scan.induct)
  case (1 env name sz start)
  let ?e = "cstr (drop start env)" and ?n = "length name"
  show ?case
  proof (cases "start < length env")
    case True
    then have ents: "env_entries (drop start env)
        = ?e # env_entries (drop (Suc (start + length ?e)) env)"
      by (subst env_entries.simps) (simp add: add.commute)
    have le: "start + length ?e \<le> length env"
      using length_cstr_le [of "drop start env"] True by simp
    have tk: "take (length ?e) (drop start env) = ?e"
      by (simp only: cstr_def takeWhile_eq_take [symmetric])
    show ?thesis
    proof (cases "take (Suc ?n) ?e = name @ ''=''")
      case match: True
      then have cond: "start + length ?e > start + ?n \<and> at env (start + ?n) = CHR ''=''
          \<and> list_all (\<lambda>i. at env (start + i) = at name i) [0..<?n]"
        using env_entry_match [where start = start and env = env and name = name] by simp
      have "drop (Suc ?n) ?e = drop (Suc ?n) (take (length ?e) (drop start env))"
        by (simp only: tk)
      then have "take (length ?e - Suc ?n) (drop (Suc (start + ?n)) env) = drop (Suc ?n) ?e"
        by (simp add: drop_take add.commute)
      then have "env_copy_value env (start + ?n + 1) (start + length ?e) sz []
          = take (sz - 1) (drop (Suc ?n) ?e)"
        using 1(2) le by (simp add: env_copy_value_eq)
      with True cond match show ?thesis
        by (simp add: env_scan.simps [of env name ?n sz start] env_entry_end_eq ents env_lookup_def)
    next
      case False
      then have "\<not> (start + length ?e > start + ?n \<and> at env (start + ?n) = CHR ''=''
          \<and> list_all (\<lambda>i. at env (start + i) = at name i) [0..<?n])"
        using env_entry_match [where start = start and env = env and name = name] by simp
      with True False show ?thesis
        using 1(1) [OF True refl] 1(2)
        by (auto simp: Let_def env_scan.simps [of env name ?n sz start] env_entry_end_eq ents
            env_lookup_def)
    qed
  qed (simp add: env_scan.simps [of env name ?n sz start] env_entries.simps [of "[]"] env_lookup_def)
qed

lemma env_get_lookup:
  assumes "NUL \<notin> set name" and "length name \<le> 128" and "0 < sz"
  shows "fst (env_get os name sz st) =
    map_option (take (sz - 1)) (env_lookup name (env_entries (env_buf (env_load os st))))"
  using assms by (simp add: env_get_def Let_def cstr_len_eq cstr_id env_scan_lookup)

section \<open>Interface lists against a reference\<close>

text \<open>
  The list is cut at commas; each token loses the separators before it and the blanks after it.
\<close>

definition is_sep :: "char \<Rightarrow> bool" where
  "is_sep c \<longleftrightarrow> c = CHR '' '' \<or> c = CHR '',''"

definition rtrim :: "string \<Rightarrow> string" where
  "rtrim s = rev (dropWhile (\<lambda>c. c = CHR '' '') (rev s))"

function csv_tokens :: "string \<Rightarrow> string list" where
  "csv_tokens s =
     (if s = [] then []
      else
        let s1 = dropWhile is_sep s in
        rtrim (takeWhile (\<lambda>c. c \<noteq> CHR '','') s1) # csv_tokens (dropWhile (\<lambda>c. c \<noteq> CHR '','') s1))"
  by pat_completeness auto
termination
proof (relation "measure length", goal_cases)
  case (2 s s1)
  show ?case
  proof (cases "s1 = s")
    case True
    with 2 have "\<not> is_sep (hd s)" by (metis hd_dropWhile)
    with 2 True show ?thesis
      by (cases s) (auto simp: is_sep_def length_dropWhile_le le_imp_less_Suc)
  next
    case False
    with 2 have "length s1 < length s"
      by (cases s) (auto simp: length_dropWhile_le le_imp_less_Suc split: if_splits)
    then show ?thesis
      using length_dropWhile_le [of "\<lambda>c. c \<noteq> CHR '',''" s1] by simp
  qed
qed simp

declare csv_tokens.simps [simp del]

lemma csv_skip_eq: "csv_skip csv pos = pos + length (takeWhile is_sep (drop pos csv))"
proof (induction csv pos rule: csv_skip.induct)
  case (1 csv pos)
  show ?case
  proof (cases "pos < length csv")
    case True
    with 1 show ?thesis
      by (auto simp: csv_skip.simps [of csv pos] at_def is_sep_def Cons_nth_drop_Suc [symmetric])
  qed (simp add: csv_skip.simps [of csv pos] at_def)
qed

lemma csv_token_end_eq:
  "NUL \<notin> set csv \<Longrightarrow>
   csv_token_end csv pos = pos + length (takeWhile (\<lambda>c. c \<noteq> CHR '','') (drop pos csv))"
proof (induction csv pos rule: csv_token_end.induct)
  case (1 csv pos)
  show ?case
  proof (cases "pos < length csv")
    case True
    with 1 have "csv ! pos \<noteq> NUL" by (metis nth_mem)
    with True 1 show ?thesis
      by (auto simp: csv_token_end.simps [of csv pos] at_def Cons_nth_drop_Suc [symmetric])
  qed (simp add: csv_token_end.simps [of csv pos] at_def)
qed

lemma rtrim_snoc: "rtrim (xs @ [x]) = (if x = CHR '' '' then rtrim xs else xs @ [x])"
  by (simp add: rtrim_def)

lemma csv_trim_len_eq:
  "start + len \<le> length csv \<Longrightarrow>
   take (csv_trim_len csv start len) (drop start csv) = rtrim (take len (drop start csv))
   \<and> csv_trim_len csv start len \<le> len"
proof (induction len)
  case 0
  show ?case by (simp add: rtrim_def)
next
  case (Suc len)
  then have "take (Suc len) (drop start csv) = take len (drop start csv) @ [at csv (start + len)]"
    by (simp add: take_Suc_conv_app_nth at_def)
  then show ?case using Suc by (auto simp: rtrim_snoc)
qed

lemma prefix_test_eq:
  assumes "start + len \<le> length csv"
  shows "(len = min mx (length (cstr name)) \<and>
           list_all (\<lambda>i. at csv (start + i) = at name i) [0..<len])
         \<longleftrightarrow> take len (drop start csv) = take mx (cstr name)" (is "?l \<longleftrightarrow> ?r")
proof
  assume ?l
  then show ?r
    using assms cstr_nth [of _ 0 name]
    by (intro nth_equalityI) (auto simp: list_all_iff at_def split: if_splits)
next
  assume r: ?r
  then have len: "len = min mx (length (cstr name))"
    using assms by (metis (no_types, lifting) length_drop length_take le_diff_conv2 min.commute
        min_absorb2 add.commute add_leD1)
  have "at csv (start + i) = at name i" if "i < len" for i
  proof -
    have "take len (drop start csv) ! i = take mx (cstr name) ! i" by (simp add: r)
    then show ?thesis
      using that assms len cstr_nth [of i 0 name] by (auto simp: at_def min_def split: if_splits)
  qed
  with len show ?l by (simp add: list_all_iff)
qed

lemma csv_loop_tokens:
  "NUL \<notin> set csv \<Longrightarrow> csv_loop csv name (min mx (length (cstr name))) pos
     \<longleftrightarrow> take mx (cstr name) \<in> set (csv_tokens (drop pos csv))"
proof (induction csv name "min mx (length (cstr name))" pos rule: csv_loop.induct)
  case (1 csv name pos)
  let ?n = "min mx (length (cstr name))"
  define start where "start = csv_skip csv pos"
  define pos' where "pos' = csv_token_end csv start"
  define len where "len = csv_trim_len csv start (pos' - start)"
  show ?case
  proof (cases "pos < length csv")
    case True
    with 1(2) have nz: "at csv pos \<noteq> NUL" by (auto simp: at_def dest: nth_mem)
    let ?s1 = "drop start csv"
    have s1: "?s1 = dropWhile is_sep (drop pos csv)"
      by (simp add: start_def csv_skip_eq dropWhile_eq_drop add.commute)
    have le: "start \<le> length csv"
      using True length_takeWhile_le [of is_sep "drop pos csv"] by (simp add: start_def csv_skip_eq)
    have tok: "take (pos' - start) ?s1 = takeWhile (\<lambda>c. c \<noteq> CHR '','') ?s1"
      and rest: "drop pos' csv = dropWhile (\<lambda>c. c \<noteq> CHR '','') ?s1"
      and le': "start + (pos' - start) \<le> length csv"
      using 1(2) le length_takeWhile_le [of "\<lambda>c. c \<noteq> CHR '',''" ?s1]
      by (simp_all add: pos'_def csv_token_end_eq takeWhile_eq_take [symmetric] dropWhile_eq_drop
          add.commute)
    have len: "take len ?s1 = rtrim (takeWhile (\<lambda>c. c \<noteq> CHR '','') ?s1)"
      and le'': "start + len \<le> length csv"
      using csv_trim_len_eq [OF le'] le' tok by (auto simp: len_def)
    have toks: "csv_tokens (drop pos csv) = take len ?s1 # csv_tokens (drop pos' csv)"
      using True by (subst csv_tokens.simps) (simp add: Let_def s1 [symmetric] len rest)
    have "csv_loop csv name ?n pos \<longleftrightarrow> (len = ?n
        \<and> list_all (\<lambda>i. at csv (start + i) = at name i) [0..<len]) \<or> csv_loop csv name ?n pos'"
      using nz by (subst csv_loop.simps) (auto simp: Let_def start_def pos'_def len_def)
    moreover have "take len ?s1 = take mx (cstr name) \<or> csv_loop csv name ?n pos'
        \<longleftrightarrow> take mx (cstr name) \<in> set (csv_tokens (drop pos csv))"
    proof (cases "take len ?s1 = take mx (cstr name)")
      case True
      then show ?thesis by (simp add: toks)
    next
      case False
      then have "\<not> (len = ?n \<and> list_all (\<lambda>i. at csv (start + i) = at name i) [0..<len])"
        using prefix_test_eq [OF le''] by blast
      with 1(1) [OF nz start_def pos'_def len_def] 1(2) False show ?thesis
        by (auto simp: toks)
    qed
    ultimately show ?thesis using prefix_test_eq [OF le'', of mx name] by simp
  qed (simp add: csv_loop.simps [of csv name ?n pos] at_def csv_tokens.simps [of "[]"])
qed

lemma csv_has_tokens:
  assumes "NUL \<notin> set csv"
  shows "csv_has mx csv name \<longleftrightarrow>
    csv \<noteq> [] \<and> (csv = ''*'' \<or> take mx (cstr name) \<in> set (csv_tokens csv))"
proof -
  have "at csv 0 = NUL \<longleftrightarrow> csv = []"
    using assms by (cases csv) (auto simp: at_def)
  moreover have "at csv 0 = CHR ''*'' \<and> at csv 1 = NUL \<longleftrightarrow> csv = ''*''"
    using assms by (cases csv; cases "tl csv") (auto simp: at_def)
  ultimately show ?thesis
    using csv_loop_tokens [OF assms, of name mx 0]
    by (auto simp: csv_has_def cstr_len_eq Let_def)
qed

section \<open>The configuration is a function of the environment\<close>

definition env_val :: "string \<Rightarrow> string \<Rightarrow> nat \<Rightarrow> string option" where
  "env_val env name sz = map_option (take (sz - 1)) (env_lookup name (env_entries env))"

definition env_flag :: "string \<Rightarrow> string \<Rightarrow> bool \<Rightarrow> bool" where
  "env_flag env name dflt =
     (case env_val env name 16 of None \<Rightarrow> dflt | Some v \<Rightarrow> bool_of_text v dflt)"

definition env_text :: "string \<Rightarrow> string \<Rightarrow> nat \<Rightarrow> string \<Rightarrow> string" where
  "env_text env name sz dflt =
     (case env_val env name MAX_CFG_STR of None \<Rightarrow> dflt | Some v \<Rightarrow> take (sz - 1) (cstr v))"

definition cfg_of_env :: "string \<Rightarrow> bridge_cfg" where
  "cfg_of_env env = \<lparr>cfg_loaded = True,
     cfg_mode_translate = (case env_val env ''IPA_ABI_BRIDGE_MODE'' MAX_CFG_STR of
        None \<Rightarrow> False | Some v \<Rightarrow> str_eq v ''translate''),
     cfg_tx = env_flag env ''IPA_ABI_BRIDGE_TX'' True,
     cfg_rx = env_flag env ''IPA_ABI_BRIDGE_RX'' True,
     cfg_ext = env_flag env ''IPA_ABI_BRIDGE_EXT'' True,
     cfg_rt_flt_log = env_flag env ''IPA_ABI_BRIDGE_RT_FLT_LOG'' True,
     cfg_rt_flt_translate = env_flag env ''IPA_ABI_BRIDGE_RT_FLT_TRANSLATE'' False,
     cfg_fail_closed = env_flag env ''IPA_ABI_BRIDGE_FAIL_CLOSED'' True,
     cfg_hexdump_once = env_flag env ''IPA_ABI_BRIDGE_HEXDUMP_ONCE'' True,
     cfg_allow = env_text env ''IPA_ABI_BRIDGE_ALLOW_IFACES'' MAX_CFG_STR ''eth0'',
     cfg_translate = env_text env ''IPA_ABI_BRIDGE_TRANSLATE_IFACES'' MAX_CFG_STR [],
     cfg_log_path = env_text env ''IPA_ABI_BRIDGE_LOG'' MAX_LOG_PATH
       ''/usrdata/ipacm_abi_bridge_v5.log''\<rparr>"

lemma env_load_loaded [simp]: "env_loaded (env_load os st)"
  by (simp add: env_load_def Let_def split: prod.split)

lemma env_load_id: "env_loaded st \<Longrightarrow> env_load os st = st"
  by (simp add: env_load_def)

lemma env_load_frame [frame_simps]:
  "g_cfg (env_load os st) = g_cfg st" "pmem (env_load os st) = pmem st"
  "writes (env_load os st) = writes st" "g_hexdump_mask (env_load os st) = g_hexdump_mask st"
  "cached_fd (env_load os st) = cached_fd st" "cached_is_ipa (env_load os st) = cached_is_ipa st"
  by (simp_all add: env_load_def Let_def split: prod.split)

lemma env_load_cfg_update:
  "env_load os (st\<lparr>g_cfg := c\<rparr>) = (env_load os st)\<lparr>g_cfg := c\<rparr>"
  by (simp add: env_load_def Let_def split: prod.split)

lemma env_get_eq:
  assumes "NUL \<notin> set name" and "length name \<le> 128" and "0 < sz"
  shows "env_get os name sz st = (env_val (env_buf (env_load os st)) name sz, env_load os st)"
proof -
  have "snd (env_get os name sz st) = env_load os st"
    using assms(3) by (simp add: env_get_def Let_def)
  with env_get_lookup [OF assms] show ?thesis
    by (simp add: env_val_def prod_eq_iff)
qed

lemma parse_bool_env_eq:
  assumes "NUL \<notin> set name" and "length name \<le> 128"
  shows "parse_bool_env os name d st =
    (env_flag (env_buf (env_load os st)) name d, env_load os st)"
  using assms by (simp add: parse_bool_env_def env_get_eq env_flag_def split: option.split)

lemma load_flag_eq:
  assumes "NUL \<notin> set name" and "length name \<le> 128"
  shows "load_flag os name d upd (st\<lparr>g_cfg := c\<rparr>) =
    (env_load os st)\<lparr>g_cfg := upd (env_flag (env_buf (env_load os st)) name d) c\<rparr>"
  using assms by (simp add: load_flag_def parse_bool_env_eq env_load_cfg_update)

lemma load_text_eq:
  assumes "NUL \<notin> set name" and "length name \<le> 128"
  shows "load_text os name upd (st\<lparr>g_cfg := c\<rparr>) =
    (env_load os st)\<lparr>g_cfg := (case env_val (env_buf (env_load os st)) name MAX_CFG_STR of
        None \<Rightarrow> c | Some v \<Rightarrow> upd v c)\<rparr>"
  using assms by (simp add: load_text_def env_get_eq env_load_cfg_update split: option.split)

lemma load_cfg_flags_eq:
  fixes os :: "'k os" and st :: "'k bridge"
  defines "env \<equiv> env_buf (env_load os st)"
  shows "load_cfg_flags os (st\<lparr>g_cfg := c\<rparr>) = (env_load os st)\<lparr>g_cfg := c\<lparr>
     cfg_tx := env_flag env ''IPA_ABI_BRIDGE_TX'' True,
     cfg_rx := env_flag env ''IPA_ABI_BRIDGE_RX'' True,
     cfg_ext := env_flag env ''IPA_ABI_BRIDGE_EXT'' True,
     cfg_rt_flt_log := env_flag env ''IPA_ABI_BRIDGE_RT_FLT_LOG'' True,
     cfg_rt_flt_translate := env_flag env ''IPA_ABI_BRIDGE_RT_FLT_TRANSLATE'' False,
     cfg_fail_closed := env_flag env ''IPA_ABI_BRIDGE_FAIL_CLOSED'' True,
     cfg_hexdump_once := env_flag env ''IPA_ABI_BRIDGE_HEXDUMP_ONCE'' True\<rparr>\<rparr>"
  by (simp add: load_cfg_flags_def load_flag_eq Let_def env_load_id env_def)

lemma load_cfg_texts_eq:
  assumes "env_loaded st" and "env = env_buf st"
  shows "load_cfg_texts os (st\<lparr>g_cfg := c\<rparr>) = st\<lparr>g_cfg := c\<lparr>
     cfg_mode_translate := (case env_val env ''IPA_ABI_BRIDGE_MODE'' MAX_CFG_STR of
        None \<Rightarrow> cfg_mode_translate c | Some v \<Rightarrow> str_eq v ''translate'' \<or> cfg_mode_translate c),
     cfg_allow := env_text env ''IPA_ABI_BRIDGE_ALLOW_IFACES'' MAX_CFG_STR (cfg_allow c),
     cfg_translate := env_text env ''IPA_ABI_BRIDGE_TRANSLATE_IFACES'' MAX_CFG_STR (cfg_translate c),
     cfg_log_path := env_text env ''IPA_ABI_BRIDGE_LOG'' MAX_LOG_PATH (cfg_log_path c)\<rparr>\<rparr>"
  using assms
  apply (simp add: load_cfg_texts_def load_text_eq Let_def env_load_id env_text_def copy_cstr_eq)
  apply (cases "env_val env ''IPA_ABI_BRIDGE_MODE'' MAX_CFG_STR";
      cases "env_val env ''IPA_ABI_BRIDGE_ALLOW_IFACES'' MAX_CFG_STR";
      cases "env_val env ''IPA_ABI_BRIDGE_TRANSLATE_IFACES'' MAX_CFG_STR";
      cases "env_val env ''IPA_ABI_BRIDGE_LOG'' MAX_CFG_STR"; simp)
  done

lemma load_cfg_eq:
  assumes "\<not> cfg_loaded (g_cfg st)"
  shows "load_cfg os st = (env_load os st)\<lparr>g_cfg := cfg_of_env (env_buf (env_load os st))\<rparr>"
  using assms
  by (simp add: load_cfg_def Let_def load_cfg_flags_eq load_cfg_texts_eq [OF _ refl] cfg_defaults_def
      copy_cstr_eq cstr_id cfg_of_env_def cong: option.case_cong)

lemma load_cfg_loaded [simp]: "cfg_loaded (g_cfg (load_cfg os st))"
proof (cases "cfg_loaded (g_cfg st)")
  case True
  then show ?thesis by (simp add: load_cfg_def)
qed (simp add: load_cfg_eq cfg_of_env_def)

lemma load_cfg_id: "cfg_loaded (g_cfg st) \<Longrightarrow> load_cfg os st = st"
  by (simp add: load_cfg_def)

lemma load_cfg_frame [frame_simps]:
  "pmem (load_cfg os st) = pmem st" "writes (load_cfg os st) = writes st"
  "g_hexdump_mask (load_cfg os st) = g_hexdump_mask st"
  "cached_fd (load_cfg os st) = cached_fd st" "cached_is_ipa (load_cfg os st) = cached_is_ipa st"
  by (cases "cfg_loaded (g_cfg st)"; simp add: load_cfg_id load_cfg_eq frame_simps)+

text \<open>Every string of a configuration read from the environment is NUL-free and fits its array.\<close>

definition cfg_wf :: "bridge_cfg \<Rightarrow> bool" where
  "cfg_wf c \<longleftrightarrow> NUL \<notin> set (cfg_allow c) \<and> length (cfg_allow c) < MAX_CFG_STR
     \<and> NUL \<notin> set (cfg_translate c) \<and> length (cfg_translate c) < MAX_CFG_STR
     \<and> NUL \<notin> set (cfg_log_path c) \<and> length (cfg_log_path c) < MAX_LOG_PATH"

lemma env_text_wf:
  "NUL \<notin> set dflt \<Longrightarrow> length dflt < sz \<Longrightarrow>
   NUL \<notin> set (env_text env name sz dflt) \<and> length (env_text env name sz dflt) < sz"
  using cstr_no_NUL by (auto simp: env_text_def split: option.split dest: in_set_takeD)

lemma cfg_of_env_wf: "cfg_wf (cfg_of_env env)"
  by (simp add: cfg_wf_def cfg_of_env_def env_text_wf)

end
