(* ===== verification/Bridge_Log.thy ===== *)
theory Bridge_Log
  imports Bridge_Cfg
begin

text \<open>
  The binary interface the bridge is compiled against and the bridge's log
  (\<^verbatim>\<open>ipacm_abi_bridge_v5.c\<close>, \<open>log_open\<close> to \<open>log_hexdump_once\<close> and \<open>log_translate_ioctl\<close>).

  The layout of the ioctl structures comes from the kernel header \<^verbatim>\<open>linux/msm_ipa.h\<close>, which is
  not part of the sources: it is the parameter \<^verbatim>\<open>abi\<close>, with \<open>sizeof\<close>, \<open>offsetof\<close>, typed field
  loads and the ioctl numbers as its components. A log line is the list of \<^verbatim>\<open>write\<close> calls that
  produce it.
\<close>

unbundle bit_operations_syntax

section \<open>The compiled-in interface\<close>

datatype cstruct =
    S_tx_intf_prop | S_rx_intf_prop | S_ext_intf_prop
  | S_query_intf_tx_props | S_query_intf_rx_props | S_query_intf_ext_props
  | S_rt_rule | S_rt_rule_add | S_flt_rule | S_flt_rule_add
  | S_add_rt_rule | S_add_rt_rule_v2 | S_add_rt_rule_after | S_add_rt_rule_after_v2
  | S_add_flt_rule | S_add_flt_rule_v2 | S_add_flt_rule_after | S_add_flt_rule_after_v2
  | S_mdfy_rt_rule | S_mdfy_rt_rule_v2 | S_del_rt_rule
  | S_mdfy_flt_rule | S_mdfy_flt_rule_v2 | S_del_flt_rule | S_generate_flt_eq

datatype cfield =
    F_ip | F_attrib | F_dst_pipe | F_alt_dst_pipe | F_hdr_name | F_hdr_l2_type | F_src_pipe
  | F_name | F_num_tx_props | F_num_rx_props | F_num_ext_props | F_tx | F_rx | F_ext
  | F_action | F_rt_tbl_idx | F_mux_id | F_is_xlat_rule
  | F_max_prio | F_eq_attrib | F_at_rear | F_rt_rule_hdl | F_flt_rule_hdl | F_status
  | F_num_rules | F_rules | F_rule_add_size | F_flt_rule_size | F_rule_mdfy_size
  | F_rt_tbl_name | F_add_after_hdl | F_num_hdls | F_ep | F_global

datatype ioc =
    IPA_IOCTL_ADD_RT_RULE | IPA_IOCTL_ADD_RT_RULE_V2
  | IPA_IOCTL_ADD_RT_RULE_AFTER | IPA_IOCTL_ADD_RT_RULE_AFTER_V2
  | IPA_IOCTL_MDFY_RT_RULE | IPA_IOCTL_MDFY_RT_RULE_V2 | IPA_IOCTL_DEL_RT_RULE
  | IPA_IOCTL_ADD_FLT_RULE | IPA_IOCTL_ADD_FLT_RULE_V2
  | IPA_IOCTL_ADD_FLT_RULE_AFTER | IPA_IOCTL_ADD_FLT_RULE_AFTER_V2
  | IPA_IOCTL_MDFY_FLT_RULE | IPA_IOCTL_MDFY_FLT_RULE_V2 | IPA_IOCTL_DEL_FLT_RULE
  | IPA_IOCTL_GENERATE_FLT_EQ
  | IPA_IOCTL_QUERY_INTF_TX_PROPS | IPA_IOCTL_QUERY_INTF_RX_PROPS | IPA_IOCTL_QUERY_INTF_EXT_PROPS

text \<open>
  \<open>ld\<close> reads an integer field (converted to \<^verbatim>\<open>uint32_t\<close>), \<open>ld64\<close> the 64-bit \<^verbatim>\<open>rules\<close> pointers.
\<close>

record ipa_abi =
  sizeof :: "cstruct \<Rightarrow> nat"
  offsetof :: "cstruct \<Rightarrow> cfield \<Rightarrow> nat"
  ld :: "cstruct \<Rightarrow> cfield \<Rightarrow> mem \<Rightarrow> nat \<Rightarrow> u32"
  ld64 :: "cstruct \<Rightarrow> cfield \<Rightarrow> mem \<Rightarrow> nat \<Rightarrow> u64"
  ioc_nr :: "ioc \<Rightarrow> u32"
  ioc_magic :: u32
  name_max :: nat

section \<open>Log primitives\<close>

definition log_open :: "'k os \<Rightarrow> 'k bridge \<Rightarrow> int \<times> 'k bridge" where
  "log_open os st =
     (let st = load_cfg os st in
      case os_open os (cfg_log_path (g_cfg st)) 0x441 384 (kst st) of (fd, k) \<Rightarrow> (fd, st\<lparr>kst := k\<rparr>))"

definition log_s :: "string \<Rightarrow> string" where
  "log_s s = take (cstr_len s 512) s"

definition log_name :: "ipa_abi \<Rightarrow> string \<Rightarrow> string" where
  "log_name abi s = take (cstr_len s (name_max abi)) s"

definition hex_digit :: "nat \<Rightarrow> char" where
  "hex_digit d = ''0123456789abcdef'' ! d"

definition log_hex32_fd :: "u32 \<Rightarrow> string" where
  "log_hex32_fd v = ''0x'' @ map (\<lambda>i. hex_digit (unat (drop_bit (28 - i * 4) v AND 0xf))) [0..<8]"

text \<open>Open the log, issue the given writes, close it; nothing is written if it cannot be opened.\<close>

definition log_writes :: "'k os \<Rightarrow> string list \<Rightarrow> 'k bridge \<Rightarrow> 'k bridge" where
  "log_writes os pieces st =
     (case log_open os st of (fd, st) \<Rightarrow>
        if fd < 0 then st else st\<lparr>writes := writes st @ map (Pair fd) pieces\<rparr>)"

section \<open>Log lines\<close>

definition log_kv4 ::
  "ipa_abi \<Rightarrow> 'k os \<Rightarrow> string \<Rightarrow> string \<Rightarrow> u32 \<Rightarrow> u32 \<Rightarrow> u32 \<Rightarrow> u32 \<Rightarrow> string option \<Rightarrow> 'k bridge \<Rightarrow> 'k bridge"
where
  "log_kv4 abi os tag ifname a b c d action st =
     log_writes os
       ([log_s ''[ABI] '', log_s tag, log_s '' if='', log_name abi ifname,
         log_s '' a='', log_hex32_fd a, log_s '' b='', log_hex32_fd b,
         log_s '' c='', log_hex32_fd c, log_s '' d='', log_hex32_fd d]
        @ (case action of None \<Rightarrow> [] | Some s \<Rightarrow> [log_s '' action='', log_s s])
        @ [log_s [CHR 0x0A]]) st"

definition log_prop_tx ::
  "ipa_abi \<Rightarrow> 'k os \<Rightarrow> string \<Rightarrow> string \<Rightarrow> u32 \<Rightarrow> u32 \<Rightarrow> u32 \<Rightarrow> u32 \<Rightarrow> u32 \<Rightarrow> string \<Rightarrow> 'k bridge \<Rightarrow> 'k bridge"
where
  "log_prop_tx abi os tag ifname idx ip dst alt l2 hdr st =
     log_writes os
       [log_s ''[ABI] '', log_s tag, log_s '' if='', log_name abi ifname,
        log_s '' idx='', log_hex32_fd idx, log_s '' ip='', log_hex32_fd ip,
        log_s '' dst='', log_hex32_fd dst, log_s '' alt='', log_hex32_fd alt,
        log_s '' l2='', log_hex32_fd l2, log_s '' hdr='', log_name abi hdr,
        log_s [CHR 0x0A]] st"

definition log_prop_rx ::
  "ipa_abi \<Rightarrow> 'k os \<Rightarrow> string \<Rightarrow> string \<Rightarrow> u32 \<Rightarrow> u32 \<Rightarrow> u32 \<Rightarrow> u32 \<Rightarrow> 'k bridge \<Rightarrow> 'k bridge"
where
  "log_prop_rx abi os tag ifname idx ip src l2 st =
     log_writes os
       [log_s ''[ABI] '', log_s tag, log_s '' if='', log_name abi ifname,
        log_s '' idx='', log_hex32_fd idx, log_s '' ip='', log_hex32_fd ip,
        log_s '' src='', log_hex32_fd src, log_s '' l2='', log_hex32_fd l2,
        log_s [CHR 0x0A]] st"

definition log_translate_ioctl :: "'k os \<Rightarrow> string \<Rightarrow> u32 \<Rightarrow> int \<Rightarrow> 'k bridge \<Rightarrow> 'k bridge" where
  "log_translate_ioctl os tag n ret st =
     log_writes os
       [log_s ''[ABI] '', log_s tag, log_s '' translated n='', log_hex32_fd n,
        log_s '' ret='', log_hex32_fd (word_of_int ret), log_s [CHR 0x0A]] st"

section \<open>One dump per interface and kind\<close>

definition iface_id :: "ipa_abi \<Rightarrow> string \<Rightarrow> nat" where
  "iface_id abi name =
     (if str_eq_32 (name_max abi) name ''eth0'' then 0
      else if str_eq_32 (name_max abi) name ''rmnet_data0'' then 1
      else if str_eq_32 (name_max abi) name ''rmnet_data1'' then 2
      else if str_eq_32 (name_max abi) name ''bridge0'' then 3
      else 4)"

definition hexdump_text :: "mem \<Rightarrow> nat \<Rightarrow> nat \<Rightarrow> string" where
  "hexdump_text m buf mx =
     concat (map (\<lambda>i. [hex_digit (unat (drop_bit 4 (m (buf + i)) AND 0xf)),
                        hex_digit (unat (m (buf + i) AND 0xf))]) [0..<mx])"

definition log_hexdump_once ::
  "ipa_abi \<Rightarrow> 'k os \<Rightarrow> string \<Rightarrow> string \<Rightarrow> nat \<Rightarrow> nat \<Rightarrow> nat \<Rightarrow> 'k bridge \<Rightarrow> 'k bridge" where
  "log_hexdump_once abi os tag ifname buf len type st =
     (let st = load_cfg os st in
      if \<not> cfg_hexdump_once (g_cfg st) \<or> buf = 0 then st
      else
        let b = type * 8 + iface_id abi ifname in
        if b \<ge> 31 then st
        else if g_hexdump_mask st AND push_bit b 1 \<noteq> 0 then st
        else
          let st = st\<lparr>g_hexdump_mask := g_hexdump_mask st OR push_bit b 1\<rparr>;
              mx = (if len > 96 then 96 else len)
          in log_writes os
               [log_s ''[ABI] '', log_s tag, log_s '' if='', log_name abi ifname, log_s '' hex='',
                hexdump_text (pmem st) buf mx, log_s [CHR 0x0A]] st)"

section \<open>Logging leaves everything but the log alone\<close>

text \<open>
  \<open>same_but_log\<close>: the state after a log call differs from the configured state at most in the
  kernel state and in the trace, which only grows.
\<close>

definition same_but_log :: "'k bridge \<Rightarrow> 'k bridge \<Rightarrow> bool" where
  "same_but_log st st' \<longleftrightarrow> pmem st' = pmem st \<and> g_cfg st' = g_cfg st
     \<and> env_loaded st' = env_loaded st \<and> env_buf st' = env_buf st
     \<and> cached_fd st' = cached_fd st \<and> cached_is_ipa st' = cached_is_ipa st
     \<and> (\<exists>ws. writes st' = writes st @ ws)"

lemma log_writes_same: "cfg_loaded (g_cfg st) \<Longrightarrow> same_but_log st (log_writes os ps st)"
  by (auto simp: same_but_log_def log_writes_def log_open_def load_cfg_id split: prod.split)

lemma log_writes_frame [frame_simps]:
  "pmem (log_writes os ps st) = pmem st"
  "g_cfg (log_writes os ps st) = g_cfg (load_cfg os st)"
  "g_hexdump_mask (log_writes os ps st) = g_hexdump_mask st"
  by (simp_all add: log_writes_def log_open_def Let_def frame_simps split: prod.split)

lemmas log_line_defs = log_kv4_def log_prop_tx_def log_prop_rx_def log_translate_ioctl_def

lemma log_lines_frame [frame_simps]:
  "pmem (log_kv4 abi os tag nm a b c d act st) = pmem st"
  "pmem (log_prop_tx abi os tag nm i ip dst alt l2 hdr st) = pmem st"
  "pmem (log_prop_rx abi os tag nm i ip src l2 st) = pmem st"
  "pmem (log_translate_ioctl os tag n ret st) = pmem st"
  "g_cfg (log_kv4 abi os tag nm a b c d act st) = g_cfg (load_cfg os st)"
  "g_cfg (log_prop_tx abi os tag nm i ip dst alt l2 hdr st) = g_cfg (load_cfg os st)"
  "g_cfg (log_prop_rx abi os tag nm i ip src l2 st) = g_cfg (load_cfg os st)"
  "g_cfg (log_translate_ioctl os tag n ret st) = g_cfg (load_cfg os st)"
  by (simp_all add: log_line_defs frame_simps)

lemma log_hexdump_once_frame [frame_simps]:
  "pmem (log_hexdump_once abi os tag nm buf len type st) = pmem st"
  "g_cfg (log_hexdump_once abi os tag nm buf len type st) = g_cfg (load_cfg os st)"
  by (simp_all add: log_hexdump_once_def Let_def frame_simps load_cfg_id)

end
