(* ===== verification/Bridge_Query.thy ===== *)
theory Bridge_Query
  imports Bridge_Log
begin

text \<open>
  Interface-property queries (\<^verbatim>\<open>ipacm_abi_bridge_v5.c\<close>, \<open>printable_name\<close> to \<open>handle_query_ext\<close>).
  After the kernel has answered a query in its own layout (the ``02300'' layout, whose offsets
  are constants of the source), the bridge scores the reply under both layouts and, when the
  reply is unambiguously in the old one, rewrites the array in place into the layout
  \<^verbatim>\<open>ipacm\<close> was compiled for. The rewriting runs from the last element down, because the new
  elements are longer than the old ones and the two arrays overlap.

  The local array \<^verbatim>\<open>tmp\<close> lives at address \<open>sp\<close> of the same memory.
\<close>

section \<open>Old layout\<close>

abbreviation MAX_PROPS :: nat where "MAX_PROPS \<equiv> 16"
abbreviation OLD_ATTR_SIZE :: nat where "OLD_ATTR_SIZE \<equiv> 152"
abbreviation OLD_TX_SIZE :: nat where "OLD_TX_SIZE \<equiv> 200"
abbreviation OLD_RX_SIZE :: nat where "OLD_RX_SIZE \<equiv> 164"
abbreviation OLD_TX_DST :: nat where "OLD_TX_DST \<equiv> 156"
abbreviation OLD_TX_ALT :: nat where "OLD_TX_ALT \<equiv> 160"
abbreviation OLD_TX_HDR :: nat where "OLD_TX_HDR \<equiv> 164"
abbreviation OLD_TX_L2 :: nat where "OLD_TX_L2 \<equiv> 196"
abbreviation OLD_RX_SRC :: nat where "OLD_RX_SRC \<equiv> 156"
abbreviation OLD_RX_L2 :: nat where "OLD_RX_L2 \<equiv> 160"
abbreviation QUERY_PREFIX_SIZE :: nat where "QUERY_PREFIX_SIZE \<equiv> 36"
abbreviation PIPE_MAX :: u32 where "PIPE_MAX \<equiv> 1024"

section \<open>Scoring\<close>

primrec printable_from :: "string \<Rightarrow> bool \<Rightarrow> bool" where
  "printable_from [] seen = seen"
| "printable_from (c # cs) seen =
     (if c = NUL then seen
      else if (of_char c :: nat) < 32 \<or> (of_char c :: nat) > 126 then False
      else printable_from cs True)"

definition printable_name :: "string \<Rightarrow> bool" where
  "printable_name s = printable_from s False"

definition tx_score_one :: "ipa_abi \<Rightarrow> mem \<Rightarrow> nat \<Rightarrow> nat \<Rightarrow> nat \<Rightarrow> nat \<Rightarrow> nat \<Rightarrow> nat" where
  "tx_score_one abi m p off_dst off_alt off_hdr off_l2 =
     (let ip = rd32 m p; dst = rd32 m (p + off_dst); alt = rd32 m (p + off_alt);
          l2 = rd32 m (p + off_l2) in
      (if ip \<le> 1 then 1 else 0) + (if dst > 0 \<and> dst < PIPE_MAX then 1 else 0)
      + (if alt < PIPE_MAX then 1 else 0) + (if l2 \<le> 4 then 1 else 0)
      + (if printable_name (cstr_at m (p + off_hdr) (name_max abi)) then 1 else 0))"

primrec tx_score_upto ::
  "ipa_abi \<Rightarrow> mem \<Rightarrow> nat \<Rightarrow> nat \<Rightarrow> nat \<Rightarrow> nat \<Rightarrow> nat \<Rightarrow> nat \<Rightarrow> nat \<Rightarrow> nat" where
  "tx_score_upto abi m base stride d a h l 0 = 0"
| "tx_score_upto abi m base stride d a h l (Suc i) =
     tx_score_upto abi m base stride d a h l i + tx_score_one abi m (base + i * stride) d a h l"

definition tx_score_layout ::
  "ipa_abi \<Rightarrow> mem \<Rightarrow> nat \<Rightarrow> nat \<Rightarrow> nat \<Rightarrow> nat \<Rightarrow> nat \<Rightarrow> nat \<Rightarrow> nat \<Rightarrow> nat" where
  "tx_score_layout abi m base n stride d a h l =
     (if n = 0 \<or> n > MAX_PROPS then 0 else tx_score_upto abi m base stride d a h l n)"

definition rx_score_one :: "mem \<Rightarrow> nat \<Rightarrow> nat \<Rightarrow> nat \<Rightarrow> nat" where
  "rx_score_one m p off_src off_l2 =
     (let ip = rd32 m p; src = rd32 m (p + off_src); l2 = rd32 m (p + off_l2) in
      (if ip \<le> 1 then 1 else 0) + (if src > 0 \<and> src < PIPE_MAX then 1 else 0)
      + (if l2 \<le> 4 then 1 else 0))"

primrec rx_score_upto :: "mem \<Rightarrow> nat \<Rightarrow> nat \<Rightarrow> nat \<Rightarrow> nat \<Rightarrow> nat \<Rightarrow> nat" where
  "rx_score_upto m base stride s l 0 = 0"
| "rx_score_upto m base stride s l (Suc i) =
     rx_score_upto m base stride s l i + rx_score_one m (base + i * stride) s l"

definition rx_score_layout :: "mem \<Rightarrow> nat \<Rightarrow> nat \<Rightarrow> nat \<Rightarrow> nat \<Rightarrow> nat \<Rightarrow> nat" where
  "rx_score_layout m base n stride s l =
     (if n = 0 \<or> n > MAX_PROPS then 0 else rx_score_upto m base stride s l n)"

section \<open>In-place translation\<close>

text \<open>\<^verbatim>\<open>(uint32_t)offsetof(...) - 4U\<close>, with its wrap-around.\<close>

definition u32_minus_4 :: "nat \<Rightarrow> nat" where
  "u32_minus_4 x = (x + 2 ^ 32 - 4) mod 2 ^ 32"

definition tx_convert :: "ipa_abi \<Rightarrow> nat \<Rightarrow> nat \<Rightarrow> nat \<Rightarrow> mem \<Rightarrow> mem" where
  "tx_convert abi sp oldp newp m =
     (let new_tx_size = sizeof abi S_tx_intf_prop;
          new_attr_size = u32_minus_4 (offsetof abi S_tx_intf_prop F_dst_pipe);
          m = mem_copy m sp oldp OLD_TX_SIZE;
          m = mem_zero m newp new_tx_size;
          m = mem_copy m (newp + offsetof abi S_tx_intf_prop F_ip) sp 4;
          m = mem_copy m (newp + offsetof abi S_tx_intf_prop F_attrib) (sp + 4)
                (if OLD_ATTR_SIZE < new_attr_size then OLD_ATTR_SIZE else new_attr_size);
          m = mem_copy m (newp + offsetof abi S_tx_intf_prop F_dst_pipe) (sp + OLD_TX_DST) 4;
          m = mem_copy m (newp + offsetof abi S_tx_intf_prop F_alt_dst_pipe) (sp + OLD_TX_ALT) 4;
          m = mem_copy m (newp + offsetof abi S_tx_intf_prop F_hdr_name) (sp + OLD_TX_HDR) (name_max abi)
      in mem_copy m (newp + offsetof abi S_tx_intf_prop F_hdr_l2_type) (sp + OLD_TX_L2) 4)"

text \<open>The loop \<^verbatim>\<open>for (idx = n; idx > 0; idx--)\<close>, with \<open>i = idx - 1\<close>.\<close>

primrec translate_tx_loop :: "ipa_abi \<Rightarrow> nat \<Rightarrow> nat \<Rightarrow> nat \<Rightarrow> mem \<Rightarrow> mem" where
  "translate_tx_loop abi sp base 0 m = m"
| "translate_tx_loop abi sp base (Suc i) m =
     translate_tx_loop abi sp base i
       (tx_convert abi sp (base + i * OLD_TX_SIZE) (base + i * sizeof abi S_tx_intf_prop) m)"

definition translate_tx_02300_to_new :: "ipa_abi \<Rightarrow> nat \<Rightarrow> nat \<Rightarrow> mem \<Rightarrow> mem" where
  "translate_tx_02300_to_new abi sp q m =
     translate_tx_loop abi sp (q + offsetof abi S_query_intf_tx_props F_tx)
       (unat (ld abi S_query_intf_tx_props F_num_tx_props m q)) m"

definition rx_convert :: "ipa_abi \<Rightarrow> nat \<Rightarrow> nat \<Rightarrow> nat \<Rightarrow> mem \<Rightarrow> mem" where
  "rx_convert abi sp oldp newp m =
     (let new_rx_size = sizeof abi S_rx_intf_prop;
          new_attr_size = u32_minus_4 (offsetof abi S_rx_intf_prop F_src_pipe);
          m = mem_copy m sp oldp OLD_RX_SIZE;
          m = mem_zero m newp new_rx_size;
          m = mem_copy m (newp + offsetof abi S_rx_intf_prop F_ip) sp 4;
          m = mem_copy m (newp + offsetof abi S_rx_intf_prop F_attrib) (sp + 4)
                (if OLD_ATTR_SIZE < new_attr_size then OLD_ATTR_SIZE else new_attr_size);
          m = mem_copy m (newp + offsetof abi S_rx_intf_prop F_src_pipe) (sp + OLD_RX_SRC) 4
      in mem_copy m (newp + offsetof abi S_rx_intf_prop F_hdr_l2_type) (sp + OLD_RX_L2) 4)"

primrec translate_rx_loop :: "ipa_abi \<Rightarrow> nat \<Rightarrow> nat \<Rightarrow> nat \<Rightarrow> mem \<Rightarrow> mem" where
  "translate_rx_loop abi sp base 0 m = m"
| "translate_rx_loop abi sp base (Suc i) m =
     translate_rx_loop abi sp base i
       (rx_convert abi sp (base + i * OLD_RX_SIZE) (base + i * sizeof abi S_rx_intf_prop) m)"

definition translate_rx_02300_to_new :: "ipa_abi \<Rightarrow> nat \<Rightarrow> nat \<Rightarrow> mem \<Rightarrow> mem" where
  "translate_rx_02300_to_new abi sp q m =
     translate_rx_loop abi sp (q + offsetof abi S_query_intf_rx_props F_rx)
       (unat (ld abi S_query_intf_rx_props F_num_rx_props m q)) m"

section \<open>Query handlers\<close>

primrec log_tx_props_upto ::
  "ipa_abi \<Rightarrow> 'k os \<Rightarrow> string \<Rightarrow> string \<Rightarrow> nat \<Rightarrow> nat \<Rightarrow> nat \<Rightarrow> nat \<Rightarrow> nat \<Rightarrow> nat \<Rightarrow> nat \<Rightarrow> 'k bridge \<Rightarrow> 'k bridge"
where
  "log_tx_props_upto abi os tag ifname base stride d a h l 0 st = st"
| "log_tx_props_upto abi os tag ifname base stride d a h l (Suc i) st =
     (let st = log_tx_props_upto abi os tag ifname base stride d a h l i st;
          p = base + i * stride; m = pmem st
      in log_prop_tx abi os tag ifname (word_of_nat i) (rd32 m p) (rd32 m (p + d)) (rd32 m (p + a))
           (rd32 m (p + l)) (cstr_at m (p + h) (name_max abi)) st)"

definition log_tx_props ::
  "ipa_abi \<Rightarrow> 'k os \<Rightarrow> string \<Rightarrow> string \<Rightarrow> nat \<Rightarrow> nat \<Rightarrow> nat \<Rightarrow> nat \<Rightarrow> nat \<Rightarrow> nat \<Rightarrow> nat \<Rightarrow> 'k bridge \<Rightarrow> 'k bridge"
where
  "log_tx_props abi os tag ifname base n stride d a h l st =
     (let n = (if n > MAX_PROPS then MAX_PROPS else n)
      in log_tx_props_upto abi os tag ifname base stride d a h l (min n 3) st)"

primrec log_rx_props_upto ::
  "ipa_abi \<Rightarrow> 'k os \<Rightarrow> string \<Rightarrow> string \<Rightarrow> nat \<Rightarrow> nat \<Rightarrow> nat \<Rightarrow> nat \<Rightarrow> nat \<Rightarrow> 'k bridge \<Rightarrow> 'k bridge"
where
  "log_rx_props_upto abi os tag ifname base stride s l 0 st = st"
| "log_rx_props_upto abi os tag ifname base stride s l (Suc i) st =
     (let st = log_rx_props_upto abi os tag ifname base stride s l i st;
          p = base + i * stride; m = pmem st
      in log_prop_rx abi os tag ifname (word_of_nat i) (rd32 m p) (rd32 m (p + s)) (rd32 m (p + l)) st)"

definition log_rx_props ::
  "ipa_abi \<Rightarrow> 'k os \<Rightarrow> string \<Rightarrow> string \<Rightarrow> nat \<Rightarrow> nat \<Rightarrow> nat \<Rightarrow> nat \<Rightarrow> nat \<Rightarrow> 'k bridge \<Rightarrow> 'k bridge"
where
  "log_rx_props abi os tag ifname base n stride s l st =
     (let n = (if n > MAX_PROPS then MAX_PROPS else n)
      in log_rx_props_upto abi os tag ifname base stride s l (min n 3) st)"

definition handle_query_tx :: "ipa_abi \<Rightarrow> 'k os \<Rightarrow> nat \<Rightarrow> nat \<Rightarrow> 'k bridge \<Rightarrow> 'k bridge" where
  "handle_query_tx abi os sp q st =
     (let st = load_cfg os st;
          S = S_query_intf_tx_props; P = S_tx_intf_prop;
          name = cstr_at (pmem st) (q + offsetof abi S F_name) (name_max abi);
          d = offsetof abi P F_dst_pipe; a = offsetof abi P F_alt_dst_pipe;
          h = offsetof abi P F_hdr_name; l = offsetof abi P F_hdr_l2_type in
      if q = 0 \<or> \<not> cfg_tx (g_cfg st) then st
      else
        case iface_allowed (name_max abi) os name st of (ok, st) \<Rightarrow>
        if \<not> ok then st
        else
          let n = unat (ld abi S F_num_tx_props (pmem st) q) in
          if n = 0 \<or> n > MAX_PROPS
          then log_kv4 abi os ''QUERY_TX_SKIP'' name (word_of_nat n) 0 0 0 (Some ''bad_n'') st
          else
            let base = q + offsetof abi S F_tx;
                st = log_hexdump_once abi os ''QUERY_TX_RAW'' name q
                       (QUERY_PREFIX_SIZE + n * OLD_TX_SIZE) 0 st;
                old_score = tx_score_layout abi (pmem st) base n OLD_TX_SIZE OLD_TX_DST OLD_TX_ALT
                       OLD_TX_HDR OLD_TX_L2;
                new_score = tx_score_layout abi (pmem st) base n (sizeof abi P) d a h l;
                old_threshold = n * 4; new_threshold = n * 4;
                st = log_tx_props abi os ''TX_OLD'' name base n OLD_TX_SIZE OLD_TX_DST OLD_TX_ALT
                       OLD_TX_HDR OLD_TX_L2 st
            in case iface_translate_allowed (name_max abi) os name st of (tr, st) \<Rightarrow>
               let (action, st) =
                 (if tr then
                    (if old_score \<ge> old_threshold \<and> new_score < new_threshold
                     then (''translate_old_to_new'',
                           st\<lparr>pmem := translate_tx_02300_to_new abi sp q (pmem st)\<rparr>)
                     else if old_score \<ge> old_threshold \<and> new_score \<ge> new_threshold
                     then (if cfg_fail_closed (g_cfg st) then ''ambiguous_fail_closed''
                           else ''ambiguous_noop'', st)
                     else (''noop_score'', st))
                  else (''log_only'', st));
                   st = log_kv4 abi os ''QUERY_TX'' name (word_of_nat n) (word_of_nat old_score)
                          (word_of_nat new_score) (word_of_nat old_threshold) (Some action) st
               in log_tx_props abi os ''TX_NEW'' name base
                    (unat (ld abi S F_num_tx_props (pmem st) q)) (sizeof abi P) d a h l st)"

definition handle_query_rx :: "ipa_abi \<Rightarrow> 'k os \<Rightarrow> nat \<Rightarrow> nat \<Rightarrow> 'k bridge \<Rightarrow> 'k bridge" where
  "handle_query_rx abi os sp q st =
     (let st = load_cfg os st;
          S = S_query_intf_rx_props; P = S_rx_intf_prop;
          name = cstr_at (pmem st) (q + offsetof abi S F_name) (name_max abi);
          s = offsetof abi P F_src_pipe; l = offsetof abi P F_hdr_l2_type in
      if q = 0 \<or> \<not> cfg_rx (g_cfg st) then st
      else
        case iface_allowed (name_max abi) os name st of (ok, st) \<Rightarrow>
        if \<not> ok then st
        else
          let n = unat (ld abi S F_num_rx_props (pmem st) q) in
          if n = 0 \<or> n > MAX_PROPS
          then log_kv4 abi os ''QUERY_RX_SKIP'' name (word_of_nat n) 0 0 0 (Some ''bad_n'') st
          else
            let base = q + offsetof abi S F_rx;
                st = log_hexdump_once abi os ''QUERY_RX_RAW'' name q
                       (QUERY_PREFIX_SIZE + n * OLD_RX_SIZE) 1 st;
                old_score = rx_score_layout (pmem st) base n OLD_RX_SIZE OLD_RX_SRC OLD_RX_L2;
                new_score = rx_score_layout (pmem st) base n (sizeof abi P) s l;
                threshold = n * 3;
                st = log_rx_props abi os ''RX_OLD'' name base n OLD_RX_SIZE OLD_RX_SRC OLD_RX_L2 st
            in case iface_translate_allowed (name_max abi) os name st of (tr, st) \<Rightarrow>
               let (action, st) =
                 (if tr then
                    (if old_score \<ge> threshold \<and> new_score < threshold
                     then (''translate_old_to_new'',
                           st\<lparr>pmem := translate_rx_02300_to_new abi sp q (pmem st)\<rparr>)
                     else if old_score \<ge> threshold \<and> new_score \<ge> threshold
                     then (if cfg_fail_closed (g_cfg st) then ''ambiguous_fail_closed''
                           else ''ambiguous_noop'', st)
                     else (''noop_score'', st))
                  else (''log_only'', st));
                   st = log_kv4 abi os ''QUERY_RX'' name (word_of_nat n) (word_of_nat old_score)
                          (word_of_nat new_score) (word_of_nat threshold) (Some action) st
               in log_rx_props abi os ''RX_NEW'' name base
                    (unat (ld abi S F_num_rx_props (pmem st) q)) (sizeof abi P) s l st)"

definition ext_line :: "ipa_abi \<Rightarrow> string \<Rightarrow> mem \<Rightarrow> nat \<Rightarrow> nat \<Rightarrow> string list" where
  "ext_line abi name m base i =
     (let p = base + i * sizeof abi S_ext_intf_prop; g = (\<lambda>f. ld abi S_ext_intf_prop f m p) in
      [log_s ''[ABI] EXT if='', log_name abi name, log_s '' idx='', log_hex32_fd (word_of_nat i),
       log_s '' ip='', log_hex32_fd (g F_ip), log_s '' action='', log_hex32_fd (g F_action),
       log_s '' rtidx='', log_hex32_fd (g F_rt_tbl_idx), log_s '' mux='', log_hex32_fd (g F_mux_id),
       log_s '' xlat='', log_hex32_fd (g F_is_xlat_rule), log_s [CHR 0x0A]])"

definition handle_query_ext :: "ipa_abi \<Rightarrow> 'k os \<Rightarrow> nat \<Rightarrow> 'k bridge \<Rightarrow> 'k bridge" where
  "handle_query_ext abi os q st =
     (let st = load_cfg os st; S = S_query_intf_ext_props;
          name = cstr_at (pmem st) (q + offsetof abi S F_name) (name_max abi) in
      if q = 0 \<or> \<not> cfg_ext (g_cfg st) then st
      else
        case iface_allowed (name_max abi) os name st of (ok, st) \<Rightarrow>
        if \<not> ok then st
        else
          let n = unat (ld abi S F_num_ext_props (pmem st) q);
              st = log_hexdump_once abi os ''QUERY_EXT_RAW'' name q
                     (QUERY_PREFIX_SIZE + (if n > MAX_PROPS then MAX_PROPS else n)
                        * sizeof abi S_ext_intf_prop) 2 st
          in log_writes os
               ([log_s ''[ABI] QUERY_EXT if='', log_name abi name, log_s '' n='',
                 log_hex32_fd (word_of_nat n), log_s ('' action=log_only_layout_same'' @ [CHR 0x0A])]
                @ concat (map (ext_line abi name (pmem st) (q + offsetof abi S F_ext)) [0..<min n 4])) st)"

section \<open>Correctness of the in-place translation\<close>

text \<open>
  What a property means, independently of where its fields lie: the abstract view of one
  element under the old and under the new layout.
\<close>

record tx_view =
  tv_ip :: u32
  tv_attrib :: "u8 list"
  tv_dst :: u32
  tv_alt :: u32
  tv_hdr :: string
  tv_l2 :: u32

definition bytes_at :: "mem \<Rightarrow> nat \<Rightarrow> nat \<Rightarrow> u8 list" where
  "bytes_at m p n = map (\<lambda>i. m (p + i)) [0..<n]"

definition tx_view_at :: "mem \<Rightarrow> nat \<Rightarrow> nat \<Rightarrow> nat \<Rightarrow> nat \<Rightarrow> nat \<Rightarrow> nat \<Rightarrow> nat \<Rightarrow> nat \<Rightarrow> tx_view" where
  "tx_view_at m p ip at_off d a h hn l = \<lparr>tv_ip = rd32 m (p + ip),
     tv_attrib = bytes_at m (p + at_off) OLD_ATTR_SIZE, tv_dst = rd32 m (p + d),
     tv_alt = rd32 m (p + a), tv_hdr = cstr_at m (p + h) hn, tv_l2 = rd32 m (p + l)\<rparr>"

definition old_tx_view :: "ipa_abi \<Rightarrow> mem \<Rightarrow> nat \<Rightarrow> tx_view" where
  "old_tx_view abi m p =
     tx_view_at m p 0 4 OLD_TX_DST OLD_TX_ALT OLD_TX_HDR (name_max abi) OLD_TX_L2"

definition new_tx_view :: "ipa_abi \<Rightarrow> mem \<Rightarrow> nat \<Rightarrow> tx_view" where
  "new_tx_view abi m p =
     (let f = offsetof abi S_tx_intf_prop in
      tx_view_at m p (f F_ip) (f F_attrib) (f F_dst_pipe) (f F_alt_dst_pipe) (f F_hdr_name)
        (name_max abi) (f F_hdr_l2_type))"

text \<open>
  What the translation relies on from the new header: the fields come in the order ip, attrib,
  dst\_pipe, alt\_dst\_pipe, hdr\_name, hdr\_l2\_type, they do not overlap, the attribute block is
  at least as long as the old one, and an element is at least as long as an old element.
\<close>

definition tx_layout_ok :: "ipa_abi \<Rightarrow> bool" where
  "tx_layout_ok abi \<longleftrightarrow>
     (let f = offsetof abi S_tx_intf_prop; s = sizeof abi S_tx_intf_prop in
      f F_ip + 4 \<le> f F_attrib \<and> f F_attrib + OLD_ATTR_SIZE \<le> f F_dst_pipe
      \<and> f F_dst_pipe + 4 \<le> f F_alt_dst_pipe \<and> f F_alt_dst_pipe + 4 \<le> f F_hdr_name
      \<and> f F_hdr_name + name_max abi \<le> f F_hdr_l2_type \<and> f F_hdr_l2_type + 4 \<le> s
      \<and> OLD_TX_SIZE \<le> s \<and> s < 2 ^ 32 \<and> name_max abi = 32)"

lemma u32_minus_4_eq: "4 \<le> x \<Longrightarrow> x < 2 ^ 32 \<Longrightarrow> u32_minus_4 x = x - 4"
proof -
  assume "4 \<le> x" "x < 2 ^ 32"
  then obtain y where "x = 4 + y" "y < 2 ^ 32" using le_Suc_ex by fastforce
  then show ?thesis by (simp add: u32_minus_4_def)
qed

lemma bytes_at_cong: "(\<And>i. i < n \<Longrightarrow> m (p + i) = m' (q + i)) \<Longrightarrow> bytes_at m p n = bytes_at m' q n"
  by (simp add: bytes_at_def)

lemma cstr_at_cong: "(\<And>i. i < n \<Longrightarrow> m (p + i) = m' (q + i)) \<Longrightarrow> cstr_at m p n = cstr_at m' q n"
  by (simp add: cstr_at_def)

text \<open>
  The contract both in-place loops rely on, for any layout \<open>a\<close>: converting one element makes
  the new element show what the old one showed, writes only the new element and the scratch
  array at \<open>sp\<close>, and new elements are not shorter than old ones. Then walking the array from
  its last element down never overwrites an old element that is still to be read.
\<close>

locale inplace_array =
  fixes lay :: "'a \<Rightarrow> bool"
    and conv :: "'a \<Rightarrow> nat \<Rightarrow> nat \<Rightarrow> nat \<Rightarrow> mem \<Rightarrow> mem"
    and loop :: "'a \<Rightarrow> nat \<Rightarrow> nat \<Rightarrow> nat \<Rightarrow> mem \<Rightarrow> mem"
    and osize :: nat
    and nsize :: "'a \<Rightarrow> nat"
    and oldv newv :: "'a \<Rightarrow> mem \<Rightarrow> nat \<Rightarrow> 'v"
  assumes loop_0: "loop a sp base 0 m = m"
    and loop_Suc: "loop a sp base (Suc i) m =
      loop a sp base i (conv a sp (base + i * osize) (base + i * nsize a) m)"
    and grows: "lay a \<Longrightarrow> osize \<le> nsize a"
    and conv_view: "\<lbrakk>lay a; disjoint_ranges sp osize newp (nsize a);
      disjoint_ranges sp osize oldp osize\<rbrakk> \<Longrightarrow> newv a (conv a sp oldp newp m) newp = oldv a m oldp"
    and conv_frame: "\<lbrakk>lay a; x < newp \<or> newp + nsize a \<le> x; x < sp \<or> sp + osize \<le> x\<rbrakk>
      \<Longrightarrow> conv a sp oldp newp m x = m x"
    and oldv_local: "\<lbrakk>lay a; \<And>i. i < osize \<Longrightarrow> m (p + i) = m' (p + i)\<rbrakk> \<Longrightarrow> oldv a m p = oldv a m' p"
    and newv_local: "\<lbrakk>lay a; \<And>i. i < nsize a \<Longrightarrow> m (p + i) = m' (p + i)\<rbrakk> \<Longrightarrow> newv a m p = newv a m' p"
begin

lemma loop_frame:
  "\<lbrakk>lay a; x < base \<or> base + n * nsize a \<le> x; x < sp \<or> sp + osize \<le> x\<rbrakk>
   \<Longrightarrow> loop a sp base n m x = m x"
proof (induction n arbitrary: m)
  case (Suc n)
  have "base + n * nsize a \<le> base + Suc n * nsize a" by simp
  with Suc.prems have out: "x < base + n * nsize a \<or> base + n * nsize a + nsize a \<le> x"
    "x < base \<or> base + n * nsize a \<le> x"
    by auto
  then show ?case
    using Suc.IH Suc.prems by (simp add: loop_Suc conv_frame)
qed (simp add: loop_0)

lemma loop_view:
  "\<lbrakk>lay a; disjoint_ranges sp osize base (n * nsize a); i < n\<rbrakk>
   \<Longrightarrow> newv a (loop a sp base n m) (base + i * nsize a) = oldv a m (base + i * osize)"
proof (induction n arbitrary: m)
  case (Suc n)
  let ?m = "conv a sp (base + n * osize) (base + n * nsize a) m"
  note le = grows [OF Suc.prems(1)]
  have mono: "j * osize \<le> j * nsize a" for j using le by (rule mult_le_mono2)
  have sep: "disjoint_ranges sp osize base (n * nsize a)"
    "disjoint_ranges sp osize (base + n * nsize a) (nsize a)"
    "disjoint_ranges sp osize (base + n * osize) osize"
    using Suc.prems(2) le mono [of n] unfolding disjoint_ranges_def mult_Suc by linarith+
  show ?case
  proof (cases "i = n")
    case True
    have "newv a (loop a sp base n ?m) (base + n * nsize a) = newv a ?m (base + n * nsize a)"
      using Suc.prems(1) sep(2)
      by (intro newv_local loop_frame) (auto simp: disjoint_ranges_def)
    then show ?thesis
      using True conv_view [OF Suc.prems(1) sep(2,3)] by (simp add: loop_Suc)
  next
    case False
    with Suc.prems have lt: "i < n" by simp
    then have "Suc i * osize \<le> n * osize" by (intro mult_le_mono1) simp
    with mono [of n] have below: "i * osize + osize \<le> n * nsize a"
      unfolding mult_Suc by linarith
    have "oldv a ?m (base + i * osize) = oldv a m (base + i * osize)"
      using Suc.prems(1) sep(1) below
      by (intro oldv_local conv_frame) (auto simp: disjoint_ranges_def)
    then show ?thesis
      using Suc.IH [OF Suc.prems(1) sep(1) lt] by (simp add: loop_Suc)
  qed
qed simp

end

text \<open>One element: the new element shows what the old one showed.\<close>

definition tx_copies :: "ipa_abi \<Rightarrow> nat \<Rightarrow> nat \<Rightarrow> (nat \<times> nat \<times> nat) list" where
  "tx_copies abi sp newp =
     (let f = offsetof abi S_tx_intf_prop in
      [(newp + f F_ip, sp, 4), (newp + f F_attrib, sp + 4, OLD_ATTR_SIZE),
       (newp + f F_dst_pipe, sp + OLD_TX_DST, 4), (newp + f F_alt_dst_pipe, sp + OLD_TX_ALT, 4),
       (newp + f F_hdr_name, sp + OLD_TX_HDR, 32), (newp + f F_hdr_l2_type, sp + OLD_TX_L2, 4)])"

lemma tx_convert_copies:
  assumes "tx_layout_ok abi"
  shows "tx_convert abi sp oldp newp m =
    copies (tx_copies abi sp newp)
      (mem_zero (mem_copy m sp oldp OLD_TX_SIZE) newp (sizeof abi S_tx_intf_prop))"
proof -
  have "4 \<le> offsetof abi S_tx_intf_prop F_dst_pipe" "offsetof abi S_tx_intf_prop F_dst_pipe < 2 ^ 32"
    "OLD_ATTR_SIZE \<le> offsetof abi S_tx_intf_prop F_dst_pipe - 4"
    using assms unfolding tx_layout_ok_def Let_def by linarith+
  then show ?thesis
    using assms by (simp add: tx_convert_def tx_copies_def tx_layout_ok_def Let_def u32_minus_4_eq)
qed

lemma tx_copies_ok:
  assumes lay: "tx_layout_ok abi"
    and sep: "disjoint_ranges sp OLD_TX_SIZE newp (sizeof abi S_tx_intf_prop)"
  shows "copies_ok sp OLD_TX_SIZE (tx_copies abi sp newp)"
proof -
  have ord: "offsetof abi S_tx_intf_prop F_ip + 4 \<le> offsetof abi S_tx_intf_prop F_attrib"
    "offsetof abi S_tx_intf_prop F_attrib + 152 \<le> offsetof abi S_tx_intf_prop F_dst_pipe"
    "offsetof abi S_tx_intf_prop F_dst_pipe + 4 \<le> offsetof abi S_tx_intf_prop F_alt_dst_pipe"
    "offsetof abi S_tx_intf_prop F_alt_dst_pipe + 4 \<le> offsetof abi S_tx_intf_prop F_hdr_name"
    "offsetof abi S_tx_intf_prop F_hdr_name + 32 \<le> offsetof abi S_tx_intf_prop F_hdr_l2_type"
    "offsetof abi S_tx_intf_prop F_hdr_l2_type + 4 \<le> sizeof abi S_tx_intf_prop"
    using lay by (simp_all add: tx_layout_ok_def Let_def)
  show ?thesis
    using ord sep by (simp add: tx_copies_def disjoint_ranges_def Let_def) linarith
qed

lemma tx_convert_hit:
  assumes lay: "tx_layout_ok abi"
    and sep: "disjoint_ranges sp OLD_TX_SIZE newp (sizeof abi S_tx_intf_prop)"
      "disjoint_ranges sp OLD_TX_SIZE oldp OLD_TX_SIZE"
    and mem: "(newp + d, sp + s, n) \<in> set (tx_copies abi sp newp)" and i: "i < n" "s + n \<le> OLD_TX_SIZE"
  shows "tx_convert abi sp oldp newp m (newp + d + i) = m (oldp + s + i)"
proof -
  let ?m = "mem_zero (mem_copy m sp oldp OLD_TX_SIZE) newp (sizeof abi S_tx_intf_prop)"
  have "tx_convert abi sp oldp newp m (newp + d + i) = ?m (sp + s + i)"
    unfolding tx_convert_copies [OF lay] by (rule copies_hit [OF tx_copies_ok [OF lay sep(1)] mem i(1)])
  also have "\<dots> = m (oldp + s + i)"
    using sep i by (auto simp: mem_zero_apply mem_copy_apply disjoint_ranges_def add.assoc)
  finally show ?thesis .
qed

lemma tx_convert_frame:
  assumes lay: "tx_layout_ok abi"
    and out: "x < newp \<or> newp + sizeof abi S_tx_intf_prop \<le> x" "x < sp \<or> sp + OLD_TX_SIZE \<le> x"
  shows "tx_convert abi sp oldp newp m x = m x"
proof -
  have "\<forall>(d, s, n) \<in> set (tx_copies abi sp newp). x < d \<or> d + n \<le> x"
    using lay out(1) by (auto simp: tx_copies_def tx_layout_ok_def Let_def)
  then show ?thesis
    using out by (auto simp: tx_convert_copies [OF lay] copies_frame mem_zero_apply mem_copy_frame)
qed

lemma tx_convert_view:
  assumes lay: "tx_layout_ok abi"
    and sep: "disjoint_ranges sp OLD_TX_SIZE newp (sizeof abi S_tx_intf_prop)"
      "disjoint_ranges sp OLD_TX_SIZE oldp OLD_TX_SIZE"
  shows "new_tx_view abi (tx_convert abi sp oldp newp m) newp = old_tx_view abi m oldp"
proof -
  note hit = tx_convert_hit [OF lay sep]
  have nm: "name_max abi = 32" using lay by (simp add: tx_layout_ok_def Let_def)
  show ?thesis
    unfolding new_tx_view_def old_tx_view_def tx_view_at_def Let_def nm
    by (auto simp: tx_copies_def Let_def
        intro!: rd32_cong bytes_at_cong cstr_at_cong hit hit [where s = 0, simplified])
qed

lemma old_tx_view_local:
  "\<lbrakk>tx_layout_ok abi; \<And>i. i < OLD_TX_SIZE \<Longrightarrow> m (p + i) = m' (p + i)\<rbrakk>
   \<Longrightarrow> old_tx_view abi m p = old_tx_view abi m' p"
  by (auto simp: old_tx_view_def tx_view_at_def tx_layout_ok_def Let_def add.assoc
      intro!: rd32_cong bytes_at_cong cstr_at_cong)

lemma new_tx_view_local:
  "\<lbrakk>tx_layout_ok abi; \<And>i. i < sizeof abi S_tx_intf_prop \<Longrightarrow> m (p + i) = m' (p + i)\<rbrakk>
   \<Longrightarrow> new_tx_view abi m p = new_tx_view abi m' p"
  by (auto simp: new_tx_view_def tx_view_at_def tx_layout_ok_def Let_def add.assoc
      intro!: rd32_cong bytes_at_cong cstr_at_cong)

interpretation tx: inplace_array tx_layout_ok tx_convert translate_tx_loop OLD_TX_SIZE
  "\<lambda>abi. sizeof abi S_tx_intf_prop" old_tx_view new_tx_view
proof
  show "tx_layout_ok a \<Longrightarrow> OLD_TX_SIZE \<le> sizeof a S_tx_intf_prop" for a
    by (simp add: tx_layout_ok_def Let_def)
qed (auto intro: tx_convert_view tx_convert_frame old_tx_view_local new_tx_view_local)

subsection \<open>Receive properties\<close>

record rx_view =
  rv_ip :: u32
  rv_attrib :: "u8 list"
  rv_src :: u32
  rv_l2 :: u32

definition rx_view_at :: "mem \<Rightarrow> nat \<Rightarrow> nat \<Rightarrow> nat \<Rightarrow> nat \<Rightarrow> nat \<Rightarrow> rx_view" where
  "rx_view_at m p ip at_off s l = \<lparr>rv_ip = rd32 m (p + ip),
     rv_attrib = bytes_at m (p + at_off) OLD_ATTR_SIZE, rv_src = rd32 m (p + s),
     rv_l2 = rd32 m (p + l)\<rparr>"

definition old_rx_view :: "ipa_abi \<Rightarrow> mem \<Rightarrow> nat \<Rightarrow> rx_view" where
  "old_rx_view abi m p = rx_view_at m p 0 4 OLD_RX_SRC OLD_RX_L2"

definition new_rx_view :: "ipa_abi \<Rightarrow> mem \<Rightarrow> nat \<Rightarrow> rx_view" where
  "new_rx_view abi m p =
     (let f = offsetof abi S_rx_intf_prop in
      rx_view_at m p (f F_ip) (f F_attrib) (f F_src_pipe) (f F_hdr_l2_type))"

definition rx_layout_ok :: "ipa_abi \<Rightarrow> bool" where
  "rx_layout_ok abi \<longleftrightarrow>
     (let f = offsetof abi S_rx_intf_prop; s = sizeof abi S_rx_intf_prop in
      f F_ip + 4 \<le> f F_attrib \<and> f F_attrib + OLD_ATTR_SIZE \<le> f F_src_pipe
      \<and> f F_src_pipe + 4 \<le> f F_hdr_l2_type \<and> f F_hdr_l2_type + 4 \<le> s
      \<and> OLD_RX_SIZE \<le> s \<and> s < 2 ^ 32)"

definition rx_copies :: "ipa_abi \<Rightarrow> nat \<Rightarrow> nat \<Rightarrow> (nat \<times> nat \<times> nat) list" where
  "rx_copies abi sp newp =
     (let f = offsetof abi S_rx_intf_prop in
      [(newp + f F_ip, sp, 4), (newp + f F_attrib, sp + 4, OLD_ATTR_SIZE),
       (newp + f F_src_pipe, sp + OLD_RX_SRC, 4), (newp + f F_hdr_l2_type, sp + OLD_RX_L2, 4)])"

lemma rx_layout_order:
  assumes "rx_layout_ok abi"
  shows "offsetof abi S_rx_intf_prop F_ip + 4 \<le> offsetof abi S_rx_intf_prop F_attrib"
    "offsetof abi S_rx_intf_prop F_attrib + 152 \<le> offsetof abi S_rx_intf_prop F_src_pipe"
    "offsetof abi S_rx_intf_prop F_src_pipe + 4 \<le> offsetof abi S_rx_intf_prop F_hdr_l2_type"
    "offsetof abi S_rx_intf_prop F_hdr_l2_type + 4 \<le> sizeof abi S_rx_intf_prop"
    "164 \<le> sizeof abi S_rx_intf_prop" "sizeof abi S_rx_intf_prop < 2 ^ 32"
  using assms by (simp_all add: rx_layout_ok_def Let_def)

lemma rx_convert_copies:
  assumes lay: "rx_layout_ok abi"
  shows "rx_convert abi sp oldp newp m =
    copies (rx_copies abi sp newp)
      (mem_zero (mem_copy m sp oldp OLD_RX_SIZE) newp (sizeof abi S_rx_intf_prop))"
proof -
  have "4 \<le> offsetof abi S_rx_intf_prop F_src_pipe" "offsetof abi S_rx_intf_prop F_src_pipe < 2 ^ 32"
    "OLD_ATTR_SIZE \<le> offsetof abi S_rx_intf_prop F_src_pipe - 4"
    using rx_layout_order [OF lay] by linarith+
  then show ?thesis by (simp add: rx_convert_def rx_copies_def Let_def u32_minus_4_eq)
qed

lemma rx_copies_ok:
  assumes "rx_layout_ok abi" "disjoint_ranges sp OLD_RX_SIZE newp (sizeof abi S_rx_intf_prop)"
  shows "copies_ok sp OLD_RX_SIZE (rx_copies abi sp newp)"
  using rx_layout_order [OF assms(1)] assms(2)
  by (simp add: rx_copies_def disjoint_ranges_def Let_def) linarith

lemma rx_convert_hit:
  assumes lay: "rx_layout_ok abi"
    and sep: "disjoint_ranges sp OLD_RX_SIZE newp (sizeof abi S_rx_intf_prop)"
      "disjoint_ranges sp OLD_RX_SIZE oldp OLD_RX_SIZE"
    and mem: "(newp + d, sp + s, n) \<in> set (rx_copies abi sp newp)" and i: "i < n" "s + n \<le> OLD_RX_SIZE"
  shows "rx_convert abi sp oldp newp m (newp + d + i) = m (oldp + s + i)"
proof -
  let ?m = "mem_zero (mem_copy m sp oldp OLD_RX_SIZE) newp (sizeof abi S_rx_intf_prop)"
  have "rx_convert abi sp oldp newp m (newp + d + i) = ?m (sp + s + i)"
    unfolding rx_convert_copies [OF lay] by (rule copies_hit [OF rx_copies_ok [OF lay sep(1)] mem i(1)])
  also have "\<dots> = m (oldp + s + i)"
    using sep i by (auto simp: mem_zero_apply mem_copy_apply disjoint_ranges_def add.assoc)
  finally show ?thesis .
qed

lemma rx_convert_frame:
  assumes lay: "rx_layout_ok abi"
    and out: "x < newp \<or> newp + sizeof abi S_rx_intf_prop \<le> x" "x < sp \<or> sp + OLD_RX_SIZE \<le> x"
  shows "rx_convert abi sp oldp newp m x = m x"
proof -
  have "\<forall>(d, s, n) \<in> set (rx_copies abi sp newp). x < d \<or> d + n \<le> x"
    using rx_layout_order [OF lay] out(1) by (auto simp: rx_copies_def Let_def)
  then show ?thesis
    using out by (auto simp: rx_convert_copies [OF lay] copies_frame mem_zero_apply mem_copy_frame)
qed

lemma rx_convert_view:
  assumes lay: "rx_layout_ok abi"
    and sep: "disjoint_ranges sp OLD_RX_SIZE newp (sizeof abi S_rx_intf_prop)"
      "disjoint_ranges sp OLD_RX_SIZE oldp OLD_RX_SIZE"
  shows "new_rx_view abi (rx_convert abi sp oldp newp m) newp = old_rx_view abi m oldp"
proof -
  note hit = rx_convert_hit [OF lay sep]
  show ?thesis
    unfolding new_rx_view_def old_rx_view_def rx_view_at_def Let_def
    by (auto simp: rx_copies_def Let_def
        intro!: rd32_cong bytes_at_cong hit hit [where s = 0, simplified])
qed

lemma old_rx_view_local:
  "\<lbrakk>rx_layout_ok abi; \<And>i. i < OLD_RX_SIZE \<Longrightarrow> m (p + i) = m' (p + i)\<rbrakk>
   \<Longrightarrow> old_rx_view abi m p = old_rx_view abi m' p"
  by (auto simp: old_rx_view_def rx_view_at_def add.assoc intro!: rd32_cong bytes_at_cong)

lemma new_rx_view_local:
  "\<lbrakk>rx_layout_ok abi; \<And>i. i < sizeof abi S_rx_intf_prop \<Longrightarrow> m (p + i) = m' (p + i)\<rbrakk>
   \<Longrightarrow> new_rx_view abi m p = new_rx_view abi m' p"
  by (auto simp: new_rx_view_def rx_view_at_def rx_layout_ok_def Let_def add.assoc
      intro!: rd32_cong bytes_at_cong)

interpretation rx: inplace_array rx_layout_ok rx_convert translate_rx_loop OLD_RX_SIZE
  "\<lambda>abi. sizeof abi S_rx_intf_prop" old_rx_view new_rx_view
proof
  show "rx_layout_ok a \<Longrightarrow> OLD_RX_SIZE \<le> sizeof a S_rx_intf_prop" for a
    by (rule rx_layout_order)
qed (auto intro: rx_convert_view rx_convert_frame old_rx_view_local new_rx_view_local)

section \<open>When a reply is rewritten\<close>

lemma iface_allowed_eq:
  "iface_allowed k os name st = (csv_has k (cfg_allow (g_cfg (load_cfg os st))) name, load_cfg os st)"
  by (simp add: iface_allowed_def Let_def)

lemma iface_translate_allowed_eq:
  "iface_translate_allowed k os name st =
     (cfg_mode_translate (g_cfg (load_cfg os st))
      \<and> csv_has k (cfg_translate (g_cfg (load_cfg os st))) name, load_cfg os st)"
  by (simp add: iface_translate_allowed_def Let_def)

lemma load_cfg_twice [simp]: "load_cfg os (load_cfg os' st) = load_cfg os' st"
  by (simp add: load_cfg_id)

lemma load_cfg_log_writes [frame_simps]:
  "load_cfg os (log_writes os' ps st) = log_writes os' ps st"
  by (simp add: load_cfg_id frame_simps)

lemma log_tx_props_upto_frame [frame_simps]:
  "pmem (log_tx_props_upto abi os tag nm base stride d a h l n st) = pmem st"
  "cfg_loaded (g_cfg st) \<Longrightarrow> g_cfg (log_tx_props_upto abi os tag nm base stride d a h l n st) = g_cfg st"
  by (induction n) (simp_all add: Let_def frame_simps load_cfg_id)

lemma log_rx_props_upto_frame [frame_simps]:
  "pmem (log_rx_props_upto abi os tag nm base stride s l n st) = pmem st"
  "cfg_loaded (g_cfg st) \<Longrightarrow> g_cfg (log_rx_props_upto abi os tag nm base stride s l n st) = g_cfg st"
  by (induction n) (simp_all add: Let_def frame_simps load_cfg_id)

lemma log_props_frame [frame_simps]:
  "pmem (log_tx_props abi os tag nm base n stride d a h l st) = pmem st"
  "cfg_loaded (g_cfg st) \<Longrightarrow> g_cfg (log_tx_props abi os tag nm base n stride d a h l st) = g_cfg st"
  "pmem (log_rx_props abi os tag nm base n stride s l st) = pmem st"
  "cfg_loaded (g_cfg st) \<Longrightarrow> g_cfg (log_rx_props abi os tag nm base n stride s l st) = g_cfg st"
  by (simp_all add: log_tx_props_def log_rx_props_def Let_def frame_simps)

text \<open>
  The rule by which a reply is rewritten: the query is enabled for the interface, the count is
  plausible, translation is switched on for the interface, and the bytes make sense under the
  old layout and not under the new one.
\<close>

definition tx_translates :: "ipa_abi \<Rightarrow> bridge_cfg \<Rightarrow> mem \<Rightarrow> nat \<Rightarrow> bool" where
  "tx_translates abi c m q \<longleftrightarrow>
     (let name = cstr_at m (q + offsetof abi S_query_intf_tx_props F_name) (name_max abi);
          n = unat (ld abi S_query_intf_tx_props F_num_tx_props m q);
          base = q + offsetof abi S_query_intf_tx_props F_tx; f = offsetof abi S_tx_intf_prop in
      q \<noteq> 0 \<and> cfg_tx c \<and> csv_has (name_max abi) (cfg_allow c) name \<and> 0 < n \<and> n \<le> MAX_PROPS
      \<and> cfg_mode_translate c \<and> csv_has (name_max abi) (cfg_translate c) name
      \<and> n * 4 \<le> tx_score_layout abi m base n OLD_TX_SIZE OLD_TX_DST OLD_TX_ALT OLD_TX_HDR OLD_TX_L2
      \<and> tx_score_layout abi m base n (sizeof abi S_tx_intf_prop) (f F_dst_pipe) (f F_alt_dst_pipe)
          (f F_hdr_name) (f F_hdr_l2_type) < n * 4)"

definition rx_translates :: "ipa_abi \<Rightarrow> bridge_cfg \<Rightarrow> mem \<Rightarrow> nat \<Rightarrow> bool" where
  "rx_translates abi c m q \<longleftrightarrow>
     (let name = cstr_at m (q + offsetof abi S_query_intf_rx_props F_name) (name_max abi);
          n = unat (ld abi S_query_intf_rx_props F_num_rx_props m q);
          base = q + offsetof abi S_query_intf_rx_props F_rx; f = offsetof abi S_rx_intf_prop in
      q \<noteq> 0 \<and> cfg_rx c \<and> csv_has (name_max abi) (cfg_allow c) name \<and> 0 < n \<and> n \<le> MAX_PROPS
      \<and> cfg_mode_translate c \<and> csv_has (name_max abi) (cfg_translate c) name
      \<and> n * 3 \<le> rx_score_layout m base n OLD_RX_SIZE OLD_RX_SRC OLD_RX_L2
      \<and> rx_score_layout m base n (sizeof abi S_rx_intf_prop) (f F_src_pipe) (f F_hdr_l2_type) < n * 3)"

lemma handle_query_tx_pmem:
  "pmem (handle_query_tx abi os sp q st) =
     (if tx_translates abi (g_cfg (load_cfg os st)) (pmem st) q
      then translate_tx_02300_to_new abi sp q (pmem st) else pmem st)"
  by (simp add: handle_query_tx_def tx_translates_def Let_def frame_simps load_cfg_id
      iface_allowed_eq iface_translate_allowed_eq not_le split: if_splits)

lemma handle_query_rx_pmem:
  "pmem (handle_query_rx abi os sp q st) =
     (if rx_translates abi (g_cfg (load_cfg os st)) (pmem st) q
      then translate_rx_02300_to_new abi sp q (pmem st) else pmem st)"
  by (simp add: handle_query_rx_def rx_translates_def Let_def frame_simps load_cfg_id
      iface_allowed_eq iface_translate_allowed_eq not_le split: if_splits)

lemma handle_query_ext_pmem: "pmem (handle_query_ext abi os q st) = pmem st"
  by (simp add: handle_query_ext_def Let_def frame_simps load_cfg_id iface_allowed_eq)

lemma handle_query_cfg [frame_simps]:
  "g_cfg (handle_query_tx abi os sp q st) = g_cfg (load_cfg os st)"
  "g_cfg (handle_query_rx abi os sp q st) = g_cfg (load_cfg os st)"
  "g_cfg (handle_query_ext abi os q st) = g_cfg (load_cfg os st)"
  by (simp_all add: handle_query_tx_def handle_query_rx_def handle_query_ext_def Let_def frame_simps
      load_cfg_id iface_allowed_eq iface_translate_allowed_eq)

end
