(* ===== verification/Bridge_Rules.thy ===== *)
theory Bridge_Rules
  imports Bridge_Query
begin

text \<open>
  Routing and filtering rules (\<^verbatim>\<open>ipacm_abi_bridge_v5.c\<close>, \<open>attr_new_to_old\<close> to
  \<open>translate_generate_flt_eq_ioctl\<close>). Requests that carry rules travel the other way: the bridge
  builds a copy of the request in the kernel's layout in a stack buffer at \<open>sp\<close>, hands that copy
  to the kernel and copies each rule's handle and status back into the caller's request.

  The result \<^const>\<open>None\<close> is the source's \<^verbatim>\<open>return 0\<close> (not handled), \<open>Some ret\<close> is \<^verbatim>\<open>return 1\<close>
  with \<^verbatim>\<open>*retp = ret\<close>. The bridge runs on 32-bit ARM, so \<^verbatim>\<open>uintptr_t\<close> has 32 bits.
\<close>

section \<open>Old layout of a rule\<close>

abbreviation RT_FLT_MAX_TRANSLATE_RULES :: nat where "RT_FLT_MAX_TRANSLATE_RULES \<equiv> 8"
abbreviation ATTR_COMMON_SIZE :: nat where "ATTR_COMMON_SIZE \<equiv> 148"
abbreviation OLD_RT_RULE_SIZE :: nat where "OLD_RT_RULE_SIZE \<equiv> 168"
abbreviation OLD_RT_ADD_SIZE :: nat where "OLD_RT_ADD_SIZE \<equiv> 180"
abbreviation OLD_RT_ADD_AT_REAR :: nat where "OLD_RT_ADD_AT_REAR \<equiv> 168"
abbreviation OLD_RT_ADD_HDL :: nat where "OLD_RT_ADD_HDL \<equiv> 172"
abbreviation OLD_RT_ADD_STATUS :: nat where "OLD_RT_ADD_STATUS \<equiv> 176"
abbreviation OLD_FLT_RULE_SIZE :: nat where "OLD_FLT_RULE_SIZE \<equiv> 360"
abbreviation OLD_FLT_ADD_SIZE :: nat where "OLD_FLT_ADD_SIZE \<equiv> 372"
abbreviation OLD_FLT_ADD_AT_REAR :: nat where "OLD_FLT_ADD_AT_REAR \<equiv> 360"
abbreviation OLD_FLT_ADD_HDL :: nat where "OLD_FLT_ADD_HDL \<equiv> 364"
abbreviation OLD_FLT_ADD_STATUS :: nat where "OLD_FLT_ADD_STATUS \<equiv> 368"
abbreviation OLD_GEN_EQ_SIZE :: nat where "OLD_GEN_EQ_SIZE \<equiv> 340"
abbreviation OLD_GEN_EQ_ATTR :: nat where "OLD_GEN_EQ_ATTR \<equiv> 4"
abbreviation OLD_GEN_EQ_EQ :: nat where "OLD_GEN_EQ_EQ \<equiv> 156"

definition attr_new_to_old :: "nat \<Rightarrow> nat \<Rightarrow> mem \<Rightarrow> mem" where
  "attr_new_to_old oldp newp m =
     (let m = mem_zero m oldp OLD_ATTR_SIZE in mem_copy m oldp newp ATTR_COMMON_SIZE)"

definition rt_rule_new_to_old :: "ipa_abi \<Rightarrow> nat \<Rightarrow> nat \<Rightarrow> mem \<Rightarrow> mem" where
  "rt_rule_new_to_old abi oldp newp m =
     (let m = mem_zero m oldp OLD_RT_RULE_SIZE;
          m = mem_copy m oldp newp 12;
          m = attr_new_to_old (oldp + 12) (newp + 12) m
      in mem_copy m (oldp + 164) (newp + offsetof abi S_rt_rule F_max_prio) 4)"

definition flt_rule_new_to_old :: "ipa_abi \<Rightarrow> nat \<Rightarrow> nat \<Rightarrow> mem \<Rightarrow> mem" where
  "flt_rule_new_to_old abi oldp newp m =
     (let m = mem_zero m oldp OLD_FLT_RULE_SIZE;
          m = mem_copy m oldp newp 12;
          m = attr_new_to_old (oldp + 12) (newp + 12) m;
          m = mem_copy m (oldp + 164) (newp + offsetof abi S_flt_rule F_eq_attrib) 184
      in mem_copy m (oldp + 348) (newp + offsetof abi S_flt_rule F_rt_tbl_idx) 12)"

section \<open>The two loops of every request\<close>

text \<open>The body of the loop before the ioctl, and of the loop after it, for one rule.\<close>

definition rt_add_out :: "ipa_abi \<Rightarrow> nat \<Rightarrow> nat \<Rightarrow> mem \<Rightarrow> mem" where
  "rt_add_out abi oldp newp m =
     (let m = rt_rule_new_to_old abi oldp newp m
      in mem_copy m (oldp + OLD_RT_ADD_AT_REAR) (newp + offsetof abi S_rt_rule_add F_at_rear) 1)"

definition rt_add_back :: "ipa_abi \<Rightarrow> nat \<Rightarrow> nat \<Rightarrow> mem \<Rightarrow> mem" where
  "rt_add_back abi oldp newp m =
     (let m = mem_copy m (newp + offsetof abi S_rt_rule_add F_rt_rule_hdl) (oldp + OLD_RT_ADD_HDL) 4
      in mem_copy m (newp + offsetof abi S_rt_rule_add F_status) (oldp + OLD_RT_ADD_STATUS) 4)"

definition flt_add_out :: "ipa_abi \<Rightarrow> nat \<Rightarrow> nat \<Rightarrow> mem \<Rightarrow> mem" where
  "flt_add_out abi oldp newp m =
     (let m = flt_rule_new_to_old abi oldp newp m
      in mem_copy m (oldp + OLD_FLT_ADD_AT_REAR) (newp + offsetof abi S_flt_rule_add F_at_rear) 1)"

definition flt_add_back :: "ipa_abi \<Rightarrow> nat \<Rightarrow> nat \<Rightarrow> mem \<Rightarrow> mem" where
  "flt_add_back abi oldp newp m =
     (let m = mem_copy m (newp + offsetof abi S_flt_rule_add F_flt_rule_hdl) (oldp + OLD_FLT_ADD_HDL) 4
      in mem_copy m (newp + offsetof abi S_flt_rule_add F_status) (oldp + OLD_FLT_ADD_STATUS) 4)"

text \<open>\<^verbatim>\<open>for (i = 0; i < n; i++)\<close> over the two arrays in step.\<close>

primrec rules_loop ::
  "(nat \<Rightarrow> nat \<Rightarrow> mem \<Rightarrow> mem) \<Rightarrow> nat \<Rightarrow> nat \<Rightarrow> nat \<Rightarrow> nat \<Rightarrow> nat \<Rightarrow> mem \<Rightarrow> mem" where
  "rules_loop body osize nsize old new 0 m = m"
| "rules_loop body osize nsize old new (Suc i) m =
     body (old + i * osize) (new + i * nsize) (rules_loop body osize nsize old new i m)"

definition rt_out :: "ipa_abi \<Rightarrow> nat \<Rightarrow> nat \<Rightarrow> nat \<Rightarrow> mem \<Rightarrow> mem" where
  "rt_out abi = rules_loop (rt_add_out abi) OLD_RT_ADD_SIZE (sizeof abi S_rt_rule_add)"

definition rt_back :: "ipa_abi \<Rightarrow> nat \<Rightarrow> nat \<Rightarrow> nat \<Rightarrow> mem \<Rightarrow> mem" where
  "rt_back abi = rules_loop (rt_add_back abi) OLD_RT_ADD_SIZE (sizeof abi S_rt_rule_add)"

definition flt_out :: "ipa_abi \<Rightarrow> nat \<Rightarrow> nat \<Rightarrow> nat \<Rightarrow> mem \<Rightarrow> mem" where
  "flt_out abi = rules_loop (flt_add_out abi) OLD_FLT_ADD_SIZE (sizeof abi S_flt_rule_add)"

definition flt_back :: "ipa_abi \<Rightarrow> nat \<Rightarrow> nat \<Rightarrow> nat \<Rightarrow> mem \<Rightarrow> mem" where
  "flt_back abi = rules_loop (flt_add_back abi) OLD_FLT_ADD_SIZE (sizeof abi S_flt_rule_add)"

text \<open>
  The part common to the eight requests, from the first loop to \<^verbatim>\<open>return 1\<close>: \<open>m\<close> is the memory
  once the header of the buffer is in place.
\<close>

definition rt_exchange ::
  "ipa_abi \<Rightarrow> 'k os \<Rightarrow> nat \<Rightarrow> int \<Rightarrow> u32 \<Rightarrow> string \<Rightarrow> nat \<Rightarrow> nat \<Rightarrow> nat \<Rightarrow> mem \<Rightarrow> 'k bridge \<Rightarrow> int option \<times> 'k bridge"
where
  "rt_exchange abi os sp fd request tag old_rules new_rules n m st =
     (case os_ioctl os fd request sp (rt_out abi old_rules new_rules n m) (kst st) of (ret, m, k) \<Rightarrow>
        (Some ret, log_translate_ioctl os tag (word_of_nat n) ret
           (st\<lparr>pmem := rt_back abi old_rules new_rules n m, kst := k\<rparr>)))"

definition flt_exchange ::
  "ipa_abi \<Rightarrow> 'k os \<Rightarrow> nat \<Rightarrow> int \<Rightarrow> u32 \<Rightarrow> string \<Rightarrow> nat \<Rightarrow> nat \<Rightarrow> nat \<Rightarrow> mem \<Rightarrow> 'k bridge \<Rightarrow> int option \<times> 'k bridge"
where
  "flt_exchange abi os sp fd request tag old_rules new_rules n m st =
     (case os_ioctl os fd request sp (flt_out abi old_rules new_rules n m) (kst st) of (ret, m, k) \<Rightarrow>
        (Some ret, log_translate_ioctl os tag (word_of_nat n) ret
           (st\<lparr>pmem := flt_back abi old_rules new_rules n m, kst := k\<rparr>)))"

section \<open>Requests with the rules inline\<close>

text \<open>The buffer: cleared whole, then the request header copied to its front.\<close>

definition put_header :: "nat \<Rightarrow> nat \<Rightarrow> nat \<Rightarrow> nat \<Rightarrow> mem \<Rightarrow> mem" where
  "put_header sp bufsize arg hdr m = mem_copy (mem_zero m sp bufsize) sp arg hdr"

definition num_rules :: "ipa_abi \<Rightarrow> cstruct \<Rightarrow> mem \<Rightarrow> nat \<Rightarrow> nat" where
  "num_rules abi S m arg = unat (ld abi S F_num_rules m arg)"

definition translate_add_rt_ioctl ::
  "ipa_abi \<Rightarrow> 'k os \<Rightarrow> nat \<Rightarrow> int \<Rightarrow> u32 \<Rightarrow> nat \<Rightarrow> 'k bridge \<Rightarrow> int option \<times> 'k bridge" where
  "translate_add_rt_ioctl abi os sp fd request arg st =
     (let n = num_rules abi S_add_rt_rule (pmem st) arg in
      if arg = 0 \<or> n = 0 \<or> n > RT_FLT_MAX_TRANSLATE_RULES then (None, st)
      else rt_exchange abi os sp fd request ''ADD_RT'' (sp + 44)
             (arg + offsetof abi S_add_rt_rule F_rules) n
             (put_header sp (44 + RT_FLT_MAX_TRANSLATE_RULES * OLD_RT_ADD_SIZE) arg 44 (pmem st)) st)"

definition translate_add_flt_ioctl ::
  "ipa_abi \<Rightarrow> 'k os \<Rightarrow> nat \<Rightarrow> int \<Rightarrow> u32 \<Rightarrow> nat \<Rightarrow> 'k bridge \<Rightarrow> int option \<times> 'k bridge" where
  "translate_add_flt_ioctl abi os sp fd request arg st =
     (let n = num_rules abi S_add_flt_rule (pmem st) arg in
      if arg = 0 \<or> n = 0 \<or> n > RT_FLT_MAX_TRANSLATE_RULES then (None, st)
      else flt_exchange abi os sp fd request ''ADD_FLT'' (sp + 16)
             (arg + offsetof abi S_add_flt_rule F_rules) n
             (put_header sp (16 + RT_FLT_MAX_TRANSLATE_RULES * OLD_FLT_ADD_SIZE) arg 16 (pmem st)) st)"

definition translate_add_rt_after_ioctl ::
  "ipa_abi \<Rightarrow> 'k os \<Rightarrow> nat \<Rightarrow> int \<Rightarrow> u32 \<Rightarrow> nat \<Rightarrow> 'k bridge \<Rightarrow> int option \<times> 'k bridge" where
  "translate_add_rt_after_ioctl abi os sp fd request arg st =
     (let n = num_rules abi S_add_rt_rule_after (pmem st) arg in
      if arg = 0 \<or> n = 0 \<or> n > RT_FLT_MAX_TRANSLATE_RULES then (None, st)
      else rt_exchange abi os sp fd request ''ADD_RT_AFTER'' (sp + 48)
             (arg + offsetof abi S_add_rt_rule_after F_rules) n
             (put_header sp (48 + RT_FLT_MAX_TRANSLATE_RULES * OLD_RT_ADD_SIZE) arg 48 (pmem st)) st)"

definition translate_add_flt_after_ioctl ::
  "ipa_abi \<Rightarrow> 'k os \<Rightarrow> nat \<Rightarrow> int \<Rightarrow> u32 \<Rightarrow> nat \<Rightarrow> 'k bridge \<Rightarrow> int option \<times> 'k bridge" where
  "translate_add_flt_after_ioctl abi os sp fd request arg st =
     (let n = num_rules abi S_add_flt_rule_after (pmem st) arg in
      if arg = 0 \<or> n = 0 \<or> n > RT_FLT_MAX_TRANSLATE_RULES then (None, st)
      else flt_exchange abi os sp fd request ''ADD_FLT_AFTER'' (sp + 20)
             (arg + offsetof abi S_add_flt_rule_after F_rules) n
             (put_header sp (20 + RT_FLT_MAX_TRANSLATE_RULES * OLD_FLT_ADD_SIZE) arg 20 (pmem st)) st)"

section \<open>Requests that point to their rules\<close>

text \<open>
  The header of a \<^verbatim>\<open>_v2\<close> request also holds the size of a rule and the address of the rule
  array; both are replaced in the buffer.
\<close>

definition put_header_v2 ::
  "ipa_abi \<Rightarrow> cstruct \<Rightarrow> cfield \<Rightarrow> nat \<Rightarrow> nat \<Rightarrow> nat \<Rightarrow> nat \<Rightarrow> mem \<Rightarrow> mem" where
  "put_header_v2 abi S size_field old_size sp arg hdr m =
     (let m = put_header sp (hdr + RT_FLT_MAX_TRANSLATE_RULES * old_size) arg hdr m;
          m = wr32 m (sp + offsetof abi S size_field) (word_of_nat old_size)
      in wr64 m (sp + offsetof abi S F_rules) (ucast (word_of_nat (sp + hdr) :: u32)))"

definition rules_ptr :: "ipa_abi \<Rightarrow> cstruct \<Rightarrow> mem \<Rightarrow> nat \<Rightarrow> nat" where
  "rules_ptr abi S m arg = unat (ucast (ld64 abi S F_rules m arg) :: u32)"

definition translate_add_rt_v2_ioctl ::
  "ipa_abi \<Rightarrow> 'k os \<Rightarrow> nat \<Rightarrow> int \<Rightarrow> u32 \<Rightarrow> nat \<Rightarrow> 'k bridge \<Rightarrow> int option \<times> 'k bridge" where
  "translate_add_rt_v2_ioctl abi os sp fd request arg st =
     (let S = S_add_rt_rule_v2; n = num_rules abi S (pmem st) arg in
      if arg = 0 \<or> n = 0 \<or> n > RT_FLT_MAX_TRANSLATE_RULES then (None, st)
      else if ld64 abi S F_rules (pmem st) arg = 0 then (None, st)
      else rt_exchange abi os sp fd request ''ADD_RT_V2'' (sp + 64) (rules_ptr abi S (pmem st) arg) n
             (put_header_v2 abi S F_rule_add_size OLD_RT_ADD_SIZE sp arg 64 (pmem st)) st)"

definition translate_add_flt_v2_ioctl ::
  "ipa_abi \<Rightarrow> 'k os \<Rightarrow> nat \<Rightarrow> int \<Rightarrow> u32 \<Rightarrow> nat \<Rightarrow> 'k bridge \<Rightarrow> int option \<times> 'k bridge" where
  "translate_add_flt_v2_ioctl abi os sp fd request arg st =
     (let S = S_add_flt_rule_v2; n = num_rules abi S (pmem st) arg in
      if arg = 0 \<or> n = 0 \<or> n > RT_FLT_MAX_TRANSLATE_RULES then (None, st)
      else if ld64 abi S F_rules (pmem st) arg = 0 then (None, st)
      else flt_exchange abi os sp fd request ''ADD_FLT_V2'' (sp + 40) (rules_ptr abi S (pmem st) arg) n
             (put_header_v2 abi S F_flt_rule_size OLD_FLT_ADD_SIZE sp arg 40 (pmem st)) st)"

definition translate_add_rt_after_v2_ioctl ::
  "ipa_abi \<Rightarrow> 'k os \<Rightarrow> nat \<Rightarrow> int \<Rightarrow> u32 \<Rightarrow> nat \<Rightarrow> 'k bridge \<Rightarrow> int option \<times> 'k bridge" where
  "translate_add_rt_after_v2_ioctl abi os sp fd request arg st =
     (let S = S_add_rt_rule_after_v2; n = num_rules abi S (pmem st) arg in
      if arg = 0 \<or> n = 0 \<or> n > RT_FLT_MAX_TRANSLATE_RULES then (None, st)
      else if ld64 abi S F_rules (pmem st) arg = 0 then (None, st)
      else rt_exchange abi os sp fd request ''ADD_RT_AFTER_V2'' (sp + 64)
             (rules_ptr abi S (pmem st) arg) n
             (put_header_v2 abi S F_rule_add_size OLD_RT_ADD_SIZE sp arg 64 (pmem st)) st)"

definition translate_add_flt_after_v2_ioctl ::
  "ipa_abi \<Rightarrow> 'k os \<Rightarrow> nat \<Rightarrow> int \<Rightarrow> u32 \<Rightarrow> nat \<Rightarrow> 'k bridge \<Rightarrow> int option \<times> 'k bridge" where
  "translate_add_flt_after_v2_ioctl abi os sp fd request arg st =
     (let S = S_add_flt_rule_after_v2; n = num_rules abi S (pmem st) arg in
      if arg = 0 \<or> n = 0 \<or> n > RT_FLT_MAX_TRANSLATE_RULES then (None, st)
      else if ld64 abi S F_rules (pmem st) arg = 0 then (None, st)
      else flt_exchange abi os sp fd request ''ADD_FLT_AFTER_V2'' (sp + 40)
             (rules_ptr abi S (pmem st) arg) n
             (put_header_v2 abi S F_flt_rule_size OLD_FLT_ADD_SIZE sp arg 40 (pmem st)) st)"

section \<open>Generating a filter equation\<close>

definition translate_generate_flt_eq_ioctl ::
  "ipa_abi \<Rightarrow> 'k os \<Rightarrow> nat \<Rightarrow> int \<Rightarrow> u32 \<Rightarrow> nat \<Rightarrow> 'k bridge \<Rightarrow> int option \<times> 'k bridge" where
  "translate_generate_flt_eq_ioctl abi os sp fd request arg st =
     (if arg = 0 then (None, st)
      else
        let m = put_header sp OLD_GEN_EQ_SIZE arg 4 (pmem st);
            m = attr_new_to_old (sp + OLD_GEN_EQ_ATTR) (arg + offsetof abi S_generate_flt_eq F_attrib) m
        in case os_ioctl os fd request sp m (kst st) of (ret, m, k) \<Rightarrow>
             let m = (if ret \<ge> 0
                      then mem_copy m (arg + offsetof abi S_generate_flt_eq F_eq_attrib)
                             (sp + OLD_GEN_EQ_EQ) 184
                      else m)
             in (Some ret, log_translate_ioctl os ''GENERATE_FLT_EQ'' 1 ret (st\<lparr>pmem := m, kst := k\<rparr>)))"

section \<open>Correctness of the loops\<close>

text \<open>Elements of an array occupy disjoint parts of it.\<close>

lemma elem_in_array:
  fixes i n :: nat assumes "i < n" shows "{b + i * s ..< b + i * s + s} \<subseteq> {b ..< b + n * s}"
proof -
  have "Suc i * s \<le> n * s" using assms by (intro mult_le_mono1) simp
  then show ?thesis by auto
qed

lemma elem_disjoint:
  fixes i j :: nat assumes "i \<noteq> j" shows "{b + i * s ..< b + i * s + s} \<inter> {b + j * s ..< b + j * s + s} = {}"
proof -
  have "Suc i * s \<le> j * s \<or> Suc j * s \<le> i * s"
    using assms by (metis Suc_leI linorder_neqE_nat mult_le_mono1)
  then show ?thesis by auto
qed

lemma elems_disjoint:
  fixes i j n :: nat
  assumes "i < n" "j < n" "A \<subseteq> {b + i * s ..< b + i * s + s}" "B \<subseteq> {c + j * t ..< c + j * t + t}"
    and "disjoint_ranges b (n * s) c (n * t)"
  shows "A \<inter> B = {}"
proof -
  have "{b ..< b + n * s} \<inter> {c ..< c + n * t} = {}"
    using assms(5) by (auto simp: disjoint_ranges_def)
  with elem_in_array [OF assms(1), of b s] elem_in_array [OF assms(2), of c t] assms(3,4)
  show ?thesis by blast
qed

lemma elem_parts_disjoint:
  fixes i j :: nat
  assumes "i \<noteq> j" "A \<subseteq> {b + i * s ..< b + i * s + s}" "B \<subseteq> {b + j * s ..< b + j * s + s}"
  shows "A \<inter> B = {}"
  using elem_disjoint [OF assms(1), of b s] assms(2,3) by blast

text \<open>
  The contract of a loop body that works on rule \<open>i\<close> of both arrays: which addresses it writes
  (\<open>wr\<close>), which it reads (\<open>rdr\<close>), and that what it leaves at the destination (\<open>dst\<close>) is what
  the source showed (\<open>src\<close>). If no element's writes meet another's reads or writes, the
  loop carries every element over.
\<close>

locale rule_array =
  fixes lay :: "'a \<Rightarrow> bool"
    and body :: "'a \<Rightarrow> nat \<Rightarrow> nat \<Rightarrow> mem \<Rightarrow> mem"
    and osize :: nat
    and nsize :: "'a \<Rightarrow> nat"
    and wr rdr :: "'a \<Rightarrow> nat \<Rightarrow> nat \<Rightarrow> nat set"
    and src dst :: "'a \<Rightarrow> mem \<Rightarrow> nat \<Rightarrow> nat \<Rightarrow> 'v"
  assumes body_frame: "lay a \<Longrightarrow> x \<notin> wr a p q \<Longrightarrow> body a p q m x = m x"
    and body_view: "lay a \<Longrightarrow> wr a p q \<inter> rdr a p q = {} \<Longrightarrow> dst a (body a p q m) p q = src a m p q"
    and src_local: "lay a \<Longrightarrow> (\<And>x. x \<in> rdr a p q \<Longrightarrow> m x = m' x) \<Longrightarrow> src a m p q = src a m' p q"
    and dst_local: "lay a \<Longrightarrow> (\<And>x. x \<in> wr a p q \<Longrightarrow> m x = m' x) \<Longrightarrow> dst a m p q = dst a m' p q"
begin

lemma rules_frame:
  "lay a \<Longrightarrow> (\<And>i. i < n \<Longrightarrow> x \<notin> wr a (p + i * osize) (q + i * nsize a)) \<Longrightarrow>
   rules_loop (body a) osize (nsize a) p q n m x = m x"
  by (induction n) (simp_all add: body_frame)

lemma rules_view:
  "\<lbrakk>lay a; i < n;
    \<And>j k. j < n \<Longrightarrow> k < n \<Longrightarrow>
      wr a (p + j * osize) (q + j * nsize a) \<inter> rdr a (p + k * osize) (q + k * nsize a) = {};
    \<And>j k. j < n \<Longrightarrow> k < n \<Longrightarrow> j \<noteq> k \<Longrightarrow>
      wr a (p + j * osize) (q + j * nsize a) \<inter> wr a (p + k * osize) (q + k * nsize a) = {}\<rbrakk>
   \<Longrightarrow> dst a (rules_loop (body a) osize (nsize a) p q n m) (p + i * osize) (q + i * nsize a)
     = src a m (p + i * osize) (q + i * nsize a)"
proof (induction n)
  case (Suc n)
  let ?m = "rules_loop (body a) osize (nsize a) p q n m"
  let ?p = "p + n * osize" and ?q = "q + n * nsize a"
  show ?case
  proof (cases "i = n")
    case True
    have "src a ?m ?p ?q = src a m ?p ?q"
      using Suc.prems(1) Suc.prems(3) [OF less_SucI lessI] by (intro src_local rules_frame) blast+
    then show ?thesis
      using True body_view [OF Suc.prems(1), of ?p ?q ?m] Suc.prems(3) [of n n] by simp
  next
    case False
    with Suc.prems(2) have lt: "i < n" by simp
    have "dst a (body a ?p ?q ?m) (p + i * osize) (q + i * nsize a)
        = dst a ?m (p + i * osize) (q + i * nsize a)"
      using Suc.prems(1) Suc.prems(4) [of n i] lt by (intro dst_local body_frame) auto
    also have "\<dots> = src a m (p + i * osize) (q + i * nsize a)"
      using Suc.prems by (intro Suc.IH [OF Suc.prems(1) lt]) auto
    finally show ?thesis by simp
  qed
qed simp

end

text \<open>
  The two directions: on the way out the body writes the element of the old array and reads
  that of the new one; on the way back it is the other way round. Disjoint arrays suffice.
\<close>

locale rule_array_out = rule_array +
  assumes wr_old: "lay a \<Longrightarrow> wr a p q \<subseteq> {p ..< p + osize}"
    and rdr_new: "lay a \<Longrightarrow> rdr a p q \<subseteq> {q ..< q + nsize a}"
begin

lemma out_view:
  assumes "lay a" "disjoint_ranges p (n * osize) q (n * nsize a)" "i < n"
  shows "dst a (rules_loop (body a) osize (nsize a) p q n m) (p + i * osize) (q + i * nsize a)
     = src a m (p + i * osize) (q + i * nsize a)"
  using assms(1,3)
proof (rule rules_view)
  fix j k :: nat
  assume "j < n" "k < n"
  then show "wr a (p + j * osize) (q + j * nsize a) \<inter> rdr a (p + k * osize) (q + k * nsize a) = {}"
    by (rule elems_disjoint [OF _ _ wr_old rdr_new assms(2)]) (fact assms(1))+
  show "j \<noteq> k \<Longrightarrow> wr a (p + j * osize) (q + j * nsize a) \<inter> wr a (p + k * osize) (q + k * nsize a) = {}"
    by (rule elem_parts_disjoint [OF _ wr_old wr_old]) (use assms(1) in auto)
qed

lemma out_frame:
  assumes "lay a" "x \<notin> {p ..< p + n * osize}"
  shows "rules_loop (body a) osize (nsize a) p q n m x = m x"
  using assms(1)
proof (rule rules_frame)
  fix i assume "i < n"
  then show "x \<notin> wr a (p + i * osize) (q + i * nsize a)"
    using wr_old [OF assms(1)] elem_in_array [of i n p osize] assms(2) by blast
qed

end

locale rule_array_back = rule_array +
  assumes wr_new: "lay a \<Longrightarrow> wr a p q \<subseteq> {q ..< q + nsize a}"
    and rdr_old: "lay a \<Longrightarrow> rdr a p q \<subseteq> {p ..< p + osize}"
begin

lemma back_view:
  assumes "lay a" "disjoint_ranges p (n * osize) q (n * nsize a)" "i < n"
  shows "dst a (rules_loop (body a) osize (nsize a) p q n m) (p + i * osize) (q + i * nsize a)
     = src a m (p + i * osize) (q + i * nsize a)"
  using assms(1,3)
proof (rule rules_view)
  have sep: "disjoint_ranges q (n * nsize a) p (n * osize)"
    using assms(2) by (auto simp: disjoint_ranges_def)
  fix j k :: nat
  assume "j < n" "k < n"
  then show "wr a (p + j * osize) (q + j * nsize a) \<inter> rdr a (p + k * osize) (q + k * nsize a) = {}"
    by (rule elems_disjoint [OF _ _ wr_new rdr_old sep]) (fact assms(1))+
  show "j \<noteq> k \<Longrightarrow> wr a (p + j * osize) (q + j * nsize a) \<inter> wr a (p + k * osize) (q + k * nsize a) = {}"
    by (rule elem_parts_disjoint [OF _ wr_new wr_new]) (use assms(1) in auto)
qed

end

subsection \<open>Routing rules\<close>

text \<open>
  What a routing rule says: its first twelve bytes, the attributes both layouts share, the
  priority word and the placement flag.
\<close>

record rt_view =
  rt_head :: "u8 list"
  rt_attr :: "u8 list"
  rt_prio :: "u8 list"
  rt_rear :: "u8 list"

definition new_rt_view :: "ipa_abi \<Rightarrow> mem \<Rightarrow> nat \<Rightarrow> rt_view" where
  "new_rt_view abi m p = \<lparr>rt_head = bytes_at m p 12, rt_attr = bytes_at m (p + 12) ATTR_COMMON_SIZE,
     rt_prio = bytes_at m (p + offsetof abi S_rt_rule F_max_prio) 4,
     rt_rear = bytes_at m (p + offsetof abi S_rt_rule_add F_at_rear) 1\<rparr>"

definition old_rt_view :: "mem \<Rightarrow> nat \<Rightarrow> rt_view" where
  "old_rt_view m p = \<lparr>rt_head = bytes_at m p 12, rt_attr = bytes_at m (p + 12) ATTR_COMMON_SIZE,
     rt_prio = bytes_at m (p + 164) 4, rt_rear = bytes_at m (p + OLD_RT_ADD_AT_REAR) 1\<rparr>"

definition rt_layout_ok :: "ipa_abi \<Rightarrow> bool" where
  "rt_layout_ok abi \<longleftrightarrow>
     (let f = offsetof abi S_rt_rule_add; s = sizeof abi S_rt_rule_add in
      12 + ATTR_COMMON_SIZE \<le> s \<and> offsetof abi S_rt_rule F_max_prio + 4 \<le> s \<and> f F_at_rear + 1 \<le> s
      \<and> f F_rt_rule_hdl + 4 \<le> f F_status \<and> f F_status + 4 \<le> s)"

lemma rt_layout_bounds:
  assumes "rt_layout_ok abi"
  shows "160 \<le> sizeof abi S_rt_rule_add"
    "offsetof abi S_rt_rule F_max_prio + 4 \<le> sizeof abi S_rt_rule_add"
    "offsetof abi S_rt_rule_add F_at_rear + 1 \<le> sizeof abi S_rt_rule_add"
    "offsetof abi S_rt_rule_add F_rt_rule_hdl + 4 \<le> offsetof abi S_rt_rule_add F_status"
    "offsetof abi S_rt_rule_add F_status + 4 \<le> sizeof abi S_rt_rule_add"
  using assms by (simp_all add: rt_layout_ok_def Let_def)

definition rt_out_wr :: "ipa_abi \<Rightarrow> nat \<Rightarrow> nat \<Rightarrow> nat set" where
  "rt_out_wr abi p q = {p ..< p + OLD_RT_ADD_SIZE}"

definition rt_out_rdr :: "ipa_abi \<Rightarrow> nat \<Rightarrow> nat \<Rightarrow> nat set" where
  "rt_out_rdr abi p q = {q ..< q + sizeof abi S_rt_rule_add}"

definition rt_fields :: "ipa_abi \<Rightarrow> nat \<Rightarrow> nat \<Rightarrow> nat set" where
  "rt_fields abi p q =
     {q + offsetof abi S_rt_rule_add F_rt_rule_hdl ..< q + offsetof abi S_rt_rule_add F_rt_rule_hdl + 4}
     \<union> {q + offsetof abi S_rt_rule_add F_status ..< q + offsetof abi S_rt_rule_add F_status + 4}"

definition rt_back_rdr :: "ipa_abi \<Rightarrow> nat \<Rightarrow> nat \<Rightarrow> nat set" where
  "rt_back_rdr abi p q = {p ..< p + OLD_RT_ADD_SIZE}"

text \<open>Handle and status of a rule: in the kernel's buffer and in the caller's request.\<close>

definition old_rt_result :: "mem \<Rightarrow> nat \<Rightarrow> u32 \<times> u32" where
  "old_rt_result m p = (rd32 m (p + OLD_RT_ADD_HDL), rd32 m (p + OLD_RT_ADD_STATUS))"

definition new_rt_result :: "ipa_abi \<Rightarrow> mem \<Rightarrow> nat \<Rightarrow> u32 \<times> u32" where
  "new_rt_result abi m q = (rd32 m (q + offsetof abi S_rt_rule_add F_rt_rule_hdl),
     rd32 m (q + offsetof abi S_rt_rule_add F_status))"

lemma attr_new_to_old_apply:
  "disjoint_ranges p 152 q 148 \<Longrightarrow> attr_new_to_old p q m x =
     (if p \<le> x \<and> x < p + 148 then m (q + (x - p)) else if p \<le> x \<and> x < p + 152 then 0 else m x)"
  by (subgoal_tac "disjoint_ranges p 148 q 148")
    (auto simp: attr_new_to_old_def Let_def mem_copy_apply mem_zero_apply disjoint_ranges_def)

lemma rt_rule_new_to_old_apply:
  assumes "disjoint_ranges p 168 q s" and "160 \<le> s" "offsetof abi S_rt_rule F_max_prio + 4 \<le> s"
  shows "rt_rule_new_to_old abi p q m x =
    (if p \<le> x \<and> x < p + 160 then m (q + (x - p)) else if p \<le> x \<and> x < p + 164 then 0
     else if p \<le> x \<and> x < p + 168 then m (q + offsetof abi S_rt_rule F_max_prio + (x - (p + 164)))
     else m x)"
proof -
  let ?o = "offsetof abi S_rt_rule F_max_prio"
  have d: "disjoint_ranges p 12 q 12" "disjoint_ranges (p + 12) 152 (q + 12) 148"
    "disjoint_ranges (p + 164) 4 (q + ?o) 4"
    using assms by (auto simp: disjoint_ranges_def)
  let ?m1 = "mem_copy (mem_zero m p 168) p q 12"
  let ?m2 = "attr_new_to_old (p + 12) (q + 12) ?m1"
  have m1: "?m1 y = (if p \<le> y \<and> y < p + 12 then m (q + (y - p))
      else if p \<le> y \<and> y < p + 168 then 0 else m y)" for y
    using assms by (auto simp: mem_copy_apply [OF d(1)] mem_zero_apply disjoint_ranges_def)
  have m2: "?m2 y = (if p \<le> y \<and> y < p + 160 then m (q + (y - p))
      else if p \<le> y \<and> y < p + 168 then 0 else m y)" for y
    using assms by (auto simp: attr_new_to_old_apply [OF d(2)] m1 disjoint_ranges_def)
  show ?thesis
    using assms by (auto simp: rt_rule_new_to_old_def Let_def mem_copy_apply [OF d(3)] m2 disjoint_ranges_def)
qed

lemma rt_add_out_apply:
  assumes lay: "rt_layout_ok abi" and sep: "disjoint_ranges p 180 q (sizeof abi S_rt_rule_add)"
  shows "rt_add_out abi p q m x =
    (if x = p + 168 then m (q + offsetof abi S_rt_rule_add F_at_rear)
     else rt_rule_new_to_old abi p q m x)"
proof -
  note b = rt_layout_bounds [OF lay]
  have d: "disjoint_ranges p 168 q (sizeof abi S_rt_rule_add)"
    "disjoint_ranges (p + 168) 1 (q + offsetof abi S_rt_rule_add F_at_rear) 1"
    using sep b by (auto simp: disjoint_ranges_def)
  have "rt_rule_new_to_old abi p q m (q + offsetof abi S_rt_rule_add F_at_rear)
      = m (q + offsetof abi S_rt_rule_add F_at_rear)"
    using sep b by (auto simp: rt_rule_new_to_old_apply [OF d(1) b(1,2)] disjoint_ranges_def)
  then show ?thesis
    by (auto simp: rt_add_out_def Let_def mem_copy_apply [OF d(2)])
qed

lemma rt_add_out_frame:
  "x \<notin> rt_out_wr abi p q \<Longrightarrow> rt_add_out abi p q m x = m x"
  by (auto simp: rt_out_wr_def rt_add_out_def rt_rule_new_to_old_def attr_new_to_old_def Let_def
      mem_copy_frame mem_zero_apply)

lemma disjoint_ranges_sets:
  "0 < n \<Longrightarrow> 0 < k \<Longrightarrow> {p ..< p + n} \<inter> {q ..< q + k} = {} \<Longrightarrow> disjoint_ranges p n q k"
proof (rule ccontr)
  assume "0 < n" "0 < k" "{p ..< p + n} \<inter> {q ..< q + k} = {}" "\<not> disjoint_ranges p n q k"
  then have "max p q \<in> {p ..< p + n} \<inter> {q ..< q + k}" by (auto simp: disjoint_ranges_def)
  with \<open>{p ..< p + n} \<inter> {q ..< q + k} = {}\<close> show False by blast
qed

lemma rt_add_out_view:
  assumes lay: "rt_layout_ok abi" and sep: "rt_out_wr abi p q \<inter> rt_out_rdr abi p q = {}"
  shows "old_rt_view (rt_add_out abi p q m) p = new_rt_view abi m q"
proof -
  note b = rt_layout_bounds [OF lay]
  have d: "disjoint_ranges p 180 q (sizeof abi S_rt_rule_add)"
    using sep b(1) by (intro disjoint_ranges_sets) (auto simp: rt_out_wr_def rt_out_rdr_def)
  then have d': "disjoint_ranges p 168 q (sizeof abi S_rt_rule_add)"
    by (auto simp: disjoint_ranges_def)
  show ?thesis
    unfolding old_rt_view_def new_rt_view_def
    by (auto simp: rt_add_out_apply [OF lay d] rt_rule_new_to_old_apply [OF d' b(1,2)] add.assoc
        intro!: bytes_at_cong)
qed

interpretation rt_out: rule_array_out rt_layout_ok rt_add_out OLD_RT_ADD_SIZE
  "\<lambda>abi. sizeof abi S_rt_rule_add" rt_out_wr rt_out_rdr
  "\<lambda>abi m p q. new_rt_view abi m q" "\<lambda>abi m p q. old_rt_view m p"
proof
  show "rt_layout_ok a \<Longrightarrow> (\<And>x. x \<in> rt_out_rdr a p q \<Longrightarrow> m x = m' x) \<Longrightarrow>
    new_rt_view a m q = new_rt_view a m' q" for a p q m m'
    by (auto simp: new_rt_view_def rt_out_rdr_def rt_layout_ok_def Let_def intro!: bytes_at_cong)
  show "(\<And>x. x \<in> rt_out_wr a p q \<Longrightarrow> m x = m' x) \<Longrightarrow> old_rt_view m p = old_rt_view m' p" for a p q m m'
    by (auto simp: old_rt_view_def rt_out_wr_def intro!: bytes_at_cong)
qed (auto intro: rt_add_out_frame rt_add_out_view simp: rt_out_wr_def rt_out_rdr_def)

lemma rt_fields_sub: "rt_layout_ok abi \<Longrightarrow> rt_fields abi p q \<subseteq> {q ..< q + sizeof abi S_rt_rule_add}"
  by (auto simp: rt_fields_def rt_layout_ok_def Let_def)

lemma rt_add_back_frame: "x \<notin> rt_fields abi p q \<Longrightarrow> rt_add_back abi p q m x = m x"
  by (auto simp: rt_fields_def rt_add_back_def Let_def mem_copy_frame)

lemma result_back:
  assumes "disjoint_ranges (q + h) 4 p n" "disjoint_ranges (q + s) 4 p n" "h + 4 \<le> s"
    "oh + 4 \<le> n" "os + 4 \<le> n"
    and m'_def: "m' = mem_copy (mem_copy m (q + h) (p + oh) 4) (q + s) (p + os) 4"
  shows "rd32 m' (q + h) = rd32 m (p + oh)" "rd32 m' (q + s) = rd32 m (p + os)"
proof -
  let ?cs = "[(q + h, p + oh, 4), (q + s, p + os, 4)]"
  have ok: "copies_ok p n ?cs" using assms(1-5) by (auto simp: disjoint_ranges_def)
  have m': "m' = copies ?cs m" by (simp add: m'_def)
  show "rd32 m' (q + h) = rd32 m (p + oh)"
    by (intro rd32_cong) (simp only: m', rule copies_hit [OF ok], auto)
  show "rd32 m' (q + s) = rd32 m (p + os)"
    by (intro rd32_cong) (simp only: m', rule copies_hit [OF ok], auto)
qed

lemma rt_add_back_view:
  assumes lay: "rt_layout_ok abi" and sep: "rt_fields abi p q \<inter> rt_back_rdr abi p q = {}"
  shows "new_rt_result abi (rt_add_back abi p q m) q = old_rt_result m p"
proof -
  have "disjoint_ranges (q + offsetof abi S_rt_rule_add F_rt_rule_hdl) 4 p 180"
    "disjoint_ranges (q + offsetof abi S_rt_rule_add F_status) 4 p 180"
    using sep by (auto simp: rt_fields_def rt_back_rdr_def intro!: disjoint_ranges_sets)
  from result_back [OF this rt_layout_bounds(4) [OF lay] _ _ refl, of 172 176 m] show ?thesis
    by (simp add: new_rt_result_def old_rt_result_def rt_add_back_def Let_def)
qed

interpretation rt_back: rule_array_back rt_layout_ok rt_add_back OLD_RT_ADD_SIZE
  "\<lambda>abi. sizeof abi S_rt_rule_add" rt_fields rt_back_rdr
  "\<lambda>abi m p q. old_rt_result m p" "\<lambda>abi m p q. new_rt_result abi m q"
proof
  show "(\<And>x. x \<in> rt_back_rdr a p q \<Longrightarrow> m x = m' x) \<Longrightarrow> old_rt_result m p = old_rt_result m' p" for a p q m m'
    by (auto simp: old_rt_result_def rt_back_rdr_def intro!: rd32_cong)
  show "(\<And>x. x \<in> rt_fields a p q \<Longrightarrow> m x = m' x) \<Longrightarrow> new_rt_result a m q = new_rt_result a m' q" for a p q m m'
    by (auto simp: new_rt_result_def rt_fields_def intro!: rd32_cong)
qed (auto intro: rt_add_back_frame rt_add_back_view dest: rt_fields_sub,
    auto simp: rt_back_rdr_def)

subsection \<open>Filtering rules\<close>

record flt_view =
  flt_head :: "u8 list"
  flt_attr :: "u8 list"
  flt_eq :: "u8 list"
  flt_tail :: "u8 list"
  flt_rear :: "u8 list"

definition new_flt_view :: "ipa_abi \<Rightarrow> mem \<Rightarrow> nat \<Rightarrow> flt_view" where
  "new_flt_view abi m p = \<lparr>flt_head = bytes_at m p 12, flt_attr = bytes_at m (p + 12) ATTR_COMMON_SIZE,
     flt_eq = bytes_at m (p + offsetof abi S_flt_rule F_eq_attrib) 184,
     flt_tail = bytes_at m (p + offsetof abi S_flt_rule F_rt_tbl_idx) 12,
     flt_rear = bytes_at m (p + offsetof abi S_flt_rule_add F_at_rear) 1\<rparr>"

definition old_flt_view :: "mem \<Rightarrow> nat \<Rightarrow> flt_view" where
  "old_flt_view m p = \<lparr>flt_head = bytes_at m p 12, flt_attr = bytes_at m (p + 12) ATTR_COMMON_SIZE,
     flt_eq = bytes_at m (p + 164) 184, flt_tail = bytes_at m (p + 348) 12,
     flt_rear = bytes_at m (p + OLD_FLT_ADD_AT_REAR) 1\<rparr>"

definition flt_layout_ok :: "ipa_abi \<Rightarrow> bool" where
  "flt_layout_ok abi \<longleftrightarrow>
     (let f = offsetof abi S_flt_rule_add; s = sizeof abi S_flt_rule_add in
      12 + ATTR_COMMON_SIZE \<le> s \<and> offsetof abi S_flt_rule F_eq_attrib + 184 \<le> s
      \<and> offsetof abi S_flt_rule F_rt_tbl_idx + 12 \<le> s \<and> f F_at_rear + 1 \<le> s
      \<and> f F_flt_rule_hdl + 4 \<le> f F_status \<and> f F_status + 4 \<le> s)"

lemma flt_layout_bounds:
  assumes "flt_layout_ok abi"
  shows "160 \<le> sizeof abi S_flt_rule_add"
    "offsetof abi S_flt_rule F_eq_attrib + 184 \<le> sizeof abi S_flt_rule_add"
    "offsetof abi S_flt_rule F_rt_tbl_idx + 12 \<le> sizeof abi S_flt_rule_add"
    "offsetof abi S_flt_rule_add F_at_rear + 1 \<le> sizeof abi S_flt_rule_add"
    "offsetof abi S_flt_rule_add F_flt_rule_hdl + 4 \<le> offsetof abi S_flt_rule_add F_status"
    "offsetof abi S_flt_rule_add F_status + 4 \<le> sizeof abi S_flt_rule_add"
  using assms by (simp_all add: flt_layout_ok_def Let_def)

definition flt_out_wr :: "ipa_abi \<Rightarrow> nat \<Rightarrow> nat \<Rightarrow> nat set" where
  "flt_out_wr abi p q = {p ..< p + OLD_FLT_ADD_SIZE}"

definition flt_out_rdr :: "ipa_abi \<Rightarrow> nat \<Rightarrow> nat \<Rightarrow> nat set" where
  "flt_out_rdr abi p q = {q ..< q + sizeof abi S_flt_rule_add}"

definition flt_fields :: "ipa_abi \<Rightarrow> nat \<Rightarrow> nat \<Rightarrow> nat set" where
  "flt_fields abi p q =
     {q + offsetof abi S_flt_rule_add F_flt_rule_hdl ..< q + offsetof abi S_flt_rule_add F_flt_rule_hdl + 4}
     \<union> {q + offsetof abi S_flt_rule_add F_status ..< q + offsetof abi S_flt_rule_add F_status + 4}"

definition flt_back_rdr :: "ipa_abi \<Rightarrow> nat \<Rightarrow> nat \<Rightarrow> nat set" where
  "flt_back_rdr abi p q = {p ..< p + OLD_FLT_ADD_SIZE}"

definition old_flt_result :: "mem \<Rightarrow> nat \<Rightarrow> u32 \<times> u32" where
  "old_flt_result m p = (rd32 m (p + OLD_FLT_ADD_HDL), rd32 m (p + OLD_FLT_ADD_STATUS))"

definition new_flt_result :: "ipa_abi \<Rightarrow> mem \<Rightarrow> nat \<Rightarrow> u32 \<times> u32" where
  "new_flt_result abi m q = (rd32 m (q + offsetof abi S_flt_rule_add F_flt_rule_hdl),
     rd32 m (q + offsetof abi S_flt_rule_add F_status))"

lemma flt_rule_new_to_old_apply:
  assumes "disjoint_ranges p 360 q s" and "160 \<le> s"
    "offsetof abi S_flt_rule F_eq_attrib + 184 \<le> s" "offsetof abi S_flt_rule F_rt_tbl_idx + 12 \<le> s"
  shows "flt_rule_new_to_old abi p q m x =
    (if p \<le> x \<and> x < p + 160 then m (q + (x - p)) else if p \<le> x \<and> x < p + 164 then 0
     else if p \<le> x \<and> x < p + 348 then m (q + offsetof abi S_flt_rule F_eq_attrib + (x - (p + 164)))
     else if p \<le> x \<and> x < p + 360 then m (q + offsetof abi S_flt_rule F_rt_tbl_idx + (x - (p + 348)))
     else m x)"
proof -
  let ?e = "offsetof abi S_flt_rule F_eq_attrib" and ?t = "offsetof abi S_flt_rule F_rt_tbl_idx"
  have d: "disjoint_ranges p 12 q 12" "disjoint_ranges (p + 12) 152 (q + 12) 148"
    "disjoint_ranges (p + 164) 184 (q + ?e) 184" "disjoint_ranges (p + 348) 12 (q + ?t) 12"
    using assms by (auto simp: disjoint_ranges_def)
  let ?m1 = "mem_copy (mem_zero m p 360) p q 12"
  let ?m2 = "attr_new_to_old (p + 12) (q + 12) ?m1"
  let ?m3 = "mem_copy ?m2 (p + 164) (q + ?e) 184"
  have m1: "?m1 y = (if p \<le> y \<and> y < p + 12 then m (q + (y - p))
      else if p \<le> y \<and> y < p + 360 then 0 else m y)" for y
    using assms by (auto simp: mem_copy_apply [OF d(1)] mem_zero_apply disjoint_ranges_def)
  have m2: "?m2 y = (if p \<le> y \<and> y < p + 160 then m (q + (y - p))
      else if p \<le> y \<and> y < p + 360 then 0 else m y)" for y
    using assms by (auto simp: attr_new_to_old_apply [OF d(2)] m1 disjoint_ranges_def)
  have m3: "?m3 y = (if p + 164 \<le> y \<and> y < p + 348 then m (q + ?e + (y - (p + 164)))
      else ?m2 y)" for y
    using assms by (auto simp: mem_copy_apply [OF d(3)] m2 disjoint_ranges_def)
  have src: "?m3 (q + ?t + i) = m (q + ?t + i)" if "i < 12" for i
    using assms that by (auto simp: m3 m2 disjoint_ranges_def)
  have last: "flt_rule_new_to_old abi p q m x =
      (if p + 348 \<le> x \<and> x < p + 348 + 12 then ?m3 (q + ?t + (x - (p + 348))) else ?m3 x)"
    by (simp only: flt_rule_new_to_old_def Let_def mem_copy_apply [OF d(4)])
  show ?thesis
  proof (cases "p + 348 \<le> x \<and> x < p + 348 + 12")
    case True
    then have "x - (p + 348) < 12" by linarith
    with True have "flt_rule_new_to_old abi p q m x = m (q + ?t + (x - (p + 348)))"
      by (simp only: last src if_True simp_thms)
    with True show ?thesis by simp
  qed (auto simp: last m3 m2)
qed

lemma flt_add_out_apply:
  assumes lay: "flt_layout_ok abi" and sep: "disjoint_ranges p 372 q (sizeof abi S_flt_rule_add)"
  shows "flt_add_out abi p q m x =
    (if x = p + 360 then m (q + offsetof abi S_flt_rule_add F_at_rear)
     else flt_rule_new_to_old abi p q m x)"
proof -
  note b = flt_layout_bounds [OF lay]
  have d: "disjoint_ranges p 360 q (sizeof abi S_flt_rule_add)"
    "disjoint_ranges (p + 360) 1 (q + offsetof abi S_flt_rule_add F_at_rear) 1"
    using sep b by (auto simp: disjoint_ranges_def)
  have "flt_rule_new_to_old abi p q m (q + offsetof abi S_flt_rule_add F_at_rear)
      = m (q + offsetof abi S_flt_rule_add F_at_rear)"
    using sep b by (auto simp: flt_rule_new_to_old_apply [OF d(1) b(1-3)] disjoint_ranges_def)
  then show ?thesis
    by (auto simp: flt_add_out_def Let_def mem_copy_apply [OF d(2)])
qed

lemma flt_add_out_frame:
  "x \<notin> flt_out_wr abi p q \<Longrightarrow> flt_add_out abi p q m x = m x"
  by (auto simp: flt_out_wr_def flt_add_out_def flt_rule_new_to_old_def attr_new_to_old_def Let_def
      mem_copy_frame mem_zero_apply)

lemma flt_add_out_view:
  assumes lay: "flt_layout_ok abi" and sep: "flt_out_wr abi p q \<inter> flt_out_rdr abi p q = {}"
  shows "old_flt_view (flt_add_out abi p q m) p = new_flt_view abi m q"
proof -
  note b = flt_layout_bounds [OF lay]
  have d: "disjoint_ranges p 372 q (sizeof abi S_flt_rule_add)"
    using sep b(1) by (intro disjoint_ranges_sets) (auto simp: flt_out_wr_def flt_out_rdr_def)
  then have d': "disjoint_ranges p 360 q (sizeof abi S_flt_rule_add)"
    by (auto simp: disjoint_ranges_def)
  show ?thesis
    unfolding old_flt_view_def new_flt_view_def
    by (auto simp: flt_add_out_apply [OF lay d] flt_rule_new_to_old_apply [OF d' b(1-3)] add.assoc
        intro!: bytes_at_cong)
qed

interpretation flt_out: rule_array_out flt_layout_ok flt_add_out OLD_FLT_ADD_SIZE
  "\<lambda>abi. sizeof abi S_flt_rule_add" flt_out_wr flt_out_rdr
  "\<lambda>abi m p q. new_flt_view abi m q" "\<lambda>abi m p q. old_flt_view m p"
proof
  show "flt_layout_ok a \<Longrightarrow> (\<And>x. x \<in> flt_out_rdr a p q \<Longrightarrow> m x = m' x) \<Longrightarrow>
    new_flt_view a m q = new_flt_view a m' q" for a p q m m'
    by (auto simp: new_flt_view_def flt_out_rdr_def flt_layout_ok_def Let_def intro!: bytes_at_cong)
  show "(\<And>x. x \<in> flt_out_wr a p q \<Longrightarrow> m x = m' x) \<Longrightarrow> old_flt_view m p = old_flt_view m' p" for a p q m m'
    by (auto simp: old_flt_view_def flt_out_wr_def intro!: bytes_at_cong)
qed (auto intro: flt_add_out_frame flt_add_out_view simp: flt_out_wr_def flt_out_rdr_def)

lemma flt_fields_sub: "flt_layout_ok abi \<Longrightarrow> flt_fields abi p q \<subseteq> {q ..< q + sizeof abi S_flt_rule_add}"
  by (auto simp: flt_fields_def flt_layout_ok_def Let_def)

lemma flt_add_back_frame: "x \<notin> flt_fields abi p q \<Longrightarrow> flt_add_back abi p q m x = m x"
  by (auto simp: flt_fields_def flt_add_back_def Let_def mem_copy_frame)

lemma flt_add_back_view:
  assumes lay: "flt_layout_ok abi" and sep: "flt_fields abi p q \<inter> flt_back_rdr abi p q = {}"
  shows "new_flt_result abi (flt_add_back abi p q m) q = old_flt_result m p"
proof -
  have "disjoint_ranges (q + offsetof abi S_flt_rule_add F_flt_rule_hdl) 4 p 372"
    "disjoint_ranges (q + offsetof abi S_flt_rule_add F_status) 4 p 372"
    using sep by (auto simp: flt_fields_def flt_back_rdr_def intro!: disjoint_ranges_sets)
  from result_back [OF this flt_layout_bounds(5) [OF lay] _ _ refl, of 364 368 m] show ?thesis
    by (simp add: new_flt_result_def old_flt_result_def flt_add_back_def Let_def)
qed

interpretation flt_back: rule_array_back flt_layout_ok flt_add_back OLD_FLT_ADD_SIZE
  "\<lambda>abi. sizeof abi S_flt_rule_add" flt_fields flt_back_rdr
  "\<lambda>abi m p q. old_flt_result m p" "\<lambda>abi m p q. new_flt_result abi m q"
proof
  show "(\<And>x. x \<in> flt_back_rdr a p q \<Longrightarrow> m x = m' x) \<Longrightarrow> old_flt_result m p = old_flt_result m' p" for a p q m m'
    by (auto simp: old_flt_result_def flt_back_rdr_def intro!: rd32_cong)
  show "(\<And>x. x \<in> flt_fields a p q \<Longrightarrow> m x = m' x) \<Longrightarrow> new_flt_result a m q = new_flt_result a m' q" for a p q m m'
    by (auto simp: new_flt_result_def flt_fields_def intro!: rd32_cong)
qed (auto intro: flt_add_back_frame flt_add_back_view dest: flt_fields_sub,
    auto simp: flt_back_rdr_def)

section \<open>Correctness of the requests\<close>

text \<open>
  What it means to serve a request whose \<open>n\<close> rules start at \<open>new\<close>, through a buffer at \<open>sp\<close>
  with a header of \<open>hdr\<close> bytes. The kernel is called once, with memory \<open>m1\<close>: the buffer's
  header satisfies \<open>H\<close>, each rule in it says in the old layout what the caller's rule says in
  the new one, and the caller's own memory is untouched. When the kernel answers with \<open>m2\<close>,
  the caller finds each rule's handle and status in its own request, and nothing else differs
  from what the kernel left.
\<close>

definition rt_served ::
  "ipa_abi \<Rightarrow> 'k os \<Rightarrow> int \<Rightarrow> u32 \<Rightarrow> nat \<Rightarrow> nat \<Rightarrow> nat \<Rightarrow> (mem \<Rightarrow> bool) \<Rightarrow> nat \<Rightarrow> nat \<Rightarrow> 'k bridge \<Rightarrow>
   int option \<times> 'k bridge \<Rightarrow> bool" where
  "rt_served abi os fd request sp hdr bufsize H new n st res \<longleftrightarrow>
     (\<exists>m1 ret m2 k. os_ioctl os fd request sp m1 (kst st) = (ret, m2, k) \<and> fst res = Some ret
        \<and> H m1
        \<and> (\<forall>i<n. old_rt_view m1 (sp + hdr + i * OLD_RT_ADD_SIZE)
              = new_rt_view abi (pmem st) (new + i * sizeof abi S_rt_rule_add))
        \<and> (\<forall>x. x \<notin> {sp ..< sp + bufsize} \<longrightarrow> m1 x = pmem st x)
        \<and> (\<forall>i<n. new_rt_result abi (pmem (snd res)) (new + i * sizeof abi S_rt_rule_add)
              = old_rt_result m2 (sp + hdr + i * OLD_RT_ADD_SIZE))
        \<and> (\<forall>x. (\<forall>i<n. x \<notin> rt_fields abi 0 (new + i * sizeof abi S_rt_rule_add))
              \<longrightarrow> pmem (snd res) x = m2 x))"

definition flt_served ::
  "ipa_abi \<Rightarrow> 'k os \<Rightarrow> int \<Rightarrow> u32 \<Rightarrow> nat \<Rightarrow> nat \<Rightarrow> nat \<Rightarrow> (mem \<Rightarrow> bool) \<Rightarrow> nat \<Rightarrow> nat \<Rightarrow> 'k bridge \<Rightarrow>
   int option \<times> 'k bridge \<Rightarrow> bool" where
  "flt_served abi os fd request sp hdr bufsize H new n st res \<longleftrightarrow>
     (\<exists>m1 ret m2 k. os_ioctl os fd request sp m1 (kst st) = (ret, m2, k) \<and> fst res = Some ret
        \<and> H m1
        \<and> (\<forall>i<n. old_flt_view m1 (sp + hdr + i * OLD_FLT_ADD_SIZE)
              = new_flt_view abi (pmem st) (new + i * sizeof abi S_flt_rule_add))
        \<and> (\<forall>x. x \<notin> {sp ..< sp + bufsize} \<longrightarrow> m1 x = pmem st x)
        \<and> (\<forall>i<n. new_flt_result abi (pmem (snd res)) (new + i * sizeof abi S_flt_rule_add)
              = old_flt_result m2 (sp + hdr + i * OLD_FLT_ADD_SIZE))
        \<and> (\<forall>x. (\<forall>i<n. x \<notin> flt_fields abi 0 (new + i * sizeof abi S_flt_rule_add))
              \<longrightarrow> pmem (snd res) x = m2 x))"

lemma rt_exchange_served:
  assumes lay: "rt_layout_ok abi" and n: "n \<le> RT_FLT_MAX_TRANSLATE_RULES"
    and sep: "disjoint_ranges (sp + hdr) (n * OLD_RT_ADD_SIZE) new (n * sizeof abi S_rt_rule_add)"
      "disjoint_ranges sp bufsize new (n * sizeof abi S_rt_rule_add)"
    and buf: "bufsize = hdr + RT_FLT_MAX_TRANSLATE_RULES * OLD_RT_ADD_SIZE"
    and m: "\<And>x. x \<notin> {sp ..< sp + bufsize} \<Longrightarrow> m x = pmem st x"
    and H: "\<And>m'. (\<And>x. x < sp + hdr \<Longrightarrow> m' x = m x) \<Longrightarrow> H m'"
  shows "rt_served abi os fd request sp hdr bufsize H new n st
    (rt_exchange abi os sp fd request tag (sp + hdr) new n m st)"
proof -
  let ?m1 = "rt_out abi (sp + hdr) new n m"
  obtain ret m2 k where io: "os_ioctl os fd request sp ?m1 (kst st) = (ret, m2, k)"
    by (cases "os_ioctl os fd request sp ?m1 (kst st)")
  have frame: "x \<notin> {sp + hdr ..< sp + hdr + n * OLD_RT_ADD_SIZE} \<Longrightarrow> ?m1 x = m x" for x
    unfolding rt_out_def by (rule rt_out.out_frame [OF lay])
  have H1: "H ?m1" by (rule H, rule frame) simp
  have view: "old_rt_view ?m1 (sp + hdr + i * OLD_RT_ADD_SIZE)
      = new_rt_view abi (pmem st) (new + i * sizeof abi S_rt_rule_add)" if "i < n" for i
  proof -
    have "new_rt_view abi m (new + i * sizeof abi S_rt_rule_add)
        = new_rt_view abi (pmem st) (new + i * sizeof abi S_rt_rule_add)"
      using elem_in_array [OF that, of new "sizeof abi S_rt_rule_add"] sep(2)
      by (intro rt_out.src_local [OF lay] m) (auto simp: rt_out_rdr_def disjoint_ranges_def)
    then show ?thesis
      using rt_out.out_view [OF lay sep(1) that] by (simp add: rt_out_def)
  qed
  have out: "\<forall>x. x \<notin> {sp ..< sp + bufsize} \<longrightarrow> ?m1 x = pmem st x"
    using n by (auto simp: buf frame m)
  have result: "new_rt_result abi (rt_back abi (sp + hdr) new n m2) (new + i * sizeof abi S_rt_rule_add)
      = old_rt_result m2 (sp + hdr + i * OLD_RT_ADD_SIZE)" if "i < n" for i
    unfolding rt_back_def by (rule rt_back.back_view [OF lay sep(1) that])
  have rest: "rt_back abi (sp + hdr) new n m2 x = m2 x"
    if "\<forall>i<n. x \<notin> rt_fields abi 0 (new + i * sizeof abi S_rt_rule_add)" for x
    unfolding rt_back_def using that by (intro rt_back.rules_frame [OF lay]) (simp add: rt_fields_def)
  have "rt_exchange abi os sp fd request tag (sp + hdr) new n m st = (Some ret,
      log_translate_ioctl os tag (word_of_nat n) ret
        (st\<lparr>pmem := rt_back abi (sp + hdr) new n m2, kst := k\<rparr>))"
    by (simp add: rt_exchange_def io)
  then show ?thesis
    unfolding rt_served_def using io H1 view out result rest
    by (intro exI [of _ ?m1] exI [of _ ret] exI [of _ m2] exI [of _ k]) (simp add: frame_simps)
qed

lemma flt_exchange_served:
  assumes lay: "flt_layout_ok abi" and n: "n \<le> RT_FLT_MAX_TRANSLATE_RULES"
    and sep: "disjoint_ranges (sp + hdr) (n * OLD_FLT_ADD_SIZE) new (n * sizeof abi S_flt_rule_add)"
      "disjoint_ranges sp bufsize new (n * sizeof abi S_flt_rule_add)"
    and buf: "bufsize = hdr + RT_FLT_MAX_TRANSLATE_RULES * OLD_FLT_ADD_SIZE"
    and m: "\<And>x. x \<notin> {sp ..< sp + bufsize} \<Longrightarrow> m x = pmem st x"
    and H: "\<And>m'. (\<And>x. x < sp + hdr \<Longrightarrow> m' x = m x) \<Longrightarrow> H m'"
  shows "flt_served abi os fd request sp hdr bufsize H new n st
    (flt_exchange abi os sp fd request tag (sp + hdr) new n m st)"
proof -
  let ?m1 = "flt_out abi (sp + hdr) new n m"
  obtain ret m2 k where io: "os_ioctl os fd request sp ?m1 (kst st) = (ret, m2, k)"
    by (cases "os_ioctl os fd request sp ?m1 (kst st)")
  have frame: "x \<notin> {sp + hdr ..< sp + hdr + n * OLD_FLT_ADD_SIZE} \<Longrightarrow> ?m1 x = m x" for x
    unfolding flt_out_def by (rule flt_out.out_frame [OF lay])
  have H1: "H ?m1" by (rule H, rule frame) simp
  have view: "old_flt_view ?m1 (sp + hdr + i * OLD_FLT_ADD_SIZE)
      = new_flt_view abi (pmem st) (new + i * sizeof abi S_flt_rule_add)" if "i < n" for i
  proof -
    have "new_flt_view abi m (new + i * sizeof abi S_flt_rule_add)
        = new_flt_view abi (pmem st) (new + i * sizeof abi S_flt_rule_add)"
      using elem_in_array [OF that, of new "sizeof abi S_flt_rule_add"] sep(2)
      by (intro flt_out.src_local [OF lay] m) (auto simp: flt_out_rdr_def disjoint_ranges_def)
    then show ?thesis
      using flt_out.out_view [OF lay sep(1) that] by (simp add: flt_out_def)
  qed
  have out: "\<forall>x. x \<notin> {sp ..< sp + bufsize} \<longrightarrow> ?m1 x = pmem st x"
    using n by (auto simp: buf frame m)
  have result: "new_flt_result abi (flt_back abi (sp + hdr) new n m2) (new + i * sizeof abi S_flt_rule_add)
      = old_flt_result m2 (sp + hdr + i * OLD_FLT_ADD_SIZE)" if "i < n" for i
    unfolding flt_back_def by (rule flt_back.back_view [OF lay sep(1) that])
  have rest: "flt_back abi (sp + hdr) new n m2 x = m2 x"
    if "\<forall>i<n. x \<notin> flt_fields abi 0 (new + i * sizeof abi S_flt_rule_add)" for x
    unfolding flt_back_def using that by (intro flt_back.rules_frame [OF lay]) (simp add: flt_fields_def)
  have "flt_exchange abi os sp fd request tag (sp + hdr) new n m st = (Some ret,
      log_translate_ioctl os tag (word_of_nat n) ret
        (st\<lparr>pmem := flt_back abi (sp + hdr) new n m2, kst := k\<rparr>))"
    by (simp add: flt_exchange_def io)
  then show ?thesis
    unfolding flt_served_def using io H1 view out result rest
    by (intro exI [of _ ?m1] exI [of _ ret] exI [of _ m2] exI [of _ k]) (simp add: frame_simps)
qed

subsection \<open>Headers\<close>

definition same_header :: "nat \<Rightarrow> nat \<Rightarrow> nat \<Rightarrow> mem \<Rightarrow> mem \<Rightarrow> bool" where
  "same_header sp arg hdr m m1 \<longleftrightarrow> (\<forall>i<hdr. m1 (sp + i) = m (arg + i))"

text \<open>
  A \<^verbatim>\<open>_v2\<close> header: the size of an old rule, the address of the buffer's rules, and otherwise the
  caller's bytes.
\<close>

definition v2_header ::
  "ipa_abi \<Rightarrow> cstruct \<Rightarrow> cfield \<Rightarrow> nat \<Rightarrow> nat \<Rightarrow> nat \<Rightarrow> nat \<Rightarrow> mem \<Rightarrow> mem \<Rightarrow> bool" where
  "v2_header abi S size_field old_size sp arg hdr m m1 \<longleftrightarrow>
     rd32 m1 (sp + offsetof abi S size_field) = word_of_nat old_size
     \<and> rd64 m1 (sp + offsetof abi S F_rules) = word_of_nat (sp + hdr)
     \<and> (\<forall>i<hdr. (i < offsetof abi S size_field \<or> offsetof abi S size_field + 4 \<le> i)
          \<and> (i < offsetof abi S F_rules \<or> offsetof abi S F_rules + 8 \<le> i)
          \<longrightarrow> m1 (sp + i) = m (arg + i))"

definition v2_layout_ok :: "ipa_abi \<Rightarrow> cstruct \<Rightarrow> cfield \<Rightarrow> nat \<Rightarrow> bool" where
  "v2_layout_ok abi S size_field hdr \<longleftrightarrow>
     offsetof abi S size_field + 4 \<le> hdr \<and> offsetof abi S F_rules + 8 \<le> hdr
     \<and> disjoint_ranges (offsetof abi S size_field) 4 (offsetof abi S F_rules) 8"

lemma put_header_frame:
  "hdr \<le> bufsize \<Longrightarrow> x \<notin> {sp ..< sp + bufsize} \<Longrightarrow> put_header sp bufsize arg hdr m x = m x"
  by (auto simp: put_header_def mem_copy_frame mem_zero_apply)

lemma put_header_same:
  assumes "disjoint_ranges sp bufsize arg hdr" "hdr \<le> bufsize"
  shows "same_header sp arg hdr m (put_header sp bufsize arg hdr m)"
proof -
  have "disjoint_ranges sp hdr arg hdr" using assms by (auto simp: disjoint_ranges_def)
  then show ?thesis
    using assms by (auto simp: same_header_def put_header_def mem_copy_apply mem_zero_apply disjoint_ranges_def)
qed

lemma same_header_cong:
  "same_header sp arg hdr m m1 \<Longrightarrow> (\<And>x. x < sp + hdr \<Longrightarrow> m' x = m1 x) \<Longrightarrow> same_header sp arg hdr m m'"
  by (simp add: same_header_def)

lemma rd64_cong: "(\<And>i. i < 8 \<Longrightarrow> m (p + i) = m' (q + i)) \<Longrightarrow> rd64 m p = rd64 m' q"
  using rd32_cong [of m p m' q] rd32_cong [of m "p + 4" m' "q + 4"] by (simp add: rd64_def add.assoc)

lemma v2_header_cong:
  assumes "v2_header abi S f osz sp arg hdr m m1" "v2_layout_ok abi S f hdr"
    "\<And>x. x < sp + hdr \<Longrightarrow> m' x = m1 x"
  shows "v2_header abi S f osz sp arg hdr m m'"
proof -
  have "rd32 m' (sp + offsetof abi S f) = rd32 m1 (sp + offsetof abi S f)"
    using assms(2) by (intro rd32_cong assms(3)) (simp add: v2_layout_ok_def)
  moreover have "rd64 m' (sp + offsetof abi S F_rules) = rd64 m1 (sp + offsetof abi S F_rules)"
    using assms(2) by (intro rd64_cong assms(3)) (simp add: v2_layout_ok_def)
  ultimately show ?thesis using assms(1,3) by (simp add: v2_header_def)
qed

lemma ucast_ptr: "p < 2 ^ 32 \<Longrightarrow> (ucast (word_of_nat p :: u32) :: u64) = word_of_nat p"
  by (simp add: unsigned_of_nat take_bit_nat_eq_self unsigned_ucast_eq word_unat_eq_iff)

lemma put_header_v2_frame:
  assumes "v2_layout_ok abi S f hdr" "x \<notin> {sp ..< sp + (hdr + RT_FLT_MAX_TRANSLATE_RULES * osz)}"
  shows "put_header_v2 abi S f osz sp arg hdr m x = m x"
  using assms
  by (auto simp: put_header_v2_def v2_layout_ok_def Let_def wr64_frame wr32_frame put_header_frame)

lemma put_header_v2_ok:
  assumes lay: "v2_layout_ok abi S f hdr"
    and sep: "disjoint_ranges sp (hdr + RT_FLT_MAX_TRANSLATE_RULES * osz) arg hdr"
    and ptr: "sp + hdr < 2 ^ 32"
  shows "v2_header abi S f osz sp arg hdr m (put_header_v2 abi S f osz sp arg hdr m)"
proof -
  let ?m0 = "put_header sp (hdr + RT_FLT_MAX_TRANSLATE_RULES * osz) arg hdr m"
  let ?m1 = "wr32 ?m0 (sp + offsetof abi S f) (word_of_nat osz)"
  let ?m2 = "wr64 ?m1 (sp + offsetof abi S F_rules) (word_of_nat (sp + hdr))"
  have m2: "put_header_v2 abi S f osz sp arg hdr m = ?m2"
    unfolding put_header_v2_def Let_def by (simp only: ucast_ptr [OF ptr])
  have "rd32 ?m2 (sp + offsetof abi S f) = rd32 ?m1 (sp + offsetof abi S f)"
    using lay by (intro rd32_cong wr64_frame) (auto simp: v2_layout_ok_def disjoint_ranges_def)
  then have sz: "rd32 ?m2 (sp + offsetof abi S f) = word_of_nat osz" by (simp add: rd32_wr32)
  have "same_header sp arg hdr m ?m0" using sep by (intro put_header_same) simp_all
  then show ?thesis
    unfolding m2 v2_header_def using sz
    by (auto simp: rd64_wr64 wr64_frame wr32_frame same_header_def)
qed

end
