(* ===== verification/Bridge_Ioctl.thy ===== *)
theory Bridge_Ioctl
  imports Bridge_Rules
begin

text \<open>
  The interposed \<^verbatim>\<open>ioctl\<close> (\<^verbatim>\<open>ipacm_abi_bridge_v5.c\<close>, \<open>maybe_translate_rt_flt_ioctl\<close> to \<open>ioctl\<close>) and
  the correctness of the bridge as a whole: which calls reach the kernel as the caller made
  them, which are translated, and what the caller finds in its memory afterwards.
\<close>

unbundle bit_operations_syntax

section \<open>Dispatch of rule requests\<close>

definition maybe_translate_rt_flt_ioctl ::
  "ipa_abi \<Rightarrow> 'k os \<Rightarrow> nat \<Rightarrow> int \<Rightarrow> u32 \<Rightarrow> u32 \<Rightarrow> nat \<Rightarrow> 'k bridge \<Rightarrow> int option \<times> 'k bridge" where
  "maybe_translate_rt_flt_ioctl abi os sp fd request nr arg st =
     (let st = load_cfg os st in
      if \<not> cfg_rt_flt_translate (g_cfg st) \<or> arg = 0 then (None, st)
      else if nr = ioc_nr abi IPA_IOCTL_ADD_RT_RULE then translate_add_rt_ioctl abi os sp fd request arg st
      else if nr = ioc_nr abi IPA_IOCTL_ADD_FLT_RULE then translate_add_flt_ioctl abi os sp fd request arg st
      else if nr = ioc_nr abi IPA_IOCTL_ADD_RT_RULE_AFTER
        then translate_add_rt_after_ioctl abi os sp fd request arg st
      else if nr = ioc_nr abi IPA_IOCTL_ADD_FLT_RULE_AFTER
        then translate_add_flt_after_ioctl abi os sp fd request arg st
      else if nr = ioc_nr abi IPA_IOCTL_ADD_RT_RULE_V2
        then translate_add_rt_v2_ioctl abi os sp fd request arg st
      else if nr = ioc_nr abi IPA_IOCTL_ADD_FLT_RULE_V2
        then translate_add_flt_v2_ioctl abi os sp fd request arg st
      else if nr = ioc_nr abi IPA_IOCTL_ADD_RT_RULE_AFTER_V2
        then translate_add_rt_after_v2_ioctl abi os sp fd request arg st
      else if nr = ioc_nr abi IPA_IOCTL_ADD_FLT_RULE_AFTER_V2
        then translate_add_flt_after_v2_ioctl abi os sp fd request arg st
      else if nr = ioc_nr abi IPA_IOCTL_GENERATE_FLT_EQ
        then translate_generate_flt_eq_ioctl abi os sp fd request arg st
      else (None, st))"

section \<open>Logging of rule requests\<close>

text \<open>
  The detail a rule request adds to its log line: a label, then named fields. \<open>Inl\<close> is an
  integer field, \<open>Inr\<close> a name array.
\<close>

definition log_fields ::
  "ipa_abi \<Rightarrow> cstruct \<Rightarrow> mem \<Rightarrow> nat \<Rightarrow> (string \<times> (cfield + cfield)) list \<Rightarrow> string list" where
  "log_fields abi S m arg fs = concat (map (\<lambda>(label, f). [log_s label,
     (case f of Inl f \<Rightarrow> log_hex32_fd (ld abi S f m arg)
              | Inr f \<Rightarrow> log_name abi (cstr_at m (arg + offsetof abi S f) (name_max abi)))]) fs)"

definition rt_flt_detail :: "ipa_abi \<Rightarrow> u32 \<Rightarrow> mem \<Rightarrow> nat \<Rightarrow> string list" where
  "rt_flt_detail abi nr m arg =
     (let fields = (\<lambda>S. log_fields abi S m arg); is = (\<lambda>c. nr = ioc_nr abi c) in
      if is IPA_IOCTL_ADD_RT_RULE then fields S_add_rt_rule
        [('' ADD_RT ip='', Inl F_ip), ('' tbl='', Inr F_rt_tbl_name), ('' n='', Inl F_num_rules)]
      else if is IPA_IOCTL_ADD_RT_RULE_V2 then fields S_add_rt_rule_v2
        [('' ADD_RT_V2 ip='', Inl F_ip), ('' tbl='', Inr F_rt_tbl_name), ('' n='', Inl F_num_rules),
         ('' sz='', Inl F_rule_add_size)]
      else if is IPA_IOCTL_ADD_RT_RULE_AFTER then fields S_add_rt_rule_after
        [('' ADD_RT_AFTER ip='', Inl F_ip), ('' tbl='', Inr F_rt_tbl_name), ('' n='', Inl F_num_rules),
         ('' after='', Inl F_add_after_hdl)]
      else if is IPA_IOCTL_ADD_RT_RULE_AFTER_V2 then fields S_add_rt_rule_after_v2
        [('' ADD_RT_AFTER_V2 ip='', Inl F_ip), ('' tbl='', Inr F_rt_tbl_name), ('' n='', Inl F_num_rules),
         ('' after='', Inl F_add_after_hdl), ('' sz='', Inl F_rule_add_size)]
      else if is IPA_IOCTL_MDFY_RT_RULE then fields S_mdfy_rt_rule
        [('' MDFY_RT ip='', Inl F_ip), ('' n='', Inl F_num_rules)]
      else if is IPA_IOCTL_MDFY_RT_RULE_V2 then fields S_mdfy_rt_rule_v2
        [('' MDFY_RT_V2 ip='', Inl F_ip), ('' n='', Inl F_num_rules), ('' sz='', Inl F_rule_mdfy_size)]
      else if is IPA_IOCTL_DEL_RT_RULE then fields S_del_rt_rule
        [('' DEL_RT ip='', Inl F_ip), ('' n='', Inl F_num_hdls)]
      else if is IPA_IOCTL_ADD_FLT_RULE then fields S_add_flt_rule
        [('' ADD_FLT ip='', Inl F_ip), ('' ep='', Inl F_ep), ('' global='', Inl F_global),
         ('' n='', Inl F_num_rules)]
      else if is IPA_IOCTL_ADD_FLT_RULE_V2 then fields S_add_flt_rule_v2
        [('' ADD_FLT_V2 ip='', Inl F_ip), ('' ep='', Inl F_ep), ('' global='', Inl F_global),
         ('' n='', Inl F_num_rules), ('' sz='', Inl F_flt_rule_size)]
      else if is IPA_IOCTL_ADD_FLT_RULE_AFTER then fields S_add_flt_rule_after
        [('' ADD_FLT_AFTER ip='', Inl F_ip), ('' ep='', Inl F_ep), ('' n='', Inl F_num_rules),
         ('' after='', Inl F_add_after_hdl)]
      else if is IPA_IOCTL_ADD_FLT_RULE_AFTER_V2 then fields S_add_flt_rule_after_v2
        [('' ADD_FLT_AFTER_V2 ip='', Inl F_ip), ('' ep='', Inl F_ep), ('' n='', Inl F_num_rules),
         ('' after='', Inl F_add_after_hdl), ('' sz='', Inl F_flt_rule_size)]
      else if is IPA_IOCTL_MDFY_FLT_RULE then fields S_mdfy_flt_rule
        [('' MDFY_FLT ip='', Inl F_ip), ('' n='', Inl F_num_rules)]
      else if is IPA_IOCTL_MDFY_FLT_RULE_V2 then fields S_mdfy_flt_rule_v2
        [('' MDFY_FLT_V2 ip='', Inl F_ip), ('' n='', Inl F_num_rules), ('' sz='', Inl F_rule_mdfy_size)]
      else if is IPA_IOCTL_DEL_FLT_RULE then fields S_del_flt_rule
        [('' DEL_FLT ip='', Inl F_ip), ('' n='', Inl F_num_hdls)]
      else if is IPA_IOCTL_GENERATE_FLT_EQ then [log_s '' GENERATE_FLT_EQ'']
      else [])"

definition log_rt_flt :: "ipa_abi \<Rightarrow> 'k os \<Rightarrow> u32 \<Rightarrow> nat \<Rightarrow> int \<Rightarrow> 'k bridge \<Rightarrow> 'k bridge" where
  "log_rt_flt abi os nr arg ret st =
     (let st = load_cfg os st in
      if \<not> cfg_rt_flt_log (g_cfg st) \<or> arg = 0 then st
      else log_writes os
             ([log_s ''[ABI] IOC nr='', log_hex32_fd nr, log_s '' ret='', log_hex32_fd (word_of_int ret)]
              @ rt_flt_detail abi nr (pmem st) arg @ [log_s [CHR 0x0A]]) st)"

section \<open>The interposed call\<close>

abbreviation IOC_TYPESHIFT :: nat where "IOC_TYPESHIFT \<equiv> 8"

definition ioc_type_of :: "u32 \<Rightarrow> u32" where
  "ioc_type_of request = drop_bit IOC_TYPESHIFT request AND 0xff"

definition ioc_nr_of :: "u32 \<Rightarrow> u32" where
  "ioc_nr_of request = request AND 0xff"

definition rt_flt_requests :: "ioc list" where
  "rt_flt_requests = [IPA_IOCTL_ADD_RT_RULE, IPA_IOCTL_ADD_RT_RULE_V2, IPA_IOCTL_ADD_RT_RULE_AFTER,
     IPA_IOCTL_ADD_RT_RULE_AFTER_V2, IPA_IOCTL_MDFY_RT_RULE, IPA_IOCTL_MDFY_RT_RULE_V2,
     IPA_IOCTL_DEL_RT_RULE, IPA_IOCTL_ADD_FLT_RULE, IPA_IOCTL_ADD_FLT_RULE_V2,
     IPA_IOCTL_ADD_FLT_RULE_AFTER, IPA_IOCTL_ADD_FLT_RULE_AFTER_V2, IPA_IOCTL_MDFY_FLT_RULE,
     IPA_IOCTL_MDFY_FLT_RULE_V2, IPA_IOCTL_DEL_FLT_RULE, IPA_IOCTL_GENERATE_FLT_EQ]"

text \<open>The call handed to the kernel unchanged.\<close>

definition sys_ioctl :: "'k os \<Rightarrow> int \<Rightarrow> u32 \<Rightarrow> nat \<Rightarrow> 'k bridge \<Rightarrow> int \<times> 'k bridge" where
  "sys_ioctl os fd request arg st =
     (case os_ioctl os fd request arg (pmem st) (kst st) of (ret, m, k) \<Rightarrow> (ret, st\<lparr>pmem := m, kst := k\<rparr>))"

text \<open>What follows an untranslated call: the query handlers, then the log.\<close>

definition after_ioctl :: "ipa_abi \<Rightarrow> 'k os \<Rightarrow> nat \<Rightarrow> u32 \<Rightarrow> u32 \<Rightarrow> nat \<Rightarrow> int \<Rightarrow> 'k bridge \<Rightarrow> 'k bridge" where
  "after_ioctl abi os sp type nr arg ret st =
     (let st = (if ret \<ge> 0 \<and> type = ioc_magic abi \<and> arg \<noteq> 0 then
                  (if nr = ioc_nr abi IPA_IOCTL_QUERY_INTF_TX_PROPS then handle_query_tx abi os sp arg st
                   else if nr = ioc_nr abi IPA_IOCTL_QUERY_INTF_RX_PROPS then handle_query_rx abi os sp arg st
                   else if nr = ioc_nr abi IPA_IOCTL_QUERY_INTF_EXT_PROPS then handle_query_ext abi os arg st
                   else st)
                else st)
      in if type = ioc_magic abi \<and> arg \<noteq> 0 \<and> nr \<in> ioc_nr abi ` set rt_flt_requests
         then log_rt_flt abi os nr arg ret st else st)"

definition ioctl :: "ipa_abi \<Rightarrow> 'k os \<Rightarrow> nat \<Rightarrow> int \<Rightarrow> u32 \<Rightarrow> nat \<Rightarrow> 'k bridge \<Rightarrow> int \<times> 'k bridge" where
  "ioctl abi os sp fd request arg st =
     (let type = ioc_type_of request; nr = ioc_nr_of request;
          plain = (\<lambda>st. case sys_ioctl os fd request arg st of (ret, st) \<Rightarrow>
                          (ret, after_ioctl abi os sp type nr arg ret st)) in
      if type = ioc_magic abi then
        (case fd_is_ipa_dev os fd st of (is_ipa, st) \<Rightarrow>
           if \<not> is_ipa then sys_ioctl os fd request arg st
           else (case maybe_translate_rt_flt_ioctl abi os sp fd request nr arg st of
                   (Some ret, st) \<Rightarrow> (ret, log_rt_flt abi os nr arg ret st)
                 | (None, st) \<Rightarrow> plain st))
      else plain st)"

section \<open>A concrete interface\<close>

text \<open>
  The layout of the ``13900'' headers \<^verbatim>\<open>ipacm\<close> was compiled with, as measured in
  \<^verbatim>\<open>intermediate-steps/reports/UL_ROOT_CAUSE_ABI_LAYOUT_2026-04-25.md\<close> and
  \<^verbatim>\<open>UL_ABI_BRIDGE_V3_REPORT_2026-04-25.md\<close> (attributes of 164 bytes, transmit properties of 212,
  filter rules of 384); the witnesses below run the theorems on it.
\<close>

definition offsets_13900 :: "cstruct \<Rightarrow> cfield \<Rightarrow> nat" where
  "offsets_13900 S f =
     (case S of
        S_tx_intf_prop \<Rightarrow> (case f of F_attrib \<Rightarrow> 4 | F_dst_pipe \<Rightarrow> 168 | F_alt_dst_pipe \<Rightarrow> 172
                            | F_hdr_name \<Rightarrow> 176 | F_hdr_l2_type \<Rightarrow> 208 | _ \<Rightarrow> 0)
      | S_rx_intf_prop \<Rightarrow> (case f of F_attrib \<Rightarrow> 4 | F_src_pipe \<Rightarrow> 168 | F_hdr_l2_type \<Rightarrow> 172 | _ \<Rightarrow> 0)
      | S_query_intf_tx_props \<Rightarrow> (case f of F_num_tx_props \<Rightarrow> 32 | F_tx \<Rightarrow> 36 | _ \<Rightarrow> 0)
      | S_query_intf_rx_props \<Rightarrow> (case f of F_num_rx_props \<Rightarrow> 32 | F_rx \<Rightarrow> 36 | _ \<Rightarrow> 0)
      | S_rt_rule \<Rightarrow> (case f of F_max_prio \<Rightarrow> 176 | _ \<Rightarrow> 0)
      | S_rt_rule_add \<Rightarrow> (case f of F_at_rear \<Rightarrow> 180 | F_rt_rule_hdl \<Rightarrow> 184 | F_status \<Rightarrow> 188 | _ \<Rightarrow> 0)
      | S_flt_rule \<Rightarrow> (case f of F_eq_attrib \<Rightarrow> 176 | F_rt_tbl_idx \<Rightarrow> 360 | _ \<Rightarrow> 0)
      | S_flt_rule_add \<Rightarrow> (case f of F_at_rear \<Rightarrow> 372 | F_flt_rule_hdl \<Rightarrow> 376 | F_status \<Rightarrow> 380 | _ \<Rightarrow> 0)
      | S_add_rt_rule \<Rightarrow> (case f of F_num_rules \<Rightarrow> 40 | F_rules \<Rightarrow> 44 | _ \<Rightarrow> 0)
      | S_add_rt_rule_after \<Rightarrow> (case f of F_num_rules \<Rightarrow> 40 | F_rules \<Rightarrow> 48 | _ \<Rightarrow> 0)
      | S_add_rt_rule_v2 \<Rightarrow> (case f of F_num_rules \<Rightarrow> 40 | F_rules \<Rightarrow> 48 | F_rule_add_size \<Rightarrow> 56 | _ \<Rightarrow> 0)
      | S_add_rt_rule_after_v2 \<Rightarrow> (case f of F_num_rules \<Rightarrow> 40 | F_rules \<Rightarrow> 48 | F_rule_add_size \<Rightarrow> 56 | _ \<Rightarrow> 0)
      | S_add_flt_rule \<Rightarrow> (case f of F_num_rules \<Rightarrow> 13 | F_rules \<Rightarrow> 16 | _ \<Rightarrow> 0)
      | S_add_flt_rule_after \<Rightarrow> (case f of F_num_rules \<Rightarrow> 12 | F_rules \<Rightarrow> 20 | _ \<Rightarrow> 0)
      | S_add_flt_rule_v2 \<Rightarrow> (case f of F_num_rules \<Rightarrow> 13 | F_rules \<Rightarrow> 24 | F_flt_rule_size \<Rightarrow> 32 | _ \<Rightarrow> 0)
      | S_add_flt_rule_after_v2 \<Rightarrow> (case f of F_num_rules \<Rightarrow> 13 | F_rules \<Rightarrow> 24 | F_flt_rule_size \<Rightarrow> 32 | _ \<Rightarrow> 0)
      | S_generate_flt_eq \<Rightarrow> (case f of F_attrib \<Rightarrow> 4 | F_eq_attrib \<Rightarrow> 168 | _ \<Rightarrow> 0)
      | _ \<Rightarrow> 0)"

definition abi_13900 :: ipa_abi where
  "abi_13900 = \<lparr>sizeof = (\<lambda>S. case S of S_tx_intf_prop \<Rightarrow> 212 | S_rx_intf_prop \<Rightarrow> 176
       | S_rt_rule_add \<Rightarrow> 192 | S_flt_rule_add \<Rightarrow> 384 | _ \<Rightarrow> 0),
     offsetof = offsets_13900,
     ld = (\<lambda>S f m p. if f = F_num_rules then ucast (m (p + offsets_13900 S f))
                     else rd32 m (p + offsets_13900 S f)),
     ld64 = (\<lambda>S f m p. rd64 m (p + offsets_13900 S f)),
     ioc_nr = (\<lambda>c. 0), ioc_magic = 0xCF, name_max = 32\<rparr>"

lemmas abi_13900_simps = abi_13900_def offsets_13900_def

lemma abi_13900_sizes [simp]:
  "sizeof abi_13900 S_tx_intf_prop = 212" "sizeof abi_13900 S_rx_intf_prop = 176"
  "sizeof abi_13900 S_rt_rule_add = 192" "sizeof abi_13900 S_flt_rule_add = 384"
  "offsetof abi_13900 S_query_intf_tx_props F_tx = 36"
  "offsetof abi_13900 S_query_intf_rx_props F_rx = 36"
  by (simp_all add: abi_13900_simps)

lemma abi_13900_layouts:
  "tx_layout_ok abi_13900" "rx_layout_ok abi_13900" "rt_layout_ok abi_13900" "flt_layout_ok abi_13900"
  "v2_layout_ok abi_13900 S_add_rt_rule_v2 F_rule_add_size 64"
  "v2_layout_ok abi_13900 S_add_rt_rule_after_v2 F_rule_add_size 64"
  "v2_layout_ok abi_13900 S_add_flt_rule_v2 F_flt_rule_size 40"
  "v2_layout_ok abi_13900 S_add_flt_rule_after_v2 F_flt_rule_size 40"
  by (simp_all add: abi_13900_simps tx_layout_ok_def rx_layout_ok_def rt_layout_ok_def
      flt_layout_ok_def v2_layout_ok_def disjoint_ranges_def)

text \<open>A kernel that gives each of the first rule's fields a value and returns 0.\<close>

definition os_quiet :: "unit os" where
  "os_quiet = \<lparr>os_open = (\<lambda>_ _ _ k. (-1, k)), os_read = (\<lambda>_ _ k. ((0, []), k)),
     os_readlink = (\<lambda>_ _ k. ((8, ''/dev/ipa''), k)), os_ioctl = (\<lambda>fd r p m k. (0, m, k))\<rparr>"

lemma bridge_init_fields [simp]:
  "pmem (bridge_init m k) = m" "kst (bridge_init m k) = k" "g_cfg (bridge_init m k) = bridge_cfg_zero"
  by (simp_all add: bridge_init_def)

section \<open>Properties of the bridge\<close>

text \<open>
  C1. Rewriting a transmit-property reply in place is correct. Let the new layout be as the
  translation assumes, let the query at \<open>q\<close> hold \<open>n\<close> properties, and let the scratch array on
  the stack lie outside the reply. Then every property, read in the new layout after the
  rewriting, says what the kernel's reply said in the old layout before it, although both
  arrays start at the same address and overlap; and no byte outside the reply and the scratch
  array changes.
\<close>

theorem translate_tx_correct:
  assumes "tx_layout_ok abi"
    and "n = unat (ld abi S_query_intf_tx_props F_num_tx_props m q)"
    and "base = q + offsetof abi S_query_intf_tx_props F_tx"
    and "disjoint_ranges sp OLD_TX_SIZE base (n * sizeof abi S_tx_intf_prop)"
  shows "(\<forall>i<n. new_tx_view abi (translate_tx_02300_to_new abi sp q m) (base + i * sizeof abi S_tx_intf_prop)
              = old_tx_view abi m (base + i * OLD_TX_SIZE))
    \<and> (\<forall>x. (x < base \<or> base + n * sizeof abi S_tx_intf_prop \<le> x) \<and> (x < sp \<or> sp + OLD_TX_SIZE \<le> x)
          \<longrightarrow> translate_tx_02300_to_new abi sp q m x = m x)"
  unfolding translate_tx_02300_to_new_def assms(2) [symmetric] assms(3) [symmetric]
  using tx.loop_view [OF assms(1,4)] tx.loop_frame [OF assms(1)] by blast

text \<open>
  Witness: the \<^verbatim>\<open>eth0\<close> reply of the root-cause report, two properties with pipe 109.
\<close>

definition eth0_reply :: mem where
  "eth0_reply = (\<lambda>x. 0)(1032 := 2, 1036 + 156 := 109, 1036 + 200 := 1, 1236 + 156 := 109,
     1236 + 196 := 1)"

theorem translate_tx_correct_witness:
  "new_tx_view abi_13900 (translate_tx_02300_to_new abi_13900 5000 1000 eth0_reply) 1036
     = old_tx_view abi_13900 eth0_reply 1036
   \<and> tv_dst (new_tx_view abi_13900 (translate_tx_02300_to_new abi_13900 5000 1000 eth0_reply) 1248) = 109"
proof -
  have n: "2 = unat (ld abi_13900 S_query_intf_tx_props F_num_tx_props eth0_reply 1000)"
    by (simp add: abi_13900_simps eth0_reply_def rd32_def)
  have sep: "disjoint_ranges 5000 200 1036 (2 * sizeof abi_13900 S_tx_intf_prop)"
    by (simp add: disjoint_ranges_def)
  have "tv_dst (old_tx_view abi_13900 eth0_reply 1236) = 109"
    by (simp add: old_tx_view_def tx_view_at_def eth0_reply_def rd32_def)
  moreover have "new_tx_view abi_13900 (translate_tx_02300_to_new abi_13900 5000 1000 eth0_reply) (1036 + i * 212)
      = old_tx_view abi_13900 eth0_reply (1036 + i * 200)" if "i < 2" for i
    using translate_tx_correct [OF abi_13900_layouts(1) n _ sep] that by simp
  from this [of 0] this [of 1] calculation show ?thesis by simp
qed

text \<open>
  C2. Rewriting a receive-property reply in place is correct, in the same sense: properties keep
  their meaning across the two layouts and nothing outside the reply and the scratch array
  changes.
\<close>

theorem translate_rx_correct:
  assumes "rx_layout_ok abi"
    and "n = unat (ld abi S_query_intf_rx_props F_num_rx_props m q)"
    and "base = q + offsetof abi S_query_intf_rx_props F_rx"
    and "disjoint_ranges sp OLD_RX_SIZE base (n * sizeof abi S_rx_intf_prop)"
  shows "(\<forall>i<n. new_rx_view abi (translate_rx_02300_to_new abi sp q m) (base + i * sizeof abi S_rx_intf_prop)
              = old_rx_view abi m (base + i * OLD_RX_SIZE))
    \<and> (\<forall>x. (x < base \<or> base + n * sizeof abi S_rx_intf_prop \<le> x) \<and> (x < sp \<or> sp + OLD_RX_SIZE \<le> x)
          \<longrightarrow> translate_rx_02300_to_new abi sp q m x = m x)"
  unfolding translate_rx_02300_to_new_def assms(2) [symmetric] assms(3) [symmetric]
  using rx.loop_view [OF assms(1,4)] rx.loop_frame [OF assms(1)] by blast

definition eth0_rx_reply :: mem where
  "eth0_rx_reply = (\<lambda>x. 0)(1032 := 2, 1036 + 156 := 108, 1036 + 164 := 1, 1200 + 156 := 108)"

theorem translate_rx_correct_witness:
  "new_rx_view abi_13900 (translate_rx_02300_to_new abi_13900 5000 1000 eth0_rx_reply) 1036
     = old_rx_view abi_13900 eth0_rx_reply 1036
   \<and> rv_src (new_rx_view abi_13900 (translate_rx_02300_to_new abi_13900 5000 1000 eth0_rx_reply) 1212) = 108"
proof -
  have n: "2 = unat (ld abi_13900 S_query_intf_rx_props F_num_rx_props eth0_rx_reply 1000)"
    by (simp add: abi_13900_simps eth0_rx_reply_def rd32_def)
  have sep: "disjoint_ranges 5000 164 1036 (2 * sizeof abi_13900 S_rx_intf_prop)"
    by (simp add: disjoint_ranges_def)
  have "rv_src (old_rx_view abi_13900 eth0_rx_reply 1200) = 108"
    by (simp add: old_rx_view_def rx_view_at_def eth0_rx_reply_def rd32_def)
  moreover have "new_rx_view abi_13900 (translate_rx_02300_to_new abi_13900 5000 1000 eth0_rx_reply) (1036 + i * 176)
      = old_rx_view abi_13900 eth0_rx_reply (1036 + i * 164)" if "i < 2" for i
    using translate_rx_correct [OF abi_13900_layouts(2) n _ sep] that by simp
  from this [of 0] this [of 1] calculation show ?thesis by simp
qed

text \<open>
  A transmit query is rewritten exactly when translation is switched on for the interface
  and the reply makes sense in the old layout only; in every other case (query disabled,
  interface not listed, implausible count, log-only mode, ambiguous or unrecognisable bytes)
  the handler leaves the caller's memory as the kernel wrote it. Logging never changes it.
\<close>

theorem query_tx_rewrites_iff:
  "pmem (handle_query_tx abi os sp q st) =
     (if tx_translates abi (g_cfg (load_cfg os st)) (pmem st) q
      then translate_tx_02300_to_new abi sp q (pmem st) else pmem st)
   \<and> g_cfg (handle_query_tx abi os sp q st) = g_cfg (load_cfg os st)"
  by (simp add: handle_query_tx_pmem frame_simps)

text \<open>The same for a receive query.\<close>

theorem query_rx_rewrites_iff:
  "pmem (handle_query_rx abi os sp q st) =
     (if rx_translates abi (g_cfg (load_cfg os st)) (pmem st) q
      then translate_rx_02300_to_new abi sp q (pmem st) else pmem st)
   \<and> g_cfg (handle_query_rx abi os sp q st) = g_cfg (load_cfg os st)"
  by (simp add: handle_query_rx_pmem frame_simps)

section \<open>Rule requests\<close>

text \<open>
  Where the request, its rules and the stack buffer must lie for a request with inline rules.
\<close>

definition inline_sep :: "ipa_abi \<Rightarrow> cstruct \<Rightarrow> nat \<Rightarrow> nat \<Rightarrow> nat \<Rightarrow> nat \<Rightarrow> nat \<Rightarrow> nat \<Rightarrow> bool" where
  "inline_sep abi S hdr osz nsz sp arg n \<longleftrightarrow>
     disjoint_ranges sp (hdr + RT_FLT_MAX_TRANSLATE_RULES * osz) arg hdr
     \<and> disjoint_ranges sp (hdr + RT_FLT_MAX_TRANSLATE_RULES * osz) (arg + offsetof abi S F_rules) (n * nsz)"

lemma buffer_rules_sep:
  assumes "disjoint_ranges sp (hdr + RT_FLT_MAX_TRANSLATE_RULES * osz) new k"
    and "n \<le> RT_FLT_MAX_TRANSLATE_RULES"
  shows "disjoint_ranges (sp + hdr) (n * osz) new k"
proof -
  have "n * osz \<le> RT_FLT_MAX_TRANSLATE_RULES * osz" using assms(2) by (rule mult_le_mono1)
  with assms(1) show ?thesis unfolding disjoint_ranges_def by linarith
qed

lemma rt_inline_served:
  assumes "rt_layout_ok abi" "n \<le> RT_FLT_MAX_TRANSLATE_RULES"
    and sep: "inline_sep abi S hdr OLD_RT_ADD_SIZE (sizeof abi S_rt_rule_add) sp arg n"
  shows "rt_served abi os fd request sp hdr (hdr + RT_FLT_MAX_TRANSLATE_RULES * OLD_RT_ADD_SIZE)
      (same_header sp arg hdr (pmem st)) (arg + offsetof abi S F_rules) n st
      (rt_exchange abi os sp fd request tag (sp + hdr) (arg + offsetof abi S F_rules) n
        (put_header sp (hdr + RT_FLT_MAX_TRANSLATE_RULES * OLD_RT_ADD_SIZE) arg hdr (pmem st)) st)"
  using sep assms unfolding inline_sep_def
  by (intro rt_exchange_served buffer_rules_sep put_header_frame
      same_header_cong [OF put_header_same]) auto

lemma flt_inline_served:
  assumes "flt_layout_ok abi" "n \<le> RT_FLT_MAX_TRANSLATE_RULES"
    and sep: "inline_sep abi S hdr OLD_FLT_ADD_SIZE (sizeof abi S_flt_rule_add) sp arg n"
  shows "flt_served abi os fd request sp hdr (hdr + RT_FLT_MAX_TRANSLATE_RULES * OLD_FLT_ADD_SIZE)
      (same_header sp arg hdr (pmem st)) (arg + offsetof abi S F_rules) n st
      (flt_exchange abi os sp fd request tag (sp + hdr) (arg + offsetof abi S F_rules) n
        (put_header sp (hdr + RT_FLT_MAX_TRANSLATE_RULES * OLD_FLT_ADD_SIZE) arg hdr (pmem st)) st)"
  using sep assms unfolding inline_sep_def
  by (intro flt_exchange_served buffer_rules_sep put_header_frame
      same_header_cong [OF put_header_same]) auto

text \<open>And for a request that points to its rules.\<close>

definition v2_sep :: "nat \<Rightarrow> nat \<Rightarrow> nat \<Rightarrow> nat \<Rightarrow> nat \<Rightarrow> nat \<Rightarrow> nat \<Rightarrow> bool" where
  "v2_sep hdr osz nsz sp arg new n \<longleftrightarrow> sp + hdr < 2 ^ 32
     \<and> disjoint_ranges sp (hdr + RT_FLT_MAX_TRANSLATE_RULES * osz) arg hdr
     \<and> disjoint_ranges sp (hdr + RT_FLT_MAX_TRANSLATE_RULES * osz) new (n * nsz)"

lemma rt_v2_served:
  assumes "rt_layout_ok abi" "n \<le> RT_FLT_MAX_TRANSLATE_RULES" "v2_layout_ok abi S f hdr"
    and sep: "v2_sep hdr OLD_RT_ADD_SIZE (sizeof abi S_rt_rule_add) sp arg new n"
  shows "rt_served abi os fd request sp hdr (hdr + RT_FLT_MAX_TRANSLATE_RULES * OLD_RT_ADD_SIZE)
      (v2_header abi S f OLD_RT_ADD_SIZE sp arg hdr (pmem st)) new n st
      (rt_exchange abi os sp fd request tag (sp + hdr) new n
        (put_header_v2 abi S f OLD_RT_ADD_SIZE sp arg hdr (pmem st)) st)"
  using sep assms unfolding v2_sep_def
  by (intro rt_exchange_served buffer_rules_sep put_header_v2_frame
      v2_header_cong [OF put_header_v2_ok]) auto

lemma flt_v2_served:
  assumes "flt_layout_ok abi" "n \<le> RT_FLT_MAX_TRANSLATE_RULES" "v2_layout_ok abi S f hdr"
    and sep: "v2_sep hdr OLD_FLT_ADD_SIZE (sizeof abi S_flt_rule_add) sp arg new n"
  shows "flt_served abi os fd request sp hdr (hdr + RT_FLT_MAX_TRANSLATE_RULES * OLD_FLT_ADD_SIZE)
      (v2_header abi S f OLD_FLT_ADD_SIZE sp arg hdr (pmem st)) new n st
      (flt_exchange abi os sp fd request tag (sp + hdr) new n
        (put_header_v2 abi S f OLD_FLT_ADD_SIZE sp arg hdr (pmem st)) st)"
  using sep assms unfolding v2_sep_def
  by (intro flt_exchange_served buffer_rules_sep put_header_v2_frame
      v2_header_cong [OF put_header_v2_ok]) auto

text \<open>
  C3. Adding routing rules, plainly or after a given rule. A request with one to eight rules is served: the kernel is called
  once, on a buffer whose header is the caller's and whose rules mean what the caller's rules
  mean; the caller gets the kernel's return value and finds each rule's handle and status in its
  request, and nothing else changes. A request with no rule or more than eight is not handled
  and leaves the state alone.
\<close>

theorem add_rt_inline_correct:
  assumes "rt_layout_ok abi" and "arg \<noteq> 0"
    and "(S, hdr, f) \<in> {(S_add_rt_rule, 44, translate_add_rt_ioctl abi os sp fd request arg),
                        (S_add_rt_rule_after, 48, translate_add_rt_after_ioctl abi os sp fd request arg)}"
    and "n = num_rules abi S (pmem st) arg"
    and "inline_sep abi S hdr OLD_RT_ADD_SIZE (sizeof abi S_rt_rule_add) sp arg n"
  shows "if 0 < n \<and> n \<le> RT_FLT_MAX_TRANSLATE_RULES
    then rt_served abi os fd request sp hdr (hdr + RT_FLT_MAX_TRANSLATE_RULES * OLD_RT_ADD_SIZE)
           (same_header sp arg hdr (pmem st)) (arg + offsetof abi S F_rules) n st (f st)
    else f st = (None, st)"
proof (cases "0 < n \<and> n \<le> RT_FLT_MAX_TRANSLATE_RULES")
  case True
  with assms(1,5) have "rt_served abi os fd request sp hdr
      (hdr + RT_FLT_MAX_TRANSLATE_RULES * OLD_RT_ADD_SIZE)
      (same_header sp arg hdr (pmem st)) (arg + offsetof abi S F_rules) n st
      (rt_exchange abi os sp fd request tag (sp + hdr) (arg + offsetof abi S F_rules) n
        (put_header sp (hdr + RT_FLT_MAX_TRANSLATE_RULES * OLD_RT_ADD_SIZE) arg hdr (pmem st)) st)" for tag
    by (intro rt_inline_served) simp_all
  with True assms(2-4) show ?thesis
    by (auto simp: translate_add_rt_ioctl_def translate_add_rt_after_ioctl_def Let_def)
qed (use assms(2-4) in \<open>auto simp: translate_add_rt_ioctl_def translate_add_rt_after_ioctl_def Let_def\<close>)

definition one_rt_rule :: mem where
  "one_rt_rule = (\<lambda>x. 0)(1000 + 40 := 1, 1044 := 7)"

theorem add_rt_inline_correct_witness:
  "rt_served abi_13900 os_quiet 3 0 5000 44 (44 + 8 * OLD_RT_ADD_SIZE)
     (same_header 5000 1000 44 one_rt_rule) 1044 1 (bridge_init one_rt_rule ())
     (translate_add_rt_ioctl abi_13900 os_quiet 5000 3 0 1000 (bridge_init one_rt_rule ()))"
proof -
  have n: "1 = num_rules abi_13900 S_add_rt_rule (pmem (bridge_init one_rt_rule ())) 1000"
    by (simp add: num_rules_def abi_13900_simps one_rt_rule_def)
  have sep: "inline_sep abi_13900 S_add_rt_rule 44 OLD_RT_ADD_SIZE (sizeof abi_13900 S_rt_rule_add) 5000 1000 1"
    by (simp add: inline_sep_def disjoint_ranges_def abi_13900_simps)
  from add_rt_inline_correct [OF abi_13900_layouts(3) _ _ n sep,
      where f = "translate_add_rt_ioctl abi_13900 os_quiet 5000 3 0 1000" and os = os_quiet and fd = 3 and request = 0]
  show ?thesis by (simp add: abi_13900_simps)
qed

text \<open>
  Adding filtering rules, plainly or after a given rule. A request with one to eight rules is served: the kernel is called
  once, on a buffer whose header is the caller's and whose rules mean what the caller's rules
  mean; the caller gets the kernel's return value and finds each rule's handle and status in its
  request, and nothing else changes. A request with no rule or more than eight is not handled
  and leaves the state alone.
\<close>

theorem add_flt_inline_correct:
  assumes "flt_layout_ok abi" and "arg \<noteq> 0"
    and "(S, hdr, f) \<in> {(S_add_flt_rule, 16, translate_add_flt_ioctl abi os sp fd request arg),
                        (S_add_flt_rule_after, 20, translate_add_flt_after_ioctl abi os sp fd request arg)}"
    and "n = num_rules abi S (pmem st) arg"
    and "inline_sep abi S hdr OLD_FLT_ADD_SIZE (sizeof abi S_flt_rule_add) sp arg n"
  shows "if 0 < n \<and> n \<le> RT_FLT_MAX_TRANSLATE_RULES
    then flt_served abi os fd request sp hdr (hdr + RT_FLT_MAX_TRANSLATE_RULES * OLD_FLT_ADD_SIZE)
           (same_header sp arg hdr (pmem st)) (arg + offsetof abi S F_rules) n st (f st)
    else f st = (None, st)"
proof (cases "0 < n \<and> n \<le> RT_FLT_MAX_TRANSLATE_RULES")
  case True
  with assms(1,5) have "flt_served abi os fd request sp hdr
      (hdr + RT_FLT_MAX_TRANSLATE_RULES * OLD_FLT_ADD_SIZE)
      (same_header sp arg hdr (pmem st)) (arg + offsetof abi S F_rules) n st
      (flt_exchange abi os sp fd request tag (sp + hdr) (arg + offsetof abi S F_rules) n
        (put_header sp (hdr + RT_FLT_MAX_TRANSLATE_RULES * OLD_FLT_ADD_SIZE) arg hdr (pmem st)) st)" for tag
    by (intro flt_inline_served) simp_all
  with True assms(2-4) show ?thesis
    by (auto simp: translate_add_flt_ioctl_def translate_add_flt_after_ioctl_def Let_def)
qed (use assms(2-4) in \<open>auto simp: translate_add_flt_ioctl_def translate_add_flt_after_ioctl_def Let_def\<close>)

definition one_flt_rule :: mem where
  "one_flt_rule = (\<lambda>x. 0)(1000 + 13 := 1, 1016 := 7)"

theorem add_flt_inline_correct_witness:
  "flt_served abi_13900 os_quiet 3 0 5000 16 (16 + 8 * OLD_FLT_ADD_SIZE)
     (same_header 5000 1000 16 one_flt_rule) 1016 1 (bridge_init one_flt_rule ())
     (translate_add_flt_ioctl abi_13900 os_quiet 5000 3 0 1000 (bridge_init one_flt_rule ()))"
proof -
  have n: "1 = num_rules abi_13900 S_add_flt_rule (pmem (bridge_init one_flt_rule ())) 1000"
    by (simp add: num_rules_def abi_13900_simps one_flt_rule_def)
  have sep: "inline_sep abi_13900 S_add_flt_rule 16 OLD_FLT_ADD_SIZE (sizeof abi_13900 S_flt_rule_add) 5000 1000 1"
    by (simp add: inline_sep_def disjoint_ranges_def abi_13900_simps)
  from add_flt_inline_correct [OF abi_13900_layouts(4) _ _ n sep,
      where f = "translate_add_flt_ioctl abi_13900 os_quiet 5000 3 0 1000" and os = os_quiet and fd = 3 and request = 0]
  show ?thesis by (simp add: abi_13900_simps)
qed

text \<open>
  Adding routing rules through a request whose header points to the rules. Besides what the inline requests
  promise, the buffer's header carries the size of an old rule and the address of the rules in
  the buffer; a null rule pointer, like a bad count, leaves the request unhandled.
\<close>

theorem add_rt_v2_correct:
  assumes "rt_layout_ok abi" and "arg \<noteq> 0"
    and "(S, f) \<in> {(S_add_rt_rule_v2, translate_add_rt_v2_ioctl abi os sp fd request arg),
                   (S_add_rt_rule_after_v2, translate_add_rt_after_v2_ioctl abi os sp fd request arg)}"
    and "n = num_rules abi S (pmem st) arg" and "v2_layout_ok abi S F_rule_add_size 64"
    and "v2_sep 64 OLD_RT_ADD_SIZE (sizeof abi S_rt_rule_add) sp arg (rules_ptr abi S (pmem st) arg) n"
  shows "if 0 < n \<and> n \<le> RT_FLT_MAX_TRANSLATE_RULES \<and> ld64 abi S F_rules (pmem st) arg \<noteq> 0
    then rt_served abi os fd request sp 64 (64 + RT_FLT_MAX_TRANSLATE_RULES * OLD_RT_ADD_SIZE)
           (v2_header abi S F_rule_add_size OLD_RT_ADD_SIZE sp arg 64 (pmem st))
           (rules_ptr abi S (pmem st) arg) n st (f st)
    else f st = (None, st)"
proof (cases "0 < n \<and> n \<le> RT_FLT_MAX_TRANSLATE_RULES \<and> ld64 abi S F_rules (pmem st) arg \<noteq> 0")
  case True
  with assms(1,5,6) have "rt_served abi os fd request sp 64
      (64 + RT_FLT_MAX_TRANSLATE_RULES * OLD_RT_ADD_SIZE)
      (v2_header abi S F_rule_add_size OLD_RT_ADD_SIZE sp arg 64 (pmem st))
      (rules_ptr abi S (pmem st) arg) n st
      (rt_exchange abi os sp fd request tag (sp + 64) (rules_ptr abi S (pmem st) arg) n
        (put_header_v2 abi S F_rule_add_size OLD_RT_ADD_SIZE sp arg 64 (pmem st)) st)" for tag
    by (intro rt_v2_served) simp_all
  with True assms(2-4) show ?thesis
    by (auto simp: translate_add_rt_v2_ioctl_def translate_add_rt_after_v2_ioctl_def Let_def)
qed (use assms(2-4) in \<open>auto simp: translate_add_rt_v2_ioctl_def translate_add_rt_after_v2_ioctl_def Let_def\<close>)

text \<open>Witness: one rule at address 2000.\<close>

definition one_rt_rule_v2 :: mem where
  "one_rt_rule_v2 = (\<lambda>x. 0)(1000 + 40 := 1, 1048 := 0xd0, 1049 := 0x07, 2000 := 9)"

theorem add_rt_v2_correct_witness:
  "rt_served abi_13900 os_quiet 3 0 5000 64 (64 + 8 * OLD_RT_ADD_SIZE)
     (v2_header abi_13900 S_add_rt_rule_v2 F_rule_add_size OLD_RT_ADD_SIZE 5000 1000 64 one_rt_rule_v2)
     2000 1 (bridge_init one_rt_rule_v2 ())
     (translate_add_rt_v2_ioctl abi_13900 os_quiet 5000 3 0 1000 (bridge_init one_rt_rule_v2 ()))"
proof -
  have n: "1 = num_rules abi_13900 S_add_rt_rule_v2 (pmem (bridge_init one_rt_rule_v2 ())) 1000"
    by (simp add: num_rules_def abi_13900_simps one_rt_rule_v2_def)
  have r: "ld64 abi_13900 S_add_rt_rule_v2 F_rules one_rt_rule_v2 1000 = 2000"
    by (simp add: abi_13900_simps one_rt_rule_v2_def rd64_def rd32_def)
  then have ptr: "rules_ptr abi_13900 S_add_rt_rule_v2 one_rt_rule_v2 1000 = 2000"
    by (simp add: rules_ptr_def)
  have sep: "v2_sep 64 OLD_RT_ADD_SIZE (sizeof abi_13900 S_rt_rule_add) 5000 1000
      (rules_ptr abi_13900 S_add_rt_rule_v2 (pmem (bridge_init one_rt_rule_v2 ())) 1000) 1"
    by (simp add: ptr v2_sep_def disjoint_ranges_def)
  from add_rt_v2_correct [OF abi_13900_layouts(3) _ _ n abi_13900_layouts(5) sep,
      where f = "translate_add_rt_v2_ioctl abi_13900 os_quiet 5000 3 0 1000" and os = os_quiet and fd = 3 and request = 0]
  show ?thesis by (simp add: ptr r)
qed

text \<open>
  Adding filtering rules through a request whose header points to the rules. Besides what the inline requests
  promise, the buffer's header carries the size of an old rule and the address of the rules in
  the buffer; a null rule pointer, like a bad count, leaves the request unhandled.
\<close>

theorem add_flt_v2_correct:
  assumes "flt_layout_ok abi" and "arg \<noteq> 0"
    and "(S, f) \<in> {(S_add_flt_rule_v2, translate_add_flt_v2_ioctl abi os sp fd request arg),
                   (S_add_flt_rule_after_v2, translate_add_flt_after_v2_ioctl abi os sp fd request arg)}"
    and "n = num_rules abi S (pmem st) arg" and "v2_layout_ok abi S F_flt_rule_size 40"
    and "v2_sep 40 OLD_FLT_ADD_SIZE (sizeof abi S_flt_rule_add) sp arg (rules_ptr abi S (pmem st) arg) n"
  shows "if 0 < n \<and> n \<le> RT_FLT_MAX_TRANSLATE_RULES \<and> ld64 abi S F_rules (pmem st) arg \<noteq> 0
    then flt_served abi os fd request sp 40 (40 + RT_FLT_MAX_TRANSLATE_RULES * OLD_FLT_ADD_SIZE)
           (v2_header abi S F_flt_rule_size OLD_FLT_ADD_SIZE sp arg 40 (pmem st))
           (rules_ptr abi S (pmem st) arg) n st (f st)
    else f st = (None, st)"
proof (cases "0 < n \<and> n \<le> RT_FLT_MAX_TRANSLATE_RULES \<and> ld64 abi S F_rules (pmem st) arg \<noteq> 0")
  case True
  with assms(1,5,6) have "flt_served abi os fd request sp 40
      (40 + RT_FLT_MAX_TRANSLATE_RULES * OLD_FLT_ADD_SIZE)
      (v2_header abi S F_flt_rule_size OLD_FLT_ADD_SIZE sp arg 40 (pmem st))
      (rules_ptr abi S (pmem st) arg) n st
      (flt_exchange abi os sp fd request tag (sp + 40) (rules_ptr abi S (pmem st) arg) n
        (put_header_v2 abi S F_flt_rule_size OLD_FLT_ADD_SIZE sp arg 40 (pmem st)) st)" for tag
    by (intro flt_v2_served) simp_all
  with True assms(2-4) show ?thesis
    by (auto simp: translate_add_flt_v2_ioctl_def translate_add_flt_after_v2_ioctl_def Let_def)
qed (use assms(2-4) in \<open>auto simp: translate_add_flt_v2_ioctl_def translate_add_flt_after_v2_ioctl_def Let_def\<close>)

text \<open>Witness: one rule at address 2000.\<close>

definition one_flt_rule_v2 :: mem where
  "one_flt_rule_v2 = (\<lambda>x. 0)(1000 + 13 := 1, 1024 := 0xd0, 1025 := 0x07, 2000 := 9)"

theorem add_flt_v2_correct_witness:
  "flt_served abi_13900 os_quiet 3 0 5000 40 (40 + 8 * OLD_FLT_ADD_SIZE)
     (v2_header abi_13900 S_add_flt_rule_v2 F_flt_rule_size OLD_FLT_ADD_SIZE 5000 1000 40 one_flt_rule_v2)
     2000 1 (bridge_init one_flt_rule_v2 ())
     (translate_add_flt_v2_ioctl abi_13900 os_quiet 5000 3 0 1000 (bridge_init one_flt_rule_v2 ()))"
proof -
  have n: "1 = num_rules abi_13900 S_add_flt_rule_v2 (pmem (bridge_init one_flt_rule_v2 ())) 1000"
    by (simp add: num_rules_def abi_13900_simps one_flt_rule_v2_def)
  have r: "ld64 abi_13900 S_add_flt_rule_v2 F_rules one_flt_rule_v2 1000 = 2000"
    by (simp add: abi_13900_simps one_flt_rule_v2_def rd64_def rd32_def)
  then have ptr: "rules_ptr abi_13900 S_add_flt_rule_v2 one_flt_rule_v2 1000 = 2000"
    by (simp add: rules_ptr_def)
  have sep: "v2_sep 40 OLD_FLT_ADD_SIZE (sizeof abi_13900 S_flt_rule_add) 5000 1000
      (rules_ptr abi_13900 S_add_flt_rule_v2 (pmem (bridge_init one_flt_rule_v2 ())) 1000) 1"
    by (simp add: ptr v2_sep_def disjoint_ranges_def)
  from add_flt_v2_correct [OF abi_13900_layouts(4) _ _ n abi_13900_layouts(7) sep,
      where f = "translate_add_flt_v2_ioctl abi_13900 os_quiet 5000 3 0 1000" and os = os_quiet and fd = 3 and request = 0]
  show ?thesis by (simp add: ptr r)
qed

text \<open>
  Generating a filter equation. The kernel sees the first word and the shared attribute
  bytes of the request; on success the caller receives the whole equation, on failure its
  memory is as the kernel left it.
\<close>

theorem generate_flt_eq_correct:
  assumes "arg \<noteq> 0"
    and "disjoint_ranges sp OLD_GEN_EQ_SIZE arg 4"
    and "disjoint_ranges sp OLD_GEN_EQ_SIZE (arg + offsetof abi S_generate_flt_eq F_attrib) ATTR_COMMON_SIZE"
    and "disjoint_ranges sp OLD_GEN_EQ_SIZE (arg + offsetof abi S_generate_flt_eq F_eq_attrib) 184"
    and "translate_generate_flt_eq_ioctl abi os sp fd request arg st = (r, st')"
  shows "\<exists>m1 ret m2 k. os_ioctl os fd request sp m1 (kst st) = (ret, m2, k) \<and> r = Some ret
    \<and> same_header sp arg 4 (pmem st) m1
    \<and> bytes_at m1 (sp + OLD_GEN_EQ_ATTR) ATTR_COMMON_SIZE
        = bytes_at (pmem st) (arg + offsetof abi S_generate_flt_eq F_attrib) ATTR_COMMON_SIZE
    \<and> (\<forall>x. x \<notin> {sp ..< sp + OLD_GEN_EQ_SIZE} \<longrightarrow> m1 x = pmem st x)
    \<and> (if ret < 0 then pmem st' = m2
       else bytes_at (pmem st') (arg + offsetof abi S_generate_flt_eq F_eq_attrib) 184
              = bytes_at m2 (sp + OLD_GEN_EQ_EQ) 184)"
proof -
  let ?a = "arg + offsetof abi S_generate_flt_eq F_attrib"
  let ?e = "arg + offsetof abi S_generate_flt_eq F_eq_attrib"
  let ?m0 = "put_header sp OLD_GEN_EQ_SIZE arg 4 (pmem st)"
  let ?m1 = "attr_new_to_old (sp + OLD_GEN_EQ_ATTR) ?a ?m0"
  obtain ret m2 k where io: "os_ioctl os fd request sp ?m1 (kst st) = (ret, m2, k)"
    by (cases "os_ioctl os fd request sp ?m1 (kst st)")
  have d: "disjoint_ranges (sp + 4) 152 ?a 148" "disjoint_ranges ?e 184 (sp + 156) 184"
    using assms(3,4) by (auto simp: disjoint_ranges_def)
  have m1: "?m1 x = (if sp + 4 \<le> x \<and> x < sp + 152 then ?m0 (?a + (x - (sp + 4)))
      else if sp + 4 \<le> x \<and> x < sp + 156 then 0 else ?m0 x)" for x
    by (simp add: attr_new_to_old_apply [OF d(1)])
  have hdr: "same_header sp arg 4 (pmem st) ?m1"
    using assms(2) by (intro same_header_cong [OF put_header_same]) (auto simp: m1)
  have "?m1 (sp + 4 + i) = pmem st (?a + i)" if "i < 148" for i
    using that assms(3) put_header_frame [of 4 340 "?a + i" sp arg "pmem st"]
    by (auto simp: m1 disjoint_ranges_def)
  then have attr: "bytes_at ?m1 (sp + 4) 148 = bytes_at (pmem st) ?a 148" by (intro bytes_at_cong) simp
  have out: "\<forall>x. x \<notin> {sp ..< sp + OLD_GEN_EQ_SIZE} \<longrightarrow> ?m1 x = pmem st x"
    using put_header_frame [of 4 340 _ sp arg "pmem st"] by (auto simp: m1)
  have res: "r = Some ret"
    "pmem st' = (if ret \<ge> 0 then mem_copy m2 ?e (sp + 156) 184 else m2)"
    using assms(1,5) io by (auto simp: translate_generate_flt_eq_ioctl_def Let_def frame_simps)
  have "bytes_at (mem_copy m2 ?e (sp + 156) 184) ?e 184 = bytes_at m2 (sp + 156) 184"
    by (intro bytes_at_cong) (simp add: mem_copy_apply [OF d(2)])
  then show ?thesis
    using io hdr attr out res by (intro exI [of _ ?m1] exI [of _ ret] exI [of _ m2] exI [of _ k]) auto
qed

theorem generate_flt_eq_correct_witness:
  "\<exists>m1 ret m2 k. os_ioctl os_quiet 3 0 5000 m1 () = (ret, m2, k)
    \<and> same_header 5000 1000 4 one_flt_rule m1
    \<and> bytes_at m1 5004 148 = bytes_at one_flt_rule 1004 148"
  using generate_flt_eq_correct [of 1000 5000 abi_13900 os_quiet 3 0 "bridge_init one_flt_rule ()",
      OF _ _ _ _ prod.collapse [symmetric]]
  by (auto simp: disjoint_ranges_def abi_13900_simps)

section \<open>The interposed call\<close>

lemma fd_is_ipa_dev_frame [frame_simps]:
  "pmem (snd (fd_is_ipa_dev os fd st)) = pmem st" "g_cfg (snd (fd_is_ipa_dev os fd st)) = g_cfg st"
  "env_loaded (snd (fd_is_ipa_dev os fd st)) = env_loaded st"
  "env_buf (snd (fd_is_ipa_dev os fd st)) = env_buf st"
  by (simp_all add: fd_is_ipa_dev_def Let_def split: option.split prod.split)

lemma log_rt_flt_frame [frame_simps]:
  "pmem (log_rt_flt abi os nr arg ret st) = pmem st"
  by (simp add: log_rt_flt_def Let_def frame_simps)



lemma after_ioctl_log_only:
  assumes "\<not> cfg_mode_translate (g_cfg (load_cfg os st))"
  shows "pmem (after_ioctl abi os sp type nr arg ret st) = pmem st"
  using assms
  by (simp add: after_ioctl_def Let_def frame_simps handle_query_tx_pmem handle_query_rx_pmem
      handle_query_ext_pmem tx_translates_def rx_translates_def)

lemma load_cfg_cfg_cong:
  "g_cfg st = g_cfg st' \<Longrightarrow> cfg_loaded (g_cfg st) \<Longrightarrow> g_cfg (load_cfg os st) = g_cfg st'"
  by (simp add: load_cfg_id)

text \<open>
  In log-only mode the bridge observes and does not interfere: when neither kind of
  translation is configured, every call, whatever its request and argument, reaches the kernel
  once with the caller's descriptor, request and argument, and its return value and the memory
  it leaves are the kernel's.
\<close>

theorem ioctl_log_only_transparent:
  assumes "cfg_loaded (g_cfg st)" "\<not> cfg_mode_translate (g_cfg st)" "\<not> cfg_rt_flt_translate (g_cfg st)"
    and "ioctl abi os sp fd request arg st = (ret, st')"
  shows "\<exists>k k'. os_ioctl os fd request arg (pmem st) k = (ret, pmem st', k')"
proof -
  let ?s = "if ioc_type_of request = ioc_magic abi then snd (fd_is_ipa_dev os fd st) else st"
  have cfg: "g_cfg ?s = g_cfg st" "pmem ?s = pmem st" by (simp_all add: frame_simps)
  then have "load_cfg os ?s = ?s" using assms(1) by (simp add: load_cfg_id)
  with cfg assms(3) have none: "maybe_translate_rt_flt_ioctl abi os sp fd request nr arg ?s = (None, ?s)" for nr
    by (simp add: maybe_translate_rt_flt_ioctl_def Let_def)
  obtain r s where call: "sys_ioctl os fd request arg ?s = (r, s)"
    by (cases "sys_ioctl os fd request arg ?s")
  then obtain k k' where k: "os_ioctl os fd request arg (pmem st) k = (r, pmem s, k')"
    and s: "g_cfg s = g_cfg st"
    using cfg by (auto simp: sys_ioctl_def split: prod.splits)
  have after: "pmem (after_ioctl abi os sp type nr arg r s) = pmem s" for type nr
    using s assms(1,2) by (intro after_ioctl_log_only) (simp add: load_cfg_id)
  have "ret = r \<and> pmem st' = pmem s"
    using assms(4) none call after by (auto simp: ioctl_def Let_def split: prod.splits if_splits)
  with k show ?thesis by auto
qed

text \<open>Witness: a routing-rule request when nothing is configured, so that it goes through.\<close>

definition log_only_state :: "unit bridge" where
  "log_only_state = (bridge_init one_rt_rule ())\<lparr>g_cfg := bridge_cfg_zero\<lparr>cfg_loaded := True\<rparr>\<rparr>"

theorem ioctl_log_only_transparent_witness:
  "\<exists>k k'. os_ioctl os_quiet 3 0xCF00 1000 one_rt_rule k
     = (fst (ioctl abi_13900 os_quiet 5000 3 0xCF00 1000 log_only_state),
        pmem (snd (ioctl abi_13900 os_quiet 5000 3 0xCF00 1000 log_only_state)), k')"
proof -
  have "cfg_loaded (g_cfg log_only_state)" "\<not> cfg_mode_translate (g_cfg log_only_state)"
    "\<not> cfg_rt_flt_translate (g_cfg log_only_state)" "pmem log_only_state = one_rt_rule"
    by (simp_all add: log_only_state_def bridge_cfg_zero_def)
  with ioctl_log_only_transparent [of log_only_state, OF _ _ _ prod.collapse [symmetric]]
  show ?thesis by metis
qed

section \<open>One configuration for the life of the process\<close>

text \<open>
  Two invariants every operation keeps, in one: the configuration is either still untouched or
  is what the environment block that was read says (\<open>None\<close>); and it is a given loaded
  configuration (\<open>Some c\<close>).
\<close>

definition cfg_inv :: "bridge_cfg option \<Rightarrow> 'k bridge \<Rightarrow> bool" where
  "cfg_inv w st =
     (case w of
        None \<Rightarrow> if cfg_loaded (g_cfg st) then env_loaded st \<and> g_cfg st = cfg_of_env (env_buf st)
                else \<not> env_loaded st
      | Some c \<Rightarrow> cfg_loaded c \<and> g_cfg st = c)"

named_theorems cfg_inv_intros

lemma cfg_inv_load [cfg_inv_intros]: "cfg_inv w st \<Longrightarrow> cfg_inv w (load_cfg os st)"
  by (cases "cfg_loaded (g_cfg st)")
    (auto simp: load_cfg_id load_cfg_eq cfg_inv_def cfg_of_env_def split: option.splits)

lemma cfg_inv_update [cfg_inv_intros]:
  "cfg_inv w st \<Longrightarrow> cfg_inv w (st\<lparr>pmem := m\<rparr>)" "cfg_inv w st \<Longrightarrow> cfg_inv w (st\<lparr>kst := k\<rparr>)"
  "cfg_inv w st \<Longrightarrow> cfg_inv w (st\<lparr>writes := ws\<rparr>)" "cfg_inv w st \<Longrightarrow> cfg_inv w (st\<lparr>g_hexdump_mask := h\<rparr>)"
  by (simp_all add: cfg_inv_def split: option.splits if_splits)

lemma cfg_inv_log_writes [cfg_inv_intros]: "cfg_inv w st \<Longrightarrow> cfg_inv w (log_writes os ps st)"
  using cfg_inv_load [of w st os]
  by (auto simp: log_writes_def log_open_def Let_def intro: cfg_inv_update split: prod.split)

lemma cfg_inv_log_lines [cfg_inv_intros]:
  "cfg_inv w st \<Longrightarrow> cfg_inv w (log_kv4 abi os tag nm a b c d act st)"
  "cfg_inv w st \<Longrightarrow> cfg_inv w (log_prop_tx abi os tag nm i ip dst alt l2 hdr st)"
  "cfg_inv w st \<Longrightarrow> cfg_inv w (log_prop_rx abi os tag nm i ip src l2 st)"
  "cfg_inv w st \<Longrightarrow> cfg_inv w (log_translate_ioctl os tag n ret st)"
  "cfg_inv w st \<Longrightarrow> cfg_inv w (log_hexdump_once abi os tag nm buf len type st)"
  "cfg_inv w st \<Longrightarrow> cfg_inv w (log_rt_flt abi os nr arg ret st)"
  by (auto simp: log_line_defs log_hexdump_once_def log_rt_flt_def Let_def intro!: cfg_inv_intros)

lemma cfg_inv_log_props [cfg_inv_intros]:
  "cfg_inv w st \<Longrightarrow> cfg_inv w (log_tx_props abi os tag nm base n stride d a h l st)"
  "cfg_inv w st \<Longrightarrow> cfg_inv w (log_rx_props abi os tag nm base n stride s l st)"
proof -
  assume inv: "cfg_inv w st"
  have "cfg_inv w (log_tx_props_upto abi os tag nm base stride d a h l j st)"
    "cfg_inv w (log_rx_props_upto abi os tag nm base stride s l j st)" for j
    by (induction j) (auto simp: Let_def inv intro!: cfg_inv_intros)
  then show "cfg_inv w (log_tx_props abi os tag nm base n stride d a h l st)"
    "cfg_inv w (log_rx_props abi os tag nm base n stride s l st)"
    by (simp_all add: log_tx_props_def log_rx_props_def Let_def)
qed

text \<open>Rules that step through a handler without unfolding its local bindings.\<close>

lemma cfg_inv_let:
  fixes s :: "'k bridge" and n :: nat and str :: string and c :: cstruct and p :: "string \<times> 'k bridge"
  shows "\<lbrakk>cfg_inv w s; \<And>x. cfg_inv w x \<Longrightarrow> cfg_inv w (f x)\<rbrakk> \<Longrightarrow> cfg_inv w (Let s f)"
    "(\<And>x. cfg_inv w (g x)) \<Longrightarrow> cfg_inv w (Let n g)" "(\<And>x. cfg_inv w (h x)) \<Longrightarrow> cfg_inv w (Let str h)"
    "(\<And>x. cfg_inv w (h' x)) \<Longrightarrow> cfg_inv w (Let c h')"
    "\<lbrakk>cfg_inv w (snd p); \<And>a x. cfg_inv w x \<Longrightarrow> cfg_inv w (q a x)\<rbrakk> \<Longrightarrow> cfg_inv w (Let p (\<lambda>(a, x). q a x))"
  by (auto simp: Let_def split: prod.split)

lemma cfg_inv_if: "\<lbrakk>b \<Longrightarrow> cfg_inv w s; \<not> b \<Longrightarrow> cfg_inv w t\<rbrakk> \<Longrightarrow> cfg_inv w (if b then s else t)"
  by simp

lemma cfg_inv_if_snd: "\<lbrakk>b \<Longrightarrow> cfg_inv w (snd s); \<not> b \<Longrightarrow> cfg_inv w (snd t)\<rbrakk> \<Longrightarrow> cfg_inv w (snd (if b then s else t))"
  by simp

lemma cfg_inv_allowed [cfg_inv_intros]:
  assumes "cfg_inv w st" "\<And>b s. cfg_inv w s \<Longrightarrow> cfg_inv w (f b s)"
  shows "cfg_inv w (case iface_allowed k os nm st of (b, s) \<Rightarrow> f b s)"
    "cfg_inv w (case iface_translate_allowed k os nm st of (b, s) \<Rightarrow> f b s)"
  using assms by (simp_all add: iface_allowed_eq iface_translate_allowed_eq cfg_inv_intros)

lemma cfg_inv_snd: "cfg_inv w s \<Longrightarrow> cfg_inv w (snd (a, s))"
  by simp

lemmas cfg_inv_steps = cfg_inv_let cfg_inv_if cfg_inv_if_snd cfg_inv_snd cfg_inv_intros

lemma cfg_inv_handle_query_tx [cfg_inv_intros]:
  "cfg_inv w st \<Longrightarrow> cfg_inv w (handle_query_tx abi os sp q st)"
  unfolding handle_query_tx_def by (intro cfg_inv_steps; assumption)

lemma cfg_inv_handle_query_rx [cfg_inv_intros]:
  "cfg_inv w st \<Longrightarrow> cfg_inv w (handle_query_rx abi os sp q st)"
  unfolding handle_query_rx_def by (intro cfg_inv_steps; assumption)

lemma cfg_inv_handle_query_ext [cfg_inv_intros]:
  "cfg_inv w st \<Longrightarrow> cfg_inv w (handle_query_ext abi os q st)"
  unfolding handle_query_ext_def by (intro cfg_inv_steps; assumption)

lemma cfg_inv_rules [cfg_inv_intros]:
  assumes "cfg_inv w st"
  shows "cfg_inv w (snd (rt_exchange abi os sp fd request tag old new n m st))"
    "cfg_inv w (snd (flt_exchange abi os sp fd request tag old new n m st))"
    "cfg_inv w (snd (translate_generate_flt_eq_ioctl abi os sp fd request arg st))"
  using assms
  by (auto simp: rt_exchange_def flt_exchange_def translate_generate_flt_eq_ioctl_def Let_def
      intro!: cfg_inv_intros split: prod.split)

lemmas translate_add_defs = translate_add_rt_ioctl_def translate_add_flt_ioctl_def
  translate_add_rt_after_ioctl_def translate_add_flt_after_ioctl_def translate_add_rt_v2_ioctl_def
  translate_add_flt_v2_ioctl_def translate_add_rt_after_v2_ioctl_def translate_add_flt_after_v2_ioctl_def

lemma cfg_inv_translate_add [cfg_inv_intros]:
  assumes "cfg_inv w st"
  shows "cfg_inv w (snd (translate_add_rt_ioctl abi os sp fd request arg st))"
    "cfg_inv w (snd (translate_add_flt_ioctl abi os sp fd request arg st))"
    "cfg_inv w (snd (translate_add_rt_after_ioctl abi os sp fd request arg st))"
    "cfg_inv w (snd (translate_add_flt_after_ioctl abi os sp fd request arg st))"
    "cfg_inv w (snd (translate_add_rt_v2_ioctl abi os sp fd request arg st))"
    "cfg_inv w (snd (translate_add_flt_v2_ioctl abi os sp fd request arg st))"
    "cfg_inv w (snd (translate_add_rt_after_v2_ioctl abi os sp fd request arg st))"
    "cfg_inv w (snd (translate_add_flt_after_v2_ioctl abi os sp fd request arg st))"
  unfolding translate_add_defs Let_def
  by (intro cfg_inv_if_snd cfg_inv_snd cfg_inv_rules assms)+

lemma cfg_inv_maybe_translate [cfg_inv_intros]:
  "cfg_inv w st \<Longrightarrow> cfg_inv w (snd (maybe_translate_rt_flt_ioctl abi os sp fd request nr arg st))"
  unfolding maybe_translate_rt_flt_ioctl_def Let_def
  by (intro cfg_inv_if_snd cfg_inv_snd cfg_inv_translate_add cfg_inv_rules cfg_inv_load)

lemma cfg_inv_sys_ioctl [cfg_inv_intros]: "cfg_inv w st \<Longrightarrow> cfg_inv w (snd (sys_ioctl os fd request arg st))"
  by (auto simp: sys_ioctl_def intro!: cfg_inv_intros split: prod.split)

lemma cfg_inv_fd [cfg_inv_intros]: "cfg_inv w st \<Longrightarrow> cfg_inv w (snd (fd_is_ipa_dev os fd st))"
  by (cases w) (simp_all add: cfg_inv_def frame_simps)

lemma cfg_inv_after [cfg_inv_intros]: "cfg_inv w st \<Longrightarrow> cfg_inv w (after_ioctl abi os sp type nr arg ret st)"
  unfolding after_ioctl_def
  by (intro cfg_inv_steps cfg_inv_handle_query_tx cfg_inv_handle_query_rx cfg_inv_handle_query_ext; assumption)

lemma cfg_inv_ioctl: "cfg_inv w st \<Longrightarrow> cfg_inv w (snd (ioctl abi os sp fd request arg st))"
  using cfg_inv_fd [of w st os fd] cfg_inv_sys_ioctl [of w _ os fd request arg]
    cfg_inv_maybe_translate [of w _ abi os sp fd request "ioc_nr_of request" arg]
  by (force simp: ioctl_def Let_def intro!: cfg_inv_log_lines cfg_inv_after split: prod.split option.split)

text \<open>
  The life of the bridge: the process starts, runs its own code, and calls \<^verbatim>\<open>ioctl\<close> any number
  of times, with any argument, between arbitrary changes of its memory.
\<close>

inductive bridge_run :: "ipa_abi \<Rightarrow> 'k os \<Rightarrow> 'k bridge \<Rightarrow> bool" for abi os where
  start: "bridge_run abi os (bridge_init m k)"
| call: "bridge_run abi os st \<Longrightarrow> bridge_run abi os (snd (ioctl abi os sp fd request arg st))"
| user: "bridge_run abi os st \<Longrightarrow> bridge_run abi os (st\<lparr>pmem := m, kst := k\<rparr>)"

lemma cfg_inv_init: "cfg_inv None (bridge_init m k)"
  by (simp add: cfg_inv_def bridge_init_def bridge_cfg_zero_def)

lemma bridge_run_inv: "bridge_run abi os st \<Longrightarrow> cfg_inv None st"
  by (induction rule: bridge_run.induct) (auto intro: cfg_inv_init cfg_inv_ioctl cfg_inv_update)

text \<open>The first call on the IPA device loads the configuration.\<close>

lemma ioctl_loads:
  assumes "ioc_type_of request = ioc_magic abi" "fst (fd_is_ipa_dev os fd st)"
  shows "g_cfg (snd (ioctl abi os sp fd request arg st)) = g_cfg (load_cfg os (snd (fd_is_ipa_dev os fd st)))"
proof -
  let ?s = "snd (fd_is_ipa_dev os fd st)" and ?c = "g_cfg (load_cfg os (snd (fd_is_ipa_dev os fd st)))"
  have "maybe_translate_rt_flt_ioctl abi os sp fd request nr arg ?s
      = maybe_translate_rt_flt_ioctl abi os sp fd request nr arg (load_cfg os ?s)" for nr
    by (simp add: maybe_translate_rt_flt_ioctl_def)
  then have "cfg_inv (Some ?c) (snd (maybe_translate_rt_flt_ioctl abi os sp fd request nr arg ?s))" for nr
    by (simp add: cfg_inv_maybe_translate cfg_inv_def [of "Some ?c" "load_cfg os ?s"])
  then obtain r s where tr: "maybe_translate_rt_flt_ioctl abi os sp fd request (ioc_nr_of request) arg ?s = (r, s)"
    and s: "cfg_inv (Some ?c) s"
    by (metis prod.collapse)
  obtain ret s' where io: "sys_ioctl os fd request arg s = (ret, s')" by fastforce
  with cfg_inv_sys_ioctl [OF s, of os fd request arg] have s': "cfg_inv (Some ?c) s'" by simp
  have "snd (ioctl abi os sp fd request arg st) \<in> {after_ioctl abi os sp (ioc_type_of request)
      (ioc_nr_of request) arg ret s', log_rt_flt abi os (ioc_nr_of request) arg (the r) s}"
    using assms by (cases r) (simp_all add: ioctl_def Let_def case_prod_beta tr io)
  with s s' have "cfg_inv (Some ?c) (snd (ioctl abi os sp fd request arg st))"
    by (auto intro: cfg_inv_log_lines cfg_inv_after)
  then show ?thesis by (simp add: cfg_inv_def)
qed

text \<open>
  C5. One configuration for the life of the process: in every state the bridge can reach, if
  the configuration has been loaded then it is the one the environment block determines, its
  strings are NUL-free and fit their arrays, and no later call changes it.
\<close>

theorem config_fixed:
  assumes "bridge_run abi os st" and "cfg_loaded (g_cfg st)"
  shows "g_cfg st = cfg_of_env (env_buf st) \<and> cfg_wf (g_cfg st)
    \<and> g_cfg (snd (ioctl abi os sp fd request arg st)) = g_cfg st"
proof -
  have "g_cfg st = cfg_of_env (env_buf st)"
    using bridge_run_inv [OF assms(1)] assms(2) by (simp add: cfg_inv_def)
  moreover have "cfg_inv (Some (g_cfg st)) (snd (ioctl abi os sp fd request arg st))"
    using assms(2) by (intro cfg_inv_ioctl) (simp add: cfg_inv_def)
  ultimately show ?thesis by (simp add: cfg_inv_def cfg_of_env_wf)
qed

text \<open>
  Witness: the environment of \<^verbatim>\<open>ipa_ul_final/ipacm.service.final\<close> as the first call reads it.
\<close>

definition service_env :: string where
  "service_env =
     ''IPA_ABI_BRIDGE_MODE=translate'' @ [NUL]
     @ ''IPA_ABI_BRIDGE_ALLOW_IFACES=eth0,rmnet_data0,rmnet_data1'' @ [NUL]
     @ ''IPA_ABI_BRIDGE_RT_FLT_TRANSLATE=1'' @ [NUL]"

definition os_service :: "unit os" where
  "os_service = \<lparr>os_open = (\<lambda>_ _ _ k. (3, k)), os_read = (\<lambda>_ _ k. ((int (length service_env), service_env), k)),
     os_readlink = (\<lambda>_ _ k. ((8, ''/dev/ipa''), k)), os_ioctl = (\<lambda>fd r p m k. (0, m, k))\<rparr>"

definition service_state :: "unit bridge" where
  "service_state = snd (ioctl abi_13900 os_service 5000 4 0xCF00 1000 (bridge_init one_rt_rule ()))"

lemma service_state_loaded: "cfg_loaded (g_cfg service_state)"
proof -
  have "fst (fd_is_ipa_dev os_service 4 (bridge_init one_rt_rule ()))"
    by (simp add: fd_is_ipa_dev_def bridge_init_def os_service_def rev_digits.simps str_eq_n_eq)
  moreover have "ioc_type_of 0xCF00 = ioc_magic abi_13900"
    by (simp add: ioc_type_of_def abi_13900_def)
  ultimately show ?thesis by (simp add: service_state_def ioctl_loads)
qed

theorem config_fixed_witness:
  "g_cfg service_state = cfg_of_env (env_buf service_state) \<and> cfg_wf (g_cfg service_state)
   \<and> g_cfg (snd (ioctl abi_13900 os_service 5000 4 0xCF01 2000 service_state)) = g_cfg service_state"
proof -
  have "bridge_run abi_13900 os_service service_state"
    unfolding service_state_def by (intro bridge_run.intros)
  from config_fixed [OF this service_state_loaded] show ?thesis by blast
qed

end
