(* ===== verification/Ioss_Base.thy ===== *)
theory Ioss_Base
  imports Prelude
begin

text \<open>
  Data of the IPA offload subsystem (\<^verbatim>\<open>ioss/include/linux/msm/ioss.h\<close>): channels, their memory
  and events, the interface, and the driver operations a glue driver supplies.

  The rest of the kernel is a state \<^typ>\<open>'w\<close> that only the operations of the record \<open>kern\<close>
  (memory, DMA) and the driver's own operations act on. A driver operation returns an
  \<open>option\<close>: \<^const>\<open>None\<close> is a kernel oops. The target is 32-bit ARM without LPAE, so \<^verbatim>\<open>size_t\<close>,
  \<^verbatim>\<open>dma_addr_t\<close>, \<^verbatim>\<open>phys_addr_t\<close> and pointers are 32 bits wide.
\<close>

unbundle bit_operations_syntax

type_synonym dma_addr = u32
type_synonym phys_addr = u32
type_synonym vaddr = u32

section \<open>Memory, allocators, configuration\<close>

record ioss_mem =
  im_addr :: vaddr
  im_size :: u32
  im_daddr :: dma_addr

text \<open>The two allocator objects of \<^verbatim>\<open>ioss_mem.c\<close>, as pointer values.\<close>

datatype alctr = Default_alctr | Llcc_alctr

record channel_config =
  ring_size :: u32
  buff_size :: u32
  desc_alctr :: "alctr option"
  buff_alctr :: "alctr option"

datatype channel_dir = CH_DIR_RX | CH_DIR_TX

datatype if_state = IF_ST_OFFLINE | IF_ST_ONLINE | IF_ST_ERROR | IF_ST_RECOVERY

abbreviation RXF_F_BE :: u32 where "RXF_F_BE \<equiv> 1"
abbreviation RXF_F_IP :: u32 where "RXF_F_IP \<equiv> 2"

record channel_event =
  ev_paddr :: phys_addr
  ev_daddr :: dma_addr
  ev_data :: u64
  mod_count_min :: u32
  mod_count_max :: u32
  mod_usecs_min :: u32
  mod_usecs_max :: u32
  ev_allocated :: bool
  ev_enabled :: bool

section \<open>IPA pipe description\<close>

text \<open>
  \<^verbatim>\<open>struct ipa_eth_client_pipe_info\<close>, as far as the subsystem fills and reads it.
\<close>

datatype pipe_dir = PIPE_DIR_TX | PIPE_DIR_RX

record hal_info =
  hal_bar_addr :: phys_addr
  hal_bar_size :: u32
  hal_queue :: int
  hal_head_offs :: u32
  hal_tail_offs :: u32

record pipe_info =
  pi_dir :: pipe_dir
  pi_client :: bool
  pi_ring_valid :: bool
  pi_ring_base :: dma_addr
  pi_ring_size :: u32
  pi_buff_list :: "(dma_addr \<times> phys_addr) list option"
  pi_buff_count :: u32
  pi_buff_size :: u32
  pi_notify :: bool
  pi_hal :: hal_info
  pi_db_pa :: phys_addr
  pi_db_val :: u32
  pi_hdl :: u32

definition hal_zero :: hal_info where
  "hal_zero = \<lparr>hal_bar_addr = 0, hal_bar_size = 0, hal_queue = 0, hal_head_offs = 0, hal_tail_offs = 0\<rparr>"

text \<open>\<^verbatim>\<open>memset(&cp->ipa_pi, 0, ...)\<close>.\<close>

definition pipe_zero :: pipe_info where
  "pipe_zero = \<lparr>pi_dir = PIPE_DIR_TX, pi_client = False, pi_ring_valid = False, pi_ring_base = 0,
     pi_ring_size = 0, pi_buff_list = None, pi_buff_count = 0, pi_buff_size = 0, pi_notify = False,
     pi_hal = hal_zero, pi_db_pa = 0, pi_db_val = 0, pi_hdl = 0\<rparr>"

section \<open>Channels\<close>

text \<open>\<open>ch_private\<close> is the driver's ring pointer; \<open>ipa_pi\<close> is \<^verbatim>\<open>ch->ioss_priv->ipa_pi\<close>.\<close>

record 'r ioss_channel =
  default_config :: channel_config
  config :: channel_config
  direction :: channel_dir
  filter_types :: u32
  event :: channel_event
  ch_id :: int
  desc_mem :: "ioss_mem list"
  buff_mem :: "ioss_mem list"
  head_ptr_addr :: phys_addr
  tail_ptr_addr :: phys_addr
  ch_private :: "'r option"
  allocated :: bool
  enabled :: bool
  ch_debugfs :: bool
  ipa_pi :: pipe_info

definition config_zero :: channel_config where
  "config_zero = \<lparr>ring_size = 0, buff_size = 0, desc_alctr = None, buff_alctr = None\<rparr>"

definition event_zero :: channel_event where
  "event_zero = \<lparr>ev_paddr = 0, ev_daddr = 0, ev_data = 0, mod_count_min = 0, mod_count_max = 0,
     mod_usecs_min = 0, mod_usecs_max = 0, ev_allocated = False, ev_enabled = False\<rparr>"

text \<open>A channel as \<^verbatim>\<open>kzalloc\<close> and \<^verbatim>\<open>INIT_LIST_HEAD\<close> leave it.\<close>

definition channel_zero :: "'r ioss_channel" where
  "channel_zero = \<lparr>default_config = config_zero, config = config_zero, direction = CH_DIR_RX,
     filter_types = 0, event = event_zero, ch_id = 0, desc_mem = [], buff_mem = [],
     head_ptr_addr = 0, tail_ptr_addr = 0, ch_private = None, allocated = False, enabled = False,
     ch_debugfs = False, ipa_pi = pipe_zero\<rparr>"

section \<open>Interface and device\<close>

text \<open>
  \<open>iface_priv\<close> says whether \<^verbatim>\<open>iface->ioss_priv\<close> is allocated; \<open>iface_parent\<close> is
  \<^verbatim>\<open>iface->dev.parent\<close>, the registered net device; \<open>active_ws\<close> the wakeup source.
\<close>

record 'r ioss_interface =
  if_state :: if_state
  instance_id :: u32
  channels :: "'r ioss_channel list"
  iface_priv :: bool
  iface_parent :: "nat option"
  link_speed :: u32
  exc_rx_packets :: u64
  exc_rx_bytes :: u64
  exc_rx_drops :: u64
  stats_rx_packets :: u64
  active_ws :: "bool option"

text \<open>
  The wakeup source is \<^const>\<open>None\<close> when it is NULL, otherwise whether it holds the system awake.
\<close>

record pci_ident =
  on_pci_bus :: bool
  pci_vendor :: u16
  pci_device :: u16
  pci_driver_name :: string
  bar_start :: "nat \<Rightarrow> phys_addr"
  bar_len :: "nat \<Rightarrow> u32"

record 'r ioss_device =
  real_dev :: pci_ident
  net_dev :: "nat option"
  interface :: "'r ioss_interface"
  wolopts :: u32
  unbinding :: bool
  dev_offline :: bool
  apps_suspend :: u64
  apps_resume :: u64
  system_suspend :: u64
  system_resume :: u64

definition iface_zero :: "'r ioss_interface" where
  "iface_zero = \<lparr>if_state = IF_ST_OFFLINE, instance_id = 0, channels = [], iface_priv = False,
     iface_parent = None, link_speed = 0, exc_rx_packets = 0, exc_rx_bytes = 0, exc_rx_drops = 0,
     stats_rx_packets = 0, active_ws = None\<rparr>"

definition idev_zero :: "pci_ident \<Rightarrow> 'r ioss_device" where
  "idev_zero d = \<lparr>real_dev = d, net_dev = None, interface = iface_zero, wolopts = 0,
     unbinding = False, dev_offline = False, apps_suspend = 0, apps_resume = 0, system_suspend = 0,
     system_resume = 0\<rparr>"

section \<open>Kernel services used by the subsystem\<close>

record tcm_data =
  tcm_phys :: phys_addr
  tcm_virt :: vaddr
  tcm_size :: u32

record 'w kern =
  kzalloc :: "'w \<Rightarrow> bool \<times> 'w"
  dma_get_sgtable :: "vaddr \<Rightarrow> dma_addr \<Rightarrow> u32 \<Rightarrow> 'w \<Rightarrow> int \<times> 'w"
  dma_map_resource :: "phys_addr \<Rightarrow> u32 \<Rightarrow> 'w \<Rightarrow> dma_addr \<times> 'w"
  dma_mapping_error :: "dma_addr \<Rightarrow> bool"
  dma_unmap_resource :: "dma_addr \<Rightarrow> u32 \<Rightarrow> 'w \<Rightarrow> 'w"
  iommu_unmap :: "dma_addr \<Rightarrow> u32 \<Rightarrow> 'w \<Rightarrow> u32 \<times> 'w"
  iommu_map :: "dma_addr \<Rightarrow> phys_addr \<Rightarrow> u32 \<Rightarrow> u32 \<Rightarrow> 'w \<Rightarrow> int \<times> 'w"
  dev_is_dma_coherent :: bool
  dma_alloc_coherent :: "u32 \<Rightarrow> 'w \<Rightarrow> (vaddr \<times> dma_addr) option \<times> 'w"
  dma_free_coherent :: "u32 \<Rightarrow> vaddr \<Rightarrow> dma_addr \<Rightarrow> 'w \<Rightarrow> 'w"
  llcc_tcm_activate :: "'w \<Rightarrow> tcm_data option \<times> 'w"
  llcc_tcm_deactivate :: "tcm_data \<Rightarrow> 'w \<Rightarrow> 'w"
  vmalloc_page_phys :: "vaddr \<Rightarrow> phys_addr"
  virt_to_phys :: "vaddr \<Rightarrow> phys_addr"
  debugfs_create :: "string \<Rightarrow> 'w \<Rightarrow> bool \<times> 'w"
  debugfs_remove_recursive :: "'w \<Rightarrow> 'w"

section \<open>Memory lists of a channel\<close>

text \<open>
  \<open>ioss_channel_add_mem\<close> and \<open>ioss_channel_del_mem\<close>, on the list they are given; the macros
  \<open>ioss_channel_add_desc_mem\<close> and so on pick the list.
\<close>

definition ioss_channel_add_mem ::
  "'w kern \<Rightarrow> ioss_mem list \<Rightarrow> vaddr \<Rightarrow> dma_addr \<Rightarrow> u32 \<Rightarrow> 'w \<Rightarrow> int \<times> ioss_mem list \<times> 'w" where
  "ioss_channel_add_mem K xs addr daddr sz w =
     (case kzalloc K w of (ok, w) \<Rightarrow>
        if \<not> ok then (- ENOMEM, xs, w)
        else (case dma_get_sgtable K addr daddr sz w of (rc, w) \<Rightarrow>
                if rc \<noteq> 0 then (- EFAULT, xs, w)
                else (0, xs @ [\<lparr>im_addr = addr, im_size = sz, im_daddr = daddr\<rparr>], w)))"

definition ioss_channel_del_mem :: "ioss_mem list \<Rightarrow> vaddr \<Rightarrow> ioss_mem list" where
  "ioss_channel_del_mem xs addr = filter (\<lambda>im. im_addr im \<noteq> addr) xs"

definition ioss_channel_add_desc_mem ::
  "'w kern \<Rightarrow> 'r ioss_channel \<Rightarrow> vaddr \<Rightarrow> dma_addr \<Rightarrow> u32 \<Rightarrow> 'w \<Rightarrow> int \<times> 'r ioss_channel \<times> 'w" where
  "ioss_channel_add_desc_mem K ch addr daddr sz w =
     (case ioss_channel_add_mem K (desc_mem ch) addr daddr sz w of (rc, xs, w) \<Rightarrow>
        (rc, ch\<lparr>desc_mem := xs\<rparr>, w))"

definition ioss_channel_add_buff_mem ::
  "'w kern \<Rightarrow> 'r ioss_channel \<Rightarrow> vaddr \<Rightarrow> dma_addr \<Rightarrow> u32 \<Rightarrow> 'w \<Rightarrow> int \<times> 'r ioss_channel \<times> 'w" where
  "ioss_channel_add_buff_mem K ch addr daddr sz w =
     (case ioss_channel_add_mem K (buff_mem ch) addr daddr sz w of (rc, xs, w) \<Rightarrow>
        (rc, ch\<lparr>buff_mem := xs\<rparr>, w))"

definition ioss_channel_del_desc_mem :: "'r ioss_channel \<Rightarrow> vaddr \<Rightarrow> 'r ioss_channel" where
  "ioss_channel_del_desc_mem ch addr = ch\<lparr>desc_mem := ioss_channel_del_mem (desc_mem ch) addr\<rparr>"

definition ioss_channel_del_buff_mem :: "'r ioss_channel \<Rightarrow> vaddr \<Rightarrow> 'r ioss_channel" where
  "ioss_channel_del_buff_mem ch addr = ch\<lparr>buff_mem := ioss_channel_del_mem (buff_mem ch) addr\<rparr>"

section \<open>Doorbell mapping\<close>

abbreviation EV_DATA_SIZE :: u32 where "EV_DATA_SIZE \<equiv> 8"

definition ioss_channel_map_event ::
  "'w kern \<Rightarrow> 'r ioss_channel \<Rightarrow> 'w \<Rightarrow> int \<times> 'r ioss_channel \<times> 'w" where
  "ioss_channel_map_event K ch w =
     (if ev_daddr (event ch) \<noteq> 0 then (- EEXIST, ch, w)
      else (case dma_map_resource K (ev_paddr (event ch)) EV_DATA_SIZE w of (daddr, w) \<Rightarrow>
              if dma_mapping_error K daddr
              then (- EFAULT, ch\<lparr>event := (event ch)\<lparr>ev_daddr := 0\<rparr>\<rparr>, w)
              else (0, ch\<lparr>event := (event ch)\<lparr>ev_daddr := daddr\<rparr>\<rparr>, w)))"

definition ioss_channel_unmap_event ::
  "'w kern \<Rightarrow> 'r ioss_channel \<Rightarrow> 'w \<Rightarrow> 'r ioss_channel \<times> 'w" where
  "ioss_channel_unmap_event K ch w =
     (if ev_daddr (event ch) = 0 then (ch, w)
      else (ch\<lparr>event := (event ch)\<lparr>ev_daddr := 0\<rparr>\<rparr>,
            dma_unmap_resource K (ev_daddr (event ch)) EV_DATA_SIZE w))"

section \<open>Driver operations\<close>

text \<open>
  A glue driver's operation on a channel: return code, the channel as the driver leaves it, the
  kernel state; \<^const>\<open>None\<close> is an oops. A missing operation is the NULL entry of the table.
\<close>

type_synonym ('r, 'w) chan_op = "'r ioss_channel \<Rightarrow> 'w \<Rightarrow> (int \<times> 'r ioss_channel \<times> 'w) option"

record ('r, 'w) driver_ops =
  request_channel :: "('r, 'w) chan_op option"
  release_channel :: "('r, 'w) chan_op option"
  enable_channel :: "('r, 'w) chan_op option"
  disable_channel :: "('r, 'w) chan_op option"
  request_event :: "('r, 'w) chan_op option"
  release_event :: "('r, 'w) chan_op option"
  enable_event :: "('r, 'w) chan_op option"
  disable_event :: "('r, 'w) chan_op option"

definition ioss_dev_op ::
  "('r, 'w) chan_op option \<Rightarrow> 'r ioss_channel \<Rightarrow> 'w \<Rightarrow> (int \<times> 'r ioss_channel \<times> 'w) option" where
  "ioss_dev_op f ch w = (case f of None \<Rightarrow> Some (- ENOENT, ch, w) | Some g \<Rightarrow> g ch w)"

section \<open>A kernel in which every request succeeds\<close>

text \<open>Used by the witnesses of the component theories.\<close>

definition ok_kern :: "unit kern" where
  "ok_kern = \<lparr>kzalloc = (\<lambda>w. (True, w)), dma_get_sgtable = (\<lambda>_ _ _ w. (0, w)),
     dma_map_resource = (\<lambda>p n w. (0x9f000000, w)), dma_mapping_error = (\<lambda>d. d = 0xffffffff),
     dma_unmap_resource = (\<lambda>d n w. w), iommu_unmap = (\<lambda>d n w. (n, w)),
     iommu_map = (\<lambda>d p n prot w. (0, w)), dev_is_dma_coherent = False,
     dma_alloc_coherent = (\<lambda>n w. (Some (0xf1000000, 0x90000000), w)), dma_free_coherent = (\<lambda>n v d w. w),
     llcc_tcm_activate = (\<lambda>w. (None, w)), llcc_tcm_deactivate = (\<lambda>t w. w),
     vmalloc_page_phys = (\<lambda>v. 0x80000000 OR (v AND 0x0ffff000)), virt_to_phys = (\<lambda>v. v - 0x30000000),
     debugfs_create = (\<lambda>nm w. (True, w)), debugfs_remove_recursive = (\<lambda>w. w)\<rparr>"

section \<open>Lemmas\<close>

lemma add_del_mem:
  assumes "addr \<notin> im_addr ` set xs"
  shows "ioss_channel_del_mem (xs @ [\<lparr>im_addr = addr, im_size = n, im_daddr = d\<rparr>]) addr = xs"
  using assms by (auto simp: ioss_channel_del_mem_def filter_id_conv)

lemma add_mem_result:
  "ioss_channel_add_mem K xs addr daddr sz w = (rc, xs', w') \<Longrightarrow>
   (rc = 0 \<and> xs' = xs @ [\<lparr>im_addr = addr, im_size = sz, im_daddr = daddr\<rparr>])
   \<or> (rc < 0 \<and> xs' = xs)"
  by (auto simp: ioss_channel_add_mem_def split: prod.splits if_splits)

lemma map_event_result:
  "ioss_channel_map_event K ch w = (rc, ch', w') \<Longrightarrow>
   (rc = 0 \<longleftrightarrow> ev_daddr (event ch) = 0 \<and> \<not> dma_mapping_error K (fst (dma_map_resource K (ev_paddr (event ch)) 8 w)))
   \<and> (rc \<noteq> 0 \<longrightarrow> ev_daddr (event ch') = ev_daddr (event ch))"
  by (auto simp: ioss_channel_map_event_def split: prod.splits if_splits)

end
