(* ===== verification/Ioss_Util.thy ===== *)
theory Ioss_Util
  imports Ioss_Base
begin

text \<open>
  Helpers of the offload subsystem (\<^verbatim>\<open>ioss/ioss_utils.c\<close>): the IPC log contexts, the
  all-or-nothing walk over a list of channels, and the names of states and directions.
\<close>

section \<open>IPC log\<close>

record 'c log_state =
  log_debug :: bool
  buf_norm :: "'c option"
  buf_prio :: "'c option"

text \<open>\<^verbatim>\<open>ipc_log_context_create\<close> is the parameter \<open>create\<close>; the ledger \<open>live\<close> lists open contexts.\<close>

definition ioss_get_ipclog_buf_norm :: "'c log_state \<Rightarrow> 'c option" where
  "ioss_get_ipclog_buf_norm l = buf_norm l"

definition ioss_get_ipclog_buf_debug :: "'c log_state \<Rightarrow> 'c option" where
  "ioss_get_ipclog_buf_debug l = (if log_debug l then buf_norm l else None)"

definition ioss_get_ipclog_buf_prio :: "'c log_state \<Rightarrow> 'c option" where
  "ioss_get_ipclog_buf_prio l = buf_prio l"

definition ioss_log_init ::
  "(string \<Rightarrow> 'c list \<Rightarrow> 'c option \<times> 'c list) \<Rightarrow> 'c log_state \<Rightarrow> 'c list \<Rightarrow> int \<times> 'c log_state \<times> 'c list" where
  "ioss_log_init create l live =
     (if buf_norm l \<noteq> None then (0, l, live)
      else (case create ''ioss_prio'' live of (p, live) \<Rightarrow>
        let l = l\<lparr>buf_prio := p\<rparr> in
        (case p of
           None \<Rightarrow> (- EFAULT, l, live)
         | Some prio \<Rightarrow>
             (case create ''ioss'' live of (n, live) \<Rightarrow>
                let l = l\<lparr>buf_norm := n\<rparr> in
                (case n of
                   None \<Rightarrow> (- EFAULT, l\<lparr>buf_prio := None\<rparr>, remove1 prio live)
                 | Some _ \<Rightarrow> (0, l, live))))))"

definition destroy_ctx :: "'c option \<Rightarrow> 'c list \<Rightarrow> 'c list" where
  "destroy_ctx b live = (case b of None \<Rightarrow> live | Some c \<Rightarrow> remove1 c live)"

definition ioss_log_deinit :: "'c log_state \<Rightarrow> 'c list \<Rightarrow> 'c log_state \<times> 'c list" where
  "ioss_log_deinit l live =
     (l\<lparr>buf_norm := None, buf_prio := None\<rparr>, destroy_ctx (buf_prio l) (destroy_ctx (buf_norm l) live))"

section \<open>All-or-nothing walk\<close>

text \<open>
  \<open>__ioss_list_iter_action_recurse\<close>: apply \<open>act\<close> to each node in turn; when a later node fails,
  revert the earlier ones on the way back. \<open>rvt\<close> may be NULL.
\<close>

primrec ioss_list_iter_action ::
  "('a \<Rightarrow> 's \<Rightarrow> (int \<times> 'a \<times> 's) option) \<Rightarrow> ('a \<Rightarrow> 's \<Rightarrow> ('a \<times> 's) option) option \<Rightarrow> 'a list \<Rightarrow> 's \<Rightarrow>
   (int \<times> 'a list \<times> 's) option" where
  "ioss_list_iter_action act rvt [] s = Some (0, [], s)"
| "ioss_list_iter_action act rvt (x # xs) s =
     do {
       (rc, x, s) \<leftarrow> act x s;
       if rc \<noteq> 0 then Some (rc, x # xs, s)
       else do {
         (rc, xs, s) \<leftarrow> ioss_list_iter_action act rvt xs s;
         (case rvt of
            None \<Rightarrow> Some (rc, x # xs, s)
          | Some r \<Rightarrow> if rc = 0 then Some (rc, x # xs, s)
                      else do { (x, s) \<leftarrow> r x s; Some (rc, x # xs, s) })
       }
     }"

text \<open>
  \<open>for_each |=\<close>: the loops that apply an operation to every channel and or the return codes.
  Return codes are 32-bit two's complement, so the accumulated value is zero exactly when every
  code is.
\<close>

definition rc_or :: "int \<Rightarrow> int \<Rightarrow> int" where
  "rc_or a b = sint ((word_of_int a OR word_of_int b) :: u32)"

primrec for_each_channel ::
  "('a \<Rightarrow> 's \<Rightarrow> (int \<times> 'a \<times> 's) option) \<Rightarrow> 'a list \<Rightarrow> 's \<Rightarrow> int \<Rightarrow> (int \<times> 'a list \<times> 's) option" where
  "for_each_channel f [] s rc = Some (rc, [], s)"
| "for_each_channel f (x # xs) s rc =
     do {
       (r, x, s) \<leftarrow> f x s;
       (rc, xs, s) \<leftarrow> for_each_channel f xs s (rc_or rc r);
       Some (rc, x # xs, s)
     }"

section \<open>Names\<close>

definition ioss_if_state_name :: "if_state \<Rightarrow> string" where
  "ioss_if_state_name st =
     (case st of IF_ST_OFFLINE \<Rightarrow> ''`offline`'' | IF_ST_ONLINE \<Rightarrow> ''`online`''
               | IF_ST_ERROR \<Rightarrow> ''`error`'' | IF_ST_RECOVERY \<Rightarrow> ''`recovery`'')"

definition ioss_ch_dir_name :: "channel_dir \<Rightarrow> string" where
  "ioss_ch_dir_name d = (case d of CH_DIR_RX \<Rightarrow> ''`RX`'' | CH_DIR_TX \<Rightarrow> ''`TX`'')"

section \<open>Log lemmas\<close>

text \<open>
  Set-up is all or nothing: on success both contexts are open, on failure neither is, and no
  context leaks. \<open>create\<close> opens one new context or none.
\<close>

definition creates_one :: "(string \<Rightarrow> 'c list \<Rightarrow> 'c option \<times> 'c list) \<Rightarrow> bool" where
  "creates_one create \<longleftrightarrow>
     (\<forall>nm live. case create nm live of (None, live') \<Rightarrow> live' = live
                                     | (Some c, live') \<Rightarrow> live' = c # live \<and> c \<notin> set live)"

lemma create_cases:
  assumes "creates_one create" "create nm live = (p, live')"
  shows "(p = None \<and> live' = live) \<or> (\<exists>c. p = Some c \<and> live' = c # live \<and> c \<notin> set live)"
  using assms(1) [unfolded creates_one_def, rule_format, of live nm] assms(2)
  by (cases p) auto

lemma ioss_log_init_cases:
  assumes "creates_one create" "buf_norm l = None" "ioss_log_init create l live = (rc, l', live')"
  shows "(rc = 0 \<and> (\<exists>p n. buf_prio l' = Some p \<and> buf_norm l' = Some n \<and> live' = n # p # live))
    \<or> (rc = - EFAULT \<and> buf_prio l' = None \<and> buf_norm l' = None \<and> live' = live)"
proof -
  obtain p live1 where c1: "create ''ioss_prio'' live = (p, live1)" by fastforce
  show ?thesis
  proof (cases p)
    case None
    then show ?thesis
      using create_cases [OF assms(1) c1] assms(2,3) c1 by (auto simp: ioss_log_init_def Let_def)
  next
    case (Some prio)
    obtain n live2 where c2: "create ''ioss'' live1 = (n, live2)" by fastforce
    show ?thesis
      using create_cases [OF assms(1) c1] create_cases [OF assms(1) c2] assms(2,3) c1 c2 Some
      by (auto simp: ioss_log_init_def Let_def)
  qed
qed

section \<open>Lemmas on the walk\<close>

text \<open>
  The contract of an undoable step. \<open>R done todo s\<close> relates the nodes already acted on, the
  nodes still to do and the rest of the state. A successful action moves its node from \<open>todo\<close>
  to \<open>done\<close>; a failed one leaves it in \<open>todo\<close>; reverting the last node of \<open>done\<close> moves it back.
\<close>

locale undoable =
  fixes act :: "'a \<Rightarrow> 's \<Rightarrow> (int \<times> 'a \<times> 's) option"
    and revert :: "'a \<Rightarrow> 's \<Rightarrow> ('a \<times> 's) option"
    and R :: "'a list \<Rightarrow> 'a list \<Rightarrow> 's \<Rightarrow> bool"
  assumes act_law: "R dn (x # todo) s \<Longrightarrow> act x s = Some (rc, x', s') \<Longrightarrow>
      (if rc = 0 then R (dn @ [x']) todo s' else R dn (x' # todo) s')"
    and revert_law: "R (dn @ [x]) todo s \<Longrightarrow> \<exists>x' s'. revert x s = Some (x', s') \<and> R dn (x' # todo) s'"
begin

lemma iter_all_or_nothing:
  "\<lbrakk>R dn xs s; ioss_list_iter_action act (Some revert) xs s = Some (rc, xs', s')\<rbrakk>
   \<Longrightarrow> length xs' = length xs \<and> (if rc = 0 then R (dn @ xs') [] s' else R dn xs' s')"
proof (induction xs arbitrary: dn s rc xs' s')
  case (Cons x xs)
  from Cons.prems(2) obtain rc1 x1 s1 where a: "act x s = Some (rc1, x1, s1)"
    by (auto split: bind_splits)
  note law = act_law [OF Cons.prems(1) a]
  show ?case
  proof (cases "rc1 = 0")
    case False
    with Cons.prems(2) a law show ?thesis by auto
  next
    case True
    with Cons.prems(2) a obtain rc2 xs2 s2
      where it: "ioss_list_iter_action act (Some revert) xs s1 = Some (rc2, xs2, s2)"
      by (auto split: bind_splits)
    from True law have "R (dn @ [x1]) xs s1" by simp
    note ih = Cons.IH [OF this it]
    show ?thesis
    proof (cases "rc2 = 0")
      case True
      with Cons.prems(2) a it ih \<open>rc1 = 0\<close> show ?thesis by auto
    next
      case False
      with ih obtain x3 s3 where "revert x1 s2 = Some (x3, s3)" "R dn (x3 # xs2) s3"
        using revert_law [of dn x1 xs2 s2] by auto
      with Cons.prems(2) a it ih \<open>rc1 = 0\<close> False show ?thesis by auto
    qed
  qed
qed auto

end

text \<open>When the action itself cannot oops, neither can the walk.\<close>

locale undoable_total = undoable +
  assumes act_total: "R dn (x # todo) s \<Longrightarrow> \<exists>r. act x s = Some r"
begin

lemma iter_total:
  "R dn xs s \<Longrightarrow> \<exists>r. ioss_list_iter_action act (Some revert) xs s = Some r"
proof (induction xs arbitrary: dn s)
  case (Cons x xs)
  obtain rc x1 s1 where a: "act x s = Some (rc, x1, s1)" using act_total [OF Cons.prems] by auto
  show ?case
  proof (cases "rc = 0")
    case True
    with act_law [OF Cons.prems a] have R1: "R (dn @ [x1]) xs s1" by simp
    from Cons.IH [OF this] obtain rc2 xs2 s2
      where it: "ioss_list_iter_action act (Some revert) xs s1 = Some (rc2, xs2, s2)" by auto
    show ?thesis
    proof (cases "rc2 = 0")
      case False
      with iter_all_or_nothing [OF R1 it] have "R (dn @ [x1]) xs2 s2" by simp
      with revert_law obtain r where "revert x1 s2 = Some r" by blast
      with a True it False show ?thesis by (cases r) simp
    qed (use a True it in simp)
  qed (use a in simp)
qed simp

end

text \<open>When the action cannot fail either, the walk acts on every node.\<close>

locale undoable_sure = undoable_total +
  assumes act_ok: "R dn (x # todo) s \<Longrightarrow> act x s = Some (rc, x', s') \<Longrightarrow> rc = 0"
begin

lemma iter_success:
  "R dn xs s \<Longrightarrow> \<exists>xs' s'. ioss_list_iter_action act (Some revert) xs s = Some (0, xs', s')
     \<and> length xs' = length xs \<and> R (dn @ xs') [] s'"
proof (induction xs arbitrary: dn s)
  case (Cons x xs)
  obtain rc x1 s1 where a: "act x s = Some (rc, x1, s1)" using act_total [OF Cons.prems] by auto
  have rc: "rc = 0" by (rule act_ok [OF Cons.prems a])
  with act_law [OF Cons.prems a] have "R (dn @ [x1]) xs s1" by simp
  from Cons.IH [OF this] a rc show ?case by auto
qed simp

end

section \<open>Lemmas on the loops\<close>

lemma rc_or_zero:
  assumes "- (2 ^ 31) \<le> a" "a < 2 ^ 31" "- (2 ^ 31) \<le> b" "b < 2 ^ 31"
  shows "rc_or a b = 0 \<longleftrightarrow> a = 0 \<and> b = 0"
proof -
  have "sint (word_of_int x :: u32) = x" if "- (2 ^ 31) \<le> x" "x < 2 ^ 31" for x :: int
    using that by (simp add: sint_word_ariths signed_take_bit_int_eq_self sint_sbintrunc' signed_of_int)
  then have z: "word_of_int x = (0 :: u32) \<longleftrightarrow> x = 0" if "- (2 ^ 31) \<le> x" "x < 2 ^ 31" for x :: int
    using that by (metis of_int_0 signed_0)
  have "rc_or a b = 0 \<longleftrightarrow> (word_of_int a OR word_of_int b :: u32) = 0"
    unfolding rc_or_def by (metis signed_0 signed_word_eqI)
  also have "\<dots> \<longleftrightarrow> word_of_int a = (0 :: u32) \<and> word_of_int b = (0 :: u32)"
    by (metis or_eq_0_iff)
  finally show ?thesis using z assms by simp
qed

end
