(* ===== verification/Ioss_Mem.thy ===== *)
theory Ioss_Mem
  imports Ioss_Util
begin

text \<open>
  The two memory allocators of the offload subsystem (\<^verbatim>\<open>ioss/ioss_mem.c\<close>): coherent DDR memory,
  and the tightly coupled memory of the last-level cache (LLCC TCM), of which there is one block
  that is activated, used by at most one buffer and deactivated.
\<close>

unbundle bit_operations_syntax

section \<open>Default allocator\<close>

definition default_mem_alloc :: "'w kern \<Rightarrow> u32 \<Rightarrow> 'w \<Rightarrow> (vaddr \<times> dma_addr) option \<times> 'w" where
  "default_mem_alloc K sz w = dma_alloc_coherent K sz w"

definition default_mem_free :: "'w kern \<Rightarrow> u32 \<Rightarrow> vaddr \<Rightarrow> dma_addr \<Rightarrow> 'w \<Rightarrow> 'w" where
  "default_mem_free K sz addr daddr w = dma_free_coherent K sz addr daddr w"

abbreviation PAGE_OFFS_MASK :: u32 where "PAGE_OFFS_MASK \<equiv> 0xfff"

definition default_mem_pa :: "'w kern \<Rightarrow> vaddr \<Rightarrow> phys_addr" where
  "default_mem_pa K addr = vmalloc_page_phys K addr OR (addr AND PAGE_OFFS_MASK)"

section \<open>LLCC allocator\<close>

record llcc_state =
  tcm_mem :: "tcm_data option"
  tcm_in_use :: bool

abbreviation IOMMU_READ :: u32 where "IOMMU_READ \<equiv> 1"
abbreviation IOMMU_WRITE :: u32 where "IOMMU_WRITE \<equiv> 2"
abbreviation IOMMU_CACHE :: u32 where "IOMMU_CACHE \<equiv> 4"

definition llcc_mem_alloc ::
  "'w kern \<Rightarrow> u32 \<Rightarrow> llcc_state \<Rightarrow> 'w \<Rightarrow> (vaddr \<times> dma_addr) option \<times> llcc_state \<times> 'w" where
  "llcc_mem_alloc K sz l w =
     (case tcm_mem l of
        None \<Rightarrow> (None, l, w)
      | Some t \<Rightarrow>
          if tcm_in_use l \<or> sz > tcm_size t then (None, l, w)
          else
            (case dma_map_resource K (tcm_phys t) (tcm_size t) w of (iova, w) \<Rightarrow>
             if dma_mapping_error K iova then (None, l, w)
             else
               (case iommu_unmap K iova (tcm_size t) w of (n, w) \<Rightarrow>
                if tcm_size t \<noteq> n
                then (None, l, dma_unmap_resource K (tcm_phys t) (tcm_size t) w)
                else
                  let prot = IOMMU_READ OR IOMMU_WRITE OR (if dev_is_dma_coherent K then IOMMU_CACHE else 0) in
                  (case iommu_map K iova (tcm_phys t) (tcm_size t) prot w of (rc, w) \<Rightarrow>
                   if rc \<noteq> 0 then (None, l, dma_unmap_resource K (tcm_phys t) (tcm_size t) w)
                   else (Some (tcm_virt t, iova), l\<lparr>tcm_in_use := True\<rparr>, w)))))"

definition llcc_mem_free :: "'w kern \<Rightarrow> u32 \<Rightarrow> vaddr \<Rightarrow> dma_addr \<Rightarrow> llcc_state \<Rightarrow> 'w \<Rightarrow> llcc_state \<times> 'w" where
  "llcc_mem_free K sz addr daddr l w = (l\<lparr>tcm_in_use := False\<rparr>, dma_unmap_resource K daddr sz w)"

definition llcc_mem_pa :: "vaddr \<Rightarrow> llcc_state \<Rightarrow> phys_addr" where
  "llcc_mem_pa addr l =
     (case tcm_mem l of
        None \<Rightarrow> 0
      | Some t \<Rightarrow> if tcm_virt t = 0 then 0 else tcm_phys t + (addr - tcm_virt t))"

definition llcc_mem_get :: "'w kern \<Rightarrow> u32 \<Rightarrow> llcc_state \<Rightarrow> 'w \<Rightarrow> u32 \<times> llcc_state \<times> 'w" where
  "llcc_mem_get K sz l w =
     (case tcm_mem l of
        Some _ \<Rightarrow> (0, l, w)
      | None \<Rightarrow> (case llcc_tcm_activate K w of
                   (None, w) \<Rightarrow> (0, l, w)
                 | (Some t, w) \<Rightarrow> (tcm_size t, l\<lparr>tcm_mem := Some t\<rparr>, w)))"

definition llcc_mem_put :: "'w kern \<Rightarrow> u32 \<Rightarrow> llcc_state \<Rightarrow> 'w \<Rightarrow> llcc_state \<times> 'w" where
  "llcc_mem_put K sz l w =
     (case tcm_mem l of
        None \<Rightarrow> (l, w)
      | Some t \<Rightarrow> (l\<lparr>tcm_mem := None\<rparr>, llcc_tcm_deactivate K t w))"

text \<open>The address translation of an allocator object, as called through \<^verbatim>\<open>alctr->pa\<close>.\<close>

definition alctr_pa :: "'w kern \<Rightarrow> alctr \<Rightarrow> vaddr \<Rightarrow> llcc_state \<Rightarrow> phys_addr" where
  "alctr_pa K a addr l = (case a of Default_alctr \<Rightarrow> default_mem_pa K addr | Llcc_alctr \<Rightarrow> llcc_mem_pa addr l)"

section \<open>Lemmas\<close>

lemma llcc_mem_get_cases:
  "llcc_mem_get K sz l w = (n, l', w') \<Longrightarrow>
   (l' = l \<and> n = 0)
   \<or> (\<exists>t. tcm_mem l = None \<and> llcc_tcm_activate K w = (Some t, w') \<and> l' = l\<lparr>tcm_mem := Some t\<rparr> \<and> n = tcm_size t)"
  by (auto simp: llcc_mem_get_def split: option.splits prod.splits)

lemma llcc_mem_get_put:
  assumes "llcc_mem_get K sz l w = (n, l', w')" "n \<noteq> 0"
  shows "\<exists>t. tcm_mem l' = Some t \<and> llcc_mem_put K sz' l' w' = (l, llcc_tcm_deactivate K t w')"
  using llcc_mem_get_cases [OF assms(1)] assms(2) by (auto simp: llcc_mem_put_def)

text \<open>
  The allocator as a machine: every call of its interface, in any order and with any kernel.
\<close>

datatype llcc_call = Get u32 | Put u32 | Alloc u32 | Free u32 vaddr dma_addr

definition llcc_call_step :: "'w kern \<Rightarrow> llcc_call \<Rightarrow> llcc_state \<times> 'w \<Rightarrow> llcc_state \<times> 'w" where
  "llcc_call_step K c s =
     (case c of
        Get n \<Rightarrow> (case llcc_mem_get K n (fst s) (snd s) of (_, l, w) \<Rightarrow> (l, w))
      | Put n \<Rightarrow> llcc_mem_put K n (fst s) (snd s)
      | Alloc n \<Rightarrow> (case llcc_mem_alloc K n (fst s) (snd s) of (_, l, w) \<Rightarrow> (l, w))
      | Free n a d \<Rightarrow> llcc_mem_free K n a d (fst s) (snd s))"

definition llcc_run :: "'w kern \<Rightarrow> llcc_call list \<Rightarrow> llcc_state \<times> 'w \<Rightarrow> llcc_state \<times> 'w" where
  "llcc_run K cs s = fold (llcc_call_step K) cs s"

text \<open>
  Ghost count of activations minus deactivations that a run performs, observed through a kernel
  whose state is that count.
\<close>

definition count_kern :: "tcm_data option \<Rightarrow> int kern \<Rightarrow> int kern" where
  "count_kern t K = K\<lparr>llcc_tcm_activate := (\<lambda>n. (t, if t = None then n else n + 1)),
     llcc_tcm_deactivate := (\<lambda>_ n. n - 1),
     dma_map_resource := (\<lambda>p sz n. (fst (dma_map_resource K p sz n), n)),
     dma_unmap_resource := (\<lambda>_ _ n. n),
     iommu_unmap := (\<lambda>i sz n. (fst (iommu_unmap K i sz n), n)),
     iommu_map := (\<lambda>i p sz pr n. (fst (iommu_map K i p sz pr n), n))\<rparr>"

lemma llcc_call_step_count:
  assumes "snd s = (if tcm_mem (fst s) = None then 0 else 1)"
  shows "snd (llcc_call_step (count_kern t K) c s)
    = (if tcm_mem (fst (llcc_call_step (count_kern t K) c s)) = None then 0 else 1)"
  using assms
  by (cases c) (auto simp: llcc_call_step_def llcc_mem_get_def llcc_mem_put_def llcc_mem_alloc_def
      llcc_mem_free_def count_kern_def Let_def split: option.splits prod.splits)

interpretation llcc_calls: call_sequence "llcc_call_step (count_kern t K)" "\<lambda>_. True"
    "\<lambda>s. snd s = (if tcm_mem (fst s) = None then 0 else 1)" for t K
  by unfold_locales (rule llcc_call_step_count)

text \<open>
  The tightly coupled memory is activated at most once at a time and never deactivated
  without having been activated: over any sequence of calls of the allocator's interface, in any
  order, the number of activations minus deactivations is 1 while a block is held and 0
  otherwise.
\<close>

theorem llcc_activation_balanced:
  "snd (llcc_run (count_kern t K) cs (\<lparr>tcm_mem = None, tcm_in_use = False\<rparr>, 0))
   = (if tcm_mem (fst (llcc_run (count_kern t K) cs (\<lparr>tcm_mem = None, tcm_in_use = False\<rparr>, 0))) = None
      then 0 else 1)"
  unfolding llcc_run_def by (rule llcc_calls.run_inv) (simp_all add: list_all_iff)

text \<open>
  Address translation inside the block: an address \<open>off\<close> bytes into the mapped window
  translates to the address \<open>off\<close> bytes into the physical block, so distinct addresses of the
  window have distinct physical addresses; without an active block the translation is 0.
\<close>

theorem llcc_pa_offset:
  assumes "tcm_mem l = Some t" "tcm_virt t \<noteq> 0"
  shows "llcc_mem_pa (tcm_virt t + off) l = tcm_phys t + off
    \<and> (llcc_mem_pa a l = llcc_mem_pa b l \<longleftrightarrow> a = b)
    \<and> llcc_mem_pa a (l\<lparr>tcm_mem := None\<rparr>) = 0"
  using assms by (simp add: llcc_mem_pa_def)

definition some_tcm :: tcm_data where
  "some_tcm = \<lparr>tcm_phys = 0x14600000, tcm_virt = 0xf0800000, tcm_size = 0x100000\<rparr>"

theorem llcc_pa_offset_witness:
  "llcc_mem_pa 0xf0800800 \<lparr>tcm_mem = Some some_tcm, tcm_in_use = False\<rparr> = 0x14600800"
  using llcc_pa_offset [of "\<lparr>tcm_mem = Some some_tcm, tcm_in_use = False\<rparr>" some_tcm "0x800"]
  by (simp add: some_tcm_def)

text \<open>
  The block serves one buffer at a time: once an allocation has succeeded, further
  allocations return nothing and change nothing until the buffer is freed. A successful
  allocation returns the block's own window and leaves the block mapped at the returned address
  with the block's size.
\<close>

theorem llcc_alloc_exclusive:
  assumes "llcc_mem_alloc K sz l w = (Some (va, iova), l', w')"
  shows "tcm_in_use l' \<and> \<not> tcm_in_use l
    \<and> (\<exists>t. tcm_mem l' = Some t \<and> tcm_mem l = Some t \<and> va = tcm_virt t \<and> sz \<le> tcm_size t)
    \<and> llcc_mem_alloc K sz2 l' w2 = (None, l', w2)
    \<and> fst (llcc_mem_free K sz va iova l' w2) = l"
  using assms
  by (auto simp: llcc_mem_alloc_def llcc_mem_free_def Let_def split: option.splits prod.splits if_splits)

text \<open>A kernel whose state is the list of mapped bus addresses; every call succeeds.\<close>

definition map_kern :: "dma_addr list kern" where
  "map_kern = \<lparr>kzalloc = (\<lambda>w. (True, w)), dma_get_sgtable = (\<lambda>_ _ _ w. (0, w)),
     dma_map_resource = (\<lambda>p n w. (0x9f000000, 0x9f000000 # w)), dma_mapping_error = (\<lambda>d. d = 0xffffffff),
     dma_unmap_resource = (\<lambda>d n w. remove1 d w), iommu_unmap = (\<lambda>d n w. (n, w)),
     iommu_map = (\<lambda>d p n prot w. (0, w)), dev_is_dma_coherent = False,
     dma_alloc_coherent = (\<lambda>n w. (None, w)), dma_free_coherent = (\<lambda>n v d w. w),
     llcc_tcm_activate = (\<lambda>w. (Some some_tcm, w)), llcc_tcm_deactivate = (\<lambda>t w. w),
     vmalloc_page_phys = (\<lambda>v. v), virt_to_phys = (\<lambda>v. v), debugfs_create = (\<lambda>nm w. (True, w)),
     debugfs_remove_recursive = (\<lambda>w. w)\<rparr>"

theorem llcc_alloc_exclusive_witness:
  "tcm_in_use (fst (snd (llcc_mem_alloc map_kern 4096 \<lparr>tcm_mem = Some some_tcm, tcm_in_use = False\<rparr> [])))"
  using llcc_alloc_exclusive [of map_kern 4096 "\<lparr>tcm_mem = Some some_tcm, tcm_in_use = False\<rparr>" "[]"
      "0xf0800000" "0x9f000000"]
  by (simp add: llcc_mem_alloc_def map_kern_def some_tcm_def)

text \<open>
  A defect of the error path: when the fresh mapping cannot be replaced by a normal-memory
  mapping, \<open>llcc_mem_alloc\<close> hands the physical address of the block, not the bus address it was
  given, to \<open>dma_unmap_resource\<close>. With a kernel that keeps a list of mapped bus addresses the
  mapping is still there after the failed allocation.
\<close>

theorem llcc_alloc_error_leaks_mapping:
  "\<exists>K :: dma_addr list kern. \<exists>l.
     fst (llcc_mem_alloc K 4096 l []) = None
     \<and> snd (snd (llcc_mem_alloc K 4096 l [])) = [0x9f000000]
     \<and> (\<forall>d n w. dma_unmap_resource K d n w = remove1 d w)"
proof (intro exI conjI)
  let ?K = "map_kern\<lparr>iommu_map := (\<lambda>d p n prot w. (- ENOMEM, w))\<rparr>"
  let ?l = "\<lparr>tcm_mem = Some some_tcm, tcm_in_use = False\<rparr>"
  show "fst (llcc_mem_alloc ?K 4096 ?l []) = None"
    by (simp add: llcc_mem_alloc_def map_kern_def some_tcm_def)
  show "snd (snd (llcc_mem_alloc ?K 4096 ?l [])) = [0x9f000000]"
    by (simp add: llcc_mem_alloc_def map_kern_def some_tcm_def)
  show "\<forall>d n w. dma_unmap_resource ?K d n w = remove1 d w" by (simp add: map_kern_def)
qed

end
