(* ===== verification/Ioss_Ipa.thy ===== *)
theory Ioss_Ipa
  imports Ioss_Mem
begin

text \<open>
  Registration with the IPA driver (\<^verbatim>\<open>ioss/ioss_ipa.c\<close>, \<^verbatim>\<open>ioss/ioss_ipa_hal.c\<close>, built for
  \<^verbatim>\<open>IPA_ETH_API_VER >= 2\<close>): describing each channel as a pipe, checking the description before the
  pipes are connected, connecting, voting for bandwidth and registering the interface.

  The IPA driver is the parameter \<open>ipa_api\<close>. \<open>conn_pipes\<close> receives the pipes in channel order and
  answers with a doorbell address, a doorbell value and a handle for the pipe at each position.
\<close>

unbundle bit_operations_syntax

section \<open>Module parameters and the IPA driver\<close>

record ipa_params =
  skip_conn_pipes :: bool
  skip_ipa_register :: bool
  fix_high_iova :: bool
  iova_ceiling :: u32
  preflight_strict :: bool
  preflight_only :: bool
  trb_align :: u32
  buff_iova_align :: u32

definition ipa_params_default :: ipa_params where
  "ipa_params_default = \<lparr>skip_conn_pipes = False, skip_ipa_register = False, fix_high_iova = True,
     iova_ceiling = 0x9fffffff, preflight_strict = True, preflight_only = False, trb_align = 0x8000,
     buff_iova_align = 0x800\<rparr>"

record 'w ipa_api =
  conn_pipes :: "pipe_info list \<Rightarrow> 'w \<Rightarrow> int \<times> (nat \<Rightarrow> phys_addr \<times> u32 \<times> u32) \<times> 'w"
  disconn_pipes :: "'w \<Rightarrow> int \<times> 'w"
  set_perf_profile :: "u32 \<Rightarrow> 'w \<Rightarrow> int \<times> 'w"
  reg_intf :: "'w \<Rightarrow> int \<times> 'w"
  unreg_intf :: "'w \<Rightarrow> int \<times> 'w"

section \<open>Hardware abstraction\<close>

datatype client_type = RTK8125B | AQC107 | NTN3

definition match_r8125 :: "pci_ident \<Rightarrow> bool" where
  "match_r8125 d \<longleftrightarrow> on_pci_bus d \<and> pci_driver_name d = ''r8125''"

definition match_aqc :: "pci_ident \<Rightarrow> bool" where
  "match_aqc d \<longleftrightarrow> on_pci_bus d \<and> pci_driver_name d = ''atlantic-fwd''"

definition match_ntn3 :: "pci_ident \<Rightarrow> bool" where
  "match_ntn3 d \<longleftrightarrow> on_pci_bus d \<and> pci_driver_name d = ''tc956x_pci-eth''"

text \<open>
  The table scan. The three matchers compare the driver name with different constants, so the
  order of the table does not matter; \<^const>\<open>None\<close> is \<^verbatim>\<open>IPA_ETH_CLIENT_MAX\<close>.
\<close>

definition ioss_ipa_hal_get_ctype :: "pci_ident \<Rightarrow> client_type option" where
  "ioss_ipa_hal_get_ctype d =
     (if match_r8125 d then Some RTK8125B else if match_aqc d then Some AQC107
      else if match_ntn3 d then Some NTN3 else None)"

definition fill_r8125_si :: "pci_ident \<Rightarrow> 'r ioss_channel \<Rightarrow> hal_info \<Rightarrow> hal_info" where
  "fill_r8125_si d ch h = h\<lparr>hal_bar_addr := bar_start d 2, hal_bar_size := bar_len d 2, hal_queue := ch_id ch,
     hal_tail_offs := (if direction ch = CH_DIR_TX then 0x2800 + word_of_int (ch_id ch) * 4 else hal_tail_offs h)\<rparr>"

definition fill_aqc_si :: "pci_ident \<Rightarrow> 'r ioss_channel \<Rightarrow> hal_info \<Rightarrow> hal_info" where
  "fill_aqc_si d ch h = h\<lparr>hal_bar_addr := bar_start d 0, hal_queue := ch_id ch,
     hal_head_offs := (if direction ch = CH_DIR_TX then 0x7C0C + word_of_int (ch_id ch) * 0x40
                       else 0x5B0C + word_of_int (ch_id ch) * 0x20),
     hal_tail_offs := (if direction ch = CH_DIR_TX then 0x7C10 + word_of_int (ch_id ch) * 0x40
                       else 0x5B10 + word_of_int (ch_id ch) * 0x20)\<rparr>"

definition fill_ntn3_si :: "pci_ident \<Rightarrow> 'r ioss_channel \<Rightarrow> hal_info \<Rightarrow> hal_info" where
  "fill_ntn3_si d ch h = h\<lparr>hal_bar_addr := bar_start d 4, hal_tail_offs := tail_ptr_addr ch\<rparr>"

definition ioss_ipa_hal_fill_si :: "pci_ident \<Rightarrow> 'r ioss_channel \<Rightarrow> int \<times> 'r ioss_channel" where
  "ioss_ipa_hal_fill_si d ch =
     (case ioss_ipa_hal_get_ctype d of
        None \<Rightarrow> (- EINVAL, ch)
      | Some t \<Rightarrow>
          let fill = (case t of RTK8125B \<Rightarrow> fill_r8125_si | AQC107 \<Rightarrow> fill_aqc_si | NTN3 \<Rightarrow> fill_ntn3_si)
          in (0, ch\<lparr>ipa_pi := (ipa_pi ch)\<lparr>pi_hal := fill d ch (pi_hal (ipa_pi ch))\<rparr>\<rparr>))"

section \<open>Preflight\<close>

text \<open>
  The loop over the data buffers: the first entry that fails decides the return code; \<open>rc\<close> is the
  code so far. Alignment of a buffer and powers of two only produce warnings.
\<close>

primrec preflight_buffs ::
  "ipa_params \<Rightarrow> dma_addr \<Rightarrow> dma_addr \<Rightarrow> u32 \<Rightarrow> (dma_addr \<times> phys_addr) list \<Rightarrow> int \<Rightarrow> int" where
  "preflight_buffs P base trb_end bsz [] rc = rc"
| "preflight_buffs P base trb_end bsz (b # bs) rc =
     (case b of (iova, pa) \<Rightarrow>
        if iova = 0 \<or> pa = 0 then - EINVAL
        else if iova > iova_ceiling P then - ERANGE
        else if \<not> (iova + bsz \<le> base \<or> iova \<ge> trb_end) then - EINVAL
        else preflight_buffs P base trb_end bsz bs rc)"

definition ioss_ipa_preflight_pipe :: "ipa_params \<Rightarrow> pipe_info \<Rightarrow> int" where
  "ioss_ipa_preflight_pipe P p =
     (if \<not> pi_ring_valid p then - EINVAL
      else if pi_ring_base p = 0 \<or> pi_ring_size p = 0 then - EINVAL
      else
        let rc = (if trb_align P \<noteq> 0 \<and> pi_ring_base p AND (trb_align P - 1) \<noteq> 0 then - EINVAL else 0) in
        (case pi_buff_list p of
           None \<Rightarrow> - EINVAL
         | Some bs \<Rightarrow>
             if pi_buff_count p = 0 \<or> pi_buff_size p = 0 then - EINVAL
             else preflight_buffs P (pi_ring_base p) (pi_ring_base p + pi_ring_size p) (pi_buff_size p)
                    (take (unat (pi_buff_count p)) bs) rc))"

text \<open>The loop over the channels: last failing code, number of transmit and of receive pipes.\<close>

primrec preflight_channels :: "ipa_params \<Rightarrow> 'r ioss_channel list \<Rightarrow> int \<Rightarrow> nat \<Rightarrow> nat \<Rightarrow> int \<times> nat \<times> nat" where
  "preflight_channels P [] rc tx rx = (rc, tx, rx)"
| "preflight_channels P (ch # chs) rc tx rx =
     (let prc = ioss_ipa_preflight_pipe P (ipa_pi ch);
          tx = (if pi_dir (ipa_pi ch) = PIPE_DIR_TX then tx + 1 else tx);
          rx = (if pi_dir (ipa_pi ch) = PIPE_DIR_RX then rx + 1 else rx)
      in preflight_channels P chs (if prc \<noteq> 0 then prc else rc) tx rx)"

definition ioss_ipa_preflight_client :: "ipa_params \<Rightarrow> 'r ioss_channel list \<Rightarrow> int" where
  "ioss_ipa_preflight_client P chs =
     (case preflight_channels P chs 0 0 0 of (rc, tx, rx) \<Rightarrow>
        if (tx = 0 \<or> rx = 0) \<and> rc = 0 then - EINVAL else rc)"

section \<open>Exception path\<close>

datatype dp_evt = IPA_RECEIVE | IPA_WRITE_DONE

text \<open>\<open>dropped\<close> is the answer of \<^verbatim>\<open>netif_rx_ni\<close> for the packet.\<close>

definition ioss_ipa_notify_cb :: "dp_evt \<Rightarrow> u64 \<Rightarrow> bool \<Rightarrow> 'r ioss_interface \<Rightarrow> 'r ioss_interface" where
  "ioss_ipa_notify_cb evt len dropped i =
     (if evt \<noteq> IPA_RECEIVE then i
      else i\<lparr>exc_rx_packets := exc_rx_packets i + 1, exc_rx_bytes := exc_rx_bytes i + len,
             exc_rx_drops := (if dropped then exc_rx_drops i + 1 else exc_rx_drops i)\<rparr>)"

section \<open>Describing a channel as a pipe\<close>

abbreviation PAGE_OFFSET :: u32 where "PAGE_OFFSET \<equiv> 0xB0000000"

definition remap_iova :: "ipa_params \<Rightarrow> dma_addr \<Rightarrow> phys_addr \<Rightarrow> dma_addr" where
  "remap_iova P iova pa =
     (if fix_high_iova P \<and> iova > iova_ceiling P then
        let r = iova AND iova_ceiling P in (if r = 0 \<or> r > iova_ceiling P then pa else r)
      else iova)"

definition buff_pa :: "'w kern \<Rightarrow> llcc_state \<Rightarrow> alctr \<Rightarrow> ioss_mem \<Rightarrow> phys_addr" where
  "buff_pa K l a b =
     (let pa = alctr_pa K a (im_addr b) l in if pa \<ge> PAGE_OFFSET then virt_to_phys K (im_addr b) else pa)"

text \<open>The loop over \<^verbatim>\<open>ch->buff_mem\<close>: an error code, or the entries built. \<open>n\<close> is the list size.\<close>

primrec build_buffs ::
  "ipa_params \<Rightarrow> 'w kern \<Rightarrow> llcc_state \<Rightarrow> alctr option \<Rightarrow> nat \<Rightarrow> ioss_mem list \<Rightarrow> (dma_addr \<times> phys_addr) list \<Rightarrow>
   (int + (dma_addr \<times> phys_addr) list) option" where
  "build_buffs P K l a n [] acc = Some (Inr acc)"
| "build_buffs P K l a n (b # bs) acc =
     (if length acc \<ge> n then Some (Inl (- EOVERFLOW))
      else (case a of
              None \<Rightarrow> None
            | Some al \<Rightarrow>
                let pa = buff_pa K l al b; iova = remap_iova P (im_daddr b) pa in
                if pa = 0 then Some (Inl (- EINVAL))
                else if iova > iova_ceiling P then Some (Inl (- ERANGE))
                else build_buffs P K l a n bs (acc @ [(iova, pa)])))"

text \<open>
  \<open>ioss_ipa_fill_pipe_info\<close>, on \<open>ch\<close> with its own \<open>ipa_pi\<close>. The last error exit frees the list
  but keeps the pointer: \<open>pi_buff_list\<close> is then not NULL and dangling.
\<close>

definition fill_data_bufs ::
  "ipa_params \<Rightarrow> 'w kern \<Rightarrow> llcc_state \<Rightarrow> pci_ident \<Rightarrow> 'r ioss_channel \<Rightarrow> (int \<times> 'r ioss_channel) option" where
  "fill_data_bufs P K l d ch =
     (let n = ring_size (config ch) in
      case build_buffs P K l (buff_alctr (config ch)) (unat n) (buff_mem ch) [] of
        None \<Rightarrow> None
      | Some (Inl rc) \<Rightarrow> Some (rc, ch\<lparr>ipa_pi := (ipa_pi ch)\<lparr>pi_buff_list := None\<rparr>\<rparr>)
      | Some (Inr bs) \<Rightarrow>
          let ch = ch\<lparr>ipa_pi := (ipa_pi ch)\<lparr>pi_buff_list := Some bs, pi_buff_count := word_of_nat (length bs),
                pi_notify := (if pi_dir (ipa_pi ch) = PIPE_DIR_RX then True else pi_notify (ipa_pi ch))\<rparr>\<rparr>
          in (case ioss_ipa_hal_fill_si d ch of (rc, ch) \<Rightarrow> Some (if rc \<noteq> 0 then - EINVAL else 0, ch)))"

definition ioss_ipa_fill_pipe_info ::
  "ipa_params \<Rightarrow> 'w kern \<Rightarrow> llcc_state \<Rightarrow> pci_ident \<Rightarrow> 'r ioss_channel \<Rightarrow> 'w \<Rightarrow>
   (int \<times> 'r ioss_channel \<times> 'w) option" where
  "ioss_ipa_fill_pipe_info P K l d ch w =
     (let ch = ch\<lparr>ipa_pi := (ipa_pi ch)\<lparr>pi_dir := (if direction ch = CH_DIR_TX then PIPE_DIR_TX else PIPE_DIR_RX)\<rparr>\<rparr> in
      case desc_mem ch of
        [] \<Rightarrow> Some (- EINVAL, ch, w)
      | dm # _ \<Rightarrow>
          let ch = ch\<lparr>ipa_pi := (ipa_pi ch)\<lparr>pi_ring_valid := True\<rparr>\<rparr> in
          (case desc_alctr (config ch) of
             None \<Rightarrow> None
           | Some da \<Rightarrow>
               let desc_pa = alctr_pa K da (im_addr dm) l;
                   desc_iova = remap_iova P (im_daddr dm) desc_pa in
               if desc_pa = 0 then Some (- EINVAL, ch, w)
               else if desc_iova > iova_ceiling P then Some (- ERANGE, ch, w)
               else
                 let ch = ch\<lparr>ipa_pi := (ipa_pi ch)\<lparr>pi_ring_base := desc_iova, pi_ring_size := im_size dm,
                           pi_buff_count := ring_size (config ch)\<rparr>\<rparr>
                 in (case kzalloc K w of (ok, w) \<Rightarrow>
                       if \<not> ok then Some (- EINVAL, ch\<lparr>ipa_pi := (ipa_pi ch)\<lparr>pi_buff_list := None\<rparr>\<rparr>, w)
                       else
                         let ch = ch\<lparr>ipa_pi := (ipa_pi ch)\<lparr>pi_buff_size := buff_size (config ch)\<rparr>\<rparr>
                         in (case fill_data_bufs P K l d ch of
                               None \<Rightarrow> None
                             | Some (rc, ch) \<Rightarrow> Some (rc, ch, w)))))"

section \<open>Register and unregister\<close>

definition ioss_ipa_vote_bw :: "'w ipa_api \<Rightarrow> 'r ioss_interface \<Rightarrow> 'w \<Rightarrow> int \<times> 'w" where
  "ioss_ipa_vote_bw A i w =
     (case set_perf_profile A (link_speed i) w of (rc, w) \<Rightarrow> (if rc \<noteq> 0 then - EINVAL else 0, w))"

text \<open>The first loop of \<open>ioss_ipa_register\<close>: stops at the first channel that cannot be described.\<close>

primrec fill_pipes ::
  "ipa_params \<Rightarrow> 'w kern \<Rightarrow> llcc_state \<Rightarrow> pci_ident \<Rightarrow> 'r ioss_channel list \<Rightarrow> 'w \<Rightarrow>
   (bool \<times> 'r ioss_channel list \<times> 'w) option" where
  "fill_pipes P K l d [] w = Some (True, [], w)"
| "fill_pipes P K l d (ch # chs) w =
     do {
       (rc, ch, w) \<leftarrow> ioss_ipa_fill_pipe_info P K l d (ch\<lparr>ipa_pi := (ipa_pi ch)\<lparr>pi_client := True\<rparr>\<rparr>) w;
       if rc \<noteq> 0 then Some (False, ch # chs, w)
       else do {
         (ok, chs, w) \<leftarrow> fill_pipes P K l d chs w;
         Some (ok, ch # chs, w)
       }
     }"

definition free_pipe :: "'r ioss_channel \<Rightarrow> 'r ioss_channel" where
  "free_pipe ch = ch\<lparr>ipa_pi := pipe_zero\<rparr>"

definition clear_doorbell :: "'r ioss_channel \<Rightarrow> 'r ioss_channel" where
  "clear_doorbell ch = ch\<lparr>event := (event ch)\<lparr>ev_paddr := 0, ev_data := 0\<rparr>\<rparr>"

definition set_output :: "'r ioss_channel \<Rightarrow> phys_addr \<times> u32 \<times> u32 \<Rightarrow> 'r ioss_channel" where
  "set_output ch out =
     (case out of (pa, val, hdl) \<Rightarrow> ch\<lparr>ipa_pi := (ipa_pi ch)\<lparr>pi_db_pa := pa, pi_db_val := val, pi_hdl := hdl\<rparr>\<rparr>)"

primrec set_outputs ::
  "nat \<Rightarrow> (nat \<Rightarrow> phys_addr \<times> u32 \<times> u32) \<Rightarrow> 'r ioss_channel list \<Rightarrow> 'r ioss_channel list" where
  "set_outputs n outs [] = []"
| "set_outputs n outs (ch # chs) = set_output ch (outs n) # set_outputs (Suc n) outs chs"

definition take_doorbell :: "'r ioss_channel \<Rightarrow> 'r ioss_channel" where
  "take_doorbell ch = ch\<lparr>event := (event ch)\<lparr>ev_paddr := pi_db_pa (ipa_pi ch), ev_data := ucast (pi_db_val (ipa_pi ch))\<rparr>\<rparr>"

text \<open>From \<^verbatim>\<open>ipa_eth_client_conn_pipes\<close> on: connect, vote, fetch the doorbells, register.\<close>

definition ipa_connect ::
  "'w ipa_api \<Rightarrow> 'r ioss_interface \<Rightarrow> 'w \<Rightarrow> int \<times> 'r ioss_interface \<times> 'w" where
  "ipa_connect A i w =
     (case conn_pipes A (map ipa_pi (channels i)) w of (rc, outs, w) \<Rightarrow>
        if rc \<noteq> 0 then (- EINVAL, i\<lparr>channels := map free_pipe (channels i)\<rparr>, w)
        else
          let i = i\<lparr>channels := set_outputs 0 outs (channels i)\<rparr> in
          (case ioss_ipa_vote_bw A i w of (rc, w) \<Rightarrow>
             if rc \<noteq> 0 then
               (- EINVAL, i\<lparr>channels := map free_pipe (channels i)\<rparr>, snd (disconn_pipes A w))
             else
               let i = i\<lparr>channels := map take_doorbell (channels i)\<rparr> in
               (case reg_intf A w of (rc, w) \<Rightarrow>
                  if rc \<noteq> 0 then
                    (- EINVAL, i\<lparr>channels := map (free_pipe \<circ> clear_doorbell) (channels i)\<rparr>,
                     snd (disconn_pipes A w))
                  else (0, i, w))))"

definition ioss_ipa_register ::
  "ipa_params \<Rightarrow> 'w kern \<Rightarrow> 'w ipa_api \<Rightarrow> llcc_state \<Rightarrow> pci_ident \<Rightarrow> 'r ioss_interface \<Rightarrow> 'w \<Rightarrow>
   (int \<times> 'r ioss_interface \<times> 'w) option" where
  "ioss_ipa_register P K A l d i w =
     (if skip_ipa_register P then Some (0, i, w)
      else if ioss_ipa_hal_get_ctype d = None then Some (- EFAULT, i, w)
      else do {
        (ok, chs, w) \<leftarrow> fill_pipes P K l d (channels i) w;
        let i = i\<lparr>channels := chs\<rparr>;
        if \<not> ok then Some (- EINVAL, i, w)
        else
          let rc = ioss_ipa_preflight_client P chs;
              fail = Some (- EINVAL, i\<lparr>channels := map free_pipe chs\<rparr>, w) in
          if rc \<noteq> 0 \<and> preflight_strict P then fail
          else if preflight_only P then fail
          else if skip_conn_pipes P then fail
          else Some (ipa_connect A i w)
      })"

definition ioss_ipa_unregister ::
  "ipa_params \<Rightarrow> 'w ipa_api \<Rightarrow> 'r ioss_interface \<Rightarrow> 'w \<Rightarrow> int \<times> 'r ioss_interface \<times> 'w" where
  "ioss_ipa_unregister P A i w =
     (if skip_ipa_register P then (0, i, w)
      else (case disconn_pipes A w of (rc, w) \<Rightarrow>
              if rc \<noteq> 0 then (rc, i, w)
              else (case unreg_intf A w of (rc, w) \<Rightarrow>
                      if rc \<noteq> 0 then (rc, i, w)
                      else (0, i\<lparr>channels := map (free_pipe \<circ> clear_doorbell) (channels i)\<rparr>, w))))"

section \<open>Lemmas\<close>

subsection \<open>Preflight\<close>

lemma preflight_buffs_zero:
  "preflight_buffs P base trb_end bsz bs rc = 0 \<longleftrightarrow>
     rc = 0 \<and> (\<forall>(iova, pa) \<in> set bs. iova \<noteq> 0 \<and> pa \<noteq> 0 \<and> iova \<le> iova_ceiling P
                  \<and> (iova + bsz \<le> base \<or> trb_end \<le> iova))"
  by (induction bs) (auto simp: not_less split: prod.splits)

lemma ivl_disjoint:
  fixes a b n k :: nat
  assumes "0 < n" "0 < k"
  shows "(a + n \<le> b \<or> b + k \<le> a) \<longleftrightarrow> {a ..< a + n} \<inter> {b ..< b + k} = {}"
proof
  assume *: "{a ..< a + n} \<inter> {b ..< b + k} = {}"
  have "max a b \<notin> {a ..< a + n} \<inter> {b ..< b + k}" unfolding * by simp
  with assms show "a + n \<le> b \<or> b + k \<le> a" by (auto simp: max_def split: if_splits)
qed auto

lemma word_interval_disjoint:
  fixes a b n k :: u32
  assumes "unat a + unat n < 2 ^ 32" "unat b + unat k < 2 ^ 32" "n \<noteq> 0" "k \<noteq> 0"
  shows "(a + n \<le> b \<or> b + k \<le> a) \<longleftrightarrow>
    {unat a ..< unat a + unat n} \<inter> {unat b ..< unat b + unat k} = {}"
proof -
  have an: "unat (a + n) = unat a + unat n" and bk: "unat (b + k) = unat b + unat k"
    using assms(1,2) unat_add_lem [of a n] unat_add_lem [of b k] by simp_all
  have "0 < unat n" "0 < unat k" using assms(3,4) by (simp_all add: unat_gt_0)
  then have "unat a + unat n \<le> unat b \<or> unat b + unat k \<le> unat a \<longleftrightarrow>
    {unat a ..< unat a + unat n} \<inter> {unat b ..< unat b + unat k} = {}"
    by (simp add: ivl_disjoint)
  then show ?thesis by (simp add: word_le_nat_alt an bk)
qed

text \<open>
  C7. What the preflight accepts: the ring and the buffer list are present and not empty, the
  ring base has the configured alignment, and every listed buffer has non-zero addresses, starts
  at or below the ceiling and does not share a byte with the transfer ring. Exactly such pipes
  are accepted, provided neither the ring nor a buffer below the ceiling wraps around the 32-bit
  address space.
\<close>

theorem preflight_pipe_iff:
  assumes "unat (pi_ring_base p) + unat (pi_ring_size p) < 2 ^ 32"
    and "unat (iova_ceiling P) + unat (pi_buff_size p) < 2 ^ 32"
  shows "ioss_ipa_preflight_pipe P p = 0 \<longleftrightarrow>
    pi_ring_valid p \<and> pi_ring_base p \<noteq> 0 \<and> pi_ring_size p \<noteq> 0
    \<and> (trb_align P = 0 \<or> pi_ring_base p AND (trb_align P - 1) = 0)
    \<and> pi_buff_count p \<noteq> 0 \<and> pi_buff_size p \<noteq> 0
    \<and> (\<exists>bs. pi_buff_list p = Some bs
         \<and> (\<forall>(iova, pa) \<in> set (take (unat (pi_buff_count p)) bs).
              iova \<noteq> 0 \<and> pa \<noteq> 0 \<and> iova \<le> iova_ceiling P
              \<and> {unat iova ..< unat iova + unat (pi_buff_size p)}
                \<inter> {unat (pi_ring_base p) ..< unat (pi_ring_base p) + unat (pi_ring_size p)} = {}))"
proof -
  have dis: "(iova + pi_buff_size p \<le> pi_ring_base p \<or> pi_ring_base p + pi_ring_size p \<le> iova) \<longleftrightarrow>
      {unat iova ..< unat iova + unat (pi_buff_size p)}
        \<inter> {unat (pi_ring_base p) ..< unat (pi_ring_base p) + unat (pi_ring_size p)} = {}"
    if "iova \<le> iova_ceiling P" "pi_ring_size p \<noteq> 0" "pi_buff_size p \<noteq> 0" for iova
    by (rule word_interval_disjoint) (use that assms in \<open>auto simp: word_le_nat_alt\<close>)
  have all: "(\<forall>(iova, pa) \<in> set bs. iova \<noteq> 0 \<and> pa \<noteq> 0 \<and> iova \<le> iova_ceiling P
        \<and> (iova + pi_buff_size p \<le> pi_ring_base p \<or> pi_ring_base p + pi_ring_size p \<le> iova)) \<longleftrightarrow>
      (\<forall>(iova, pa) \<in> set bs. iova \<noteq> 0 \<and> pa \<noteq> 0 \<and> iova \<le> iova_ceiling P
        \<and> {unat iova ..< unat iova + unat (pi_buff_size p)}
          \<inter> {unat (pi_ring_base p) ..< unat (pi_ring_base p) + unat (pi_ring_size p)} = {})"
    if "pi_ring_size p \<noteq> 0" "pi_buff_size p \<noteq> 0" for bs
    using that dis by (intro ball_cong refl) (simp split: prod.split, metis)
  show ?thesis
    by (cases "pi_buff_list p"; cases "pi_ring_size p = 0"; cases "pi_buff_size p = 0")
      (simp_all add: ioss_ipa_preflight_pipe_def preflight_buffs_zero all Let_def)
qed

definition demo_pipe :: pipe_info where
  "demo_pipe = pipe_zero\<lparr>pi_ring_valid := True, pi_ring_base := 0x90000000, pi_ring_size := 0x1000,
     pi_buff_list := Some [(0x90001000, 0x80001000), (0x8ffff800, 0x80002000)], pi_buff_count := 2,
     pi_buff_size := 0x800\<rparr>"

theorem preflight_pipe_iff_witness:
  "ioss_ipa_preflight_pipe ipa_params_default demo_pipe = 0
   \<and> ioss_ipa_preflight_pipe ipa_params_default (demo_pipe\<lparr>pi_buff_list := Some [(0x8ffff801, 0x80002000)]\<rparr>) \<noteq> 0"
  using preflight_pipe_iff [of demo_pipe ipa_params_default]
    preflight_pipe_iff [of "demo_pipe\<lparr>pi_buff_list := Some [(0x8ffff801, 0x80002000)]\<rparr>" ipa_params_default]
  by (simp add: demo_pipe_def ipa_params_default_def pipe_zero_def)

subsection \<open>Pipe descriptions\<close>

text \<open>The entry the code writes for a buffer.\<close>

definition buff_entry :: "ipa_params \<Rightarrow> 'w kern \<Rightarrow> llcc_state \<Rightarrow> alctr \<Rightarrow> ioss_mem \<Rightarrow> dma_addr \<times> phys_addr" where
  "buff_entry P K l a b = (remap_iova P (im_daddr b) (buff_pa K l a b), buff_pa K l a b)"

definition entry_ok :: "ipa_params \<Rightarrow> dma_addr \<times> phys_addr \<Rightarrow> bool" where
  "entry_ok P e \<longleftrightarrow> fst e \<le> iova_ceiling P \<and> snd e \<noteq> 0"

lemma build_buffs_Cons:
  "build_buffs P K l (Some a) n (b # bs) acc =
     (if length acc \<ge> n then Some (Inl (- EOVERFLOW))
      else if buff_pa K l a b = 0 then Some (Inl (- EINVAL))
      else if fst (buff_entry P K l a b) > iova_ceiling P then Some (Inl (- ERANGE))
      else build_buffs P K l (Some a) n bs (acc @ [buff_entry P K l a b]))"
  by (simp add: Let_def buff_entry_def)

lemma build_buffs_ok:
  assumes "build_buffs P K l (Some a) n bs acc = Some (Inr res)" "length acc \<le> n"
  shows "length acc + length bs \<le> n \<and> res = acc @ map (buff_entry P K l a) bs
     \<and> (\<forall>b \<in> set bs. entry_ok P (buff_entry P K l a b))"
  using assms
proof (induction bs arbitrary: acc)
  case (Cons b bs)
  from Cons.prems(1) have g: "length acc < n" "buff_pa K l a b \<noteq> 0"
      "fst (buff_entry P K l a b) \<le> iova_ceiling P"
      and r: "build_buffs P K l (Some a) n bs (acc @ [buff_entry P K l a b]) = Some (Inr res)"
    unfolding build_buffs_Cons by (simp_all split: if_splits)
  have "entry_ok P (buff_entry P K l a b)" using g by (simp add: entry_ok_def buff_entry_def)
  with Cons.IH [OF r] g(1) show ?case by simp
qed simp

lemma build_buffs_total: "\<exists>r. build_buffs P K l (Some a) n bs acc = Some r"
proof (induction bs arbitrary: acc)
  case (Cons b bs)
  then show ?case unfolding build_buffs_Cons by simp
qed simp

lemma build_buffs_Inl: "build_buffs P K l a n bs acc = Some (Inl e) \<Longrightarrow> e < 0"
proof (induction bs arbitrary: acc)
  case (Cons b bs)
  then show ?case by (cases a) (auto simp: Let_def split: if_splits)
qed simp

lemma build_buffs_None:
  "build_buffs P K l None n bs acc = Some (Inr res) \<Longrightarrow> bs = [] \<and> res = acc"
  by (cases bs) (auto split: if_splits)

text \<open>
  What a successful description contains, and what of the channel it leaves alone.
\<close>

definition pipe_describes ::
  "ipa_params \<Rightarrow> 'w kern \<Rightarrow> llcc_state \<Rightarrow> 'r ioss_channel \<Rightarrow> pipe_info \<Rightarrow> bool" where
  "pipe_describes P K l ch p \<longleftrightarrow>
     (\<exists>dm rest da. desc_mem ch = dm # rest \<and> desc_alctr (config ch) = Some da
        \<and> pi_ring_base p = remap_iova P (im_daddr dm) (alctr_pa K da (im_addr dm) l)
        \<and> pi_ring_base p \<le> iova_ceiling P \<and> pi_ring_size p = im_size dm)
     \<and> pi_ring_valid p \<and> pi_buff_size p = buff_size (config ch)
     \<and> pi_dir p = (if direction ch = CH_DIR_TX then PIPE_DIR_TX else PIPE_DIR_RX)
     \<and> length (buff_mem ch) \<le> unat (ring_size (config ch))
     \<and> (\<exists>bs. pi_buff_list p = Some bs \<and> length bs = length (buff_mem ch)
          \<and> unat (pi_buff_count p) = length bs
          \<and> (buff_mem ch = [] \<or>
             (\<exists>ba. buff_alctr (config ch) = Some ba \<and> bs = map (buff_entry P K l ba) (buff_mem ch)))
          \<and> (\<forall>e \<in> set bs. entry_ok P e))"

definition same_but_pipe :: "'r ioss_channel \<Rightarrow> 'r ioss_channel \<Rightarrow> bool" where
  "same_but_pipe ch ch' \<longleftrightarrow> ch' = ch\<lparr>ipa_pi := ipa_pi ch'\<rparr>"

lemma same_but_pipe_upd [simp]: "same_but_pipe (ch\<lparr>ipa_pi := p\<rparr>) ch' = same_but_pipe ch ch'"
  by (simp add: same_but_pipe_def)

lemma hal_fill_si_frame:
  assumes "ioss_ipa_hal_fill_si d ch = (rc, ch')"
  shows "same_but_pipe ch ch' \<and> (\<exists>h. ipa_pi ch' = (ipa_pi ch)\<lparr>pi_hal := h\<rparr>)
    \<and> (rc = 0 \<longleftrightarrow> ioss_ipa_hal_get_ctype d \<noteq> None)"
proof (cases "ioss_ipa_hal_get_ctype d")
  case None
  have "ipa_pi ch = (ipa_pi ch)\<lparr>pi_hal := pi_hal (ipa_pi ch)\<rparr>" by simp
  then have "\<exists>h. ipa_pi ch = (ipa_pi ch)\<lparr>pi_hal := h\<rparr>" by (rule exI)
  with None assms show ?thesis by (simp add: ioss_ipa_hal_fill_si_def same_but_pipe_def)
next
  case (Some t)
  with assms show ?thesis by (auto simp: ioss_ipa_hal_fill_si_def same_but_pipe_def Let_def)
qed

lemma build_buffs_entries:
  assumes "build_buffs P K l a (unat (n :: u32)) bs [] = Some (Inr res)"
  shows "length bs \<le> unat n \<and> length res = length bs \<and> unat (word_of_nat (length res) :: u32) = length res
    \<and> (bs = [] \<or> (\<exists>ba. a = Some ba \<and> res = map (buff_entry P K l ba) bs))
    \<and> (\<forall>e \<in> set res. entry_ok P e)"
proof (cases a)
  case None
  with build_buffs_None [of P K l "unat n" bs "[]" res] assms show ?thesis by simp
next
  case (Some ba)
  with build_buffs_ok [of P K l ba "unat n" bs "[]" res] assms have
    "length bs \<le> unat n" "res = map (buff_entry P K l ba) bs" "\<forall>b \<in> set bs. entry_ok P (buff_entry P K l ba b)"
    by auto
  moreover from this(1) have "length bs < 2 ^ LENGTH(32)" by (rule le_less_trans) (rule unsigned_less)
  ultimately show ?thesis using Some by (simp add: unat_of_nat)
qed

lemma fill_data_bufs_ok:
  assumes "fill_data_bufs P K l d ch = Some (0, ch')"
  shows "same_but_pipe ch ch' \<and> length (buff_mem ch) \<le> unat (ring_size (config ch))
    \<and> (\<exists>bs h nt. ipa_pi ch' = (ipa_pi ch)\<lparr>pi_buff_list := Some bs, pi_buff_count := word_of_nat (length bs),
           pi_notify := nt, pi_hal := h\<rparr> \<and> length bs = length (buff_mem ch)
          \<and> unat (word_of_nat (length bs) :: u32) = length bs
          \<and> (buff_mem ch = [] \<or>
             (\<exists>ba. buff_alctr (config ch) = Some ba \<and> bs = map (buff_entry P K l ba) (buff_mem ch)))
          \<and> (\<forall>e \<in> set bs. entry_ok P e))"
proof (cases "build_buffs P K l (buff_alctr (config ch)) (unat (ring_size (config ch))) (buff_mem ch) []")
  case (Some r)
  show ?thesis
  proof (cases r)
    case (Inl e)
    from assms Some Inl have "e = 0" by (simp add: fill_data_bufs_def Let_def)
    moreover have "e \<noteq> 0" using build_buffs_Inl [OF Some [unfolded Inl]] by simp
    ultimately show ?thesis by simp
  next
    case (Inr bs)
    let ?nt = "if pi_dir (ipa_pi ch) = PIPE_DIR_RX then True else pi_notify (ipa_pi ch)"
    let ?ch = "ch\<lparr>ipa_pi := (ipa_pi ch)\<lparr>pi_buff_list := Some bs, pi_buff_count := word_of_nat (length bs),
                pi_notify := ?nt\<rparr>\<rparr>"
    obtain rc ch2 where h: "ioss_ipa_hal_fill_si d ?ch = (rc, ch2)" by fastforce
    from assms Some Inr h have ch': "ch' = ch2" by (simp add: fill_data_bufs_def Let_def)
    from hal_fill_si_frame [OF h] ch' obtain hh where fr: "same_but_pipe ?ch ch'"
      and pi: "ipa_pi ch' = (ipa_pi ch)\<lparr>pi_buff_list := Some bs, pi_buff_count := word_of_nat (length bs),
                pi_notify := ?nt, pi_hal := hh\<rparr>" by auto
    from fr have "same_but_pipe ch ch'" by simp
    moreover note build_buffs_entries [OF Some [unfolded Inr]]
    ultimately show ?thesis using pi by blast
  qed
qed (use assms in \<open>simp add: fill_data_bufs_def Let_def\<close>)

lemma fill_pipe_info_ok:
  assumes "ioss_ipa_fill_pipe_info P K l d ch w = Some (0, ch', w')"
  shows "same_but_pipe ch ch' \<and> pipe_describes P K l ch (ipa_pi ch')"
proof -
  let ?dir = "if direction ch = CH_DIR_TX then PIPE_DIR_TX else PIPE_DIR_RX"
  from assms obtain dm rest where dm: "desc_mem ch = dm # rest"
    by (cases "desc_mem ch") (auto simp: ioss_ipa_fill_pipe_info_def Let_def)
  from assms dm obtain da where da: "desc_alctr (config ch) = Some da"
    by (cases "desc_alctr (config ch)") (auto simp: ioss_ipa_fill_pipe_info_def Let_def)
  let ?pa = "alctr_pa K da (im_addr dm) l"
  let ?iova = "remap_iova P (im_daddr dm) ?pa"
  let ?ch = "ch\<lparr>ipa_pi := (ipa_pi ch)\<lparr>pi_dir := ?dir, pi_ring_valid := True, pi_ring_base := ?iova,
    pi_ring_size := im_size dm, pi_buff_count := ring_size (config ch), pi_buff_size := buff_size (config ch)\<rparr>\<rparr>"
  obtain ok w1 where kz: "kzalloc K w = (ok, w1)" by fastforce
  have le: "?iova \<le> iova_ceiling P" and fd: "fill_data_bufs P K l d ?ch = Some (0, ch')"
    using assms dm da kz
    by (simp_all add: ioss_ipa_fill_pipe_info_def Let_def split: if_splits option.splits prod.splits)
  have fields: "buff_mem ?ch = buff_mem ch" "config ?ch = config ch" by simp_all
  from fill_data_bufs_ok [OF fd, unfolded fields] obtain bs h nt where
      bf: "same_but_pipe ?ch ch'" "length (buff_mem ch) \<le> unat (ring_size (config ch))"
      "length bs = length (buff_mem ch)" "unat (word_of_nat (length bs) :: u32) = length bs"
      "buff_mem ch = [] \<or> (\<exists>ba. buff_alctr (config ch) = Some ba \<and> bs = map (buff_entry P K l ba) (buff_mem ch))"
      "\<forall>e \<in> set bs. entry_ok P e"
    and pi: "ipa_pi ch' = (ipa_pi ?ch)\<lparr>pi_buff_list := Some bs, pi_buff_count := word_of_nat (length bs),
         pi_notify := nt, pi_hal := h\<rparr>"
    by blast
  have "pi_ring_base (ipa_pi ch') = ?iova" "pi_ring_size (ipa_pi ch') = im_size dm" "pi_ring_valid (ipa_pi ch')"
    "pi_buff_size (ipa_pi ch') = buff_size (config ch)" "pi_dir (ipa_pi ch') = ?dir"
    "pi_buff_list (ipa_pi ch') = Some bs" "pi_buff_count (ipa_pi ch') = word_of_nat (length bs)"
    unfolding pi by simp_all
  then have "pipe_describes P K l ch (ipa_pi ch')" unfolding pipe_describes_def using bf(2-) le dm da by metis
  with bf(1) show ?thesis by simp
qed

text \<open>
  A successful \<open>ioss_ipa_fill_pipe_info\<close> describes the channel: the ring is the channel's
  descriptor memory, the buffer list has one entry per buffer of the channel, in order and at
  most ring-size many, each entry translated to a non-zero physical address and a bus address at
  or below the ceiling, and nothing of the channel but its pipe description changes.
\<close>

theorem fill_pipe_info_describes:
  assumes "ioss_ipa_fill_pipe_info P K l d ch w = Some (0, ch', w')"
  shows "same_but_pipe ch ch' \<and> pipe_describes P K l ch (ipa_pi ch')"
  using assms by (rule fill_pipe_info_ok)

text \<open>A Realtek device, and a channel with one descriptor block and two buffers.\<close>

definition demo_pci :: pci_ident where
  "demo_pci = \<lparr>on_pci_bus = True, pci_vendor = 0x10ec, pci_device = 0x8125, pci_driver_name = ''r8125'',
     bar_start = (\<lambda>n. 0x40300000), bar_len = (\<lambda>n. 0x10000)\<rparr>"

definition demo_channel :: "channel_dir \<Rightarrow> nat ioss_channel" where
  "demo_channel dir = channel_zero\<lparr>direction := dir,
     config := \<lparr>ring_size = 4, buff_size = 0x800, desc_alctr = Some Default_alctr, buff_alctr = Some Default_alctr\<rparr>,
     desc_mem := [\<lparr>im_addr = 0xf1000000, im_size = 0x1000, im_daddr = 0x90000000\<rparr>],
     buff_mem := [\<lparr>im_addr = 0xf1002000, im_size = 0x800, im_daddr = 0x90002000\<rparr>,
                  \<lparr>im_addr = 0xf1003000, im_size = 0x800, im_daddr = 0xfff03000\<rparr>]\<rparr>"

lemmas demo_eval = demo_channel_def channel_zero_def pipe_zero_def demo_pci_def ok_kern_def ipa_params_default_def
  ioss_ipa_fill_pipe_info_def fill_data_bufs_def Let_def alctr_pa_def default_mem_pa_def remap_iova_def buff_pa_def
  ioss_ipa_hal_fill_si_def ioss_ipa_hal_get_ctype_def match_r8125_def fill_r8125_si_def

theorem fill_pipe_info_describes_witness:
  "pipe_describes ipa_params_default ok_kern \<lparr>tcm_mem = None, tcm_in_use = False\<rparr> (demo_channel CH_DIR_RX)
     (ipa_pi (fst (snd (the (ioss_ipa_fill_pipe_info ipa_params_default ok_kern
        \<lparr>tcm_mem = None, tcm_in_use = False\<rparr> demo_pci (demo_channel CH_DIR_RX) ())))))"
proof -
  let ?r = "ioss_ipa_fill_pipe_info ipa_params_default ok_kern \<lparr>tcm_mem = None, tcm_in_use = False\<rparr> demo_pci
    (demo_channel CH_DIR_RX) ()"
  have "?r = Some (0, fst (snd (the ?r)), snd (snd (the ?r)))" by (simp add: demo_eval)
  from fill_pipe_info_describes [OF this] show ?thesis by simp
qed

subsection \<open>Registration\<close>

lemma pipe_describes_upd [simp]:
  "pipe_describes P K l (ch\<lparr>ipa_pi := p\<rparr>) q = pipe_describes P K l ch q"
  by (simp add: pipe_describes_def)

lemma fill_pipes_ok:
  "fill_pipes P K l d chs w = Some (True, chs', w') \<Longrightarrow>
   list_all2 (\<lambda>ch ch'. same_but_pipe ch ch' \<and> pipe_describes P K l ch (ipa_pi ch')) chs chs'"
proof (induction chs arbitrary: w chs' w')
  case (Cons ch chs)
  let ?ch = "ch\<lparr>ipa_pi := (ipa_pi ch)\<lparr>pi_client := True\<rparr>\<rparr>"
  from Cons.prems obtain rc ch1 w1 where f: "ioss_ipa_fill_pipe_info P K l d ?ch w = Some (rc, ch1, w1)"
    by (auto split: bind_splits)
  with Cons.prems have "rc = 0" by (auto split: if_splits)
  with Cons.prems f obtain chs1 where "chs' = ch1 # chs1" "fill_pipes P K l d chs w1 = Some (True, chs1, w')"
    by (auto split: bind_splits)
  with Cons.IH fill_pipe_info_ok [OF f [unfolded \<open>rc = 0\<close>]] show ?case by simp
qed simp

lemma preflight_channels_result:
  "preflight_channels P chs rc tx rx = (rc', tx', rx') \<Longrightarrow>
     (rc' = 0 \<longleftrightarrow> rc = 0 \<and> (\<forall>ch \<in> set chs. ioss_ipa_preflight_pipe P (ipa_pi ch) = 0))
     \<and> tx' = tx + length (filter (\<lambda>ch. pi_dir (ipa_pi ch) = PIPE_DIR_TX) chs)
     \<and> rx' = rx + length (filter (\<lambda>ch. pi_dir (ipa_pi ch) = PIPE_DIR_RX) chs)"
  by (induction chs arbitrary: rc tx rx) (fastforce simp: Let_def split: if_splits)+

lemma preflight_client_zero:
  "ioss_ipa_preflight_client P chs = 0 \<longleftrightarrow>
     (\<forall>ch \<in> set chs. ioss_ipa_preflight_pipe P (ipa_pi ch) = 0)
     \<and> (\<exists>ch \<in> set chs. pi_dir (ipa_pi ch) = PIPE_DIR_TX) \<and> (\<exists>ch \<in> set chs. pi_dir (ipa_pi ch) = PIPE_DIR_RX)"
proof -
  obtain rc tx rx where r: "preflight_channels P chs 0 0 0 = (rc, tx, rx)" by (cases "preflight_channels P chs 0 0 0") auto
  from preflight_channels_result [OF r] show ?thesis
    by (auto simp: ioss_ipa_preflight_client_def r filter_empty_conv)
qed

lemma set_outputs_pointwise:
  "list_all2 (\<lambda>ch ch'. \<exists>out. ch' = set_output ch out) chs (set_outputs n outs chs)"
  by (induction chs arbitrary: n) (simp_all del: split_paired_Ex, blast)

lemma preflight_ignores_output:
  "ioss_ipa_preflight_pipe P (ipa_pi (set_output ch out)) = ioss_ipa_preflight_pipe P (ipa_pi ch)"
  "pi_dir (ipa_pi (set_output ch out)) = pi_dir (ipa_pi ch)"
  by (cases out; cases "pi_buff_list (ipa_pi ch)"; simp add: set_output_def ioss_ipa_preflight_pipe_def)+

lemma preflight_channels_outputs:
  "preflight_channels P (map take_doorbell (set_outputs n outs chs)) rc tx rx = preflight_channels P chs rc tx rx"
  by (induction chs arbitrary: n rc tx rx) (simp_all add: preflight_ignores_output take_doorbell_def)

text \<open>A channel of a registered interface, against the channel before.\<close>

definition registered ::
  "ipa_params \<Rightarrow> 'w kern \<Rightarrow> llcc_state \<Rightarrow> 'r ioss_channel \<Rightarrow> 'r ioss_channel \<Rightarrow> bool" where
  "registered P K l ch ch' \<longleftrightarrow> pipe_describes P K l ch (ipa_pi ch')
     \<and> ch' = ch\<lparr>event := (event ch)\<lparr>ev_paddr := pi_db_pa (ipa_pi ch'), ev_data := ucast (pi_db_val (ipa_pi ch'))\<rparr>,
               ipa_pi := ipa_pi ch'\<rparr>"

lemma registeredI:
  assumes "same_but_pipe ch ch1" "pipe_describes P K l ch (ipa_pi ch1)" "ch2 = set_output ch1 out"
  shows "registered P K l ch (take_doorbell ch2)"
proof -
  from assms(1) have "ch1 = ch\<lparr>ipa_pi := ipa_pi ch1\<rparr>" by (simp add: same_but_pipe_def)
  then obtain p where p: "ch1 = ch\<lparr>ipa_pi := p\<rparr>" ..
  with assms(2) have "pipe_describes P K l ch p" by simp
  then show ?thesis
    unfolding assms(3) p by (cases out) (simp add: registered_def take_doorbell_def set_output_def pipe_describes_def)
qed

lemma registered_dir:
  assumes "registered P K l ch ch'"
  shows "direction ch' = CH_DIR_TX \<longleftrightarrow> pi_dir (ipa_pi ch') = PIPE_DIR_TX"
proof -
  from assms have "pi_dir (ipa_pi ch') = (if direction ch = CH_DIR_TX then PIPE_DIR_TX else PIPE_DIR_RX)"
    by (simp add: registered_def pipe_describes_def)
  moreover from assms obtain e p where "ch' = ch\<lparr>event := e, ipa_pi := p\<rparr>" unfolding registered_def by blast
  then have "direction ch' = direction ch" by simp
  ultimately show ?thesis by simp
qed

lemma registered_clear:
  assumes "registered P K l ch ch'" "ipa_pi ch = pipe_zero" "ev_paddr (event ch) = 0" "ev_data (event ch) = 0"
  shows "free_pipe (clear_doorbell ch') = ch"
proof -
  from assms(1) obtain p e1 e2 where "ch' = ch\<lparr>event := (event ch)\<lparr>ev_paddr := e1, ev_data := e2\<rparr>, ipa_pi := p\<rparr>"
    unfolding registered_def by blast
  then show ?thesis using assms(2-) by (simp add: free_pipe_def clear_doorbell_def)
qed

lemma ipa_connect_ok:
  assumes "ipa_connect A i w = (0, i', w')"
  shows "\<exists>outs. i' = i\<lparr>channels := map take_doorbell (set_outputs 0 outs (channels i))\<rparr>"
  using assms by (auto simp: ipa_connect_def Let_def split: prod.splits if_splits)

lemma register_run:
  assumes "ioss_ipa_register P K A l d i w = Some (rc, i', w')" "\<not> skip_ipa_register P"
  shows "(ioss_ipa_hal_get_ctype d = None \<and> rc = - EFAULT \<and> i' = i)
    \<or> (\<exists>chs w1. fill_pipes P K l d (channels i) w = Some (False, chs, w1) \<and> rc = - EINVAL \<and> i' = i\<lparr>channels := chs\<rparr>)
    \<or> (\<exists>chs w1. fill_pipes P K l d (channels i) w = Some (True, chs, w1)
         \<and> ((rc = - EINVAL \<and> i' = i\<lparr>channels := map free_pipe chs\<rparr>)
            \<or> ((preflight_strict P \<longrightarrow> ioss_ipa_preflight_client P chs = 0)
               \<and> ipa_connect A (i\<lparr>channels := chs\<rparr>) w1 = (rc, i', w'))))"
proof (cases "fill_pipes P K l d (channels i) w")
  case (Some r)
  obtain ok chs w1 where r: "r = (ok, chs, w1)" by (cases r) auto
  show ?thesis using assms Some r
    by (auto simp: ioss_ipa_register_def Let_def split: if_splits)
qed (use assms in \<open>simp add: ioss_ipa_register_def split: if_splits\<close>)


text \<open>An IPA driver that accepts everything; the doorbells depend on the pipe's position.\<close>

definition ok_ipa :: "'w ipa_api" where
  "ok_ipa = \<lparr>conn_pipes = (\<lambda>ps w. (0, \<lambda>n. (0x9e000000 + word_of_nat n * 8, 1, word_of_nat n), w)),
     disconn_pipes = (\<lambda>w. (0, w)), set_perf_profile = (\<lambda>bw w. (0, w)), reg_intf = (\<lambda>w. (0, w)),
     unreg_intf = (\<lambda>w. (0, w))\<rparr>"

abbreviation no_tcm :: llcc_state where "no_tcm \<equiv> \<lparr>tcm_mem = None, tcm_in_use = False\<rparr>"

definition demo_iface :: "nat ioss_interface" where
  "demo_iface = iface_zero\<lparr>channels := [demo_channel CH_DIR_RX, demo_channel CH_DIR_TX]\<rparr>"

lemmas demo_register_eval = demo_eval demo_iface_def iface_zero_def ok_ipa_def ioss_ipa_register_def
  ioss_ipa_preflight_client_def ioss_ipa_preflight_pipe_def ipa_connect_def ioss_ipa_vote_bw_def set_output_def
  take_doorbell_def


definition unregistered :: "'r ioss_interface \<Rightarrow> bool" where
  "unregistered i \<longleftrightarrow>
     (\<forall>ch \<in> set (channels i). ipa_pi ch = pipe_zero \<and> ev_paddr (event ch) = 0 \<and> ev_data (event ch) = 0)"

lemma cleared_channels:
  assumes "list_all2 same_but_pipe chs0 chs"
    and "\<forall>ch \<in> set chs0. ipa_pi ch = pipe_zero \<and> ev_paddr (event ch) = 0 \<and> ev_data (event ch) = 0"
  shows "map free_pipe chs = chs0 \<and> map free_pipe (set_outputs n outs chs) = chs0
    \<and> map (free_pipe \<circ> clear_doorbell) (map take_doorbell (set_outputs n outs chs)) = chs0"
  using assms
proof (induction arbitrary: n rule: list_all2_induct)
  case (Cons ch0 chs0 ch chs)
  from \<open>same_but_pipe ch0 ch\<close> obtain p where p: "ch = ch0\<lparr>ipa_pi := p\<rparr>" unfolding same_but_pipe_def by blast
  from Cons.prems have z: "ipa_pi ch0 = pipe_zero" "ev_paddr (event ch0) = 0" "ev_data (event ch0) = 0" by auto
  have "free_pipe ch = ch0" "free_pipe (set_output ch (outs n)) = ch0"
      "free_pipe (clear_doorbell (take_doorbell (set_output ch (outs n)))) = ch0"
    using z unfolding p
    by (simp_all add: free_pipe_def set_output_def take_doorbell_def clear_doorbell_def split: prod.split)
  with Cons.IH [of "Suc n"] Cons.prems show ?case by simp
qed simp

lemma ipa_connect_channels:
  assumes "ipa_connect A i w = (rc, i', w')"
  shows "(rc = 0 \<and> (\<exists>outs. i' = i\<lparr>channels := map take_doorbell (set_outputs 0 outs (channels i))\<rparr>))
    \<or> (rc \<noteq> 0 \<and> (i' = i\<lparr>channels := map free_pipe (channels i)\<rparr>
         \<or> (\<exists>outs. i' = i\<lparr>channels := map free_pipe (set_outputs 0 outs (channels i))\<rparr>
              \<or> i' = i\<lparr>channels := map (free_pipe \<circ> clear_doorbell) (map take_doorbell (set_outputs 0 outs (channels i)))\<rparr>)))"
  using assms by (auto simp: ipa_connect_def Let_def split: prod.splits if_splits)

text \<open>
  C9. Registration leaves nothing behind: starting from channels with no pipe description and no
  doorbell, a failure after all channels have been described restores the interface exactly, and
  so does a successful \<open>ioss_ipa_unregister\<close> after a successful registration.
\<close>

theorem register_restores:
  assumes "ioss_ipa_register P K A l d i w = Some (rc, i1, w1)" "\<not> skip_ipa_register P" "unregistered i"
  shows "(rc \<noteq> 0 \<and> (\<forall>chs w0. fill_pipes P K l d (channels i) w \<noteq> Some (False, chs, w0)) \<longrightarrow> i1 = i)
    \<and> (rc = 0 \<and> ioss_ipa_unregister P A i1 w2 = (0, i2, w3) \<longrightarrow> i2 = i)"
proof -
  have un: "i2 = i1\<lparr>channels := map (free_pipe \<circ> clear_doorbell) (channels i1)\<rparr>"
    if "ioss_ipa_unregister P A i1 w2 = (0, i2, w3)"
    using that assms(2) by (auto simp: ioss_ipa_unregister_def split: prod.splits if_splits)
  show ?thesis
  proof (cases "\<exists>chs w0. fill_pipes P K l d (channels i) w = Some (True, chs, w0)")
    case True
    then obtain chs w0 where f: "fill_pipes P K l d (channels i) w = Some (True, chs, w0)" by blast
    have sb: "list_all2 same_but_pipe (channels i) chs"
      using fill_pipes_ok [OF f] by (rule list_all2_mono) simp
    note cl = cleared_channels [OF sb assms(3) [unfolded unregistered_def]]
    from register_run [OF assms(1,2)] f consider "rc \<noteq> 0 \<and> i1 = i"
      | "rc = - EINVAL" "i1 = i\<lparr>channels := map free_pipe chs\<rparr>"
      | "ipa_connect A (i\<lparr>channels := chs\<rparr>) w0 = (rc, i1, w1)" by auto
    then show ?thesis
    proof cases
      case 3
      from ipa_connect_channels [OF this] cl show ?thesis using un by fastforce
    qed (use cl in simp_all)
  next
    case False
    with register_run [OF assms(1,2)] show ?thesis by fastforce
  qed
qed

theorem register_restores_witness:
  "fst (snd (ioss_ipa_unregister ipa_params_default ok_ipa
     (fst (snd (the (ioss_ipa_register ipa_params_default ok_kern ok_ipa no_tcm demo_pci demo_iface ())))) ()))
   = demo_iface"
proof -
  let ?r = "ioss_ipa_register ipa_params_default ok_kern ok_ipa no_tcm demo_pci demo_iface ()"
  let ?u = "ioss_ipa_unregister ipa_params_default ok_ipa (fst (snd (the ?r))) ()"
  have r: "?r = Some (0, fst (snd (the ?r)), snd (snd (the ?r)))" by (simp add: demo_register_eval)
  have u: "?u = (0, fst (snd ?u), snd (snd ?u))"
    by (simp add: ioss_ipa_unregister_def ipa_params_default_def ok_ipa_def)
  have "unregistered demo_iface"
    by (simp add: unregistered_def demo_iface_def iface_zero_def demo_channel_def channel_zero_def event_zero_def)
  with register_restores [OF r, of "()" "fst (snd ?u)"] u show ?thesis by (simp add: ipa_params_default_def)
qed

subsection \<open>Defects\<close>

definition two_high_channel :: "channel_dir \<Rightarrow> nat ioss_channel" where
  "two_high_channel dir = (demo_channel dir)\<lparr>buff_mem :=
     [\<lparr>im_addr = 0xf1002000, im_size = 0x800, im_daddr = 0x9ff03000\<rparr>,
      \<lparr>im_addr = 0xf1003000, im_size = 0x800, im_daddr = 0xfff03000\<rparr>]\<rparr>"

text \<open>
  A defect of the high-address remapping: a bus address above the ceiling is masked with the
  ceiling, which is not injective. Two buffers with different physical addresses can be
  described to IPA under one and the same address, and the preflight accepts the description.
  (The test that the masked address still exceeds the ceiling can never be true.)
\<close>

theorem high_iova_remap_collides:
  "(\<exists>ch. \<exists>pa1 pa2. ioss_ipa_fill_pipe_info ipa_params_default ok_kern no_tcm demo_pci (two_high_channel CH_DIR_RX) () = Some (0, ch, ())
     \<and> ioss_ipa_preflight_pipe ipa_params_default (ipa_pi ch) = 0
     \<and> pi_buff_list (ipa_pi ch) = Some [(0x9ff03000, pa1), (0x9ff03000, pa2)] \<and> pa1 \<noteq> pa2)
   \<and> (\<forall>P iova. \<not> (iova AND iova_ceiling P) > iova_ceiling P)"
proof
  let ?r = "ioss_ipa_fill_pipe_info ipa_params_default ok_kern no_tcm demo_pci (two_high_channel CH_DIR_RX) ()"
  have "?r = Some (0, fst (snd (the ?r)), ())
     \<and> ioss_ipa_preflight_pipe ipa_params_default (ipa_pi (fst (snd (the ?r)))) = 0
     \<and> pi_buff_list (ipa_pi (fst (snd (the ?r)))) = Some [(0x9ff03000, 0x81002000), (0x9ff03000, 0x81003000)]
     \<and> (0x81002000 :: phys_addr) \<noteq> 0x81003000"
    by (simp add: two_high_channel_def demo_eval ioss_ipa_preflight_pipe_def)
  then show "\<exists>ch. \<exists>pa1 pa2. ?r = Some (0, ch, ()) \<and> ioss_ipa_preflight_pipe ipa_params_default (ipa_pi ch) = 0
     \<and> pi_buff_list (ipa_pi ch) = Some [(0x9ff03000, pa1), (0x9ff03000, pa2)] \<and> pa1 \<noteq> pa2" by blast
  show "\<forall>P iova. \<not> (iova AND iova_ceiling P) > iova_ceiling P"
    by (simp add: not_less word_and_le1)
qed

text \<open>
  A defect of the error path of \<open>ioss_ipa_register\<close>: when a later channel cannot be
  described, the buffer lists allocated for the earlier channels are not freed. Registration
  fails and the first channel still owns its list.
\<close>

theorem register_fill_failure_leaks:
  "\<exists>i1. ioss_ipa_register ipa_params_default ok_kern ok_ipa no_tcm demo_pci
      (demo_iface\<lparr>channels := [demo_channel CH_DIR_RX, (demo_channel CH_DIR_TX)\<lparr>desc_mem := []\<rparr>]\<rparr>) () = Some (- EINVAL, i1, ())
    \<and> pi_buff_list (ipa_pi (hd (channels i1))) \<noteq> None"
  by (simp add: demo_register_eval)

end
