(* ===== verification/Ioss_Debugfs.thy ===== *)
theory Ioss_Debugfs
  imports Ioss_Util
begin

text \<open>
  The debugfs tree of the offload subsystem (\<^verbatim>\<open>ioss/ioss_debugfs.c\<close>): creation and removal of
  its directories, and the statistics they show. \<open>debugfs_create\<close> stands for
  \<^verbatim>\<open>debugfs_create_dir\<close> and \<^verbatim>\<open>debugfs_create_file\<close> (the flag is false for NULL or an error
  pointer).
\<close>

section \<open>Directories\<close>

record debugfs_root =
  root_dir :: bool
  devices_dir :: bool

definition ioss_debugfs_init :: "'w kern \<Rightarrow> debugfs_root \<Rightarrow> 'w \<Rightarrow> int \<times> debugfs_root \<times> 'w" where
  "ioss_debugfs_init K r w =
     (if root_dir r then (0, r, w)
      else
        let fail = (\<lambda>w. (- EFAULT, \<lparr>root_dir = False, devices_dir = False\<rparr>, debugfs_remove_recursive K w)) in
        (case debugfs_create K ''ioss'' w of (ok, w) \<Rightarrow>
           if \<not> ok then fail w
           else (case debugfs_create K ''devices'' w of (ok, w) \<Rightarrow>
                   if \<not> ok then fail w else (0, \<lparr>root_dir = True, devices_dir = True\<rparr>, w))))"

definition ioss_debugfs_exit :: "'w kern \<Rightarrow> debugfs_root \<Rightarrow> 'w \<Rightarrow> debugfs_root \<times> 'w" where
  "ioss_debugfs_exit K r w = (\<lparr>root_dir = False, devices_dir = False\<rparr>, debugfs_remove_recursive K w)"

primrec create_files :: "'w kern \<Rightarrow> string list \<Rightarrow> 'w \<Rightarrow> bool \<times> 'w" where
  "create_files K [] w = (True, w)"
| "create_files K (nm # nms) w =
     (case debugfs_create K nm w of (ok, w) \<Rightarrow> if \<not> ok then (False, w) else create_files K nms w)"

text \<open>The directory \<open>dir\<close> and the files below it, or nothing.\<close>

definition create_dir_files :: "'w kern \<Rightarrow> string \<Rightarrow> string list \<Rightarrow> 'w \<Rightarrow> int \<times> 'w" where
  "create_dir_files K dir nms w =
     (case create_files K (dir # nms) w of (ok, w) \<Rightarrow>
        if ok then (0, w) else (- EFAULT, debugfs_remove_recursive K w))"

text \<open>The flag is whether \<^verbatim>\<open>idev->debugfs\<close> is set afterwards.\<close>

definition ioss_debugfs_add_idev :: "'w kern \<Rightarrow> string \<Rightarrow> 'w \<Rightarrow> int \<times> bool \<times> 'w" where
  "ioss_debugfs_add_idev K nm w =
     (case create_dir_files K nm [''statistics'', ''stats''] w of (rc, w) \<Rightarrow> (rc, rc = 0, w))"

definition ioss_debugfs_remove_idev :: "'w kern \<Rightarrow> 'w \<Rightarrow> bool \<times> 'w" where
  "ioss_debugfs_remove_idev K w = (False, debugfs_remove_recursive K w)"

text \<open>\<^verbatim>\<open>snprintf(dir_name, 32, "%s-%d", ...)\<close>.\<close>

fun dec_nat :: "nat \<Rightarrow> string" where
  "dec_nat n = (if n < 10 then [char_of (48 + n)] else dec_nat (n div 10) @ [char_of (48 + n mod 10)])"

declare dec_nat.simps [simp del]

definition dec_int :: "int \<Rightarrow> string" where
  "dec_int i = (if i < 0 then CHR 0x2D # dec_nat (nat (- i)) else dec_nat (nat i))"

definition channel_dir_name :: "'r ioss_channel \<Rightarrow> string" where
  "channel_dir_name ch = take 31 ((if direction ch = CH_DIR_RX then ''rx'' else ''tx'') @ CHR 0x2D # dec_int (ch_id ch))"

definition ioss_debugfs_add_channel :: "'w kern \<Rightarrow> 'r ioss_channel \<Rightarrow> 'w \<Rightarrow> int \<times> 'r ioss_channel \<times> 'w" where
  "ioss_debugfs_add_channel K ch w =
     (case create_dir_files K (channel_dir_name ch) [''statistics'', ''stats'', ''status'', ''stat''] w of
        (rc, w) \<Rightarrow> (rc, ch\<lparr>ch_debugfs := (rc = 0)\<rparr>, w))"

definition ioss_debugfs_remove_channel :: "'w kern \<Rightarrow> 'r ioss_channel \<Rightarrow> 'w \<Rightarrow> 'r ioss_channel \<times> 'w" where
  "ioss_debugfs_remove_channel K ch w = (ch\<lparr>ch_debugfs := False\<rparr>, debugfs_remove_recursive K w)"

section \<open>Statistics\<close>

record device_stats =
  hwp_rx_packets :: u64
  hwp_tx_packets :: u64
  hwp_rx_bytes :: u64
  hwp_tx_bytes :: u64
  hwp_rx_errors :: u64
  hwp_tx_errors :: u64
  hwp_rx_drops :: u64
  hwp_tx_drops :: u64
  exp_rx_packets :: u64
  exp_tx_packets :: u64
  exp_rx_bytes :: u64
  exp_tx_bytes :: u64
  exp_rx_errors :: u64
  exp_tx_errors :: u64
  exp_rx_drops :: u64
  exp_tx_drops :: u64
  emac_rx_packets :: u64
  emac_tx_packets :: u64
  emac_rx_bytes :: u64
  emac_tx_bytes :: u64
  emac_rx_errors :: u64
  emac_tx_errors :: u64
  emac_rx_drops :: u64
  emac_tx_drops :: u64
  emac_rx_pause_frames :: u64
  emac_tx_pause_frames :: u64

record channel_stats =
  overflow_error :: u64
  underflow_error :: u64
  desc_unavail :: u64

record link_stats =
  st_rx_packets :: u64
  st_tx_packets :: u64
  st_rx_bytes :: u64
  st_tx_bytes :: u64

definition device_stats_zero :: device_stats where
  "device_stats_zero = \<lparr>hwp_rx_packets = 0, hwp_tx_packets = 0, hwp_rx_bytes = 0, hwp_tx_bytes = 0, hwp_rx_errors = 0,
     hwp_tx_errors = 0, hwp_rx_drops = 0, hwp_tx_drops = 0, exp_rx_packets = 0, exp_tx_packets = 0,
     exp_rx_bytes = 0, exp_tx_bytes = 0, exp_rx_errors = 0, exp_tx_errors = 0, exp_rx_drops = 0,
     exp_tx_drops = 0, emac_rx_packets = 0, emac_tx_packets = 0, emac_rx_bytes = 0, emac_tx_bytes = 0,
     emac_rx_errors = 0, emac_tx_errors = 0, emac_rx_drops = 0, emac_tx_drops = 0, emac_rx_pause_frames = 0,
     emac_tx_pause_frames = 0\<rparr>"

text \<open>
  The loop over the channels. \<open>chst\<close> is the driver's \<^verbatim>\<open>get_channel_statistics\<close>; \<^const>\<open>None\<close> is
  an error code.
\<close>

primrec add_channel_errors ::
  "('r ioss_channel \<Rightarrow> channel_stats option) \<Rightarrow> 'r ioss_channel list \<Rightarrow> device_stats \<Rightarrow> device_stats option" where
  "add_channel_errors chst [] st = Some st"
| "add_channel_errors chst (ch # chs) st =
     (case chst ch of
        None \<Rightarrow> None
      | Some c \<Rightarrow>
          let e = overflow_error c + underflow_error c in
          add_channel_errors chst chs
            (if direction ch = CH_DIR_RX then st\<lparr>hwp_rx_errors := hwp_rx_errors st + e\<rparr>
             else st\<lparr>hwp_tx_errors := hwp_tx_errors st + e\<rparr>))"

text \<open>
  \<open>devst\<close> is the driver's \<^verbatim>\<open>get_device_statistics\<close>, which fills the zeroed structure, and
  \<open>net\<close> what \<^verbatim>\<open>dev_get_stats\<close> reports for the net device.
\<close>

definition get_idev_statistics ::
  "(device_stats \<Rightarrow> device_stats option) \<Rightarrow> ('r ioss_channel \<Rightarrow> channel_stats option) \<Rightarrow> link_stats \<Rightarrow>
   'r ioss_interface \<Rightarrow> int + device_stats" where
  "get_idev_statistics devst chst net i =
     (case devst device_stats_zero of
        None \<Rightarrow> Inl (- EFAULT)
      | Some st \<Rightarrow>
          (case add_channel_errors chst (channels i) st of
             None \<Rightarrow> Inl (- EFAULT)
           | Some st \<Rightarrow>
               let st = st\<lparr>exp_rx_packets := exp_rx_packets st + exc_rx_packets i,
                           exp_rx_bytes := exp_rx_bytes st + exc_rx_bytes i\<rparr>
               in Inr (st\<lparr>
                    hwp_rx_packets := (if emac_rx_packets st \<noteq> 0
                      then emac_rx_packets st + exp_rx_packets st - st_rx_packets net else hwp_rx_packets st),
                    hwp_tx_packets := (if emac_tx_packets st \<noteq> 0
                      then emac_tx_packets st + exp_tx_packets st - st_tx_packets net else hwp_tx_packets st),
                    hwp_rx_bytes := (if emac_rx_bytes st \<noteq> 0
                      then emac_rx_bytes st + exp_rx_bytes st - st_rx_bytes net else hwp_rx_bytes st),
                    hwp_tx_bytes := (if emac_tx_bytes st \<noteq> 0
                      then emac_tx_bytes st + exp_tx_bytes st - st_tx_bytes net else hwp_tx_bytes st),
                    hwp_rx_drops := emac_rx_drops st\<rparr>)))"

section \<open>Lemmas\<close>

lemma debugfs_add_channel_result:
  "ioss_debugfs_add_channel K ch w = (rc, ch', w') \<Longrightarrow>
   ch' = ch\<lparr>ch_debugfs := (rc = 0)\<rparr> \<and> (rc = 0 \<or> rc = - EFAULT)"
  by (auto simp: ioss_debugfs_add_channel_def create_dir_files_def split: prod.splits if_splits)

lemma debugfs_remove_channel_result:
  "ioss_debugfs_remove_channel K ch w = (ch', w') \<Longrightarrow> ch' = ch\<lparr>ch_debugfs := False\<rparr>"
  by (auto simp: ioss_debugfs_remove_channel_def)

lemma add_channel_errors_frame:
  "add_channel_errors chst chs st = Some st' \<Longrightarrow>
   \<exists>a b. st' = st\<lparr>hwp_rx_errors := a, hwp_tx_errors := b\<rparr>"
proof (induction chs arbitrary: st)
  case Nil
  then have "st' = st\<lparr>hwp_rx_errors := hwp_rx_errors st, hwp_tx_errors := hwp_tx_errors st\<rparr>" by simp
  then show ?case by blast
next
  case (Cons ch chs)
  from Cons.prems obtain c where "chst ch = Some c" by (auto split: option.splits)
  with Cons.prems Cons.IH show ?case by (cases "direction ch") (fastforce simp: Let_def)+
qed

end
