(* ===== verification/Ioss_Net.thy ===== *)
theory Ioss_Net
  imports Ioss_Ipa Ioss_Debugfs
begin

text \<open>
  The interface state machine of the offload subsystem (\<^verbatim>\<open>ioss/ioss_net.c\<close>): allocating,
  enabling and tearing down channels and their events, taking an interface on and off line, the
  net-device event handlers and the watching of a net device.

  \<open>net_env\<close> collects what the component is given: kernel services, the IPA driver, the glue
  driver's operations, module parameters. A work item runs when the work queue runs it: queueing
  sets a flag, the work function is a separate step.
\<close>

unbundle bit_operations_syntax

section \<open>Environment and state\<close>

record netdev =
  nd_id :: nat
  nd_name :: string
  nd_parent :: nat

text \<open>What the refresh work reads from the net device; the speed is \<^const>\<open>None\<close> on an ethtool error.\<close>

record link_view =
  lv_speed :: "u32 option"
  lv_running :: bool
  lv_carrier :: bool

record ('r, 'w) net_env =
  E_kern :: "'w kern"
  E_params :: ipa_params
  E_ipa :: "'w ipa_api"
  E_ops :: "('r, 'w) driver_ops"
  max_ddr_bandwidth :: u32
  disable_tcm :: bool
  pm_control :: "bool \<Rightarrow> 'w \<Rightarrow> int \<times> 'w"
  device_register :: "'w \<Rightarrow> int \<times> 'w"
  wakeup_source_register :: "'w \<Rightarrow> bool \<times> 'w"
  register_netdevice_notifier :: "'w \<Rightarrow> int \<times> 'w"
  unregister_netdevice_notifier :: "'w \<Rightarrow> int \<times> 'w"
  set_wol :: "(u32 \<Rightarrow> 'w \<Rightarrow> int \<times> 'w) option"

text \<open>Pointers to a table of net-device operations.\<close>

datatype ops_ptr = Ops_null | Ops_real nat | Ops_ioss

record ('r, 'w) net_state =
  idev :: "'r ioss_device"
  llcc :: llcc_state
  world :: 'w
  netdev_ops :: ops_ptr
  netdev_ops_real :: ops_ptr
  netdev_refs :: int
  pm_nb_registered :: bool
  refresh_queued :: bool
  check_queued :: bool
  idev_debugfs :: bool

abbreviation iface :: "('r, 'w) net_state \<Rightarrow> 'r ioss_interface" where
  "iface s \<equiv> interface (idev s)"

definition set_iface :: "('r ioss_interface \<Rightarrow> 'r ioss_interface) \<Rightarrow> ('r, 'w) net_state \<Rightarrow> ('r, 'w) net_state" where
  "set_iface f s = s\<lparr>idev := (idev s)\<lparr>interface := f (interface (idev s))\<rparr>\<rparr>"

section \<open>Channel configuration\<close>

definition is_power_of_2 :: "u32 \<Rightarrow> bool" where
  "is_power_of_2 n \<longleftrightarrow> n \<noteq> 0 \<and> n AND (n - 1) = 0"

definition ioss_net_select_llcc_config ::
  "('r, 'w) net_env \<Rightarrow> 'r ioss_channel \<Rightarrow> llcc_state \<Rightarrow> 'w \<Rightarrow> int \<times> 'r ioss_channel \<times> llcc_state \<times> 'w" where
  "ioss_net_select_llcc_config E ch l w =
     (let mem_need = ring_size (config ch) * buff_size (config ch) in
      if disable_tcm E then (- ENOMEM, ch, l, w)
      else (case llcc_mem_get (E_kern E) mem_need l w of (mem_size, l, w) \<Rightarrow>
              if mem_size = 0 then (- ENOMEM, ch, l, w)
              else
                let n = mem_size div buff_size (config ch) in
                if \<not> is_power_of_2 n then (- EINVAL, ch, l, w)
                else (0, ch\<lparr>config := (config ch)\<lparr>ring_size := n, buff_alctr := Some Llcc_alctr\<rparr>\<rparr>, l, w)))"

definition ioss_net_select_channel_config ::
  "('r, 'w) net_env \<Rightarrow> u32 \<Rightarrow> 'r ioss_channel \<Rightarrow> llcc_state \<Rightarrow> 'w \<Rightarrow> 'r ioss_channel \<times> llcc_state \<times> 'w" where
  "ioss_net_select_channel_config E speed ch l w =
     (let ch = ch\<lparr>config := default_config ch\<rparr> in
      if direction ch = CH_DIR_TX \<and> speed > max_ddr_bandwidth E
      then (case ioss_net_select_llcc_config E ch l w of (_, ch, l, w) \<Rightarrow> (ch, l, w))
      else (ch, l, w))"

definition ioss_net_deselect_channel_config ::
  "('r, 'w) net_env \<Rightarrow> 'r ioss_channel \<Rightarrow> llcc_state \<Rightarrow> 'w \<Rightarrow> 'r ioss_channel \<times> llcc_state \<times> 'w" where
  "ioss_net_deselect_channel_config E ch l w =
     (case (if buff_alctr (config ch) = Some Llcc_alctr
            then llcc_mem_put (E_kern E) (ring_size (config ch) * buff_size (config ch)) l w else (l, w)) of
        (l, w) \<Rightarrow> (ch\<lparr>config := default_config ch\<rparr>, l, w))"

section \<open>Allocating and freeing channels\<close>

text \<open>
  Actions on one channel, in the shape \<^const>\<open>ioss_list_iter_action\<close> takes: the state is the
  allocator of the tightly coupled memory and the kernel.
\<close>

definition ioss_net_alloc_channel ::
  "('r, 'w) net_env \<Rightarrow> u32 \<Rightarrow> 'r ioss_channel \<Rightarrow> llcc_state \<times> 'w \<Rightarrow> (int \<times> 'r ioss_channel \<times> (llcc_state \<times> 'w)) option" where
  "ioss_net_alloc_channel E speed ch s =
     (case ioss_net_select_channel_config E speed ch (fst s) (snd s) of (ch, l, w) \<Rightarrow>
      do {
        (rc, ch, w) \<leftarrow> ioss_dev_op (request_channel (E_ops E)) ch w;
        if rc \<noteq> 0 then Some (rc, ioss_net_deselect_channel_config E ch l w)
        else (case ioss_debugfs_add_channel (E_kern E) (ch\<lparr>allocated := True\<rparr>) w of (rc, ch, w) \<Rightarrow>
                if rc \<noteq> 0 then do {
                  (_, ch, w) \<leftarrow> ioss_dev_op (release_channel (E_ops E)) ch w;
                  Some (rc, ioss_net_deselect_channel_config E (ch\<lparr>allocated := False\<rparr>) l w)
                }
                else Some (0, ch, l, w))
      })"

definition ioss_net_free_channel ::
  "('r, 'w) net_env \<Rightarrow> 'r ioss_channel \<Rightarrow> llcc_state \<times> 'w \<Rightarrow> (int \<times> 'r ioss_channel \<times> (llcc_state \<times> 'w)) option" where
  "ioss_net_free_channel E ch s =
     (case ioss_debugfs_remove_channel (E_kern E) ch (snd s) of (ch, w) \<Rightarrow>
      do {
        (rc, ch, w) \<leftarrow> ioss_dev_op (release_channel (E_ops E)) ch w;
        if rc \<noteq> 0 then Some (rc, ch, fst s, w)
        else Some (0, ioss_net_deselect_channel_config E (ch\<lparr>allocated := False\<rparr>) (fst s) w)
      })"

text \<open>A revert handler is the opposite operation with its return code dropped.\<close>

definition drop_rc :: "('a \<Rightarrow> 's \<Rightarrow> (int \<times> 'a \<times> 's) option) \<Rightarrow> 'a \<Rightarrow> 's \<Rightarrow> ('a \<times> 's) option" where
  "drop_rc f x s = map_option snd (f x s)"

definition ioss_net_alloc_channels ::
  "('r, 'w) net_env \<Rightarrow> u32 \<Rightarrow> 'r ioss_channel list \<Rightarrow> llcc_state \<times> 'w \<Rightarrow>
   (int \<times> 'r ioss_channel list \<times> (llcc_state \<times> 'w)) option" where
  "ioss_net_alloc_channels E speed =
     ioss_list_iter_action (ioss_net_alloc_channel E speed) (Some (drop_rc (ioss_net_free_channel E)))"

definition ioss_net_free_channels ::
  "('r, 'w) net_env \<Rightarrow> 'r ioss_channel list \<Rightarrow> llcc_state \<times> 'w \<Rightarrow>
   (int \<times> 'r ioss_channel list \<times> (llcc_state \<times> 'w)) option" where
  "ioss_net_free_channels E chs s = for_each_channel (ioss_net_free_channel E) chs s 0"

section \<open>Enabling and disabling channels\<close>

text \<open>These operations act on the kernel state only; the allocator state is carried along.\<close>

definition ioss_net_enable_channel ::
  "('r, 'w) net_env \<Rightarrow> 'r ioss_channel \<Rightarrow> 'w \<Rightarrow> (int \<times> 'r ioss_channel \<times> 'w) option" where
  "ioss_net_enable_channel E ch w =
     do {
       (rc, ch, w) \<leftarrow> ioss_dev_op (enable_channel (E_ops E)) ch w;
       if rc \<noteq> 0 then do {
         (_, ch, w) \<leftarrow> ioss_dev_op (release_channel (E_ops E)) ch w;
         Some (rc, ch, w)
       }
       else Some (0, ch\<lparr>enabled := True\<rparr>, w)
     }"

definition ioss_net_disable_channel ::
  "('r, 'w) net_env \<Rightarrow> 'r ioss_channel \<Rightarrow> 'w \<Rightarrow> (int \<times> 'r ioss_channel \<times> 'w) option" where
  "ioss_net_disable_channel E ch w =
     do {
       (rc, ch, w) \<leftarrow> ioss_dev_op (disable_channel (E_ops E)) ch w;
       if rc \<noteq> 0 then Some (rc, ch, w) else Some (0, ch\<lparr>enabled := False\<rparr>, w)
     }"

definition ioss_net_enable_channels ::
  "('r, 'w) net_env \<Rightarrow> 'r ioss_channel list \<Rightarrow> 'w \<Rightarrow> (int \<times> 'r ioss_channel list \<times> 'w) option" where
  "ioss_net_enable_channels E =
     ioss_list_iter_action (ioss_net_enable_channel E) (Some (drop_rc (ioss_net_disable_channel E)))"

definition ioss_net_disable_channels ::
  "('r, 'w) net_env \<Rightarrow> 'r ioss_channel list \<Rightarrow> 'w \<Rightarrow> (int \<times> 'r ioss_channel list \<times> 'w) option" where
  "ioss_net_disable_channels E chs w = for_each_channel (ioss_net_disable_channel E) chs w 0"

section \<open>Events\<close>

definition ioss_net_setup_event ::
  "('r, 'w) net_env \<Rightarrow> 'r ioss_channel \<Rightarrow> 'w \<Rightarrow> (int \<times> 'r ioss_channel \<times> 'w) option" where
  "ioss_net_setup_event E ch w =
     do {
       (rc, ch, w) \<leftarrow> ioss_dev_op (request_event (E_ops E)) ch w;
       if rc \<noteq> 0 then Some (rc, ch, w)
       else do {
         (rc, ch, w) \<leftarrow> ioss_dev_op (enable_event (E_ops E)) (ch\<lparr>event := (event ch)\<lparr>ev_allocated := True\<rparr>\<rparr>) w;
         if rc \<noteq> 0 then do {
           (_, ch, w) \<leftarrow> ioss_dev_op (release_event (E_ops E)) ch w;
           Some (rc, ch, w)
         }
         else Some (0, ch\<lparr>event := (event ch)\<lparr>ev_enabled := True\<rparr>\<rparr>, w)
       }
     }"

definition ioss_net_teardown_event ::
  "('r, 'w) net_env \<Rightarrow> 'r ioss_channel \<Rightarrow> 'w \<Rightarrow> (int \<times> 'r ioss_channel \<times> 'w) option" where
  "ioss_net_teardown_event E ch w =
     do {
       (rc1, ch, w) \<leftarrow> ioss_dev_op (disable_event (E_ops E)) ch w;
       let ch = (if rc1 \<noteq> 0 then ch else ch\<lparr>event := (event ch)\<lparr>ev_enabled := False\<rparr>\<rparr>);
       (rc2, ch, w) \<leftarrow> ioss_dev_op (release_event (E_ops E)) ch w;
       let ch = (if rc2 \<noteq> 0 then ch else ch\<lparr>event := (event ch)\<lparr>ev_allocated := False\<rparr>\<rparr>);
       Some (if rc1 \<noteq> 0 \<or> rc2 \<noteq> 0 then - EFAULT else 0, ch, w)
     }"

definition ioss_net_setup_events ::
  "('r, 'w) net_env \<Rightarrow> 'r ioss_channel list \<Rightarrow> 'w \<Rightarrow> (int \<times> 'r ioss_channel list \<times> 'w) option" where
  "ioss_net_setup_events E =
     ioss_list_iter_action (ioss_net_setup_event E) (Some (drop_rc (ioss_net_teardown_event E)))"

definition ioss_net_teardown_events ::
  "('r, 'w) net_env \<Rightarrow> 'r ioss_channel list \<Rightarrow> 'w \<Rightarrow> (int \<times> 'r ioss_channel list \<times> 'w) option" where
  "ioss_net_teardown_events E chs w = for_each_channel (ioss_net_teardown_event E) chs w 0"

section \<open>On line and off line\<close>

text \<open>Power-collapse control of \<^verbatim>\<open>ioss_pci.c\<close>.\<close>

definition ioss_pci_enable_pc :: "('r, 'w) net_env \<Rightarrow> 'w \<Rightarrow> int \<times> 'w" where
  "ioss_pci_enable_pc E w = pm_control E True w"

definition ioss_pci_disable_pc :: "('r, 'w) net_env \<Rightarrow> 'w \<Rightarrow> int \<times> 'w" where
  "ioss_pci_disable_pc E w = pm_control E False w"

definition set_channels ::
  "('r, 'w) net_state \<Rightarrow> 'r ioss_channel list \<Rightarrow> llcc_state \<Rightarrow> 'w \<Rightarrow> ('r, 'w) net_state" where
  "set_channels s chs l w = (set_iface (\<lambda>i. i\<lparr>channels := chs\<rparr>) s)\<lparr>llcc := l, world := w\<rparr>"

definition set_state :: "if_state \<Rightarrow> ('r, 'w) net_state \<Rightarrow> ('r, 'w) net_state" where
  "set_state st s = set_iface (\<lambda>i. i\<lparr>if_state := st\<rparr>) s"

text \<open>The operations on the channels of the interface, lifted to the state of the component.\<close>

definition on_llcc ::
  "('r ioss_channel list \<Rightarrow> llcc_state \<times> 'w \<Rightarrow> (int \<times> 'r ioss_channel list \<times> (llcc_state \<times> 'w)) option) \<Rightarrow>
   ('r, 'w) net_state \<Rightarrow> (int \<times> ('r, 'w) net_state) option" where
  "on_llcc f s =
     (case f (channels (iface s)) (llcc s, world s) of
        None \<Rightarrow> None
      | Some (rc, chs, l, w) \<Rightarrow> Some (rc, set_channels s chs l w))"

definition on_world ::
  "('r ioss_channel list \<Rightarrow> 'w \<Rightarrow> (int \<times> 'r ioss_channel list \<times> 'w) option) \<Rightarrow>
   ('r, 'w) net_state \<Rightarrow> (int \<times> ('r, 'w) net_state) option" where
  "on_world f s =
     (case f (channels (iface s)) (world s) of
        None \<Rightarrow> None
      | Some (rc, chs, w) \<Rightarrow> Some (rc, set_channels s chs (llcc s) w))"

definition net_ipa_register :: "('r, 'w) net_env \<Rightarrow> ('r, 'w) net_state \<Rightarrow> (int \<times> ('r, 'w) net_state) option" where
  "net_ipa_register E s =
     (case ioss_ipa_register (E_params E) (E_kern E) (E_ipa E) (llcc s) (real_dev (idev s)) (iface s) (world s) of
        None \<Rightarrow> None
      | Some (rc, i, w) \<Rightarrow> Some (rc, (set_iface (\<lambda>_. i) s)\<lparr>world := w\<rparr>))"

definition net_ipa_unregister :: "('r, 'w) net_env \<Rightarrow> ('r, 'w) net_state \<Rightarrow> int \<times> ('r, 'w) net_state" where
  "net_ipa_unregister E s =
     (case ioss_ipa_unregister (E_params E) (E_ipa E) (iface s) (world s) of
        (rc, i, w) \<Rightarrow> (rc, (set_iface (\<lambda>_. i) s)\<lparr>world := w\<rparr>))"

text \<open>The error labels of \<open>ioss_iface_set_online\<close>, from the last to the first.\<close>

definition err_ipa_register :: "('r, 'w) net_env \<Rightarrow> ('r, 'w) net_state \<Rightarrow> ('r, 'w) net_state option" where
  "err_ipa_register E s =
     do { (_, s) \<leftarrow> on_llcc (ioss_net_free_channels E) s; Some (set_state IF_ST_ERROR s) }"

definition err_setup_events :: "('r, 'w) net_env \<Rightarrow> ('r, 'w) net_state \<Rightarrow> ('r, 'w) net_state option" where
  "err_setup_events E s = err_ipa_register E (snd (net_ipa_unregister E s))"

definition err_enable_channels :: "('r, 'w) net_env \<Rightarrow> ('r, 'w) net_state \<Rightarrow> ('r, 'w) net_state option" where
  "err_enable_channels E s = do { (_, s) \<leftarrow> on_world (ioss_net_teardown_events E) s; err_setup_events E s }"

definition err_disable_pc :: "('r, 'w) net_env \<Rightarrow> ('r, 'w) net_state \<Rightarrow> ('r, 'w) net_state option" where
  "err_disable_pc E s = do { (_, s) \<leftarrow> on_world (ioss_net_disable_channels E) s; err_enable_channels E s }"

definition ioss_iface_set_online :: "('r, 'w) net_env \<Rightarrow> ('r, 'w) net_state \<Rightarrow> ('r, 'w) net_state option" where
  "ioss_iface_set_online E s =
     (if if_state (iface s) \<noteq> IF_ST_OFFLINE then Some s
      else do {
        (rc, s) \<leftarrow> on_llcc (ioss_net_alloc_channels E (link_speed (iface s))) s;
        if rc \<noteq> 0 then Some (set_state IF_ST_ERROR s)
        else do {
          (rc, s) \<leftarrow> net_ipa_register E s;
          if rc \<noteq> 0 then err_ipa_register E s
          else do {
            (rc, s) \<leftarrow> on_world (ioss_net_setup_events E) s;
            if rc \<noteq> 0 then err_setup_events E s
            else do {
              (rc, s) \<leftarrow> on_world (ioss_net_enable_channels E) s;
              if rc \<noteq> 0 then err_enable_channels E s
              else (case ioss_pci_disable_pc E (world s) of (rc, w) \<Rightarrow>
                      if rc \<noteq> 0 then err_disable_pc E (s\<lparr>world := w\<rparr>)
                      else Some (set_state IF_ST_ONLINE (s\<lparr>world := w\<rparr>)))
            }
          }
        }
      })"

definition fail_on :: "int \<Rightarrow> ('r, 'w) net_state \<Rightarrow> ('r, 'w) net_state" where
  "fail_on rc s = (if rc \<noteq> 0 then set_state IF_ST_ERROR s else s)"

definition ioss_iface_set_offline :: "('r, 'w) net_env \<Rightarrow> ('r, 'w) net_state \<Rightarrow> ('r, 'w) net_state option" where
  "ioss_iface_set_offline E s =
     (if if_state (iface s) \<noteq> IF_ST_ONLINE then Some s
      else
        let s = set_state IF_ST_OFFLINE s in
        (case ioss_pci_enable_pc E (world s) of (rc, w) \<Rightarrow>
         do {
           (rc, s) \<leftarrow> on_world (ioss_net_disable_channels E) (fail_on rc (s\<lparr>world := w\<rparr>));
           (rc, s) \<leftarrow> on_world (ioss_net_teardown_events E) (fail_on rc s);
           let (rc, s) = net_ipa_unregister E (fail_on rc s);
           (rc, s) \<leftarrow> on_llcc (ioss_net_free_channels E) (fail_on rc s);
           Some (fail_on rc s)
         }))"

definition fetch_ethtool_link_speed :: "link_view \<Rightarrow> u32" where
  "fetch_ethtool_link_speed v = (case lv_speed v of Some sp \<Rightarrow> sp | None \<Rightarrow> 0)"

definition ioss_refresh_work :: "('r, 'w) net_env \<Rightarrow> link_view \<Rightarrow> ('r, 'w) net_state \<Rightarrow> ('r, 'w) net_state option" where
  "ioss_refresh_work E v s =
     (let s = s\<lparr>refresh_queued := False\<rparr> in
      if iface_parent (iface s) = None then Some s
      else
        let s = set_iface (\<lambda>i. i\<lparr>link_speed := fetch_ethtool_link_speed v\<rparr>) s in
        if lv_running v \<and> lv_carrier v \<and> \<not> dev_offline (idev s) \<and> \<not> unbinding (idev s)
        then ioss_iface_set_online E s
        else ioss_iface_set_offline E s)"

section \<open>Activity and statistics\<close>

text \<open>
  \<open>rx\<close> is the receive packet count \<^verbatim>\<open>dev_get_stats\<close> reports. \<^verbatim>\<open>__pm_stay_awake\<close> and
  \<^verbatim>\<open>__pm_relax\<close> accept NULL.
\<close>

definition ioss_net_check_active :: "u64 \<Rightarrow> ('r, 'w) net_state \<Rightarrow> ('r, 'w) net_state" where
  "ioss_net_check_active rx s =
     (if iface_parent (iface s) = None then s
      else (set_iface (\<lambda>i. i\<lparr>stats_rx_packets := rx,
              active_ws := map_option (\<lambda>_. stats_rx_packets i \<noteq> rx) (active_ws i)\<rparr>) s)\<lparr>check_queued := True\<rparr>)"

definition ioss_net_active_work :: "u64 \<Rightarrow> ('r, 'w) net_state \<Rightarrow> ('r, 'w) net_state" where
  "ioss_net_active_work rx s = ioss_net_check_active rx (s\<lparr>check_queued := False\<rparr>)"

text \<open>
  \<^verbatim>\<open>__netdev_get_stats64\<close>: \<open>sw\<close> is what the real driver's own statistics callback reports.
\<close>

definition netdev_get_stats64 :: "link_stats \<Rightarrow> 'r ioss_interface \<Rightarrow> link_stats" where
  "netdev_get_stats64 sw i = sw\<lparr>st_rx_packets := st_rx_packets sw + exc_rx_packets i,
     st_rx_bytes := st_rx_bytes sw + exc_rx_bytes i\<rparr>"

definition hijack_netdev_ops :: "('r, 'w) net_state \<Rightarrow> ('r, 'w) net_state" where
  "hijack_netdev_ops s = s\<lparr>netdev_ops_real := netdev_ops s, netdev_ops := Ops_ioss\<rparr>"

definition restore_netdev_ops :: "('r, 'w) net_state \<Rightarrow> ('r, 'w) net_state" where
  "restore_netdev_ops s = s\<lparr>netdev_ops := netdev_ops_real s\<rparr>"

datatype pm_event = PM_SUSPEND_PREPARE | PM_POST_SUSPEND | PM_OTHER

definition pm_notifier_cb :: "pm_event \<Rightarrow> u64 \<Rightarrow> ('r, 'w) net_state \<Rightarrow> ('r, 'w) net_state" where
  "pm_notifier_cb e rx s =
     (if e = PM_SUSPEND_PREPARE \<or> e = PM_POST_SUSPEND then ioss_net_check_active rx s else s)"

section \<open>Net-device events\<close>

definition ioss_iface_queue_refresh :: "('r, 'w) net_state \<Rightarrow> ('r, 'w) net_state" where
  "ioss_iface_queue_refresh s = s\<lparr>refresh_queued := True\<rparr>"

text \<open>Registration of the interface device, of \<^verbatim>\<open>ioss_bus.c\<close>.\<close>

definition ioss_bus_register_iface ::
  "('r, 'w) net_env \<Rightarrow> nat \<Rightarrow> ('r, 'w) net_state \<Rightarrow> int \<times> ('r, 'w) net_state" where
  "ioss_bus_register_iface E n s =
     (case device_register E (world s) of (rc, w) \<Rightarrow>
        (rc, (set_iface (\<lambda>i. i\<lparr>iface_parent := Some n\<rparr>) s)\<lparr>netdev_refs := netdev_refs s + 1, world := w\<rparr>))"

definition ioss_bus_unregister_iface :: "('r, 'w) net_state \<Rightarrow> ('r, 'w) net_state" where
  "ioss_bus_unregister_iface s =
     (set_iface (\<lambda>i. i\<lparr>iface_parent := None\<rparr>) s)\<lparr>netdev_refs := netdev_refs s - 1\<rparr>"

datatype netdev_event =
    NETDEV_REGISTER | NETDEV_UNREGISTER | NETDEV_CHANGENAME | NETDEV_PRE_UP | NETDEV_UP | NETDEV_GOING_DOWN
  | NETDEV_DOWN | NETDEV_CHANGE | NETDEV_CHANGELOWERSTATE | NETDEV_PRECHANGEUPPER | NETDEV_CHANGEUPPER
  | NETDEV_JOIN | NETDEV_OTHER | NETDEV_BEYOND_TABLE

definition ioss_netdev_event_name :: "netdev_event \<Rightarrow> string" where
  "ioss_netdev_event_name e =
     (case e of NETDEV_REGISTER \<Rightarrow> ''REGISTER'' | NETDEV_UNREGISTER \<Rightarrow> ''UNREGISTER''
      | NETDEV_CHANGENAME \<Rightarrow> ''CHANGE_NAME'' | NETDEV_PRE_UP \<Rightarrow> ''PRE_UP'' | NETDEV_UP \<Rightarrow> ''UP''
      | NETDEV_GOING_DOWN \<Rightarrow> ''GOING_DOWN'' | NETDEV_DOWN \<Rightarrow> ''DOWN'' | NETDEV_CHANGE \<Rightarrow> ''CHANGE''
      | NETDEV_CHANGELOWERSTATE \<Rightarrow> ''CHANGE_LOWER_STATE'' | NETDEV_PRECHANGEUPPER \<Rightarrow> ''PRE_CHANGE_UPPER''
      | NETDEV_CHANGEUPPER \<Rightarrow> ''CHANGE_UPPER'' | NETDEV_JOIN \<Rightarrow> ''JOIN''
      | NETDEV_OTHER \<Rightarrow> ''<unknown>'' | NETDEV_BEYOND_TABLE \<Rightarrow> ''<unknown>'')"

definition ioss_net_event_register ::
  "('r, 'w) net_env \<Rightarrow> nat \<Rightarrow> u64 \<Rightarrow> ('r, 'w) net_state \<Rightarrow> ('r, 'w) net_state" where
  "ioss_net_event_register E n rx s =
     (let s = set_iface (\<lambda>i. i\<lparr>exc_rx_packets := 0, exc_rx_bytes := 0, exc_rx_drops := 0\<rparr>) s in
      case ioss_bus_register_iface E n s of (rc, s) \<Rightarrow>
        if rc \<noteq> 0 then set_state IF_ST_ERROR s
        else
          let s = (hijack_netdev_ops s)\<lparr>pm_nb_registered := True\<rparr>;
              s = ioss_iface_queue_refresh s
          in ioss_net_check_active rx s)"

definition ioss_net_event_unregister :: "('r, 'w) net_state \<Rightarrow> ('r, 'w) net_state" where
  "ioss_net_event_unregister s =
     (let s = (set_iface (\<lambda>i. i\<lparr>active_ws := map_option (\<lambda>_. False) (active_ws i)\<rparr>) s)
                \<lparr>check_queued := False, pm_nb_registered := False\<rparr>
      in ioss_iface_queue_refresh (ioss_bus_unregister_iface (restore_netdev_ops s)))"

definition ioss_net_event_generic :: "('r, 'w) net_state \<Rightarrow> ('r, 'w) net_state" where
  "ioss_net_event_generic s = ioss_iface_queue_refresh s"

definition ioss_net_event_up :: "('r, 'w) net_env \<Rightarrow> ('r, 'w) net_state \<Rightarrow> ('r, 'w) net_state" where
  "ioss_net_event_up E s =
     ioss_iface_queue_refresh
       (if wolopts (idev s) \<noteq> 0
        then (case set_wol E of None \<Rightarrow> s | Some f \<Rightarrow> s\<lparr>world := snd (f (wolopts (idev s)) (world s))\<rparr>)
        else s)"

abbreviation (input) NOTIFY_DONE :: int where "NOTIFY_DONE \<equiv> 0"
abbreviation (input) NOTIFY_OK :: int where "NOTIFY_OK \<equiv> 1"

text \<open>
  The notifier. \<open>own\<close> is the name of \<^verbatim>\<open>idev->net_dev\<close>, \<open>parent\<close> identifies the PCI device of the
  \<^verbatim>\<open>idev\<close>, \<open>nd\<close> is the device the event is about.
\<close>

definition ioss_net_device_event ::
  "('r, 'w) net_env \<Rightarrow> string \<Rightarrow> nat \<Rightarrow> netdev_event \<Rightarrow> netdev \<Rightarrow> u64 \<Rightarrow> ('r, 'w) net_state \<Rightarrow> int \<times> ('r, 'w) net_state" where
  "ioss_net_device_event E own parent e nd rx s =
     (if nd_name nd \<noteq> own then (NOTIFY_OK, s)
      else if nd_parent nd \<noteq> parent then (NOTIFY_OK, s)
      else (case e of
              NETDEV_REGISTER \<Rightarrow> (NOTIFY_OK, ioss_net_event_register E (nd_id nd) rx s)
            | NETDEV_UNREGISTER \<Rightarrow> (NOTIFY_OK, ioss_net_event_unregister s)
            | NETDEV_UP \<Rightarrow> (NOTIFY_OK, ioss_net_event_up E s)
            | NETDEV_GOING_DOWN \<Rightarrow> (NOTIFY_OK, ioss_net_event_generic s)
            | NETDEV_CHANGE \<Rightarrow> (NOTIFY_OK, ioss_net_event_generic s)
            | NETDEV_BEYOND_TABLE \<Rightarrow> (NOTIFY_DONE, s)
            | _ \<Rightarrow> (NOTIFY_OK, s)))"

section \<open>Watching a device\<close>

definition drop_watch :: "('r, 'w) net_env \<Rightarrow> ('r, 'w) net_state \<Rightarrow> ('r, 'w) net_state" where
  "drop_watch E s =
     (case ioss_debugfs_remove_idev (E_kern E) (world s) of (dbg, w) \<Rightarrow>
        (set_iface (\<lambda>i. i\<lparr>active_ws := None\<rparr>) s)\<lparr>check_queued := False, idev_debugfs := dbg, world := w\<rparr>)"

text \<open>
  \<^verbatim>\<open>flush_work\<close> waits for a queued refresh; \<open>v\<close> is what that refresh reads. The error label is
  \<open>err_register\<close>.
\<close>

definition flush_refresh :: "('r, 'w) net_env \<Rightarrow> link_view \<Rightarrow> ('r, 'w) net_state \<Rightarrow> ('r, 'w) net_state option" where
  "flush_refresh E v s = (if refresh_queued s then ioss_refresh_work E v s else Some s)"

definition err_register ::
  "('r, 'w) net_env \<Rightarrow> link_view \<Rightarrow> ('r, 'w) net_state \<Rightarrow> ('r, 'w) net_state option" where
  "err_register E v s =
     do {
       s \<leftarrow> flush_refresh E v (s\<lparr>world := snd (unregister_netdevice_notifier E (world s))\<rparr>);
       Some (drop_watch E s)
     }"

definition ioss_net_watch_device ::
  "('r, 'w) net_env \<Rightarrow> string \<Rightarrow> link_view \<Rightarrow> ('r, 'w) net_state \<Rightarrow> (int \<times> ('r, 'w) net_state) option" where
  "ioss_net_watch_device E own v s =
     (case ioss_debugfs_add_idev (E_kern E) own (world s) of (rc, dbg, w) \<Rightarrow>
        let s = s\<lparr>world := w, idev_debugfs := dbg\<rparr> in
        if rc \<noteq> 0 then Some (- EFAULT, s)
        else
          let s = s\<lparr>idev := (idev s)\<lparr>unbinding := False\<rparr>, refresh_queued := False, check_queued := False\<rparr> in
          (case wakeup_source_register E (world s) of (ok, w) \<Rightarrow>
             let s = (set_iface (\<lambda>i. i\<lparr>active_ws := (if ok then Some False else None)\<rparr>) s)\<lparr>world := w\<rparr> in
             if \<not> ok then do { s \<leftarrow> err_register E v s; Some (rc, s) }
             else (case register_netdevice_notifier E (world s) of (rc, w) \<Rightarrow>
                     let s = s\<lparr>world := w\<rparr> in
                     if rc \<noteq> 0 then do { s \<leftarrow> err_register E v s; Some (rc, s) } else Some (0, s))))"

definition ioss_net_unwatch_device ::
  "('r, 'w) net_env \<Rightarrow> link_view \<Rightarrow> ('r, 'w) net_state \<Rightarrow> (int \<times> ('r, 'w) net_state) option" where
  "ioss_net_unwatch_device E v s =
     do {
       s \<leftarrow> ioss_refresh_work E v (s\<lparr>idev := (idev s)\<lparr>unbinding := True\<rparr>, refresh_queued := True\<rparr>);
       (case unregister_netdevice_notifier E (world s) of (rc, w) \<Rightarrow>
        do {
          s \<leftarrow> flush_refresh E v (s\<lparr>world := w\<rparr>);
          Some (rc, drop_watch E s)
        })
     }"

section \<open>Linking a device\<close>

text \<open>
  \<open>nets\<close> lists the net devices of each network namespace. The inner loop stops at the first net
  device of the PCI device, the outer loop goes on: the last namespace that has one decides
  \<^verbatim>\<open>idev->net_dev\<close>, while the loop cursor the code uses afterwards is only valid when the last
  namespace has one. Using the invalid cursor is \<^const>\<open>None\<close>.
\<close>

primrec link_nets :: "nat \<Rightarrow> netdev list list \<Rightarrow> nat option \<Rightarrow> bool \<Rightarrow> nat option \<times> bool" where
  "link_nets parent [] found valid = (found, valid)"
| "link_nets parent (nds # nets) found valid =
     (case find (\<lambda>nd. nd_parent nd = parent) nds of
        Some nd \<Rightarrow> link_nets parent nets (Some (nd_id nd)) True
      | None \<Rightarrow> link_nets parent nets found False)"

definition ioss_net_link_device :: "nat \<Rightarrow> netdev list list \<Rightarrow> 'r ioss_device \<Rightarrow> (int \<times> 'r ioss_device) option" where
  "ioss_net_link_device parent nets d =
     (if net_dev d \<noteq> None then Some (0, d)
      else (case link_nets parent nets None False of
              (None, _) \<Rightarrow> Some (- ENOENT, d)
            | (Some n, valid) \<Rightarrow> if valid then Some (0, d\<lparr>net_dev := Some n\<rparr>) else None))"

section \<open>Lemmas\<close>

subsection \<open>Frame\<close>

text \<open>Projections of the state after the updates the component performs.\<close>

lemma set_iface_sel [simp]:
  "iface (set_iface f s) = f (iface s)" "llcc (set_iface f s) = llcc s" "world (set_iface f s) = world s"
  "netdev_ops (set_iface f s) = netdev_ops s" "netdev_ops_real (set_iface f s) = netdev_ops_real s"
  "netdev_refs (set_iface f s) = netdev_refs s" "pm_nb_registered (set_iface f s) = pm_nb_registered s"
  "refresh_queued (set_iface f s) = refresh_queued s" "check_queued (set_iface f s) = check_queued s"
  "idev_debugfs (set_iface f s) = idev_debugfs s"
  "unbinding (idev (set_iface f s)) = unbinding (idev s)" "dev_offline (idev (set_iface f s)) = dev_offline (idev s)"
  "net_dev (idev (set_iface f s)) = net_dev (idev s)" "wolopts (idev (set_iface f s)) = wolopts (idev s)"
  by (simp_all add: set_iface_def)

lemma set_state_iface [simp]: "iface (set_state st s) = (iface s)\<lparr>if_state := st\<rparr>"
  by (simp add: set_state_def)

lemma set_channels_iface [simp]: "iface (set_channels s chs l w) = (iface s)\<lparr>channels := chs\<rparr>"
  by (simp add: set_channels_def)

lemma fail_on_iface [simp]:
  "iface (fail_on rc s) = (if rc \<noteq> 0 then (iface s)\<lparr>if_state := IF_ST_ERROR\<rparr> else iface s)"
  by (simp add: fail_on_def)

lemma on_llcc_state: "on_llcc f s = Some (rc, s') \<Longrightarrow> if_state (iface s') = if_state (iface s)"
  by (auto simp: on_llcc_def split: option.splits)

lemma on_world_state: "on_world f s = Some (rc, s') \<Longrightarrow> if_state (iface s') = if_state (iface s)"
  by (auto simp: on_world_def split: option.splits)

lemma ipa_connect_state: "ipa_connect A i w = (rc, i', w') \<Longrightarrow> if_state i' = if_state i"
  using ipa_connect_channels [of A i w rc i' w'] by auto

lemma ipa_register_state:
  assumes "ioss_ipa_register P K A l d i w = Some (rc, i', w')"
  shows "if_state i' = if_state i"
proof (cases "skip_ipa_register P")
  case False
  from register_run [OF assms this] show ?thesis by (auto dest: ipa_connect_state)
qed (use assms in \<open>simp add: ioss_ipa_register_def\<close>)

lemma net_ipa_register_state:
  "net_ipa_register E s = Some (rc, s') \<Longrightarrow> if_state (iface s') = if_state (iface s)"
  by (auto simp: net_ipa_register_def split: option.splits dest: ipa_register_state)

lemma net_ipa_unregister_state: "if_state (iface (snd (net_ipa_unregister E s))) = if_state (iface s)"
  by (auto simp: net_ipa_unregister_def ioss_ipa_unregister_def split: prod.splits)

lemmas net_state_frame = on_llcc_state on_world_state net_ipa_register_state

lemma err_labels_state:
  "err_ipa_register E s = Some s' \<Longrightarrow> if_state (iface s') = IF_ST_ERROR"
  "err_setup_events E s = Some s' \<Longrightarrow> if_state (iface s') = IF_ST_ERROR"
  "err_enable_channels E s = Some s' \<Longrightarrow> if_state (iface s') = IF_ST_ERROR"
  "err_disable_pc E s = Some s' \<Longrightarrow> if_state (iface s') = IF_ST_ERROR"
  by (auto simp: err_ipa_register_def err_setup_events_def err_enable_channels_def err_disable_pc_def
      split: bind_splits)

subsection \<open>The state machine\<close>

lemma set_online_result:
  assumes "ioss_iface_set_online E s = Some s'"
  shows "if if_state (iface s) = IF_ST_OFFLINE then if_state (iface s') \<in> {IF_ST_ONLINE, IF_ST_ERROR} else s' = s"
proof (cases "if_state (iface s) = IF_ST_OFFLINE")
  case True
  then show ?thesis using assms
    by (auto simp: ioss_iface_set_online_def err_labels_state split: bind_splits if_splits prod.splits)
qed (use assms in \<open>simp add: ioss_iface_set_online_def\<close>)

lemma set_offline_result:
  assumes "ioss_iface_set_offline E s = Some s'"
  shows "if if_state (iface s) = IF_ST_ONLINE then if_state (iface s') \<in> {IF_ST_OFFLINE, IF_ST_ERROR} else s' = s"
proof (cases "if_state (iface s) = IF_ST_ONLINE")
  case True
  obtain rc w where pc: "ioss_pci_enable_pc E (world s) = (rc, w)" by fastforce
  let ?s1 = "fail_on rc (set_state IF_ST_OFFLINE s\<lparr>world := w\<rparr>)"
  from assms True pc obtain rc2 s2 rc3 s3 rc5 s5 where
    st: "on_world (ioss_net_disable_channels E) ?s1 = Some (rc2, s2)"
      "on_world (ioss_net_teardown_events E) (fail_on rc2 s2) = Some (rc3, s3)"
      "on_llcc (ioss_net_free_channels E) (fail_on (fst (net_ipa_unregister E (fail_on rc3 s3)))
        (snd (net_ipa_unregister E (fail_on rc3 s3)))) = Some (rc5, s5)"
      "s' = fail_on rc5 s5"
    by (auto simp: ioss_iface_set_offline_def set_state_def Let_def split: bind_splits prod.splits)
  show ?thesis using True st(4) net_state_frame(2) [OF st(1)] net_state_frame(2) [OF st(2)] net_state_frame(1) [OF st(3)]
      net_ipa_unregister_state [of E "fail_on rc3 s3"] by simp
qed (use assms in \<open>simp add: ioss_iface_set_offline_def\<close>)

definition wants_online :: "link_view \<Rightarrow> ('r, 'w) net_state \<Rightarrow> bool" where
  "wants_online v s \<longleftrightarrow> lv_running v \<and> lv_carrier v \<and> \<not> dev_offline (idev s) \<and> \<not> unbinding (idev s)"

text \<open>
  C10. The interface state machine: a refresh leaves an interface in the error or recovery state
  alone, takes an off-line interface to on line or to error and an on-line interface to off line
  or to error, and does so only on its own condition: on line only when the net device is
  registered, running, has carrier, is not administratively off line and is not being unbound;
  off line only when one of these fails.
\<close>

theorem refresh_transitions:
  assumes "ioss_refresh_work E v s = Some s'"
  shows "if_state (iface s') \<in>
    (case if_state (iface s) of
       IF_ST_OFFLINE \<Rightarrow> (if iface_parent (iface s) \<noteq> None \<and> wants_online v s then {IF_ST_ONLINE, IF_ST_ERROR} else {IF_ST_OFFLINE})
     | IF_ST_ONLINE \<Rightarrow> (if iface_parent (iface s) \<noteq> None \<and> \<not> wants_online v s then {IF_ST_OFFLINE, IF_ST_ERROR} else {IF_ST_ONLINE})
     | st \<Rightarrow> {st})
    \<and> (if_state (iface s) \<in> {IF_ST_ERROR, IF_ST_RECOVERY} \<longrightarrow> channels (iface s') = channels (iface s) \<and> world s' = world s)"
proof (cases "iface_parent (iface s) = None")
  case True
  with assms have "s' = s\<lparr>refresh_queued := False\<rparr>" by (simp add: ioss_refresh_work_def)
  with True show ?thesis by (cases "if_state (iface s)") simp_all
next
  case False
  let ?s = "set_iface (\<lambda>i. i\<lparr>link_speed := fetch_ethtool_link_speed v\<rparr>) (s\<lparr>refresh_queued := False\<rparr>)"
  from assms False have "if wants_online v s then ioss_iface_set_online E ?s = Some s' else ioss_iface_set_offline E ?s = Some s'"
    by (auto simp: ioss_refresh_work_def wants_online_def Let_def split: if_splits)
  with set_online_result [of E ?s s'] set_offline_result [of E ?s s'] False show ?thesis
    by (cases "if_state (iface s)") (auto split: if_splits)
qed

text \<open>An environment without a glue driver in which every kernel call succeeds, for examples.\<close>

definition no_ops :: "('r, 'w) driver_ops" where
  "no_ops = \<lparr>request_channel = None, release_channel = None, enable_channel = None, disable_channel = None,
     request_event = None, release_event = None, enable_event = None, disable_event = None\<rparr>"

definition demo_env :: "(nat, unit) net_env" where
  "demo_env = \<lparr>E_kern = ok_kern, E_params = ipa_params_default\<lparr>skip_ipa_register := True\<rparr>, E_ipa = ok_ipa, E_ops = no_ops,
     max_ddr_bandwidth = 0, disable_tcm = False, pm_control = (\<lambda>b w. (0, w)), device_register = (\<lambda>w. (0, w)),
     wakeup_source_register = (\<lambda>w. (True, w)), register_netdevice_notifier = (\<lambda>w. (0, w)),
     unregister_netdevice_notifier = (\<lambda>w. (0, w)), set_wol = None\<rparr>"

definition demo_state :: "(nat, unit) net_state" where
  "demo_state = \<lparr>idev = (idev_zero demo_pci)\<lparr>interface := iface_zero\<lparr>iface_parent := Some 1\<rparr>\<rparr>, llcc = no_tcm, world = (),
     netdev_ops = Ops_real 1, netdev_ops_real = Ops_null, netdev_refs = 0, pm_nb_registered = False,
     refresh_queued = True, check_queued = False, idev_debugfs = True\<rparr>"

definition link_up :: link_view where
  "link_up = \<lparr>lv_speed = Some 2500, lv_running = True, lv_carrier = True\<rparr>"

lemmas demo_net_eval = demo_env_def demo_state_def idev_zero_def iface_zero_def link_up_def
  ioss_refresh_work_def Let_def set_iface_def ioss_iface_set_online_def on_llcc_def on_world_def set_channels_def
  ioss_net_alloc_channels_def net_ipa_register_def ioss_ipa_register_def ipa_params_default_def ioss_net_setup_events_def
  ioss_net_enable_channels_def ioss_pci_disable_pc_def set_state_def

theorem refresh_transitions_witness:
  "if_state (iface (the (ioss_refresh_work demo_env link_up demo_state))) \<in> {IF_ST_ONLINE, IF_ST_ERROR}"
proof -
  have "ioss_refresh_work demo_env link_up demo_state = Some (the (ioss_refresh_work demo_env link_up demo_state))"
    by (simp add: demo_net_eval)
  from refresh_transitions [OF this] show ?thesis
    by (simp add: demo_state_def idev_zero_def iface_zero_def wants_online_def link_up_def)
qed

subsection \<open>Runs\<close>

text \<open>
  One step of the component: a net-device event, a power-management notification, a work item
  the queue runs, the administrative switch, or the start of unbinding.
\<close>

inductive net_step :: "('r, 'w) net_env \<Rightarrow> string \<Rightarrow> nat \<Rightarrow> ('r, 'w) net_state \<Rightarrow> ('r, 'w) net_state \<Rightarrow> bool"
  for E :: "('r, 'w) net_env" and own :: string and parent :: nat where
  event: "ioss_net_device_event E own parent e nd rx s = (rc, s') \<Longrightarrow> net_step E own parent s s'"
| pm: "pm_nb_registered s \<Longrightarrow> net_step E own parent s (pm_notifier_cb e rx s)"
| refresh: "refresh_queued s \<Longrightarrow> ioss_refresh_work E v s = Some s' \<Longrightarrow> net_step E own parent s s'"
| active: "check_queued s \<Longrightarrow> net_step E own parent s (ioss_net_active_work rx s)"
| switch: "net_step E own parent s (ioss_iface_queue_refresh (s\<lparr>idev := (idev s)\<lparr>dev_offline := b\<rparr>\<rparr>))"
| unbind: "ioss_net_unwatch_device E v s = Some (rc, s') \<Longrightarrow> net_step E own parent s s'"

inductive_cases net_stepE: "net_step E own parent s s'"

lemma check_active_iface [simp]:
  "if_state (iface (ioss_net_check_active rx s)) = if_state (iface s)"
  "channels (iface (ioss_net_check_active rx s)) = channels (iface s)"
  by (simp_all add: ioss_net_check_active_def)

lemma queue_refresh_iface [simp]: "idev (ioss_iface_queue_refresh s) = idev s"
  by (simp add: ioss_iface_queue_refresh_def)

text \<open>Handlers and work items keep an interface in the error state, with its channels.\<close>

definition stuck :: "'r ioss_channel list \<Rightarrow> ('r, 'w) net_state \<Rightarrow> bool" where
  "stuck chs s \<longleftrightarrow> if_state (iface s) = IF_ST_ERROR \<and> channels (iface s) = chs"

lemma stuck_event:
  assumes "stuck chs s" "ioss_net_device_event E own parent e nd rx s = (rc, s')"
  shows "stuck chs s'"
  using assms
  by (auto simp: stuck_def ioss_net_device_event_def ioss_net_event_register_def ioss_bus_register_iface_def
      hijack_netdev_ops_def ioss_net_event_unregister_def ioss_bus_unregister_iface_def restore_netdev_ops_def
      ioss_net_event_generic_def ioss_net_event_up_def Let_def
      split: if_splits netdev_event.splits prod.splits option.splits)

lemma stuck_refresh:
  assumes "stuck chs s" "ioss_refresh_work E v s = Some s'"
  shows "stuck chs s'"
  using assms by (auto simp: stuck_def ioss_refresh_work_def ioss_iface_set_online_def ioss_iface_set_offline_def Let_def
      split: if_splits)

lemma stuck_unwatch:
  assumes "stuck chs s" "ioss_net_unwatch_device E v s = Some (rc, s')"
  shows "stuck chs s'"
proof -
  let ?s0 = "s\<lparr>idev := (idev s)\<lparr>unbinding := True\<rparr>, refresh_queued := True\<rparr>"
  from assms(2) obtain s1 w s2 where r: "ioss_refresh_work E v ?s0 = Some s1"
    and f: "flush_refresh E v (s1\<lparr>world := w\<rparr>) = Some s2" and s': "s' = drop_watch E s2"
    by (auto simp: ioss_net_unwatch_device_def split: bind_splits prod.splits)
  from assms(1) have "stuck chs ?s0" by (simp add: stuck_def)
  from stuck_refresh [OF this r] have "stuck chs (s1\<lparr>world := w\<rparr>)" by (simp add: stuck_def)
  with f have "stuck chs s2" by (auto simp: flush_refresh_def split: if_splits dest: stuck_refresh)
  then show ?thesis by (auto simp: s' stuck_def drop_watch_def split: prod.splits)
qed

lemma stuck_step:
  assumes "net_step E own parent s s'" "stuck chs s"
  shows "stuck chs s'"
  using assms(1)
proof cases
  case event
  with assms(2) show ?thesis by (blast intro: stuck_event)
next
  case refresh
  with assms(2) show ?thesis by (blast intro: stuck_refresh)
next
  case unbind
  with assms(2) show ?thesis by (blast intro: stuck_unwatch)
qed (use assms(2) in \<open>auto simp: stuck_def ioss_net_active_work_def pm_notifier_cb_def\<close>)

text \<open>
  C11. The error state is final: whatever sequence of events, notifications, work items, switches
  and unbinding follows, an interface that has entered the error state stays there and its
  channels are never touched again.
\<close>

theorem error_state_final:
  assumes "(net_step E own parent)\<^sup>*\<^sup>* s s'" "if_state (iface s) = IF_ST_ERROR"
  shows "if_state (iface s') = IF_ST_ERROR \<and> channels (iface s') = channels (iface s)"
proof -
  have "stuck (channels (iface s)) s'"
    using assms by (induction rule: rtranclp_induct) (auto simp: stuck_def [of _ s] intro: stuck_step)
  then show ?thesis by (simp add: stuck_def)
qed

theorem error_state_final_witness:
  "if_state (iface (ioss_iface_queue_refresh (set_state IF_ST_ERROR demo_state))) = IF_ST_ERROR"
proof -
  let ?s = "set_state IF_ST_ERROR demo_state"
  have "net_step demo_env ''eth0'' 7 ?s (ioss_iface_queue_refresh ?s)"
    using net_step.switch [of demo_env "''eth0''" 7 ?s False]
    by (simp add: set_state_def set_iface_def demo_state_def idev_zero_def)
  then have "(net_step demo_env ''eth0'' 7)\<^sup>*\<^sup>* ?s (ioss_iface_queue_refresh ?s)" by blast
  from error_state_final [OF this] show ?thesis by simp
qed

subsection \<open>Net-device operations and references\<close>

text \<open>
  Hijacking the statistics callback is undone: after a successful registration of the net
  device, and whatever refreshes, statistics and power-management steps run in between as long
  as they leave the saved pointer alone, the unregister event gives the net device its own
  operations back, drops the reference taken, and leaves no periodic work and no notifier.
\<close>

theorem register_event_undone:
  assumes "device_register E (world s) = (0, w)"
    and "netdev_ops_real s1 = netdev_ops_real (ioss_net_event_register E n rx s)"
    and "netdev_refs s1 = netdev_refs (ioss_net_event_register E n rx s)"
  shows "netdev_ops (ioss_net_event_register E n rx s) = Ops_ioss
    \<and> netdev_ops (ioss_net_event_unregister s1) = netdev_ops s
    \<and> netdev_refs (ioss_net_event_unregister s1) = netdev_refs s
    \<and> iface_parent (iface (ioss_net_event_unregister s1)) = None
    \<and> \<not> check_queued (ioss_net_event_unregister s1) \<and> \<not> pm_nb_registered (ioss_net_event_unregister s1)"
  using assms
  by (simp add: ioss_net_event_register_def ioss_bus_register_iface_def hijack_netdev_ops_def
      ioss_iface_queue_refresh_def ioss_net_check_active_def ioss_net_event_unregister_def
      ioss_bus_unregister_iface_def restore_netdev_ops_def Let_def)

theorem register_event_undone_witness:
  "netdev_ops (ioss_net_event_unregister (ioss_net_event_register demo_env 1 0 demo_state)) = Ops_real 1"
proof -
  have "device_register demo_env (world demo_state) = (0, ())" by (simp add: demo_env_def)
  from register_event_undone [OF this refl refl, of 1 0] show ?thesis by (simp add: demo_state_def)
qed

text \<open>
  A defect: when registering the interface device fails, the reference to the net device and
  the parent pointer stay, and nothing has been hijacked. The unregister event that follows
  nevertheless \<open>restores\<close> the saved pointer: it installs the NULL operations table in the net
  device.
\<close>

theorem failed_register_clears_ops:
  assumes "device_register E (world s) = (rc, w)" "rc \<noteq> 0" "netdev_ops_real s = Ops_null"
  shows "netdev_ops (ioss_net_event_unregister (ioss_net_event_register E n rx s)) = Ops_null
    \<and> netdev_refs (ioss_net_event_register E n rx s) = netdev_refs s + 1
    \<and> iface_parent (iface (ioss_net_event_register E n rx s)) = Some n
    \<and> if_state (iface (ioss_net_event_register E n rx s)) = IF_ST_ERROR"
  using assms
  by (simp add: ioss_net_event_register_def ioss_bus_register_iface_def set_state_def
      ioss_iface_queue_refresh_def ioss_net_event_unregister_def ioss_bus_unregister_iface_def restore_netdev_ops_def Let_def)

theorem failed_register_clears_ops_witness:
  "netdev_ops demo_state = Ops_real 1
   \<and> netdev_ops (ioss_net_event_unregister (ioss_net_event_register
        (demo_env\<lparr>device_register := (\<lambda>w. (- ENOMEM, w))\<rparr>) 1 0 demo_state)) = Ops_null"
  using failed_register_clears_ops [of "demo_env\<lparr>device_register := (\<lambda>w. (- ENOMEM, w))\<rparr>" demo_state "- ENOMEM" "()" 1 0]
  by (simp add: demo_state_def demo_env_def)

subsection \<open>Statistics\<close>

text \<open>
  The hardware-path counters are consistent with the hijacked net-device statistics: the
  exception packets that the hijacked callback adds to the net-device count are added back, so
  the hardware-path count is the controller's count less the software path's, in packets and in
  bytes, whatever the exception counters are.
\<close>

theorem hw_path_statistics:
  assumes "get_idev_statistics devst chst (netdev_get_stats64 sw i) i = Inr st"
    and "devst device_stats_zero = Some d0" "emac_rx_packets d0 \<noteq> 0" "emac_rx_bytes d0 \<noteq> 0"
    and "exp_rx_packets d0 = 0" "exp_rx_bytes d0 = 0"
  shows "hwp_rx_packets st = emac_rx_packets d0 - st_rx_packets sw
    \<and> hwp_rx_bytes st = emac_rx_bytes d0 - st_rx_bytes sw
    \<and> exp_rx_packets st = exc_rx_packets i \<and> exp_rx_bytes st = exc_rx_bytes i"
proof -
  from assms(1,2) obtain st1 where a: "add_channel_errors chst (channels i) d0 = Some st1"
    by (auto simp: get_idev_statistics_def split: option.splits)
  from add_channel_errors_frame [OF this] obtain x y where "st1 = d0\<lparr>hwp_rx_errors := x, hwp_tx_errors := y\<rparr>" by blast
  with assms a show ?thesis
    by (auto simp: get_idev_statistics_def netdev_get_stats64_def Let_def)
qed

theorem hw_path_statistics_witness:
  "hwp_rx_packets (projr (get_idev_statistics (\<lambda>d. Some (d\<lparr>emac_rx_packets := 100, emac_rx_bytes := 9000\<rparr>))
     (\<lambda>_. None) (netdev_get_stats64 \<lparr>st_rx_packets = 30, st_tx_packets = 0, st_rx_bytes = 2000, st_tx_bytes = 0\<rparr>
        ((iface_zero :: nat ioss_interface)\<lparr>exc_rx_packets := 7\<rparr>)) ((iface_zero :: nat ioss_interface)\<lparr>exc_rx_packets := 7\<rparr>))) = 70"
proof -
  let ?dev = "\<lambda>d. Some (d\<lparr>emac_rx_packets := 100, emac_rx_bytes := 9000\<rparr>)"
  let ?sw = "\<lparr>st_rx_packets = 30, st_tx_packets = 0, st_rx_bytes = 2000, st_tx_bytes = 0\<rparr>"
  let ?i = "(iface_zero :: nat ioss_interface)\<lparr>exc_rx_packets := 7\<rparr>"
  let ?r = "get_idev_statistics ?dev (\<lambda>_. None) (netdev_get_stats64 ?sw ?i) ?i"
  have "?r = Inr (projr ?r)" by (simp add: get_idev_statistics_def iface_zero_def Let_def)
  from hw_path_statistics [OF this] show ?thesis by (simp add: device_stats_zero_def)
qed

subsection \<open>Tightly coupled memory\<close>

lemma select_llcc_config_cases:
  assumes "ioss_net_select_llcc_config E ch l w = (rc, ch', l', w')"
  shows "(rc \<noteq> 0 \<and> ch' = ch)
    \<or> (rc = 0 \<and> (\<exists>t. tcm_mem l = None \<and> l' = l\<lparr>tcm_mem := Some t\<rparr>
         \<and> is_power_of_2 (tcm_size t div buff_size (config ch))
         \<and> ch' = ch\<lparr>config := (config ch)\<lparr>ring_size := tcm_size t div buff_size (config ch),
                                        buff_alctr := Some Llcc_alctr\<rparr>\<rparr>))"
  using assms by (auto simp: ioss_net_select_llcc_config_def Let_def split: if_splits prod.splits dest: llcc_mem_get_cases)

text \<open>
  Choosing and giving up a channel configuration: a channel that ends up with buffers in the
  tightly coupled memory has a power-of-two ring that fits the block, and giving the
  configuration up deactivates the block and restores the default configuration. A channel that
  does not use the block keeps its default configuration throughout.
\<close>

theorem channel_config_undone:
  assumes "ioss_net_select_channel_config E speed ch l w = (ch1, l1, w1)"
    and "buff_alctr (default_config ch) \<noteq> Some Llcc_alctr"
    and "ioss_net_deselect_channel_config E ch1 l1 w2 = (ch2, l2, w3)"
  shows "ch2 = ch\<lparr>config := default_config ch\<rparr>
    \<and> (if buff_alctr (config ch1) = Some Llcc_alctr
       then direction ch = CH_DIR_TX \<and> speed > max_ddr_bandwidth E \<and> tcm_mem l = None \<and> l2 = l
            \<and> is_power_of_2 (ring_size (config ch1))
            \<and> (\<exists>t. tcm_mem l1 = Some t
                 \<and> unat (ring_size (config ch1)) * unat (buff_size (config ch1)) \<le> unat (tcm_size t))
       else config ch1 = default_config ch \<and> l2 = l1)"
proof (cases "direction ch = CH_DIR_TX \<and> speed > max_ddr_bandwidth E")
  case True
  let ?ch = "ch\<lparr>config := default_config ch\<rparr>"
  obtain rc chx lx wx where s: "ioss_net_select_llcc_config E ?ch l w = (rc, chx, lx, wx)"
    by (cases "ioss_net_select_llcc_config E ?ch l w") auto
  with assms(1) True have x: "chx = ch1" "lx = l1" by (auto simp: ioss_net_select_channel_config_def Let_def)
  from select_llcc_config_cases [OF s] show ?thesis
  proof (elim disjE conjE exE)
    assume "chx = ?ch"
    with x assms(2,3) show ?thesis by (auto simp: ioss_net_deselect_channel_config_def)
  next
    fix t assume t: "tcm_mem l = None" "lx = l\<lparr>tcm_mem := Some t\<rparr>"
      "is_power_of_2 (tcm_size t div buff_size (config ?ch))"
      "chx = ?ch\<lparr>config := (config ?ch)\<lparr>ring_size := tcm_size t div buff_size (config ?ch), buff_alctr := Some Llcc_alctr\<rparr>\<rparr>"
    have "unat (tcm_size t div buff_size (default_config ch)) * unat (buff_size (default_config ch)) \<le> unat (tcm_size t)"
      by (simp add: unat_div_distrib div_times_less_eq_dividend)
    with t x assms(3) True show ?thesis
      by (auto simp: ioss_net_deselect_channel_config_def llcc_mem_put_def)
  qed
next
  case False
  with assms show ?thesis
    by (auto simp: ioss_net_select_channel_config_def ioss_net_deselect_channel_config_def Let_def)
qed

text \<open>A transmit channel with 2 KiB buffers, and a block of 1 MiB.\<close>

definition tx_channel :: "u32 \<Rightarrow> nat ioss_channel" where
  "tx_channel bsz = channel_zero\<lparr>direction := CH_DIR_TX,
     default_config := \<lparr>ring_size = 1024, buff_size = bsz, desc_alctr = Some Default_alctr, buff_alctr = Some Default_alctr\<rparr>\<rparr>"

definition tcm_env :: "(nat, unit) net_env" where
  "tcm_env = demo_env\<lparr>E_kern := ok_kern\<lparr>llcc_tcm_activate := (\<lambda>w. (Some some_tcm, w))\<rparr>\<rparr>"

lemmas tcm_eval = tx_channel_def channel_zero_def tcm_env_def demo_env_def ok_kern_def some_tcm_def
  ioss_net_select_channel_config_def ioss_net_select_llcc_config_def ioss_net_deselect_channel_config_def
  llcc_mem_get_def llcc_mem_put_def is_power_of_2_def Let_def

theorem channel_config_undone_witness:
  "ring_size (config (fst (ioss_net_select_channel_config tcm_env 2500 (tx_channel 2048) no_tcm ()))) = 512
   \<and> fst (ioss_net_deselect_channel_config tcm_env
        (fst (ioss_net_select_channel_config tcm_env 2500 (tx_channel 2048) no_tcm ()))
        \<lparr>tcm_mem = Some some_tcm, tcm_in_use = False\<rparr> ())
      = (tx_channel 2048)\<lparr>config := default_config (tx_channel 2048)\<rparr>"
proof -
  let ?s = "ioss_net_select_channel_config tcm_env 2500 (tx_channel 2048) no_tcm ()"
  let ?l = "\<lparr>tcm_mem = Some some_tcm, tcm_in_use = False\<rparr>"
  let ?d = "ioss_net_deselect_channel_config tcm_env (fst ?s) ?l ()"
  have s: "?s = (fst ?s, ?l, ())" by (simp add: tcm_eval)
  have d: "?d = (fst ?d, fst (snd ?d), snd (snd ?d))" by (metis surjective_pairing)
  have "buff_alctr (default_config (tx_channel 2048)) \<noteq> Some Llcc_alctr" by (simp add: tx_channel_def)
  from channel_config_undone [OF s this d] show ?thesis by (simp add: tcm_eval)
qed

text \<open>
  A defect: when the block does not hold a power-of-two number of buffers, the default
  configuration is kept but the block, already activated, is not given back: it stays active
  after the channel's configuration has been given up.
\<close>

theorem llcc_rejected_stays_active:
  "\<exists>ch1 l1 ch2 l2.
     ioss_net_select_channel_config tcm_env 2500 (tx_channel 1536) no_tcm () = (ch1, l1, ())
     \<and> config ch1 = default_config (tx_channel 1536)
     \<and> ioss_net_deselect_channel_config tcm_env ch1 l1 () = (ch2, l2, ())
     \<and> tcm_mem l2 = Some some_tcm"
  by (simp add: tcm_eval)

subsection \<open>Watching and linking\<close>

text \<open>
  A defect: when no wakeup source can be registered, \<open>ioss_net_watch_device\<close> takes its error
  path, which removes the debugfs directory and registers no notifier, and returns 0.
\<close>

theorem watch_failure_reported_as_success:
  "\<exists>s'. ioss_net_watch_device (demo_env\<lparr>wakeup_source_register := (\<lambda>w. (False, w))\<rparr>) ''eth0'' link_up demo_state = Some (0, s')
     \<and> active_ws (iface s') = None \<and> \<not> idev_debugfs s'"
  by (simp add: ioss_net_watch_device_def demo_env_def demo_state_def ioss_debugfs_add_idev_def create_dir_files_def
      ok_kern_def err_register_def flush_refresh_def drop_watch_def ioss_debugfs_remove_idev_def Let_def)

text \<open>
  Linking: in a system with one network namespace a device is linked to the first net device
  of its PCI device, without error, or the link fails because there is none. With a second
  namespace that does not hold the device, the loop cursor the code goes on to use is invalid.
\<close>

theorem link_device_single_namespace:
  "ioss_net_link_device parent [nds] (d\<lparr>net_dev := None\<rparr>) =
     (case find (\<lambda>nd. nd_parent nd = parent) nds of
        None \<Rightarrow> Some (- ENOENT, d\<lparr>net_dev := None\<rparr>)
      | Some nd \<Rightarrow> Some (0, d\<lparr>net_dev := Some (nd_id nd)\<rparr>))
   \<and> ioss_net_link_device 7 [[\<lparr>nd_id = 1, nd_name = ''eth0'', nd_parent = 7\<rparr>], []] (d\<lparr>net_dev := None\<rparr>) = None"
  by (simp add: ioss_net_link_device_def split: option.splits)

end
