(* ===== verification/Ioss_Pci.thy ===== *)
theory Ioss_Pci
  imports Ioss_Net
begin

text \<open>
  Power management of the PCI device (\<^verbatim>\<open>ioss/ioss_pci.c\<close>): while an interface is on line the
  system's suspend and resume callbacks must not reach the network driver. The glue driver's
  operations table is put in place of the driver's own by the first device that binds and taken
  out by the last one that goes.
\<close>

section \<open>Replacing the driver's operations\<close>

datatype pm_ptr = Pm_real nat | Pm_ioss

record pm_state =
  driver_pm :: "pm_ptr option"
  pm_ops_real :: "pm_ptr option"
  pm_refcnt :: int

text \<open>
  \<^verbatim>\<open>refcount_t\<close>: an increment from 0 is refused, a decrement of 0 saturates.
\<close>

abbreviation (input) REFCOUNT_SATURATED :: int where "REFCOUNT_SATURATED \<equiv> - 1073741824"

definition refcount_inc_not_zero :: "int \<Rightarrow> bool \<times> int" where
  "refcount_inc_not_zero n = (if n = 0 then (False, 0) else if n < 0 then (True, REFCOUNT_SATURATED) else (True, n + 1))"

definition refcount_dec_and_test :: "int \<Rightarrow> bool \<times> int" where
  "refcount_dec_and_test n =
     (if n = 1 then (True, 0) else if n \<le> 0 then (False, REFCOUNT_SATURATED) else (False, n - 1))"

definition ioss_pci_hijack_pm_ops :: "pm_state \<Rightarrow> pm_state" where
  "ioss_pci_hijack_pm_ops p =
     (case refcount_inc_not_zero (pm_refcnt p) of (ok, n) \<Rightarrow>
        if \<not> ok then p\<lparr>pm_ops_real := driver_pm p, driver_pm := Some Pm_ioss, pm_refcnt := 1\<rparr>
        else p\<lparr>pm_refcnt := n\<rparr>)"

definition ioss_pci_restore_pm_ops :: "pm_state \<Rightarrow> pm_state" where
  "ioss_pci_restore_pm_ops p =
     (case refcount_dec_and_test (pm_refcnt p) of (final, n) \<Rightarrow>
        let p = p\<lparr>pm_refcnt := n\<rparr> in if final then p\<lparr>driver_pm := pm_ops_real p\<rparr> else p)"

section \<open>Suspend and resume\<close>

text \<open>
  \<open>p_idev\<close> is what \<^verbatim>\<open>ioss_real_to_idev\<close> finds, \<open>p_bound\<close> whether that device is bound to the glue
  driver. The real driver's callbacks are the parameter \<open>real\<close>.
\<close>

record ('r, 'w) pci_dev_state =
  p_pm :: pm_state
  p_idev :: "'r ioss_device option"
  p_bound :: bool
  state_saved :: bool
  no_d3hot :: bool
  p_world :: 'w

type_synonym 'w pm_cb = "('w \<Rightarrow> int \<times> 'w) option"

definition check_pm_ops :: "pm_ptr option \<Rightarrow> bool" where
  "check_pm_ops p \<longleftrightarrow> p = Some Pm_ioss"

definition real_pm_ops :: "('r, 'w) pci_dev_state \<Rightarrow> pm_ptr option" where
  "real_pm_ops s =
     (let first = (if check_pm_ops (driver_pm (p_pm s)) then pm_ops_real (p_pm s) else None) in
      case first of
        Some p \<Rightarrow> Some p
      | None \<Rightarrow> (case p_idev s of None \<Rightarrow> None | Some _ \<Rightarrow> if p_bound s then pm_ops_real (p_pm s) else None))"

definition ioss_pci_nop_suspend :: "'r ioss_device \<Rightarrow> ('r, 'w) pci_dev_state \<Rightarrow> int \<times> ('r, 'w) pci_dev_state" where
  "ioss_pci_nop_suspend d s =
     (0, s\<lparr>p_idev := Some (d\<lparr>apps_suspend := apps_suspend d + 1\<rparr>), state_saved := False, no_d3hot := True\<rparr>)"

definition ioss_pci_nop_resume :: "'r ioss_device \<Rightarrow> ('r, 'w) pci_dev_state \<Rightarrow> int \<times> ('r, 'w) pci_dev_state" where
  "ioss_pci_nop_resume d s =
     (0, s\<lparr>p_idev := Some (d\<lparr>apps_resume := apps_resume d + 1\<rparr>), no_d3hot := False\<rparr>)"

definition delegate :: "(pm_ptr \<Rightarrow> 'w pm_cb) \<Rightarrow> ('r, 'w) pci_dev_state \<Rightarrow> int \<times> ('r, 'w) pci_dev_state" where
  "delegate real s =
     (case real_pm_ops s of
        None \<Rightarrow> (- EINVAL, s)
      | Some p \<Rightarrow> (case real p of
                     None \<Rightarrow> (- EINVAL, s)
                   | Some f \<Rightarrow> (case f (p_world s) of (rc, w) \<Rightarrow> (rc, s\<lparr>p_world := w\<rparr>))))"

definition ioss_pci_real_suspend ::
  "(pm_ptr \<Rightarrow> 'w pm_cb) \<Rightarrow> ('r, 'w) pci_dev_state \<Rightarrow> int \<times> ('r, 'w) pci_dev_state" where
  "ioss_pci_real_suspend real s =
     delegate real (s\<lparr>p_idev := map_option (\<lambda>d. d\<lparr>system_suspend := system_suspend d + 1\<rparr>) (p_idev s)\<rparr>)"

definition ioss_pci_real_resume ::
  "(pm_ptr \<Rightarrow> 'w pm_cb) \<Rightarrow> ('r, 'w) pci_dev_state \<Rightarrow> int \<times> ('r, 'w) pci_dev_state" where
  "ioss_pci_real_resume real s =
     delegate real (s\<lparr>p_idev := map_option (\<lambda>d. d\<lparr>system_resume := system_resume d + 1\<rparr>) (p_idev s)\<rparr>)"

definition idev_online :: "('r, 'w) pci_dev_state \<Rightarrow> 'r ioss_device option" where
  "idev_online s =
     (case p_idev s of None \<Rightarrow> None | Some d \<Rightarrow> if if_state (interface d) = IF_ST_ONLINE then Some d else None)"

definition ioss_pci_suspend_handler ::
  "(pm_ptr \<Rightarrow> 'w pm_cb) \<Rightarrow> ('r, 'w) pci_dev_state \<Rightarrow> int \<times> ('r, 'w) pci_dev_state" where
  "ioss_pci_suspend_handler real s =
     (case idev_online s of Some d \<Rightarrow> ioss_pci_nop_suspend d s | None \<Rightarrow> ioss_pci_real_suspend real s)"

definition ioss_pci_resume_handler ::
  "(pm_ptr \<Rightarrow> 'w pm_cb) \<Rightarrow> ('r, 'w) pci_dev_state \<Rightarrow> int \<times> ('r, 'w) pci_dev_state" where
  "ioss_pci_resume_handler real s =
     (case idev_online s of Some d \<Rightarrow> ioss_pci_nop_resume d s | None \<Rightarrow> ioss_pci_real_resume real s)"

section \<open>Lemmas\<close>

datatype pm_call = Hijack | Restore

definition pm_call_step :: "pm_call \<Rightarrow> pm_state \<Rightarrow> pm_state" where
  "pm_call_step c p = (case c of Hijack \<Rightarrow> ioss_pci_hijack_pm_ops p | Restore \<Rightarrow> ioss_pci_restore_pm_ops p)"

definition pm_run :: "pm_call list \<Rightarrow> pm_state \<Rightarrow> pm_state" where
  "pm_run cs p = fold pm_call_step cs p"

text \<open>Devices bound after the calls; \<^const>\<open>None\<close> when a device goes that never came.\<close>

primrec bound_devices :: "pm_call list \<Rightarrow> nat \<Rightarrow> nat option" where
  "bound_devices [] n = Some n"
| "bound_devices (c # cs) n =
     (case c of Hijack \<Rightarrow> bound_devices cs (Suc n) | Restore \<Rightarrow> (if n = 0 then None else bound_devices cs (n - 1)))"

definition pm_inv :: "pm_ptr option \<Rightarrow> nat \<Rightarrow> pm_state \<Rightarrow> bool" where
  "pm_inv own n p \<longleftrightarrow> pm_refcnt p = int n
     \<and> (if n = 0 then driver_pm p = own else driver_pm p = Some Pm_ioss \<and> pm_ops_real p = own)"

lemma hijack_inv: "pm_inv own n p \<Longrightarrow> pm_inv own (Suc n) (ioss_pci_hijack_pm_ops p)"
  by (auto simp: pm_inv_def ioss_pci_hijack_pm_ops_def refcount_inc_not_zero_def)

lemma restore_inv: "pm_inv own (Suc n) p \<Longrightarrow> pm_inv own n (ioss_pci_restore_pm_ops p)"
  by (auto simp: pm_inv_def ioss_pci_restore_pm_ops_def refcount_dec_and_test_def Let_def)

lemma pm_run_inv: "pm_inv own n p \<Longrightarrow> bound_devices cs n = Some m \<Longrightarrow> pm_inv own m (pm_run cs p)"
proof (induction cs arbitrary: n p)
  case (Cons c cs)
  show ?case
  proof (cases c)
    case Hijack
    with Cons.IH [OF hijack_inv [OF Cons.prems(1)]] Cons.prems(2) show ?thesis by (simp add: pm_run_def pm_call_step_def)
  next
    case Restore
    with Cons.prems(2) obtain k where "n = Suc k" by (cases n) auto
    with Cons.IH [OF restore_inv] Cons.prems Restore show ?thesis by (simp add: pm_run_def pm_call_step_def)
  qed
qed (simp add: pm_run_def)

text \<open>
  Sharing the operations table: over any sequence of devices that bind and go, in any order,
  the driver has the glue table while at least one device is bound, the saved pointer is the
  driver's own table all that time, and when the last device goes the driver has its own table
  back.
\<close>

theorem pm_ops_shared:
  assumes "pm_refcnt p = 0" "bound_devices cs 0 = Some n"
  shows "pm_refcnt (pm_run cs p) = int n
    \<and> (if n = 0 then driver_pm (pm_run cs p) = driver_pm p
       else driver_pm (pm_run cs p) = Some Pm_ioss \<and> pm_ops_real (pm_run cs p) = driver_pm p)"
proof -
  have "pm_inv (driver_pm p) 0 p" using assms(1) by (simp add: pm_inv_def)
  from pm_run_inv [OF this assms(2)] show ?thesis by (simp add: pm_inv_def)
qed

theorem pm_ops_shared_witness:
  "driver_pm (pm_run [Hijack, Hijack, Restore] \<lparr>driver_pm = Some (Pm_real 3), pm_ops_real = None, pm_refcnt = 0\<rparr>) = Some Pm_ioss
   \<and> driver_pm (pm_run [Hijack, Hijack, Restore, Restore] \<lparr>driver_pm = Some (Pm_real 3), pm_ops_real = None, pm_refcnt = 0\<rparr>)
     = Some (Pm_real 3)"
  using pm_ops_shared [of "\<lparr>driver_pm = Some (Pm_real 3), pm_ops_real = None, pm_refcnt = 0\<rparr>" "[Hijack, Hijack, Restore]" 1]
    pm_ops_shared [of "\<lparr>driver_pm = Some (Pm_real 3), pm_ops_real = None, pm_refcnt = 0\<rparr>" "[Hijack, Hijack, Restore, Restore]" 0]
  by simp

text \<open>
  While an interface is on line, suspend and resume succeed without reaching the network
  driver: its state is unchanged, the PCI core is told not to power the device down during the
  suspend and allowed to again after the resume. Off line, with the table in place, each is
  exactly one call of the network driver's own callback, with its return code.
\<close>

theorem suspend_resume_handlers:
  assumes "p_idev s = Some d" "driver_pm (p_pm s) = Some Pm_ioss" "pm_ops_real (p_pm s) = Some own"
    and "real_s own = Some fs" "real_r own = Some fr"
  shows "case ioss_pci_suspend_handler real_s s of (rc, s1) \<Rightarrow>
      (case ioss_pci_resume_handler real_r s1 of (rc2, s2) \<Rightarrow>
        if if_state (interface d) = IF_ST_ONLINE
        then rc = 0 \<and> rc2 = 0 \<and> p_world s1 = p_world s \<and> p_world s2 = p_world s \<and> no_d3hot s1 \<and> \<not> state_saved s1 \<and> \<not> no_d3hot s2
          \<and> p_idev s2 = Some (d\<lparr>apps_suspend := apps_suspend d + 1, apps_resume := apps_resume d + 1\<rparr>)
        else (rc, p_world s1) = fs (p_world s) \<and> (rc2, p_world s2) = fr (p_world s1)
          \<and> p_idev s2 = Some (d\<lparr>system_suspend := system_suspend d + 1, system_resume := system_resume d + 1\<rparr>))"
  using assms
  by (auto simp: ioss_pci_suspend_handler_def ioss_pci_resume_handler_def idev_online_def ioss_pci_nop_suspend_def
      ioss_pci_nop_resume_def ioss_pci_real_suspend_def ioss_pci_real_resume_def delegate_def real_pm_ops_def check_pm_ops_def
      Let_def split: prod.splits option.splits)

theorem suspend_resume_handlers_witness:
  "let s = \<lparr>p_pm = \<lparr>driver_pm = Some Pm_ioss, pm_ops_real = Some (Pm_real 3), pm_refcnt = 1\<rparr>,
            p_idev = Some (idev_zero demo_pci :: nat ioss_device), p_bound = True, state_saved = True, no_d3hot = False,
            p_world = (0 :: nat)\<rparr>
   in p_world (snd (ioss_pci_suspend_handler (\<lambda>_. Some (\<lambda>w. (0, w + 1))) s)) = 1"
  using suspend_resume_handlers [of "\<lparr>p_pm = \<lparr>driver_pm = Some Pm_ioss, pm_ops_real = Some (Pm_real 3), pm_refcnt = 1\<rparr>,
            p_idev = Some (idev_zero demo_pci :: nat ioss_device), p_bound = True, state_saved = True, no_d3hot = False,
            p_world = (0 :: nat)\<rparr>" "idev_zero demo_pci" "Pm_real 3" "\<lambda>_. Some (\<lambda>w. (0, w + 1))" "\<lambda>w. (0, w + 1)"
     "\<lambda>_. Some (\<lambda>w. (0, w))" "\<lambda>w. (0, w)"]
  by (auto simp: idev_zero_def iface_zero_def split: prod.splits)

end
