(* ===== verification/Ioss_Of.thy ===== *)
theory Ioss_Of
  imports Ioss_Util
begin

text \<open>
  Device-tree parsing (\<^verbatim>\<open>ioss/ioss_of.c\<close>): the channels of a device come from its device-tree
  node, from child nodes when a phandle does not resolve to a channel, and from a built-in
  configuration for an RTL8125 whose bindings are missing or cannot be parsed.

  The kernel's device-tree interface is the parameter \<open>of_api\<close>, over node handles \<^typ>\<open>'n\<close>.
\<close>

unbundle bit_operations_syntax

record 'n of_api =
  of_find_property :: "'n \<Rightarrow> string \<Rightarrow> bool"
  of_property_read_u32 :: "'n \<Rightarrow> string \<Rightarrow> u32 option"
  of_count_phandle :: "'n \<Rightarrow> string \<Rightarrow> int"
  of_parse_phandle :: "'n \<Rightarrow> string \<Rightarrow> nat \<Rightarrow> 'n option"
  of_node_name :: "'n \<Rightarrow> string"
  of_node_name_eq :: "'n \<Rightarrow> string \<Rightarrow> bool"
  of_children :: "'n \<Rightarrow> 'n list"
  of_compatible :: "'n \<Rightarrow> string \<Rightarrow> bool"
  of_root_pdev :: "'n \<Rightarrow> nat option"

abbreviation R8125_PCI_DEVICE_ID :: u16 where "R8125_PCI_DEVICE_ID \<equiv> 0x8125"
abbreviation PCI_VENDOR_ID_REALTEK :: u16 where "PCI_VENDOR_ID_REALTEK \<equiv> 0x10ec"
abbreviation R8125_INSTANCE_ID :: u32 where "R8125_INSTANCE_ID \<equiv> 0"
abbreviation R8125_RX_RING_SIZE :: u32 where "R8125_RX_RING_SIZE \<equiv> 1023"
abbreviation R8125_TX_RING_SIZE :: u32 where "R8125_TX_RING_SIZE \<equiv> 1024"
abbreviation R8125_BUFFER_SIZE :: u32 where "R8125_BUFFER_SIZE \<equiv> 2048"

abbreviation WAKE_PHY :: u32 where "WAKE_PHY \<equiv> 1"
abbreviation WAKE_MAGIC :: u32 where "WAKE_MAGIC \<equiv> 32"

text \<open>Updates of \<^verbatim>\<open>idev->interface\<close>.\<close>

definition upd_iface :: "('r ioss_interface \<Rightarrow> 'r ioss_interface) \<Rightarrow> 'r ioss_device \<Rightarrow> 'r ioss_device" where
  "upd_iface f d = d\<lparr>interface := f (interface d)\<rparr>"

definition ioss_of_free_channels :: "'r ioss_device \<Rightarrow> 'r ioss_device" where
  "ioss_of_free_channels d = upd_iface (\<lambda>i. i\<lparr>channels := []\<rparr>) d"

section \<open>Built-in configuration\<close>

text \<open>The two allocations every channel needs; the int is 0 or \<open>-ENOMEM\<close>.\<close>

definition alloc_channel :: "'w kern \<Rightarrow> 'w \<Rightarrow> int \<times> 'w" where
  "alloc_channel K w =
     (case kzalloc K w of (ok, w) \<Rightarrow>
        if \<not> ok then (- ENOMEM, w)
        else (case kzalloc K w of (ok, w) \<Rightarrow> if \<not> ok then (- ENOMEM, w) else (0, w)))"

definition fallback_channel :: "channel_dir \<Rightarrow> 'r ioss_channel" where
  "fallback_channel dir = channel_zero\<lparr>direction := dir,
     default_config := \<lparr>ring_size = (if dir = CH_DIR_RX then R8125_RX_RING_SIZE else R8125_TX_RING_SIZE),
       buff_size = R8125_BUFFER_SIZE, desc_alctr = Some Default_alctr, buff_alctr = Some Default_alctr\<rparr>,
     event := event_zero\<lparr>mod_count_min := 32, mod_count_max := 64, mod_usecs_min := 30, mod_usecs_max := 60\<rparr>,
     filter_types := (if dir = CH_DIR_RX then RXF_F_IP else 0)\<rparr>"

definition ioss_of_add_fallback_channel ::
  "'w kern \<Rightarrow> channel_dir \<Rightarrow> 'r ioss_device \<Rightarrow> 'w \<Rightarrow> int \<times> 'r ioss_device \<times> 'w" where
  "ioss_of_add_fallback_channel K dir d w =
     (case alloc_channel K w of (rc, w) \<Rightarrow>
        if rc \<noteq> 0 then (rc, d, w)
        else (0, upd_iface (\<lambda>i. i\<lparr>channels := channels i @ [fallback_channel dir]\<rparr>) d, w))"

text \<open>The common error exit: channels and private data of the interface are freed.\<close>

definition of_fail :: "'r ioss_device \<Rightarrow> 'r ioss_device" where
  "of_fail d = upd_iface (\<lambda>i. i\<lparr>iface_priv := False\<rparr>) (ioss_of_free_channels d)"

definition ioss_of_parse_r8125_fallback ::
  "'w kern \<Rightarrow> 'r ioss_device \<Rightarrow> 'w \<Rightarrow> int \<times> 'r ioss_device \<times> 'w" where
  "ioss_of_parse_r8125_fallback K d w =
     (case kzalloc K w of (ok, w) \<Rightarrow>
        if \<not> ok then (- ENOMEM, upd_iface (\<lambda>i. i\<lparr>iface_priv := False\<rparr>) d, w)
        else
          let d = upd_iface (\<lambda>i. i\<lparr>iface_priv := True, instance_id := R8125_INSTANCE_ID\<rparr>) d in
          (case ioss_of_add_fallback_channel K CH_DIR_RX d w of (rc, d, w) \<Rightarrow>
             if rc \<noteq> 0 then (rc, of_fail d, w)
             else (case ioss_of_add_fallback_channel K CH_DIR_TX d w of (rc, d, w) \<Rightarrow>
                     if rc \<noteq> 0 then (rc, of_fail d, w) else (0, d, w))))"

definition ioss_is_r8125_pci_dev :: "'r ioss_device \<Rightarrow> bool" where
  "ioss_is_r8125_pci_dev d \<longleftrightarrow> on_pci_bus (real_dev d)
     \<and> pci_vendor (real_dev d) = PCI_VENDOR_ID_REALTEK \<and> pci_device (real_dev d) = R8125_PCI_DEVICE_ID"

section \<open>Channels from the device tree\<close>

text \<open>
  The fields of a channel node, in the order they are read; \<^const>\<open>None\<close> is the error exit.
\<close>

definition of_channel :: "'n of_api \<Rightarrow> 'n \<Rightarrow> 'r ioss_channel option" where
  "of_channel T np =
     do {
       dir \<leftarrow> (if of_find_property T np ''qcom,dir-rx'' then Some CH_DIR_RX
               else if of_find_property T np ''qcom,dir-tx'' then Some CH_DIR_TX else None);
       rs \<leftarrow> of_property_read_u32 T np ''qcom,ring-size'';
       bs \<leftarrow> of_property_read_u32 T np ''qcom,buff-size'';
       cmin \<leftarrow> of_property_read_u32 T np ''qcom,mod-count-min'';
       cmax \<leftarrow> of_property_read_u32 T np ''qcom,mod-count-max'';
       umin \<leftarrow> of_property_read_u32 T np ''qcom,mod-usecs-min'';
       umax \<leftarrow> of_property_read_u32 T np ''qcom,mod-usecs-max'';
       Some (channel_zero\<lparr>direction := dir,
         default_config := \<lparr>ring_size = rs, buff_size = bs, desc_alctr = Some Default_alctr,
           buff_alctr = Some Default_alctr\<rparr>,
         event := event_zero\<lparr>mod_count_min := cmin, mod_count_max := cmax, mod_usecs_min := umin,
           mod_usecs_max := umax\<rparr>,
         filter_types := (if of_find_property T np ''qcom,rx-filter-be'' then RXF_F_BE else 0)
           OR (if of_find_property T np ''qcom,rx-filter-ip'' then RXF_F_IP else 0)\<rparr>)
     }"

definition ioss_of_parse_channel ::
  "'n of_api \<Rightarrow> 'w kern \<Rightarrow> 'n \<Rightarrow> 'r ioss_device \<Rightarrow> 'w \<Rightarrow> int \<times> 'r ioss_device \<times> 'w" where
  "ioss_of_parse_channel T K np d w =
     (case alloc_channel K w of (rc, w) \<Rightarrow>
        if rc \<noteq> 0 then (rc, d, w)
        else (case of_channel T np of
                None \<Rightarrow> (- EINVAL, d, w)
              | Some ch \<Rightarrow> (0, upd_iface (\<lambda>i. i\<lparr>channels := channels i @ [ch]\<rparr>) d, w)))"

definition is_channel_name :: "string \<Rightarrow> bool" where
  "is_channel_name nm \<longleftrightarrow> take 8 nm = ''channel-''"

definition nth_opt :: "'a list \<Rightarrow> nat \<Rightarrow> 'a option" where
  "nth_opt xs i = (if i < length xs then Some (xs ! i) else None)"

definition ioss_of_find_fallback_channel :: "'n of_api \<Rightarrow> 'n \<Rightarrow> nat \<Rightarrow> 'n option" where
  "ioss_of_find_fallback_channel T np i =
     (let name = (if i = 0 then Some ''channel-rx'' else if i = 1 then Some ''channel-tx'' else None);
          by_name = (case name of None \<Rightarrow> None | Some nm \<Rightarrow> find (\<lambda>c. of_node_name_eq T c nm) (of_children T np))
      in case by_name of
           Some c \<Rightarrow> Some c
         | None \<Rightarrow> nth_opt (filter (\<lambda>c. is_channel_name (of_node_name T c)) (of_children T np)) i)"

text \<open>One round of the channel loop: 0 to go on, an error to leave it.\<close>

definition ioss_of_parse_one ::
  "'n of_api \<Rightarrow> 'w kern \<Rightarrow> 'n \<Rightarrow> nat \<Rightarrow> 'r ioss_device \<Rightarrow> 'w \<Rightarrow> int \<times> 'r ioss_device \<times> 'w" where
  "ioss_of_parse_one T K np i d w =
     (let n = (case of_parse_phandle T np ''qcom,ioss_channels'' i of
                 Some n \<Rightarrow> if is_channel_name (of_node_name T n) then Some n else None
               | None \<Rightarrow> None);
          fallback = (if n = None then ioss_of_find_fallback_channel T np i else None);
          n = (if n = None then fallback else n)
      in case n of
           None \<Rightarrow> (- EINVAL, d, w)
         | Some c \<Rightarrow>
             (case ioss_of_parse_channel T K c d w of (rc, d, w) \<Rightarrow>
                if rc = 0 then (0, d, w)
                else if fallback \<noteq> None then (- EINVAL, d, w)
                else (case ioss_of_find_fallback_channel T np i of
                        None \<Rightarrow> (- EINVAL, d, w)
                      | Some f \<Rightarrow>
                          if f = c then (- EINVAL, d, w)
                          else (case ioss_of_parse_channel T K f d w of (rc, d, w) \<Rightarrow>
                                  (if rc = 0 then 0 else - EINVAL, d, w)))))"

text \<open>The loop \<^verbatim>\<open>for (i = 0; i < count; i++)\<close>: \<open>n\<close> rounds are left, the next index is \<open>i\<close>.\<close>

primrec ioss_of_parse_loop ::
  "'n of_api \<Rightarrow> 'w kern \<Rightarrow> 'n \<Rightarrow> nat \<Rightarrow> nat \<Rightarrow> 'r ioss_device \<Rightarrow> 'w \<Rightarrow> int \<times> 'r ioss_device \<times> 'w" where
  "ioss_of_parse_loop T K np 0 i d w = (0, d, w)"
| "ioss_of_parse_loop T K np (Suc n) i d w =
     (case ioss_of_parse_one T K np i d w of (rc, d, w) \<Rightarrow>
        if rc \<noteq> 0 then (rc, d, w) else ioss_of_parse_loop T K np n (Suc i) d w)"

definition of_wol :: "'n of_api \<Rightarrow> 'n \<Rightarrow> u32" where
  "of_wol T np = (if of_find_property T np ''qcom,ioss-wol-phy'' then WAKE_PHY else 0)
     OR (if of_find_property T np ''qcom,ioss-wol-magic'' then WAKE_MAGIC else 0)"

definition ioss_of_parse_v2 ::
  "'n of_api \<Rightarrow> 'w kern \<Rightarrow> 'n \<Rightarrow> 'r ioss_device \<Rightarrow> 'w \<Rightarrow> int \<times> 'r ioss_device \<times> 'w" where
  "ioss_of_parse_v2 T K np d w =
     (case kzalloc K w of (ok, w) \<Rightarrow>
        if \<not> ok then (- ENOMEM, upd_iface (\<lambda>i. i\<lparr>iface_priv := False\<rparr>) d, w)
        else
          let d = upd_iface (\<lambda>i. i\<lparr>iface_priv := True\<rparr>) d in
          (case of_property_read_u32 T np ''qcom,ioss_instance'' of
             None \<Rightarrow> (- EINVAL, of_fail d, w)
           | Some inst \<Rightarrow>
               let d = upd_iface (\<lambda>i. i\<lparr>instance_id := inst\<rparr>) d;
                   count = of_count_phandle T np ''qcom,ioss_channels'' in
               if count < 0 then (- EINVAL, of_fail d, w)
               else (case ioss_of_parse_loop T K np (nat count) 0 d w of (rc, d, w) \<Rightarrow>
                       if rc \<noteq> 0 then (- EINVAL, of_fail d, w)
                       else (0, d\<lparr>wolopts := wolopts d OR of_wol T np\<rparr>, w))))"

definition of_parse_matched ::
  "'n of_api \<Rightarrow> 'w kern \<Rightarrow> 'n \<Rightarrow> 'r ioss_device \<Rightarrow> 'w \<Rightarrow> int \<times> 'r ioss_device \<times> 'w" where
  "of_parse_matched T K np d w =
     (if of_compatible T np ''qcom,ioss-v2-device'' then ioss_of_parse_v2 T K np d w else (- EINVAL, d, w))"

definition ioss_of_parse ::
  "'n of_api \<Rightarrow> 'w kern \<Rightarrow> nat \<Rightarrow> 'n option \<Rightarrow> 'r ioss_device \<Rightarrow> 'w \<Rightarrow> int \<times> 'r ioss_device \<times> 'w" where
  "ioss_of_parse T K root_pdev np d w =
     (case np of
        None \<Rightarrow> if ioss_is_r8125_pci_dev d then ioss_of_parse_r8125_fallback K d w else (- EINVAL, d, w)
      | Some np \<Rightarrow>
          (case of_parse_phandle T np ''qcom,ioss'' 0 of
             None \<Rightarrow> if ioss_is_r8125_pci_dev d then ioss_of_parse_r8125_fallback K d w else (- ENOENT, d, w)
           | Some of_root \<Rightarrow>
               (case of_root_pdev T of_root of
                  None \<Rightarrow> (- EFAULT, d, w)
                | Some pdev \<Rightarrow>
                    if root_pdev \<noteq> pdev then (- ENOENT, d, w)
                    else (case of_parse_matched T K np d w of (rc, d, w) \<Rightarrow>
                            if rc = 0 then (0, d, w)
                            else if ioss_is_r8125_pci_dev d then ioss_of_parse_r8125_fallback K d w
                            else (rc, d, w)))))"

section \<open>Lemmas\<close>

text \<open>
  A channel as the rest of the subsystem expects to find it: nothing allocated, no memory, no
  driver ring, no pipe, both default allocators chosen.
\<close>

definition fresh_channel :: "'r ioss_channel \<Rightarrow> bool" where
  "fresh_channel ch \<longleftrightarrow> \<not> allocated ch \<and> \<not> enabled ch \<and> desc_mem ch = [] \<and> buff_mem ch = []
     \<and> ch_private ch = None \<and> ipa_pi ch = pipe_zero \<and> ev_daddr (event ch) = 0
     \<and> \<not> ev_allocated (event ch) \<and> \<not> ev_enabled (event ch)
     \<and> desc_alctr (default_config ch) = Some Default_alctr
     \<and> buff_alctr (default_config ch) = Some Default_alctr"

lemma fallback_channel_fresh: "fresh_channel (fallback_channel dir)"
  by (simp add: fresh_channel_def fallback_channel_def channel_zero_def event_zero_def)

lemma of_channel_fresh: "of_channel T np = Some ch \<Longrightarrow> fresh_channel ch"
  by (auto simp: of_channel_def fresh_channel_def channel_zero_def event_zero_def Option.bind_eq_Some_conv)

lemma upd_iface_simps [simp]:
  "interface (upd_iface f d) = f (interface d)" "real_dev (upd_iface f d) = real_dev d"
  "net_dev (upd_iface f d) = net_dev d" "wolopts (upd_iface f d) = wolopts d"
  by (simp_all add: upd_iface_def)

lemma of_fail_simps [simp]:
  "channels (interface (of_fail d)) = []" "\<not> iface_priv (interface (of_fail d))"
  "real_dev (of_fail d) = real_dev d"
  by (simp_all add: of_fail_def ioss_of_free_channels_def)

text \<open>Each step adds at most one fresh channel at the end and touches nothing else it checks.\<close>

definition grows_by :: "nat \<Rightarrow> 'r ioss_device \<Rightarrow> 'r ioss_device \<Rightarrow> bool" where
  "grows_by n d d' \<longleftrightarrow> real_dev d' = real_dev d \<and> iface_priv (interface d') = iface_priv (interface d)
     \<and> instance_id (interface d') = instance_id (interface d)
     \<and> (\<exists>new. channels (interface d') = channels (interface d) @ new \<and> length new = n
          \<and> (\<forall>ch \<in> set new. fresh_channel ch))"

lemma grows_by_refl: "grows_by 0 d d"
  by (simp add: grows_by_def)

lemma grows_by_add:
  "fresh_channel ch \<Longrightarrow> grows_by (Suc 0) d (upd_iface (\<lambda>i. i\<lparr>channels := channels i @ [ch]\<rparr>) d)"
  by (simp add: grows_by_def)

lemma grows_by_trans: "grows_by m d d' \<Longrightarrow> grows_by n d' d'' \<Longrightarrow> grows_by (m + n) d d''"
  by (auto simp: grows_by_def)

lemma parse_channel_grows:
  "ioss_of_parse_channel T K np d w = (rc, d', w') \<Longrightarrow>
   (rc = 0 \<and> grows_by (Suc 0) d d') \<or> (rc \<noteq> 0 \<and> d' = d)"
  by (auto simp: ioss_of_parse_channel_def grows_by_add of_channel_fresh
      split: prod.splits if_splits option.splits)

lemma parse_one_grows:
  assumes "ioss_of_parse_one T K np i d w = (rc, d', w')"
  shows "(rc = 0 \<and> grows_by (Suc 0) d d') \<or> (rc \<noteq> 0 \<and> d' = d)"
  using assms
  by (auto simp: ioss_of_parse_one_def Let_def split: option.splits prod.splits if_splits
      dest!: parse_channel_grows)

lemma parse_loop_grows:
  "ioss_of_parse_loop T K np n i d w = (rc, d', w') \<Longrightarrow>
   (rc = 0 \<longrightarrow> grows_by n d d') \<and> real_dev d' = real_dev d"
proof (induction n arbitrary: i d w)
  case (Suc n)
  obtain rc1 d1 w1 where one: "ioss_of_parse_one T K np i d w = (rc1, d1, w1)"
    by (cases "ioss_of_parse_one T K np i d w")
  note g = parse_one_grows [OF one]
  show ?case
  proof (cases "rc1 = 0")
    case True
    with Suc.prems one have "ioss_of_parse_loop T K np n (Suc i) d1 w1 = (rc, d', w')" by simp
    from Suc.IH [OF this] g True show ?thesis
      using grows_by_trans [of "Suc 0" d d1 n d'] by (auto simp: grows_by_def)
  qed (use Suc.prems one g in auto)
qed (auto simp: grows_by_refl)

lemma parse_v2_cases:
  assumes "ioss_of_parse_v2 T K np d w = (rc, d', w')" and "channels (interface d) = []"
  shows "real_dev d' = real_dev d \<and>
    (if rc = 0
     then iface_priv (interface d') \<and> of_property_read_u32 T np ''qcom,ioss_instance'' = Some (instance_id (interface d'))
        \<and> int (length (channels (interface d'))) = of_count_phandle T np ''qcom,ioss_channels''
        \<and> (\<forall>ch \<in> set (channels (interface d')). fresh_channel ch)
     else \<not> iface_priv (interface d') \<and> channels (interface d') = [])"
proof -
  obtain ok w1 where k: "kzalloc K w = (ok, w1)" by fastforce
  let ?d1 = "\<lambda>inst. upd_iface (\<lambda>i. i\<lparr>instance_id := inst\<rparr>) (upd_iface (\<lambda>i. i\<lparr>iface_priv := True\<rparr>) d)"
  show ?thesis
  proof (cases "of_property_read_u32 T np ''qcom,ioss_instance''")
    case None
    with assms k show ?thesis by (auto simp: ioss_of_parse_v2_def split: if_splits)
  next
    case (Some inst)
    obtain rc2 d2 w2 where loop: "ioss_of_parse_loop T K np
        (nat (of_count_phandle T np ''qcom,ioss_channels'')) 0 (?d1 inst) w1 = (rc2, d2, w2)"
      using prod_cases3 by blast
    from parse_loop_grows [OF loop] assms k Some loop show ?thesis
      by (auto simp: ioss_of_parse_v2_def grows_by_def Let_def split: if_splits)
  qed
qed

lemma fallback_ok:
  assumes "\<And>w. kzalloc K w = (True, w)" and "channels (interface d) = []"
  shows "ioss_of_parse_r8125_fallback K d w =
    (0, upd_iface (\<lambda>i. i\<lparr>iface_priv := True, instance_id := 0,
          channels := [fallback_channel CH_DIR_RX, fallback_channel CH_DIR_TX]\<rparr>) d, w)"
  using assms
  by (simp add: ioss_of_parse_r8125_fallback_def ioss_of_add_fallback_channel_def alloc_channel_def
      upd_iface_def)

lemma fallback_result:
  assumes "\<And>w. kzalloc K w = (True, w)" and "channels (interface d) = []"
    and "ioss_of_parse_r8125_fallback K d w = (rc, d', w')"
  shows "rc = 0 \<and> iface_priv (interface d')
    \<and> channels (interface d') = [fallback_channel CH_DIR_RX, fallback_channel CH_DIR_TX]
    \<and> (\<forall>ch \<in> set (channels (interface d')). fresh_channel ch)"
  using assms(3) by (auto simp: fallback_ok [OF assms(1,2)] fallback_channel_fresh)

section \<open>Properties\<close>

text \<open>
  Parsing the device tree is all or nothing. Success means one channel per entry of
  \<^verbatim>\<open>qcom,ioss_channels\<close>, every one of them fresh, and the instance number of the node; failure
  means no channel and no private data left behind, whatever the tree contains and wherever
  parsing stopped.
\<close>

theorem of_parse_v2_all_or_nothing:
  assumes "ioss_of_parse_v2 T K np d w = (rc, d', w')" and "channels (interface d) = []"
  shows "if rc = 0
    then iface_priv (interface d')
      \<and> of_property_read_u32 T np ''qcom,ioss_instance'' = Some (instance_id (interface d'))
      \<and> int (length (channels (interface d'))) = of_count_phandle T np ''qcom,ioss_channels''
      \<and> filter (\<lambda>ch. \<not> fresh_channel ch) (channels (interface d')) = []
    else \<not> iface_priv (interface d') \<and> channels (interface d') = []"
  using parse_v2_cases [OF assms] by (auto simp: filter_empty_conv)

text \<open>
  An RTL8125 is always configured: when memory is available, parsing the node of an RTL8125
  either succeeds with fresh channels or stops because the node names a different or missing
  root; in particular an unusable binding is replaced by the built-in receive and transmit
  channels, and no half-parsed channel survives next to them.
\<close>

theorem of_parse_r8125_total:
  assumes "\<And>w. kzalloc K w = (True, w)" and "ioss_is_r8125_pci_dev d"
    and "channels (interface d) = []"
    and "ioss_of_parse T K root np d w = (rc, d', w')"
  shows "(rc = 0 \<and> iface_priv (interface d')
        \<and> filter (\<lambda>ch. \<not> fresh_channel ch) (channels (interface d')) = []
        \<and> (channels (interface d') = [fallback_channel CH_DIR_RX, fallback_channel CH_DIR_TX]
           \<or> (\<exists>n. np = Some n \<and> int (length (channels (interface d'))) = of_count_phandle T n ''qcom,ioss_channels'')))
    \<or> (rc \<in> {- EFAULT, - ENOENT} \<and> d' = d)"
proof -
  have matched: "of_parse_matched T K n d w = (r, e, v) \<Longrightarrow>
      real_dev e = real_dev d \<and> (r \<noteq> 0 \<longrightarrow> channels (interface e) = [])
      \<and> (r = 0 \<longrightarrow> iface_priv (interface e) \<and> (\<forall>ch \<in> set (channels (interface e)). fresh_channel ch)
          \<and> int (length (channels (interface e))) = of_count_phandle T n ''qcom,ioss_channels'')" for n r e v
    using parse_v2_cases [of T K n d w r e v] assms(3) by (auto simp: of_parse_matched_def split: if_splits)
  show ?thesis
    using assms(2-4)
    by (auto simp: ioss_of_parse_def ioss_is_r8125_pci_dev_def filter_empty_conv
        split: option.splits prod.splits if_splits dest!: matched fallback_result [OF assms(1)])
qed

definition rtl8125_ident :: pci_ident where
  "rtl8125_ident = \<lparr>on_pci_bus = True, pci_vendor = 0x10ec, pci_device = 0x8125,
     pci_driver_name = ''r8125'', bar_start = (\<lambda>_. 0x40300000), bar_len = (\<lambda>_. 0x10000)\<rparr>"

text \<open>Witness: node 0 is the device, node 1 its only channel.\<close>

definition demo_tree :: "nat of_api" where
  "demo_tree = \<lparr>of_find_property = (\<lambda>n p. n = 1 \<and> p = ''qcom,dir-rx''),
     of_property_read_u32 = (\<lambda>n p. if n = 0 then (if p = ''qcom,ioss_instance'' then Some 0 else None)
        else Some 512),
     of_count_phandle = (\<lambda>_ _. 1), of_parse_phandle = (\<lambda>n p i. if p = ''qcom,ioss_channels'' then Some 1 else Some 2),
     of_node_name = (\<lambda>n. if n = 1 then ''channel-rx'' else ''pcie''),
     of_node_name_eq = (\<lambda>n s. n = 1 \<and> s = ''channel-rx''), of_children = (\<lambda>_. []),
     of_compatible = (\<lambda>_ _. True), of_root_pdev = (\<lambda>_. Some 7)\<rparr>"

lemma idev_zero_iface [simp]:
  "channels (interface (idev_zero i)) = []" "iface_priv (interface (idev_zero i)) = False"
  by (simp_all add: idev_zero_def iface_zero_def)

lemma demo_tree_count [simp]: "of_count_phandle demo_tree n p = 1"
  by (simp add: demo_tree_def)

theorem of_parse_v2_all_or_nothing_witness:
  "let d' = fst (snd (ioss_of_parse_v2 demo_tree ok_kern 0 (idev_zero rtl8125_ident :: unit ioss_device) ()))
   in length (channels (interface d')) = 1 \<and> iface_priv (interface d')"
proof -
  obtain rc d' w' where p: "ioss_of_parse_v2 demo_tree ok_kern 0 (idev_zero rtl8125_ident :: unit ioss_device) () = (rc, d', w')"
    by (cases "ioss_of_parse_v2 demo_tree ok_kern 0 (idev_zero rtl8125_ident :: unit ioss_device) ()")
  have "rc = 0"
    using p by (simp add: ioss_of_parse_v2_def ok_kern_def demo_tree_def ioss_of_parse_one_def
        is_channel_name_def ioss_of_parse_channel_def alloc_channel_def of_channel_def)
  with of_parse_v2_all_or_nothing [OF p] show ?thesis
    by (simp add: p)
qed

theorem of_parse_r8125_total_witness:
  "fst (ioss_of_parse demo_tree ok_kern 7 None (idev_zero rtl8125_ident :: unit ioss_device) ()) = 0"
proof -
  obtain rc d' w' where p: "ioss_of_parse demo_tree ok_kern 7 None (idev_zero rtl8125_ident :: unit ioss_device) () = (rc, d', w')"
    by (cases "ioss_of_parse demo_tree ok_kern 7 None (idev_zero rtl8125_ident :: unit ioss_device) ()")
  have "kzalloc ok_kern w = (True, w)" for w by (simp add: ok_kern_def)
  moreover have "ioss_is_r8125_pci_dev (idev_zero rtl8125_ident :: unit ioss_device)"
    "channels (interface (idev_zero rtl8125_ident :: unit ioss_device)) = []"
    by (simp_all add: ioss_is_r8125_pci_dev_def idev_zero_def rtl8125_ident_def iface_zero_def)
  ultimately have "rc = 0 \<or> rc \<in> {- EFAULT, - ENOENT} \<and> d' = idev_zero rtl8125_ident"
    using of_parse_r8125_total [OF _ _ _ p] by blast
  moreover have "iface_priv (interface d')"
    using p by (simp add: ioss_of_parse_def ioss_is_r8125_pci_dev_def idev_zero_def rtl8125_ident_def
        ioss_of_parse_r8125_fallback_def ok_kern_def ioss_of_add_fallback_channel_def alloc_channel_def
        iface_zero_def, auto)
  ultimately show ?thesis by (auto simp: p)
qed

end
