(* ===== verification/Ioss_Bus.thy ===== *)
theory Ioss_Bus
  imports Ioss_Pci Ioss_Of
begin

text \<open>
  The bus of the offload subsystem (\<^verbatim>\<open>ioss/ioss_bus.c\<close>), the part of \<^verbatim>\<open>ioss/ioss_pci.c\<close> that adds
  and removes devices, and the module itself (\<^verbatim>\<open>ioss/ioss_main.c\<close>): the tables of drivers and
  devices, binding a device to a glue driver with its unwinding, and set-up and tear-down of the
  root device.
\<close>

section \<open>Tables of drivers and devices\<close>

abbreviation (input) MAX_IOSS_DEVICES :: nat where "MAX_IOSS_DEVICES \<equiv> 10"
abbreviation (input) MAX_IOSS_DRIVERS :: nat where "MAX_IOSS_DRIVERS \<equiv> 10"

text \<open>The index of the first free entry, and the scan that clears an entry.\<close>

primrec free_entry :: "'a option list \<Rightarrow> nat option" where
  "free_entry [] = None"
| "free_entry (e # es) = (case e of None \<Rightarrow> Some 0 | Some _ \<Rightarrow> map_option Suc (free_entry es))"

primrec clear_entry :: "('a \<Rightarrow> bool) \<Rightarrow> 'a option list \<Rightarrow> 'a option list" where
  "clear_entry P [] = []"
| "clear_entry P (e # es) =
     (case e of None \<Rightarrow> e # clear_entry P es | Some x \<Rightarrow> if P x then None # es else e # clear_entry P es)"

text \<open>A driver is known by its address; \<open>driver_register\<close> and \<open>driver_unregister\<close> are the kernel's.\<close>

definition ioss_bus_register_driver ::
  "('w \<Rightarrow> int \<times> 'w) \<Rightarrow> nat \<Rightarrow> nat option list \<Rightarrow> pm_state \<Rightarrow> 'w \<Rightarrow> int \<times> nat option list \<times> pm_state \<times> 'w" where
  "ioss_bus_register_driver driver_register drv tbl p w =
     (case free_entry tbl of
        None \<Rightarrow> (- ENOSPC, tbl, p, w)
      | Some i \<Rightarrow>
          let p = p\<lparr>pm_refcnt := 0\<rparr> in
          (case driver_register w of (rc, w) \<Rightarrow>
             if rc \<noteq> 0 then (rc, tbl[i := None], p, w) else (0, tbl[i := Some drv], p, w)))"

definition ioss_bus_unregister_driver ::
  "('w \<Rightarrow> 'w) \<Rightarrow> nat \<Rightarrow> nat option list \<Rightarrow> 'w \<Rightarrow> nat option list \<times> 'w" where
  "ioss_bus_unregister_driver driver_unregister drv tbl w = (clear_entry (\<lambda>d. d = drv) tbl, driver_unregister w)"

text \<open>
  A device table entry: the PCI device it stands for, and the device. \<open>has_pm\<close> is
  \<^verbatim>\<open>dev->driver && dev->driver->pm\<close>. A PCI device has at most one entry of its own, so the entry
  stands for the pointer.
\<close>

type_synonym 'r dev_table = "(nat \<times> 'r ioss_device) option list"

definition ioss_bus_alloc_idev ::
  "'w kern \<Rightarrow> bool \<Rightarrow> nat \<Rightarrow> pci_ident \<Rightarrow> 'r dev_table \<Rightarrow> 'w \<Rightarrow> nat option \<times> 'r dev_table \<times> 'w" where
  "ioss_bus_alloc_idev K has_pm dev ident tbl w =
     (case free_entry tbl of
        None \<Rightarrow> (None, tbl, w)
      | Some i \<Rightarrow>
          if \<not> has_pm then (None, tbl, w)
          else (case kzalloc K w of (ok, w) \<Rightarrow>
                  if \<not> ok then (None, tbl, w) else (Some i, tbl[i := Some (dev, idev_zero ident)], w)))"

definition ioss_bus_free_idev :: "nat \<Rightarrow> 'r dev_table \<Rightarrow> 'r dev_table" where
  "ioss_bus_free_idev i tbl = tbl[i := None]"

definition ioss_bus_register_idev ::
  "'n of_api \<Rightarrow> 'w kern \<Rightarrow> ('w \<Rightarrow> int \<times> 'w) \<Rightarrow> nat \<Rightarrow> 'n option \<Rightarrow> 'r ioss_device \<Rightarrow> 'w \<Rightarrow> int \<times> 'r ioss_device \<times> 'w" where
  "ioss_bus_register_idev T K dev_register root np d w =
     (case ioss_of_parse T K root np d w of (rc, d, w) \<Rightarrow>
        if rc \<noteq> 0 then (- EINVAL, d, w) else (case dev_register w of (rc, w) \<Rightarrow> (rc, d, w)))"

definition ioss_bus_unregister_idev :: "('w \<Rightarrow> 'w) \<Rightarrow> 'w \<Rightarrow> 'w" where
  "ioss_bus_unregister_idev dev_unregister w = dev_unregister w"

section \<open>PCI devices coming and going\<close>

text \<open>\<open>pci_info\<close>: what the bus knows of a PCI device.\<close>

record 'n pci_info =
  pc_dev :: nat
  pc_ident :: pci_ident
  pc_node :: "'n option"
  pc_has_driver :: bool
  pc_has_pm :: bool

definition ioss_pci_add_device ::
  "'n of_api \<Rightarrow> 'w kern \<Rightarrow> ('w \<Rightarrow> int \<times> 'w) \<Rightarrow> nat \<Rightarrow> 'n pci_info \<Rightarrow> 'r dev_table \<Rightarrow> 'w \<Rightarrow> int \<times> 'r dev_table \<times> 'w" where
  "ioss_pci_add_device T K dev_register root p tbl w =
     (case ioss_bus_alloc_idev K (pc_has_driver p \<and> pc_has_pm p) (pc_dev p) (pc_ident p) tbl w of
        (None, tbl, w) \<Rightarrow> (- ENOMEM, tbl, w)
      | (Some i, tbl, w) \<Rightarrow>
          (case ioss_bus_register_idev T K dev_register root (pc_node p) (idev_zero (pc_ident p)) w of (rc, d, w) \<Rightarrow>
             if rc \<noteq> 0 then (rc, ioss_bus_free_idev i (tbl[i := Some (pc_dev p, d)]), w)
             else (0, tbl[i := Some (pc_dev p, d)], w)))"

primrec find_entry :: "nat \<Rightarrow> 'r dev_table \<Rightarrow> nat option" where
  "find_entry dev [] = None"
| "find_entry dev (e # es) =
     (if (case e of None \<Rightarrow> False | Some (x, _) \<Rightarrow> x = dev) then Some 0 else map_option Suc (find_entry dev es))"

definition ioss_pci_remove_device ::
  "('w \<Rightarrow> 'w) \<Rightarrow> 'n pci_info \<Rightarrow> 'r dev_table \<Rightarrow> 'w \<Rightarrow> int \<times> 'r dev_table \<times> 'w" where
  "ioss_pci_remove_device dev_unregister p tbl w =
     (case find_entry (pc_dev p) tbl of
        None \<Rightarrow> (- ENODEV, tbl, w)
      | Some i \<Rightarrow> (0, ioss_bus_free_idev i tbl, ioss_bus_unregister_idev dev_unregister w))"

datatype bus_action = BUS_NOTIFY_BOUND_DRIVER | BUS_NOTIFY_UNBIND_DRIVER | BUS_NOTIFY_OTHER

record ('n, 'w) bus_kern =
  bk_of :: "'n of_api"
  bk_kern :: "'w kern"
  bk_device_register :: "'w \<Rightarrow> int \<times> 'w"
  bk_device_unregister :: "'w \<Rightarrow> 'w"
  bk_root :: nat

definition pci_bus_notification ::
  "('n, 'w) bus_kern \<Rightarrow> bus_action \<Rightarrow> 'n pci_info \<Rightarrow> 'r dev_table \<times> 'w \<Rightarrow> 'r dev_table \<times> 'w" where
  "pci_bus_notification B a p s =
     (case a of
        BUS_NOTIFY_BOUND_DRIVER \<Rightarrow>
          snd (ioss_pci_add_device (bk_of B) (bk_kern B) (bk_device_register B) (bk_root B) p (fst s) (snd s))
      | BUS_NOTIFY_UNBIND_DRIVER \<Rightarrow> snd (ioss_pci_remove_device (bk_device_unregister B) p (fst s) (snd s))
      | BUS_NOTIFY_OTHER \<Rightarrow> s)"

definition pcie_walk_add_device ::
  "('n, 'w) bus_kern \<Rightarrow> 'n pci_info \<Rightarrow> 'r dev_table \<times> 'w \<Rightarrow> 'r dev_table \<times> 'w" where
  "pcie_walk_add_device B p s = (if pc_has_driver p then pci_bus_notification B BUS_NOTIFY_BOUND_DRIVER p s else s)"

definition pcie_walk_del_device ::
  "('n, 'w) bus_kern \<Rightarrow> 'n pci_info \<Rightarrow> 'r dev_table \<times> 'w \<Rightarrow> 'r dev_table \<times> 'w" where
  "pcie_walk_del_device B p s = (if pc_has_driver p then pci_bus_notification B BUS_NOTIFY_UNBIND_DRIVER p s else s)"

text \<open>\<open>devs\<close> are the devices of the PCI bus; \<open>reg\<close> registers the bus notifier.\<close>

definition ioss_pci_start ::
  "('n, 'w) bus_kern \<Rightarrow> ('w \<Rightarrow> int \<times> 'w) \<Rightarrow> 'n pci_info list \<Rightarrow> 'r dev_table \<times> 'w \<Rightarrow> int \<times> 'r dev_table \<times> 'w" where
  "ioss_pci_start B reg devs s =
     (case reg (snd s) of (rc, w) \<Rightarrow>
        if rc \<noteq> 0 then (rc, fst s, w) else (0, fold (pcie_walk_add_device B) devs (fst s, w)))"

definition ioss_pci_stop ::
  "('n, 'w) bus_kern \<Rightarrow> ('w \<Rightarrow> 'w) \<Rightarrow> 'n pci_info list \<Rightarrow> 'r dev_table \<times> 'w \<Rightarrow> 'r dev_table \<times> 'w" where
  "ioss_pci_stop B unreg devs s = fold (pcie_walk_del_device B) devs (fst s, unreg (snd s))"

section \<open>Binding a device\<close>

definition ioss_bus_match :: "bool \<Rightarrow> (pci_ident \<Rightarrow> bool) option \<Rightarrow> string \<Rightarrow> pci_ident \<Rightarrow> bool" where
  "ioss_bus_match is_idev drv_match drv_name real =
     (if \<not> is_idev then False
      else (case drv_match of Some f \<Rightarrow> f real | None \<Rightarrow> drv_name = pci_driver_name real))"

record ('r, 'w) bus_env =
  B_net :: "('r, 'w) net_env"
  open_device :: "('w \<Rightarrow> (int \<times> 'w) option) option"
  close_device :: "('w \<Rightarrow> (int \<times> 'w) option) option"
  panic_register :: "'w \<Rightarrow> int \<times> 'w"
  sysfs_create_file :: "'w \<Rightarrow> int \<times> 'w"

record ('r, 'w) bus_state =
  net :: "('r, 'w) net_state"
  pm :: pm_state
  panic_nb :: bool
  sysfs_file :: bool
  may_wakeup :: bool

definition dev_call :: "('w \<Rightarrow> (int \<times> 'w) option) option \<Rightarrow> ('r, 'w) bus_state \<Rightarrow> (int \<times> ('r, 'w) bus_state) option" where
  "dev_call f s =
     (case f of
        None \<Rightarrow> Some (- ENOENT, s)
      | Some g \<Rightarrow> map_option (\<lambda>(rc, w). (rc, s\<lparr>net := (net s)\<lparr>world := w\<rparr>\<rparr>)) (g (world (net s))))"

definition ioss_register_panic_notifier :: "('r, 'w) bus_env \<Rightarrow> ('r, 'w) bus_state \<Rightarrow> int \<times> ('r, 'w) bus_state" where
  "ioss_register_panic_notifier B s =
     (case panic_register B (world (net s)) of (rc, w) \<Rightarrow>
        (rc, s\<lparr>net := (net s)\<lparr>world := w\<rparr>, panic_nb := (rc = 0)\<rparr>))"

definition ioss_unregister_panic_notifier :: "('r, 'w) bus_state \<Rightarrow> ('r, 'w) bus_state" where
  "ioss_unregister_panic_notifier s = s\<lparr>panic_nb := False\<rparr>"

text \<open>The error labels of \<open>ioss_bus_probe\<close>, from the last to the first.\<close>

definition err_notifier :: "('r, 'w) bus_state \<Rightarrow> ('r, 'w) bus_state" where
  "err_notifier s = s\<lparr>pm := ioss_pci_restore_pm_ops (pm s)\<rparr>"

definition err_open :: "('r, 'w) bus_state \<Rightarrow> ('r, 'w) bus_state" where
  "err_open s = err_notifier (ioss_unregister_panic_notifier s)"

definition err_watch :: "('r, 'w) bus_env \<Rightarrow> ('r, 'w) bus_state \<Rightarrow> ('r, 'w) bus_state option" where
  "err_watch B s = do { (_, s) \<leftarrow> dev_call (close_device B) s; Some (err_open s) }"

definition err_sysfs :: "('r, 'w) bus_env \<Rightarrow> link_view \<Rightarrow> ('r, 'w) bus_state \<Rightarrow> ('r, 'w) bus_state option" where
  "err_sysfs B v s =
     do { (_, n) \<leftarrow> ioss_net_unwatch_device (B_net B) v (net s); err_watch B (s\<lparr>net := n\<rparr>) }"

definition ioss_bus_probe ::
  "('r, 'w) bus_env \<Rightarrow> nat \<Rightarrow> netdev list list \<Rightarrow> string \<Rightarrow> link_view \<Rightarrow> ('r, 'w) bus_state \<Rightarrow> (int \<times> ('r, 'w) bus_state) option" where
  "ioss_bus_probe B parent nets own v s =
     do {
       (rc, d) \<leftarrow> ioss_net_link_device parent nets (idev (net s));
       let s = s\<lparr>may_wakeup := True, net := (net s)\<lparr>idev := d\<rparr>\<rparr>;
       if rc \<noteq> 0 then Some (rc, s)
       else (case ioss_register_panic_notifier B (s\<lparr>pm := ioss_pci_hijack_pm_ops (pm s)\<rparr>) of (rc, s) \<Rightarrow>
         if rc \<noteq> 0 then Some (rc, err_notifier s)
         else do {
           (rc, s) \<leftarrow> dev_call (open_device B) s;
           if rc \<noteq> 0 then Some (rc, err_open s)
           else do {
             (rc, n) \<leftarrow> ioss_net_watch_device (B_net B) own v (net s);
             let s = s\<lparr>net := n\<rparr>;
             if rc \<noteq> 0 then do { s \<leftarrow> err_watch B s; Some (rc, s) }
             else (case sysfs_create_file B (world (net s)) of (rc, w) \<Rightarrow>
               let s = s\<lparr>net := (net s)\<lparr>world := w\<rparr>\<rparr> in
               if rc \<noteq> 0 then do { s \<leftarrow> err_sysfs B v s; Some (rc, s) }
               else Some (0, s\<lparr>sysfs_file := True\<rparr>))
           }
         })
     }"

definition ioss_bus_remove ::
  "('r, 'w) bus_env \<Rightarrow> link_view \<Rightarrow> ('r, 'w) bus_state \<Rightarrow> (int \<times> ('r, 'w) bus_state) option" where
  "ioss_bus_remove B v s =
     do {
       (rc, n) \<leftarrow> ioss_net_unwatch_device (B_net B) v (net s);
       let s = s\<lparr>sysfs_file := False, net := n\<rparr>;
       if rc \<noteq> 0 then Some (rc, s)
       else do {
         (rc, s) \<leftarrow> dev_call (close_device B) s;
         if rc \<noteq> 0 then Some (rc, s)
         else Some (0, (err_open s)\<lparr>may_wakeup := False\<rparr>)
       }
     }"

section \<open>Switches\<close>

text \<open>\<open>input\<close> is what \<^verbatim>\<open>kstrtobool\<close> makes of the text; the write flushes the refresh work.\<close>

definition store_suspend_ipa_offload ::
  "('r, 'w) net_env \<Rightarrow> link_view \<Rightarrow> bool option \<Rightarrow> u32 \<Rightarrow> ('r, 'w) net_state \<Rightarrow> (int \<times> ('r, 'w) net_state) option" where
  "store_suspend_ipa_offload E v input sz s =
     (case input of
        None \<Rightarrow> Some (- EINVAL, s)
      | Some b \<Rightarrow> do {
          s \<leftarrow> ioss_refresh_work E v (ioss_iface_queue_refresh (s\<lparr>idev := (idev s)\<lparr>dev_offline := b\<rparr>\<rparr>));
          Some (uint sz, s)
        })"

definition show_suspend_ipa_offload :: "('r, 'w) net_state \<Rightarrow> string" where
  "show_suspend_ipa_offload s = (if dev_offline (idev s) then ''1'' else ''0'') @ [CHR 0x0A]"

definition ioss_bus_online_idev ::
  "('r, 'w) net_env \<Rightarrow> link_view \<Rightarrow> ('r, 'w) net_state \<Rightarrow> ('r, 'w) net_state option" where
  "ioss_bus_online_idev E v s =
     ioss_refresh_work E v (ioss_iface_queue_refresh (s\<lparr>idev := (idev s)\<lparr>dev_offline := False\<rparr>\<rparr>))"

definition ioss_bus_offline_idev ::
  "('r, 'w) net_env \<Rightarrow> link_view \<Rightarrow> ('r, 'w) net_state \<Rightarrow> ('r, 'w) net_state option" where
  "ioss_bus_offline_idev E v s =
     ioss_refresh_work E v (ioss_iface_queue_refresh (s\<lparr>idev := (idev s)\<lparr>dev_offline := True\<rparr>\<rparr>))"

text \<open>The flag is whether the device is kept awake for the settle time.\<close>

definition ioss_bus_resume_idev :: "('r, 'w) net_state \<Rightarrow> bool \<times> ('r, 'w) net_state" where
  "ioss_bus_resume_idev s =
     (let need_refresh = dev_offline (idev s);
          s' = (if dev_offline (idev s) then s\<lparr>idev := (idev s)\<lparr>dev_offline := False\<rparr>\<rparr> else s)
      in (if_state (iface s') \<noteq> IF_ST_ONLINE, if need_refresh then ioss_iface_queue_refresh s' else s'))"

definition ioss_bus_suspend_idev :: "('r, 'w) net_state \<Rightarrow> int \<times> ('r, 'w) net_state" where
  "ioss_bus_suspend_idev s = (0, s)"

section \<open>Root device and module\<close>

record ioss_root =
  drvdata :: bool
  root_wq :: bool
  ready_cb :: bool
  st_probed :: bool
  st_ipa_rdy :: bool
  st_error :: bool
  root_max_ddr_bw :: u32

definition root_zero :: ioss_root where
  "root_zero = \<lparr>drvdata = False, root_wq = False, ready_cb = False, st_probed = False, st_ipa_rdy = False,
     st_error = False, root_max_ddr_bw = 0\<rparr>"

definition ioss_parse_dt :: "'n of_api \<Rightarrow> 'n option \<Rightarrow> ioss_root \<Rightarrow> int \<times> ioss_root" where
  "ioss_parse_dt T np r =
     (case np of
        None \<Rightarrow> (- EFAULT, r)
      | Some n \<Rightarrow> (0, (case of_property_read_u32 T n ''qcom,max-ddr-bandwidth'' of
                         Some bw \<Rightarrow> r\<lparr>root_max_ddr_bw := bw\<rparr> | None \<Rightarrow> r)))"

definition ioss_ipa_ready_notif ::
  "('n, 'w) bus_kern \<Rightarrow> ('w \<Rightarrow> int \<times> 'w) \<Rightarrow> 'n pci_info list \<Rightarrow> ioss_root \<Rightarrow> 'r dev_table \<times> 'w \<Rightarrow> ioss_root \<times> 'r dev_table \<times> 'w" where
  "ioss_ipa_ready_notif B reg devs r s =
     (let r = r\<lparr>st_ipa_rdy := True\<rparr> in
      case ioss_pci_start B reg devs s of (rc, s) \<Rightarrow> (if rc \<noteq> 0 then r\<lparr>st_error := True\<rparr> else r, s))"

text \<open>
  The probe of the platform device: \<open>alloc_wq\<close> and \<open>register_ready\<close> are kernel and IPA calls. The
  node pointer is dereferenced before \<open>ioss_parse_dt\<close> looks at it.
\<close>

definition ioss_probe ::
  "'n of_api \<Rightarrow> 'w kern \<Rightarrow> ('w \<Rightarrow> bool \<times> 'w) \<Rightarrow> ('w \<Rightarrow> int \<times> 'w) \<Rightarrow> 'n option \<Rightarrow> ioss_root \<Rightarrow> 'w \<Rightarrow> (int \<times> ioss_root \<times> 'w) option" where
  "ioss_probe T K alloc_wq register_ready np r w =
     (case kzalloc K w of (ok, w) \<Rightarrow>
        if \<not> ok then Some (- ENOMEM, r, w)
        else (case kzalloc K w of (ok, w) \<Rightarrow>
          if \<not> ok then Some (- ENOMEM, r, w)
          else if np = None then None
          else (case ioss_parse_dt T np (root_zero\<lparr>drvdata := True\<rparr>) of (rc, r) \<Rightarrow>
            if rc \<noteq> 0 then Some (- EFAULT, root_zero, w)
            else (case alloc_wq w of (ok, w) \<Rightarrow>
              if \<not> ok then Some (- EFAULT, root_zero, w)
              else (case register_ready w of (rc, w) \<Rightarrow>
                if rc \<noteq> 0 then Some (- EFAULT, root_zero, w)
                else Some (0, r\<lparr>root_wq := True, ready_cb := True, st_probed := True\<rparr>, w))))))"

definition ioss_remove ::
  "('n, 'w) bus_kern \<Rightarrow> ('w \<Rightarrow> 'w) \<Rightarrow> 'n pci_info list \<Rightarrow> ioss_root \<Rightarrow> 'r dev_table \<times> 'w \<Rightarrow> ioss_root \<times> 'r dev_table \<times> 'w" where
  "ioss_remove B unreg devs r s = (root_zero, ioss_pci_stop B unreg devs s)"

definition ioss_find_dev_from_of_node :: "(nat \<times> ioss_root) option \<Rightarrow> nat option" where
  "ioss_find_dev_from_of_node data = map_option fst data"

record 'c mod_state =
  mod_log :: "'c log_state"
  mod_ctxs :: "'c list"
  bus_registered :: bool
  mod_debugfs :: debugfs_root
  platform_registered :: bool

definition ioss_module_init ::
  "(string \<Rightarrow> 'c list \<Rightarrow> 'c option \<times> 'c list) \<Rightarrow> 'w kern \<Rightarrow> ('w \<Rightarrow> int \<times> 'w) \<Rightarrow> ('w \<Rightarrow> int \<times> 'w) \<Rightarrow> 'c mod_state \<Rightarrow> 'w \<Rightarrow>
   int \<times> 'c mod_state \<times> 'w" where
  "ioss_module_init create K bus_register platform_driver_register m w =
     (case ioss_log_init create (mod_log m) (mod_ctxs m) of (rc, l, cs) \<Rightarrow>
        let m = m\<lparr>mod_log := l, mod_ctxs := cs\<rparr>;
            err_bus = (\<lambda>m. case ioss_log_deinit (mod_log m) (mod_ctxs m) of (l, cs) \<Rightarrow> m\<lparr>mod_log := l, mod_ctxs := cs\<rparr>) in
        if rc \<noteq> 0 then (rc, m, w)
        else (case bus_register w of (rc, w) \<Rightarrow>
          if rc \<noteq> 0 then (rc, err_bus m, w)
          else (case ioss_debugfs_init K (mod_debugfs m) w of (rc, r, w) \<Rightarrow>
            let m = m\<lparr>bus_registered := True, mod_debugfs := r\<rparr> in
            if rc \<noteq> 0 then (rc, err_bus (m\<lparr>bus_registered := False\<rparr>), w)
            else (case platform_driver_register w of (rc, w) \<Rightarrow>
              if rc \<noteq> 0
              then (case ioss_debugfs_exit K (mod_debugfs m) w of (r, w) \<Rightarrow>
                      (rc, err_bus (m\<lparr>mod_debugfs := r, bus_registered := False\<rparr>), w))
              else (0, m\<lparr>platform_registered := True\<rparr>, w)))))"

definition ioss_module_exit :: "'w kern \<Rightarrow> 'c mod_state \<Rightarrow> 'w \<Rightarrow> 'c mod_state \<times> 'w" where
  "ioss_module_exit K m w =
     (case ioss_debugfs_exit K (mod_debugfs m) w of (r, w) \<Rightarrow>
        (case ioss_log_deinit (mod_log m) (mod_ctxs m) of (l, cs) \<Rightarrow>
           (m\<lparr>platform_registered := False, mod_debugfs := r, bus_registered := False, mod_log := l, mod_ctxs := cs\<rparr>, w)))"

section \<open>Lemmas\<close>

subsection \<open>Tables\<close>

lemma free_entry_Some: "free_entry es = Some i \<Longrightarrow> i < length es \<and> es ! i = None"
  by (induction es arbitrary: i) (auto split: option.splits)

lemma free_entry_None: "free_entry es = None \<longleftrightarrow> None \<notin> set es"
  by (induction es) (auto split: option.splits)

definition entry_devs :: "'r dev_table \<Rightarrow> nat list" where
  "entry_devs tbl = map fst (List.map_filter id tbl)"

lemma find_entry_None: "find_entry dev tbl = None \<longleftrightarrow> dev \<notin> set (entry_devs tbl)"
  by (induction tbl) (auto simp: entry_devs_def map_filter_def split: option.splits)

lemma find_entry_update:
  "find_entry dev tbl = None \<Longrightarrow> i < length tbl \<Longrightarrow> find_entry dev (tbl[i := Some (dev, d)]) = Some i"
  by (induction tbl arbitrary: i) (auto split: nat.splits if_splits option.splits)

lemma list_update_undo: "tbl ! i = x \<Longrightarrow> tbl[i := x] = tbl"
  by auto

lemma add_device_cases:
  assumes "ioss_pci_add_device T K dr root p tbl w = (rc, tbl', w')"
  shows "(rc \<noteq> 0 \<and> tbl' = tbl)
    \<or> (rc = 0 \<and> (\<exists>i d. i < length tbl \<and> tbl ! i = None \<and> tbl' = tbl[i := Some (pc_dev p, d)]))"
  using assms free_entry_Some [of tbl]
  by (auto simp: ioss_pci_add_device_def ioss_bus_alloc_idev_def ioss_bus_free_idev_def list_update_undo
      split: option.splits prod.splits if_splits)

text \<open>
  The device table: adding a PCI device either fails and leaves the table as it was, or puts
  the device into a free entry without disturbing any other; it fails when the table is full.
  Removing a device that was added restores the table exactly.
\<close>

theorem device_table_roundtrip:
  assumes "ioss_pci_add_device T K dr root p tbl w = (rc, tbl', w')"
    and "find_entry (pc_dev p) tbl = None"
    and "ioss_pci_remove_device du p tbl' w2 = (rc2, tbl2, w3)"
  shows "(rc \<noteq> 0 \<longrightarrow> tbl' = tbl) \<and> (None \<notin> set tbl \<longrightarrow> rc \<noteq> 0)
    \<and> (rc = 0 \<longrightarrow> rc2 = 0 \<and> tbl2 = tbl)
    \<and> (j < length tbl \<and> tbl ! j \<noteq> None \<longrightarrow> tbl' ! j = tbl ! j)"
proof -
  from add_device_cases [OF assms(1)] show ?thesis
  proof (elim disjE conjE exE)
    fix i d assume i: "i < length tbl" "tbl ! i = None" "tbl' = tbl[i := Some (pc_dev p, d)]" "rc = 0"
    with find_entry_update [OF assms(2), of i d] assms(3) have "rc2 = 0 \<and> tbl2 = tbl"
      by (auto simp: ioss_pci_remove_device_def ioss_bus_free_idev_def list_update_undo)
    moreover from i have "None \<in> set tbl" by (metis nth_mem)
    ultimately show ?thesis using i by (auto simp: nth_list_update)
  qed auto
qed

theorem device_table_roundtrip_witness:
  "fst (snd (ioss_pci_remove_device (\<lambda>w. w)
       \<lparr>pc_dev = 4, pc_ident = rtl8125_ident, pc_node = (None :: nat option), pc_has_driver = True, pc_has_pm = True\<rparr>
       (fst (snd (ioss_pci_add_device demo_tree ok_kern (\<lambda>w. (0, w)) 7
          \<lparr>pc_dev = 4, pc_ident = rtl8125_ident, pc_node = None, pc_has_driver = True, pc_has_pm = True\<rparr>
          (replicate 10 None :: unit dev_table) ()))) ())) = replicate 10 None"
proof -
  let ?p = "\<lparr>pc_dev = 4, pc_ident = rtl8125_ident, pc_node = (None :: nat option), pc_has_driver = True, pc_has_pm = True\<rparr>"
  let ?t = "replicate 10 None :: unit dev_table"
  let ?a = "ioss_pci_add_device demo_tree ok_kern (\<lambda>w. (0, w)) 7 ?p ?t ()"
  let ?r = "ioss_pci_remove_device (\<lambda>w. w) ?p (fst (snd ?a)) ()"
  have a: "?a = (0, fst (snd ?a), snd (snd ?a))"
    by (simp add: ioss_pci_add_device_def ioss_bus_alloc_idev_def ioss_bus_register_idev_def ioss_of_parse_def
        ioss_of_parse_r8125_fallback_def ioss_is_r8125_pci_dev_def ioss_of_add_fallback_channel_def alloc_channel_def
        rtl8125_ident_def idev_zero_def ok_kern_def eval_nat_numeral)
  have f: "find_entry (pc_dev ?p) ?t = None" by (simp add: eval_nat_numeral)
  have r: "?r = (fst ?r, fst (snd ?r), snd (snd ?r))" by (metis surjective_pairing)
  from device_table_roundtrip [OF a f r] show ?thesis by simp
qed

subsection \<open>Binding\<close>

lemma dev_call_frame:
  "dev_call f s = Some (rc, s') \<Longrightarrow>
   pm s' = pm s \<and> panic_nb s' = panic_nb s \<and> sysfs_file s' = sysfs_file s"
  by (auto simp: dev_call_def split: option.splits)

lemma err_watch_frame:
  "err_watch B s = Some s' \<Longrightarrow>
   pm s' = ioss_pci_restore_pm_ops (pm s) \<and> \<not> panic_nb s' \<and> sysfs_file s' = sysfs_file s"
  by (auto simp: err_watch_def err_open_def err_notifier_def ioss_unregister_panic_notifier_def
      split: bind_splits dest: dev_call_frame)

lemma err_sysfs_frame:
  "err_sysfs B v s = Some s' \<Longrightarrow>
   pm s' = ioss_pci_restore_pm_ops (pm s) \<and> \<not> panic_nb s' \<and> sysfs_file s' = sysfs_file s"
  by (auto simp: err_sysfs_def split: bind_splits dest: err_watch_frame)

lemma probe_frame:
  assumes "ioss_bus_probe B parent nets own v s = Some (rc, s')" "\<not> panic_nb s" "\<not> sysfs_file s"
  shows "(rc = 0 \<and> pm s' = ioss_pci_hijack_pm_ops (pm s) \<and> panic_nb s' \<and> sysfs_file s')
    \<or> (rc \<noteq> 0 \<and> pm s' \<in> {pm s, ioss_pci_restore_pm_ops (ioss_pci_hijack_pm_ops (pm s))}
       \<and> \<not> panic_nb s' \<and> \<not> sysfs_file s')"
  using assms
  by (auto simp: ioss_bus_probe_def ioss_register_panic_notifier_def err_notifier_def err_open_def
      ioss_unregister_panic_notifier_def Let_def
      split: bind_splits prod.splits if_splits dest!: dev_call_frame err_watch_frame err_sysfs_frame)

lemma restore_hijack:
  assumes "pm_inv own n p"
  shows "pm_inv own n (ioss_pci_restore_pm_ops (ioss_pci_hijack_pm_ops p))"
  using restore_inv [OF hijack_inv [OF assms]] .

text \<open>
  C12. Binding a device is all or nothing as far as the shared operations table is concerned:
  success adds one user of the table and leaves the panic notifier and the switch file in place;
  any failure, at whichever step, leaves the number of users and the driver's table as before,
  no panic notifier and no switch file.
\<close>

theorem probe_unwinds:
  assumes "ioss_bus_probe B parent nets own v s = Some (rc, s')"
    and "\<not> panic_nb s" "\<not> sysfs_file s" "pm_inv drv n (pm s)"
  shows "if rc = 0 then pm_inv drv (Suc n) (pm s') \<and> panic_nb s' \<and> sysfs_file s'
    else pm_inv drv n (pm s') \<and> \<not> panic_nb s' \<and> \<not> sysfs_file s'"
  using probe_frame [OF assms(1-3)] hijack_inv [OF assms(4)] restore_hijack [OF assms(4)] assms(4) by auto

definition demo_bus :: "(nat, unit) bus_env" where
  "demo_bus = \<lparr>B_net = demo_env, open_device = Some (\<lambda>w. Some (0, w)), close_device = Some (\<lambda>w. Some (0, w)),
     panic_register = (\<lambda>w. (0, w)), sysfs_create_file = (\<lambda>w. (- ENOMEM, w))\<rparr>"

definition demo_bus_state :: "(nat, unit) bus_state" where
  "demo_bus_state = \<lparr>net = demo_state, pm = \<lparr>driver_pm = Some (Pm_real 3), pm_ops_real = None, pm_refcnt = 0\<rparr>,
     panic_nb = False, sysfs_file = False, may_wakeup = False\<rparr>"

lemmas demo_bus_eval = demo_bus_def demo_bus_state_def ioss_bus_probe_def ioss_net_link_device_def
  ioss_register_panic_notifier_def dev_call_def ioss_net_watch_device_def ioss_debugfs_add_idev_def create_dir_files_def
  err_sysfs_def err_watch_def ioss_net_unwatch_device_def ioss_iface_set_offline_def flush_refresh_def demo_net_eval ok_kern_def

theorem probe_unwinds_witness:
  "driver_pm (pm (snd (the (ioss_bus_probe demo_bus 7 [[\<lparr>nd_id = 1, nd_name = ''eth0'', nd_parent = 7\<rparr>]] ''eth0'' link_up
     demo_bus_state)))) = Some (Pm_real 3)"
proof -
  let ?r = "ioss_bus_probe demo_bus 7 [[\<lparr>nd_id = 1, nd_name = ''eth0'', nd_parent = 7\<rparr>]] ''eth0'' link_up demo_bus_state"
  have r: "?r = Some (- ENOMEM, snd (the ?r))" by (simp add: demo_bus_eval)
  have "pm_inv (Some (Pm_real 3)) 0 (pm demo_bus_state)" by (simp add: pm_inv_def demo_bus_state_def)
  from probe_unwinds [OF r _ _ this] show ?thesis by (simp add: demo_bus_state_def pm_inv_def)
qed

text \<open>
  A defect: when the net-device notifier cannot be unregistered, \<open>ioss_bus_remove\<close> returns at
  once; the device is gone but the driver keeps the glue table, and the panic notifier that
  points into the device stays registered. Together with the watch that fails silently this
  happens whenever no wakeup source could be registered, because no notifier was.
\<close>

theorem remove_keeps_hijack:
  assumes "ioss_net_unwatch_device (B_net B) v (net s) = Some (rc, n)" "rc \<noteq> 0"
  shows "\<exists>s'. ioss_bus_remove B v s = Some (rc, s') \<and> pm s' = pm s \<and> panic_nb s' = panic_nb s"
  using assms by (simp add: ioss_bus_remove_def)

theorem remove_keeps_hijack_witness:
  "\<exists>s'. ioss_bus_remove (demo_bus\<lparr>B_net := demo_env\<lparr>unregister_netdevice_notifier := (\<lambda>w. (- ENOENT, w))\<rparr>\<rparr>) link_up
      (demo_bus_state\<lparr>panic_nb := True\<rparr>) = Some (- ENOENT, s') \<and> panic_nb s'"
proof -
  let ?B = "demo_bus\<lparr>B_net := demo_env\<lparr>unregister_netdevice_notifier := (\<lambda>w. (- ENOENT, w))\<rparr>\<rparr>"
  let ?s = "demo_bus_state\<lparr>panic_nb := True\<rparr>"
  let ?u = "ioss_net_unwatch_device (B_net ?B) link_up (net ?s)"
  have "?u = Some (- ENOENT, snd (the ?u))" by (simp add: demo_bus_eval)
  from remove_keeps_hijack [OF this] show ?thesis by auto
qed

subsection \<open>Module\<close>

definition mod_down :: "'c list \<Rightarrow> 'c mod_state \<Rightarrow> bool" where
  "mod_down live m \<longleftrightarrow> buf_norm (mod_log m) = None \<and> buf_prio (mod_log m) = None \<and> mod_ctxs m = live
     \<and> \<not> bus_registered m \<and> \<not> root_dir (mod_debugfs m) \<and> \<not> devices_dir (mod_debugfs m) \<and> \<not> platform_registered m"

lemma debugfs_init_cases:
  "ioss_debugfs_init K r w = (rc, r', w') \<Longrightarrow> \<not> root_dir r \<Longrightarrow>
   (rc = 0 \<and> root_dir r' \<and> devices_dir r') \<or> (rc \<noteq> 0 \<and> \<not> root_dir r' \<and> \<not> devices_dir r')"
  by (auto simp: ioss_debugfs_init_def Let_def split: prod.splits if_splits)

text \<open>
  Loading the module is all or nothing: on success log contexts, bus, debugfs directories
  and platform driver are all in place; on failure at any step none of them is, and no log
  context is left open. Unloading after a successful load leaves none either.
\<close>

theorem module_init_all_or_nothing:
  assumes "creates_one create" "mod_down live m"
    and "ioss_module_init create K bus_register platform_driver_register m w = (rc, m', w')"
  shows "if rc = 0
    then buf_norm (mod_log m') \<noteq> None \<and> buf_prio (mod_log m') \<noteq> None \<and> bus_registered m' \<and> root_dir (mod_debugfs m')
      \<and> devices_dir (mod_debugfs m') \<and> platform_registered m' \<and> mod_down live (fst (ioss_module_exit K m' w2))
    else mod_down live m'"
proof -
  obtain rc1 l cs where li: "ioss_log_init create (mod_log m) (mod_ctxs m) = (rc1, l, cs)"
    by (cases "ioss_log_init create (mod_log m) (mod_ctxs m)") auto
  have "buf_norm (mod_log m) = None" and ctx: "mod_ctxs m = live" and rd: "\<not> root_dir (mod_debugfs m)"
    using assms(2) by (auto simp: mod_down_def)
  from ioss_log_init_cases [OF assms(1) this(1) li] show ?thesis
  proof (elim disjE conjE exE)
    assume "rc1 = - EFAULT" "buf_prio l = None" "buf_norm l = None" "cs = mod_ctxs m"
    with assms(2,3) li show ?thesis by (auto simp: ioss_module_init_def mod_down_def Let_def)
  next
    fix p n assume up: "rc1 = 0" "buf_prio l = Some p" "buf_norm l = Some n" "cs = n # p # mod_ctxs m"
    have de: "ioss_log_deinit l cs = (l\<lparr>buf_norm := None, buf_prio := None\<rparr>, live)"
      using up ctx by (simp add: ioss_log_deinit_def destroy_ctx_def)
    obtain rc2 w2 where b: "bus_register w = (rc2, w2)" by fastforce
    obtain rc3 r w3 where f: "ioss_debugfs_init K (mod_debugfs m) w2 = (rc3, r, w3)"
      by (cases "ioss_debugfs_init K (mod_debugfs m) w2") auto
    obtain rc4 w4 where pl: "platform_driver_register w3 = (rc4, w4)" by fastforce
    from debugfs_init_cases [OF f rd] assms(2,3) li up(1-3) b f pl de show ?thesis
      by (auto simp: ioss_module_init_def ioss_module_exit_def ioss_debugfs_exit_def mod_down_def Let_def split: if_splits)
  qed
qed

definition demo_create :: "string \<Rightarrow> nat list \<Rightarrow> nat option \<times> nat list" where
  "demo_create nm live = (Some (Suc (sum_list live)), Suc (sum_list live) # live)"

theorem module_init_all_or_nothing_witness:
  "platform_registered (fst (snd (ioss_module_init demo_create ok_kern
     (\<lambda>w. (0, w)) (\<lambda>w. (0, w)) \<lparr>mod_log = \<lparr>log_debug = False, buf_norm = None, buf_prio = None\<rparr>, mod_ctxs = [],
       bus_registered = False, mod_debugfs = \<lparr>root_dir = False, devices_dir = False\<rparr>, platform_registered = False\<rparr> ())))"
proof -
  let ?m = "\<lparr>mod_log = \<lparr>log_debug = False, buf_norm = None, buf_prio = None\<rparr>, mod_ctxs = [], bus_registered = False,
    mod_debugfs = \<lparr>root_dir = False, devices_dir = False\<rparr>, platform_registered = False\<rparr> :: nat mod_state"
  let ?r = "ioss_module_init demo_create ok_kern (\<lambda>w. (0, w)) (\<lambda>w. (0, w)) ?m ()"
  have "Suc (sum_list live) \<notin> set live" for live :: "nat list"
    using member_le_sum_list [of "Suc (sum_list live)" live] by auto
  then have c: "creates_one demo_create" by (simp add: creates_one_def demo_create_def)
  have r: "?r = (0, fst (snd ?r), snd (snd ?r))"
    by (simp add: ioss_module_init_def ioss_log_init_def demo_create_def ok_kern_def ioss_debugfs_init_def Let_def)
  have "mod_down [] ?m" by (simp add: mod_down_def)
  from module_init_all_or_nothing [OF c this r] show ?thesis by simp
qed

end
