(* ===== verification/R8125_State.thy ===== *)
theory R8125_State
  imports Ioss_Base
begin

text \<open>
  The state of the Realtek 8125 driver that its library interface and its receive-side scaling
  share (\<^verbatim>\<open>r8125/src/r8125.h\<close> and \<^verbatim>\<open>r8125_lib.h\<close>). Of the private data of the driver the fields these
  two parts use are kept. The chip is modelled by what they program: a register file indexed by
  the register's offset, the words of the MSI-X table, the enabled interrupt messages and the
  descriptor rings in memory. \<open>rxhash\<close> is the feature bit \<open>NETIF_F_RXHASH\<close> of the net device.

  The rest of the network driver (\<^verbatim>\<open>r8125_n.c\<close>: reset, start, open, close) is the parameter
  \<open>base_drv\<close>, and \<open>bd_rss_key\<close> is the random key of the network stack, which \<open>netdev_rss_key_fill\<close>
  copies out.
\<close>

unbundle bit_operations_syntax

section \<open>State\<close>

record rtl_buf =
  rb_addr :: vaddr
  rb_dma :: dma_addr
  rb_size :: u32

record rtl_event =
  re_addr :: dma_addr
  re_data :: u64
  re_allocated :: bool
  re_enabled :: bool
  re_message_id :: u32
  re_delay :: int

record rtl_ring =
  rg_enabled :: bool
  rg_allocated :: bool
  rg_direction :: channel_dir
  queue_num :: u32
  rg_flags :: u32
  rg_ring_size :: u32
  rg_desc_size :: u32
  rg_buff_size :: u32
  rg_desc_addr :: vaddr
  rg_desc_daddr :: dma_addr
  rg_bufs :: "rtl_buf list option"
  rg_mem_ops :: bool
  rg_event :: rtl_event

type_synonym ring_ref = "channel_dir \<times> nat"

record rtl_private =
  num_tx_rings :: nat
  num_rx_rings :: nat
  HwSuppNumTxQueues :: nat
  HwSuppNumRxQueues :: nat
  lib_tx_ring :: "rtl_ring list"
  lib_rx_ring :: "rtl_ring list"
  RxDescLength :: u32
  net_running :: bool
  EnableRss :: bool
  HwSuppIndirTblEntries :: u16
  rss_flags :: u32
  rss_key :: "u8 list"
  rss_indir_tbl :: "u8 list"
  rxhash :: bool
  descs :: "vaddr \<Rightarrow> (u64 \<times> u32) list"
  mmio :: "u16 \<Rightarrow> u32"
  msix :: "u16 \<Rightarrow> u32"
  irq_on :: "u32 \<Rightarrow> bool"

record base_drv =
  bd_restart :: "rtl_private \<Rightarrow> rtl_private"
  bd_linkchg :: "rtl_private \<Rightarrow> rtl_private"
  bd_stop :: "rtl_private \<Rightarrow> rtl_private"
  bd_start :: "rtl_private \<Rightarrow> rtl_private"
  bd_hw_reset :: "rtl_private \<Rightarrow> rtl_private"
  bd_rss_key :: "u8 list"

abbreviation (input) CONTIG_BUFS :: u32 where "CONTIG_BUFS \<equiv> 1"
abbreviation (input) RingEnd :: u32 where "RingEnd \<equiv> 0x40000000"
abbreviation (input) DescOwn :: u32 where "DescOwn \<equiv> 0x80000000"
abbreviation (input) TXDESC_SIZE :: u32 where "TXDESC_SIZE \<equiv> 32"
abbreviation (input) TNPDS_Q1_LOW_8125 :: u16 where "TNPDS_Q1_LOW_8125 \<equiv> 0x2100"
abbreviation (input) RDSAR_Q1_LOW_8125 :: u16 where "RDSAR_Q1_LOW_8125 \<equiv> 0x4000"
abbreviation (input) INT_MITI_V2_0_RX :: u16 where "INT_MITI_V2_0_RX \<equiv> 0x0A00"
abbreviation (input) INT_MITI_V2_0_TX :: u16 where "INT_MITI_V2_0_TX \<equiv> 0x0A02"
abbreviation (input) INT_MITI_V2_1_TX :: u16 where "INT_MITI_V2_1_TX \<equiv> 0x0A0A"

text \<open>
  Register access. The register file holds one 32-bit cell per offset that is accessed; an 8-bit
  write changes the low byte of its cell, and a 16-bit read returns the low half.
\<close>

definition RTL_W32 :: "u16 \<Rightarrow> u32 \<Rightarrow> rtl_private \<Rightarrow> rtl_private" where
  "RTL_W32 reg v tp = tp\<lparr>mmio := (mmio tp)(reg := v)\<rparr>"

definition RTL_W8 :: "u16 \<Rightarrow> u8 \<Rightarrow> rtl_private \<Rightarrow> rtl_private" where
  "RTL_W8 reg v tp = tp\<lparr>mmio := (mmio tp)(reg := (mmio tp reg AND NOT 0xFF) OR ucast v)\<rparr>"

definition RTL_R16 :: "rtl_private \<Rightarrow> u16 \<Rightarrow> u16" where
  "RTL_R16 tp reg = ucast (mmio tp reg)"

definition lib_rings :: "channel_dir \<Rightarrow> rtl_private \<Rightarrow> rtl_ring list" where
  "lib_rings d tp = (case d of CH_DIR_TX \<Rightarrow> lib_tx_ring tp | CH_DIR_RX \<Rightarrow> lib_rx_ring tp)"

definition get_ring :: "rtl_private \<Rightarrow> ring_ref \<Rightarrow> rtl_ring" where
  "get_ring tp r = lib_rings (fst r) tp ! snd r"

definition put_ring :: "ring_ref \<Rightarrow> rtl_ring \<Rightarrow> rtl_private \<Rightarrow> rtl_private" where
  "put_ring r x tp =
     (case fst r of CH_DIR_TX \<Rightarrow> tp\<lparr>lib_tx_ring := (lib_tx_ring tp)[snd r := x]\<rparr>
                  | CH_DIR_RX \<Rightarrow> tp\<lparr>lib_rx_ring := (lib_rx_ring tp)[snd r := x]\<rparr>)"

definition lib_range :: "channel_dir \<Rightarrow> rtl_private \<Rightarrow> nat list" where
  "lib_range d tp =
     (case d of CH_DIR_TX \<Rightarrow> [num_tx_rings tp ..< HwSuppNumTxQueues tp]
              | CH_DIR_RX \<Rightarrow> [num_rx_rings tp ..< HwSuppNumRxQueues tp])"

text \<open>A chip with one ring of each direction for the network driver and one for the library.\<close>

definition ring_zero :: "channel_dir \<Rightarrow> u32 \<Rightarrow> rtl_ring" where
  "ring_zero d q = \<lparr>rg_enabled = False, rg_allocated = False, rg_direction = d, queue_num = q, rg_flags = 0, rg_ring_size = 0,
     rg_desc_size = 0, rg_buff_size = 0, rg_desc_addr = 0, rg_desc_daddr = 0, rg_bufs = None, rg_mem_ops = False,
     rg_event = \<lparr>re_addr = 0, re_data = 0, re_allocated = False, re_enabled = False, re_message_id = 0, re_delay = 0\<rparr>\<rparr>"

definition demo_chip :: rtl_private where
  "demo_chip = \<lparr>num_tx_rings = 1, num_rx_rings = 1, HwSuppNumTxQueues = 2, HwSuppNumRxQueues = 2,
     lib_tx_ring = [ring_zero CH_DIR_TX 0, ring_zero CH_DIR_TX 1], lib_rx_ring = [ring_zero CH_DIR_RX 0, ring_zero CH_DIR_RX 1],
     RxDescLength = 32, net_running = True, EnableRss = True, HwSuppIndirTblEntries = 128, rss_flags = 0,
     rss_key = replicate 40 0, rss_indir_tbl = replicate 128 0, rxhash = True, descs = (\<lambda>_. []), mmio = (\<lambda>_. 0),
     msix = (\<lambda>a. if a = 0x10 then 0xFEE00000 else if a = 0x18 then 0x31 else 0), irq_on = (\<lambda>_. False)\<rparr>"

end
