(* ===== verification/R8125_Rss.thy ===== *)
theory R8125_Rss
  imports R8125_State "HOL-Library.Log_Nat"
begin

text \<open>
  Receive-side scaling of the Realtek 8125 driver (\<^verbatim>\<open>r8125/src/r8125_rss.c\<close>): the table that spreads
  received packets over the rings, the hash key, the packet types that are hashed, the
  corresponding ethtool operations, and the two entry points of the library that turn all traffic
  to a lent ring and back (\<open>rtl8125_rss_redirect\<close> and \<open>rtl8125_rss_reset\<close> of \<^verbatim>\<open>r8125_lib.c\<close>).

  The theorems show that the chip's registers always hold what the driver's tables say, whatever
  sequence of ethtool and library calls is made, and that what is set is what is read back.
\<close>

unbundle bit_operations_syntax

section \<open>Constants\<close>

abbreviation (input) RSS_CTRL_8125 :: u16 where "RSS_CTRL_8125 \<equiv> 0x4500"
abbreviation (input) RSS_KEY_8125 :: u16 where "RSS_KEY_8125 \<equiv> 0x4600"
abbreviation (input) RSS_INDIRECTION_TBL_8125_V2 :: u16 where "RSS_INDIRECTION_TBL_8125_V2 \<equiv> 0x4700"
abbreviation (input) RTL8125_RSS_KEY_SIZE :: nat where "RTL8125_RSS_KEY_SIZE \<equiv> 40"
abbreviation (input) FLAG_UDP_IPV4 :: u32 where "FLAG_UDP_IPV4 \<equiv> 1"
abbreviation (input) FLAG_UDP_IPV6 :: u32 where "FLAG_UDP_IPV6 \<equiv> 2"

text \<open>\<open>RSS_CTRL_TCP_IPV4_SUPP\<close>, \<open>IPV4\<close>, \<open>TCP_IPV6\<close> and \<open>IPV6\<close> are the low four bits.\<close>

abbreviation (input) RSS_CTRL_TCP_IP_SUPP :: u32 where "RSS_CTRL_TCP_IP_SUPP \<equiv> 0xF"
abbreviation (input) RSS_CTRL_UDP_IPV4_SUPP :: u32 where "RSS_CTRL_UDP_IPV4_SUPP \<equiv> 0x800"
abbreviation (input) RSS_CTRL_UDP_IPV6_SUPP :: u32 where "RSS_CTRL_UDP_IPV6_SUPP \<equiv> 0x1000"

abbreviation (input) RXH_IP_SRC :: u64 where "RXH_IP_SRC \<equiv> 0x10"
abbreviation (input) RXH_IP_DST :: u64 where "RXH_IP_DST \<equiv> 0x20"
abbreviation (input) RXH_L4 :: u64 where "RXH_L4 \<equiv> 0xC0"  \<comment> \<open>\<open>RXH_L4_B_0_1 | RXH_L4_B_2_3\<close>\<close>

abbreviation (input) TCP_V4_FLOW :: u32 where "TCP_V4_FLOW \<equiv> 1"
abbreviation (input) UDP_V4_FLOW :: u32 where "UDP_V4_FLOW \<equiv> 2"
abbreviation (input) TCP_V6_FLOW :: u32 where "TCP_V6_FLOW \<equiv> 5"
abbreviation (input) UDP_V6_FLOW :: u32 where "UDP_V6_FLOW \<equiv> 6"
abbreviation (input) IPV4_FLOW :: u32 where "IPV4_FLOW \<equiv> 0x10"
abbreviation (input) IPV6_FLOW :: u32 where "IPV6_FLOW \<equiv> 0x11"

text \<open>
  \<open>SCTP\<close>, \<open>AH_ESP\<close>, \<open>AH\<close> and \<open>ESP\<close> over both versions of IP, \<open>IP_USER_FLOW\<close> and \<open>ETHER_FLOW\<close>.
\<close>

abbreviation (input) unhashed_flows :: "u32 list" where
  "unhashed_flows \<equiv> [3, 4, 9, 10, 7, 8, 11, 12, 13, 0x12]"

abbreviation (input) ETHTOOL_GRXFH :: u32 where "ETHTOOL_GRXFH \<equiv> 0x29"
abbreviation (input) ETHTOOL_SRXFH :: u32 where "ETHTOOL_SRXFH \<equiv> 0x2A"
abbreviation (input) ETHTOOL_GRXRINGS :: u32 where "ETHTOOL_GRXRINGS \<equiv> 0x2D"
abbreviation (input) ETH_RSS_HASH_NO_CHANGE :: u8 where "ETH_RSS_HASH_NO_CHANGE \<equiv> 0"
abbreviation (input) ETH_RSS_HASH_TOP :: u8 where "ETH_RSS_HASH_TOP \<equiv> 1"

record ethtool_rxnfc =
  rx_cmd :: u32
  flow_type :: u32
  rx_data :: u64

section \<open>Register contents\<close>

text \<open>The kernel's \<open>ilog2\<close> of a run-time value is the index of the last bit set, \<open>- 1\<close> for 0.\<close>

definition ilog2 :: "nat \<Rightarrow> int" where
  "ilog2 n = int (floorlog 2 n) - 1"

definition rtl8125_num_lib_rx_rings :: "rtl_private \<Rightarrow> nat" where
  "rtl8125_num_lib_rx_rings tp = length (filter (\<lambda>i. rg_enabled (lib_rx_ring tp ! i)) (lib_range CH_DIR_RX tp))"

definition rtl8125_tot_rx_rings :: "rtl_private \<Rightarrow> nat" where
  "rtl8125_tot_rx_rings tp = num_rx_rings tp + rtl8125_num_lib_rx_rings tp"

definition rtl8125_rss_indir_tbl_entries :: "rtl_private \<Rightarrow> nat" where
  "rtl8125_rss_indir_tbl_entries tp = unat (HwSuppIndirTblEntries tp)"

definition udp_supp :: "u32 \<Rightarrow> u32" where
  "udp_supp flags = (if flags AND FLAG_UDP_IPV4 \<noteq> 0 then RSS_CTRL_UDP_IPV4_SUPP else 0)
     OR (if flags AND FLAG_UDP_IPV6 \<noteq> 0 then RSS_CTRL_UDP_IPV6_SUPP else 0)"

text \<open>\<open>_rtl8125_set_rss_hash_opt\<close>.\<close>

definition init_rss_hash_opt :: "rtl_private \<Rightarrow> rtl_private" where
  "init_rss_hash_opt tp =
     (let rss_ctrl = push_bit 16 (word_of_int (ilog2 (rtl8125_tot_rx_rings tp)) AND 7);
          rss_ctrl = rss_ctrl OR RSS_CTRL_TCP_IP_SUPP;
          rss_ctrl = rss_ctrl OR udp_supp (rss_flags tp);
          hash_mask_len = word_of_int (ilog2 (rtl8125_rss_indir_tbl_entries tp)) AND 7
      in RTL_W32 RSS_CTRL_8125 (rss_ctrl OR push_bit 8 hash_mask_len) tp)"

text \<open>One turn of the loop of \<open>rtl8125_store_reta\<close>: four table entries make a register.\<close>

definition reta_step :: "u8 list \<Rightarrow> nat \<Rightarrow> u16 \<times> u32 \<times> (u16 \<Rightarrow> u32) \<Rightarrow> u16 \<times> u32 \<times> (u16 \<Rightarrow> u32)" where
  "reta_step tbl i x =
     (case x of (reg, reta, mm) \<Rightarrow>
        let reta = reta OR push_bit (i mod 4 * 8) (ucast (tbl ! i)) in
        if i mod 4 = 3 then (reg + 4, 0, mm(reg := reta)) else (reg, reta, mm))"

definition rtl8125_store_reta :: "rtl_private \<Rightarrow> rtl_private" where
  "rtl8125_store_reta tp =
     tp\<lparr>mmio := snd (snd (fold (reta_step (rss_indir_tbl tp)) [0 ..< rtl8125_rss_indir_tbl_entries tp]
                           (RSS_INDIRECTION_TBL_8125_V2, 0, mmio tp)))\<rparr>"

text \<open>The word at index \<open>j\<close> of an array of bytes, on a little-endian processor.\<close>

definition le_word :: "u8 list \<Rightarrow> nat \<Rightarrow> u32" where
  "le_word key j = ucast (key ! (4 * j)) OR push_bit 8 (ucast (key ! (4 * j + 1)))
     OR push_bit 16 (ucast (key ! (4 * j + 2))) OR push_bit 24 (ucast (key ! (4 * j + 3)))"

definition rtl8125_store_rss_key :: "rtl_private \<Rightarrow> rtl_private" where
  "rtl8125_store_rss_key tp =
     fold (\<lambda>j tp. RTL_W32 (RSS_KEY_8125 + 4 * of_nat j) (le_word (rss_key tp) j) tp)
       [0 ..< RTL8125_RSS_KEY_SIZE div 4] tp"

text \<open>\<open>_rtl8125_config_rss\<close>, then the function that honours the switch.\<close>

definition program_rss :: "rtl_private \<Rightarrow> rtl_private" where
  "program_rss tp = rtl8125_store_rss_key (rtl8125_store_reta (init_rss_hash_opt tp))"

definition rtl8125_disable_rss :: "rtl_private \<Rightarrow> rtl_private" where
  "rtl8125_disable_rss tp = RTL_W32 RSS_CTRL_8125 0 tp"

definition rtl8125_config_rss :: "rtl_private \<Rightarrow> rtl_private" where
  "rtl8125_config_rss tp = (if \<not> EnableRss tp then rtl8125_disable_rss tp else program_rss tp)"

text \<open>A loop that writes the first \<open>n\<close> entries of the driver's table.\<close>

primrec fill_indir :: "(nat \<Rightarrow> u8) \<Rightarrow> nat \<Rightarrow> u8 list \<Rightarrow> u8 list" where
  "fill_indir f 0 tbl = tbl"
| "fill_indir f (Suc n) tbl = (fill_indir f n tbl)[n := f n]"

definition rtl8125_init_rss :: "base_drv \<Rightarrow> rtl_private \<Rightarrow> rtl_private" where
  "rtl8125_init_rss B tp =
     tp\<lparr>rss_indir_tbl := fill_indir (\<lambda>i. of_nat (i mod num_rx_rings tp)) (rtl8125_rss_indir_tbl_entries tp) (rss_indir_tbl tp),
        rss_key := take RTL8125_RSS_KEY_SIZE (bd_rss_key B)\<rparr>"

section \<open>Library entry points\<close>

definition rtl8125_rss_redirect :: "ring_ref option \<Rightarrow> rtl_private \<Rightarrow> (int \<times> rtl_private) option" where
  "rtl8125_rss_redirect r tp =
     (case r of
        None \<Rightarrow> None
      | Some r \<Rightarrow>
          let q = ucast (queue_num (get_ring tp r));
              tbl = fill_indir (\<lambda>_. q) (rtl8125_rss_indir_tbl_entries tp) (rss_indir_tbl tp)
          in Some (0, program_rss (tp\<lparr>rss_indir_tbl := tbl\<rparr>)))"

definition rtl8125_rss_reset :: "base_drv \<Rightarrow> rtl_private \<Rightarrow> int \<times> rtl_private" where
  "rtl8125_rss_reset B tp = (0, program_rss (rtl8125_init_rss B tp))"

section \<open>Ethtool operations\<close>

text \<open>The answer to \<open>ETHTOOL_GRXFH\<close>; the cases of the source fall through.\<close>

definition rtl8125_get_rss_hash_opts :: "rtl_private \<Rightarrow> ethtool_rxnfc \<Rightarrow> int \<times> ethtool_rxnfc" where
  "rtl8125_get_rss_hash_opts tp cmd =
     (let tcp = (\<lambda>x. x OR RXH_L4);
          udp = (\<lambda>flag x. if rss_flags tp AND flag \<noteq> 0 then x OR RXH_L4 else x);
          ip = (\<lambda>x. x OR (RXH_IP_SRC OR RXH_IP_DST));
          answer = (\<lambda>x. (0, cmd\<lparr>rx_data := x\<rparr>)) in
      if flow_type cmd = TCP_V4_FLOW then answer (ip (udp FLAG_UDP_IPV4 (tcp 0)))
      else if flow_type cmd = UDP_V4_FLOW then answer (ip (udp FLAG_UDP_IPV4 0))
      else if flow_type cmd = IPV4_FLOW then answer (ip 0)
      else if flow_type cmd = TCP_V6_FLOW then answer (ip (udp FLAG_UDP_IPV6 (tcp 0)))
      else if flow_type cmd = UDP_V6_FLOW then answer (ip (udp FLAG_UDP_IPV6 0))
      else if flow_type cmd = IPV6_FLOW then answer (ip 0)
      else (- EINVAL, cmd\<lparr>rx_data := 0\<rparr>))"

definition rtl8125_get_rxnfc :: "rtl_private \<Rightarrow> ethtool_rxnfc \<Rightarrow> int \<times> ethtool_rxnfc" where
  "rtl8125_get_rxnfc tp cmd =
     (if \<not> rxhash tp then (- EOPNOTSUPP, cmd)
      else if rx_cmd cmd = ETHTOOL_GRXRINGS then (0, cmd\<lparr>rx_data := of_nat (rtl8125_tot_rx_rings tp)\<rparr>)
      else if rx_cmd cmd = ETHTOOL_GRXFH then rtl8125_get_rss_hash_opts tp cmd
      else (- EOPNOTSUPP, cmd))"

text \<open>
  The switch of \<open>rtl8125_set_rss_hash_opt\<close>: the new flags, an error, or (\<open>Inl 0\<close>) success without
  a change.
\<close>

definition new_rss_flags :: "u32 \<Rightarrow> u64 \<Rightarrow> u32 \<Rightarrow> int + u32" where
  "new_rss_flags flow nfc flags =
     (let udp = (\<lambda>flag. if nfc AND RXH_IP_SRC = 0 \<or> nfc AND RXH_IP_DST = 0 then Inl (- EINVAL)
                        else if nfc AND RXH_L4 = 0 then Inr (flags AND NOT flag)
                        else if nfc AND RXH_L4 = RXH_L4 then Inr (flags OR flag)
                        else Inl (- EINVAL)) in
      if flow = TCP_V4_FLOW \<or> flow = TCP_V6_FLOW then
        (if nfc AND RXH_IP_SRC = 0 \<or> nfc AND RXH_IP_DST = 0 \<or> nfc AND 0x40 = 0 \<or> nfc AND 0x80 = 0
         then Inl (- EINVAL) else Inr flags)
      else if flow = UDP_V4_FLOW then udp FLAG_UDP_IPV4
      else if flow = UDP_V6_FLOW then udp FLAG_UDP_IPV6
      else if flow \<in> set unhashed_flows then (if nfc \<noteq> 0 then Inl (- EINVAL) else Inl 0)
      else Inl (- EINVAL))"

definition rtl8125_set_rss_hash_opt :: "ethtool_rxnfc \<Rightarrow> rtl_private \<Rightarrow> int \<times> rtl_private" where
  "rtl8125_set_rss_hash_opt nfc tp =
     (if rx_data nfc AND NOT (RXH_IP_SRC OR RXH_IP_DST OR RXH_L4) \<noteq> 0 then (- EINVAL, tp)
      else (case new_rss_flags (flow_type nfc) (rx_data nfc) (rss_flags tp) of
              Inl rc \<Rightarrow> (rc, tp)
            | Inr flags \<Rightarrow>
                if flags \<noteq> rss_flags tp then
                  let rss_ctrl = mmio tp RSS_CTRL_8125;
                      rss_ctrl = rss_ctrl OR RSS_CTRL_TCP_IP_SUPP;
                      rss_ctrl = rss_ctrl AND NOT (RSS_CTRL_UDP_IPV4_SUPP OR RSS_CTRL_UDP_IPV6_SUPP)
                  in (0, RTL_W32 RSS_CTRL_8125 (rss_ctrl OR udp_supp flags) (tp\<lparr>rss_flags := flags\<rparr>))
                else (0, tp)))"

definition rtl8125_set_rxnfc :: "ethtool_rxnfc \<Rightarrow> rtl_private \<Rightarrow> int \<times> rtl_private" where
  "rtl8125_set_rxnfc cmd tp =
     (if \<not> rxhash tp then (- EOPNOTSUPP, tp)
      else if rx_cmd cmd = ETHTOOL_SRXFH then rtl8125_set_rss_hash_opt cmd tp
      else (- EOPNOTSUPP, tp))"

definition rtl8125_get_rxfh_key_size :: "rtl_private \<Rightarrow> nat" where
  "rtl8125_get_rxfh_key_size tp = (if \<not> rxhash tp then 0 else RTL8125_RSS_KEY_SIZE)"

definition rtl8125_rss_indir_size :: "rtl_private \<Rightarrow> nat" where
  "rtl8125_rss_indir_size tp = (if \<not> rxhash tp then 0 else rtl8125_rss_indir_tbl_entries tp)"

definition rtl8125_get_reta :: "rtl_private \<Rightarrow> u32 list" where
  "rtl8125_get_reta tp = map (\<lambda>i. ucast (rss_indir_tbl tp ! i)) [0 ..< rtl8125_rss_indir_tbl_entries tp]"

text \<open>
  \<open>rtl8125_get_rxfh\<close>: the table, the key and the hash function it stores through its pointers,
  none of which the ethtool core leaves NULL at once; each is returned.
\<close>

definition rtl8125_get_rxfh :: "rtl_private \<Rightarrow> int \<times> (u32 list \<times> u8 list \<times> u8) option" where
  "rtl8125_get_rxfh tp =
     (if \<not> rxhash tp then (- EOPNOTSUPP, None)
      else (0, Some (rtl8125_get_reta tp, take (rtl8125_get_rxfh_key_size tp) (rss_key tp), ETH_RSS_HASH_TOP)))"

definition rtl8125_set_rxfh :: "u32 list option \<Rightarrow> u8 list option \<Rightarrow> u8 \<Rightarrow> rtl_private \<Rightarrow> int \<times> rtl_private" where
  "rtl8125_set_rxfh indir key hfunc tp =
     (let reta_entries = rtl8125_rss_indir_tbl_entries tp;
          store = (\<lambda>tp.
            let tp = (case key of
                        None \<Rightarrow> tp
                      | Some k \<Rightarrow> let n = rtl8125_get_rxfh_key_size tp in tp\<lparr>rss_key := take n k @ drop n (rss_key tp)\<rparr>)
            in (0, rtl8125_store_rss_key (rtl8125_store_reta tp))) in
      if hfunc \<noteq> ETH_RSS_HASH_NO_CHANGE \<and> hfunc \<noteq> ETH_RSS_HASH_TOP then (- EOPNOTSUPP, tp)
      else (case indir of
              None \<Rightarrow> store tp
            | Some ind \<Rightarrow>
                if list_ex (\<lambda>i. num_rx_rings tp \<le> unat (ind ! i)) [0 ..< reta_entries] then (- EINVAL, tp)
                else store (tp\<lparr>rss_indir_tbl := fill_indir (\<lambda>i. ucast (ind ! i)) reta_entries (rss_indir_tbl tp)\<rparr>)))"

section \<open>Received packets\<close>

text \<open>
  \<open>rtl8125_rx_hash\<close>: the hash recorded for a packet, with whether ports entered it, from the
  header information and the result word of its descriptor.
\<close>

definition rtl8125_rx_hash :: "rtl_private \<Rightarrow> u16 \<Rightarrow> u32 \<Rightarrow> (u32 \<times> bool) option" where
  "rtl8125_rx_hash tp header_info rss_result =
     (if \<not> rxhash tp then None
      else if header_info AND 0x1400 = 0 then None
      else Some (rss_result, header_info AND 0x2200 \<noteq> 0))"

section \<open>Lemmas\<close>

subsection \<open>Tables of bytes in the register file\<close>

definition write_words :: "u16 \<Rightarrow> (nat \<Rightarrow> u32) \<Rightarrow> nat \<Rightarrow> (u16 \<Rightarrow> u32) \<Rightarrow> u16 \<Rightarrow> u32" where
  "write_words reg f k mm = fold (\<lambda>j mm. mm(reg + 4 * of_nat j := f j)) [0 ..< k] mm"

definition chip_byte :: "(u16 \<Rightarrow> u32) \<Rightarrow> u16 \<Rightarrow> nat \<Rightarrow> u8" where
  "chip_byte mm reg i = ucast (drop_bit (8 * (i mod 4)) (mm (reg + 4 * of_nat (i div 4))))"

lemma write_words_Suc: "write_words reg f (Suc k) mm = (write_words reg f k mm)(reg + 4 * of_nat k := f k)"
  by (simp add: write_words_def)

lemma write_words_outside: "(\<And>j. j < k \<Longrightarrow> a \<noteq> reg + 4 * of_nat j) \<Longrightarrow> write_words reg f k mm a = mm a"
  by (induction k) (simp_all add: write_words_Suc write_words_def)

lemma reg_inj: "i < 2 ^ 14 \<Longrightarrow> j < 2 ^ 14 \<Longrightarrow> reg + 4 * of_nat i = (reg + 4 * of_nat j :: u16) \<longleftrightarrow> i = j"
proof -
  assume "i < 2 ^ 14" "j < 2 ^ 14"
  then have "(4 * of_nat i :: u16) = 4 * of_nat j \<longleftrightarrow> i = j"
    by (simp add: word_unat_eq_iff unat_word_ariths unat_of_nat)
  then show ?thesis by simp
qed

lemma write_words_at: "i < k \<Longrightarrow> k \<le> 2 ^ 14 \<Longrightarrow> write_words reg f k mm (reg + 4 * of_nat i) = f i"
proof (induction k)
  case (Suc k)
  then show ?case using reg_inj [of i k reg] by (cases "i = k") (simp_all add: write_words_Suc)
qed simp

lemma le_word_byte: "m < 4 \<Longrightarrow> (ucast (drop_bit (8 * m) (le_word b j)) :: u8) = b ! (4 * j + m)"
proof -
  assume "m < 4"
  then consider "m = 0" | "m = 1" | "m = 2" | "m = 3" by linarith
  then show ?thesis
    by cases (rule bit_word_eqI, simp add: le_word_def bit_simps; auto dest: bit_imp_le_length)+
qed

lemma chip_byte_written:
  assumes "i < 4 * k" "k \<le> 2 ^ 14"
  shows "chip_byte (write_words reg (le_word b) k mm) reg i = b ! i"
proof -
  have "i div 4 < k" using assms(1) by (simp add: less_mult_imp_div_less mult.commute)
  then show ?thesis using assms(2) by (simp add: chip_byte_def write_words_at le_word_byte)
qed

lemma chip_byte_outside:
  assumes "\<And>j. j < k \<Longrightarrow> reg' + 4 * of_nat (i div 4) \<noteq> reg + 4 * of_nat j"
  shows "chip_byte (write_words reg f k mm) reg' i = chip_byte mm reg' i"
  using assms by (simp add: chip_byte_def write_words_outside)

lemma reta_group:
  "fold (reta_step tbl) [4 * k, 4 * k + 1, 4 * k + 2, 4 * k + 3] (reg, 0, mm) = (reg + 4, 0, mm(reg := le_word tbl k))"
proof -
  have "4 * k mod 4 = 0" "(4 * k + 1) mod 4 = 1" "(4 * k + 2) mod 4 = 2" "(4 * k + 3) mod 4 = 3" by presburger+
  then show ?thesis by (simp add: reta_step_def le_word_def or.assoc)
qed

lemma reta_fold:
  "fold (reta_step tbl) [0 ..< 4 * k] (reg, 0, mm) = (reg + 4 * of_nat k, 0, write_words reg (le_word tbl) k mm)"
proof (induction k)
  case 0
  then show ?case by (simp add: write_words_def)
next
  case (Suc k)
  have "4 * Suc k = Suc (Suc (Suc (Suc (4 * k))))" by simp
  then have "[0 ..< 4 * Suc k] = [0 ..< 4 * k] @ [4 * k, 4 * k + 1, 4 * k + 2, 4 * k + 3]"
    by (simp only: upt_Suc) simp
  then have "fold (reta_step tbl) [0 ..< 4 * Suc k] (reg, 0, mm) =
      fold (reta_step tbl) [4 * k, 4 * k + 1, 4 * k + 2, 4 * k + 3] (fold (reta_step tbl) [0 ..< 4 * k] (reg, 0, mm))"
    by (simp only: fold_append o_apply)
  then show ?case unfolding Suc.IH reta_group write_words_Suc by (simp add: algebra_simps fun_upd_def)
qed

lemma store_reta_mmio:
  assumes "rtl8125_rss_indir_tbl_entries tp = 4 * k"
  shows "rtl8125_store_reta tp = tp\<lparr>mmio := write_words RSS_INDIRECTION_TBL_8125_V2 (le_word (rss_indir_tbl tp)) k (mmio tp)\<rparr>"
  using assms by (simp add: rtl8125_store_reta_def reta_fold)

lemma store_words:
  "fold (\<lambda>j tp. RTL_W32 (reg + 4 * of_nat j) (le_word (rss_key tp) j) tp) [0 ..< k] tp
   = tp\<lparr>mmio := write_words reg (le_word (rss_key tp)) k (mmio tp)\<rparr>"
proof (induction k)
  case 0
  then show ?case by (simp add: write_words_def)
next
  case (Suc k)
  show ?case unfolding upt_Suc write_words_Suc using Suc.IH by (simp add: RTL_W32_def) (simp add: fun_upd_def)
qed

lemma store_key_mmio:
  "rtl8125_store_rss_key tp = tp\<lparr>mmio := write_words RSS_KEY_8125 (le_word (rss_key tp)) 10 (mmio tp)\<rparr>"
  by (simp add: rtl8125_store_rss_key_def store_words)

subsection \<open>The chip mirrors the driver's tables\<close>

definition wf_rss :: "rtl_private \<Rightarrow> bool" where
  "wf_rss tp \<longleftrightarrow> HwSuppIndirTblEntries tp = 128 \<and> length (rss_indir_tbl tp) = 128 \<and> length (rss_key tp) = 40"

definition table_mirrored :: "rtl_private \<Rightarrow> bool" where
  "table_mirrored tp \<longleftrightarrow> list_all (\<lambda>i. chip_byte (mmio tp) RSS_INDIRECTION_TBL_8125_V2 i = rss_indir_tbl tp ! i) [0 ..< 128]"

definition key_mirrored :: "rtl_private \<Rightarrow> bool" where
  "key_mirrored tp \<longleftrightarrow> list_all (\<lambda>i. chip_byte (mmio tp) RSS_KEY_8125 i = rss_key tp ! i) [0 ..< 40]"

definition flags_mirrored :: "rtl_private \<Rightarrow> bool" where
  "flags_mirrored tp \<longleftrightarrow> mmio tp RSS_CTRL_8125 AND 0x180F = udp_supp (rss_flags tp) OR RSS_CTRL_TCP_IP_SUPP"

definition rss_mirror :: "rtl_private \<Rightarrow> bool" where
  "rss_mirror tp \<longleftrightarrow> wf_rss tp \<and> table_mirrored tp \<and> key_mirrored tp \<and> flags_mirrored tp"

lemma length_fill_indir [simp]: "length (fill_indir f n tbl) = length tbl"
  by (induction n) simp_all

lemma nth_fill_indir: "n \<le> length tbl \<Longrightarrow> i < n \<Longrightarrow> fill_indir f n tbl ! i = f i"
  by (induction n) (auto simp: nth_list_update)

lemma entries_wf: "wf_rss tp \<Longrightarrow> rtl8125_rss_indir_tbl_entries tp = 4 * 32"
  by (simp add: wf_rss_def rtl8125_rss_indir_tbl_entries_def)

text \<open>The three register areas do not overlap.\<close>

lemma area_apart:
  "j < 32 \<Longrightarrow> RSS_CTRL_8125 \<noteq> RSS_INDIRECTION_TBL_8125_V2 + 4 * of_nat j"
  "j < 10 \<Longrightarrow> RSS_CTRL_8125 \<noteq> RSS_KEY_8125 + 4 * of_nat j"
  "i < 32 \<Longrightarrow> j < 10 \<Longrightarrow> RSS_INDIRECTION_TBL_8125_V2 + 4 * of_nat i \<noteq> RSS_KEY_8125 + 4 * of_nat j"
  by (simp_all add: word_unat_eq_iff unat_word_ariths unat_of_nat)

lemma store_tables:
  assumes "wf_rss tp"
  defines "tp' \<equiv> rtl8125_store_rss_key (rtl8125_store_reta tp)"
  shows "table_mirrored tp'" "key_mirrored tp'" "mmio tp' RSS_CTRL_8125 = mmio tp RSS_CTRL_8125"
    "\<exists>m. tp' = tp\<lparr>mmio := m\<rparr>"
proof -
  let ?t = "write_words RSS_INDIRECTION_TBL_8125_V2 (le_word (rss_indir_tbl tp)) 32 (mmio tp)"
  let ?m = "write_words RSS_KEY_8125 (le_word (rss_key tp)) 10 ?t"
  have tp': "tp' = tp\<lparr>mmio := ?m\<rparr>"
    by (simp add: tp'_def store_key_mmio store_reta_mmio [OF entries_wf [OF assms(1)]])
  then show "\<exists>m. tp' = tp\<lparr>mmio := m\<rparr>" by blast
  show "key_mirrored tp'" by (simp add: key_mirrored_def tp' list_all_iff chip_byte_written)
  have "chip_byte ?m RSS_INDIRECTION_TBL_8125_V2 i = rss_indir_tbl tp ! i" if "i < 128" for i
  proof -
    have "i div 4 < 32" using that by simp
    then have "chip_byte ?m RSS_INDIRECTION_TBL_8125_V2 i = chip_byte ?t RSS_INDIRECTION_TBL_8125_V2 i"
      by (intro chip_byte_outside area_apart(3))
    then show ?thesis using that by (simp add: chip_byte_written)
  qed
  then show "table_mirrored tp'" by (simp add: table_mirrored_def tp' list_all_iff)
  show "mmio tp' RSS_CTRL_8125 = mmio tp RSS_CTRL_8125"
    using area_apart(1,2) by (simp add: tp' write_words_outside)
qed

lemma init_hash_opt_flags: "flags_mirrored (init_rss_hash_opt tp)"
proof -
  have "(((push_bit 16 (a AND 7) OR 0xF) OR udp_supp f) OR push_bit 8 (b AND 7)) AND 0x180F = udp_supp f OR (0xF :: u32)" for a b :: u32 and f
    by (rule bit_word_eqI)
      (auto simp: udp_supp_def bit_simps, auto simp: bit_numeral_rec numeral_eq_Suc less_Suc_eq)
  then show ?thesis by (simp add: flags_mirrored_def init_rss_hash_opt_def RTL_W32_def Let_def)
qed

lemma mirror_intro:
  assumes "wf_rss tp" "flags_mirrored tp"
  shows "rss_mirror (rtl8125_store_rss_key (rtl8125_store_reta tp))"
proof -
  let ?tp = "rtl8125_store_rss_key (rtl8125_store_reta tp)"
  obtain m where m: "?tp = tp\<lparr>mmio := m\<rparr>" using store_tables(4) [OF assms(1)] by blast
  then have "wf_rss ?tp" "rss_flags ?tp = rss_flags tp" using assms(1) by (simp_all add: wf_rss_def)
  with store_tables(1-3) [OF assms(1)] assms(2) show ?thesis by (simp add: rss_mirror_def flags_mirrored_def)
qed

lemma wf_rss_mmio [simp]: "wf_rss (tp\<lparr>mmio := m\<rparr>) = wf_rss tp"
  by (simp add: wf_rss_def)

lemma wf_init_hash_opt [simp]: "wf_rss (init_rss_hash_opt tp) = wf_rss tp"
  by (simp add: init_rss_hash_opt_def RTL_W32_def Let_def)

lemma program_rss_mirror: "wf_rss tp \<Longrightarrow> rss_mirror (program_rss tp)"
  by (simp add: program_rss_def mirror_intro init_hash_opt_flags)

lemma program_rss_frame: "\<exists>m. program_rss tp = tp\<lparr>mmio := m\<rparr>"
  by (simp add: program_rss_def store_key_mmio rtl8125_store_reta_def init_rss_hash_opt_def RTL_W32_def Let_def) blast

lemma wf_init_rss: "wf_rss tp \<Longrightarrow> 40 \<le> length (bd_rss_key B) \<Longrightarrow> wf_rss (rtl8125_init_rss B tp)"
  by (simp add: wf_rss_def rtl8125_init_rss_def)

lemma redirect_mirror: "rtl8125_rss_redirect r tp = Some (rc, tp') \<Longrightarrow> wf_rss tp \<Longrightarrow> rss_mirror tp'"
  by (auto simp: rtl8125_rss_redirect_def Let_def wf_rss_def split: option.splits intro!: program_rss_mirror)

lemma mirror_fields [simp]:
  "flags_mirrored (tp\<lparr>rss_indir_tbl := x\<rparr>) = flags_mirrored tp" "flags_mirrored (tp\<lparr>rss_key := y\<rparr>) = flags_mirrored tp"
  "rtl8125_get_rxfh_key_size (tp\<lparr>rss_indir_tbl := x\<rparr>) = rtl8125_get_rxfh_key_size tp"
  by (simp_all add: flags_mirrored_def rtl8125_get_rxfh_key_size_def)

lemma set_rxfh_mirror:
  assumes "rss_mirror tp" "pred_option (\<lambda>k. 40 \<le> length k) key"
  shows "rss_mirror (snd (rtl8125_set_rxfh indir key hfunc tp))"
proof -
  have "rtl8125_get_rxfh_key_size tp \<le> 40" by (simp add: rtl8125_get_rxfh_key_size_def)
  with assms show ?thesis
    by (auto simp: rtl8125_set_rxfh_def Let_def rss_mirror_def [of tp] wf_rss_def flags_mirrored_def
        split: option.splits intro!: mirror_intro)
qed

lemma udp_ctrl_bits:
  "(((c OR 0xF) AND NOT (0x800 OR 0x1000)) OR udp_supp f) AND 0x180F = udp_supp f OR (0xF :: u32)"
  by (rule bit_word_eqI) (auto simp: udp_supp_def bit_simps, auto simp: bit_numeral_rec numeral_eq_Suc less_Suc_eq)

lemma mirrored_after_ctrl:
  assumes "rss_mirror tp" "v AND 0x180F = udp_supp f OR RSS_CTRL_TCP_IP_SUPP"
  shows "rss_mirror (RTL_W32 RSS_CTRL_8125 v (tp\<lparr>rss_flags := f\<rparr>))"
proof -
  have "chip_byte ((mmio tp)(RSS_CTRL_8125 := v)) RSS_INDIRECTION_TBL_8125_V2 i = chip_byte (mmio tp) RSS_INDIRECTION_TBL_8125_V2 i"
    if "i < 128" for i
    using area_apart(1) [of "i div 4"] that by (simp add: chip_byte_def)
  moreover have "chip_byte ((mmio tp)(RSS_CTRL_8125 := v)) RSS_KEY_8125 i = chip_byte (mmio tp) RSS_KEY_8125 i"
    if "i < 40" for i
    using area_apart(2) [of "i div 4"] that by (simp add: chip_byte_def)
  ultimately show ?thesis
    using assms by (simp add: rss_mirror_def wf_rss_def table_mirrored_def key_mirrored_def flags_mirrored_def RTL_W32_def list_all_iff)
qed

lemma set_rxnfc_mirror: "rss_mirror tp \<Longrightarrow> rss_mirror (snd (rtl8125_set_rxnfc nfc tp))"
  by (auto simp: rtl8125_set_rxnfc_def rtl8125_set_rss_hash_opt_def Let_def split: sum.splits
      intro!: mirrored_after_ctrl udp_ctrl_bits [simplified])

subsection \<open>Sequences of calls\<close>

text \<open>The calls that can reach this part of the driver, in any order.\<close>

datatype rss_call =
    Set_rxnfc ethtool_rxnfc
  | Set_rxfh "u32 list option" "u8 list option" u8
  | Redirect ring_ref
  | Reset
  | Config

definition rss_step :: "base_drv \<Rightarrow> rss_call \<Rightarrow> rtl_private \<Rightarrow> rtl_private" where
  "rss_step B c tp =
     (case c of
        Set_rxnfc nfc \<Rightarrow> snd (rtl8125_set_rxnfc nfc tp)
      | Set_rxfh indir key hfunc \<Rightarrow> snd (rtl8125_set_rxfh indir key hfunc tp)
      | Redirect r \<Rightarrow> snd (the (rtl8125_rss_redirect (Some r) tp))
      | Reset \<Rightarrow> snd (rtl8125_rss_reset B tp)
      | Config \<Rightarrow> rtl8125_config_rss tp)"

text \<open>The ethtool core passes a key of the size the driver reported.\<close>

definition key_fits :: "rss_call \<Rightarrow> bool" where
  "key_fits c \<longleftrightarrow> (case c of Set_rxfh _ key _ \<Rightarrow> pred_option (\<lambda>k. 40 \<le> length k) key | _ \<Rightarrow> True)"

lemma rss_step_mirror:
  assumes "rss_mirror tp" "EnableRss tp" "40 \<le> length (bd_rss_key B)" "key_fits c"
  shows "rss_mirror (rss_step B c tp)"
proof (cases c)
  case (Set_rxfh indir key hfunc)
  with assms(1,4) show ?thesis by (simp add: rss_step_def key_fits_def set_rxfh_mirror)
next
  case (Redirect r)
  obtain rc tp' where r: "rtl8125_rss_redirect (Some r) tp = Some (rc, tp')" by (simp add: rtl8125_rss_redirect_def Let_def)
  with redirect_mirror [OF r] assms(1) Redirect show ?thesis by (simp add: rss_step_def rss_mirror_def)
next
  case (Set_rxnfc nfc)
  with assms(1) show ?thesis by (simp add: rss_step_def set_rxnfc_mirror)
next
  case Reset
  from assms(1) have "wf_rss (rtl8125_init_rss B tp)" by (intro wf_init_rss assms(3)) (simp add: rss_mirror_def)
  with Reset show ?thesis by (simp add: rss_step_def rtl8125_rss_reset_def program_rss_mirror)
next
  case Config
  from assms(1) have "wf_rss tp" by (simp add: rss_mirror_def)
  with Config assms(2) show ?thesis by (simp add: rss_step_def rtl8125_config_rss_def program_rss_mirror)
qed

lemma program_rss_switch [simp]: "EnableRss (program_rss tp) = EnableRss tp"
  using program_rss_frame [of tp] by auto

lemma rss_step_switch: "EnableRss (rss_step B c tp) = EnableRss tp"
  by (cases c)
    (auto simp: rss_step_def rtl8125_set_rxnfc_def rtl8125_set_rss_hash_opt_def rtl8125_set_rxfh_def rtl8125_rss_redirect_def
      rtl8125_rss_reset_def rtl8125_config_rss_def rtl8125_disable_rss_def rtl8125_init_rss_def RTL_W32_def Let_def store_key_mmio
      rtl8125_store_reta_def split: sum.splits option.splits)

interpretation rss_calls: call_sequence "rss_step B" "\<lambda>c. key_fits c \<and> 40 \<le> length (bd_rss_key B)"
    "\<lambda>tp. rss_mirror tp \<and> EnableRss tp" for B
  by unfold_locales (simp add: rss_step_mirror rss_step_switch)

text \<open>
  C23. Whatever sequence of calls follows the first programming of the chip, in any order and with
  any arguments, accepted or refused (changes of the hashed packet types, of the table and the
  key by ethtool, redirection to a lent ring and back, reconfiguration after a reset), the chip's
  spreading table, its hash key and its packet types are the ones the driver's own tables hold.
\<close>

theorem rss_chip_mirrors:
  assumes "wf_rss tp" "EnableRss tp" "40 \<le> length (bd_rss_key B)" "list_all key_fits calls"
  shows "rss_mirror (fold (rss_step B) calls (program_rss tp))"
  using rss_calls.run_inv [of "program_rss tp" B calls] program_rss_mirror [OF assms(1)] assms(2-4)
  by (simp add: list_all_iff)

subsection \<open>What is set is what is read\<close>

lemma set_rxfh_tables:
  assumes "rtl8125_set_rxfh (Some ind) (Some key) hfunc tp = (0, tp')" "wf_rss tp" "rxhash tp" "length key = 40"
  shows "rss_indir_tbl tp' = fill_indir (\<lambda>i. ucast (ind ! i)) 128 (rss_indir_tbl tp) \<and> rss_key tp' = key
    \<and> rtl8125_rss_indir_tbl_entries tp' = 128 \<and> rxhash tp'
    \<and> list_all (\<lambda>i. unat (ind ! i) < num_rx_rings tp) [0 ..< 128]"
  using assms entries_wf [OF assms(2)]
  by (auto simp: rtl8125_set_rxfh_def Let_def store_key_mmio rtl8125_store_reta_def rtl8125_get_rxfh_key_size_def wf_rss_def
      rtl8125_rss_indir_tbl_entries_def list_ex_iff list_all_iff not_le split: if_splits)

text \<open>
  Setting the spreading table and the key is checked and faithful: a request that succeeds
  named only rings of the network driver, and reading back returns exactly that table and that
  key; a request that is refused changes nothing, neither the driver's tables nor the chip.
\<close>

theorem rxfh_roundtrip:
  assumes "wf_rss tp" "rxhash tp" "length ind = 128" "length key = 40" "num_rx_rings tp \<le> 256"
    and "rtl8125_set_rxfh (Some ind) (Some key) hfunc tp = (rc, tp')"
  shows "if rc = 0 then rtl8125_get_rxfh tp' = (0, Some (ind, key, ETH_RSS_HASH_TOP)) \<and> list_all (\<lambda>q. unat q < num_rx_rings tp) ind
         else tp' = tp"
proof (cases "rc = 0")
  case True
  note t = set_rxfh_tables [OF assms(6) [unfolded True] assms(1,2,4)]
  have small: "unat (ind ! i) < num_rx_rings tp" if "i < 128" for i using t that by (simp add: list_all_iff)
  have "ucast (ucast (ind ! i) :: u8) = ind ! i" if "i < 128" for i
    using small [OF that] assms(5) by (simp add: word_unat_eq_iff unsigned_ucast_eq unsigned_take_bit_eq take_bit_nat_eq_self)
  then have "rtl8125_get_reta tp' = ind"
    using t assms(1,3) by (simp add: rtl8125_get_reta_def nth_fill_indir wf_rss_def list_eq_iff_nth_eq)
  then show ?thesis
    using t True small assms(3,4)
    by (simp add: rtl8125_get_rxfh_def rtl8125_get_rxfh_key_size_def list_all_length)
next
  case False
  with assms(6) show ?thesis by (auto simp: rtl8125_set_rxfh_def Let_def split: if_splits)
qed

lemma one_bit:
  fixes x :: "'a :: len word"
  shows "x AND push_bit n 1 = (if bit x n then push_bit n 1 else 0)"
  by (rule bit_word_eqI) (auto simp: bit_simps)

lemma rxh_bits:
  fixes x :: u64
  shows "x AND 0x10 = (if bit x 4 then 0x10 else 0)" "x AND 0x20 = (if bit x 5 then 0x20 else 0)"
    "x AND 0x40 = (if bit x 6 then 0x40 else 0)" "x AND 0x80 = (if bit x 7 then 0x80 else 0)"
    "x AND 0xC0 = (if bit x 6 then 0x40 else 0) OR (if bit x 7 then 0x80 else 0)"
proof -
  note b = one_bit [of x 4] one_bit [of x 5] one_bit [of x 6] one_bit [of x 7]
  from b show "x AND 0x10 = (if bit x 4 then 0x10 else 0)" "x AND 0x20 = (if bit x 5 then 0x20 else 0)"
    and x: "x AND 0x40 = (if bit x 6 then 0x40 else 0)" "x AND 0x80 = (if bit x 7 then 0x80 else 0)" by simp_all
  have "x AND 0xC0 = (x AND 0x40) OR (x AND 0x80)" by (simp flip: bit.conj_disj_distrib)
  with x show "x AND 0xC0 = (if bit x 6 then 0x40 else 0) OR (if bit x 7 then 0x80 else 0)" by simp
qed

lemma rxh_whole: "x AND NOT 0xF0 = 0 \<Longrightarrow> (x :: u64) = (x AND 0x10) OR (x AND 0x20) OR (x AND 0xC0)"
proof -
  assume "x AND NOT 0xF0 = 0"
  moreover have "x = (x AND NOT 0xF0) OR (x AND (NOT (NOT 0xF0)))"
    by (simp only: bit.conj_disj_distrib [symmetric] bit.disj_cancel_right bit.disj_cancel_left bit.conj_one_right)
  ultimately have "x = x AND 0xF0" by simp
  then show ?thesis by (simp flip: bit.conj_disj_distrib)
qed

lemma udp_flag_bits: "(f AND NOT g) AND g = (0 :: u32)" "g \<noteq> 0 \<Longrightarrow> (f OR g) AND g \<noteq> (0 :: u32)"
proof -
  show "(f AND NOT g) AND g = 0" by (simp add: and.assoc)
  have "(f OR g) AND g = g" by (rule bit_word_eqI) (auto simp: bit_simps)
  then show "g \<noteq> 0 \<Longrightarrow> (f OR g) AND g \<noteq> 0" by simp
qed

lemma new_flags_reported:
  assumes "new_rss_flags flow nfc flags = Inr f" "nfc AND NOT (RXH_IP_SRC OR RXH_IP_DST OR RXH_L4) = 0"
    and "rss_flags tp = f"
  shows "rtl8125_get_rss_hash_opts tp \<lparr>rx_cmd = c, flow_type = flow, rx_data = x\<rparr>
    = (0, \<lparr>rx_cmd = c, flow_type = flow, rx_data = nfc\<rparr>)"
proof -
  have w: "nfc = (nfc AND 0x10) OR (nfc AND 0x20) OR (nfc AND 0xC0)" using rxh_whole [of nfc] assms(2) by simp
  have flow: "flow \<in> {TCP_V4_FLOW, TCP_V6_FLOW, UDP_V4_FLOW, UDP_V6_FLOW}" and src: "bit nfc 4" and dst: "bit nfc 5"
    using assms(1) by (auto simp: new_rss_flags_def Let_def rxh_bits split: if_splits)
  have "nfc = (0x10 OR 0x20) OR (nfc AND 0xC0)" by (subst w) (simp only: rxh_bits(1,2) src dst if_True or.assoc)
  also have "\<dots> = 0x30 OR (nfc AND 0xC0)" by simp
  finally have n: "nfc = 0x30 OR (nfc AND 0xC0)" .
  show ?thesis
  proof (cases "flow = TCP_V4_FLOW \<or> flow = TCP_V6_FLOW")
    case True
    then have "bit nfc 6" "bit nfc 7" using assms(1) by (auto simp: new_rss_flags_def rxh_bits split: if_splits)
    with n have "nfc = 0xF0" by (simp add: rxh_bits)
    with True show ?thesis by (auto simp: rtl8125_get_rss_hash_opts_def Let_def)
  next
    case False
    define g :: u32 where "g = (if flow = UDP_V4_FLOW then FLAG_UDP_IPV4 else FLAG_UDP_IPV6)"
    have "(if f AND g \<noteq> 0 then 0xF0 else 0x30) = nfc"
    proof (cases "bit nfc 6")
      case True
      then have "f = flags OR g" "bit nfc 7"
        using assms(1) flow False by (auto simp: new_rss_flags_def g_def Let_def rxh_bits split: if_splits)
      with n True udp_flag_bits(2) [of g flags] show ?thesis by (simp add: rxh_bits g_def)
    next
      case off: False
      then have "f = flags AND NOT g" "\<not> bit nfc 7"
        using assms(1) flow False by (auto simp: new_rss_flags_def g_def Let_def rxh_bits split: if_splits)
      with n off udp_flag_bits(1) [of flags g] show ?thesis by (simp add: rxh_bits)
    qed
    with False flow assms(3) show ?thesis by (auto simp: rtl8125_get_rss_hash_opts_def Let_def g_def)
  qed
qed

text \<open>
  The hashed packet types: for every flow that can be hashed (TCP and UDP over both versions
  of IP), a request that succeeds is read back as it was made; the flows that cannot be hashed are
  accepted only with an empty request and change nothing; a request that is refused changes nothing.
\<close>

theorem rxnfc_roundtrip:
  assumes "rxhash tp" "rtl8125_set_rxnfc \<lparr>rx_cmd = ETHTOOL_SRXFH, flow_type = flow, rx_data = opts\<rparr> tp = (rc, tp')"
  shows "if rc = 0 \<and> flow \<in> {TCP_V4_FLOW, UDP_V4_FLOW, TCP_V6_FLOW, UDP_V6_FLOW}
         then rtl8125_get_rxnfc tp' \<lparr>rx_cmd = ETHTOOL_GRXFH, flow_type = flow, rx_data = x\<rparr>
              = (0, \<lparr>rx_cmd = ETHTOOL_GRXFH, flow_type = flow, rx_data = opts\<rparr>)
         else tp' = tp"
proof (cases "opts AND NOT (RXH_IP_SRC OR RXH_IP_DST OR RXH_L4) = 0")
  case bits: True
  show ?thesis
  proof (cases "new_rss_flags flow opts (rss_flags tp)")
    case (Inl e)
    then have "e = 0 \<Longrightarrow> flow \<notin> {TCP_V4_FLOW, UDP_V4_FLOW, TCP_V6_FLOW, UDP_V6_FLOW}"
      by (auto simp: new_rss_flags_def Let_def split: if_splits)
    with Inl bits assms show ?thesis by (auto simp: rtl8125_set_rxnfc_def rtl8125_set_rss_hash_opt_def)
  next
    case (Inr f)
    then have flow: "flow \<in> {TCP_V4_FLOW, UDP_V4_FLOW, TCP_V6_FLOW, UDP_V6_FLOW}"
      by (auto simp: new_rss_flags_def Let_def split: if_splits)
    have "rc = 0" "rss_flags tp' = f" "rxhash tp'"
      using Inr bits assms by (auto simp: rtl8125_set_rxnfc_def rtl8125_set_rss_hash_opt_def RTL_W32_def Let_def split: if_splits)
    with new_flags_reported [OF Inr bits, of tp'] flow show ?thesis by (simp add: rtl8125_get_rxnfc_def)
  qed
next
  case False
  with assms show ?thesis by (simp add: rtl8125_set_rxnfc_def rtl8125_set_rss_hash_opt_def)
qed

subsection \<open>Redirection\<close>

lemma redirect_table:
  assumes "rtl8125_rss_redirect (Some r) tp = Some (rc, tp')" "wf_rss tp" "i < 128"
  shows "chip_byte (mmio tp') RSS_INDIRECTION_TBL_8125_V2 i = ucast (queue_num (get_ring tp r))"
proof -
  let ?t = "tp\<lparr>rss_indir_tbl := fill_indir (\<lambda>_. ucast (queue_num (get_ring tp r))) 128 (rss_indir_tbl tp)\<rparr>"
  have "tp' = program_rss ?t" using assms(1) entries_wf [OF assms(2)] by (simp add: rtl8125_rss_redirect_def Let_def)
  then obtain m where tp': "tp' = ?t\<lparr>mmio := m\<rparr>" using program_rss_frame [of ?t] by auto
  from redirect_mirror [OF assms(1,2)] have "table_mirrored tp'" by (simp add: rss_mirror_def)
  with tp' assms(2,3) show ?thesis by (simp add: table_mirrored_def list_all_iff nth_fill_indir wf_rss_def)
qed

lemma redirect_frame:
  assumes "rtl8125_rss_redirect (Some r) tp = Some (rc, tp')"
  shows "irq_on tp' = irq_on tp \<and> num_rx_rings tp' = num_rx_rings tp"
proof -
  obtain t where t: "tp' = program_rss (tp\<lparr>rss_indir_tbl := t\<rparr>)" using assms by (auto simp: rtl8125_rss_redirect_def Let_def)
  obtain m where "program_rss (tp\<lparr>rss_indir_tbl := t\<rparr>) = tp\<lparr>rss_indir_tbl := t, mmio := m\<rparr>" using program_rss_frame by blast
  with t show ?thesis by simp
qed

lemma reset_table:
  assumes "rtl8125_rss_reset B tp = (rc, tp')" "wf_rss tp" "40 \<le> length (bd_rss_key B)" "i < 128"
  shows "chip_byte (mmio tp') RSS_INDIRECTION_TBL_8125_V2 i = of_nat (i mod num_rx_rings tp)"
proof -
  let ?t = "rtl8125_init_rss B tp"
  have p: "tp' = program_rss ?t" using assms(1) by (simp add: rtl8125_rss_reset_def)
  then obtain m where tp': "tp' = ?t\<lparr>mmio := m\<rparr>" using program_rss_frame [of ?t] by auto
  from program_rss_mirror [OF wf_init_rss [OF assms(2,3)]] have "table_mirrored tp'" by (simp add: p rss_mirror_def)
  with tp' entries_wf [OF assms(2)] assms(2,4) show ?thesis
    by (simp add: table_mirrored_def list_all_iff nth_fill_indir wf_rss_def rtl8125_init_rss_def)
qed

subsection \<open>Witnesses\<close>

lemma demo_chip_wf_rss: "wf_rss demo_chip" "EnableRss demo_chip" "rxhash demo_chip" "num_rx_rings demo_chip \<le> 256"
  by (simp_all add: wf_rss_def demo_chip_def)

definition base_id :: base_drv where
  "base_id = \<lparr>bd_restart = id, bd_linkchg = id, bd_stop = id, bd_start = id, bd_hw_reset = id, bd_rss_key = replicate 52 0x5A\<rparr>"

theorem rss_chip_mirrors_witness:
  "rss_mirror (fold (rss_step base_id)
     [Redirect (CH_DIR_RX, 1), Set_rxfh (Some (replicate 128 7)) (Some (replicate 40 1)) 0, Reset, Config] (program_rss demo_chip))"
  by (rule rss_chip_mirrors [OF demo_chip_wf_rss(1,2)]) (simp_all add: base_id_def key_fits_def)

theorem rxfh_roundtrip_witness:
  "\<exists>tp. rtl8125_set_rxfh (Some (replicate 128 0)) (Some (replicate 40 7)) 1 demo_chip = (0, tp)
     \<and> rtl8125_get_rxfh tp = (0, Some (replicate 128 0, replicate 40 7, 1))"
proof -
  obtain rc tp where r: "rtl8125_set_rxfh (Some (replicate 128 0)) (Some (replicate 40 7)) 1 demo_chip = (rc, tp)" by fastforce
  moreover from r have "rc = 0"
    by (auto simp: rtl8125_set_rxfh_def Let_def demo_chip_def list_ex_iff rtl8125_rss_indir_tbl_entries_def split: if_splits)
  ultimately show ?thesis using rxfh_roundtrip [OF demo_chip_wf_rss(1,3) _ _ demo_chip_wf_rss(4) r] by simp
qed

theorem rxnfc_roundtrip_witness:
  "\<exists>tp. rtl8125_set_rxnfc \<lparr>rx_cmd = 0x2A, flow_type = 2, rx_data = 0xF0\<rparr> demo_chip = (0, tp)
     \<and> rtl8125_get_rxnfc tp \<lparr>rx_cmd = 0x29, flow_type = 2, rx_data = 0\<rparr> = (0, \<lparr>rx_cmd = 0x29, flow_type = 2, rx_data = 0xF0\<rparr>)"
proof -
  obtain rc tp where r: "rtl8125_set_rxnfc \<lparr>rx_cmd = 0x2A, flow_type = 2, rx_data = 0xF0\<rparr> demo_chip = (rc, tp)" by fastforce
  moreover from r have "rc = 0"
    by (auto simp: rtl8125_set_rxnfc_def rtl8125_set_rss_hash_opt_def new_rss_flags_def Let_def demo_chip_def split: if_splits)
  ultimately show ?thesis using rxnfc_roundtrip [OF demo_chip_wf_rss(3) r] by simp
qed

end
