(* ===== verification/R8125_Lib.thy ===== *)
theory R8125_Lib
  imports R8125_Rss
begin

text \<open>
  The library interface of the Realtek 8125 network driver (\<^verbatim>\<open>r8125/src/r8125_lib.c\<close>): rings lent
  to the offload subsystem, their memory and descriptors, and their interrupt messages.

  A ring is named by its direction and its index; NULL is \<^const>\<open>None\<close>. A dereference of NULL is
  the result \<^const>\<open>None\<close>.
\<close>

unbundle bit_operations_syntax

section \<open>Ring allocation\<close>

text \<open>\<open>rtl8125_get_tx_ring\<close> and \<open>rtl8125_get_rx_ring\<close>.\<close>

definition rtl8125_get_ring :: "channel_dir \<Rightarrow> rtl_private \<Rightarrow> ring_ref option \<times> rtl_private" where
  "rtl8125_get_ring d tp =
     (case find (\<lambda>i. \<not> rg_allocated (lib_rings d tp ! i)) (lib_range d tp) of
        None \<Rightarrow> (None, tp)
      | Some i \<Rightarrow> (Some (d, i), put_ring (d, i) ((get_ring tp (d, i))\<lparr>rg_allocated := True\<rparr>) tp))"

definition rtl8125_put_ring :: "ring_ref option \<Rightarrow> rtl_private \<Rightarrow> rtl_private" where
  "rtl8125_put_ring r tp =
     (case r of None \<Rightarrow> tp | Some r \<Rightarrow> put_ring r ((get_ring tp r)\<lparr>rg_allocated := False\<rparr>) tp)"

text \<open>The loop of \<open>rtl8125_free_ring_mem\<close> for separate buffers.\<close>

fun free_bufs :: "'w kern \<Rightarrow> rtl_buf list \<Rightarrow> 'w \<Rightarrow> 'w" where
  "free_bufs K [] w = w"
| "free_bufs K (b # bs) w =
     free_bufs K bs (if rb_addr b \<noteq> 0 then dma_free_coherent K (rb_size b) (rb_addr b) (rb_dma b) w else w)"

definition rtl8125_free_ring_mem :: "'w kern \<Rightarrow> rtl_ring \<Rightarrow> 'w \<Rightarrow> (rtl_ring \<times> 'w) option" where
  "rtl8125_free_ring_mem K g w =
     (let w = (if rg_desc_addr g \<noteq> 0
               then dma_free_coherent K (rg_desc_size g) (rg_desc_addr g) (rg_desc_daddr g) w else w);
          g = g\<lparr>rg_desc_addr := 0\<rparr>;
          res = (\<lambda>w. Some (g\<lparr>rg_bufs := None\<rparr>, w)) in
      if rg_flags g AND CONTIG_BUFS \<noteq> 0 then
        (case rg_bufs g of
           Some (b # _) \<Rightarrow> res (dma_free_coherent K (rg_ring_size g * rg_buff_size g) (rb_addr b) (rb_dma b) w)
         | _ \<Rightarrow> None)
      else
        (case rg_bufs g of
           None \<Rightarrow> if rg_ring_size g = 0 then res w else None
         | Some bs \<Rightarrow> res (free_bufs K bs w)))"

text \<open>The buffers of a contiguous block, from the second on.\<close>

primrec contig_tail :: "rtl_buf \<Rightarrow> u32 \<Rightarrow> nat \<Rightarrow> rtl_buf list" where
  "contig_tail prev bsz 0 = []"
| "contig_tail prev bsz (Suc n) =
     (let b = \<lparr>rb_addr = rb_addr prev + bsz, rb_dma = rb_dma prev + bsz, rb_size = bsz\<rparr> in b # contig_tail b bsz n)"

text \<open>The loop that allocates separate buffers: the buffers so far, and whether it reached the end.\<close>

primrec alloc_bufs :: "'w kern \<Rightarrow> u32 \<Rightarrow> nat \<Rightarrow> 'w \<Rightarrow> bool \<times> rtl_buf list \<times> 'w" where
  "alloc_bufs K bsz 0 w = (True, [], w)"
| "alloc_bufs K bsz (Suc n) w =
     (case dma_alloc_coherent K bsz w of
        (None, w) \<Rightarrow> (False, \<lparr>rb_addr = 0, rb_dma = 0, rb_size = bsz\<rparr> # replicate n \<lparr>rb_addr = 0, rb_dma = 0, rb_size = 0\<rparr>, w)
      | (Some (va, da), w) \<Rightarrow>
          (case alloc_bufs K bsz n w of (ok, bs, w) \<Rightarrow> (ok, \<lparr>rb_addr = va, rb_dma = da, rb_size = bsz\<rparr> # bs, w)))"

definition rtl8125_alloc_ring_mem ::
  "'w kern \<Rightarrow> rtl_private \<Rightarrow> rtl_ring \<Rightarrow> 'w \<Rightarrow> (int \<times> rtl_ring \<times> 'w) option" where
  "rtl8125_alloc_ring_mem K tp g w =
     (case kzalloc K w of (ok, w) \<Rightarrow>
        if \<not> ok then Some (- ENOMEM, g\<lparr>rg_bufs := None\<rparr>, w)
        else
          let n = unat (rg_ring_size g);
              zero = \<lparr>rb_addr = 0, rb_dma = 0, rb_size = 0\<rparr>;
              g = g\<lparr>rg_bufs := Some (replicate n zero)\<rparr>;
              error_out = (\<lambda>g w. map_option (\<lambda>(g, w). (- ENOMEM, g, w)) (rtl8125_free_ring_mem K g w)) in
          if rg_mem_ops g then Some (0, g, w)
          else
            let g = g\<lparr>rg_desc_size := rg_ring_size g * (if rg_direction g = CH_DIR_TX then TXDESC_SIZE else RxDescLength tp)\<rparr> in
            (case dma_alloc_coherent K (rg_desc_size g) w of
               (None, w) \<Rightarrow> error_out (g\<lparr>rg_desc_addr := 0\<rparr>) w
             | (Some (dva, dda), w) \<Rightarrow>
                 let g = g\<lparr>rg_desc_addr := dva, rg_desc_daddr := dda\<rparr> in
                 if rg_flags g AND CONTIG_BUFS \<noteq> 0 then
                   if n = 0 then None
                   else (case dma_alloc_coherent K (rg_ring_size g * rg_buff_size g) w of
                           (None, w) \<Rightarrow>
                             error_out (g\<lparr>rg_bufs := Some (zero\<lparr>rb_size := rg_buff_size g\<rparr> # replicate (n - 1) zero)\<rparr>) w
                         | (Some (va, da), w) \<Rightarrow>
                             let b = \<lparr>rb_addr = va, rb_dma = da, rb_size = rg_buff_size g\<rparr> in
                             Some (0, g\<lparr>rg_bufs := Some (b # contig_tail b (rg_buff_size g) (n - 1))\<rparr>, w))
                 else (case alloc_bufs K (rg_buff_size g) n w of (ok, bs, w) \<Rightarrow>
                         let g = g\<lparr>rg_bufs := Some bs\<rparr> in
                         if ok then Some (0, g, w) else error_out g w)))"

section \<open>Descriptors\<close>

text \<open>
  A descriptor is its address and its first option word. \<open>old\<close> is the memory before the fill.
\<close>

definition rtl8125_lib_tx_fill :: "rtl_ring \<Rightarrow> rtl_buf list \<Rightarrow> (u64 \<times> u32) list \<Rightarrow> (u64 \<times> u32) list" where
  "rtl8125_lib_tx_fill g bs old =
     map (\<lambda>i. (ucast (rb_dma (bs ! i)), if i = unat (rg_ring_size g) - 1 then RingEnd else snd (old ! i)))
       [0 ..< unat (rg_ring_size g)]"

definition rtl8125_lib_rx_fill :: "rtl_ring \<Rightarrow> rtl_buf list \<Rightarrow> (u64 \<times> u32) list \<Rightarrow> (u64 \<times> u32) list" where
  "rtl8125_lib_rx_fill g bs old =
     map (\<lambda>i. (ucast (rb_dma (bs ! i)),
                let o1 = DescOwn OR (snd (old ! i) AND RingEnd) OR rg_buff_size g in
                if i = unat (rg_ring_size g) - 1 then o1 OR RingEnd else o1))
       [0 ..< unat (rg_ring_size g)]"

definition dsar_reg :: "rtl_ring \<Rightarrow> u16" where
  "dsar_reg g = (case rg_direction g of CH_DIR_TX \<Rightarrow> TNPDS_Q1_LOW_8125 | CH_DIR_RX \<Rightarrow> RDSAR_Q1_LOW_8125)
     + (ucast (queue_num g) - 1) * 8"

text \<open>
  \<open>rtl8125_init_tx_ring\<close> and \<open>rtl8125_init_rx_ring\<close>; the upper half of the bus address is 0. Filling
  an empty receive ring would write before its start; both that and a missing ring are \<^const>\<open>None\<close>.
\<close>

definition rtl8125_init_ring_dir :: "channel_dir \<Rightarrow> rtl_ring \<Rightarrow> rtl_private \<Rightarrow> rtl_private option" where
  "rtl8125_init_ring_dir d g tp =
     (if \<not> rg_allocated g then Some tp
      else (case rg_bufs g of
              None \<Rightarrow> None
            | Some bs \<Rightarrow>
                if rg_ring_size g = 0 \<or> rg_desc_addr g = 0 then None
                else
                  let old = descs tp (rg_desc_addr g);
                      new = (case d of CH_DIR_TX \<Rightarrow> rtl8125_lib_tx_fill g bs old | CH_DIR_RX \<Rightarrow> rtl8125_lib_rx_fill g bs old)
                  in Some (tp\<lparr>descs := (descs tp)(rg_desc_addr g := new),
                              mmio := (mmio tp)(dsar_reg g := rg_desc_daddr g, dsar_reg g + 4 := 0)\<rparr>)))"

section \<open>Requesting and releasing rings\<close>

definition rtl8125_request_ring ::
  "'w kern \<Rightarrow> u32 \<Rightarrow> u32 \<Rightarrow> channel_dir \<Rightarrow> u32 \<Rightarrow> bool \<Rightarrow> rtl_private \<Rightarrow> 'w \<Rightarrow> (ring_ref option \<times> rtl_private \<times> 'w) option" where
  "rtl8125_request_ring K rsz bsz d flags mem_ops tp w =
     (case rtl8125_get_ring d tp of
        (None, tp) \<Rightarrow> None
      | (Some r, tp) \<Rightarrow>
          let g = (get_ring tp r)\<lparr>rg_ring_size := rsz, rg_buff_size := bsz, rg_mem_ops := mem_ops, rg_flags := flags\<rparr> in
          (case rtl8125_alloc_ring_mem K tp g w of
             None \<Rightarrow> None
           | Some (rc, g, w) \<Rightarrow>
               if rc \<noteq> 0 then
                 map_option (\<lambda>(g, w). (None, rtl8125_put_ring (Some r) (put_ring r g tp), w)) (rtl8125_free_ring_mem K g w)
               else
                 let zeroed = replicate (unat (rg_ring_size g)) (0, 0);
                     tp = (put_ring r g tp)\<lparr>descs := (if mem_ops then descs tp else (descs tp)(rg_desc_addr g := zeroed))\<rparr> in
                 map_option (\<lambda>tp. (Some r, tp, w)) (rtl8125_init_ring_dir d g tp)))"

definition rtl8125_all_ring_released :: "rtl_private \<Rightarrow> bool" where
  "rtl8125_all_ring_released tp \<longleftrightarrow>
     list_all (\<lambda>i. \<not> rg_allocated (lib_tx_ring tp ! i)) (lib_range CH_DIR_TX tp)
     \<and> list_all (\<lambda>i. \<not> rg_allocated (lib_rx_ring tp ! i)) (lib_range CH_DIR_RX tp)"

definition rtl8125_release_ring ::
  "base_drv \<Rightarrow> 'w kern \<Rightarrow> ring_ref option \<Rightarrow> rtl_private \<Rightarrow> 'w \<Rightarrow> (rtl_private \<times> 'w) option" where
  "rtl8125_release_ring B K r tp w =
     (case r of
        None \<Rightarrow> Some (tp, w)
      | Some r \<Rightarrow>
          (case rtl8125_free_ring_mem K (get_ring tp r) w of
             None \<Rightarrow> None
           | Some (g, w) \<Rightarrow>
               let tp = rtl8125_put_ring (Some r) (put_ring r g tp) in
               Some (if rtl8125_all_ring_released tp
                     then (if net_running tp then bd_restart B tp else bd_linkchg B tp)
                     else tp, w)))"

definition set_enabled :: "bool \<Rightarrow> ring_ref \<Rightarrow> rtl_private \<Rightarrow> rtl_private" where
  "set_enabled b r tp = put_ring r ((get_ring tp r)\<lparr>rg_enabled := b\<rparr>) tp"

definition rtl8125_enable_ring :: "base_drv \<Rightarrow> ring_ref option \<Rightarrow> rtl_private \<Rightarrow> int \<times> rtl_private" where
  "rtl8125_enable_ring B r tp =
     (case r of None \<Rightarrow> (- EINVAL, tp) | Some r \<Rightarrow> (0, bd_start B (set_enabled True r (bd_stop B tp))))"

definition rtl8125_disable_ring :: "base_drv \<Rightarrow> ring_ref option \<Rightarrow> rtl_private \<Rightarrow> rtl_private" where
  "rtl8125_disable_ring B r tp =
     (case r of None \<Rightarrow> tp | Some r \<Rightarrow> set_enabled False r (bd_hw_reset B tp))"

section \<open>Events\<close>

definition set_event :: "ring_ref \<Rightarrow> rtl_event \<Rightarrow> rtl_private \<Rightarrow> rtl_private" where
  "set_event r e tp = put_ring r ((get_ring tp r)\<lparr>rg_event := e\<rparr>) tp"

definition message_id_of :: "rtl_ring \<Rightarrow> u32" where
  "message_id_of g = (if rg_direction g = CH_DIR_TX then (if queue_num g = 0 then 16 else 18) else queue_num g)"

definition msix_write :: "u16 \<Rightarrow> dma_addr \<Rightarrow> u64 \<Rightarrow> rtl_private \<Rightarrow> rtl_private" where
  "msix_write reg addr data tp =
     tp\<lparr>msix := (msix tp)(reg := addr, reg + 4 := 0, reg + 8 := ucast data, reg + 12 := ucast (drop_bit 32 data))\<rparr>"

text \<open>
  \<open>rtl8125_request_event\<close>. \<open>event.addr\<close> is a 32-bit bus address: the upper half that is or-ed in is
  lost. The upper half of \<open>event.data\<close> is read from offset 8, as the source does.
\<close>

definition rtl8125_request_event ::
  "ring_ref option \<Rightarrow> u32 \<Rightarrow> dma_addr \<Rightarrow> u64 \<Rightarrow> rtl_private \<Rightarrow> int \<times> rtl_private" where
  "rtl8125_request_event r flags addr data tp =
     (case r of
        None \<Rightarrow> (- EINVAL, tp)
      | Some r \<Rightarrow>
          let g = get_ring tp r in
          if re_allocated (rg_event g) then (- EEXIST, tp)
          else if flags AND 1 \<noteq> 0 then
            let mid = message_id_of g; reg = ucast (mid * 0x10) :: u16;
                e = (rg_event g)\<lparr>re_addr := msix tp reg,
                      re_data := ucast (msix tp (reg + 8)) OR push_bit 32 (ucast (msix tp (reg + 8))),
                      re_message_id := mid, re_allocated := True\<rparr>
            in (0, set_event r e (msix_write reg addr data tp))
          else (0, tp))"

text \<open>The operations below dereference the ring at once.\<close>

definition rtl8125_release_event :: "ring_ref option \<Rightarrow> rtl_private \<Rightarrow> rtl_private option" where
  "rtl8125_release_event r tp =
     (case r of
        None \<Rightarrow> None
      | Some r \<Rightarrow>
          let e = rg_event (get_ring tp r) in
          if \<not> re_allocated e then Some tp
          else Some (set_event r (e\<lparr>re_allocated := False\<rparr>)
                       (msix_write (ucast (re_message_id e * 0x10)) (re_addr e) (re_data e) tp)))"

text \<open>\<open>rtl8125_hw_set_timer_int_8125\<close> of \<^verbatim>\<open>r8125_n.c\<close> for the interrupt mitigation version 4.\<close>

definition rtl8125_hw_set_timer_int_8125 :: "u32 \<Rightarrow> u8 \<Rightarrow> rtl_private \<Rightarrow> rtl_private" where
  "rtl8125_hw_set_timer_int_8125 mid val tp =
     (let val = (if mid < 16 then 0 else val) in
      if mid < 16 then RTL_W8 (INT_MITI_V2_0_RX + 8 * ucast mid) val tp
      else if mid = 16 then RTL_W8 INT_MITI_V2_0_TX val tp
      else if mid = 18 then RTL_W8 INT_MITI_V2_1_TX val tp
      else tp)"

definition rtl8125_set_ring_intr_mod :: "ring_ref option \<Rightarrow> int \<Rightarrow> rtl_private \<Rightarrow> (int \<times> rtl_private) option" where
  "rtl8125_set_ring_intr_mod r delay tp =
     (case r of
        None \<Rightarrow> None
      | Some r \<Rightarrow>
          let e = rg_event (get_ring tp r) in
          if \<not> re_allocated e then Some (- EFAULT, tp)
          else Some (0, rtl8125_hw_set_timer_int_8125 (re_message_id e) (word_of_int delay) (set_event r (e\<lparr>re_delay := delay\<rparr>) tp)))"

definition rtl8125_enable_event :: "ring_ref option \<Rightarrow> rtl_private \<Rightarrow> (int \<times> rtl_private) option" where
  "rtl8125_enable_event r tp =
     (case r of
        None \<Rightarrow> None
      | Some x \<Rightarrow>
          let e = rg_event (get_ring tp x) in
          if \<not> re_allocated e then Some (- EINVAL, tp)
          else do {
            (_, tp) \<leftarrow> rtl8125_set_ring_intr_mod r (re_delay e) tp;
            let tp = tp\<lparr>irq_on := (irq_on tp)(re_message_id e := True)\<rparr>;
            Some (0, set_event x ((rg_event (get_ring tp x))\<lparr>re_enabled := True\<rparr>) tp)
          })"

definition rtl8125_disable_event :: "ring_ref option \<Rightarrow> rtl_private \<Rightarrow> (int \<times> rtl_private) option" where
  "rtl8125_disable_event r tp =
     (case r of
        None \<Rightarrow> None
      | Some x \<Rightarrow>
          let e = rg_event (get_ring tp x) in
          if \<not> re_allocated e then Some (- EINVAL, tp)
          else
            let tp = tp\<lparr>irq_on := (irq_on tp)(re_message_id e := False)\<rparr> in
            Some (0, set_event x (e\<lparr>re_enabled := False\<rparr>) tp))"

section \<open>Re-initialisation after a reset\<close>

text \<open>The body of the two loops of \<open>rtl8125_init_lib_ring\<close> for one ring.\<close>

definition init_lib_one :: "ring_ref \<Rightarrow> rtl_private \<Rightarrow> rtl_private option" where
  "init_lib_one r tp =
     (if \<not> rg_allocated (get_ring tp r) then Some tp
      else do {
        tp \<leftarrow> (if re_enabled (rg_event (get_ring tp r)) then map_option snd (rtl8125_enable_event (Some r) tp) else Some tp);
        rtl8125_init_ring_dir (fst r) (get_ring tp r) tp
      })"

primrec init_lib_loop :: "ring_ref list \<Rightarrow> rtl_private \<Rightarrow> rtl_private option" where
  "init_lib_loop [] tp = Some tp"
| "init_lib_loop (r # rs) tp = do { tp \<leftarrow> init_lib_one r tp; init_lib_loop rs tp }"

definition rtl8125_init_lib_ring :: "rtl_private \<Rightarrow> rtl_private option" where
  "rtl8125_init_lib_ring tp =
     init_lib_loop (map (Pair CH_DIR_TX) (lib_range CH_DIR_TX tp) @ map (Pair CH_DIR_RX) (lib_range CH_DIR_RX tp)) tp"

section \<open>Lemmas\<close>

subsection \<open>Ring references\<close>

definition valid_ref :: "rtl_private \<Rightarrow> ring_ref \<Rightarrow> bool" where
  "valid_ref tp r \<longleftrightarrow> snd r \<in> set (lib_range (fst r) tp) \<and> snd r < length (lib_rings (fst r) tp)"

definition wf_rings :: "rtl_private \<Rightarrow> bool" where
  "wf_rings tp \<longleftrightarrow> HwSuppNumTxQueues tp \<le> length (lib_tx_ring tp) \<and> HwSuppNumRxQueues tp \<le> length (lib_rx_ring tp)"

lemma lib_rings_put: "lib_rings d (put_ring r g tp) = (if d = fst r then (lib_rings d tp)[snd r := g] else lib_rings d tp)"
  by (auto simp: lib_rings_def put_ring_def split: channel_dir.splits)

lemma lib_range_put [simp]: "lib_range d (put_ring r g tp) = lib_range d tp"
  by (auto simp: lib_range_def put_ring_def split: channel_dir.splits)

lemma get_put_ring: "snd r < length (lib_rings (fst r) tp) \<Longrightarrow> get_ring (put_ring r g tp) r' = (if r' = r then g else get_ring tp r')"
  by (auto simp: get_ring_def lib_rings_put nth_list_update prod_eq_iff)

lemma wf_put [simp]: "wf_rings (put_ring r g tp) = wf_rings tp"
  by (auto simp: wf_rings_def put_ring_def split: channel_dir.splits)

lemma valid_put [simp]: "valid_ref (put_ring r g tp) r' = valid_ref tp r'"
  by (auto simp: valid_ref_def lib_rings_put)

lemma put_put [simp]: "put_ring r g (put_ring r g' tp) = put_ring r g tp"
  by (auto simp: put_ring_def split: channel_dir.splits)

lemma put_ring_sel [simp]:
  "descs (put_ring r g tp) = descs tp" "mmio (put_ring r g tp) = mmio tp" "msix (put_ring r g tp) = msix tp"
  "irq_on (put_ring r g tp) = irq_on tp" "RxDescLength (put_ring r g tp) = RxDescLength tp"
  "net_running (put_ring r g tp) = net_running tp"
  by (auto simp: put_ring_def split: channel_dir.splits)

text \<open>Updates of the chip state leave the rings alone.\<close>

definition same_rings :: "rtl_private \<Rightarrow> rtl_private \<Rightarrow> bool" where
  "same_rings tp tp' \<longleftrightarrow> (\<forall>d. lib_rings d tp' = lib_rings d tp \<and> lib_range d tp' = lib_range d tp)
     \<and> wf_rings tp' = wf_rings tp"

lemma same_rings_chip [simp]:
  "same_rings tp (tp\<lparr>descs := a, mmio := b\<rparr>)" "same_rings tp (tp\<lparr>descs := a\<rparr>)" "same_rings tp (tp\<lparr>mmio := b\<rparr>)"
  "same_rings tp (tp\<lparr>msix := c\<rparr>)" "same_rings tp (tp\<lparr>irq_on := e\<rparr>)" "same_rings tp (tp\<lparr>rss_indir_tbl := f\<rparr>)" "same_rings tp tp"
  by (simp_all add: same_rings_def lib_rings_def lib_range_def wf_rings_def split: channel_dir.splits)

lemma program_rss_same [simp]: "same_rings tp (program_rss a) = same_rings tp a"
proof -
  obtain m where "program_rss a = a\<lparr>mmio := m\<rparr>" using program_rss_frame by blast
  moreover have "lib_rings d (a\<lparr>mmio := m\<rparr>) = lib_rings d a" "lib_range d (a\<lparr>mmio := m\<rparr>) = lib_range d a" for d
    by (simp_all add: lib_rings_def lib_range_def split: channel_dir.splits)
  ultimately show ?thesis by (simp add: same_rings_def wf_rings_def)
qed

lemma redirect_same: "rtl8125_rss_redirect r tp = Some (rc, tp') \<Longrightarrow> same_rings tp tp'"
  by (auto simp: rtl8125_rss_redirect_def Let_def split: option.splits)

lemma init_rss_same: "same_rings tp (rtl8125_init_rss B tp)"
  by (simp add: rtl8125_init_rss_def same_rings_def lib_rings_def lib_range_def wf_rings_def split: channel_dir.splits)

lemma reset_same: "rtl8125_rss_reset B tp = (rc, tp') \<Longrightarrow> same_rings tp tp'"
  by (auto simp: rtl8125_rss_reset_def init_rss_same)

lemma same_rings_get: "same_rings tp tp' \<Longrightarrow> get_ring tp' r = get_ring tp r"
  by (simp add: same_rings_def get_ring_def)

lemma same_rings_valid: "same_rings tp tp' \<Longrightarrow> valid_ref tp' r = valid_ref tp r"
  by (simp add: same_rings_def valid_ref_def)

lemma get_ring_cases:
  assumes "rtl8125_get_ring d tp = (res, tp')" "wf_rings tp"
  shows "(res = None \<and> tp' = tp)
    \<or> (\<exists>i. res = Some (d, i) \<and> valid_ref tp (d, i) \<and> \<not> rg_allocated (get_ring tp (d, i))
         \<and> tp' = put_ring (d, i) ((get_ring tp (d, i))\<lparr>rg_allocated := True\<rparr>) tp)"
proof (cases "find (\<lambda>i. \<not> rg_allocated (lib_rings d tp ! i)) (lib_range d tp)")
  case (Some i)
  then have "i \<in> set (lib_range d tp)" "\<not> rg_allocated (lib_rings d tp ! i)"
    by (auto simp: find_Some_iff)
  moreover from this(1) assms(2) have "i < length (lib_rings d tp)"
    by (auto simp: lib_range_def wf_rings_def lib_rings_def split: channel_dir.splits)
  ultimately show ?thesis using assms(1) Some
    by (auto simp: rtl8125_get_ring_def valid_ref_def get_ring_def)
qed (use assms in \<open>simp add: rtl8125_get_ring_def\<close>)

subsection \<open>Memory\<close>

lemma contig_tail_length [simp]: "length (contig_tail b bsz n) = n"
  by (induction n arbitrary: b) (simp_all add: Let_def)

lemma contig_tail_nth:
  "i < n \<Longrightarrow> contig_tail b bsz n ! i =
     \<lparr>rb_addr = rb_addr b + word_of_nat (Suc i) * bsz, rb_dma = rb_dma b + word_of_nat (Suc i) * bsz, rb_size = bsz\<rparr>"
proof (induction n arbitrary: b i)
  case (Suc n)
  then show ?case by (cases i) (simp_all add: Let_def algebra_simps)
qed simp

text \<open>The buffers of a contiguous ring.\<close>

definition contig_bufs :: "vaddr \<Rightarrow> dma_addr \<Rightarrow> u32 \<Rightarrow> nat \<Rightarrow> rtl_buf list" where
  "contig_bufs va da bsz n =
     map (\<lambda>i. \<lparr>rb_addr = va + word_of_nat i * bsz, rb_dma = da + word_of_nat i * bsz, rb_size = bsz\<rparr>) [0 ..< n]"

lemma contig_bufs_eq:
  assumes "0 < n"
  shows "\<lparr>rb_addr = va, rb_dma = da, rb_size = bsz\<rparr> # contig_tail \<lparr>rb_addr = va, rb_dma = da, rb_size = bsz\<rparr> bsz (n - 1)
    = contig_bufs va da bsz n"
proof (rule nth_equalityI)
  show "length (\<lparr>rb_addr = va, rb_dma = da, rb_size = bsz\<rparr> # contig_tail \<lparr>rb_addr = va, rb_dma = da, rb_size = bsz\<rparr> bsz (n - 1))
    = length (contig_bufs va da bsz n)" using assms by (simp add: contig_bufs_def)
next
  fix i assume "i < length (\<lparr>rb_addr = va, rb_dma = da, rb_size = bsz\<rparr> # contig_tail \<lparr>rb_addr = va, rb_dma = da, rb_size = bsz\<rparr> bsz (n - 1))"
  then have "i < n" using assms by simp
  then show "(\<lparr>rb_addr = va, rb_dma = da, rb_size = bsz\<rparr> # contig_tail \<lparr>rb_addr = va, rb_dma = da, rb_size = bsz\<rparr> bsz (n - 1)) ! i
    = contig_bufs va da bsz n ! i"
    by (cases i) (auto simp: contig_bufs_def contig_tail_nth)
qed

lemma free_ring_mem_frame:
  assumes "rtl8125_free_ring_mem K g w = Some (g', w')"
  shows "g' = g\<lparr>rg_desc_addr := 0, rg_bufs := None\<rparr>"
  using assms by (auto simp: rtl8125_free_ring_mem_def Let_def split: if_splits option.splits list.splits)

lemma free_ring_mem_contig:
  assumes "rg_flags g AND CONTIG_BUFS \<noteq> 0"
  shows "(\<exists>w'. rtl8125_free_ring_mem K g w = Some (g\<lparr>rg_desc_addr := 0, rg_bufs := None\<rparr>, w'))
    \<longleftrightarrow> (\<exists>b bs. rg_bufs g = Some (b # bs))"
  using assms by (auto simp: rtl8125_free_ring_mem_def Let_def split: option.splits list.splits)

lemma alloc_ring_mem_cases:
  assumes "rtl8125_alloc_ring_mem K tp g w = Some (rc, g', w')" "rg_flags g AND CONTIG_BUFS \<noteq> 0" "\<not> rg_mem_ops g"
  shows "(rc \<noteq> 0 \<and> rg_bufs g' = None \<and> rg_flags g' = rg_flags g)
    \<or> (rc = 0 \<and> rg_ring_size g \<noteq> 0 \<and> (\<exists>sz dva dda va da. g' = g\<lparr>rg_desc_size := sz, rg_desc_addr := dva, rg_desc_daddr := dda,
         rg_bufs := Some (contig_bufs va da (rg_buff_size g) (unat (rg_ring_size g)))\<rparr>))"
proof -
  obtain ok w1 where k: "kzalloc K w = (ok, w1)" by fastforce
  let ?n = "unat (rg_ring_size g)"
  let ?sz = "rg_ring_size g * (if rg_direction g = CH_DIR_TX then TXDESC_SIZE else RxDescLength tp)"
  obtain od w2 where dd: "dma_alloc_coherent K ?sz w1 = (od, w2)" by fastforce
  obtain ob w3 where db: "dma_alloc_coherent K (rg_ring_size g * rg_buff_size g) w2 = (ob, w3)" by fastforce
  show ?thesis
  proof (cases "ok \<and> od \<noteq> None \<and> ob \<noteq> None")
    case True
    then obtain dva dda va da where o: "od = Some (dva, dda)" "ob = Some (va, da)" by auto
    from assms k dd db True o have n: "?n \<noteq> 0"
      by (auto simp: rtl8125_alloc_ring_mem_def Let_def split: if_splits)
    with assms k dd db True o contig_bufs_eq [of ?n va da "rg_buff_size g"]
    have "rc = 0" "g' = g\<lparr>rg_desc_size := ?sz, rg_desc_addr := dva, rg_desc_daddr := dda,
         rg_bufs := Some (contig_bufs va da (rg_buff_size g) ?n)\<rparr>"
      by (auto simp: rtl8125_alloc_ring_mem_def Let_def split: if_splits)
    moreover from n have "rg_ring_size g \<noteq> 0" by auto
    ultimately show ?thesis by blast
  next
    case False
    with assms k dd db show ?thesis
      by (auto simp: rtl8125_alloc_ring_mem_def Let_def split: if_splits option.splits dest!: free_ring_mem_frame)
  qed
qed

subsection \<open>Ring requests\<close>

text \<open>The programming of a ring, as the fill loops leave it.\<close>

definition programmed :: "channel_dir \<Rightarrow> rtl_ring \<Rightarrow> rtl_private \<Rightarrow> bool" where
  "programmed d g tp \<longleftrightarrow>
     (let n = unat (rg_ring_size g); ds = descs tp (rg_desc_addr g) in
      length ds = n
      \<and> list_all (\<lambda>i. fst (ds ! i) = ucast (rb_dma (the (rg_bufs g) ! i))
           \<and> (snd (ds ! i) AND RingEnd \<noteq> 0 \<longleftrightarrow> i = n - 1)
           \<and> (d = CH_DIR_RX \<longrightarrow> snd (ds ! i) AND DescOwn \<noteq> 0)) [0 ..< n]
      \<and> mmio tp (dsar_reg g) = rg_desc_daddr g)"

lemma init_ring_programs:
  assumes "rtl8125_init_ring_dir d g tp = Some tp'" "rg_allocated g" "rg_buff_size g AND RingEnd = 0"
    and "descs tp (rg_desc_addr g) = replicate (unat (rg_ring_size g)) (0, 0)"
  shows "programmed d g tp' \<and> same_rings tp tp'"
proof -
  from assms(1,2) obtain bs where bs: "rg_bufs g = Some bs" "rg_ring_size g \<noteq> 0" "rg_desc_addr g \<noteq> 0"
    by (auto simp: rtl8125_init_ring_dir_def split: option.splits if_splits)
  let ?old = "descs tp (rg_desc_addr g)"
  let ?new = "case d of CH_DIR_TX \<Rightarrow> rtl8125_lib_tx_fill g bs ?old | CH_DIR_RX \<Rightarrow> rtl8125_lib_rx_fill g bs ?old"
  from assms(1,2) bs have tp': "tp' = tp\<lparr>descs := (descs tp)(rg_desc_addr g := ?new),
      mmio := (mmio tp)(dsar_reg g := rg_desc_daddr g, dsar_reg g + 4 := 0)\<rparr>"
    by (simp add: rtl8125_init_ring_dir_def Let_def)
  have own: "(DescOwn OR rg_buff_size g) AND RingEnd = 0" "((DescOwn OR rg_buff_size g) OR RingEnd) AND RingEnd \<noteq> 0"
      "(DescOwn OR rg_buff_size g) AND DescOwn \<noteq> 0" "((DescOwn OR rg_buff_size g) OR RingEnd) AND DescOwn \<noteq> 0"
    using assms(3) by (simp_all add: bit.conj_disj_distrib2)
  show ?thesis
    using bs assms(4) own
    by (cases d) (auto simp: programmed_def tp' Let_def list_all_iff rtl8125_lib_tx_fill_def rtl8125_lib_rx_fill_def)
qed

definition lent_ring :: "channel_dir \<Rightarrow> u32 \<Rightarrow> u32 \<Rightarrow> rtl_ring \<Rightarrow> bool" where
  "lent_ring d rsz bsz g \<longleftrightarrow> rg_allocated g \<and> rg_ring_size g = rsz \<and> rg_buff_size g = bsz \<and> rsz \<noteq> 0
     \<and> rg_flags g = CONTIG_BUFS
     \<and> (\<exists>va da. rg_bufs g = Some (contig_bufs va da bsz (unat rsz)))"

lemma request_ring_run:
  assumes "rtl8125_request_ring K rsz bsz d CONTIG_BUFS False tp w = Some (res, tp', w')" "wf_rings tp"
  shows "\<exists>i g tp1. res = Some (d, i) \<and> valid_ref tp (d, i) \<and> \<not> rg_allocated (get_ring tp (d, i))
    \<and> lent_ring d rsz bsz g \<and> rg_event g = rg_event (get_ring tp (d, i)) \<and> queue_num g = queue_num (get_ring tp (d, i))
    \<and> rg_direction g = rg_direction (get_ring tp (d, i))
    \<and> tp1 = (put_ring (d, i) g tp)\<lparr>descs := (descs tp)(rg_desc_addr g := replicate (unat rsz) (0, 0))\<rparr>
    \<and> rtl8125_init_ring_dir d g tp1 = Some tp'"
proof -
  obtain r0 tp0 where gr: "rtl8125_get_ring d tp = (r0, tp0)" by fastforce
  from get_ring_cases [OF gr assms(2)] assms(1) gr obtain i where
    i: "r0 = Some (d, i)" "valid_ref tp (d, i)" "\<not> rg_allocated (get_ring tp (d, i))"
      "tp0 = put_ring (d, i) ((get_ring tp (d, i))\<lparr>rg_allocated := True\<rparr>) tp"
    by (auto simp: rtl8125_request_ring_def)
  let ?old = "get_ring tp (d, i)"
  let ?g = "?old\<lparr>rg_allocated := True, rg_ring_size := rsz, rg_buff_size := bsz, rg_mem_ops := False, rg_flags := CONTIG_BUFS\<rparr>"
  have g: "get_ring tp0 (d, i)\<lparr>rg_ring_size := rsz, rg_buff_size := bsz, rg_mem_ops := False, rg_flags := CONTIG_BUFS\<rparr> = ?g"
    using i by (simp add: get_put_ring valid_ref_def)
  from assms(1) gr i(1) g obtain rc g1 w1 where al: "rtl8125_alloc_ring_mem K tp0 ?g w = Some (rc, g1, w1)"
    by (auto simp: rtl8125_request_ring_def Let_def split: option.splits)
  have "rg_flags ?g AND CONTIG_BUFS \<noteq> 0" "\<not> rg_mem_ops ?g" by simp_all
  note alloc_ring_mem_cases [OF al this]
  then have "rc \<noteq> 0 \<and> rg_bufs g1 = None \<and> rg_flags g1 = 1
      \<or> rc = 0 \<and> rsz \<noteq> 0 \<and> (\<exists>sz dva dda va da. g1 = ?g\<lparr>rg_desc_size := sz, rg_desc_addr := dva, rg_desc_daddr := dda,
         rg_bufs := Some (contig_bufs va da bsz (unat rsz))\<rparr>)" by simp
  then show ?thesis
  proof (elim disjE conjE exE)
    assume fail: "rc \<noteq> 0" "rg_bufs g1 = None" "rg_flags g1 = 1"
    then have "rtl8125_free_ring_mem K g1 w1 = None"
      by (simp add: rtl8125_free_ring_mem_def Let_def)
    with fail show ?thesis using assms(1) gr i(1) g al by (simp add: rtl8125_request_ring_def Let_def)
  next
    fix sz dva dda va da
    assume rc: "rc = 0" "rsz \<noteq> 0"
      and g1: "g1 = ?g\<lparr>rg_desc_size := sz, rg_desc_addr := dva, rg_desc_daddr := dda,
         rg_bufs := Some (contig_bufs va da bsz (unat rsz))\<rparr>"
    have lr: "lent_ring d rsz bsz g1" using rc(2) by (auto simp: g1 lent_ring_def)
    from assms(1) gr i(1) g al rc have ini: "map_option (\<lambda>tp. (Some (d, i), tp, w1)) (rtl8125_init_ring_dir d g1
        ((put_ring (d, i) g1 tp0)\<lparr>descs := (descs tp0)(rg_desc_addr g1 := replicate (unat (rg_ring_size g1)) (0, 0))\<rparr>))
      = Some (res, tp', w')"
      by (simp add: rtl8125_request_ring_def Let_def)
    let ?tp1 = "(put_ring (d, i) g1 tp)\<lparr>descs := (descs tp)(rg_desc_addr g1 := replicate (unat rsz) (0, 0))\<rparr>"
    have keep: "rg_event g1 = rg_event ?old" "queue_num g1 = queue_num ?old" "rg_direction g1 = rg_direction ?old"
      by (simp_all add: g1)
    have "put_ring (d, i) g1 tp0 = put_ring (d, i) g1 tp" "descs tp0 = descs tp" "rg_ring_size g1 = rsz"
      by (simp_all add: i(4) g1)
    with ini have fin: "res = Some (d, i)" "rtl8125_init_ring_dir d g1 ?tp1 = Some tp'" by auto
    show ?thesis
      by (rule exI [where x = i], rule exI [where x = g1], rule exI [where x = ?tp1], intro conjI)
        (rule fin i lr keep refl)+
  qed
qed

text \<open>
  C13. A ring that is handed out is ready to use: it is one of the rings reserved for the library
  and was free, its memory is one block cut into equal buffers, every descriptor points at its
  buffer, exactly the last one carries the end-of-ring mark, receive descriptors belong to the
  chip, the chip's base-address register holds the ring's bus address, and no other ring changes.
\<close>

theorem request_ring_ready:
  assumes "rtl8125_request_ring K rsz bsz d CONTIG_BUFS False tp w = Some (res, tp', w')"
    and "wf_rings tp" "bsz AND RingEnd = 0"
  shows "\<exists>i. res = Some (d, i) \<and> valid_ref tp (d, i) \<and> \<not> rg_allocated (get_ring tp (d, i))
    \<and> lent_ring d rsz bsz (get_ring tp' (d, i)) \<and> programmed d (get_ring tp' (d, i)) tp'
    \<and> (\<forall>r. r \<noteq> (d, i) \<longrightarrow> get_ring tp' r = get_ring tp r)"
proof -
  from request_ring_run [OF assms(1,2)] obtain i g tp1 where
    i: "res = Some (d, i)" "valid_ref tp (d, i)" "\<not> rg_allocated (get_ring tp (d, i))" and lr: "lent_ring d rsz bsz g"
    and tp1: "tp1 = (put_ring (d, i) g tp)\<lparr>descs := (descs tp)(rg_desc_addr g := replicate (unat rsz) (0, 0))\<rparr>"
    and ini: "rtl8125_init_ring_dir d g tp1 = Some tp'" by blast
  have "programmed d g tp' \<and> same_rings tp1 tp'"
    by (rule init_ring_programs [OF ini]) (use lr assms(3) in \<open>auto simp: tp1 lent_ring_def\<close>)
  moreover have "get_ring tp1 r = (if r = (d, i) then g else get_ring tp r)" for r
    using get_put_ring [of "(d, i)" tp g r] i(2) by (simp add: tp1 valid_ref_def same_rings_get [OF same_rings_chip(2)])
  ultimately have "get_ring tp' r = (if r = (d, i) then g else get_ring tp r)" for r
    using same_rings_get [of tp1 tp' r] by simp
  with i lr \<open>programmed d g tp' \<and> same_rings tp1 tp'\<close> show ?thesis by auto
qed

text \<open>
  A request never fails gracefully: with the flags the offload driver uses, the library
  either returns a ring or dereferences a NULL pointer. When no ring is free, or memory runs
  out, the error path frees the memory of a ring it does not have, or frees it twice; the caller's
  test for a NULL ring is never true.
\<close>

theorem request_ring_no_graceful_failure:
  assumes "wf_rings tp"
  shows "rtl8125_request_ring K rsz bsz d CONTIG_BUFS False tp w \<noteq> Some (None, tp', w')"
  using request_ring_run [OF _ assms, of K rsz bsz d w None tp' w'] by blast

lemmas chip_eval = demo_chip_def ring_zero_def rtl8125_request_ring_def rtl8125_get_ring_def lib_range_def lib_rings_def
  get_ring_def put_ring_def upt_rec rtl8125_alloc_ring_mem_def rtl8125_init_ring_dir_def ok_kern_def Let_def

lemma wf_demo_chip: "wf_rings demo_chip" by (simp add: wf_rings_def demo_chip_def)

theorem request_ring_ready_witness:
  "rg_allocated (get_ring (fst (snd (the (rtl8125_request_ring ok_kern 4 2048 CH_DIR_RX CONTIG_BUFS False demo_chip ())))) (CH_DIR_RX, 1))"
proof -
  let ?r = "rtl8125_request_ring ok_kern 4 2048 CH_DIR_RX CONTIG_BUFS False demo_chip ()"
  have r: "?r = Some (Some (CH_DIR_RX, 1), fst (snd (the ?r)), snd (snd (the ?r)))" by (simp add: chip_eval)
  from request_ring_ready [OF r wf_demo_chip] show ?thesis by (auto simp: lent_ring_def)
qed

theorem request_ring_no_graceful_failure_witness:
  "rtl8125_request_ring (ok_kern\<lparr>dma_alloc_coherent := (\<lambda>n w. (None, w))\<rparr>) 4 2048 CH_DIR_RX CONTIG_BUFS False demo_chip ()
   \<noteq> Some (None, demo_chip, ())"
  by (rule request_ring_no_graceful_failure [OF wf_demo_chip])

subsection \<open>Bounds of the buffers\<close>

text \<open>The block the contiguous buffers are cut from.\<close>

lemma alloc_ring_mem_block:
  assumes "rtl8125_alloc_ring_mem K tp g w = Some (0, g', w')" "rg_flags g AND CONTIG_BUFS \<noteq> 0" "\<not> rg_mem_ops g"
  shows "\<exists>va da w2 w3. dma_alloc_coherent K (rg_ring_size g * rg_buff_size g) w2 = (Some (va, da), w3)
    \<and> rg_bufs g' = Some (contig_bufs va da (rg_buff_size g) (unat (rg_ring_size g)))"
proof -
  obtain ok w1 where k: "kzalloc K w = (ok, w1)" by fastforce
  let ?n = "unat (rg_ring_size g)"
  let ?sz = "rg_ring_size g * (if rg_direction g = CH_DIR_TX then TXDESC_SIZE else RxDescLength tp)"
  obtain od w2 where dd: "dma_alloc_coherent K ?sz w1 = (od, w2)" by fastforce
  obtain ob w3 where db: "dma_alloc_coherent K (rg_ring_size g * rg_buff_size g) w2 = (ob, w3)" by fastforce
  show ?thesis
  proof (cases "ok \<and> od \<noteq> None \<and> ob \<noteq> None")
    case True
    then obtain dva dda va da where o: "od = Some (dva, dda)" "ob = Some (va, da)" by auto
    from assms k dd db True o have n: "?n \<noteq> 0"
      by (auto simp: rtl8125_alloc_ring_mem_def Let_def split: if_splits)
    with assms k dd db True o contig_bufs_eq [of ?n va da "rg_buff_size g"]
    have "rg_bufs g' = Some (contig_bufs va da (rg_buff_size g) ?n)"
      by (auto simp: rtl8125_alloc_ring_mem_def Let_def split: if_splits)
    with db o(2) show ?thesis by blast
  next
    case False
    with assms k dd db show ?thesis
      by (auto simp: rtl8125_alloc_ring_mem_def Let_def split: if_splits option.splits)
  qed
qed

lemma unat_step:
  fixes da bsz rsz :: u32
  assumes "unat rsz * unat bsz < 2 ^ 32" "unat da + unat (rsz * bsz) \<le> 2 ^ 32" "i < unat rsz" "bsz \<noteq> 0"
  shows "unat (da + word_of_nat i * bsz) = unat da + i * unat bsz \<and> i * unat bsz + unat bsz \<le> unat (rsz * bsz)"
proof -
  have m: "unat (rsz * bsz) = unat rsz * unat bsz" using assms(1) by (simp add: unat_word_ariths)
  have "Suc i * unat bsz \<le> unat rsz * unat bsz" using assms(3) by (intro mult_le_mono1) simp
  then have le: "i * unat bsz + unat bsz \<le> unat rsz * unat bsz" by simp
  have b: "0 < unat bsz" using assms(4) by (simp add: unat_gt_0)
  have "unat rsz < 2 ^ 32" using unsigned_less [of rsz, where ?'a = nat] by simp
  with assms(3) have i: "unat (word_of_nat i :: u32) = i" by (simp add: unat_of_nat)
  have im: "unat (word_of_nat i * bsz :: u32) = i * unat bsz" using le assms(1) b i by (simp add: unat_word_ariths)
  have "unat da + i * unat bsz < 2 ^ 32" using le b m assms(2) by linarith
  then have "unat (da + word_of_nat i * bsz) = unat da + i * unat bsz" using im by (simp add: unat_word_ariths)
  with le m show ?thesis by simp
qed


definition demo_ring :: rtl_ring where
  "demo_ring = (ring_zero CH_DIR_RX 1)\<lparr>rg_ring_size := 4, rg_buff_size := 2048, rg_flags := CONTIG_BUFS\<rparr>"

definition small_kern :: "unit kern" where
  "small_kern = ok_kern\<lparr>dma_alloc_coherent := (\<lambda>n w. (if n \<le> 0x10000 then Some (0xf1000000, 0x90000000) else None, w))\<rparr>"


subsection \<open>Events\<close>

text \<open>
  Requesting and releasing an interrupt message: between the two the table entry holds the
  address and data given; the release writes back the words saved, except that the fourth word
  is overwritten with the old third one (the request reads offset 8 twice) and the second with 0
  (the saved address is 32 bits wide). The entry is restored exactly when those happened to be
  its values; the rest of the table is never touched.
\<close>

theorem event_table_roundtrip:
  assumes "valid_ref tp r" "\<not> re_allocated (rg_event (get_ring tp r))"
    and "rtl8125_request_event (Some r) 1 addr data tp = (rc, tp1)"
    and "rtl8125_release_event (Some r) tp1 = Some tp2"
  defines "reg \<equiv> (ucast (message_id_of (get_ring tp r) * 0x10) :: u16)"
  shows "rc = 0 \<and> msix tp1 reg = addr \<and> msix tp1 (reg + 8) = ucast data \<and> msix tp1 (reg + 12) = ucast (drop_bit 32 data)
    \<and> msix tp2 = (msix tp)(reg + 4 := 0, reg + 12 := msix tp (reg + 8))
    \<and> \<not> re_allocated (rg_event (get_ring tp2 r))"
proof -
  let ?g = "get_ring tp r"
  define sv :: u64 where "sv = ucast (msix tp (reg + 8)) OR push_bit 32 (ucast (msix tp (reg + 8)))"
  let ?e = "(rg_event ?g)\<lparr>re_addr := msix tp reg, re_data := sv,
      re_message_id := message_id_of ?g, re_allocated := True\<rparr>"
  have v: "snd r < length (lib_rings (fst r) tp)" using assms(1) by (simp add: valid_ref_def)
  have tp1: "rc = 0" "tp1 = set_event r ?e (msix_write reg addr data tp)"
    using assms(2,3) by (auto simp: rtl8125_request_event_def Let_def reg_def sv_def)
  have rs: "same_rings tp (msix_write reg addr data tp)" by (simp add: msix_write_def)
  have v1: "snd r < length (lib_rings (fst r) (msix_write reg addr data tp))" using v rs by (simp add: same_rings_def)
  have e1: "rg_event (get_ring tp1 r) = ?e" using v1 by (simp add: tp1(2) set_event_def get_put_ring)
  have m1: "msix tp1 = msix (msix_write reg addr data tp)" by (simp add: tp1(2) set_event_def)
  have tp2: "tp2 = set_event r (?e\<lparr>re_allocated := False\<rparr>) (msix_write reg (msix tp reg) sv tp1)"
    using assms(4) e1 by (simp add: rtl8125_release_event_def Let_def reg_def)
  have "ucast (ucast x OR push_bit 32 (ucast x) :: u64) = x"
    "ucast (drop_bit 32 (ucast x OR push_bit 32 (ucast x) :: u64)) = x" for x :: u32
    by (auto intro!: bit_word_eqI simp: bit_simps) (drule bit_imp_le_length, simp)
  then have halves: "ucast sv = msix tp (reg + 8)" "ucast (drop_bit 32 sv) = msix tp (reg + 8)"
    unfolding sv_def by blast+
  have "msix tp2 = (msix tp)(reg + 4 := 0, reg + 12 := msix tp (reg + 8))"
    by (rule ext) (simp add: tp2 set_event_def msix_write_def m1 halves)
  moreover have "msix tp1 reg = addr \<and> msix tp1 (reg + 8) = ucast data \<and> msix tp1 (reg + 12) = ucast (drop_bit 32 data)"
    by (simp add: m1 msix_write_def)
  moreover have "\<not> re_allocated (rg_event (get_ring tp2 r))"
  proof -
    have "snd r < length (lib_rings (fst r) (msix_write reg a b tp1))" for a b
      using v1 by (auto simp: tp1(2) set_event_def put_ring_def msix_write_def lib_rings_def split: channel_dir.splits)
    then show ?thesis by (simp add: tp2 set_event_def get_put_ring)
  qed
  ultimately show ?thesis using tp1(1) by blast
qed

theorem event_table_roundtrip_witness:
  "msix (the (rtl8125_release_event (Some (CH_DIR_RX, 1)) (snd (rtl8125_request_event (Some (CH_DIR_RX, 1)) 1 0x9f000000 5 demo_chip)))) 0x1C
   = 0x31 \<and> msix demo_chip 0x1C = 0"
proof -
  let ?q = "rtl8125_request_event (Some (CH_DIR_RX, 1)) 1 0x9f000000 5 demo_chip"
  let ?l = "rtl8125_release_event (Some (CH_DIR_RX, 1)) (snd ?q)"
  have q: "?q = (fst ?q, snd ?q)" by simp
  have l: "?l = Some (the ?l)"
    by (simp add: rtl8125_release_event_def Let_def)
  have v: "valid_ref demo_chip (CH_DIR_RX, 1)"
    by (simp add: valid_ref_def demo_chip_def lib_range_def lib_rings_def upt_rec)
  have a: "\<not> re_allocated (rg_event (get_ring demo_chip (CH_DIR_RX, 1)))"
    by (simp add: demo_chip_def get_ring_def lib_rings_def ring_zero_def)
  have "message_id_of (get_ring demo_chip (CH_DIR_RX, 1)) = 1"
    by (simp add: demo_chip_def get_ring_def lib_rings_def ring_zero_def message_id_of_def)
  with event_table_roundtrip [OF v a q l] show ?thesis by (simp add: demo_chip_def)
qed

end
