(* ===== verification/R8125_Ioss.thy ===== *)
theory R8125_Ioss
  imports Ioss_Net R8125_Lib
begin

text \<open>
  The glue driver between the offload subsystem and the Realtek 8125 driver
  (\<^verbatim>\<open>r8125_ioss/r8125_ioss.c\<close>). The kernel state the subsystem's operations act on is a pair of the
  network driver's private data and the rest of the kernel.
\<close>

unbundle bit_operations_syntax

section \<open>State and parameters\<close>

record diag_params =
  diag_skip_enable_channel :: bool
  diag_skip_request_event :: bool
  diag_skip_enable_event :: bool
  diag_skip_request_channel :: bool

definition diag_none :: diag_params where
  "diag_none = \<lparr>diag_skip_enable_channel = False, diag_skip_request_event = False, diag_skip_enable_event = False,
     diag_skip_request_channel = False\<rparr>"

type_synonym 'k r8125_world = "rtl_private \<times> 'k"
type_synonym 'k r8125_op = "(ring_ref, 'k r8125_world) chan_op"

text \<open>Kernel services seen from the pair: they do not touch the network driver's private data.\<close>

definition lift_fun :: "('k \<Rightarrow> 'a \<times> 'k) \<Rightarrow> 'k r8125_world \<Rightarrow> 'a \<times> 'k r8125_world" where
  "lift_fun f w = (case f (snd w) of (a, k) \<Rightarrow> (a, fst w, k))"

definition lift_kern :: "'k kern \<Rightarrow> 'k r8125_world kern" where
  "lift_kern K = \<lparr>kzalloc = lift_fun (kzalloc K), dma_get_sgtable = (\<lambda>a d n. lift_fun (dma_get_sgtable K a d n)),
     dma_map_resource = (\<lambda>p n. lift_fun (dma_map_resource K p n)), dma_mapping_error = dma_mapping_error K,
     dma_unmap_resource = (\<lambda>d n w. (fst w, dma_unmap_resource K d n (snd w))),
     iommu_unmap = (\<lambda>d n. lift_fun (iommu_unmap K d n)), iommu_map = (\<lambda>d p n pr. lift_fun (iommu_map K d p n pr)),
     dev_is_dma_coherent = dev_is_dma_coherent K, dma_alloc_coherent = (\<lambda>n. lift_fun (dma_alloc_coherent K n)),
     dma_free_coherent = (\<lambda>n v d w. (fst w, dma_free_coherent K n v d (snd w))),
     llcc_tcm_activate = lift_fun (llcc_tcm_activate K),
     llcc_tcm_deactivate = (\<lambda>t w. (fst w, llcc_tcm_deactivate K t (snd w))),
     vmalloc_page_phys = vmalloc_page_phys K, virt_to_phys = virt_to_phys K,
     debugfs_create = (\<lambda>nm. lift_fun (debugfs_create K nm)),
     debugfs_remove_recursive = (\<lambda>w. (fst w, debugfs_remove_recursive K (snd w)))\<rparr>"

section \<open>Channels\<close>

text \<open>The loop that adds the buffers of a ring to the channel.\<close>

primrec add_buffs :: "'k kern \<Rightarrow> rtl_buf list \<Rightarrow> ring_ref ioss_channel \<Rightarrow> 'k \<Rightarrow> int \<times> ring_ref ioss_channel \<times> 'k" where
  "add_buffs K [] ch k = (0, ch, k)"
| "add_buffs K (b # bs) ch k =
     (case ioss_channel_add_buff_mem K ch (rb_addr b) (rb_dma b) (rb_size b) k of (rc, ch, k) \<Rightarrow>
        if rc \<noteq> 0 then (rc, ch, k) else add_buffs K bs ch k)"

definition del_buffs :: "rtl_buf list \<Rightarrow> ring_ref ioss_channel \<Rightarrow> ring_ref ioss_channel" where
  "del_buffs bs ch = fold (\<lambda>b ch. ioss_channel_del_buff_mem ch (rb_addr b)) bs ch"

definition forget_ring :: "ring_ref ioss_channel \<Rightarrow> ring_ref ioss_channel" where
  "forget_ring ch = ch\<lparr>ch_id := - 1, ch_private := None\<rparr>"

text \<open>\<open>err_add_desc\<close>: the ring goes back, the channel forgets it.\<close>

definition err_add_desc ::
  "base_drv \<Rightarrow> 'k kern \<Rightarrow> int \<Rightarrow> ring_ref \<Rightarrow> ring_ref ioss_channel \<Rightarrow> 'k r8125_world \<Rightarrow>
   (int \<times> ring_ref ioss_channel \<times> 'k r8125_world) option" where
  "err_add_desc B K rc r ch w =
     map_option (\<lambda>w. (rc, forget_ring ch, w)) (rtl8125_release_ring B K (Some r) (fst w) (snd w))"

definition r8125_ioss_request_channel :: "diag_params \<Rightarrow> base_drv \<Rightarrow> 'k kern \<Rightarrow> 'k r8125_op" where
  "r8125_ioss_request_channel D B K ch w =
     (if diag_skip_request_channel D then Some (0, forget_ring ch, w)
      else
        (case rtl8125_request_ring K (ring_size (config ch)) (buff_size (config ch)) (direction ch) CONTIG_BUFS False (fst w) (snd w) of
           None \<Rightarrow> None
         | Some (None, w) \<Rightarrow> Some (- EFAULT, ch, w)
         | Some (Some r, tp, k) \<Rightarrow>
             let g = get_ring tp r in
             (case ioss_channel_add_desc_mem K ch (rg_desc_addr g) (rg_desc_daddr g) (rg_desc_size g) k of (rc, ch, k) \<Rightarrow>
                if rc \<noteq> 0 then err_add_desc B K rc r ch (tp, k)
                else (case rg_bufs g of
                        None \<Rightarrow> None
                      | Some bs \<Rightarrow>
                          (case add_buffs K bs ch k of (rc, ch, k) \<Rightarrow>
                             if rc \<noteq> 0
                             then err_add_desc B K rc r (ioss_channel_del_desc_mem (del_buffs bs ch) (rg_desc_addr g)) (tp, k)
                             else Some (0, ch\<lparr>ch_id := uint (queue_num g), ch_private := Some r\<rparr>, tp, k))))))"

definition r8125_ioss_release_channel :: "base_drv \<Rightarrow> 'k kern \<Rightarrow> 'k r8125_op" where
  "r8125_ioss_release_channel B K ch w =
     (case ch_private ch of
        None \<Rightarrow> None
      | Some r \<Rightarrow>
          let g = get_ring (fst w) r in
          (case rg_bufs g of
             None \<Rightarrow> None
           | Some bs \<Rightarrow>
               map_option (\<lambda>w. (0, forget_ring (del_buffs bs (ioss_channel_del_desc_mem ch (rg_desc_addr g))), w))
                 (rtl8125_release_ring B K (Some r) (fst w) (snd w))))"

definition r8125_ioss_enable_channel :: "diag_params \<Rightarrow> base_drv \<Rightarrow> 'k r8125_op" where
  "r8125_ioss_enable_channel D B ch w =
     (if diag_skip_enable_channel D then Some (0, ch, w)
      else (case rtl8125_enable_ring B (ch_private ch) (fst w) of (rc, tp) \<Rightarrow> Some (rc, ch, tp, snd w)))"

definition r8125_ioss_disable_channel :: "base_drv \<Rightarrow> 'k r8125_op" where
  "r8125_ioss_disable_channel B ch w = Some (0, ch, rtl8125_disable_ring B (ch_private ch) (fst w), snd w)"

section \<open>Events\<close>

definition r8125_ioss_request_event :: "diag_params \<Rightarrow> 'k kern \<Rightarrow> 'k r8125_op" where
  "r8125_ioss_request_event D K ch w =
     (if diag_skip_request_event D then Some (0, ch, w)
      else (case ioss_channel_map_event K ch (snd w) of (rc, ch, k) \<Rightarrow>
        if rc \<noteq> 0 then Some (- EFAULT, ch, fst w, k)
        else
          let unmap = (\<lambda>tp. case ioss_channel_unmap_event K ch k of (ch, k) \<Rightarrow> Some (- EFAULT, ch, tp, k)) in
          (case rtl8125_request_event (ch_private ch) 1 (ev_daddr (event ch)) (ev_data (event ch)) (fst w) of (rc, tp) \<Rightarrow>
             if rc \<noteq> 0 then unmap tp
             else do {
               (rc, tp) \<leftarrow> rtl8125_set_ring_intr_mod (ch_private ch) (uint (mod_usecs_max (event ch) div 2)) tp;
               if rc \<noteq> 0 then do { tp \<leftarrow> rtl8125_release_event (ch_private ch) tp; unmap tp }
               else Some (0, ch, tp, k)
             })))"

definition r8125_ioss_release_event :: "'k kern \<Rightarrow> 'k r8125_op" where
  "r8125_ioss_release_event K ch w =
     do {
       tp \<leftarrow> rtl8125_release_event (ch_private ch) (fst w);
       (case ioss_channel_unmap_event K ch (snd w) of (ch, k) \<Rightarrow> Some (0, ch, tp, k))
     }"

definition r8125_ioss_enable_filters :: "base_drv \<Rightarrow> ring_ref ioss_channel \<Rightarrow> rtl_private \<Rightarrow> (int \<times> rtl_private) option" where
  "r8125_ioss_enable_filters B ch tp =
     (let filters = filter_types ch in
      if filters = 0 then Some (0, tp)
      else if direction ch \<noteq> CH_DIR_RX then Some (- EFAULT, tp)
      else do {
        (rc, filters, tp) \<leftarrow>
          (if filters AND RXF_F_IP \<noteq> 0
           then map_option (\<lambda>(rc, tp). (rc, filters AND NOT RXF_F_IP, tp)) (rtl8125_rss_redirect (ch_private ch) tp)
           else Some (0, filters, tp));
        if rc \<noteq> 0 then Some (- EFAULT, tp)
        else if filters \<noteq> 0 then Some (- EFAULT, snd (rtl8125_rss_reset B tp))
        else Some (0, tp)
      })"

definition r8125_ioss_disable_filters :: "base_drv \<Rightarrow> ring_ref ioss_channel \<Rightarrow> rtl_private \<Rightarrow> int \<times> rtl_private" where
  "r8125_ioss_disable_filters B ch tp =
     (if filter_types ch = 0 then (0, tp)
      else if direction ch \<noteq> CH_DIR_RX then (- EFAULT, tp)
      else if filter_types ch AND RXF_F_IP \<noteq> 0
      then (case rtl8125_rss_reset B tp of (rc, tp) \<Rightarrow> (if rc \<noteq> 0 then - EFAULT else 0, tp))
      else (0, tp))"

definition r8125_ioss_enable_event :: "diag_params \<Rightarrow> base_drv \<Rightarrow> 'k r8125_op" where
  "r8125_ioss_enable_event D B ch w =
     (if diag_skip_enable_event D then Some (0, ch, w)
      else do {
        (rc, tp) \<leftarrow> rtl8125_enable_event (ch_private ch) (fst w);
        if rc \<noteq> 0 then Some (rc, ch, tp, snd w)
        else do {
          (rc, tp) \<leftarrow> r8125_ioss_enable_filters B ch tp;
          if rc \<noteq> 0 then do {
            (_, tp) \<leftarrow> rtl8125_disable_event (ch_private ch) tp;
            Some (rc, ch, tp, snd w)
          }
          else Some (0, ch, tp, snd w)
        }
      })"

definition r8125_ioss_disable_event :: "base_drv \<Rightarrow> 'k r8125_op" where
  "r8125_ioss_disable_event B ch w =
     (case r8125_ioss_disable_filters B ch (fst w) of (rc, tp) \<Rightarrow>
        if rc \<noteq> 0 then Some (rc, ch, tp, snd w)
        else do {
          (rc, tp) \<leftarrow> rtl8125_disable_event (ch_private ch) tp;
          Some (rc, ch, tp, snd w)
        })"

definition r8125_ioss_ops :: "diag_params \<Rightarrow> base_drv \<Rightarrow> 'k kern \<Rightarrow> (ring_ref, 'k r8125_world) driver_ops" where
  "r8125_ioss_ops D B K = \<lparr>
     request_channel = Some (r8125_ioss_request_channel D B K), release_channel = Some (r8125_ioss_release_channel B K),
     enable_channel = Some (r8125_ioss_enable_channel D B), disable_channel = Some (r8125_ioss_disable_channel B),
     request_event = Some (r8125_ioss_request_event D K), release_event = Some (r8125_ioss_release_event K),
     enable_event = Some (r8125_ioss_enable_event D B), disable_event = Some (r8125_ioss_disable_event B)\<rparr>"

definition r8125_driver_match :: "pci_ident \<Rightarrow> bool" where
  "r8125_driver_match d \<longleftrightarrow> on_pci_bus d \<and> pci_driver_name d = ''r8125''"

section \<open>Lemmas\<close>

subsection \<open>Frames\<close>

text \<open>
  What the rest of the network driver promises: a restart, a reset or a change of the receive
  steering reprograms the chip but leaves the library's rings alone.
\<close>

definition base_keeps :: "base_drv \<Rightarrow> bool" where
  "base_keeps B \<longleftrightarrow> (\<forall>tp. same_rings tp (bd_restart B tp) \<and> same_rings tp (bd_linkchg B tp) \<and> same_rings tp (bd_stop B tp)
     \<and> same_rings tp (bd_start B tp) \<and> same_rings tp (bd_hw_reset B tp))"

text \<open>Only the ring \<open>r\<close> changes.\<close>

definition ring_change :: "ring_ref \<Rightarrow> rtl_private \<Rightarrow> rtl_private \<Rightarrow> bool" where
  "ring_change r tp tp' \<longleftrightarrow> wf_rings tp' = wf_rings tp \<and> (\<forall>r'. valid_ref tp' r' = valid_ref tp r')
     \<and> (\<forall>r'. r' \<noteq> r \<longrightarrow> get_ring tp' r' = get_ring tp r')"

lemma ring_change_refl [simp]: "ring_change r tp tp"
  by (simp add: ring_change_def)

lemma ring_change_trans [trans]: "ring_change r a b \<Longrightarrow> ring_change r b c \<Longrightarrow> ring_change r a c"
  by (simp add: ring_change_def)

lemma ring_change_valid: "ring_change r tp tp' \<Longrightarrow> valid_ref tp' x = valid_ref tp x"
  unfolding ring_change_def by blast

lemma ring_change_get: "ring_change r tp tp' \<Longrightarrow> x \<noteq> r \<Longrightarrow> get_ring tp' x = get_ring tp x"
  unfolding ring_change_def by blast

lemma ring_change_wf: "ring_change r tp tp' \<Longrightarrow> wf_rings tp' = wf_rings tp"
  unfolding ring_change_def by blast

lemma ring_change_same: "same_rings tp tp' \<Longrightarrow> ring_change r tp tp'"
  by (simp add: ring_change_def same_rings_get same_rings_valid) (simp add: same_rings_def)

lemma ring_change_put: "valid_ref tp r \<Longrightarrow> ring_change r tp (put_ring r g tp)"
  by (simp add: ring_change_def valid_ref_def get_put_ring lib_rings_put)

text \<open>The rings the library has lent out.\<close>

definition lent :: "rtl_private \<Rightarrow> ring_ref set" where
  "lent tp = {r. valid_ref tp r \<and> rg_allocated (get_ring tp r)}"

lemma lent_change:
  assumes "ring_change r tp tp'" "valid_ref tp r"
  shows "lent tp' = (if rg_allocated (get_ring tp' r) then insert r (lent tp) else lent tp - {r})"
  using assms by (auto simp: lent_def ring_change_def) metis+

text \<open>A ring whose memory can be freed.\<close>

definition contig_ring :: "rtl_ring \<Rightarrow> bool" where
  "contig_ring g \<longleftrightarrow> rg_allocated g \<and> rg_flags g = CONTIG_BUFS \<and> (\<exists>b bs. rg_bufs g = Some (b # bs))"

lemma lent_contig: "lent_ring d rsz bsz g \<Longrightarrow> contig_ring g"
proof -
  assume l: "lent_ring d rsz bsz g"
  then have "unat rsz \<noteq> 0" by (auto simp: lent_ring_def unat_eq_0)
  then have "contig_bufs va da bsz (unat rsz) \<noteq> []" for va da by (simp add: contig_bufs_def)
  with l show ?thesis unfolding contig_ring_def lent_ring_def by (metis list.exhaust)
qed

lemma release_ring_effect:
  assumes "base_keeps B" "valid_ref tp r" "contig_ring (get_ring tp r)"
  shows "\<exists>tp' k'. rtl8125_release_ring B K (Some r) tp k = Some (tp', k') \<and> ring_change r tp tp'
    \<and> \<not> rg_allocated (get_ring tp' r)"
proof -
  let ?g = "get_ring tp r"
  from assms(3) have "rg_flags ?g AND CONTIG_BUFS \<noteq> 0" "\<exists>b bs. rg_bufs ?g = Some (b # bs)"
    by (auto simp: contig_ring_def)
  with free_ring_mem_contig [of ?g K k] obtain k' where
    fr: "rtl8125_free_ring_mem K ?g k = Some (?g\<lparr>rg_desc_addr := 0, rg_bufs := None\<rparr>, k')" by blast
  define tp1 where "tp1 = put_ring r (?g\<lparr>rg_desc_addr := 0, rg_bufs := None, rg_allocated := False\<rparr>) tp"
  have put: "rtl8125_put_ring (Some r) (put_ring r (?g\<lparr>rg_desc_addr := 0, rg_bufs := None\<rparr>) tp) = tp1"
    using assms(2) by (simp add: rtl8125_put_ring_def tp1_def get_put_ring valid_ref_def)
  define tp2 where "tp2 = (if rtl8125_all_ring_released tp1 then (if net_running tp1 then bd_restart B tp1 else bd_linkchg B tp1) else tp1)"
  have keep: "same_rings tp1 tp2" using assms(1) by (simp add: tp2_def base_keeps_def)
  have "rtl8125_release_ring B K (Some r) tp k = Some (tp2, k')"
    by (simp add: rtl8125_release_ring_def fr put tp2_def)
  moreover have "ring_change r tp tp2"
    using ring_change_put [OF assms(2)] ring_change_same [OF keep] unfolding tp1_def by (rule ring_change_trans)
  moreover have "\<not> rg_allocated (get_ring tp2 r)"
    using assms(2) by (simp add: same_rings_get [OF keep] tp1_def get_put_ring valid_ref_def)
  ultimately show ?thesis by blast
qed

subsection \<open>Requesting and releasing a channel\<close>

lemma add_buffs_frame:
  "add_buffs K bs ch k = (rc, ch', k') \<Longrightarrow> \<exists>xs. ch' = ch\<lparr>buff_mem := xs\<rparr>"
proof (induction bs arbitrary: ch k)
  case Nil
  then show ?case by (metis add_buffs.simps(1) ioss_channel.surjective ioss_channel.update_convs(8) prod.inject)
next
  case (Cons b bs)
  obtain rc1 xs k1 where a: "ioss_channel_add_mem K (buff_mem ch) (rb_addr b) (rb_dma b) (rb_size b) k = (rc1, xs, k1)"
    by (metis prod_cases3)
  show ?case
  proof (cases "rc1 = 0")
    case True
    with Cons.prems a have "add_buffs K bs (ch\<lparr>buff_mem := xs\<rparr>) k1 = (rc, ch', k')"
      by (simp add: ioss_channel_add_buff_mem_def)
    from Cons.IH [OF this] show ?thesis by simp
  next
    case False
    with Cons.prems a show ?thesis by (auto simp: ioss_channel_add_buff_mem_def)
  qed
qed

lemma del_buffs_frame: "\<exists>xs. del_buffs bs ch = ch\<lparr>buff_mem := xs\<rparr>"
proof (induction bs arbitrary: ch)
  case Nil
  show ?case by (rule exI [where x = "buff_mem ch"]) (simp add: del_buffs_def)
next
  case (Cons b bs)
  show ?case using Cons [of "ioss_channel_del_buff_mem ch (rb_addr b)"]
    by (auto simp: del_buffs_def ioss_channel_del_buff_mem_def)
qed

text \<open>What a glue operation leaves of the fields the state machine owns.\<close>

definition same_flags :: "ring_ref ioss_channel \<Rightarrow> ring_ref ioss_channel \<Rightarrow> bool" where
  "same_flags ch ch' \<longleftrightarrow> allocated ch' = allocated ch \<and> enabled ch' = enabled ch"

lemma release_channel_effect:
  assumes "base_keeps B" "ch_private ch = Some r" "valid_ref tp r" "contig_ring (get_ring tp r)"
  shows "\<exists>ch' tp' k'. r8125_ioss_release_channel B K ch (tp, k) = Some (0, ch', tp', k') \<and> ch_private ch' = None
    \<and> same_flags ch ch' \<and> ring_change r tp tp' \<and> \<not> rg_allocated (get_ring tp' r)"
proof -
  from release_ring_effect [OF assms(1,3,4), of K k] obtain tp' k' where
    rel: "rtl8125_release_ring B K (Some r) tp k = Some (tp', k')" "ring_change r tp tp'" "\<not> rg_allocated (get_ring tp' r)"
    by blast
  from assms(4) obtain bs where bs: "rg_bufs (get_ring tp r) = Some bs" by (auto simp: contig_ring_def)
  obtain xs where "del_buffs bs (ioss_channel_del_desc_mem ch (rg_desc_addr (get_ring tp r)))
      = (ioss_channel_del_desc_mem ch (rg_desc_addr (get_ring tp r)))\<lparr>buff_mem := xs\<rparr>"
    using del_buffs_frame by blast
  with rel bs assms(2) show ?thesis
    by (simp add: r8125_ioss_release_channel_def Let_def forget_ring_def same_flags_def ioss_channel_del_desc_mem_def)
qed

lemma err_add_desc_effect:
  assumes "base_keeps B" "valid_ref tp r" "contig_ring (get_ring tp r)"
  shows "\<exists>tp' k'. err_add_desc B K rc r ch (tp, k) = Some (rc, forget_ring ch, tp', k') \<and> ring_change r tp tp'
    \<and> \<not> rg_allocated (get_ring tp' r)"
  using release_ring_effect [OF assms, of K k] by (auto simp: err_add_desc_def)

lemma init_ring_dir_same: "rtl8125_init_ring_dir d g tp = Some tp' \<Longrightarrow> same_rings tp tp'"
  by (auto simp: rtl8125_init_ring_dir_def Let_def split: if_splits option.splits)

lemma request_ring_effect:
  assumes "rtl8125_request_ring K rsz bsz d CONTIG_BUFS False tp k = Some (res, tp', k')" "wf_rings tp"
  shows "\<exists>r. res = Some r \<and> valid_ref tp r \<and> r \<notin> lent tp \<and> ring_change r tp tp' \<and> contig_ring (get_ring tp' r)"
proof -
  from request_ring_run [OF assms] obtain i g tp1 where
    i: "res = Some (d, i)" "valid_ref tp (d, i)" "\<not> rg_allocated (get_ring tp (d, i))" and lr: "lent_ring d rsz bsz g"
    and tp1: "tp1 = (put_ring (d, i) g tp)\<lparr>descs := (descs tp)(rg_desc_addr g := replicate (unat rsz) (0, 0))\<rparr>"
    and ini: "rtl8125_init_ring_dir d g tp1 = Some tp'" by blast
  have same: "same_rings (put_ring (d, i) g tp) tp1" "same_rings tp1 tp'"
    using init_ring_dir_same [OF ini] by (simp_all add: tp1)
  have "ring_change (d, i) tp tp'"
    by (rule ring_change_trans [OF ring_change_put [OF i(2), of g]
          ring_change_trans [OF ring_change_same [OF same(1)] ring_change_same [OF same(2)]]])
  moreover have "get_ring tp' (d, i) = g"
    using i(2) by (simp add: same_rings_get [OF same(2)] same_rings_get [OF same(1)] get_put_ring valid_ref_def)
  ultimately show ?thesis using i lent_contig [OF lr] by (auto simp: lent_def)
qed

text \<open>A request either lends one more ring to the channel, or leaves what is lent as it was.\<close>

definition borrows :: "ring_ref ioss_channel \<Rightarrow> rtl_private \<Rightarrow> int \<Rightarrow> ring_ref ioss_channel \<Rightarrow> rtl_private \<Rightarrow> bool" where
  "borrows ch tp rc ch' tp' \<longleftrightarrow> (\<exists>r. valid_ref tp r \<and> r \<notin> lent tp \<and> ring_change r tp tp' \<and> same_flags ch ch'
     \<and> (if rc = 0 then ch_private ch' = Some r \<and> contig_ring (get_ring tp' r)
        else ch_private ch' = None \<and> \<not> rg_allocated (get_ring tp' r)))"

lemma request_channel_effect:
  assumes "r8125_ioss_request_channel D B K ch (tp, k) = Some (rc, ch', tp', k')" "\<not> diag_skip_request_channel D"
    and "wf_rings tp" "base_keeps B"
  shows "borrows ch tp rc ch' tp'"
proof -
  let ?q = "rtl8125_request_ring K (ring_size (config ch)) (buff_size (config ch)) (direction ch) CONTIG_BUFS False tp k"
  obtain res tp1 k1 where q: "?q = Some (res, tp1, k1)"
    using assms(1,2) by (cases ?q) (auto simp: r8125_ioss_request_channel_def)
  from request_ring_effect [OF q assms(3)] obtain r where
    r: "res = Some r" "valid_ref tp r" "r \<notin> lent tp" "ring_change r tp tp1" "contig_ring (get_ring tp1 r)" by blast
  have v1: "valid_ref tp1 r" using ring_change_valid [OF r(4)] r(2) by simp
  let ?g = "get_ring tp1 r"
  from r(5) obtain bs where bs: "rg_bufs ?g = Some bs" by (auto simp: contig_ring_def)
  obtain rc2 xs k2 where d: "ioss_channel_add_mem K (desc_mem ch) (rg_desc_addr ?g) (rg_desc_daddr ?g) (rg_desc_size ?g) k1 = (rc2, xs, k2)"
    by (metis prod_cases3)
  let ?ch = "ch\<lparr>desc_mem := xs\<rparr>"
  obtain rc3 ch3 k3 where a: "add_buffs K bs ?ch k2 = (rc3, ch3, k3)" by (metis prod_cases3)
  from add_buffs_frame [OF a] obtain ys where ch3: "ch3 = ?ch\<lparr>buff_mem := ys\<rparr>" by blast
  have undo: "borrows ch tp e (forget_ring c) tp2" if "ring_change r tp1 tp2" "\<not> rg_allocated (get_ring tp2 r)" "e \<noteq> 0" "same_flags ch c"
    for e c tp2
    unfolding borrows_def
    by (rule exI [where x = r]) (use that r(2,3) ring_change_trans [OF r(4) that(1)] in \<open>simp add: forget_ring_def same_flags_def\<close>)
  have run: "(if rc2 \<noteq> 0 then err_add_desc B K rc2 r ?ch (tp1, k2)
      else if rc3 \<noteq> 0 then err_add_desc B K rc3 r (ioss_channel_del_desc_mem (del_buffs bs ch3) (rg_desc_addr ?g)) (tp1, k3)
      else Some (0, ch3\<lparr>ch_id := uint (queue_num ?g), ch_private := Some r\<rparr>, tp1, k3)) = Some (rc, ch', tp', k')"
    using assms(1,2) q r(1) d a bs
    by (cases "rc2 = 0") (simp_all add: r8125_ioss_request_channel_def Let_def ioss_channel_add_desc_mem_def)
  obtain zs where z: "del_buffs bs ch3 = ch3\<lparr>buff_mem := zs\<rparr>" using del_buffs_frame by blast
  have fl: "same_flags ch (ioss_channel_del_desc_mem (del_buffs bs ch3) (rg_desc_addr ?g))"
    unfolding z by (simp add: ch3 same_flags_def ioss_channel_del_desc_mem_def)
  consider "rc2 \<noteq> 0" | "rc2 = 0" "rc3 \<noteq> 0" | "rc2 = 0" "rc3 = 0" by blast
  then show ?thesis
  proof cases
    case 1
    with run err_add_desc_effect [OF assms(4) v1 r(5), of K rc2 ?ch k2] show ?thesis
      by (auto intro!: undo simp: same_flags_def)
  next
    case 2
    with run err_add_desc_effect [OF assms(4) v1 r(5), of K rc3 "ioss_channel_del_desc_mem (del_buffs bs ch3) (rg_desc_addr ?g)" k3]
    show ?thesis using fl by (auto intro!: undo)
  next
    case 3
    with run r show ?thesis unfolding borrows_def
      by (intro exI [where x = r]) (auto simp: ch3 same_flags_def)
  qed
qed

subsection \<open>Allocating the channels of an interface\<close>

text \<open>The state machine of the subsystem running on this driver.\<close>

definition r8125_env :: "diag_params \<Rightarrow> base_drv \<Rightarrow> 'k kern \<Rightarrow> (ring_ref, 'k r8125_world) net_env \<Rightarrow> bool" where
  "r8125_env D B K E \<longleftrightarrow> E_ops E = r8125_ioss_ops D B K \<and> E_kern E = lift_kern K
     \<and> \<not> diag_skip_request_channel D \<and> \<not> diag_skip_enable_channel D \<and> base_keeps B"

definition idle_channel :: "ring_ref ioss_channel \<Rightarrow> bool" where
  "idle_channel ch \<longleftrightarrow> \<not> allocated ch \<and> ch_private ch = None"

definition holds_ring :: "rtl_private \<Rightarrow> ring_ref ioss_channel \<Rightarrow> bool" where
  "holds_ring tp ch \<longleftrightarrow> allocated ch \<and> (\<exists>r. ch_private ch = Some r \<and> valid_ref tp r \<and> contig_ring (get_ring tp r))"

text \<open>The channels that hold a ring are exactly the borrowers of the rings lent out, one each.\<close>

definition lending :: "ring_ref ioss_channel list \<Rightarrow> ring_ref ioss_channel list \<Rightarrow> rtl_private \<Rightarrow> bool" where
  "lending dn todo tp \<longleftrightarrow> wf_rings tp \<and> list_all (holds_ring tp) dn \<and> list_all idle_channel todo
     \<and> distinct (map ch_private dn) \<and> Some ` lent tp = ch_private ` set dn"

lemma lift_kern_sel [simp]:
  "llcc_tcm_activate (lift_kern K) = lift_fun (llcc_tcm_activate K)"
  "debugfs_create (lift_kern K) nm = lift_fun (debugfs_create K nm)"
  "debugfs_remove_recursive (lift_kern K) w = (fst w, debugfs_remove_recursive K (snd w))"
  "llcc_tcm_deactivate (lift_kern K) t w = (fst w, llcc_tcm_deactivate K t (snd w))"
  by (simp_all add: lift_kern_def)

lemma lift_fun_fst [simp]: "fst (snd (lift_fun f w)) = fst w"
  by (simp add: lift_fun_def split: prod.splits)

lemma lift_fun_world: "lift_fun f w = (a, w') \<Longrightarrow> fst w' = fst w"
  by (metis lift_fun_fst snd_conv)

text \<open>What stays when only configuration and kernel state change.\<close>

definition same_lending :: "ring_ref ioss_channel \<Rightarrow> 'k r8125_world \<Rightarrow> ring_ref ioss_channel \<Rightarrow> 'k r8125_world \<Rightarrow> bool" where
  "same_lending ch w ch' w' \<longleftrightarrow> ch_private ch' = ch_private ch \<and> same_flags ch ch' \<and> fst w' = fst w"

lemma select_config_same:
  assumes "E_kern E = lift_kern K" "ioss_net_select_channel_config E sp ch l w = (ch', l', w')"
  shows "same_lending ch w ch' w'"
  using assms
  by (auto simp: ioss_net_select_channel_config_def ioss_net_select_llcc_config_def llcc_mem_get_def Let_def same_lending_def same_flags_def
      split: if_splits prod.splits option.splits dest: lift_fun_world)

lemma deselect_config_same:
  assumes "E_kern E = lift_kern K" "ioss_net_deselect_channel_config E ch l w = (ch', l', w')"
  shows "same_lending ch w ch' w'"
  using assms
  by (auto simp: ioss_net_deselect_channel_config_def llcc_mem_put_def Let_def same_lending_def same_flags_def
      split: if_splits prod.splits option.splits)

lemma create_files_same: "create_files (lift_kern K) nms w = (ok, w') \<Longrightarrow> fst w' = fst w"
proof (induction nms arbitrary: w)
  case (Cons nm nms)
  obtain b w1 where c: "lift_fun (debugfs_create K nm) w = (b, w1)"
    by (cases "lift_fun (debugfs_create K nm) w")
  with Cons.prems Cons.IH [of w1] lift_fun_world [OF c] show ?case by (auto split: if_splits)
qed simp

lemma debugfs_add_same:
  assumes "ioss_debugfs_add_channel (lift_kern K) ch w = (rc, ch', w')"
  shows "same_lending ch w ch' w'"
  using assms
  by (auto simp: ioss_debugfs_add_channel_def create_dir_files_def same_lending_def same_flags_def
      simp del: create_files.simps split: prod.splits if_splits dest: create_files_same)

lemma debugfs_remove_same:
  assumes "ioss_debugfs_remove_channel (lift_kern K) ch w = (ch', w')"
  shows "same_lending ch w ch' w'"
  using assms by (auto simp: ioss_debugfs_remove_channel_def same_lending_def same_flags_def)

text \<open>Lending a ring to a fresh channel, and taking it back.\<close>

lemma holds_ring_change:
  assumes "ring_change r tp tp'" "holds_ring tp ch" "ch_private ch \<noteq> Some r"
  shows "holds_ring tp' ch"
  using assms ring_change_get [OF assms(1)] ring_change_valid [OF assms(1)] unfolding holds_ring_def by fastforce

lemma holds_all_change:
  assumes "ring_change r tp tp'" "list_all (holds_ring tp) chs" "Some r \<notin> ch_private ` set chs"
  shows "list_all (holds_ring tp') chs"
  unfolding list_all_iff
proof
  fix c assume c: "c \<in> set chs"
  show "holds_ring tp' c"
    by (rule holds_ring_change [OF assms(1)]) (use assms(2,3) c in \<open>auto simp: list_all_iff image_iff\<close>)
qed

lemma not_lent_private:
  assumes "lending dn todo tp" "r \<notin> lent tp"
  shows "Some r \<notin> ch_private ` set dn"
proof -
  have "ch_private ` set dn = Some ` lent tp" using assms(1) by (simp add: lending_def)
  with assms(2) show ?thesis by (simp add: image_iff)
qed

lemma lending_borrow:
  assumes "lending dn (x # todo) tp" "valid_ref tp r" "r \<notin> lent tp" "ring_change r tp tp'"
    and "contig_ring (get_ring tp' r)" "ch_private x' = Some r" "allocated x'"
  shows "lending (dn @ [x']) todo tp'"
proof -
  from assms(1) have dn: "Some ` lent tp = ch_private ` set dn" by (simp add: lending_def)
  note fresh = not_lent_private [OF assms(1,3)]
  have "lent tp' = insert r (lent tp)"
    using lent_change [OF assms(4,2)] assms(5) by (simp add: contig_ring_def)
  moreover have "list_all (holds_ring tp') dn"
    using assms(1) by (intro holds_all_change [OF assms(4) _ fresh]) (simp add: lending_def)
  moreover have "holds_ring tp' x'"
    using assms(2,5,6,7) ring_change_valid [OF assms(4)] by (simp add: holds_ring_def)
  ultimately show ?thesis
    using assms(1,6) fresh dn ring_change_wf [OF assms(4)] by (auto simp: lending_def)
qed

lemma lending_return:
  assumes "lending (dn @ x # dn') todo tp" "ch_private x = Some r" "ring_change r tp tp'" "\<not> rg_allocated (get_ring tp' r)"
    and "idle_channel x'"
  shows "lending (dn @ dn') (x' # todo) tp'"
proof -
  from assms(1,2) have v: "valid_ref tp r" by (auto simp: lending_def holds_ring_def)
  have l: "lent tp' = lent tp - {r}" using lent_change [OF assms(3) v] assms(4) by simp
  from assms(1,2) have out: "Some r \<notin> ch_private ` set (dn @ dn')" by (auto simp: lending_def)
  have "list_all (holds_ring tp') (dn @ dn')"
    using assms(1) by (intro holds_all_change [OF assms(3) _ out]) (simp add: lending_def)
  moreover have "Some ` lent tp' = ch_private ` set (dn @ dn')"
  proof -
    have "Some ` lent tp' = Some ` lent tp - {Some r}" unfolding l by blast
    also have "\<dots> = ch_private ` set (dn @ dn')" using assms(1,2) out by (auto simp: lending_def)
    finally show ?thesis .
  qed
  ultimately show ?thesis
    using assms(1,5) ring_change_wf [OF assms(3)] by (auto simp: lending_def)
qed

lemma lending_same:
  assumes "lending dn (x # todo) tp" "lent tp' = lent tp" "ring_change r tp tp'" "r \<notin> lent tp" "idle_channel x'"
  shows "lending dn (x' # todo) tp'"
proof -
  have "list_all (holds_ring tp') dn"
    using assms(1) by (intro holds_all_change [OF assms(3) _ not_lent_private [OF assms(1,4)]]) (simp add: lending_def)
  with assms ring_change_wf [OF assms(3)] show ?thesis by (simp add: lending_def)
qed

lemma lending_unchanged:
  assumes "lending dn (x # todo) tp" "valid_ref tp r" "r \<notin> lent tp" "ring_change r tp tp'" "\<not> rg_allocated (get_ring tp' r)"
    and "idle_channel x'"
  shows "lending dn (x' # todo) tp'"
  using lent_change [OF assms(4,2)] assms(3,5) by (intro lending_same [OF assms(1) _ assms(4,3,6)]) simp

lemma alloc_channel_law:
  assumes E: "r8125_env D B K E" and R: "lending dn (x # todo) tp"
    and run: "ioss_net_alloc_channel E sp x (l, tp, k) = Some (rc, x', l', tp', k')"
  shows "if rc = 0 then lending (dn @ [x']) todo tp' else lending dn (x' # todo) tp'"
proof -
  have EK: "E_kern E = lift_kern K" and ops: "request_channel (E_ops E) = Some (r8125_ioss_request_channel D B K)"
      "release_channel (E_ops E) = Some (r8125_ioss_release_channel B K)"
      and D: "\<not> diag_skip_request_channel D" and B: "base_keeps B"
    using E by (simp_all add: r8125_env_def r8125_ioss_ops_def)
  have wf: "wf_rings tp" and fx: "idle_channel x" using R by (simp_all add: lending_def)
  obtain ch1 l1 tp1 k1 where sel: "ioss_net_select_channel_config E sp x l (tp, k) = (ch1, l1, tp1, k1)" by (metis prod_cases4)
  from select_config_same [OF EK sel] fx have ch1: "ch_private ch1 = None" "\<not> allocated ch1" and w1: "tp1 = tp"
    by (simp_all add: same_lending_def same_flags_def idle_channel_def)
  let ?q = "r8125_ioss_request_channel D B K ch1 (tp, k1)"
  obtain rc2 ch2 tp2 k2 where q: "?q = Some (rc2, ch2, tp2, k2)"
    using run sel w1 ops by (cases ?q) (auto simp: ioss_net_alloc_channel_def ioss_dev_op_def)
  from request_channel_effect [OF q D wf B, unfolded borrows_def] obtain r where r: "valid_ref tp r" "r \<notin> lent tp" "ring_change r tp tp2"
    "same_flags ch1 ch2" "if rc2 = 0 then ch_private ch2 = Some r \<and> contig_ring (get_ring tp2 r)
      else ch_private ch2 = None \<and> \<not> rg_allocated (get_ring tp2 r)" by blast
  show ?thesis
  proof (cases "rc2 = 0")
    case False
    then have "ioss_net_deselect_channel_config E ch2 l1 (tp2, k2) = (x', l', tp', k')" and rc: "rc = rc2"
      using run sel w1 ops q by (simp_all add: ioss_net_alloc_channel_def ioss_dev_op_def)
    from deselect_config_same [OF EK this(1)] r(4,5) ch1 False have "idle_channel x'" and "tp' = tp2"
      by (simp_all add: same_lending_def same_flags_def idle_channel_def)
    with lending_unchanged [OF R r(1-3)] r(5) False rc show ?thesis by simp
  next
    case True
    obtain rc3 ch3 tp3 k3 where a: "ioss_debugfs_add_channel (lift_kern K) (ch2\<lparr>allocated := True\<rparr>) (tp2, k2) = (rc3, ch3, tp3, k3)"
      by (metis prod_cases4)
    from debugfs_add_same [OF a] r(5) True have ch3: "ch_private ch3 = Some r" "allocated ch3" and w3: "tp3 = tp2"
      by (simp_all add: same_lending_def same_flags_def)
    have v2: "valid_ref tp2 r" "contig_ring (get_ring tp2 r)" using ring_change_valid [OF r(3)] r(1,5) True by simp_all
    show ?thesis
    proof (cases "rc3 = 0")
      case True
      then have "rc = 0" "x' = ch3" "tp' = tp2"
        using run sel w1 ops q \<open>rc2 = 0\<close> EK a w3 by (simp_all add: ioss_net_alloc_channel_def ioss_dev_op_def)
      with lending_borrow [OF R r(1-3) v2(2) ch3] show ?thesis by simp
    next
      case False
      from release_channel_effect [OF B ch3(1) v2, of K "k3"] obtain ch4 tp4 k4 where
        rel: "r8125_ioss_release_channel B K ch3 (tp2, k3) = Some (0, ch4, tp4, k4)" "ch_private ch4 = None"
          "ring_change r tp2 tp4" "\<not> rg_allocated (get_ring tp4 r)" by blast
      have "ioss_net_deselect_channel_config E (ch4\<lparr>allocated := False\<rparr>) l1 (tp4, k4) = (x', l', tp', k')" and rc: "rc = rc3"
        using run sel w1 ops q \<open>rc2 = 0\<close> EK a w3 rel(1) False
        by (simp_all add: ioss_net_alloc_channel_def ioss_dev_op_def)
      from deselect_config_same [OF EK this(1)] rel(2) have "idle_channel x'" and "tp' = tp4"
        by (simp_all add: same_lending_def same_flags_def idle_channel_def)
      with lending_unchanged [OF R r(1,2) ring_change_trans [OF r(3) rel(3)] rel(4)] False rc show ?thesis by simp
    qed
  qed
qed

lemma free_channel_law:
  assumes E: "r8125_env D B K E" and R: "lending (dn @ x # dn') todo tp"
  shows "\<exists>x' l' tp' k'. ioss_net_free_channel E x (l, tp, k) = Some (0, x', l', tp', k')
    \<and> lending (dn @ dn') (x' # todo) tp'"
proof -
  have EK: "E_kern E = lift_kern K" and ops: "release_channel (E_ops E) = Some (r8125_ioss_release_channel B K)"
      and B: "base_keeps B"
    using E by (simp_all add: r8125_env_def r8125_ioss_ops_def)
  obtain ch1 tp1 k1 where rm: "ioss_debugfs_remove_channel (lift_kern K) x (tp, k) = (ch1, tp1, k1)" by (metis prod_cases3)
  from R obtain r where r: "ch_private x = Some r" "valid_ref tp r" "contig_ring (get_ring tp r)"
    by (auto simp: lending_def holds_ring_def)
  from debugfs_remove_same [OF rm] r have ch1: "ch_private ch1 = Some r" and w1: "tp1 = tp" by (simp_all add: same_lending_def)
  from release_channel_effect [OF B ch1 r(2,3), of K k1] obtain ch2 tp2 k2 where
    rel: "r8125_ioss_release_channel B K ch1 (tp, k1) = Some (0, ch2, tp2, k2)" "ch_private ch2 = None"
      "ring_change r tp tp2" "\<not> rg_allocated (get_ring tp2 r)" by blast
  obtain x' l' tp' k' where ds: "ioss_net_deselect_channel_config E (ch2\<lparr>allocated := False\<rparr>) l (tp2, k2) = (x', l', tp', k')"
    by (metis prod_cases4)
  from deselect_config_same [OF EK ds] rel(2) have f: "idle_channel x'" "tp' = tp2"
    by (simp_all add: same_lending_def same_flags_def idle_channel_def)
  have "ioss_net_free_channel E x (l, tp, k) = Some (0, x', l', tp', k')"
    using rm w1 rel(1) ops EK ds by (simp add: ioss_net_free_channel_def ioss_dev_op_def)
  with lending_return [OF R r(1) rel(3,4) f(1)] f(2) show ?thesis by blast
qed

text \<open>The contract of the walk, met by this driver's channels.\<close>

definition lending_walk ::
  "(ring_ref, 'k r8125_world) net_env \<Rightarrow> diag_params \<Rightarrow> base_drv \<Rightarrow> 'k kern \<Rightarrow>
   ring_ref ioss_channel list \<Rightarrow> ring_ref ioss_channel list \<Rightarrow> llcc_state \<times> 'k r8125_world \<Rightarrow> bool" where
  "lending_walk E D B K dn todo s \<longleftrightarrow> r8125_env D B K E \<and> lending dn todo (fst (snd s))"

interpretation alloc: undoable "ioss_net_alloc_channel E sp" "drop_rc (ioss_net_free_channel E)" "lending_walk E D B K"
  for E :: "(ring_ref, 'k r8125_world) net_env" and sp and D and B and K :: "'k kern"
proof unfold_locales
  fix dn x todo and s :: "llcc_state \<times> 'k r8125_world" and rc x' and s' :: "llcc_state \<times> 'k r8125_world"
  assume "lending_walk E D B K dn (x # todo) s" "ioss_net_alloc_channel E sp x s = Some (rc, x', s')"
  then show "if rc = 0 then lending_walk E D B K (dn @ [x']) todo s' else lending_walk E D B K dn (x' # todo) s'"
    using alloc_channel_law [of D B K E dn x todo "fst (snd s)" sp "fst s" "snd (snd s)" rc x' "fst s'" "fst (snd s')" "snd (snd s')"]
    by (simp add: lending_walk_def)
next
  fix dn x todo and s :: "llcc_state \<times> 'k r8125_world"
  assume "lending_walk E D B K (dn @ [x]) todo s"
  then show "\<exists>x' s'. drop_rc (ioss_net_free_channel E) x s = Some (x', s') \<and> lending_walk E D B K dn (x' # todo) s'"
    using free_channel_law [of D B K E dn x "[]" todo "fst (snd s)" "fst s" "snd (snd s)"]
    by (auto simp: lending_walk_def drop_rc_def)
qed

lemma free_channels_law:
  assumes "r8125_env D B K E" "lending chs todo tp"
  shows "\<exists>chs' l' tp' k'. for_each_channel (ioss_net_free_channel E) chs (l, tp, k) 0 = Some (0, chs', l', tp', k')
    \<and> length chs' = length chs \<and> lending [] (rev chs' @ todo) tp'"
  using assms(2)
proof (induction chs arbitrary: l tp k todo)
  case Nil
  then show ?case by simp
next
  case (Cons x chs)
  from free_channel_law [OF assms(1), of "[]" x chs todo tp l k] Cons.prems obtain x' l1 tp1 k1 where
    f: "ioss_net_free_channel E x (l, tp, k) = Some (0, x', l1, tp1, k1)" "lending chs (x' # todo) tp1" by auto
  from Cons.IH [OF f(2), of l1 k1] obtain chs' l' tp' k' where
    "for_each_channel (ioss_net_free_channel E) chs (l1, tp1, k1) 0 = Some (0, chs', l', tp', k')"
    "length chs' = length chs" "lending [] (rev chs' @ x' # todo) tp'" by blast
  with f(1) show ?case by (auto simp: rc_or_def)
qed

section \<open>Properties\<close>

text \<open>
  Allocation on the Realtek driver is all or nothing. Starting from channels that hold nothing
  and a chip that has lent nothing, allocating the channels of an interface either gives every
  channel its own ring, with no other ring lent, or, on any failure part of the way (a memory
  list, a debugfs file), leaves every channel without a ring and no ring lent.
\<close>

theorem r8125_alloc_all_or_nothing:
  assumes "r8125_env D B K E" "wf_rings tp" "lent tp = {}" "list_all idle_channel chs"
    and "ioss_net_alloc_channels E sp chs (l, tp, k) = Some (rc, chs', l', tp', k')"
  shows "length chs' = length chs
    \<and> (if rc = 0 then list_all (holds_ring tp') chs' \<and> distinct (map ch_private chs') \<and> Some ` lent tp' = ch_private ` set chs'
       else list_all idle_channel chs' \<and> lent tp' = {})"
proof -
  have "lending_walk E D B K [] chs (l, tp, k)"
    using assms(1-4) by (simp add: lending_walk_def lending_def)
  from alloc.iter_all_or_nothing [OF this assms(5) [unfolded ioss_net_alloc_channels_def]] show ?thesis
    by (cases "rc = 0") (simp_all add: lending_walk_def lending_def)
qed

text \<open>
  Freeing the channels after a successful allocation always succeeds and returns every ring:
  the error path and the way off line leave the chip as they found it, and no operation on the
  way touches a ring that was not lent.
\<close>

theorem r8125_alloc_free_roundtrip:
  assumes "r8125_env D B K E" "wf_rings tp" "lent tp = {}" "list_all idle_channel chs"
    and "ioss_net_alloc_channels E sp chs (l, tp, k) = Some (0, chs', l', tp', k')"
  shows "\<exists>chs'' l'' tp'' k''. ioss_net_free_channels E chs' (l', tp', k') = Some (0, chs'', l'', tp'', k'')
    \<and> length chs'' = length chs \<and> list_all idle_channel chs'' \<and> lent tp'' = {} \<and> wf_rings tp''"
proof -
  have "lending_walk E D B K [] chs (l, tp, k)"
    using assms(1-4) by (simp add: lending_walk_def lending_def)
  from alloc.iter_all_or_nothing [OF this assms(5) [unfolded ioss_net_alloc_channels_def]]
  have "length chs' = length chs" "lending chs' [] tp'" by (simp_all add: lending_walk_def)
  with free_channels_law [OF assms(1), of chs' "[]" tp' l' k'] show ?thesis
    by (auto simp: ioss_net_free_channels_def lending_def)
qed

subsection \<open>Enabling\<close>

lemma set_enabled_get:
  "valid_ref tp r \<Longrightarrow> get_ring (set_enabled b r tp) x = (if x = r then (get_ring tp r)\<lparr>rg_enabled := b\<rparr> else get_ring tp x)"
  by (simp add: set_enabled_def get_put_ring valid_ref_def)

lemma set_enabled_valid [simp]: "valid_ref (set_enabled b r tp) x = valid_ref tp x"
  by (simp add: set_enabled_def)

lemma enable_ring_effect:
  assumes "base_keeps B" "valid_ref tp r" "rtl8125_enable_ring B (Some r) tp = (rc, tp')"
  shows "rc = 0 \<and> (\<forall>x. valid_ref tp' x = valid_ref tp x)
    \<and> (\<forall>x. get_ring tp' x = (if x = r then (get_ring tp r)\<lparr>rg_enabled := True\<rparr> else get_ring tp x))"
proof -
  let ?a = "bd_stop B tp"
  have s: "same_rings tp ?a" "same_rings (set_enabled True r ?a) tp'" and "rc = 0"
    using assms(1,3) by (auto simp: rtl8125_enable_ring_def base_keeps_def)
  with assms(2) show ?thesis
    using same_rings_get [OF s(1)] same_rings_valid [OF s(1)] same_rings_get [OF s(2)] same_rings_valid [OF s(2)]
    by (simp add: set_enabled_get)
qed

lemma disable_ring_effect:
  assumes "base_keeps B" "valid_ref tp r"
  defines "tp' \<equiv> rtl8125_disable_ring B (Some r) tp"
  shows "(\<forall>x. valid_ref tp' x = valid_ref tp x)
    \<and> (\<forall>x. get_ring tp' x = (if x = r then (get_ring tp r)\<lparr>rg_enabled := False\<rparr> else get_ring tp x))"
proof -
  have s: "same_rings tp (bd_hw_reset B tp)" using assms(1) by (simp add: base_keeps_def)
  with assms(2) show ?thesis
    using same_rings_get [OF s] same_rings_valid [OF s]
    by (simp add: set_enabled_get tp'_def rtl8125_disable_ring_def)
qed

text \<open>The enabled channels run on enabled rings, the others on disabled ones.\<close>

definition ring_on :: "bool \<Rightarrow> rtl_private \<Rightarrow> ring_ref ioss_channel \<Rightarrow> bool" where
  "ring_on b tp ch \<longleftrightarrow> (\<exists>r. ch_private ch = Some r \<and> valid_ref tp r \<and> rg_enabled (get_ring tp r) = b) \<and> enabled ch = b"

definition enabling_walk ::
  "(ring_ref, 'k r8125_world) net_env \<Rightarrow> diag_params \<Rightarrow> base_drv \<Rightarrow> 'k kern \<Rightarrow>
   ring_ref ioss_channel list \<Rightarrow> ring_ref ioss_channel list \<Rightarrow> 'k r8125_world \<Rightarrow> bool" where
  "enabling_walk E D B K dn todo w \<longleftrightarrow> r8125_env D B K E \<and> distinct (map ch_private (dn @ todo))
     \<and> list_all (ring_on True (fst w)) dn \<and> list_all (ring_on False (fst w)) todo"

lemma ring_on_switch:
  assumes "\<And>x. valid_ref tp' x = valid_ref tp x"
    and "\<And>x. get_ring tp' x = (if x = r then (get_ring tp r)\<lparr>rg_enabled := b\<rparr> else get_ring tp x)"
    and "Some r \<notin> ch_private ` set chs" "list_all (ring_on c tp) chs"
  shows "list_all (ring_on c tp') chs"
  unfolding list_all_iff
proof
  fix ch assume ch: "ch \<in> set chs"
  with assms(4) obtain x where "ch_private ch = Some x" "valid_ref tp x" "rg_enabled (get_ring tp x) = c" "enabled ch = c"
    by (auto simp: list_all_iff ring_on_def)
  moreover from this(1) assms(3) ch have "x \<noteq> r" by (auto simp: image_iff)
  ultimately show "ring_on c tp' ch" using assms(1,2) by (auto simp: ring_on_def)
qed

lemma enable_channel_step:
  assumes "enabling_walk E D B K dn (x # todo) w"
  shows "\<exists>w'. ioss_net_enable_channel E x w = Some (0, x\<lparr>enabled := True\<rparr>, w')
    \<and> enabling_walk E D B K (dn @ [x\<lparr>enabled := True\<rparr>]) todo w'"
proof -
  from assms have ops: "enable_channel (E_ops E) = Some (r8125_ioss_enable_channel D B)"
    and D: "\<not> diag_skip_enable_channel D" and B: "base_keeps B"
    by (simp_all add: enabling_walk_def r8125_env_def r8125_ioss_ops_def)
  from assms obtain r where r: "ch_private x = Some r" "valid_ref (fst w) r"
    by (auto simp: enabling_walk_def ring_on_def)
  obtain rc tp' where e: "rtl8125_enable_ring B (Some r) (fst w) = (rc, tp')" by (cases "rtl8125_enable_ring B (Some r) (fst w)")
  from enable_ring_effect [OF B r(2) e] have rc: "rc = 0" and v: "\<And>y. valid_ref tp' y = valid_ref (fst w) y"
    and g: "\<And>y. get_ring tp' y = (if y = r then (get_ring (fst w) r)\<lparr>rg_enabled := True\<rparr> else get_ring (fst w) y)" by blast+
  from assms r(1) have out: "Some r \<notin> ch_private ` set dn" "Some r \<notin> ch_private ` set todo"
    by (auto simp: enabling_walk_def)
  have "ioss_net_enable_channel E x w = Some (0, x\<lparr>enabled := True\<rparr>, tp', snd w)"
    using ops D e rc r(1) by (simp add: ioss_net_enable_channel_def ioss_dev_op_def r8125_ioss_enable_channel_def)
  moreover have "ring_on True tp' (x\<lparr>enabled := True\<rparr>)" using r v [of r] g [of r] by (simp add: ring_on_def)
  ultimately show ?thesis
    using assms ring_on_switch [OF v g out(1), of True] ring_on_switch [OF v g out(2), of False]
    by (simp add: enabling_walk_def)
qed

lemma disable_channel_step:
  assumes "enabling_walk E D B K (dn @ x # dn') todo w"
  shows "\<exists>w'. ioss_net_disable_channel E x w = Some (0, x\<lparr>enabled := False\<rparr>, w')
    \<and> enabling_walk E D B K (dn @ dn') (x\<lparr>enabled := False\<rparr> # todo) w'"
proof -
  from assms have ops: "disable_channel (E_ops E) = Some (r8125_ioss_disable_channel B)" and B: "base_keeps B"
    by (simp_all add: enabling_walk_def r8125_env_def r8125_ioss_ops_def)
  from assms obtain r where r: "ch_private x = Some r" "valid_ref (fst w) r"
    by (auto simp: enabling_walk_def ring_on_def)
  define tp' where "tp' = rtl8125_disable_ring B (Some r) (fst w)"
  from disable_ring_effect [OF B r(2)] have v: "\<And>y. valid_ref tp' y = valid_ref (fst w) y"
    and g: "\<And>y. get_ring tp' y = (if y = r then (get_ring (fst w) r)\<lparr>rg_enabled := False\<rparr> else get_ring (fst w) y)"
    unfolding tp'_def by blast+
  from assms r(1) have out: "Some r \<notin> ch_private ` set (dn @ dn')" "Some r \<notin> ch_private ` set todo"
    by (auto simp: enabling_walk_def)
  have "ioss_net_disable_channel E x w = Some (0, x\<lparr>enabled := False\<rparr>, tp', snd w)"
    using ops r(1) by (simp add: ioss_net_disable_channel_def ioss_dev_op_def r8125_ioss_disable_channel_def tp'_def)
  moreover have "ring_on False tp' (x\<lparr>enabled := False\<rparr>)" using r v [of r] g [of r] by (simp add: ring_on_def)
  moreover have "distinct (map ch_private ((dn @ dn') @ x\<lparr>enabled := False\<rparr> # todo))"
    using assms by (auto simp: enabling_walk_def)
  ultimately show ?thesis
    using assms ring_on_switch [OF v g out(1), of True] ring_on_switch [OF v g out(2), of False]
    by (simp add: enabling_walk_def)
qed

interpretation enabling: undoable_sure "ioss_net_enable_channel E" "drop_rc (ioss_net_disable_channel E)" "enabling_walk E D B K"
  for E :: "(ring_ref, 'k r8125_world) net_env" and D and B and K :: "'k kern"
proof unfold_locales
  fix dn x todo and s :: "'k r8125_world" and rc x' s'
  assume "enabling_walk E D B K dn (x # todo) s" "ioss_net_enable_channel E x s = Some (rc, x', s')"
  with enable_channel_step [of E D B K dn x todo s]
  show "if rc = 0 then enabling_walk E D B K (dn @ [x']) todo s' else enabling_walk E D B K dn (x' # todo) s'" by auto
next
  fix dn x todo and s :: "'k r8125_world"
  assume "enabling_walk E D B K (dn @ [x]) todo s"
  with disable_channel_step [of E D B K dn x "[]" todo s]
  show "\<exists>x' s'. drop_rc (ioss_net_disable_channel E) x s = Some (x', s') \<and> enabling_walk E D B K dn (x' # todo) s'"
    by (auto simp: drop_rc_def)
next
  fix dn x todo and s :: "'k r8125_world"
  assume "enabling_walk E D B K dn (x # todo) s"
  with enable_channel_step [of E D B K dn x todo s] show "\<exists>r. ioss_net_enable_channel E x s = Some r" by blast
next
  fix dn x todo and s :: "'k r8125_world" and rc x' s'
  assume "enabling_walk E D B K dn (x # todo) s" "ioss_net_enable_channel E x s = Some (rc, x', s')"
  with enable_channel_step [of E D B K dn x todo s] show "rc = 0" by auto
qed

lemma disable_channels_law:
  assumes "enabling_walk E D B K chs todo w"
  shows "\<exists>chs' w'. for_each_channel (ioss_net_disable_channel E) chs w 0 = Some (0, chs', w')
    \<and> length chs' = length chs \<and> enabling_walk E D B K [] (rev chs' @ todo) w'"
  using assms
proof (induction chs arbitrary: w todo)
  case (Cons x chs)
  from disable_channel_step [of E D B K "[]" x chs todo w] Cons.prems obtain w1 where
    d: "ioss_net_disable_channel E x w = Some (0, x\<lparr>enabled := False\<rparr>, w1)"
      "enabling_walk E D B K chs (x\<lparr>enabled := False\<rparr> # todo) w1" by auto
  from Cons.IH [OF d(2)] d(1) show ?case by (auto simp: rc_or_def)
qed simp

text \<open>
  Enabling always comes to an end with every channel running: for channels that hold distinct
  rings of the library, no step can fail or dereference NULL, and afterwards every channel is
  enabled and its ring is; disabling them afterwards also always succeeds and stops every ring.
\<close>

theorem r8125_enable_succeeds:
  assumes "r8125_env D B K E" "distinct (map ch_private chs)" "list_all (ring_on False (fst w)) chs"
  shows "\<exists>chs' w' chs'' w''. ioss_net_enable_channels E chs w = Some (0, chs', w') \<and> length chs' = length chs
    \<and> list_all (ring_on True (fst w')) chs'
    \<and> ioss_net_disable_channels E chs' w' = Some (0, chs'', w'') \<and> length chs'' = length chs
    \<and> list_all (ring_on False (fst w'')) chs''"
proof -
  have "enabling_walk E D B K [] chs w" using assms by (simp add: enabling_walk_def)
  from enabling.iter_success [OF this] obtain chs' w' where
    on: "ioss_net_enable_channels E chs w = Some (0, chs', w')" "length chs' = length chs" "enabling_walk E D B K chs' [] w'"
    by (auto simp: ioss_net_enable_channels_def)
  with disable_channels_law [OF on(3)] show ?thesis
    by (auto simp: ioss_net_disable_channels_def enabling_walk_def)
qed

subsection \<open>Examples\<close>

text \<open>A network driver that leaves everything alone, and the state machine on the demonstration chip.\<close>

definition rtl_env :: "(ring_ref, unit r8125_world) net_env" where
  "rtl_env = \<lparr>E_kern = lift_kern ok_kern, E_params = ipa_params_default, E_ipa = ok_ipa, E_ops = r8125_ioss_ops diag_none base_id ok_kern,
     max_ddr_bandwidth = 10000, disable_tcm = False, pm_control = (\<lambda>b w. (0, w)), device_register = (\<lambda>w. (0, w)),
     wakeup_source_register = (\<lambda>w. (True, w)), register_netdevice_notifier = (\<lambda>w. (0, w)),
     unregister_netdevice_notifier = (\<lambda>w. (0, w)), set_wol = None\<rparr>"

definition rtl_channel :: "channel_dir \<Rightarrow> ring_ref ioss_channel" where
  "rtl_channel d = channel_zero\<lparr>direction := d, default_config := \<lparr>ring_size = 2, buff_size = 2048, desc_alctr = Some Default_alctr,
     buff_alctr = Some Default_alctr\<rparr>\<rparr>"

lemma rtl_env_ok: "r8125_env diag_none base_id ok_kern rtl_env"
  by (simp add: r8125_env_def rtl_env_def diag_none_def base_keeps_def base_id_def)

lemma demo_chip_idle: "lent demo_chip = {}"
  by (auto simp: lent_def valid_ref_def demo_chip_def lib_range_def lib_rings_def get_ring_def ring_zero_def split: channel_dir.splits)

lemma rtl_channel_idle: "list_all idle_channel [rtl_channel CH_DIR_RX, rtl_channel CH_DIR_TX]"
  by (simp add: idle_channel_def rtl_channel_def channel_zero_def)

lemmas rtl_eval = chip_eval rtl_env_def rtl_channel_def channel_zero_def config_zero_def ioss_net_alloc_channels_def ioss_net_alloc_channel_def
  ioss_net_select_channel_config_def ioss_dev_op_def r8125_ioss_ops_def r8125_ioss_request_channel_def diag_none_def
  ioss_channel_add_desc_mem_def ioss_channel_add_buff_mem_def ioss_channel_add_mem_def ioss_debugfs_add_channel_def
  create_dir_files_def lift_kern_def lift_fun_def

theorem r8125_alloc_all_or_nothing_witness:
  "fst (the (ioss_net_alloc_channels rtl_env 1000 [rtl_channel CH_DIR_RX, rtl_channel CH_DIR_TX] (no_tcm, demo_chip, ()))) = 0
   \<and> lent (fst (snd (snd (snd (the (ioss_net_alloc_channels rtl_env 1000 [rtl_channel CH_DIR_RX, rtl_channel CH_DIR_TX] (no_tcm, demo_chip, ()))))))) \<noteq> {}"
proof -
  let ?a = "ioss_net_alloc_channels rtl_env 1000 [rtl_channel CH_DIR_RX, rtl_channel CH_DIR_TX] (no_tcm, demo_chip, ())"
  obtain chs l tp where a: "?a = Some (0, chs, l, tp, ())" by (simp add: rtl_eval)
  from r8125_alloc_all_or_nothing [OF rtl_env_ok wf_demo_chip demo_chip_idle rtl_channel_idle a]
  have "length chs = 2" "Some ` lent tp = ch_private ` set chs" by simp_all
  then have "lent tp \<noteq> {}" by auto
  with a show ?thesis by simp
qed

theorem r8125_alloc_free_roundtrip_witness:
  "\<exists>chs l tp. ioss_net_alloc_channels rtl_env 1000 [rtl_channel CH_DIR_RX, rtl_channel CH_DIR_TX] (no_tcm, demo_chip, ()) = Some (0, chs, l, tp, ())
     \<and> (\<exists>chs' l' tp'. ioss_net_free_channels rtl_env chs (l, tp, ()) = Some (0, chs', l', tp', ()) \<and> lent tp' = {})"
proof -
  let ?a = "ioss_net_alloc_channels rtl_env 1000 [rtl_channel CH_DIR_RX, rtl_channel CH_DIR_TX] (no_tcm, demo_chip, ())"
  obtain chs l tp where a: "?a = Some (0, chs, l, tp, ())" by (simp add: rtl_eval)
  from r8125_alloc_free_roundtrip [OF rtl_env_ok wf_demo_chip demo_chip_idle rtl_channel_idle a] a show ?thesis by auto
qed

theorem r8125_enable_succeeds_witness:
  "\<exists>chs w. ioss_net_enable_channels rtl_env [(rtl_channel CH_DIR_RX)\<lparr>ch_private := Some (CH_DIR_RX, 1)\<rparr>] (demo_chip, ()) = Some (0, chs, w)
     \<and> rg_enabled (get_ring (fst w) (CH_DIR_RX, 1))"
proof -
  let ?c = "(rtl_channel CH_DIR_RX)\<lparr>ch_private := Some (CH_DIR_RX, 1)\<rparr>"
  have off: "list_all (ring_on False (fst (demo_chip, ()))) [?c]"
    by (simp add: ring_on_def valid_ref_def rtl_channel_def channel_zero_def demo_chip_def lib_range_def lib_rings_def get_ring_def ring_zero_def)
  have "distinct (map ch_private [?c])" by simp
  from r8125_enable_succeeds [OF rtl_env_ok this off] obtain chs w where
    e: "ioss_net_enable_channels rtl_env [?c] (demo_chip, ()) = Some (0, chs, w)" by blast
  then have "rg_enabled (get_ring (fst w) (CH_DIR_RX, 1))"
    by (auto simp: ioss_net_enable_channels_def ioss_net_enable_channel_def ioss_dev_op_def rtl_eval r8125_ioss_enable_channel_def
        rtl8125_enable_ring_def set_enabled_def base_id_def)
  with e show ?thesis by blast
qed

section \<open>Traffic steering\<close>

lemma fields_frame [simp]:
  "wf_rss (put_ring r g tp) = wf_rss tp" "num_rx_rings (put_ring r g tp) = num_rx_rings tp"
  "wf_rss (tp\<lparr>irq_on := q\<rparr>) = wf_rss tp" "mmio (put_ring r g tp) = mmio tp" "irq_on (put_ring r g tp) = irq_on tp"
  by (auto simp: wf_rss_def put_ring_def split: channel_dir.splits)

lemma timer_frame [simp]:
  "wf_rss (rtl8125_hw_set_timer_int_8125 m v tp) = wf_rss tp" "num_rx_rings (rtl8125_hw_set_timer_int_8125 m v tp) = num_rx_rings tp"
  "irq_on (rtl8125_hw_set_timer_int_8125 m v tp) = irq_on tp"
  "get_ring (rtl8125_hw_set_timer_int_8125 m v tp) r = get_ring tp r" "valid_ref (rtl8125_hw_set_timer_int_8125 m v tp) r = valid_ref tp r"
  by (auto simp: rtl8125_hw_set_timer_int_8125_def RTL_W8_def Let_def get_ring_def lib_rings_def valid_ref_def lib_range_def
      split: channel_dir.splits)

lemma irq_frame [simp]: "get_ring (tp\<lparr>irq_on := q\<rparr>) r = get_ring tp r" "valid_ref (tp\<lparr>irq_on := q\<rparr>) r = valid_ref tp r"
  by (auto simp: get_ring_def lib_rings_def valid_ref_def lib_range_def split: channel_dir.splits)

lemma event_frame [simp]:
  "wf_rss (set_event r e tp) = wf_rss tp" "num_rx_rings (set_event r e tp) = num_rx_rings tp" "mmio (set_event r e tp) = mmio tp"
  "irq_on (set_event r e tp) = irq_on tp" "valid_ref (set_event r e tp) r' = valid_ref tp r'"
  by (simp_all add: set_event_def)

lemma get_set_event: "valid_ref tp r \<Longrightarrow> get_ring (set_event r e tp) r = (get_ring tp r)\<lparr>rg_event := e\<rparr>"
  unfolding set_event_def by (subst get_put_ring) (simp_all add: valid_ref_def)

lemma enable_event_run:
  assumes "valid_ref tp r" "re_allocated (rg_event (get_ring tp r))"
  shows "\<exists>tp'. rtl8125_enable_event (Some r) tp = Some (0, tp') \<and> irq_on tp' (re_message_id (rg_event (get_ring tp r)))
    \<and> wf_rss tp' = wf_rss tp \<and> num_rx_rings tp' = num_rx_rings tp \<and> valid_ref tp' r
    \<and> get_ring tp' r = (get_ring tp r)\<lparr>rg_event := (rg_event (get_ring tp r))\<lparr>re_enabled := True\<rparr>\<rparr>"
  using assms by (simp add: rtl8125_enable_event_def rtl8125_set_ring_intr_mod_def Let_def get_set_event)

text \<open>
  C22. Enabling the event of a receive channel that filters IP turns the whole received traffic to
  the channel's ring, and disabling it turns it back: both succeed, after the first every entry of
  the chip's spreading table names the lent ring and its interrupt message is on, after the second
  the message is off and the table spreads over the network driver's own rings.
\<close>

theorem event_steers_traffic:
  assumes "filter_types ch = RXF_F_IP" "direction ch = CH_DIR_RX" "ch_private ch = Some r" "\<not> diag_skip_enable_event D"
    and "valid_ref tp r" "re_allocated (rg_event (get_ring tp r))" "wf_rss tp" "40 \<le> length (bd_rss_key B)"
  defines "mid \<equiv> re_message_id (rg_event (get_ring tp r))"
  shows "\<exists>tp1 tp2. r8125_ioss_enable_event D B ch (tp, k) = Some (0, ch, tp1, k)
    \<and> irq_on tp1 mid \<and> list_all (\<lambda>i. chip_byte (mmio tp1) 0x4700 i = ucast (queue_num (get_ring tp r))) [0 ..< 128]
    \<and> r8125_ioss_disable_event B ch (tp1, k) = Some (0, ch, tp2, k)
    \<and> \<not> irq_on tp2 mid \<and> list_all (\<lambda>i. chip_byte (mmio tp2) 0x4700 i = of_nat (i mod num_rx_rings tp)) [0 ..< 128]"
proof -
  let ?g = "get_ring tp r"
  obtain tp0 where on: "rtl8125_enable_event (Some r) tp = Some (0, tp0)" "irq_on tp0 mid" "wf_rss tp0" "num_rx_rings tp0 = num_rx_rings tp"
      "get_ring tp0 r = ?g\<lparr>rg_event := (rg_event ?g)\<lparr>re_enabled := True\<rparr>\<rparr>" "valid_ref tp0 r"
    using enable_event_run [OF assms(5,6)] assms(7) by (auto simp: mid_def)
  obtain tp1 where rd: "rtl8125_rss_redirect (Some r) tp0 = Some (0, tp1)" by (simp add: rtl8125_rss_redirect_def Let_def)
  have same: "same_rings tp0 tp1" by (rule redirect_same [OF rd])
  have tp1: "irq_on tp1 = irq_on tp0" "num_rx_rings tp1 = num_rx_rings tp" "wf_rss tp1"
    using redirect_frame [OF rd] on(4) redirect_mirror [OF rd on(3)] by (simp_all add: rss_mirror_def)
  obtain rc tpr where rs: "rtl8125_rss_reset B tp1 = (rc, tpr)" by fastforce
  have g: "get_ring tpr r = get_ring tp0 r"
    using same_rings_get [OF same] same_rings_get [OF reset_same [OF rs]] by simp
  let ?tp2 = "set_event r ((rg_event ?g)\<lparr>re_enabled := False\<rparr>) (tpr\<lparr>irq_on := (irq_on tpr)(mid := False)\<rparr>)"
  have en: "r8125_ioss_enable_event D B ch (tp, k) = Some (0, ch, tp1, k)"
    using assms(1-4) on(1) rd by (simp add: r8125_ioss_enable_event_def r8125_ioss_enable_filters_def Let_def)
  have dis: "r8125_ioss_disable_event B ch (tp1, k) = Some (0, ch, ?tp2, k)"
    using assms(1-3,6) rs g on(5)
    by (simp add: r8125_ioss_disable_event_def r8125_ioss_disable_filters_def rtl8125_rss_reset_def rtl8125_disable_event_def Let_def mid_def)
  have "chip_byte (mmio tp1) 0x4700 i = ucast (queue_num ?g)" if "i < 128" for i
    using redirect_table [OF rd on(3) that] on(5) by simp
  moreover have "chip_byte (mmio ?tp2) 0x4700 i = of_nat (i mod num_rx_rings tp)" if "i < 128" for i
    using reset_table [OF rs tp1(3) assms(8) that] tp1(2) by simp
  ultimately show ?thesis
    using en dis on(2) tp1(1) by (intro exI [where x = tp1] exI [where x = ?tp2]) (simp add: list_all_iff)
qed

theorem event_steers_traffic_witness:
  "\<exists>tp1. r8125_ioss_enable_event diag_none base_id ((rtl_channel CH_DIR_RX)\<lparr>ch_private := Some (CH_DIR_RX, 1), filter_types := 2\<rparr>)
       (set_event (CH_DIR_RX, 1) \<lparr>re_addr = 0, re_data = 0, re_allocated = True, re_enabled = False, re_message_id = 1, re_delay = 0\<rparr> demo_chip, ())
     = Some (0, (rtl_channel CH_DIR_RX)\<lparr>ch_private := Some (CH_DIR_RX, 1), filter_types := 2\<rparr>, tp1, ())
     \<and> chip_byte (mmio tp1) 0x4700 5 = 1"
proof -
  let ?e = "\<lparr>re_addr = 0, re_data = 0, re_allocated = True, re_enabled = False, re_message_id = 1, re_delay = 0\<rparr>"
  let ?ch = "(rtl_channel CH_DIR_RX)\<lparr>ch_private := Some (CH_DIR_RX, 1), filter_types := 2\<rparr>"
  have v: "valid_ref demo_chip (CH_DIR_RX, 1)" by (simp add: valid_ref_def demo_chip_def lib_range_def lib_rings_def)
  have q: "queue_num (get_ring demo_chip (CH_DIR_RX, 1)) = 1" by (simp add: demo_chip_def get_ring_def lib_rings_def ring_zero_def)
  have "direction ?ch = CH_DIR_RX" by (simp add: rtl_channel_def)
  with event_steers_traffic [of ?ch "(CH_DIR_RX, 1)" diag_none "set_event (CH_DIR_RX, 1) ?e demo_chip" base_id "()"] v q demo_chip_wf_rss
  show ?thesis by (auto simp: get_set_event diag_none_def base_id_def list_all_iff)
qed

end
