(* ===== verification/R8125_Online.thy ===== *)
theory R8125_Online
  imports R8125_Ioss
begin

text \<open>
  The interface state machine running on the Realtek driver, from the first ring request to the
  interface being on line and back: no step of the way loses a ring.
\<close>

unbundle bit_operations_syntax

section \<open>What keeps the loans\<close>

text \<open>The part of a channel and of the chip that says which ring is lent to whom.\<close>

definition own :: "ring_ref ioss_channel \<Rightarrow> ring_ref option \<times> bool" where
  "own ch = (ch_private ch, allocated ch)"

definition mem_keeps :: "rtl_private \<Rightarrow> rtl_private \<Rightarrow> bool" where
  "mem_keeps tp tp' \<longleftrightarrow> wf_rings tp' = wf_rings tp \<and> (\<forall>r. valid_ref tp' r = valid_ref tp r)
     \<and> (\<forall>r. valid_ref tp r \<longrightarrow> rg_allocated (get_ring tp' r) = rg_allocated (get_ring tp r)
              \<and> rg_flags (get_ring tp' r) = rg_flags (get_ring tp r) \<and> rg_bufs (get_ring tp' r) = rg_bufs (get_ring tp r))"

lemma mem_keeps_refl [simp, intro]: "mem_keeps tp tp"
  by (simp add: mem_keeps_def)

lemma mem_keeps_trans [trans]: "mem_keeps a b \<Longrightarrow> mem_keeps b c \<Longrightarrow> mem_keeps a c"
  by (simp add: mem_keeps_def)

lemma mem_keeps_same: "same_rings tp tp' \<Longrightarrow> mem_keeps tp tp'"
  by (simp add: mem_keeps_def same_rings_get same_rings_valid) (simp add: same_rings_def)

lemma mem_keeps_put:
  assumes "rg_allocated g = rg_allocated (get_ring tp r)" "rg_flags g = rg_flags (get_ring tp r)" "rg_bufs g = rg_bufs (get_ring tp r)"
  shows "mem_keeps tp (put_ring r g tp)"
proof -
  have "get_ring (put_ring r g tp) x = get_ring tp x \<or> x = r \<and> get_ring (put_ring r g tp) x = g" for x
  proof (cases "snd r < length (lib_rings (fst r) tp)")
    case False
    then have "get_ring (put_ring r g tp) x = get_ring tp x"
      by (cases "fst x = fst r") (simp_all add: get_ring_def lib_rings_put list_update_beyond)
    then show ?thesis by simp
  qed (simp add: get_put_ring)
  then show ?thesis using assms unfolding mem_keeps_def by (metis valid_put wf_put)
qed

lemma mem_keeps_wf: "mem_keeps tp tp' \<Longrightarrow> wf_rings tp' = wf_rings tp"
  unfolding mem_keeps_def by blast

lemma mem_keeps_lent: "mem_keeps tp tp' \<Longrightarrow> lent tp' = lent tp"
  unfolding lent_def mem_keeps_def by blast

lemma mem_keeps_contig: "mem_keeps tp tp' \<Longrightarrow> valid_ref tp r \<Longrightarrow> contig_ring (get_ring tp r) \<Longrightarrow> contig_ring (get_ring tp' r)"
  unfolding mem_keeps_def contig_ring_def by metis

lemma holds_own:
  assumes "mem_keeps tp tp'" "own ch' = own ch" "holds_ring tp ch"
  shows "holds_ring tp' ch'"
proof -
  from assms(3) obtain r where r: "allocated ch" "ch_private ch = Some r" "valid_ref tp r" "contig_ring (get_ring tp r)"
    by (auto simp: holds_ring_def)
  moreover have "valid_ref tp' r" using assms(1) r(3) unfolding mem_keeps_def by blast
  ultimately show ?thesis using assms(2) mem_keeps_contig [OF assms(1) r(3,4)] by (simp add: holds_ring_def own_def)
qed

lemma lending_own:
  assumes "lending chs [] tp" "mem_keeps tp tp'" "map own chs' = map own chs"
  shows "lending chs' [] tp'"
proof -
  have p: "map ch_private chs' = map ch_private chs"
    using arg_cong [OF assms(3), of "map fst"] by (simp add: own_def comp_def)
  then have "ch_private ` set chs' = ch_private ` set chs" by (metis list.set_map)
  moreover have "list_all (holds_ring tp') chs'"
  proof -
    have len: "length chs' = length chs" using assms(3) by (rule map_eq_imp_length_eq)
    have "own (chs' ! i) = own (chs ! i)" if "i < length chs" for i
      using arg_cong [OF assms(3), of "\<lambda>xs. xs ! i"] that len by simp
    with len have "list_all2 (\<lambda>a b. own b = own a) chs chs'" by (simp add: list_all2_conv_all_nth)
    moreover have "list_all (holds_ring tp) chs" using assms(1) by (simp add: lending_def)
    ultimately show ?thesis
      by (induction rule: list_all2_induct) (auto intro: holds_own [OF assms(2)])
  qed
  ultimately show ?thesis
    using assms(1) p mem_keeps_lent [OF assms(2)] mem_keeps_wf [OF assms(2)] by (simp add: lending_def)
qed

lemma lending_no_todo: "lending [] chs tp \<longleftrightarrow> wf_rings tp \<and> list_all idle_channel chs \<and> lent tp = {}"
  by (auto simp: lending_def)

section \<open>Operations on one channel\<close>

text \<open>An operation that, on a channel with a ring, moves no loan.\<close>

definition op_keeps :: "(ring_ref, 'k r8125_world) chan_op \<Rightarrow> bool" where
  "op_keeps f \<longleftrightarrow> (\<forall>ch w rc ch' w'. ch_private ch \<noteq> None \<longrightarrow> f ch w = Some (rc, ch', w') \<longrightarrow>
     own ch' = own ch \<and> mem_keeps (fst w) (fst w'))"

lemma op_keepsD: "op_keeps f \<Longrightarrow> ch_private ch \<noteq> None \<Longrightarrow> f ch w = Some (rc, ch', w') \<Longrightarrow> own ch' = own ch \<and> mem_keeps (fst w) (fst w')"
  unfolding op_keeps_def by blast

lemma own_private: "own ch' = own ch \<Longrightarrow> ch_private ch' = ch_private ch"
  by (simp add: own_def)

lemma own_upd [simp]: "own (ch\<lparr>event := e\<rparr>) = own ch" "own (ch\<lparr>enabled := b\<rparr>) = own ch" "own (ch\<lparr>ipa_pi := p\<rparr>) = own ch"
  by (simp_all add: own_def)

text \<open>The steps the library takes, appended to a path that keeps the memory.\<close>

lemma keeps_steps [intro!]:
  assumes "mem_keeps tp a"
  shows "mem_keeps tp (set_event r e a)" "mem_keeps tp (set_enabled b r a)" "mem_keeps tp (a\<lparr>mmio := m\<rparr>)"
    "mem_keeps tp (a\<lparr>irq_on := q\<rparr>)" "mem_keeps tp (a\<lparr>rss_indir_tbl := f\<rparr>)" "mem_keeps tp (msix_write u c d a)"
proof -
  show "mem_keeps tp (set_event r e a)" "mem_keeps tp (set_enabled b r a)"
    unfolding set_event_def set_enabled_def by (rule mem_keeps_trans [OF assms], rule mem_keeps_put; simp)+
  show "mem_keeps tp (a\<lparr>mmio := m\<rparr>)" "mem_keeps tp (a\<lparr>irq_on := q\<rparr>)" "mem_keeps tp (a\<lparr>rss_indir_tbl := f\<rparr>)" "mem_keeps tp (msix_write u c d a)"
    by (rule mem_keeps_trans [OF assms], rule mem_keeps_same, simp add: msix_write_def)+
qed

lemma base_keeps_mem:
  assumes "base_keeps B" "mem_keeps tp a"
  shows "mem_keeps tp (bd_stop B a)" "mem_keeps tp (bd_start B a)" "mem_keeps tp (bd_hw_reset B a)"
  by (rule mem_keeps_trans [OF assms(2)], rule mem_keeps_same, use assms(1) in \<open>simp add: base_keeps_def\<close>)+

lemma hw_timer_keeps [intro!]: "mem_keeps tp a \<Longrightarrow> mem_keeps tp (rtl8125_hw_set_timer_int_8125 m v a)"
  by (auto simp: rtl8125_hw_set_timer_int_8125_def RTL_W8_def)

lemma request_event_keeps: "rtl8125_request_event r f a d tp = (rc, tp') \<Longrightarrow> mem_keeps tp tp'"
  by (auto simp: rtl8125_request_event_def Let_def split: option.splits if_splits)

lemma release_event_keeps: "rtl8125_release_event r tp = Some tp' \<Longrightarrow> mem_keeps tp tp'"
  by (auto simp: rtl8125_release_event_def Let_def split: option.splits if_splits)

lemma intr_mod_keeps: "rtl8125_set_ring_intr_mod r d tp = Some (rc, tp') \<Longrightarrow> mem_keeps tp tp'"
  by (auto simp: rtl8125_set_ring_intr_mod_def Let_def split: option.splits if_splits)

lemma disable_event_keeps: "rtl8125_disable_event r tp = Some (rc, tp') \<Longrightarrow> mem_keeps tp tp'"
  by (auto simp: rtl8125_disable_event_def Let_def split: option.splits if_splits)

lemma enable_event_keeps: "rtl8125_enable_event r tp = Some (rc, tp') \<Longrightarrow> mem_keeps tp tp'"
  by (auto simp: rtl8125_enable_event_def Let_def split: option.splits if_splits bind_splits dest!: intr_mod_keeps)

lemma map_event_own: "ioss_channel_map_event K ch k = (rc, ch', k') \<Longrightarrow> own ch' = own ch"
  by (auto simp: ioss_channel_map_event_def split: if_splits prod.splits)

lemma unmap_event_own: "ioss_channel_unmap_event K ch k = (ch', k') \<Longrightarrow> own ch' = own ch"
  by (auto simp: ioss_channel_unmap_event_def split: if_splits)

lemma op_keepsI:
  assumes "\<And>ch tp k rc ch' tp' k'. ch_private ch \<noteq> None \<Longrightarrow> f ch (tp, k) = Some (rc, ch', tp', k') \<Longrightarrow> own ch' = own ch \<and> mem_keeps tp tp'"
  shows "op_keeps f"
  unfolding op_keeps_def
proof (intro allI impI)
  fix ch w rc ch' w' assume "ch_private ch \<noteq> None" "f ch w = Some (rc, ch', w')"
  then show "own ch' = own ch \<and> mem_keeps (fst w) (fst w')"
    using assms [of ch "fst w" "snd w" rc ch' "fst w'" "snd w'"] by simp
qed

lemma glue_request_event: "op_keeps (r8125_ioss_request_event D K)"
proof (rule op_keepsI)
  fix ch tp k rc ch' tp' k'
  assume run: "r8125_ioss_request_event D K ch (tp, k) = Some (rc, ch', tp', k')"
  obtain e ch1 k1 where m: "ioss_channel_map_event K ch k = (e, ch1, k1)" by (metis prod_cases3)
  obtain ch2 k2 where u: "ioss_channel_unmap_event K ch1 k1 = (ch2, k2)" by (metis prod.exhaust)
  obtain e2 tp2 where r: "rtl8125_request_event (ch_private ch1) 1 (ev_daddr (event ch1)) (ev_data (event ch1)) tp = (e2, tp2)"
    by (metis prod.exhaust)
  note keep = request_event_keeps [OF r]
  show "own ch' = own ch \<and> mem_keeps tp tp'"
    using run m u r keep map_event_own [OF m] unmap_event_own [OF u]
    by (auto simp: r8125_ioss_request_event_def Let_def split: if_splits bind_splits
        dest!: intr_mod_keeps release_event_keeps intro: mem_keeps_trans)
qed

lemma glue_release_event: "op_keeps (r8125_ioss_release_event K)"
  by (rule op_keepsI)
    (auto simp: r8125_ioss_release_event_def split: bind_splits prod.splits dest!: release_event_keeps unmap_event_own)

lemma redirect_keeps: "rtl8125_rss_redirect r tp = Some (rc, tp') \<Longrightarrow> mem_keeps tp tp'"
  by (rule mem_keeps_same, erule redirect_same)

lemma reset_keeps: "mem_keeps tp a \<Longrightarrow> mem_keeps tp (snd (rtl8125_rss_reset B a))"
  by (erule mem_keeps_trans, rule mem_keeps_same, rule reset_same [where rc = "fst (rtl8125_rss_reset B a)"]) simp

lemma enable_filters_keeps: "r8125_ioss_enable_filters B ch tp = Some (rc, tp') \<Longrightarrow> mem_keeps tp tp'"
  by (auto simp: r8125_ioss_enable_filters_def Let_def split: if_splits bind_splits
      dest!: redirect_keeps intro: reset_keeps)

lemma disable_filters_keeps: "r8125_ioss_disable_filters B ch tp = (rc, tp') \<Longrightarrow> mem_keeps tp tp'"
  using reset_keeps [of tp tp B] by (auto simp: r8125_ioss_disable_filters_def split: if_splits prod.splits)

lemma glue_enable_event:
  assumes "base_keeps B"
  shows "op_keeps (r8125_ioss_enable_event D B)"
  by (rule op_keepsI)
    (auto simp: r8125_ioss_enable_event_def split: if_splits bind_splits
      dest!: enable_event_keeps enable_filters_keeps disable_event_keeps, (meson mem_keeps_trans)+)

lemma glue_disable_event: "base_keeps B \<Longrightarrow> op_keeps (r8125_ioss_disable_event B)"
  by (rule op_keepsI)
    (auto simp: r8125_ioss_disable_event_def split: if_splits bind_splits prod.splits
      dest!: disable_filters_keeps disable_event_keeps intro: mem_keeps_trans)

lemma glue_enable_channel:
  assumes "base_keeps B" "ch_private ch \<noteq> None" "r8125_ioss_enable_channel D B ch w = Some (rc, ch', w')"
  shows "rc = 0 \<and> ch' = ch \<and> mem_keeps (fst w) (fst w')"
  using assms(2,3)
  by (auto simp: r8125_ioss_enable_channel_def rtl8125_enable_ring_def split: if_splits intro!: base_keeps_mem [OF assms(1)])

section \<open>Operations of the state machine\<close>

lemma env_ops:
  assumes "r8125_env D B K E"
  shows "enable_channel (E_ops E) = Some (r8125_ioss_enable_channel D B)" "disable_channel (E_ops E) = Some (r8125_ioss_disable_channel B)"
    "request_event (E_ops E) = Some (r8125_ioss_request_event D K)" "release_event (E_ops E) = Some (r8125_ioss_release_event K)"
    "enable_event (E_ops E) = Some (r8125_ioss_enable_event D B)" "disable_event (E_ops E) = Some (r8125_ioss_disable_event B)"
    "base_keeps B" "E_kern E = lift_kern K"
  using assms by (simp_all add: r8125_env_def r8125_ioss_ops_def)

lemma net_enable_channel_keeps: "r8125_env D B K E \<Longrightarrow> op_keeps (ioss_net_enable_channel E)"
  by (rule op_keepsI)
    (auto simp: ioss_net_enable_channel_def ioss_dev_op_def env_ops split: bind_splits if_splits
      dest!: glue_enable_channel [OF env_ops(7)])

lemma net_disable_channel_keeps: "r8125_env D B K E \<Longrightarrow> op_keeps (ioss_net_disable_channel E)"
  by (rule op_keepsI)
    (auto simp: ioss_net_disable_channel_def ioss_dev_op_def env_ops r8125_ioss_disable_channel_def rtl8125_disable_ring_def
      split: bind_splits if_splits intro!: base_keeps_mem env_ops(7))

lemma net_setup_event_keeps:
  assumes "r8125_env D B K E"
  shows "op_keeps (ioss_net_setup_event E)"
proof (rule op_keepsI)
  fix ch tp k rc ch' tp' k'
  assume p: "ch_private ch \<noteq> None" and run: "ioss_net_setup_event E ch (tp, k) = Some (rc, ch', tp', k')"
  note q = op_keepsD [OF glue_request_event] and e = op_keepsD [OF glue_enable_event [OF env_ops(7) [OF assms]]]
    and l = op_keepsD [OF glue_release_event]
  from run env_ops [OF assms] obtain rc1 ch1 tp1 k1 where 1: "r8125_ioss_request_event D K ch (tp, k) = Some (rc1, ch1, tp1, k1)"
    by (auto simp: ioss_net_setup_event_def ioss_dev_op_def split: bind_splits)
  from q [OF p 1] have k1: "own ch1 = own ch" "mem_keeps tp tp1" by simp_all
  show "own ch' = own ch \<and> mem_keeps tp tp'"
  proof (cases "rc1 = 0")
    case False
    with run 1 env_ops [OF assms] k1 show ?thesis by (simp add: ioss_net_setup_event_def ioss_dev_op_def)
  next
    case True
    let ?ch = "ch1\<lparr>event := (event ch1)\<lparr>ev_allocated := True\<rparr>\<rparr>"
    from run 1 True env_ops [OF assms] obtain rc2 ch2 tp2 k2 where 2: "r8125_ioss_enable_event D B ?ch (tp1, k1) = Some (rc2, ch2, tp2, k2)"
      by (auto simp: ioss_net_setup_event_def ioss_dev_op_def split: bind_splits)
    have p1: "ch_private ?ch \<noteq> None" using own_private [OF k1(1)] p by simp
    from e [OF p1 2] k1 have k2: "own ch2 = own ch" "mem_keeps tp tp2" by (auto intro: mem_keeps_trans)
    have p2: "ch_private ch2 \<noteq> None" using own_private [OF k2(1)] p by simp
    show ?thesis
    proof (cases "rc2 = 0")
      case False
      with run 1 True 2 env_ops [OF assms] obtain e3 where
        "r8125_ioss_release_event K ch2 (tp2, k2) = Some (e3, ch', tp', k')"
        by (auto simp: ioss_net_setup_event_def ioss_dev_op_def split: bind_splits)
      from l [OF p2 this] k2 show ?thesis by (auto intro: mem_keeps_trans)
    qed (use run 1 True 2 env_ops [OF assms] k2 in \<open>auto simp: ioss_net_setup_event_def ioss_dev_op_def\<close>)
  qed
qed

lemma net_teardown_event_keeps:
  assumes "r8125_env D B K E"
  shows "op_keeps (ioss_net_teardown_event E)"
proof (rule op_keepsI)
  fix ch tp k rc ch' tp' k'
  assume p: "ch_private ch \<noteq> None" and run: "ioss_net_teardown_event E ch (tp, k) = Some (rc, ch', tp', k')"
  from run env_ops [OF assms] obtain rc1 ch1 tp1 k1 where 1: "r8125_ioss_disable_event B ch (tp, k) = Some (rc1, ch1, tp1, k1)"
    by (auto simp: ioss_net_teardown_event_def ioss_dev_op_def split: bind_splits)
  from op_keepsD [OF glue_disable_event [OF env_ops(7) [OF assms]] p 1] have k1: "own ch1 = own ch" "mem_keeps tp tp1" by simp_all
  let ?ch = "if rc1 \<noteq> 0 then ch1 else ch1\<lparr>event := (event ch1)\<lparr>ev_enabled := False\<rparr>\<rparr>"
  from run 1 env_ops [OF assms] obtain rc2 ch2 tp2 k2 where 2: "r8125_ioss_release_event K ?ch (tp1, k1) = Some (rc2, ch2, tp2, k2)"
    by (auto simp: ioss_net_teardown_event_def ioss_dev_op_def Let_def split: bind_splits)
  have o1: "own ?ch = own ch" using k1 by simp
  have p1: "ch_private ?ch \<noteq> None" using own_private [OF o1] p by simp
  from op_keepsD [OF glue_release_event p1 2] k1 o1 have k2: "own ch2 = own ch" "mem_keeps tp tp2" by (auto intro: mem_keeps_trans)
  with run 1 2 env_ops [OF assms] show "own ch' = own ch \<and> mem_keeps tp tp'"
    by (auto simp: ioss_net_teardown_event_def ioss_dev_op_def Let_def split: if_splits)
qed

text \<open>Walks and loops over the channels.\<close>

lemma iter_keeps:
  assumes "op_keeps f" "op_keeps g"
  shows "list_all (\<lambda>ch. ch_private ch \<noteq> None) chs \<Longrightarrow> ioss_list_iter_action f (Some (drop_rc g)) chs w = Some (rc, chs', w')
    \<Longrightarrow> map own chs' = map own chs \<and> mem_keeps (fst w) (fst w')"
proof (induction chs arbitrary: w rc chs' w')
  case (Cons ch chs)
  from Cons.prems obtain rc1 ch1 w1 where f: "f ch w = Some (rc1, ch1, w1)" by (auto split: bind_splits)
  from Cons.prems(1) have p: "ch_private ch \<noteq> None" by simp
  note k1 = op_keepsD [OF assms(1) p f]
  show ?case
  proof (cases "rc1 = 0")
    case True
    with Cons.prems(2) f obtain rc2 chs2 w2 where i: "ioss_list_iter_action f (Some (drop_rc g)) chs w1 = Some (rc2, chs2, w2)"
      by (auto split: bind_splits)
    from Cons.IH [OF _ i] Cons.prems(1) have k2: "map own chs2 = map own chs \<and> mem_keeps (fst w1) (fst w2)" by simp
    have p1: "ch_private ch1 \<noteq> None" using own_private [of ch1 ch] k1 p by simp
    show ?thesis
    proof (cases "rc2 = 0")
      case False
      with Cons.prems(2) f True i obtain ch3 w3 where
        d: "drop_rc g ch1 w2 = Some (ch3, w3)" and r: "chs' = ch3 # chs2" "w' = w3"
        by (auto split: bind_splits)
      from d obtain rc3 where g: "g ch1 w2 = Some (rc3, ch3, w3)" by (auto simp: drop_rc_def)
      from op_keepsD [OF assms(2) p1 g] k1 k2 r show ?thesis by (auto intro: mem_keeps_trans)
    qed (use Cons.prems(2) f True i k1 k2 in \<open>auto intro: mem_keeps_trans\<close>)
  qed (use Cons.prems(2) f k1 in auto)
qed simp

lemma for_each_keeps:
  assumes "op_keeps f"
  shows "list_all (\<lambda>ch. ch_private ch \<noteq> None) chs \<Longrightarrow> for_each_channel f chs w r = Some (rc, chs', w')
    \<Longrightarrow> map own chs' = map own chs \<and> mem_keeps (fst w) (fst w')"
proof (induction chs arbitrary: w r rc chs' w')
  case (Cons ch chs)
  from Cons.prems(2) obtain r1 ch1 w1 chs2 where f: "f ch w = Some (r1, ch1, w1)"
    and i: "for_each_channel f chs w1 (rc_or r r1) = Some (rc, chs2, w')" "chs' = ch1 # chs2"
    by (auto split: bind_splits)
  from Cons.prems(1) have p: "ch_private ch \<noteq> None" by simp
  from Cons.IH [OF _ i(1)] op_keepsD [OF assms p f] Cons.prems(1) i(2) show ?case by (auto intro: mem_keeps_trans)
qed simp

section \<open>IPA registration\<close>

text \<open>The IPA driver and the power-management call act on the rest of the kernel, not on the chip.\<close>

definition outside_chip :: "(ring_ref, 'k r8125_world) net_env \<Rightarrow> bool" where
  "outside_chip E \<longleftrightarrow> (\<forall>ps w. fst (snd (snd (conn_pipes (E_ipa E) ps w))) = fst w) \<and> (\<forall>w. fst (snd (disconn_pipes (E_ipa E) w)) = fst w)
     \<and> (\<forall>n w. fst (snd (set_perf_profile (E_ipa E) n w)) = fst w) \<and> (\<forall>w. fst (snd (reg_intf (E_ipa E) w)) = fst w)
     \<and> (\<forall>w. fst (snd (unreg_intf (E_ipa E) w)) = fst w) \<and> (\<forall>b w. fst (snd (pm_control E b w)) = fst w)"

lemma own_map: "map own (map free_pipe chs) = map own chs" "map own (map take_doorbell chs) = map own chs"
  "map own (map (free_pipe \<circ> clear_doorbell) chs) = map own chs" "map own (set_outputs n outs chs) = map own chs"
  by (induction chs arbitrary: n)
    (simp_all add: own_def free_pipe_def take_doorbell_def clear_doorbell_def set_output_def split: prod.splits)

lemma fill_data_bufs_own: "fill_data_bufs P K l d ch = Some (rc, ch') \<Longrightarrow> own ch' = own ch"
  by (auto simp: fill_data_bufs_def Let_def ioss_ipa_hal_fill_si_def
      split: option.splits sum.splits prod.splits)

lemma fill_pipe_own:
  assumes "ioss_ipa_fill_pipe_info P (lift_kern K) l d ch w = Some (rc, ch', w')"
  shows "own ch' = own ch \<and> fst w' = fst w"
proof -
  have kz: "kzalloc (lift_kern K) = lift_fun (kzalloc K)" by (simp add: lift_kern_def)
  show ?thesis using assms
    by (auto simp: ioss_ipa_fill_pipe_info_def Let_def kz split: list.splits option.splits if_splits prod.splits
        dest!: fill_data_bufs_own lift_fun_world)
qed

lemma fill_pipes_own:
  "fill_pipes P (lift_kern K) l d chs w = Some (ok, chs', w') \<Longrightarrow> map own chs' = map own chs \<and> fst w' = fst w"
proof (induction chs arbitrary: w ok chs' w')
  case (Cons ch chs)
  let ?ch = "ch\<lparr>ipa_pi := (ipa_pi ch)\<lparr>pi_client := True\<rparr>\<rparr>"
  from Cons.prems obtain rc ch1 w1 where f: "ioss_ipa_fill_pipe_info P (lift_kern K) l d ?ch w = Some (rc, ch1, w1)"
    by (auto split: bind_splits)
  from fill_pipe_own [OF f] have k: "own ch1 = own ch" "fst w1 = fst w" by simp_all
  show ?case
  proof (cases "rc = 0")
    case True
    with Cons.prems f obtain chs2 where i: "fill_pipes P (lift_kern K) l d chs w1 = Some (ok, chs2, w')" "chs' = ch1 # chs2"
      by (auto split: bind_splits)
    from Cons.IH [OF i(1)] k i(2) show ?thesis by simp
  qed (use Cons.prems f k in auto)
qed simp

lemma ipa_connect_own:
  assumes "outside_chip E" "ipa_connect (E_ipa E) i w = (rc, i', w')"
  shows "map own (channels i') = map own (channels i) \<and> fst w' = fst w"
proof -
  let ?A = "E_ipa E"
  obtain rc1 outs w1 where c: "conn_pipes ?A (map ipa_pi (channels i)) w = (rc1, outs, w1)" by (metis prod_cases3)
  let ?i = "i\<lparr>channels := set_outputs 0 outs (channels i)\<rparr>"
  obtain rc2 w2 where v: "set_perf_profile ?A (link_speed ?i) w1 = (rc2, w2)" by (metis prod.exhaust)
  obtain rc3 w3 where r: "reg_intf ?A w2 = (rc3, w3)" by (metis prod.exhaust)
  have fs: "fst w1 = fst w" "fst w2 = fst w1" "fst w3 = fst w2" 
      "fst (snd (disconn_pipes ?A w2)) = fst w2" "fst (snd (disconn_pipes ?A w3)) = fst w3"
    using assms(1) c v r unfolding outside_chip_def by (metis fst_conv snd_conv)+
  show ?thesis using assms(2) c v r fs
    by (auto simp: ipa_connect_def ioss_ipa_vote_bw_def Let_def own_map simp del: map_map split: if_splits)
qed

lemma register_own:
  assumes "outside_chip E" "E_kern E = lift_kern K" "net_ipa_register E s = Some (rc, s')"
  shows "map own (channels (iface s')) = map own (channels (iface s)) \<and> fst (world s') = fst (world s)"
proof -
  let ?P = "E_params E"
  obtain i w where r: "ioss_ipa_register ?P (lift_kern K) (E_ipa E) (llcc s) (real_dev (idev s)) (iface s) (world s) = Some (rc, i, w)"
    and s': "s' = (set_iface (\<lambda>_. i) s)\<lparr>world := w\<rparr>"
    using assms(2,3) by (auto simp: net_ipa_register_def split: option.splits)
  have "map own (channels i) = map own (channels (iface s)) \<and> fst w = fst (world s)"
    using r by (auto simp: ioss_ipa_register_def Let_def own_map simp del: map_map split: if_splits bind_splits
        dest!: fill_pipes_own ipa_connect_own [OF assms(1)])
  then show ?thesis by (simp add: s' set_iface_def)
qed

lemma unregister_own:
  assumes "outside_chip E" "net_ipa_unregister E s = (rc, s')"
  shows "map own (channels (iface s')) = map own (channels (iface s)) \<and> fst (world s') = fst (world s)"
proof -
  obtain rc1 w1 where d: "disconn_pipes (E_ipa E) (world s) = (rc1, w1)" by (metis prod.exhaust)
  obtain rc2 w2 where u: "unreg_intf (E_ipa E) w1 = (rc2, w2)" by (metis prod.exhaust)
  have fs: "fst w1 = fst (world s)" "fst w2 = fst w1"
    using assms(1) d u unfolding outside_chip_def by (metis fst_conv snd_conv)+
  show ?thesis using assms(2) d u fs
    by (auto simp: net_ipa_unregister_def ioss_ipa_unregister_def set_iface_def own_map simp del: map_map split: if_splits)
qed

section \<open>On line and off line\<close>

text \<open>Every channel of the interface holds a ring, or none does and no ring is lent.\<close>

definition all_lent :: "(ring_ref, 'k r8125_world) net_state \<Rightarrow> bool" where
  "all_lent s \<longleftrightarrow> lending (channels (iface s)) [] (fst (world s))"

definition none_lent :: "(ring_ref, 'k r8125_world) net_state \<Rightarrow> bool" where
  "none_lent s \<longleftrightarrow> lending [] (channels (iface s)) (fst (world s))"

lemma all_lent_own:
  assumes "all_lent s" "map own (channels (iface s')) = map own (channels (iface s))" "mem_keeps (fst (world s)) (fst (world s'))"
  shows "all_lent s'"
  using lending_own [OF assms(1) [unfolded all_lent_def] assms(3,2)] by (simp add: all_lent_def)

lemma all_lent_private: "all_lent s \<Longrightarrow> list_all (\<lambda>ch. ch_private ch \<noteq> None) (channels (iface s))"
  by (auto simp: all_lent_def lending_def list_all_iff holds_ring_def)

lemma state_frames [simp]:
  "all_lent (set_state st s) = all_lent s" "none_lent (set_state st s) = none_lent s" "if_state (iface (set_state st s)) = st"
  by (simp_all add: all_lent_def none_lent_def set_state_def set_iface_def)

lemma on_world_lent:
  assumes "all_lent s" "on_world f s = Some (rc, s')"
    and "\<And>chs w rc chs' w'. list_all (\<lambda>ch. ch_private ch \<noteq> None) chs \<Longrightarrow> f chs w = Some (rc, chs', w')
      \<Longrightarrow> map own chs' = map own chs \<and> mem_keeps (fst w) (fst w')"
  shows "all_lent s'"
proof -
  from assms(2) obtain chs w where f: "f (channels (iface s)) (world s) = Some (rc, chs, w)" "s' = set_channels s chs (llcc s) w"
    by (auto simp: on_world_def split: option.splits)
  from assms(3) [OF all_lent_private [OF assms(1)] f(1)] show ?thesis
    by (intro all_lent_own [OF assms(1)]) (simp_all add: f(2) set_channels_def set_iface_def)
qed

lemma events_lent:
  assumes "r8125_env D B K E" "all_lent s"
  shows "on_world (ioss_net_setup_events E) s = Some (rc, s') \<Longrightarrow> all_lent s'"
    "on_world (ioss_net_teardown_events E) s = Some (rc, s') \<Longrightarrow> all_lent s'"
    "on_world (ioss_net_enable_channels E) s = Some (rc, s') \<Longrightarrow> all_lent s'"
    "on_world (ioss_net_disable_channels E) s = Some (rc, s') \<Longrightarrow> all_lent s'"
  unfolding ioss_net_setup_events_def ioss_net_teardown_events_def ioss_net_enable_channels_def ioss_net_disable_channels_def
  by (erule on_world_lent [OF assms(2)],
      erule (1) iter_keeps [OF net_setup_event_keeps [OF assms(1)] net_teardown_event_keeps [OF assms(1)]]
        for_each_keeps [OF net_teardown_event_keeps [OF assms(1)]]
        iter_keeps [OF net_enable_channel_keeps [OF assms(1)] net_disable_channel_keeps [OF assms(1)]]
        for_each_keeps [OF net_disable_channel_keeps [OF assms(1)]])+

lemma unregister_lent:
  assumes "outside_chip E" "all_lent s" "net_ipa_unregister E s = (rc, s')"
  shows "all_lent s'"
  using unregister_own [OF assms(1,3)] by (intro all_lent_own [OF assms(2)]) simp_all

lemma register_lent:
  assumes "outside_chip E" "r8125_env D B K E" "all_lent s" "net_ipa_register E s = Some (rc, s')"
  shows "all_lent s'"
  using register_own [OF assms(1) env_ops(8) [OF assms(2)] assms(4)] by (intro all_lent_own [OF assms(3)]) simp_all

lemma free_lent:
  assumes "r8125_env D B K E" "all_lent s"
  shows "\<exists>s'. on_llcc (ioss_net_free_channels E) s = Some (0, s') \<and> none_lent s' \<and> if_state (iface s') = if_state (iface s)"
proof -
  from free_channels_law [OF assms(1) assms(2) [unfolded all_lent_def], of "llcc s" "snd (world s)"] obtain chs l tp k where
    f: "ioss_net_free_channels E (channels (iface s)) (llcc s, world s) = Some (0, chs, l, tp, k)" "lending [] (List.rev chs) tp"
    by (auto simp: ioss_net_free_channels_def)
  then show ?thesis
    by (auto simp: on_llcc_def set_channels_def set_iface_def none_lent_def lending_no_todo list_all_iff)
qed

text \<open>The error exits of \<open>ioss_iface_set_online\<close> give everything back.\<close>

definition gave_up :: "(ring_ref, 'k r8125_world) net_state \<Rightarrow> bool" where
  "gave_up s \<longleftrightarrow> none_lent s \<and> if_state (iface s) = IF_ST_ERROR"

lemma err_exits:
  assumes "r8125_env D B K E" "outside_chip E" "all_lent s"
  shows "err_ipa_register E s = Some s' \<Longrightarrow> gave_up s'"
    "err_setup_events E s = Some s' \<Longrightarrow> gave_up s'"
    "err_enable_channels E s = Some s' \<Longrightarrow> gave_up s'"
    "err_disable_pc E s = Some s' \<Longrightarrow> gave_up s'"
proof -
  have 1: "gave_up t'" if "err_ipa_register E t = Some t'" "all_lent t" for t t'
    using free_lent [OF assms(1) that(2)] that(1) by (auto simp: err_ipa_register_def gave_up_def)
  have 2: "gave_up t'" if "err_setup_events E t = Some t'" "all_lent t" for t t'
    using that unregister_lent [OF assms(2) that(2), of "fst (net_ipa_unregister E t)" "snd (net_ipa_unregister E t)"]
    by (auto simp: err_setup_events_def intro: 1)
  have 3: "gave_up t'" if "err_enable_channels E t = Some t'" "all_lent t" for t t'
    using that events_lent(2) [OF assms(1) that(2)]
    by (auto simp: err_enable_channels_def split: bind_splits intro: 2)
  show "err_ipa_register E s = Some s' \<Longrightarrow> gave_up s'" "err_setup_events E s = Some s' \<Longrightarrow> gave_up s'"
    "err_enable_channels E s = Some s' \<Longrightarrow> gave_up s'"
    using 1 2 3 assms(3) by blast+
  show "err_disable_pc E s = Some s' \<Longrightarrow> gave_up s'"
    using events_lent(4) [OF assms(1,3)] by (auto simp: err_disable_pc_def split: bind_splits intro: 3)
qed

lemma alloc_lent:
  assumes "r8125_env D B K E" "none_lent s" "on_llcc (ioss_net_alloc_channels E sp) s = Some (rc, s')"
  shows "if rc = 0 then all_lent s' else none_lent s'"
proof -
  from assms(3) obtain chs l w where
    a: "ioss_net_alloc_channels E sp (channels (iface s)) (llcc s, world s) = Some (rc, chs, l, w)" "s' = set_channels s chs l w"
    by (auto simp: on_llcc_def split: option.splits)
  have "lending_walk E D B K [] (channels (iface s)) (llcc s, world s)"
    using assms(1,2) by (simp add: lending_walk_def none_lent_def)
  from alloc.iter_all_or_nothing [OF this a(1) [unfolded ioss_net_alloc_channels_def]] show ?thesis
    by (auto simp: lending_walk_def a(2) all_lent_def none_lent_def set_channels_def set_iface_def)
qed

lemma pm_control_lent:
  assumes "outside_chip E" "pm_control E b (world s) = (rc, w)"
  shows "all_lent (s\<lparr>world := w\<rparr>) = all_lent s"
proof -
  have "fst w = fst (world s)" using assms unfolding outside_chip_def by (metis snd_conv)
  then show ?thesis by (simp add: all_lent_def)
qed

lemma set_online_lent:
  assumes "r8125_env D B K E" "outside_chip E" "none_lent s" "if_state (iface s) = IF_ST_OFFLINE"
    and "ioss_iface_set_online E s = Some s'"
  shows "(if_state (iface s') = IF_ST_ONLINE \<and> all_lent s') \<or> (if_state (iface s') = IF_ST_ERROR \<and> none_lent s')"
proof -
  note err = err_exits [OF assms(1,2)]
  note run = assms(5) [unfolded ioss_iface_set_online_def]
  from run assms(4) obtain rc1 s1 where a: "on_llcc (ioss_net_alloc_channels E (link_speed (iface s))) s = Some (rc1, s1)"
    by (auto split: bind_splits)
  show ?thesis
  proof (cases "rc1 = 0")
    case False
    with run a assms(4) alloc_lent [OF assms(1,3) a] show ?thesis by auto
  next
    case r1: True
    with alloc_lent [OF assms(1,3) a] have l1: "all_lent s1" by simp
    from run a assms(4) r1 obtain rc2 s2 where b: "net_ipa_register E s1 = Some (rc2, s2)" by (auto split: bind_splits)
    note l2 = register_lent [OF assms(2,1) l1 b]
    show ?thesis
    proof (cases "rc2 = 0")
      case r2: True
      from run a assms(4) r1 b r2 obtain rc3 s3 where c: "on_world (ioss_net_setup_events E) s2 = Some (rc3, s3)"
        by (auto split: bind_splits)
      note l3 = events_lent(1) [OF assms(1) l2 c]
      show ?thesis
      proof (cases "rc3 = 0")
        case r3: True
        from run a assms(4) r1 b r2 c r3 obtain rc4 s4 where d: "on_world (ioss_net_enable_channels E) s3 = Some (rc4, s4)"
          by (auto split: bind_splits)
        note l4 = events_lent(3) [OF assms(1) l3 d]
        obtain rc5 w where e: "pm_control E False (world s4) = (rc5, w)" by (metis prod.exhaust)
        have l5: "all_lent (s4\<lparr>world := w\<rparr>)" using pm_control_lent [OF assms(2) e] l4 by simp
        show ?thesis using run a assms(4) r1 b r2 c r3 d e l5 err(3) [OF l4] err(4) [OF l5]
          by (auto simp: ioss_pci_disable_pc_def gave_up_def split: if_splits)
      qed (use run a assms(4) r1 b r2 c err(2) [OF l3] in \<open>auto simp: gave_up_def\<close>)
    qed (use run a assms(4) r1 b err(1) [OF l2] in \<open>auto simp: gave_up_def\<close>)
  qed
qed


text \<open>On channels that hold a ring, disabling and tearing down cannot dereference NULL.\<close>

lemma teardown_event_total:
  assumes "r8125_env D B K E" "ch_private ch \<noteq> None"
  shows "\<exists>r. ioss_net_teardown_event E ch (tp, k) = Some r"
proof -
  from assms(2) obtain r where r: "ch_private ch = Some r" by blast
  obtain rcf tpf where f: "r8125_ioss_disable_filters B ch tp = (rcf, tpf)" by (metis prod.exhaust)
  have "\<exists>rc1 tp1. r8125_ioss_disable_event B ch (tp, k) = Some (rc1, ch, tp1, k)"
    using r f by (simp add: r8125_ioss_disable_event_def rtl8125_disable_event_def Let_def)
  then obtain rc1 tp1 where 1: "r8125_ioss_disable_event B ch (tp, k) = Some (rc1, ch, tp1, k)" by blast
  let ?ch = "if rc1 \<noteq> 0 then ch else ch\<lparr>event := (event ch)\<lparr>ev_enabled := False\<rparr>\<rparr>"
  have pr: "ch_private ?ch = Some r" using r by simp
  obtain ch2 k2 where u: "ioss_channel_unmap_event K ?ch k = (ch2, k2)" by (metis prod.exhaust)
  have "\<exists>tp2. r8125_ioss_release_event K ?ch (tp1, k) = Some (0, ch2, tp2, k2)"
    unfolding r8125_ioss_release_event_def rtl8125_release_event_def pr using u by (simp add: Let_def)
  then obtain tp2 where 2: "r8125_ioss_release_event K ?ch (tp1, k) = Some (0, ch2, tp2, k2)" by blast
  show ?thesis using 1 2 env_ops [OF assms(1)] by (simp add: ioss_net_teardown_event_def ioss_dev_op_def Let_def)
qed

lemma disable_channel_total:
  assumes "r8125_env D B K E"
  shows "\<exists>r. ioss_net_disable_channel E ch w = Some r"
  using env_ops [OF assms] by (simp add: ioss_net_disable_channel_def ioss_dev_op_def r8125_ioss_disable_channel_def)

lemma for_each_total:
  assumes "\<And>ch w. ch_private ch \<noteq> None \<Longrightarrow> \<exists>r. f ch w = Some r"
  shows "list_all (\<lambda>ch. ch_private ch \<noteq> None) chs \<Longrightarrow> \<exists>r. for_each_channel f chs w rc = Some r"
proof (induction chs arbitrary: w rc)
  case (Cons ch chs)
  from Cons.prems have "ch_private ch \<noteq> None" by simp
  from assms [OF this, of w] obtain r1 ch1 w1 where f: "f ch w = Some (r1, ch1, w1)" by (metis prod_cases3)
  from Cons.IH [of w1 "rc_or rc r1"] Cons.prems f show ?case by (auto split: bind_splits)
qed simp

lemma loops_return:
  assumes "r8125_env D B K E" "all_lent s"
  shows "\<exists>rc s'. on_world (ioss_net_disable_channels E) s = Some (rc, s')"
    "\<exists>rc s'. on_world (ioss_net_teardown_events E) s = Some (rc, s')"
proof -
  note p = all_lent_private [OF assms(2)]
  have "\<exists>r. ioss_net_teardown_event E ch w = Some r" if "ch_private ch \<noteq> None" for ch w
    using teardown_event_total [OF assms(1) that, of "fst w" "snd w"] by simp
  from for_each_total [of "ioss_net_teardown_event E", OF this p] obtain r2 where
    r2: "for_each_channel (ioss_net_teardown_event E) (channels (iface s)) (world s) 0 = Some r2" by blast
  from for_each_total [of "ioss_net_disable_channel E", OF disable_channel_total [OF assms(1)] p] obtain r1 where
    r1: "for_each_channel (ioss_net_disable_channel E) (channels (iface s)) (world s) 0 = Some r1" by blast
  show "\<exists>rc s'. on_world (ioss_net_disable_channels E) s = Some (rc, s')"
    "\<exists>rc s'. on_world (ioss_net_teardown_events E) s = Some (rc, s')"
    by (cases r1, simp add: on_world_def ioss_net_disable_channels_def r1)
      (cases r2, simp add: on_world_def ioss_net_teardown_events_def r2)
qed


section \<open>Examples\<close>

text \<open>An interface with two channels on the demonstration chip; the IPA registration is skipped.\<close>

definition rtl_net_env :: "(ring_ref, unit r8125_world) net_env" where
  "rtl_net_env = rtl_env\<lparr>E_params := ipa_params_default\<lparr>skip_ipa_register := True\<rparr>\<rparr>"

definition rtl_net_state :: "(ring_ref, unit r8125_world) net_state" where
  "rtl_net_state = \<lparr>idev = (idev_zero demo_pci)\<lparr>interface := iface_zero\<lparr>iface_parent := Some 1,
       channels := [rtl_channel CH_DIR_RX, rtl_channel CH_DIR_TX]\<rparr>\<rparr>, llcc = no_tcm, world = (demo_chip, ()),
     netdev_ops = Ops_real 1, netdev_ops_real = Ops_null, netdev_refs = 0, pm_nb_registered = False,
     refresh_queued = True, check_queued = False, idev_debugfs = True\<rparr>"

lemma rtl_net_env_ok: "r8125_env diag_none base_id ok_kern rtl_net_env" "outside_chip rtl_net_env"
  using rtl_env_ok by (simp_all add: rtl_net_env_def r8125_env_def outside_chip_def) (simp_all add: rtl_env_def ok_ipa_def)

lemma rtl_net_idle: "none_lent rtl_net_state" "if_state (iface rtl_net_state) = IF_ST_OFFLINE"
  using wf_demo_chip demo_chip_idle rtl_channel_idle
  by (simp_all add: none_lent_def lending_no_todo rtl_net_state_def idev_zero_def iface_zero_def)

lemmas online_eval = rtl_eval rtl_net_env_def rtl_net_state_def idev_zero_def iface_zero_def ioss_iface_set_online_def on_llcc_def
  on_world_def set_channels_def set_iface_def net_ipa_register_def ioss_ipa_register_def ipa_params_default_def
  ioss_net_setup_events_def ioss_net_setup_event_def r8125_ioss_request_event_def ioss_channel_map_event_def event_zero_def
  rtl8125_request_event_def message_id_of_def msix_write_def set_event_def rtl8125_set_ring_intr_mod_def
  rtl8125_hw_set_timer_int_8125_def RTL_W8_def r8125_ioss_enable_event_def rtl8125_enable_event_def r8125_ioss_enable_filters_def
  ioss_net_enable_channels_def ioss_net_enable_channel_def r8125_ioss_enable_channel_def rtl8125_enable_ring_def set_enabled_def
  base_id_def ioss_pci_disable_pc_def

lemma rtl_goes_online: "\<exists>s. ioss_iface_set_online rtl_net_env rtl_net_state = Some s \<and> if_state (iface s) = IF_ST_ONLINE"
  by (simp add: online_eval set_state_def)



end
