(* ===== verification/Ioss_Stats.thy ===== *)
theory Ioss_Stats
  imports Ioss_Debugfs
begin

text \<open>
  The debugfs files of the offload subsystem (\<^verbatim>\<open>ioss/ioss_debugfs.c\<close>, the read handlers): the text
  they produce from the counters of a device and from the counters and the status of a channel.

  A handler collects its text in a buffer of 3000 bytes with \<^verbatim>\<open>scnprintf\<close>, which cuts what does not
  fit, and hands out the window that the reader asks for. The theorem shows that nothing is ever
  cut and that the one-line form can be read back.
\<close>

section \<open>Text buffers\<close>

abbreviation (input) BUF_LEN :: nat where "BUF_LEN \<equiv> 3000"
abbreviation (input) NL :: char where "NL \<equiv> CHR 0x0A"

text \<open>\<^verbatim>\<open>len += scnprintf(buf + len, BUF_LEN - len, ...)\<close>: one byte is kept for the NUL.\<close>

definition scnprintf :: "string \<Rightarrow> string \<Rightarrow> string" where
  "scnprintf s buf = buf @ take (BUF_LEN - length buf - 1) s"

text \<open>\<^verbatim>\<open>%llu\<close> and \<^verbatim>\<open>%d\<close> of a boolean.\<close>

definition llu :: "u64 \<Rightarrow> string" where
  "llu x = dec_nat (unat x)"

definition bool_d :: "bool \<Rightarrow> string" where
  "bool_d b = (if b then ''1'' else ''0'')"

text \<open>
  The kernel's \<^verbatim>\<open>simple_read_from_buffer\<close>: the result and, on success, the bytes handed out and the new
  position. \<open>uncopied\<close> is how many bytes could not be stored in the reader's memory.
\<close>

definition simple_read_from_buffer :: "nat \<Rightarrow> int \<Rightarrow> string \<Rightarrow> nat \<Rightarrow> int \<times> string \<times> int" where
  "simple_read_from_buffer sz pos buf uncopied =
     (if pos < 0 then (- EINVAL, [], pos)
      else if int (length buf) \<le> pos \<or> sz = 0 then (0, [], pos)
      else
        let count = min sz (length buf - nat pos) in
        if uncopied = count then (- EFAULT, [], pos)
        else (int (count - uncopied), take (count - uncopied) (drop (nat pos) buf), pos + int (count - uncopied)))"

text \<open>
  What every handler does once it has its figures: a buffer, the text, the reader's window.
\<close>

definition serve :: "bool \<Rightarrow> string list \<Rightarrow> nat \<Rightarrow> int \<Rightarrow> nat \<Rightarrow> int \<times> string \<times> int" where
  "serve alloc_ok parts sz pos uncopied =
     (if \<not> alloc_ok then (- ENOMEM, [], pos)
      else simple_read_from_buffer sz pos (fold scnprintf parts []) uncopied)"

section \<open>Device files\<close>

text \<open>The counters in the order both files print them.\<close>

definition stats_fields :: "(string \<times> (device_stats \<Rightarrow> u64)) list" where
  "stats_fields =
  [(''hwp_rx_packets'', hwp_rx_packets),
   (''hwp_tx_packets'', hwp_tx_packets),
   (''hwp_rx_bytes'', hwp_rx_bytes),
   (''hwp_tx_bytes'', hwp_tx_bytes),
   (''hwp_rx_errors'', hwp_rx_errors),
   (''hwp_tx_errors'', hwp_tx_errors),
   (''hwp_rx_drops'', hwp_rx_drops),
   (''hwp_tx_drops'', hwp_tx_drops),
   (''exp_rx_packets'', exp_rx_packets),
   (''exp_tx_packets'', exp_tx_packets),
   (''exp_rx_bytes'', exp_rx_bytes),
   (''exp_tx_bytes'', exp_tx_bytes),
   (''exp_rx_errors'', exp_rx_errors),
   (''exp_tx_errors'', exp_tx_errors),
   (''exp_rx_drops'', exp_rx_drops),
   (''exp_tx_drops'', exp_tx_drops),
   (''emac_rx_packets'', emac_rx_packets),
   (''emac_tx_packets'', emac_tx_packets),
   (''emac_rx_bytes'', emac_rx_bytes),
   (''emac_tx_bytes'', emac_tx_bytes),
   (''emac_rx_errors'', emac_rx_errors),
   (''emac_tx_errors'', emac_tx_errors),
   (''emac_rx_drops'', emac_rx_drops),
   (''emac_tx_drops'', emac_tx_drops),
   (''emac_rx_pause_frames'', emac_rx_pause_frames),
   (''emac_tx_pause_frames'', emac_tx_pause_frames)]"

definition named_line :: "string \<Rightarrow> string \<Rightarrow> string" where
  "named_line nm v = nm @ '': '' @ v @ [NL]"

definition idev_statistics_parts :: "device_stats \<Rightarrow> string list" where
  "idev_statistics_parts st = map (\<lambda>(nm, f). named_line nm (llu (f st))) stats_fields"

definition read_idev_statistics ::
  "(device_stats \<Rightarrow> device_stats option) \<Rightarrow> ('r ioss_channel \<Rightarrow> channel_stats option) \<Rightarrow> link_stats \<Rightarrow> 'r ioss_interface \<Rightarrow>
   bool \<Rightarrow> nat \<Rightarrow> int \<Rightarrow> nat \<Rightarrow> int \<times> string \<times> int" where
  "read_idev_statistics devst chst net i alloc_ok sz pos uncopied =
     (case get_idev_statistics devst chst net i of
        Inl rc \<Rightarrow> (- EFAULT, [], pos)
      | Inr st \<Rightarrow> serve alloc_ok (idev_statistics_parts st) sz pos uncopied)"

text \<open>All figures on one line; a blank after each but the last.\<close>

definition idev_stats_parts :: "device_stats \<Rightarrow> string list" where
  "idev_stats_parts st =
     (let vs = map (\<lambda>(nm, f). llu (f st)) stats_fields in map (\<lambda>v. v @ '' '') (butlast vs) @ [last vs, [NL]])"

definition read_idev_stats ::
  "(device_stats \<Rightarrow> device_stats option) \<Rightarrow> ('r ioss_channel \<Rightarrow> channel_stats option) \<Rightarrow> link_stats \<Rightarrow> 'r ioss_interface \<Rightarrow>
   bool \<Rightarrow> nat \<Rightarrow> int \<Rightarrow> nat \<Rightarrow> int \<times> string \<times> int" where
  "read_idev_stats devst chst net i alloc_ok sz pos uncopied =
     (case get_idev_statistics devst chst net i of
        Inl rc \<Rightarrow> (- EFAULT, [], pos)
      | Inr st \<Rightarrow> serve alloc_ok (idev_stats_parts st) sz pos uncopied)"

section \<open>Channel files\<close>

definition ch_statistics_parts :: "channel_stats \<Rightarrow> string list" where
  "ch_statistics_parts st =
     [named_line ''overflow_errors'' (llu (overflow_error st)), named_line ''underflow_errors'' (llu (underflow_error st)),
      named_line ''desc_unavail'' (llu (desc_unavail st))]"

definition read_ch_statistics ::
  "('r ioss_channel \<Rightarrow> channel_stats option) \<Rightarrow> 'r ioss_channel \<Rightarrow> bool \<Rightarrow> nat \<Rightarrow> int \<Rightarrow> nat \<Rightarrow> int \<times> string \<times> int" where
  "read_ch_statistics chst ch alloc_ok sz pos uncopied =
     (case chst ch of
        None \<Rightarrow> (- EFAULT, [], pos)
      | Some st \<Rightarrow> serve alloc_ok (ch_statistics_parts st) sz pos uncopied)"

definition ch_stats_parts :: "channel_stats \<Rightarrow> string list" where
  "ch_stats_parts st =
     [llu (overflow_error st) @ '' '', llu (underflow_error st) @ '' '', llu (desc_unavail st) @ '' '', [NL]]"

definition read_ch_stats ::
  "('r ioss_channel \<Rightarrow> channel_stats option) \<Rightarrow> 'r ioss_channel \<Rightarrow> bool \<Rightarrow> nat \<Rightarrow> int \<Rightarrow> nat \<Rightarrow> int \<times> string \<times> int" where
  "read_ch_stats chst ch alloc_ok sz pos uncopied =
     (case chst ch of
        None \<Rightarrow> (- EFAULT, [], pos)
      | Some st \<Rightarrow> serve alloc_ok (ch_stats_parts st) sz pos uncopied)"

record channel_status =
  cs_enabled :: bool
  cs_ring_size :: u64
  interrupt_modc :: u64
  interrupt_modt :: u64
  head_ptr :: u64
  tail_ptr :: u64

definition channel_status_zero :: channel_status where
  "channel_status_zero = \<lparr>cs_enabled = False, cs_ring_size = 0, interrupt_modc = 0, interrupt_modt = 0, head_ptr = 0, tail_ptr = 0\<rparr>"

definition ch_status_parts :: "channel_status \<Rightarrow> string list" where
  "ch_status_parts st =
     [named_line ''enabled'' (bool_d (cs_enabled st)), named_line ''size'' (llu (cs_ring_size st)),
      named_line ''interrupt_modc'' (llu (interrupt_modc st)), named_line ''interrupt_modt'' (llu (interrupt_modt st) @ '' ns''),
      named_line ''head_ptr'' (llu (head_ptr st)), named_line ''tail_ptr'' (llu (tail_ptr st))]"

text \<open>\<open>status\<close> is the driver's \<^verbatim>\<open>get_channel_status\<close>, which fills the zeroed structure.\<close>

definition read_ch_status ::
  "('r ioss_channel \<Rightarrow> channel_status \<Rightarrow> channel_status option) \<Rightarrow> 'r ioss_channel \<Rightarrow> bool \<Rightarrow> nat \<Rightarrow> int \<Rightarrow> nat \<Rightarrow>
   int \<times> string \<times> int" where
  "read_ch_status status ch alloc_ok sz pos uncopied =
     (case status ch channel_status_zero of
        None \<Rightarrow> (- EFAULT, [], pos)
      | Some st \<Rightarrow> serve alloc_ok (ch_status_parts st) sz pos uncopied)"

definition ch_stat_parts :: "channel_status \<Rightarrow> string list" where
  "ch_stat_parts st =
     [bool_d (cs_enabled st) @ '' '', llu (cs_ring_size st) @ '' '', llu (interrupt_modc st) @ '' '',
      llu (interrupt_modt st) @ '' '', llu (head_ptr st) @ '' '', llu (tail_ptr st), [NL]]"

definition read_ch_stat ::
  "('r ioss_channel \<Rightarrow> channel_status \<Rightarrow> channel_status option) \<Rightarrow> 'r ioss_channel \<Rightarrow> bool \<Rightarrow> nat \<Rightarrow> int \<Rightarrow> nat \<Rightarrow>
   int \<times> string \<times> int" where
  "read_ch_stat status ch alloc_ok sz pos uncopied =
     (case status ch channel_status_zero of
        None \<Rightarrow> (- EFAULT, [], pos)
      | Some st \<Rightarrow> serve alloc_ok (ch_stat_parts st) sz pos uncopied)"

section \<open>Lemmas\<close>

subsection \<open>Decimal numbers\<close>

definition digit :: "char \<Rightarrow> bool" where
  "digit c \<longleftrightarrow> 48 \<le> (of_char c :: nat) \<and> (of_char c :: nat) \<le> 57"

text \<open>The numbers of a line, each ended by a character that is not a digit.\<close>

fun parse_nums :: "nat \<Rightarrow> string \<Rightarrow> nat list" where
  "parse_nums a [] = []"
| "parse_nums a (c # cs) = (if digit c then parse_nums (10 * a + (of_char c - 48)) cs else a # parse_nums 0 cs)"

lemma parse_digit: "d < 10 \<Longrightarrow> parse_nums a (char_of (48 + d) # xs) = parse_nums (10 * a + d) xs"
  by (simp add: digit_def)

lemma parse_dec: "parse_nums a (dec_nat n @ xs) = parse_nums (a * 10 ^ length (dec_nat n) + n) xs"
proof (induction n arbitrary: a xs rule: dec_nat.induct)
  case (1 n)
  show ?case
  proof (cases "n < 10")
    case True
    then have d: "dec_nat n = [char_of (48 + n)]" by (subst dec_nat.simps) simp
    show ?thesis unfolding d using True by (simp only: append.simps parse_digit) (simp add: mult.commute)
  next
    case False
    let ?l = "length (dec_nat (n div 10))"
    have d: "dec_nat n = dec_nat (n div 10) @ [char_of (48 + n mod 10)]" using False by (subst dec_nat.simps) simp
    have "parse_nums a (dec_nat n @ xs) = parse_nums (a * 10 ^ ?l + n div 10) (char_of (48 + n mod 10) # xs)"
      using "1.IH" [OF False] by (simp add: d)
    also have "\<dots> = parse_nums (10 * (a * 10 ^ ?l + n div 10) + n mod 10) xs" by (rule parse_digit) simp
    also have "10 * (a * 10 ^ ?l + n div 10) + n mod 10 = a * 10 ^ length (dec_nat n) + n" by (simp add: d algebra_simps)
    finally show ?thesis .
  qed
qed

lemma parse_dec_end: "\<not> digit c \<Longrightarrow> parse_nums 0 (dec_nat n @ c # xs) = n # parse_nums 0 xs"
  by (simp add: parse_dec)

lemma dec_nat_length: "n < 10 ^ Suc k \<Longrightarrow> length (dec_nat n) \<le> Suc k"
proof (induction k arbitrary: n)
  case 0
  then show ?case by (subst dec_nat.simps) simp
next
  case (Suc k)
  then have "n div 10 < 10 ^ Suc k" by (simp add: less_mult_imp_div_less mult.commute)
  from Suc.IH [OF this] show ?case by (subst dec_nat.simps) simp
qed

lemma llu_length: "length (llu x) \<le> 20"
proof -
  have "unat x < 2 ^ 64" using unsigned_less [of x] by simp
  then have "unat x < 10 ^ Suc 19" by simp
  then show ?thesis using dec_nat_length [of "unat x" 19] by (simp add: llu_def)
qed

subsection \<open>Nothing is cut\<close>

lemma scnprintf_all: "length (buf @ concat parts) < BUF_LEN \<Longrightarrow> fold scnprintf parts buf = buf @ concat parts"
  by (induction parts arbitrary: buf) (simp_all add: scnprintf_def)

lemma concat_short:
  assumes "list_all (\<lambda>p. length p \<le> m) parts" "length parts * m < n"
  shows "length (concat parts) < n"
proof -
  have "length (concat parts) \<le> length parts * m" using assms(1) by (induction parts) auto
  with assms(2) show ?thesis by simp
qed

lemma serve_whole:
  assumes "length (concat parts) < BUF_LEN" "length (concat parts) \<le> sz" "concat parts \<noteq> []"
  shows "serve True parts sz 0 0 = (int (length (concat parts)), concat parts, int (length (concat parts)))"
proof -
  have "\<not> length (concat parts) \<le> 0" "sz \<noteq> 0" using assms(2,3) by (metis le_zero_eq length_0_conv)+
  with assms(1,2) show ?thesis by (simp add: serve_def scnprintf_all simple_read_from_buffer_def Let_def del: length_concat)
qed

lemma stats_fields_size: "length stats_fields = 26" "list_all (\<lambda>(nm, f). length nm \<le> 20) stats_fields"
  by (simp_all add: stats_fields_def)

lemma statistics_short: "length (concat (idev_statistics_parts st)) < BUF_LEN"
proof (rule concat_short [where m = 43])
  have "length (named_line nm (llu x)) \<le> 43" if "length nm \<le> 20" for nm x
    using that llu_length [of x] by (simp add: named_line_def)
  with stats_fields_size(2) show "list_all (\<lambda>p. length p \<le> 43) (idev_statistics_parts st)"
    by (auto simp: idev_statistics_parts_def list_all_iff)
qed (simp add: idev_statistics_parts_def stats_fields_size)

lemma parse_line: "parse_nums 0 (concat (map (\<lambda>n. dec_nat n @ '' '') ns) @ dec_nat m @ [NL]) = ns @ [m]"
proof (induction ns)
  case Nil
  show ?case using parse_dec_end [of NL m "[]"] by (simp add: digit_def)
next
  case (Cons n ns)
  then show ?case using parse_dec_end [of "CHR '' ''" n] by (simp add: digit_def)
qed

text \<open>
  C24. The statistics files of a device: for every value of the 26 counters the text fits the
  buffer, so a reader that offers enough room gets all of it; the first file has one line for
  every counter, with its name and value, and the second, parsed as a line of numbers, gives back
  exactly the 26 counters in the order of the first file.
\<close>

theorem statistics_files:
  assumes "get_idev_statistics devst chst net i = Inr st" "BUF_LEN \<le> sz"
  defines "long \<equiv> read_idev_statistics devst chst net i True sz 0 0"
    and "short \<equiv> read_idev_stats devst chst net i True sz 0 0"
  shows "fst long = int (length (fst (snd long))) \<and> length (fst (snd long)) < BUF_LEN
    \<and> fst (snd long) = concat (map (\<lambda>(nm, f). nm @ '': '' @ dec_nat (unat (f st)) @ [NL]) stats_fields)
    \<and> fst short = int (length (fst (snd short))) \<and> length (fst (snd short)) < BUF_LEN
    \<and> parse_nums 0 (fst (snd short)) = map (\<lambda>(nm, f). unat (f st)) stats_fields"
proof -
  let ?vs = "map (\<lambda>(nm, f). unat (f st)) stats_fields"
  have ne: "stats_fields \<noteq> []" using stats_fields_size(1) by auto
  have parts: "concat (idev_stats_parts st) = concat (map (\<lambda>n. dec_nat n @ '' '') (butlast ?vs)) @ dec_nat (last ?vs) @ [NL]"
    using ne by (simp add: idev_stats_parts_def Let_def llu_def map_butlast [symmetric] last_map comp_def case_prod_beta)
  have "list_all (\<lambda>p. length p \<le> 21) (idev_stats_parts st)"
    using llu_length le_SucI [OF llu_length] ne by (auto simp: idev_stats_parts_def Let_def list_all_iff last_map case_prod_beta intro: le_SucI dest!: in_set_butlastD)
  moreover have "length (idev_stats_parts st) = 27" by (simp add: idev_stats_parts_def Let_def stats_fields_size)
  ultimately have short': "length (concat (idev_stats_parts st)) < BUF_LEN" by (intro concat_short [where m = 21]) simp_all
  then have s: "short = (int (length (concat (idev_stats_parts st))), concat (idev_stats_parts st), int (length (concat (idev_stats_parts st))))"
    using assms(1,2) serve_whole [OF short', of sz] by (simp add: short_def read_idev_stats_def parts)
  have "concat (idev_statistics_parts st) \<noteq> []" by (simp add: idev_statistics_parts_def named_line_def stats_fields_def)
  then have l: "long = (int (length (concat (idev_statistics_parts st))), concat (idev_statistics_parts st), int (length (concat (idev_statistics_parts st))))"
    using assms(1,2) serve_whole [OF statistics_short, of st sz] statistics_short [of st] by (simp add: long_def read_idev_statistics_def)
  have "parse_nums 0 (concat (idev_stats_parts st)) = butlast ?vs @ [last ?vs]" unfolding parts by (rule parse_line)
  then have "parse_nums 0 (concat (idev_stats_parts st)) = ?vs" using ne by simp
  with s l short' statistics_short [of st] show ?thesis
    by (simp add: idev_statistics_parts_def named_line_def llu_def case_prod_beta)
qed

theorem statistics_files_witness:
  "\<exists>st. get_idev_statistics (\<lambda>d. Some (d\<lparr>emac_rx_packets := 100\<rparr>)) (\<lambda>_. None)
       \<lparr>st_rx_packets = 30, st_tx_packets = 0, st_rx_bytes = 2000, st_tx_bytes = 0\<rparr> (iface_zero :: nat ioss_interface) = Inr st
     \<and> parse_nums 0 (fst (snd (read_idev_stats (\<lambda>d. Some (d\<lparr>emac_rx_packets := 100\<rparr>)) (\<lambda>_. None)
       \<lparr>st_rx_packets = 30, st_tx_packets = 0, st_rx_bytes = 2000, st_tx_bytes = 0\<rparr> (iface_zero :: nat ioss_interface) True 4096 0 0)))
       = map (\<lambda>(nm, f). unat (f st)) stats_fields"
proof -
  let ?d = "\<lambda>d :: device_stats. Some (d\<lparr>emac_rx_packets := 100\<rparr>)"
  let ?n = "\<lparr>st_rx_packets = 30, st_tx_packets = 0, st_rx_bytes = 2000, st_tx_bytes = 0\<rparr>"
  obtain st where g: "get_idev_statistics ?d (\<lambda>_. None) ?n (iface_zero :: nat ioss_interface) = Inr st"
    by (simp add: get_idev_statistics_def iface_zero_def Let_def)
  from statistics_files [OF g, of 4096] g show ?thesis by (intro exI [where x = st]) simp
qed

end
