(* ===== verification/R8125_Stats.thy ===== *)
theory R8125_Stats
  imports R8125_Ioss Ioss_Stats
begin

text \<open>
  The remaining operations of the Realtek glue driver (\<^verbatim>\<open>r8125_ioss/r8125_ioss.c\<close>): opening and closing
  the device, its counters and the status of a channel; with the notifier chain and the counters
  of the library interface (\<^verbatim>\<open>r8125/src/r8125_lib.c\<close>) and the tally-counter command
  (\<open>rtl8125_dump_tally_counter\<close> of \<^verbatim>\<open>r8125_n.c\<close>).

  The theorems show that opening is all or nothing and undone by closing, that the wait for the
  chip is bounded, that the device files of the offload subsystem show the chip's own counters,
  and that the status of a channel that was just given a ring reports the configured size.
\<close>

unbundle bit_operations_syntax

section \<open>Opening and closing the device\<close>

text \<open>
  The glue's objects (\<^verbatim>\<open>struct r8125_ioss_device\<close>) are named by numbers: those that are allocated, those
  whose notifier is on the driver's chain, and the one \<^verbatim>\<open>idev->private\<close> points to. \<^const>\<open>None\<close> as a
  result is memory freed twice.
\<close>

record glue_state =
  rdevs :: "nat list"
  lib_nh :: "nat list"
  gl_private :: "nat option"

record glue_kern =
  rdev_alloc :: "nat option"
  notifier_ok :: bool

definition rtl8125_register_notifier :: "glue_kern \<Rightarrow> nat \<Rightarrow> glue_state \<Rightarrow> int \<times> glue_state" where
  "rtl8125_register_notifier G n g = (if notifier_ok G then (0, g\<lparr>lib_nh := n # lib_nh g\<rparr>) else (- EEXIST, g))"

definition rtl8125_unregister_notifier :: "nat option \<Rightarrow> glue_state \<Rightarrow> int \<times> glue_state" where
  "rtl8125_unregister_notifier n g =
     (case n of
        None \<Rightarrow> (- ENOENT, g)
      | Some n \<Rightarrow> if n \<in> set (lib_nh g) then (0, g\<lparr>lib_nh := remove1 n (lib_nh g)\<rparr>) else (- ENOENT, g))"

text \<open>\<^verbatim>\<open>kzfree\<close>, which accepts NULL.\<close>

definition kzfree :: "nat option \<Rightarrow> glue_state \<Rightarrow> glue_state option" where
  "kzfree p g =
     (case p of
        None \<Rightarrow> Some g
      | Some n \<Rightarrow> if n \<in> set (rdevs g) then Some (g\<lparr>rdevs := remove1 n (rdevs g)\<rparr>) else None)"

definition r8125_ioss_open_device :: "bool \<Rightarrow> glue_kern \<Rightarrow> glue_state \<Rightarrow> (int \<times> glue_state) option" where
  "r8125_ioss_open_device diag_skip_open_device G g =
     (if diag_skip_open_device then Some (0, g)
      else (case rdev_alloc G of
              None \<Rightarrow> Some (- ENOMEM, g)
            | Some n \<Rightarrow>
                (case rtl8125_register_notifier G n (g\<lparr>rdevs := n # rdevs g\<rparr>) of (rc, g) \<Rightarrow>
                   if rc \<noteq> 0 then map_option (Pair (- EFAULT)) (kzfree (Some n) g)
                   else Some (0, g\<lparr>gl_private := Some n\<rparr>))))"

definition r8125_ioss_close_device :: "glue_state \<Rightarrow> (int \<times> glue_state) option" where
  "r8125_ioss_close_device g =
     map_option (Pair 0) (kzfree (gl_private g) (snd (rtl8125_unregister_notifier (gl_private g) g)))"

section \<open>Counters\<close>

record rtl8125_counters =
  tc_tx_packets :: u64
  tc_rx_packets :: u64
  tc_tx_errors :: u64
  tc_rx_errors :: u32
  tc_rx_missed :: u16
  tc_align_errors :: u16
  tc_tx_one_collision :: u32
  tc_tx_multi_collision :: u32
  tc_rx_unicast :: u64
  tc_rx_broadcast :: u64
  tc_rx_multicast :: u32
  tc_tx_aborted :: u16
  tc_tx_underrun :: u16
  tc_tx_octets :: u64
  tc_rx_octets :: u64
  tc_rx_multicast64 :: u64
  tc_tx_unicast64 :: u64
  tc_tx_broadcast64 :: u64
  tc_tx_multicast64 :: u64
  tc_tx_pause_on :: u32
  tc_tx_pause_off :: u32
  tc_tx_pause_all :: u32
  tc_tx_deferred :: u32
  tc_tx_late_collision :: u32
  tc_tx_all_collision :: u32
  tc_tx_aborted32 :: u32
  tc_align_errors32 :: u32
  tc_rx_frame_too_long :: u32
  tc_rx_runt :: u32
  tc_rx_pause_on :: u32
  tc_rx_pause_off :: u32
  tc_rx_pause_all :: u32
  tc_rx_unknown_opcode :: u32
  tc_rx_mac_error :: u32
  tc_tx_underrun32 :: u32
  tc_rx_mac_missed :: u32
  tc_rx_tcam_dropped :: u32
  tc_tdu :: u32
  tc_rdu :: u32

abbreviation (input) CounterAddrLow :: u16 where "CounterAddrLow \<equiv> 0x10"
abbreviation (input) CounterAddrHigh :: u16 where "CounterAddrHigh \<equiv> 0x14"
abbreviation (input) CounterDump :: u32 where "CounterDump \<equiv> 8"

text \<open>
  The polling loop: \<open>busy c\<close> is whether the chip still shows the command at the read that follows
  \<open>c\<close> waits. The result is \<open>WaitCnt\<close> after the loop.
\<close>

function tally_wait :: "(nat \<Rightarrow> bool) \<Rightarrow> nat \<Rightarrow> nat" where
  "tally_wait busy c = (if busy c then (if 20 < c + 1 then c + 1 else tally_wait busy (c + 1)) else c)"
  by auto
termination by (relation "measure (\<lambda>(busy, c). 21 - c)") auto

declare tally_wait.simps [simp del]

definition rtl8125_dump_tally_counter :: "(nat \<Rightarrow> bool) \<Rightarrow> dma_addr \<Rightarrow> rtl_private \<Rightarrow> int \<times> rtl_private" where
  "rtl8125_dump_tally_counter busy paddr tp =
     (let tp = RTL_W32 CounterAddrHigh 0 tp;
          tp = RTL_W32 CounterAddrLow paddr tp;
          tp = RTL_W32 CounterAddrLow (paddr OR CounterDump) tp;
          WaitCnt = tally_wait busy 0
      in (if WaitCnt \<le> 20 then 0 else - 1, tp))"

text \<open>
  \<open>rtl8125_lib_get_stats\<close>. \<open>tally\<close> is the bus address of the buffer with what the chip stores there,
  \<^const>\<open>None\<close> when the driver has no buffer. The caller's structure is only written on success.
\<close>

definition rtl8125_lib_get_stats ::
  "(nat \<Rightarrow> bool) \<Rightarrow> (dma_addr \<times> rtl8125_counters) option \<Rightarrow> rtl_private \<Rightarrow> int \<times> rtl8125_counters option \<times> rtl_private" where
  "rtl8125_lib_get_stats busy tally tp =
     (case tally of
        None \<Rightarrow> (- 1, None, tp)
      | Some (paddr, counters) \<Rightarrow>
          (case rtl8125_dump_tally_counter busy paddr tp of (rc, tp) \<Rightarrow>
             if rc < 0 then (rc, None, tp) else (rc, Some counters, tp)))"

definition r8125_ioss_device_statistics ::
  "(nat \<Rightarrow> bool) \<Rightarrow> (dma_addr \<times> rtl8125_counters) option \<Rightarrow> rtl_private \<Rightarrow> device_stats \<Rightarrow> int \<times> device_stats \<times> rtl_private" where
  "r8125_ioss_device_statistics busy tally tp st =
     (case rtl8125_lib_get_stats busy tally tp of
        (rc, None, tp) \<Rightarrow> (rc, st, tp)
      | (rc, Some c, tp) \<Rightarrow>
          (rc, st\<lparr>emac_tx_packets := tc_tx_packets c, emac_rx_packets := tc_rx_packets c,
                  emac_tx_errors := tc_tx_errors c, emac_rx_errors := ucast (tc_rx_errors c),
                  emac_rx_bytes := tc_rx_octets c, emac_tx_bytes := tc_tx_octets c,
                  emac_rx_drops := ucast (tc_rx_missed c), emac_tx_drops := ucast (tc_tx_underrun32 c),
                  emac_rx_pause_frames := ucast (tc_rx_pause_all c), emac_tx_pause_frames := ucast (tc_tx_pause_all c)\<rparr>, tp))"

definition r8125_ioss_channel_statistics :: "ring_ref ioss_channel \<Rightarrow> channel_stats \<Rightarrow> int \<times> channel_stats" where
  "r8125_ioss_channel_statistics ch st = (0, st)"

section \<open>Channel status\<close>

abbreviation (input) R8125_TX_NEW_CTRL :: u16 where "R8125_TX_NEW_CTRL \<equiv> 0x203E"
abbreviation (input) SW_TAIL_PTR0_8125 :: u16 where "SW_TAIL_PTR0_8125 \<equiv> 0x2800"
abbreviation (input) HW_CLO_PTR0_8125 :: u16 where "HW_CLO_PTR0_8125 \<equiv> 0x2802"

definition PKT_UNIT :: "u64 list" where
  "PKT_UNIT = [1, 2, 4, 16]"

definition get_ch_mod :: "ring_ref ioss_channel \<Rightarrow> rtl_private \<Rightarrow> channel_status \<Rightarrow> channel_status" where
  "get_ch_mod ch tp st =
     (let ch_mod_reg = RTL_R16 tp ((if direction ch = CH_DIR_RX then INT_MITI_V2_0_RX else INT_MITI_V2_0_TX) + word_of_int (ch_id ch * 8));
          modc_unit = drop_bit 12 (ch_mod_reg AND 0x3000);
          modc_val = drop_bit 8 (ch_mod_reg AND 0x0F00)
      in st\<lparr>interrupt_modc := ucast modc_val * PKT_UNIT ! unat modc_unit,
            interrupt_modt := ucast (ch_mod_reg AND 0x00FF) * 2048\<rparr>)"

text \<open>A missing ring, or one without memory, is dereferenced: \<^const>\<open>None\<close>.\<close>

definition get_ch_enabled :: "ring_ref ioss_channel \<Rightarrow> rtl_private \<Rightarrow> channel_status \<Rightarrow> channel_status option" where
  "get_ch_enabled ch tp st =
     (if direction ch = CH_DIR_RX then map_option (\<lambda>r. st\<lparr>cs_enabled := rg_enabled (get_ring tp r)\<rparr>) (ch_private ch)
      else
        let tc_mode = drop_bit 10 (RTL_R16 tp R8125_TX_NEW_CTRL AND 0x0C00) in
        Some (if tc_mode = 1 \<or> tc_mode = 0 \<and> ch_id ch = 0 then st\<lparr>cs_enabled := True\<rparr> else st))"

definition get_ch_ring_size :: "ring_ref ioss_channel \<Rightarrow> rtl_private \<Rightarrow> channel_status \<Rightarrow> channel_status option" where
  "get_ch_ring_size ch tp st =
     (case ch_private ch of
        None \<Rightarrow> None
      | Some r \<Rightarrow>
          let g = get_ring tp r in
          if rg_desc_addr g = 0 \<or> rg_ring_size g = 0 then None
          else
            let opts1 = snd (descs tp (rg_desc_addr g) ! (unat (rg_ring_size g) - 1)) in
            Some (if opts1 AND RingEnd \<noteq> 0 then st\<lparr>cs_ring_size := ucast (rg_ring_size g)\<rparr> else st))"

definition get_ch_head_tail_ptr :: "ring_ref ioss_channel \<Rightarrow> rtl_private \<Rightarrow> channel_status \<Rightarrow> channel_status" where
  "get_ch_head_tail_ptr ch tp st =
     (if direction ch = CH_DIR_TX
      then st\<lparr>head_ptr := ucast (RTL_R16 tp (SW_TAIL_PTR0_8125 + word_of_int (ch_id ch * 4))),
              tail_ptr := ucast (RTL_R16 tp (HW_CLO_PTR0_8125 + word_of_int (ch_id ch * 4)))\<rparr>
      else st)"

text \<open>\<open>opened\<close> is whether \<^verbatim>\<open>idev->private\<close> is set; it is dereferenced at once.\<close>

definition r8125_ioss_channel_status ::
  "bool \<Rightarrow> ring_ref ioss_channel \<Rightarrow> rtl_private \<Rightarrow> channel_status \<Rightarrow> (int \<times> channel_status) option" where
  "r8125_ioss_channel_status opened ch tp st =
     (if \<not> opened then None
      else do {
        st \<leftarrow> get_ch_enabled ch tp (get_ch_mod ch tp st);
        st \<leftarrow> get_ch_ring_size ch tp st;
        Some (0, get_ch_head_tail_ptr ch tp st)
      })"

section \<open>Lemmas\<close>

definition counters_zero :: rtl8125_counters where
  "counters_zero = \<lparr>tc_tx_packets = 0, tc_rx_packets = 0, tc_tx_errors = 0, tc_rx_errors = 0, tc_rx_missed = 0,
     tc_align_errors = 0, tc_tx_one_collision = 0, tc_tx_multi_collision = 0, tc_rx_unicast = 0, tc_rx_broadcast = 0,
     tc_rx_multicast = 0, tc_tx_aborted = 0, tc_tx_underrun = 0, tc_tx_octets = 0, tc_rx_octets = 0,
     tc_rx_multicast64 = 0, tc_tx_unicast64 = 0, tc_tx_broadcast64 = 0, tc_tx_multicast64 = 0, tc_tx_pause_on = 0,
     tc_tx_pause_off = 0, tc_tx_pause_all = 0, tc_tx_deferred = 0, tc_tx_late_collision = 0, tc_tx_all_collision = 0,
     tc_tx_aborted32 = 0, tc_align_errors32 = 0, tc_rx_frame_too_long = 0, tc_rx_runt = 0, tc_rx_pause_on = 0,
     tc_rx_pause_off = 0, tc_rx_pause_all = 0, tc_rx_unknown_opcode = 0, tc_rx_mac_error = 0, tc_tx_underrun32 = 0,
     tc_rx_mac_missed = 0, tc_rx_tcam_dropped = 0, tc_tdu = 0, tc_rdu = 0\<rparr>"

subsection \<open>Opening and closing\<close>

text \<open>
  Opening the device is all or nothing, and closing it gives back the object and takes the
  notifier off the chain; the pointer to the freed object stays in \<^verbatim>\<open>idev->private\<close>.
\<close>

theorem open_close_device:
  assumes "\<forall>n. rdev_alloc G = Some n \<longrightarrow> n \<notin> set (rdevs g) \<and> n \<notin> set (lib_nh g)"
    and "r8125_ioss_open_device False G g = Some (rc, g1)"
  shows "if rc = 0
         then \<exists>n. g1 = g\<lparr>rdevs := n # rdevs g, lib_nh := n # lib_nh g, gl_private := Some n\<rparr>
           \<and> r8125_ioss_close_device g1 = Some (0, g\<lparr>gl_private := Some n\<rparr>)
         else g1 = g"
  using assms
  by (auto simp: r8125_ioss_open_device_def r8125_ioss_close_device_def rtl8125_register_notifier_def
      rtl8125_unregister_notifier_def kzfree_def split: option.splits if_splits)

subsection \<open>Counters\<close>

lemma tally_wait_bound: "c \<le> 20 \<Longrightarrow> tally_wait busy c \<le> 21"
  by (induction busy c rule: tally_wait.induct) (subst tally_wait.simps, simp)

lemma tally_wait_iff: "c \<le> 20 \<Longrightarrow> tally_wait busy c \<le> 20 \<longleftrightarrow> (\<exists>k. c \<le> k \<and> k \<le> 20 \<and> \<not> busy k)"
proof (induction busy c rule: tally_wait.induct)
  case (1 busy c)
  show ?case
  proof (cases "busy c \<and> c + 1 \<le> 20")
    case True
    then have "tally_wait busy c = tally_wait busy (c + 1)" by (subst tally_wait.simps) simp
    moreover have "(\<exists>k. c \<le> k \<and> k \<le> 20 \<and> \<not> busy k) \<longleftrightarrow> (\<exists>k. c + 1 \<le> k \<and> k \<le> 20 \<and> \<not> busy k)"
      using True by (metis Suc_eq_plus1 Suc_leD Suc_leI le_neq_implies_less)
    ultimately show ?thesis using "1.IH" True by simp
  next
    case False
    show ?thesis
    proof (cases "busy c")
      case True
      with False "1.prems" have "c = 20" by simp
      with True show ?thesis by (subst tally_wait.simps) (auto dest: le_antisym)
    next
      case idle: False
      with "1.prems" show ?thesis by (subst tally_wait.simps) auto
    qed
  qed
qed

text \<open>The two callbacks as the statistics code of the subsystem sees them.\<close>

definition r8125_devst :: "(nat \<Rightarrow> bool) \<Rightarrow> (dma_addr \<times> rtl8125_counters) option \<Rightarrow> rtl_private \<Rightarrow> device_stats \<Rightarrow> device_stats option" where
  "r8125_devst busy tally tp st =
     (case r8125_ioss_device_statistics busy tally tp st of (rc, st, _) \<Rightarrow> if rc = 0 then Some st else None)"

definition r8125_chst :: "ring_ref ioss_channel \<Rightarrow> channel_stats option" where
  "r8125_chst ch =
     (case r8125_ioss_channel_statistics ch \<lparr>overflow_error = 0, underflow_error = 0, desc_unavail = 0\<rparr> of
        (rc, st) \<Rightarrow> if rc = 0 then Some st else None)"

lemma r8125_no_channel_errors: "add_channel_errors r8125_chst chs st = Some st"
  by (induction chs) (simp_all add: r8125_chst_def r8125_ioss_channel_statistics_def Let_def)

lemma dump_tally_rc: "fst (rtl8125_dump_tally_counter busy p tp) = (if \<exists>k\<le>20. \<not> busy k then 0 else - 1)"
  using tally_wait_iff [of 0 busy] by (auto simp: rtl8125_dump_tally_counter_def Let_def)

text \<open>
  Statistics of a Realtek device: when the driver has its counter buffer and the chip answers
  at one of the first twenty-one reads, the subsystem reports the chip's own packet, byte and drop
  counters, and the packets that took the hardware path are the chip's count plus the exception
  packets less those of the network stack (modulo 64 bits). Otherwise the file cannot be read and
  nothing is reported; the wait never exceeds twenty-one polls.
\<close>

theorem r8125_statistics:
  fixes i :: "ring_ref ioss_interface"
  shows "tally_wait busy 0 \<le> 21
    \<and> (case tally of
         Some (p, c) \<Rightarrow>
           if \<exists>k\<le>20. \<not> busy k
           then \<exists>st. get_idev_statistics (r8125_devst busy tally tp) r8125_chst net i = Inr st
             \<and> emac_rx_packets st = tc_rx_packets c \<and> emac_tx_packets st = tc_tx_packets c
             \<and> emac_rx_bytes st = tc_rx_octets c \<and> emac_tx_bytes st = tc_tx_octets c
             \<and> hwp_rx_drops st = ucast (tc_rx_missed c) \<and> hwp_rx_errors st = 0 \<and> hwp_tx_errors st = 0
             \<and> (tc_rx_packets c \<noteq> 0 \<longrightarrow> hwp_rx_packets st = tc_rx_packets c + exc_rx_packets i - st_rx_packets net)
             \<and> (tc_tx_packets c \<noteq> 0 \<longrightarrow> hwp_tx_packets st = tc_tx_packets c - st_tx_packets net)
           else get_idev_statistics (r8125_devst busy tally tp) r8125_chst net i = Inl (- EFAULT)
       | None \<Rightarrow> get_idev_statistics (r8125_devst busy tally tp) r8125_chst net i = Inl (- EFAULT))"
proof (cases tally)
  case None
  then show ?thesis
    by (simp add: tally_wait_bound get_idev_statistics_def r8125_devst_def r8125_ioss_device_statistics_def rtl8125_lib_get_stats_def)
next
  case (Some x)
  obtain p c where t: "tally = Some (p, c)" using Some by (cases x) simp
  obtain rc tp' where d: "rtl8125_dump_tally_counter busy p tp = (rc, tp')" by fastforce
  with dump_tally_rc [of busy p tp] have rc: "rc = (if \<exists>k\<le>20. \<not> busy k then 0 else - 1)" by simp
  show ?thesis
    by (cases "\<exists>k\<le>20. \<not> busy k")
      (simp_all add: t d rc tally_wait_bound get_idev_statistics_def r8125_devst_def r8125_ioss_device_statistics_def
        rtl8125_lib_get_stats_def r8125_no_channel_errors device_stats_zero_def Let_def)
qed

theorem r8125_statistics_witness:
  "\<exists>st. get_idev_statistics (r8125_devst (\<lambda>k. k < 3) (Some (0x80000000, counters_zero\<lparr>tc_rx_packets := 9\<rparr>)) demo_chip) r8125_chst
       \<lparr>st_rx_packets = 4, st_tx_packets = 0, st_rx_bytes = 0, st_tx_bytes = 0\<rparr> iface_zero = Inr st \<and> hwp_rx_packets st = 5"
proof -
  have "\<exists>k\<le>20. \<not> k < (3 :: nat)" by (rule exI [where x = 3]) simp
  with r8125_statistics [of "\<lambda>k. k < 3" "Some (0x80000000, counters_zero\<lparr>tc_rx_packets := 9\<rparr>)" demo_chip
      "\<lparr>st_rx_packets = 4, st_tx_packets = 0, st_rx_bytes = 0, st_tx_bytes = 0\<rparr>" iface_zero]
  show ?thesis by (auto simp: iface_zero_def)
qed

subsection \<open>Status of a channel\<close>

lemma init_ring_memory:
  assumes "rtl8125_init_ring_dir d g tp = Some tp'" "rg_allocated g"
  shows "rg_desc_addr g \<noteq> 0 \<and> rg_ring_size g \<noteq> 0"
  using assms by (auto simp: rtl8125_init_ring_dir_def split: option.splits if_splits)

lemma requested_ring_memory:
  assumes "rtl8125_request_ring K rsz bsz d CONTIG_BUFS False tp w = Some (res, tp', w')" "wf_rings tp" "bsz AND RingEnd = 0"
  shows "\<exists>r. res = Some r \<and> rg_desc_addr (get_ring tp' r) \<noteq> 0 \<and> rg_ring_size (get_ring tp' r) = rsz \<and> rsz \<noteq> 0
    \<and> snd (descs tp' (rg_desc_addr (get_ring tp' r)) ! (unat rsz - 1)) AND RingEnd \<noteq> 0"
proof -
  from request_ring_run [OF assms(1,2)] obtain i g tp1 where
    i: "res = Some (d, i)" "valid_ref tp (d, i)" and lr: "lent_ring d rsz bsz g"
    and tp1: "tp1 = (put_ring (d, i) g tp)\<lparr>descs := (descs tp)(rg_desc_addr g := replicate (unat rsz) (0, 0))\<rparr>"
    and ini: "rtl8125_init_ring_dir d g tp1 = Some tp'" by blast
  from lr have g: "rg_allocated g" "rg_ring_size g = rsz" "rg_buff_size g = bsz" "rsz \<noteq> 0" by (simp_all add: lent_ring_def)
  have "programmed d g tp' \<and> same_rings tp1 tp'"
    using init_ring_programs [OF ini g(1)] g assms(3) by (simp add: tp1)
  moreover have "get_ring tp1 (d, i) = g"
    using i(2) by (simp add: tp1 get_ring_def lib_rings_def put_ring_def valid_ref_def split: channel_dir.splits)
  ultimately have p: "programmed d g tp'" "get_ring tp' (d, i) = g" using same_rings_get [of tp1 tp'] by auto
  have "0 < unat rsz" using g(4) by (simp add: unat_gt_0)
  then have "snd (descs tp' (rg_desc_addr g) ! (unat rsz - 1)) AND RingEnd \<noteq> 0"
    using p(1) g(2) by (simp add: programmed_def Let_def list_all_iff)
  with i(1) p(2) g init_ring_memory [OF ini g(1)] show ?thesis by auto
qed

lemma field_le:
  fixes v m :: u16
  shows "unat (drop_bit n (v AND m)) \<le> unat (drop_bit n m)"
proof -
  have "drop_bit n (v AND m) = drop_bit n v AND drop_bit n m" by simp
  then show ?thesis by (metis word_and_le1 word_le_nat_alt)
qed

lemma times_le:
  fixes x y :: u64
  assumes "unat x \<le> a" "unat y \<le> b"
  shows "unat (x * y) \<le> a * b"
proof -
  have "unat (x * y) \<le> unat x * unat y" by (simp add: unat_word_ariths)
  also have "\<dots> \<le> a * b" using assms by (rule mult_le_mono)
  finally show ?thesis .
qed

lemma ucast_unat: "unat (ucast (v :: u16) :: u64) = unat v"
  by (simp add: unsigned_ucast_eq take_bit_nat_eq_self unsigned_less [THEN less_le_trans])

lemma pkt_unit_le: "k \<le> 3 \<Longrightarrow> unat (PKT_UNIT ! k) \<le> 16"
proof -
  assume "k \<le> 3"
  then consider "k = 0" | "k = 1" | "k = 2" | "k = 3" by linarith
  then show ?thesis by cases (simp_all add: PKT_UNIT_def)
qed

lemma ch_mod_bounds:
  "unat (interrupt_modc (get_ch_mod ch tp st)) \<le> 240 \<and> unat (interrupt_modt (get_ch_mod ch tp st)) \<le> 522240"
proof -
  let ?v = "RTL_R16 tp ((if direction ch = CH_DIR_RX then INT_MITI_V2_0_RX else INT_MITI_V2_0_TX) + word_of_int (ch_id ch * 8))"
  have unit: "unat (drop_bit 12 (?v AND 0x3000)) \<le> 3" using field_le [of 12 ?v "0x3000"] by simp
  then have "unat (PKT_UNIT ! unat (drop_bit 12 (?v AND 0x3000))) \<le> 16" by (rule pkt_unit_le)
  moreover have "unat (drop_bit 8 (?v AND 0x0F00)) \<le> 15" using field_le [of 8 ?v "0x0F00"] by simp
  ultimately have c: "unat (ucast (drop_bit 8 (?v AND 0x0F00)) * PKT_UNIT ! unat (drop_bit 12 (?v AND 0x3000))) \<le> 15 * 16"
    by (intro times_le) (simp_all add: ucast_unat)
  have "unat (?v AND 0x00FF) \<le> 255" using field_le [of 0 ?v "0x00FF"] by simp
  then have "unat (ucast (?v AND 0x00FF) * (2048 :: u64)) \<le> 255 * 2048" by (intro times_le) (simp_all add: ucast_unat)
  with c show ?thesis by (simp add: get_ch_mod_def Let_def)
qed

lemma status_keeps_mod:
  assumes "get_ch_enabled ch tp st = Some st1" "get_ch_ring_size ch tp st1 = Some st2"
  shows "interrupt_modc (get_ch_head_tail_ptr ch tp st2) = interrupt_modc st \<and> interrupt_modt (get_ch_head_tail_ptr ch tp st2) = interrupt_modt st
    \<and> cs_ring_size (get_ch_head_tail_ptr ch tp st2) = cs_ring_size st2"
  using assms
  by (auto simp: get_ch_enabled_def get_ch_ring_size_def get_ch_head_tail_ptr_def Let_def split: if_splits option.splits)

lemma head_tail_bounds:
  assumes "get_ch_enabled ch tp st = Some st1" "get_ch_ring_size ch tp st1 = Some st2" "head_ptr st = 0" "tail_ptr st = 0"
  shows "unat (head_ptr (get_ch_head_tail_ptr ch tp st2)) < 2 ^ 16 \<and> unat (tail_ptr (get_ch_head_tail_ptr ch tp st2)) < 2 ^ 16"
proof -
  have "head_ptr st2 = 0" "tail_ptr st2 = 0"
    using assms by (auto simp: get_ch_enabled_def get_ch_ring_size_def Let_def split: if_splits option.splits)
  then show ?thesis using unsigned_less [where 'a = nat and 'b = 16] by (simp add: get_ch_head_tail_ptr_def ucast_unat)
qed

text \<open>
  The status of a channel that was given a ring: it can always be read, the size it shows is
  the configured number of descriptors (the check of the last descriptor's end mark succeeds), and
  every other figure is in range: at most 240 packets and 522240 nanoseconds of interrupt
  moderation and 16-bit ring pointers.
\<close>

theorem lent_channel_status:
  assumes "r8125_ioss_request_channel D B K ch (tp, k) = Some (0, ch', tp', k')" "\<not> diag_skip_request_channel D"
    and "wf_rings tp" "buff_size (config ch) AND RingEnd = 0"
  shows "\<exists>st. r8125_ioss_channel_status True ch' tp' channel_status_zero = Some (0, st)
    \<and> cs_ring_size st = ucast (ring_size (config ch))
    \<and> unat (interrupt_modc st) \<le> 240 \<and> unat (interrupt_modt st) \<le> 522240
    \<and> unat (head_ptr st) < 2 ^ 16 \<and> unat (tail_ptr st) < 2 ^ 16"
proof -
  from assms(1,2) obtain r0 tp0 k0 where
    rq: "rtl8125_request_ring K (ring_size (config ch)) (buff_size (config ch)) (direction ch) CONTIG_BUFS False tp k = Some (r0, tp0, k0)"
    by (auto simp: r8125_ioss_request_channel_def split: option.splits)
  from requested_ring_memory [OF rq assms(3,4)] obtain r where
    r: "r0 = Some r" "rg_desc_addr (get_ring tp0 r) \<noteq> 0" "rg_ring_size (get_ring tp0 r) = ring_size (config ch)" "ring_size (config ch) \<noteq> 0"
      "snd (descs tp0 (rg_desc_addr (get_ring tp0 r)) ! (unat (ring_size (config ch)) - 1)) AND RingEnd \<noteq> 0" by blast
  have ch': "ch_private ch' = Some r" "tp' = tp0"
    using assms(1,2) rq r(1)
    by (auto simp: r8125_ioss_request_channel_def err_add_desc_def Let_def forget_ring_def split: prod.splits if_splits option.splits)
  let ?m = "get_ch_mod ch' tp' channel_status_zero"
  obtain st1 where e: "get_ch_enabled ch' tp' ?m = Some st1"
    using ch' by (cases "direction ch' = CH_DIR_RX") (simp_all add: get_ch_enabled_def Let_def)
  have z: "get_ch_ring_size ch' tp' st1 = Some (st1\<lparr>cs_ring_size := ucast (ring_size (config ch))\<rparr>)"
    using ch' r by (simp add: get_ch_ring_size_def Let_def)
  have "head_ptr ?m = 0" "tail_ptr ?m = 0" by (simp_all add: get_ch_mod_def Let_def channel_status_zero_def)
  from e z status_keeps_mod [OF e z] head_tail_bounds [OF e z this] ch_mod_bounds [of ch' tp' channel_status_zero] show ?thesis
    by (simp add: r8125_ioss_channel_status_def)
qed

theorem lent_channel_status_witness:
  "\<exists>ch tp st. r8125_ioss_request_channel diag_none base_id ok_kern ((rtl_channel CH_DIR_RX)\<lparr>config := \<lparr>ring_size = 2, buff_size = 2048, desc_alctr = None, buff_alctr = None\<rparr>\<rparr>) (demo_chip, ())
       = Some (0, ch, tp, ())
     \<and> r8125_ioss_channel_status True ch tp channel_status_zero = Some (0, st) \<and> cs_ring_size st = 2"
proof -
  let ?c = "(rtl_channel CH_DIR_RX)\<lparr>config := \<lparr>ring_size = 2, buff_size = 2048, desc_alctr = None, buff_alctr = None\<rparr>\<rparr>"
  let ?r = "r8125_ioss_request_channel diag_none base_id ok_kern ?c (demo_chip, ())"
  have "\<exists>ch tp k. ?r = Some (0, ch, tp, k)" by (simp add: rtl_eval diag_none_def)
  then obtain ch tp where r: "?r = Some (0, ch, tp, ())" by auto
  from lent_channel_status [OF r _ wf_demo_chip] show ?thesis using r by (auto simp: diag_none_def)
qed

end
