(* ===== verification/R8125_Tx.thy ===== *)
theory R8125_Tx
  imports R8125_State
begin

text \<open>
  The transmit path of the Realtek network driver (\<^verbatim>\<open>r8125/src/r8125_n.c\<close>, \<open>rtl8125_unmap_tx_skb\<close> to
  \<open>rtl8125_tx_interrupt_with_vector\<close>, as the Makefile builds it: VLAN support, no time stamping, without
  \<^verbatim>\<open>ENABLE_MULTIPLE_TX_QUEUE\<close>; the definitions work for any number of transmit rings).

  A transmit ring is an array of descriptors the chip reads and an array \<open>tx_skb\<close> of the same
  index that remembers what to release. \<open>cur_tx\<close> counts the descriptors ever filled and \<open>dirty_tx\<close>
  those released; both are 32-bit counters that wrap, and the index of a descriptor is the counter
  modulo the ring size.

  A socket buffer is a record with the fields the driver reads; \<open>sk_id\<close> is its address. The kernel
  is the parameter \<open>tx_kern\<close>: DMA mapping (\<^const>\<open>None\<close> is a mapping error), \<open>skb_padto\<close> (\<^const>\<open>None\<close>
  is the error return, after which the kernel has freed the buffer), \<open>skb_cow_head\<close>,
  \<open>skb_checksum_help\<close> and the pseudo-header checksum. The state keeps the live DMA mappings
  (\<open>mapped\<close>) and every release of a socket buffer (\<open>freed\<close>), so that leaks and double releases are
  visible. \<open>MAX_SKB_FRAGS\<close> is the kernel's value for 4096-byte pages.
\<close>

unbundle bit_operations_syntax

section \<open>State\<close>

record tx_desc =
  td_opts1 :: u32
  td_opts2 :: u32
  td_addr :: u64

record ring_info =
  ri_skb :: "nat option"
  ri_len :: u32

record tx_ring =
  tr_index :: nat
  cur_tx :: u32
  dirty_tx :: u32
  num_tx_desc :: u32
  TxDescArray :: "tx_desc list"
  tx_skb :: "ring_info list"
  NextHwDesCloPtr :: u32
  BeginHwDesCloPtr :: u32
  hw_clo_ptr_reg :: u16
  sw_tail_ptr_reg :: u16

record skb =
  sk_id :: nat
  sk_data :: u64
  sk_len :: u32
  sk_data_len :: u32
  sk_frags :: "(u64 \<times> u32) list"
  sk_protocol :: u16
  sk_gso_size :: u32
  sk_network_offset :: int
  sk_transport_set :: bool
  sk_transport_offset :: int
  sk_ip_proto :: u8
  sk_nexthdr :: u8
  sk_dest_port :: u16
  sk_partial :: bool
  sk_vlan :: "u16 option"
  sk_tcp_check :: u16

record 'w tx_kern =
  tk_map :: "u64 \<Rightarrow> u32 \<Rightarrow> 'w \<Rightarrow> u64 option \<times> 'w"
  tk_padto :: "skb \<Rightarrow> u32 \<Rightarrow> 'w \<Rightarrow> skb option \<times> 'w"
  tk_cow_head :: "skb \<Rightarrow> 'w \<Rightarrow> skb option \<times> 'w"
  tk_csum_help :: "skb \<Rightarrow> 'w \<Rightarrow> skb \<times> 'w"
  tk_v6_check :: "skb \<Rightarrow> u16"

record 'w tx_dev =
  tx_rings :: "tx_ring list"
  EnableTxNoClose :: bool
  RequireLSOPatch :: bool
  UseSwPaddingShortPkt :: bool
  ShortPacketSwChecksum :: bool
  tx_tcp_csum_cmd :: u32
  tx_udp_csum_cmd :: u32
  tx_ip_csum_cmd :: u32
  tx_ipv6_csum_cmd :: u32
  f_tso :: bool
  f_ip_csum :: bool
  f_ipv6_csum :: bool
  tx_dropped :: u64
  tx_packets :: u64
  tx_bytes :: u64
  q_stopped :: "nat \<Rightarrow> bool"
  tx_regs :: "u16 \<Rightarrow> u16"
  freed :: "nat list"
  mapped :: "(u64 \<times> u32) multiset"
  tx_w :: 'w

abbreviation (input) FirstFrag :: u32 where "FirstFrag \<equiv> 0x20000000"
abbreviation (input) LastFrag :: u32 where "LastFrag \<equiv> 0x10000000"
abbreviation (input) GiantSendv4 :: u32 where "GiantSendv4 \<equiv> 0x04000000"
abbreviation (input) GiantSendv6 :: u32 where "GiantSendv6 \<equiv> 0x02000000"
abbreviation (input) TxVlanTag :: u32 where "TxVlanTag \<equiv> 0x00020000"
abbreviation (input) RTK_MAGIC_DEBUG_VALUE :: u32 where "RTK_MAGIC_DEBUG_VALUE \<equiv> 0x0badbeef"
abbreviation (input) RTL8125_MAGIC_NUMBER :: u64 where "RTL8125_MAGIC_NUMBER \<equiv> 0x0badbadbadbadbad"
abbreviation (input) MAX_TX_NO_CLOSE_DESC_PTR_V2 :: u32 where "MAX_TX_NO_CLOSE_DESC_PTR_V2 \<equiv> 0x10000"
abbreviation (input) TPPOLL_8125 :: u16 where "TPPOLL_8125 \<equiv> 0x90"
abbreviation (input) GTTCPHO_MAX :: u32 where "GTTCPHO_MAX \<equiv> 0x70"
abbreviation (input) TCPHO_MAX :: u32 where "TCPHO_MAX \<equiv> 0x3ff"
abbreviation (input) MSS_MAX :: u32 where "MSS_MAX \<equiv> 0x7ff"
abbreviation (input) MAX_SKB_FRAGS :: nat where "MAX_SKB_FRAGS \<equiv> 17"
abbreviation (input) MAX_NUM_TX_DESC :: nat where "MAX_NUM_TX_DESC \<equiv> 1024"
abbreviation (input) ETH_ZLEN :: u32 where "ETH_ZLEN \<equiv> 60"
abbreviation (input) ETH_FRAME_LEN :: nat where "ETH_FRAME_LEN \<equiv> 1514"
abbreviation (input) ETH_P_IP :: u16 where "ETH_P_IP \<equiv> 0x0800"
abbreviation (input) ETH_P_IPV6 :: u16 where "ETH_P_IPV6 \<equiv> 0x86DD"
abbreviation (input) IPPROTO_TCP :: u8 where "IPPROTO_TCP \<equiv> 6"
abbreviation (input) IPPROTO_UDP :: u8 where "IPPROTO_UDP \<equiv> 17"
abbreviation (input) IPPROTO_RAW :: u8 where "IPPROTO_RAW \<equiv> 255"

section \<open>Kernel services\<close>

definition dma_map_single :: "'w tx_kern \<Rightarrow> u64 \<Rightarrow> u32 \<Rightarrow> 'w tx_dev \<Rightarrow> u64 option \<times> 'w tx_dev" where
  "dma_map_single K a len d =
     (case tk_map K a len (tx_w d) of
        (None, w) \<Rightarrow> (None, d\<lparr>tx_w := w\<rparr>)
      | (Some m, w) \<Rightarrow> (Some m, d\<lparr>tx_w := w, mapped := add_mset (m, len) (mapped d)\<rparr>))"

definition kfree_skb :: "nat \<Rightarrow> 'w tx_dev \<Rightarrow> 'w tx_dev" where
  "kfree_skb s d = d\<lparr>freed := freed d @ [s]\<rparr>"

section \<open>Releasing descriptors\<close>

definition unmap_tx_skb :: "nat \<Rightarrow> tx_ring \<times> 'w tx_dev \<Rightarrow> tx_ring \<times> 'w tx_dev" where
  "unmap_tx_skb entry rd = (case rd of (r, d) \<Rightarrow>
     (let info = tx_skb r ! entry; desc = TxDescArray r ! entry in
      (r\<lparr>TxDescArray := (TxDescArray r)[entry := desc\<lparr>td_opts1 := RTK_MAGIC_DEBUG_VALUE, td_opts2 := 0,
                                                       td_addr := RTL8125_MAGIC_NUMBER\<rparr>],
         tx_skb := (tx_skb r)[entry := info\<lparr>ri_len := 0\<rparr>]\<rparr>,
       d\<lparr>mapped := mapped d - {# (td_addr desc, ri_len info) #}\<rparr>)))"

definition set_skb :: "nat \<Rightarrow> nat option \<Rightarrow> tx_ring \<Rightarrow> tx_ring" where
  "set_skb entry s r = r\<lparr>tx_skb := (tx_skb r)[entry := (tx_skb r ! entry)\<lparr>ri_skb := s\<rparr>]\<rparr>"

definition tx_clear_slot :: "u32 \<Rightarrow> tx_ring \<times> 'w tx_dev \<Rightarrow> tx_ring \<times> 'w tx_dev" where
  "tx_clear_slot p rd =
     (let entry = unat (p mod num_tx_desc (fst rd)); info = tx_skb (fst rd) ! entry in
      if ri_len info = 0 then rd
      else case unmap_tx_skb entry rd of (r, d) \<Rightarrow>
        (case ri_skb info of
           None \<Rightarrow> (r, d)
         | Some s \<Rightarrow> (set_skb entry None r, kfree_skb s (d\<lparr>tx_dropped := tx_dropped d + 1\<rparr>))))"

definition tx_clear_range :: "u32 \<Rightarrow> nat \<Rightarrow> tx_ring \<times> 'w tx_dev \<Rightarrow> tx_ring \<times> 'w tx_dev" where
  "tx_clear_range start n rd = fold (\<lambda>i. tx_clear_slot (start + of_nat i)) [0 ..< n] rd"

definition tx_clear_ring :: "nat \<Rightarrow> 'w tx_dev \<Rightarrow> 'w tx_dev" where
  "tx_clear_ring i d =
     (let r = tx_rings d ! i in
      case tx_clear_range (dirty_tx r) (unat (num_tx_desc r)) (r, d) of (r, d) \<Rightarrow>
        d\<lparr>tx_rings := (tx_rings d)[i := r\<lparr>cur_tx := 0, dirty_tx := 0\<rparr>]\<rparr>)"

definition tx_clear :: "'w tx_dev \<Rightarrow> 'w tx_dev" where
  "tx_clear d = fold tx_clear_ring [0 ..< length (tx_rings d)] d"

section \<open>Fragments\<close>

definition get_txd_opts1 :: "tx_ring \<Rightarrow> u32 \<Rightarrow> u32 \<Rightarrow> u32 \<Rightarrow> u32" where
  "get_txd_opts1 r opts1 len entry =
     (let status = opts1 OR len in
      if entry = num_tx_desc r - 1 then status OR RingEnd else status)"

text \<open>The stores into a descriptor and its bookkeeping entry.\<close>

definition put_txd :: "u32 \<Rightarrow> u32 \<Rightarrow> u32 \<Rightarrow> u64 \<Rightarrow> u32 \<Rightarrow> tx_ring \<Rightarrow> tx_ring" where
  "put_txd entry status opts2 addr len r =
     (let e = unat entry in
      r\<lparr>TxDescArray := (TxDescArray r)[e := \<lparr>td_opts1 = status, td_opts2 = opts2, td_addr = addr\<rparr>],
        tx_skb := (tx_skb r)[e := (tx_skb r ! e)\<lparr>ri_len := len\<rparr>]\<rparr>)"

text \<open>
  One descriptor of a fragment. The flag tells whether the mapping succeeded.
\<close>

definition xmit_txd :: "'w tx_kern \<Rightarrow> u32 \<times> u32 \<Rightarrow> bool \<Rightarrow> u64 \<Rightarrow> u32 \<Rightarrow> u32 \<Rightarrow> tx_ring \<times> 'w tx_dev
    \<Rightarrow> bool \<times> tx_ring \<times> 'w tx_dev" where
  "xmit_txd K opts lst addr len entry rd = (case rd of (r, d) \<Rightarrow>
     (case dma_map_single K addr len d of
        (None, d) \<Rightarrow> (False, r, d)
      | (Some m, d) \<Rightarrow>
          (let status = get_txd_opts1 r (fst opts) len entry;
               status = (if lst then status OR LastFrag else status)
           in (True, put_txd entry status (snd opts) m len r, d))))"

text \<open>
  The loop over the fragments. \<open>cf\<close> is \<open>cur_frag\<close>, \<open>cnt\<close> is \<open>PktLenCnt\<close>; the result is the flag and the
  value of \<open>cur_frag\<close> when the loop is left.
\<close>

fun xmit_loop :: "'w tx_kern \<Rightarrow> u32 \<times> u32 \<Rightarrow> nat \<Rightarrow> (u64 \<times> u32) list \<Rightarrow> nat \<Rightarrow> u32 \<Rightarrow> nat
    \<Rightarrow> tx_ring \<times> 'w tx_dev \<Rightarrow> bool \<times> nat \<times> tx_ring \<times> 'w tx_dev" where
  "xmit_loop K opts nr [] cf entry cnt rd = (True, cf, rd)"
| "xmit_loop K opts nr ((addr, len) # fs) cf entry cnt rd =
     (let entry = (entry + 1) mod num_tx_desc (fst rd) in
      if RequireLSOPatch (snd rd) \<and> cf = nr - 1 \<and> fst opts AND (GiantSendv4 OR GiantSendv6) \<noteq> 0
         \<and> cnt < ETH_FRAME_LEN \<and> 1 < len
      then
        (case xmit_txd K opts False addr (len - 1) entry rd of
           (False, rd) \<Rightarrow> (False, cf, rd)
         | (True, rd) \<Rightarrow>
             (let entry = (entry + 1) mod num_tx_desc (fst rd) in
              case xmit_txd K opts True (addr + ucast (len - 1)) 1 entry rd of
                (False, rd) \<Rightarrow> (False, cf + 1, rd)
              | (True, rd) \<Rightarrow> xmit_loop K opts nr fs (cf + 2) entry (cnt + 1) rd))
      else
        (case xmit_txd K opts (cf = nr - 1) addr len entry rd of
           (False, rd) \<Rightarrow> (False, cf, rd)
         | (True, rd) \<Rightarrow> xmit_loop K opts nr fs (cf + 1) entry (cnt + unat len) rd))"

definition xmit_frags :: "'w tx_kern \<Rightarrow> skb \<Rightarrow> u32 \<times> u32 \<Rightarrow> tx_ring \<times> 'w tx_dev
    \<Rightarrow> nat option \<times> tx_ring \<times> 'w tx_dev" where
  "xmit_frags K s opts rd =
     (let fs = sk_frags s in
      case xmit_loop K opts (length fs) fs 0 (cur_tx (fst rd)) 0 rd of
        (True, cf, rd) \<Rightarrow> (Some cf, rd)
      | (False, cf, rd) \<Rightarrow> (None, tx_clear_range (cur_tx (fst rd) + 1) cf rd))"

section \<open>Segmentation, checksums and padding\<close>

definition swab16 :: "u16 \<Rightarrow> u16" where
  "swab16 x = push_bit 8 x OR drop_bit 8 x"

definition tx_vlan_tag :: "skb \<Rightarrow> u32" where
  "tx_vlan_tag s = (case sk_vlan s of Some t \<Rightarrow> TxVlanTag OR ucast (swab16 t) | None \<Rightarrow> 0)"

text \<open>
  The header pointer is NULL when the packet ends before the header does.
\<close>

definition skb_header_fits :: "skb \<Rightarrow> int \<Rightarrow> bool" where
  "skb_header_fits s hlen \<longleftrightarrow> sk_network_offset s + hlen \<le> uint (sk_len s)"

definition get_l4_protocol :: "skb \<Rightarrow> u8" where
  "get_l4_protocol s =
     (if sk_protocol s = ETH_P_IP then (if skb_header_fits s 20 then sk_ip_proto s else IPPROTO_RAW)
      else if sk_protocol s = ETH_P_IPV6 then (if skb_header_fits s 40 then sk_nexthdr s else IPPROTO_RAW)
      else IPPROTO_RAW)"

definition skb_pad_with_len :: "'w tx_kern \<Rightarrow> skb \<Rightarrow> u32 \<Rightarrow> 'w tx_dev \<Rightarrow> bool \<times> skb \<times> 'w tx_dev" where
  "skb_pad_with_len K s len d =
     (case tk_padto K s len (tx_w d) of
        (None, w) \<Rightarrow> (False, s, kfree_skb (sk_id s) (d\<lparr>tx_w := w\<rparr>))
      | (Some s', w) \<Rightarrow> (True, s'\<lparr>sk_len := len\<rparr>, d\<lparr>tx_w := w\<rparr>))"

definition skb_pad :: "'w tx_kern \<Rightarrow> skb \<Rightarrow> 'w tx_dev \<Rightarrow> bool \<times> skb \<times> 'w tx_dev" where
  "skb_pad K s d = skb_pad_with_len K s ETH_ZLEN d"

definition msdn_giant_send_check :: "'w tx_kern \<Rightarrow> skb \<Rightarrow> 'w tx_dev \<Rightarrow> bool \<times> skb \<times> 'w tx_dev" where
  "msdn_giant_send_check K s d =
     (case tk_cow_head K s (tx_w d) of
        (None, w) \<Rightarrow> (False, s, d\<lparr>tx_w := w\<rparr>)
      | (Some s', w) \<Rightarrow> (True, s'\<lparr>sk_tcp_check := NOT (tk_v6_check K s')\<rparr>, d\<lparr>tx_w := w\<rparr>))"

text \<open>
  The difference of the packet length and the transport offset is taken modulo \<open>2^32\<close> and then read
  as a signed integer, except in the last comparison, where the header length is unsigned.
\<close>

definition get_patch_pad_len :: "skb \<Rightarrow> u32" where
  "get_patch_pad_len s =
     (let pkt_len = sk_len s; ip_protocol = get_l4_protocol s;
          trans_data_len = pkt_len - word_of_int (sk_transport_offset s);
          out = (\<lambda>pad_len. if pkt_len + pad_len < ETH_ZLEN then ETH_ZLEN - pkt_len else pad_len)
      in if \<not> (sk_transport_set s \<and> pkt_len < 175) then 0
      else if \<not> (ip_protocol = IPPROTO_TCP \<or> ip_protocol = IPPROTO_UDP) then 0
      else if ip_protocol = IPPROTO_UDP \<and> 3 < sint trans_data_len \<and> sint trans_data_len < 47
              \<and> (sk_dest_port s = 0x13f \<or> sk_dest_port s = 0x140)
      then out (47 - trans_data_len)
      else (let hdr_len = (if ip_protocol = IPPROTO_TCP then 20 else if ip_protocol = IPPROTO_UDP then 8 else 0) in
            out (if trans_data_len < hdr_len then hdr_len - trans_data_len else 0)))"

definition giant_opts :: "u32 \<Rightarrow> skb \<Rightarrow> u32 \<times> u32 \<Rightarrow> bool \<times> (u32 \<times> u32)" where
  "giant_opts flag s opts =
     (let off = word_of_int (sk_transport_offset s) in
      if off \<le> GTTCPHO_MAX
      then (True, (fst opts OR flag) OR push_bit 18 off, snd opts OR push_bit 18 (min (sk_gso_size s) MSS_MAX))
      else (False, opts))"

definition csum_command :: "'w tx_dev \<Rightarrow> skb \<Rightarrow> u32 \<times> u8" where
  "csum_command d s =
     (let (cmd, proto) =
        (if sk_protocol s = ETH_P_IP then (if f_ip_csum d then (tx_ip_csum_cmd d, sk_ip_proto s) else (0, IPPROTO_RAW))
         else if sk_protocol s = ETH_P_IPV6 then
           (if f_ipv6_csum d \<and> 0 < sk_transport_offset s \<and> word_of_int (sk_transport_offset s) \<le> TCPHO_MAX
            then (tx_ipv6_csum_cmd d OR push_bit 18 (word_of_int (sk_transport_offset s)), sk_nexthdr s)
            else (0, IPPROTO_RAW))
         else (0, IPPROTO_RAW))
      in (if proto = IPPROTO_TCP then cmd OR tx_tcp_csum_cmd d
          else if proto = IPPROTO_UDP then cmd OR tx_udp_csum_cmd d else cmd, proto))"

definition tso_segment :: "'w tx_kern \<Rightarrow> skb \<Rightarrow> u32 \<times> u32 \<Rightarrow> 'w tx_dev \<Rightarrow> bool \<times> skb \<times> (u32 \<times> u32) \<times> 'w tx_dev" where
  "tso_segment K s opts d =
     (if sk_protocol s = ETH_P_IP then (case giant_opts GiantSendv4 s opts of (ok, opts) \<Rightarrow> (ok, s, opts, d))
      else if sk_protocol s = ETH_P_IPV6 then
        (case msdn_giant_send_check K s d of
           (False, s, d) \<Rightarrow> (False, s, opts, d)
         | (True, s, d) \<Rightarrow> (case giant_opts GiantSendv6 s opts of (ok, opts) \<Rightarrow> (ok, s, opts, d)))
      else (False, s, opts, d))"

definition csum_patch_pad :: "'w tx_kern \<Rightarrow> bool \<Rightarrow> skb \<Rightarrow> 'w tx_dev \<Rightarrow> bool option \<times> skb \<times> 'w tx_dev" where
  "csum_patch_pad K check_patch_required s d =
     (let pad_len = get_patch_pad_len s in
      if check_patch_required \<and> 0 < pad_len
      then (case skb_pad_with_len K s (sk_len s + pad_len) d of
              (False, s, d) \<Rightarrow> (None, s, d) | (True, s, d) \<Rightarrow> (Some True, s, d))
      else (Some False, s, d))"

definition csum_short_pad :: "'w tx_kern \<Rightarrow> u32 \<Rightarrow> skb \<Rightarrow> 'w tx_dev \<Rightarrow> bool option \<times> skb \<times> 'w tx_dev" where
  "csum_short_pad K csum_cmd s d =
     (if sk_len s < ETH_ZLEN \<and> (UseSwPaddingShortPkt d \<or> (ShortPacketSwChecksum d \<and> csum_cmd \<noteq> 0))
      then (case skb_pad K s d of (False, s, d) \<Rightarrow> (None, s, d) | (True, s, d) \<Rightarrow> (Some True, s, d))
      else (Some False, s, d))"

text \<open>
  The four results are success, the socket buffer, the two option words and the device.
\<close>

definition tso_csum :: "'w tx_kern \<Rightarrow> skb \<Rightarrow> u32 \<times> u32 \<Rightarrow> 'w tx_dev \<Rightarrow> bool \<times> skb \<times> (u32 \<times> u32) \<times> 'w tx_dev" where
  "tso_csum K s opts d =
     (if f_tso d \<and> sk_gso_size s \<noteq> 0 then tso_segment K s opts d
      else
        (let (csum_cmd, ip_protocol) = (if sk_partial s then csum_command d s else (0, IPPROTO_RAW));
             sw = (sk_partial s \<and> csum_cmd = 0) in
         case csum_patch_pad K (\<not> (sk_partial s \<and> ip_protocol = IPPROTO_TCP)) s d of
           (None, s, d) \<Rightarrow> (False, s, opts, d)
         | (Some padded, s, d) \<Rightarrow>
             (case csum_short_pad K csum_cmd s d of
                (None, s, d) \<Rightarrow> (False, s, opts, d)
              | (Some short, s, d) \<Rightarrow>
                  (if sw \<or> (csum_cmd \<noteq> 0 \<and> (padded \<or> short))
                   then (case tk_csum_help K s (tx_w d) of (s, w) \<Rightarrow> (True, s, opts, d\<lparr>tx_w := w\<rparr>))
                   else (True, s, (fst opts, snd opts OR csum_cmd), d)))))"

section \<open>Transmission\<close>

definition tx_slots_avail :: "tx_ring \<Rightarrow> bool" where
  "tx_slots_avail r \<longleftrightarrow> of_nat MAX_SKB_FRAGS < dirty_tx r + num_tx_desc r - cur_tx r"

definition put_tx_ring :: "nat \<Rightarrow> tx_ring \<times> 'w tx_dev \<Rightarrow> 'w tx_dev" where
  "put_tx_ring q rd = (case rd of (r, d) \<Rightarrow> d\<lparr>tx_rings := (tx_rings d)[q := r]\<rparr>)"

datatype netdev_tx = NETDEV_TX_OK | NETDEV_TX_BUSY

text \<open>
  The error exits of \<open>rtl8125_start_xmit\<close>: \<open>err_dma_0\<close> and \<open>err_stop\<close>.
\<close>

definition xmit_err_dma_0 :: "nat \<Rightarrow> skb \<Rightarrow> tx_ring \<times> 'w tx_dev \<Rightarrow> netdev_tx \<times> 'w tx_dev" where
  "xmit_err_dma_0 q s rd =
     (let d = put_tx_ring q rd in (NETDEV_TX_OK, kfree_skb (sk_id s) (d\<lparr>tx_dropped := tx_dropped d + 1\<rparr>)))"

definition xmit_err_stop :: "nat \<Rightarrow> 'w tx_dev \<Rightarrow> netdev_tx \<times> 'w tx_dev" where
  "xmit_err_stop q d =
     (NETDEV_TX_BUSY, d\<lparr>q_stopped := (q_stopped d)(q := True), tx_dropped := tx_dropped d + 1\<rparr>)"

text \<open>
  What follows a filled descriptor: publish the counter, stop the queue when a maximal packet would no
  longer fit, tell the chip, and start the queue again when the ring was emptied meanwhile.
\<close>

definition xmit_publish :: "nat \<Rightarrow> nat \<Rightarrow> tx_ring \<times> 'w tx_dev \<Rightarrow> 'w tx_dev" where
  "xmit_publish q frags rd = (case rd of (r, d) \<Rightarrow>
     (let r = r\<lparr>cur_tx := cur_tx r + of_nat frags + 1\<rparr>;
          stop_queue = (\<not> tx_slots_avail r);
          d = (if stop_queue then d\<lparr>q_stopped := (q_stopped d)(q := True)\<rparr> else d);
          d = (if EnableTxNoClose d
               then d\<lparr>tx_regs := (tx_regs d)(sw_tail_ptr_reg r := ucast (cur_tx r mod MAX_TX_NO_CLOSE_DESC_PTR_V2))\<rparr>
               else d\<lparr>tx_regs := (tx_regs d)(TPPOLL_8125 := push_bit (tr_index r) 1)\<rparr>);
          d = (if stop_queue \<and> tx_slots_avail r then d\<lparr>q_stopped := (q_stopped d)(q := False)\<rparr> else d)
      in put_tx_ring q (r, d)))"

definition xmit_head :: "'w tx_kern \<Rightarrow> nat \<Rightarrow> skb \<Rightarrow> u32 \<times> u32 \<Rightarrow> nat \<Rightarrow> tx_ring \<times> 'w tx_dev \<Rightarrow> netdev_tx \<times> 'w tx_dev" where
  "xmit_head K q s opts frags rd = (case rd of (r, d) \<Rightarrow>
     (let entry = cur_tx r mod num_tx_desc r;
          len = (if frags \<noteq> 0 then sk_len s - sk_data_len s else sk_len s);
          opts0 = (if frags \<noteq> 0 then fst opts OR FirstFrag else fst opts OR (FirstFrag OR LastFrag));
          opts0 = get_txd_opts1 r opts0 len entry
      in case dma_map_single K (sk_data s) len d of
           (None, d) \<Rightarrow>
             xmit_err_dma_0 q s (tx_clear_range (cur_tx r + 1) frags (set_skb (unat entry) None r, d))
         | (Some m, d) \<Rightarrow>
             (NETDEV_TX_OK,
              xmit_publish q frags
                (put_txd entry opts0 (snd opts) m len (set_skb (unat entry) (Some (sk_id s)) r), d))))"

definition start_xmit :: "'w tx_kern \<Rightarrow> nat \<Rightarrow> skb \<Rightarrow> 'w tx_dev \<Rightarrow> netdev_tx \<times> 'w tx_dev" where
  "start_xmit K q s d =
     (let r = tx_rings d ! q in
      if \<not> tx_slots_avail r then xmit_err_stop q d
      else if \<not> EnableTxNoClose d \<and> td_opts1 (TxDescArray r ! unat (cur_tx r mod num_tx_desc r)) AND DescOwn \<noteq> 0
      then xmit_err_stop q d
      else case tso_csum K s (DescOwn, tx_vlan_tag s) d of
             (False, s, opts, d) \<Rightarrow> xmit_err_dma_0 q s (r, d)
           | (True, s, opts, d) \<Rightarrow>
               (case xmit_frags K s opts (r, d) of
                  (None, rd) \<Rightarrow> xmit_err_dma_0 q s rd
                | (Some frags, rd) \<Rightarrow> xmit_head K q s opts frags rd))"

section \<open>Completion\<close>

definition fast_mod :: "u32 \<Rightarrow> u32 \<Rightarrow> u32" where
  "fast_mod input ceil = (if input \<ge> ceil then input mod ceil else input)"

text \<open>
  The loop over the finished descriptors; the results are the new \<open>dirty_tx\<close>, the ring and the device.
\<close>

fun tx_complete_loop :: "nat \<Rightarrow> u32 \<Rightarrow> tx_ring \<times> 'w tx_dev \<Rightarrow> u32 \<times> tx_ring \<times> 'w tx_dev" where
  "tx_complete_loop 0 dirty rd = (dirty, rd)"
| "tx_complete_loop (Suc left) dirty rd =
     (let r = fst rd; d = snd rd; entry = unat (dirty mod num_tx_desc r); info = tx_skb r ! entry in
      if \<not> EnableTxNoClose d \<and> td_opts1 (TxDescArray r ! entry) AND DescOwn \<noteq> 0 then (dirty, rd)
      else
        (let d = d\<lparr>tx_bytes := tx_bytes d + ucast (ri_len info), tx_packets := tx_packets d + 1\<rparr>;
             rd = unmap_tx_skb entry (r, d);
             rd = (case ri_skb info of
                     None \<Rightarrow> rd
                   | Some s \<Rightarrow> (set_skb entry None (fst rd), kfree_skb s (snd rd)))
         in tx_complete_loop left (dirty + 1) rd))"

definition tx_interrupt_ring :: "nat \<Rightarrow> 'w tx_dev \<Rightarrow> u32 \<times> 'w tx_dev" where
  "tx_interrupt_ring q d =
     (let r = tx_rings d ! q;
          tx_left = cur_tx r - dirty_tx r;
          (tx_left, r) =
            (if EnableTxNoClose d then
               (let next_ptr = ucast (tx_regs d (hw_clo_ptr_reg r));
                    closed = fast_mod (next_ptr - BeginHwDesCloPtr r) MAX_TX_NO_CLOSE_DESC_PTR_V2
                in (if tx_left > closed then closed else tx_left,
                    r\<lparr>NextHwDesCloPtr := next_ptr, BeginHwDesCloPtr := next_ptr\<rparr>))
             else (tx_left, r));
          (dirty, r, d) = tx_complete_loop (unat tx_left) (dirty_tx r) (r, d)
      in if dirty_tx r \<noteq> dirty then
           (let count = dirty - dirty_tx r;
                r = r\<lparr>dirty_tx := dirty\<rparr>;
                d = (if q_stopped d (tr_index r) \<and> tx_slots_avail r
                     then d\<lparr>q_stopped := (q_stopped d)(tr_index r := False)\<rparr> else d);
                d = (if \<not> EnableTxNoClose d \<and> cur_tx r \<noteq> dirty
                     then d\<lparr>tx_regs := (tx_regs d)(TPPOLL_8125 := push_bit (tr_index r) 1)\<rparr> else d)
            in (count, put_tx_ring q (r, d)))
         else (0, put_tx_ring q (r, d)))"

definition tx_interrupt_with_vector :: "int \<Rightarrow> 'w tx_dev \<Rightarrow> u32 \<times> 'w tx_dev" where
  "tx_interrupt_with_vector message_id d =
     (if message_id = 16 then tx_interrupt_ring 0 d else (0, d))"

section \<open>Initialisation\<close>

text \<open>
  The transmit part of \<open>rtl8125_init_ring_indexes\<close>, \<open>rtl8125_tx_desc_init\<close> and \<open>rtl8125_init_ring\<close>. A
  ring has one descriptor more allocated than it uses.
\<close>

definition init_tx_indexes :: "nat \<Rightarrow> tx_ring \<Rightarrow> tx_ring" where
  "init_tx_indexes i r = r\<lparr>dirty_tx := 0, cur_tx := 0, NextHwDesCloPtr := 0, BeginHwDesCloPtr := 0, tr_index := i\<rparr>"

definition tx_desc_init :: "tx_ring \<Rightarrow> tx_ring" where
  "tx_desc_init r =
     (let z = \<lparr>td_opts1 = 0, td_opts2 = 0, td_addr = 0\<rparr> in
      r\<lparr>TxDescArray := (replicate (unat (num_tx_desc r) + 1) z)[unat (num_tx_desc r - 1) := z\<lparr>td_opts1 := RingEnd\<rparr>]\<rparr>)"

definition init_tx_ring :: "nat \<Rightarrow> tx_ring \<Rightarrow> tx_ring" where
  "init_tx_ring i r =
     (let r = tx_desc_init (init_tx_indexes i r) in r\<lparr>tx_skb := map (\<lambda>_. \<lparr>ri_skb = None, ri_len = 0\<rparr>) (tx_skb r)\<rparr>)"

definition init_tx :: "'w tx_dev \<Rightarrow> 'w tx_dev" where
  "init_tx d = d\<lparr>tx_rings := map (\<lambda>i. init_tx_ring i (tx_rings d ! i)) [0 ..< length (tx_rings d)]\<rparr>"

end
