(* ===== verification/R8125_TxQueue.thy ===== *)
theory R8125_TxQueue
  imports R8125_Tx
begin

text \<open>
  Correctness of the transmit path of \<^verbatim>\<open>R8125_Tx\<close>: the ring is a bounded queue, read from its oldest
  descriptor on. The primitives are updates of one cell of that list; the loops fill or release
  consecutive cells; and a transmission either appends a whole packet or leaves the queue as it was.
  On the level of the device, nothing handed to the driver is lost or released twice, and a stopped
  queue is woken. The last sections prove three defects.
\<close>

unbundle bit_operations_syntax

section \<open>The ring as a list of cells\<close>

text \<open>
  A ring is read from its oldest descriptor on: \<open>cells\<close> lists what each position holds, in the order in
  which the descriptors are released. \<open>used\<close> of them are occupied.
\<close>

type_synonym cell = "nat option \<times> u32 \<times> u64"

abbreviation ring_n :: "tx_ring \<Rightarrow> nat" where "ring_n r \<equiv> unat (num_tx_desc r)"

definition size_ok :: "tx_ring \<Rightarrow> bool" where
  "size_ok r \<longleftrightarrow> 0 < ring_n r \<and> ring_n r \<le> MAX_NUM_TX_DESC \<and> ring_n r dvd 2 ^ 32
     \<and> ring_n r \<le> length (tx_skb r) \<and> ring_n r < length (TxDescArray r)"

definition ent :: "tx_ring \<Rightarrow> nat \<Rightarrow> nat" where
  "ent r k = unat ((dirty_tx r + of_nat k) mod num_tx_desc r)"

definition cells :: "tx_ring \<Rightarrow> cell list" where
  "cells r = map (\<lambda>k. (ri_skb (tx_skb r ! ent r k), ri_len (tx_skb r ! ent r k), td_addr (TxDescArray r ! ent r k)))
     [0 ..< ring_n r]"

definition used :: "tx_ring \<Rightarrow> nat" where
  "used r = unat (cur_tx r - dirty_tx r)"

lemma length_cells [simp]: "length (cells r) = ring_n r"
  by (simp add: cells_def)

lemma ent_eq:
  assumes "size_ok r"
  shows "ent r k = (unat (dirty_tx r) + k) mod ring_n r"
proof -
  have "ring_n r dvd 2 ^ 32" using assms by (simp only: size_ok_def)
  then show ?thesis
    by (simp only: ent_def unat_mod_distrib unat_add_of_nat mod_mod_cancel)
qed

lemma ent_lt: "size_ok r \<Longrightarrow> ent r k < ring_n r"
  by (simp add: ent_eq size_ok_def)

lemma ent_inj: "\<lbrakk>size_ok r; j < ring_n r; k < ring_n r\<rbrakk> \<Longrightarrow> ent r j = ent r k \<longleftrightarrow> j = k"
  by (metis ent_eq mod_add_inj)

definition upd_cell :: "nat \<Rightarrow> ring_info \<Rightarrow> tx_desc \<Rightarrow> tx_ring \<Rightarrow> tx_ring" where
  "upd_cell e info desc r = r\<lparr>TxDescArray := (TxDescArray r)[e := desc], tx_skb := (tx_skb r)[e := info]\<rparr>"

lemma upd_cell_frame [simp]:
  "num_tx_desc (upd_cell e i x r) = num_tx_desc r" "dirty_tx (upd_cell e i x r) = dirty_tx r"
  "cur_tx (upd_cell e i x r) = cur_tx r" "size_ok (upd_cell e i x r) = size_ok r" "ent (upd_cell e i x r) = ent r"
  "used (upd_cell e i x r) = used r"
  "tx_skb (upd_cell e i x r) = (tx_skb r)[e := i]" "TxDescArray (upd_cell e i x r) = (TxDescArray r)[e := x]"
  by (simp_all add: upd_cell_def size_ok_def ent_def used_def fun_eq_iff)

lemma cells_upd_cell:
  assumes "size_ok r" "k < ring_n r"
  shows "cells (upd_cell (ent r k) i x r) = (cells r)[k := (ri_skb i, ri_len i, td_addr x)]"
proof (rule nth_equalityI)
  fix j assume "j < length (cells (upd_cell (ent r k) i x r))"
  then have j: "j < ring_n r" by simp
  have "ent r k < length (tx_skb r)" "ent r k < length (TxDescArray r)"
    using ent_lt [OF assms(1), of k] assms(1) by (simp_all add: size_ok_def)
  with j assms show "cells (upd_cell (ent r k) i x r) ! j = (cells r)[k := (ri_skb i, ri_len i, td_addr x)] ! j"
    by (cases "j = k") (simp_all add: cells_def nth_list_update ent_inj)
qed simp


text \<open>The primitive operations, as updates of one cell.\<close>

lemma put_txd_upd:
  "put_txd entry st o2 a len r =
     upd_cell (unat entry) ((tx_skb r ! unat entry)\<lparr>ri_len := len\<rparr>) \<lparr>td_opts1 = st, td_opts2 = o2, td_addr = a\<rparr> r"
  by (simp add: put_txd_def upd_cell_def Let_def)

lemma set_skb_upd: "set_skb e s r = upd_cell e ((tx_skb r ! e)\<lparr>ri_skb := s\<rparr>) (TxDescArray r ! e) r"
  by (simp add: set_skb_def upd_cell_def)

lemma unmap_upd:
  "unmap_tx_skb e (r, d) =
     (upd_cell e ((tx_skb r ! e)\<lparr>ri_len := 0\<rparr>)
        \<lparr>td_opts1 = RTK_MAGIC_DEBUG_VALUE, td_opts2 = 0, td_addr = RTL8125_MAGIC_NUMBER\<rparr> r,
      d\<lparr>mapped := mapped d - {# (td_addr (TxDescArray r ! e), ri_len (tx_skb r ! e)) #}\<rparr>)"
  by (cases "TxDescArray r ! e") (simp add: unmap_tx_skb_def upd_cell_def Let_def)

lemma cells_nth:
  "k < ring_n r \<Longrightarrow> cells r ! k = (ri_skb (tx_skb r ! ent r k), ri_len (tx_skb r ! ent r k), td_addr (TxDescArray r ! ent r k))"
  by (simp add: cells_def)

text \<open>The live mappings and the socket buffers of a list of cells.\<close>

definition cell_maps :: "cell list \<Rightarrow> (u64 \<times> u32) multiset" where
  "cell_maps cs = mset (map (\<lambda>(s, l, a). (a, l)) (filter (\<lambda>(s, l, a). l \<noteq> 0) cs))"

definition cell_skbs :: "cell list \<Rightarrow> nat list" where
  "cell_skbs cs = List.map_filter fst cs"

definition cell_bytes :: "cell list \<Rightarrow> u64" where
  "cell_bytes cs = sum_list (map (\<lambda>(s, l, a). ucast l) cs)"

lemma cell_maps_simps [simp]:
  "cell_maps [] = {#}" "cell_maps ((s, 0, a) # cs) = cell_maps cs"
  "l \<noteq> 0 \<Longrightarrow> cell_maps ((s, l, a) # cs) = add_mset (a, l) (cell_maps cs)"
  "cell_maps (cs @ cs') = cell_maps cs + cell_maps cs'"
  by (simp_all add: cell_maps_def)

lemma cell_skbs_simps [simp]:
  "cell_skbs [] = []" "cell_skbs ((None, c) # cs) = cell_skbs cs" "cell_skbs ((Some s, c) # cs) = s # cell_skbs cs"
  "cell_skbs (cs @ cs') = cell_skbs cs @ cell_skbs cs'"
  by (simp_all add: cell_skbs_def List.map_filter_def)

lemma cell_maps_update:
  assumes "k < length cs" "cs ! k = (s, l, a)"
  shows "cell_maps (cs[k := (s', l', a')]) + (if l = 0 then {#} else {# (a, l) #}) =
     cell_maps cs + (if l' = 0 then {#} else {# (a', l') #})"
  using mset_filter_update [OF assms(1), of "\<lambda>(s, l, a). (a, l)" "\<lambda>(s, l, a). l \<noteq> 0" "(s', l', a')",
      folded cell_maps_def, unfolded assms(2)]
  by (cases "l = 0"; cases "l' = 0") simp_all

lemma cell_maps_fill:
  "\<lbrakk>k < length cs; cs ! k = (s, 0, a); l' \<noteq> 0\<rbrakk> \<Longrightarrow> cell_maps (cs[k := (s', l', a')]) = add_mset (a', l') (cell_maps cs)"
  using cell_maps_update [of k cs s 0 a s' l' a'] by simp

lemma cell_maps_release:
  "\<lbrakk>k < length cs; cs ! k = (s, l, a); l \<noteq> 0\<rbrakk> \<Longrightarrow> cell_maps cs = add_mset (a, l) (cell_maps (cs[k := (s', 0, a')]))"
  using cell_maps_update [of k cs s l a s' 0 a'] by simp


section \<open>Filling descriptors\<close>

definition rframe :: "tx_ring \<Rightarrow> tx_ring \<Rightarrow> bool" where
  "rframe r r' \<longleftrightarrow> r'\<lparr>TxDescArray := TxDescArray r, tx_skb := tx_skb r\<rparr> = r \<and> size_ok r'"

lemma rframe_refl [intro]: "size_ok r \<Longrightarrow> rframe r r"
  by (simp add: rframe_def)

lemma rframe_trans [trans]: "rframe r r' \<Longrightarrow> rframe r' r'' \<Longrightarrow> rframe r r''"
  unfolding rframe_def by (cases r, cases r', cases r'') simp

lemma rframe_upd_cell [intro]: "size_ok r \<Longrightarrow> rframe r (upd_cell e i x r)"
  by (simp add: rframe_def) (simp add: upd_cell_def)

lemma rframeD:
  assumes "rframe r r'"
  shows "num_tx_desc r' = num_tx_desc r" "dirty_tx r' = dirty_tx r" "cur_tx r' = cur_tx r" "size_ok r'"
    "used r' = used r" "ent r' = ent r" "tr_index r' = tr_index r" "sw_tail_ptr_reg r' = sw_tail_ptr_reg r"
    "hw_clo_ptr_reg r' = hw_clo_ptr_reg r" "BeginHwDesCloPtr r' = BeginHwDesCloPtr r"
  using assms by (cases r, cases r', auto simp: rframe_def used_def ent_def fun_eq_iff)+

text \<open>
  The position after the one with counter \<open>dirty_tx + k\<close>.
\<close>

definition pos :: "tx_ring \<Rightarrow> nat \<Rightarrow> u32" where
  "pos r k = (dirty_tx r + of_nat k) mod num_tx_desc r"

lemma unat_pos: "unat (pos r k) = ent r k"
  by (simp add: pos_def ent_def)

lemma pos_next:
  assumes "size_ok r"
  shows "(pos r k + 1) mod num_tx_desc r = pos r (Suc k)"
proof -
  have "ent r k < 1024" using ent_lt [OF assms, of k] assms by (simp add: size_ok_def)
  then have "unat (pos r k + 1) = ent r k + 1"
    by (simp add: unat_word_ariths unat_pos)
  then have "unat ((pos r k + 1) mod num_tx_desc r) = unat (pos r (Suc k))"
    using assms by (simp add: unat_mod_distrib unat_pos ent_eq mod_Suc_eq)
  then show ?thesis by (simp only: word_unat_eq_iff)
qed

lemma cur_pos:
  assumes "size_ok r"
  shows "(cur_tx r + of_nat k) mod num_tx_desc r = pos r (used r + k)"
  by (simp add: pos_def used_def)

text \<open>
  What the transmit path may do to ring and device between two points: the ring's counters and the
  device outside the mapping table stay, and the live mappings are those of the ring's cells and \<open>M\<close>.
\<close>

definition xinv :: "(u64 \<times> u32) multiset \<Rightarrow> tx_ring \<Rightarrow> 'w tx_dev \<Rightarrow> tx_ring \<times> 'w tx_dev \<Rightarrow> bool" where
  "xinv M r0 d0 rd \<longleftrightarrow> rframe r0 (fst rd)
     \<and> (snd rd)\<lparr>tx_w := tx_w d0, mapped := mapped d0\<rparr> = d0
     \<and> mapped (snd rd) = M + cell_maps (cells (fst rd))"

lemma xmit_txd_spec:
  assumes x: "xmit_txd K opts lst addr len (pos r0 k) (r, d) = (ok, rd')" and i: "xinv M r0 d0 (r, d)"
    and k: "k < ring_n r0" and c: "cells r ! k = (s, 0, a)" and l: "len \<noteq> 0"
  shows "xinv M r0 d0 rd' \<and> (if ok then \<exists>m. cells (fst rd') = (cells r)[k := (s, len, m)] else fst rd' = r)"
proof (cases "tk_map K addr len (tx_w d)")
  case (Pair m w)
  note f = rframeD [of r0 r] and i' = i [unfolded xinv_def fst_conv snd_conv]
  show ?thesis
  proof (cases m)
    case None
    with x i show ?thesis by (auto simp: xmit_txd_def dma_map_single_def Pair xinv_def)
  next
    case (Some ma)
    let ?e = "ent r k"
    let ?st = "get_txd_opts1 r (fst opts) len (pos r0 k)"
    let ?st = "if lst then ?st OR LastFrag else ?st"
    let ?r = "upd_cell ?e ((tx_skb r ! ?e)\<lparr>ri_len := len\<rparr>) \<lparr>td_opts1 = ?st, td_opts2 = snd opts, td_addr = ma\<rparr> r"
    have sk: "ri_skb (tx_skb r ! ?e) = s"
      using c k f i' by (simp add: cells_nth)
    have rd: "ok" "rd' = (?r, d\<lparr>tx_w := w, mapped := add_mset (ma, len) (mapped d)\<rparr>)"
      using x f i' by (auto simp: xmit_txd_def dma_map_single_def Pair Some put_txd_upd unat_pos Let_def)
    have cs: "cells ?r = (cells r)[k := (s, len, ma)]"
      using cells_upd_cell [of r k] k f i' sk by simp
    have "rframe r0 ?r" using i' f by (blast intro: rframe_trans)
    then have "xinv M r0 d0 rd'"
      unfolding xinv_def rd(2) fst_conv snd_conv cs
      using i' k c l f cell_maps_fill [of k "cells r" s a len s ma] by simp
    then show ?thesis using rd cs by auto
  qed
qed


definition free_cell :: "cell \<Rightarrow> bool" where
  "free_cell c \<longleftrightarrow> fst c = None \<and> fst (snd c) = 0"

definition frag_cell :: "cell \<Rightarrow> bool" where
  "frag_cell c \<longleftrightarrow> fst c = None \<and> fst (snd c) \<noteq> 0"

definition cell_len :: "cell list \<Rightarrow> nat" where
  "cell_len cs = sum_list (map (\<lambda>c. unat (fst (snd c))) cs)"

lemma cell_len_simps [simp]: "cell_len [] = 0" "cell_len (c # cs) = unat (fst (snd c)) + cell_len cs"
  by (simp_all add: cell_len_def)

lemma free_cellE: "free_cell c \<Longrightarrow> \<exists>a. c = (None, 0, a)"
  by (cases c) (simp add: free_cell_def)

text \<open>
  The loop over the fragments fills consecutive cells; \<open>x\<close> is the extra descriptor of the
  segmentation workaround.
\<close>

definition lso_extra :: "'w tx_dev \<Rightarrow> nat" where
  "lso_extra d = (if RequireLSOPatch d then 1 else 0)"

definition fills :: "tx_ring \<Rightarrow> nat \<Rightarrow> cell list \<Rightarrow> cell list \<Rightarrow> bool" where
  "fills r k cs segs \<longleftrightarrow> cells r = overwrite k segs cs \<and> list_all frag_cell segs"

lemma fills_Cons:
  "\<lbrakk>fills r (Suc k) (cs[k := (None, l, m)]) segs; k < length cs; l \<noteq> 0\<rbrakk> \<Longrightarrow> fills r k cs ((None, l, m) # segs)"
  by (simp add: fills_def overwrite_Cons frag_cell_def)

lemma fills_Nil: "cells r = cs \<Longrightarrow> fills r k cs []"
  by (simp add: fills_def)

lemma xinv_lso: "xinv M r0 d0 rd \<Longrightarrow> RequireLSOPatch (snd rd) = RequireLSOPatch d0"
  unfolding xinv_def by (cases "snd rd", cases d0) simp

lemma xinv_num: "xinv M r0 d0 rd \<Longrightarrow> num_tx_desc (fst rd) = num_tx_desc r0"
  by (simp add: xinv_def rframeD)

lemma xinv_cells: "xinv M r0 d0 rd \<Longrightarrow> length (cells (fst rd)) = ring_n r0"
  by (simp add: xinv_num)

lemma xmit_txd_cases:
  assumes "xinv M r0 d0 rd" "k < ring_n r0" "cells (fst rd) ! k = (s, 0, a)" "len \<noteq> 0"
  obtains (failed) rd' where "xmit_txd K opts lst addr len (pos r0 k) rd = (False, rd')" "xinv M r0 d0 rd'"
      "cells (fst rd') = cells (fst rd)"
    | (filled) rd' m where "xmit_txd K opts lst addr len (pos r0 k) rd = (True, rd')" "xinv M r0 d0 rd'"
      "cells (fst rd') = (cells (fst rd))[k := (s, len, m)]"
proof -
  obtain ok rd' where Pair: "xmit_txd K opts lst addr len (pos r0 k) rd = (ok, rd')"
    by (cases "xmit_txd K opts lst addr len (pos r0 k) rd")
  then have "xinv M r0 d0 rd' \<and>
      (if ok then \<exists>m. cells (fst rd') = (cells (fst rd))[k := (s, len, m)] else fst rd' = fst rd)"
    using xmit_txd_spec [of K opts lst addr len r0 k "fst rd" "snd rd" ok rd' M d0 s a] assms by simp
  then show thesis
    using Pair failed [of rd'] filled [of rd'] by (cases ok) auto
qed

lemma free_cell_nth:
  assumes "xinv M r0 d0 rd" "list_all free_cell (drop k (cells (fst rd)))" "k \<le> j" "j < ring_n r0"
  shows "\<exists>a. cells (fst rd) ! j = (None, 0, a)"
proof -
  have "drop k (cells (fst rd)) ! (j - k) = cells (fst rd) ! j" "j - k < length (drop k (cells (fst rd)))"
    using assms(3,4) xinv_cells [OF assms(1)] by simp_all
  then show ?thesis using assms(2) free_cellE by (metis list_all_length)
qed

text \<open>The segmentation workaround: one fragment, two descriptors.\<close>

lemma xmit_pair_spec:
  assumes "size_ok r0" "xinv M r0 d0 rd" "list_all free_cell (drop k (cells (fst rd)))" "Suc k < ring_n r0"
    and lso: "RequireLSOPatch (snd rd) \<and> cf = nr - 1 \<and> fst opts AND (GiantSendv4 OR GiantSendv6) \<noteq> 0
         \<and> cnt < ETH_FRAME_LEN \<and> 1 < len" "(entry + 1) mod num_tx_desc (fst rd) = pos r0 k"
    and x: "xmit_loop K opts nr [(addr, len)] cf entry cnt rd = (ok, cf', rd')"
  shows "\<exists>segs. xinv M r0 d0 rd' \<and> fills (fst rd') k (cells (fst rd)) segs \<and> cf' = cf + length segs
     \<and> length segs \<le> 2 \<and> (ok \<longrightarrow> cell_len segs = unat len \<and> length segs = 2)"
proof -
  note n = xinv_cells [OF assms(2)]
  have "len \<noteq> 0" "0 < unat len" using lso by (auto simp: unat_gt_0)
  then have l: "len - 1 \<noteq> 0" "unat (len - 1) + 1 = unat len" using lso by (auto simp: unat_minus_one)
  obtain a b where c: "cells (fst rd) ! k = (None, 0, a)" "cells (fst rd) ! Suc k = (None, 0, b)"
    using free_cell_nth [OF assms(2,3)] assms(4) by (meson Suc_lessD le_SucI order_refl)
  show ?thesis
  proof (cases K opts False addr rule: xmit_txd_cases [OF assms(2) Suc_lessD [OF assms(4)] c(1) l(1), case_names failed filled])
    case (failed rd1)
    with x lso show ?thesis by (auto simp: Let_def intro!: exI [of _ "[]"] fills_Nil)
  next
    case (filled rd1 m)
    have e: "(pos r0 k + 1) mod num_tx_desc (fst rd1) = pos r0 (Suc k)"
      using xinv_num [OF filled(2)] pos_next [OF assms(1)] by simp
    have c': "cells (fst rd1) ! Suc k = (None, 0, b)" using filled(3) c(2) by simp
    show ?thesis
    proof (cases K opts True "addr + ucast (len - 1)" rule: xmit_txd_cases [OF filled(2) assms(4) c' one_neq_zero, case_names failed' filled'])
      case (failed' rd2)
      with x lso filled e l(1) n assms(4) show ?thesis
        by (auto simp: Let_def intro!: exI [of _ "[(None, len - 1, m)]"] fills_Cons fills_Nil)
    next
      case (filled' rd2 m')
      with x lso filled e l n assms(4) show ?thesis
        by (auto simp: Let_def intro!: exI [of _ "[(None, len - 1, m), (None, 1, m')]"] fills_Cons fills_Nil)
    qed
  qed
qed

lemma xmit_loop_spec:
  assumes "xmit_loop K opts nr fs cf entry cnt rd = (ok, cf', rd')" "size_ok r0" "xinv M r0 d0 rd"
    "(entry + 1) mod num_tx_desc r0 = pos r0 k" "list_all (\<lambda>f. snd f \<noteq> 0) fs"
    "list_all free_cell (drop k (cells (fst rd)))" "k + length fs + lso_extra d0 \<le> ring_n r0"
    "fs \<noteq> [] \<longrightarrow> cf + length fs = nr"
  shows "\<exists>segs. xinv M r0 d0 rd' \<and> fills (fst rd') k (cells (fst rd)) segs \<and> cf' = cf + length segs
     \<and> length segs \<le> length fs + lso_extra d0 \<and> (ok \<longrightarrow> cell_len segs = sum_list (map (\<lambda>f. unat (snd f)) fs))
     \<and> (ok \<longrightarrow> length fs \<le> length segs)"
  using assms
proof (induction fs arbitrary: cf entry cnt rd k)
  case Nil
  then show ?case by (auto intro!: exI [of _ "[]"] fills_Nil)
next
  case (Cons f fs)
  obtain addr len where f: "f = (addr, len)" by (cases f)
  have k: "k < ring_n r0" "k < length (cells (fst rd))" and len: "len \<noteq> 0"
    using Cons.prems(5,7) xinv_cells [OF Cons.prems(3)] f by auto
  have e: "(entry + 1) mod num_tx_desc (fst rd) = pos r0 k" using xinv_num [OF Cons.prems(3)] Cons.prems(4) by simp
  let ?lso = "RequireLSOPatch (snd rd) \<and> cf = nr - 1 \<and> fst opts AND (GiantSendv4 OR GiantSendv6) \<noteq> 0
         \<and> cnt < ETH_FRAME_LEN \<and> 1 < len"
  show ?case
  proof (cases ?lso)
    case True
    then have x1: "lso_extra d0 = 1" using xinv_lso [OF Cons.prems(3)] by (simp add: lso_extra_def)
    have "cf + Suc (length fs) = nr" using Cons.prems(8) by simp
    with True have "length fs = 0" by linarith
    then have fs: "fs = []" by simp
    have "Suc k < ring_n r0" using Cons.prems(7) fs x1 by simp
    from xmit_pair_spec [OF Cons.prems(2,3,6) this True e Cons.prems(1) [unfolded f fs]] fs f x1
    show ?thesis by auto
  next
    case False
    obtain a where c: "cells (fst rd) ! k = (None, 0, a)"
      using free_cell_nth [OF Cons.prems(3,6)] k(1) by blast
    show ?thesis
    proof (cases K opts "cf = nr - 1" addr rule: xmit_txd_cases [OF Cons.prems(3) k(1) c len, case_names failed filled])
      case (failed rd1)
      with Cons.prems(1) False e f show ?thesis by (auto simp: Let_def intro!: exI [of _ "[]"] fills_Nil)
    next
      case (filled rd1 m)
      have l: "xmit_loop K opts nr fs (cf + 1) (pos r0 k) (cnt + unat len) rd1 = (ok, cf', rd')"
        using Cons.prems(1) False filled(1) e f by (auto simp: Let_def)
      have "list_all free_cell (drop (Suc k) (cells (fst rd1)))"
        using Cons.prems(6) k(2) filled(3) by (metis Cons_nth_drop_Suc drop_update_cancel lessI list.pred_inject(2))
      then obtain segs where s: "xinv M r0 d0 rd'" "fills (fst rd') (Suc k) (cells (fst rd1)) segs" "cf' = cf + 1 + length segs"
        "length segs \<le> length fs + lso_extra d0" "ok \<longrightarrow> cell_len segs = sum_list (map (\<lambda>f. unat (snd f)) fs)"
        "ok \<longrightarrow> length fs \<le> length segs"
        using Cons.IH [OF l Cons.prems(2) filled(2) pos_next [OF Cons.prems(2)]] Cons.prems(5,7,8) f by auto
      have "fills (fst rd') k (cells (fst rd)) ((None, len, m) # segs)"
        using s(2) filled(3) k(2) len by (auto intro: fills_Cons)
      with s f show ?thesis by (intro exI [of _ "(None, len, m) # segs"]) auto
    qed
  qed
qed


section \<open>Releasing descriptors\<close>

definition clear_cell :: "cell \<Rightarrow> cell" where
  "clear_cell c = (if fst (snd c) = 0 then c else (None, 0, RTL8125_MAGIC_NUMBER))"

text \<open>
  What releasing may change of the device besides its counters, and that it releases the socket
  buffers \<open>ss\<close>.
\<close>

definition released :: "'w tx_dev \<Rightarrow> nat list \<Rightarrow> 'w tx_dev \<Rightarrow> bool" where
  "released d ss d' \<longleftrightarrow> freed d' = freed d @ ss
     \<and> d'\<lparr>mapped := mapped d, freed := freed d, tx_dropped := tx_dropped d, tx_packets := tx_packets d,
          tx_bytes := tx_bytes d\<rparr> = d"

lemma released_refl [intro]: "released d [] d"
  by (simp add: released_def)

lemma released_trans: "released d ss d' \<Longrightarrow> released d' ss' d'' \<Longrightarrow> released d (ss @ ss') d''"
  unfolding released_def by (cases d, cases d', cases d'') simp

lemma releasedD:
  assumes "released d ss d'"
  shows "EnableTxNoClose d' = EnableTxNoClose d" "tx_rings d' = tx_rings d" "q_stopped d' = q_stopped d"
    "tx_regs d' = tx_regs d" "tx_w d' = tx_w d" "freed d' = freed d @ ss" "RequireLSOPatch d' = RequireLSOPatch d"
  using assms by (cases d, cases d', simp add: released_def)+

text \<open>One release of the cell \<open>k\<close>: unmap, forget the socket buffer and release it.\<close>

definition release_at :: "nat \<Rightarrow> tx_ring \<times> 'w tx_dev \<Rightarrow> tx_ring \<times> 'w tx_dev" where
  "release_at e rd = (case ri_skb (tx_skb (fst rd) ! e) of
       None \<Rightarrow> unmap_tx_skb e rd
     | Some s \<Rightarrow> (set_skb e None (fst (unmap_tx_skb e rd)), kfree_skb s (snd (unmap_tx_skb e rd))))"

lemma release_at_spec:
  assumes "size_ok r" "k < ring_n r" "mapped d = M + cell_maps (cells r)" "cells r ! k = (s, l, a)" "l \<noteq> 0"
    "release_at (ent r k) (r, d) = (r', d')"
  shows "rframe r r' \<and> cells r' = (cells r)[k := (None, 0, RTL8125_MAGIC_NUMBER)]
     \<and> mapped d' = M + cell_maps (cells r') \<and> released d (case s of None \<Rightarrow> [] | Some x \<Rightarrow> [x]) d'"
proof -
  let ?x = "\<lparr>td_opts1 = RTK_MAGIC_DEBUG_VALUE, td_opts2 = 0, td_addr = RTL8125_MAGIC_NUMBER\<rparr>"
  have c: "ri_skb (tx_skb r ! ent r k) = s" "ri_len (tx_skb r ! ent r k) = l" "td_addr (TxDescArray r ! ent r k) = a"
    using assms(2,4) by (simp_all add: cells_nth)
  have e: "ent r k < length (tx_skb r)" "ent r k < length (TxDescArray r)"
    using ent_lt [OF assms(1), of k] assms(1) by (simp_all add: size_ok_def)
  have r: "r' = upd_cell (ent r k) \<lparr>ri_skb = None, ri_len = 0\<rparr> ?x r"
    using assms(6) c e by (cases "tx_skb r ! ent r k")
      (auto simp: release_at_def unmap_upd set_skb_upd upd_cell_def split: option.splits)
  have d: "mapped d' = mapped d - {# (a, l) #}" "released d (case s of None \<Rightarrow> [] | Some x \<Rightarrow> [x]) d'"
    using assms(6) c by (auto simp: release_at_def unmap_upd released_def kfree_skb_def split: option.splits)
  have cs: "cells r' = (cells r)[k := (None, 0, RTL8125_MAGIC_NUMBER)]"
    using cells_upd_cell [OF assms(1,2)] by (simp add: r)
  have "mapped d' = M + cell_maps (cells r')"
    using d(1) assms(2,3) cell_maps_release [of k "cells r" s l a None "RTL8125_MAGIC_NUMBER"] assms(4,5) cs by simp
  then show ?thesis using d(2) cs assms(1) by (auto simp: r)
qed

lemma overwrite_same: "k + m \<le> length xs \<Longrightarrow> overwrite k (take m (drop k xs)) xs = xs"
  unfolding overwrite_def by (simp add: min_def) (metis add.commute append_take_drop_id drop_drop)

definition cell_owned :: "cell list \<Rightarrow> nat list" where
  "cell_owned cs = cell_skbs (filter (\<lambda>c. fst (snd c) \<noteq> 0) cs)"

lemma cell_owned_simps [simp]:
  "cell_owned [] = []" "cell_owned ((t, 0, a) # cs) = cell_owned cs"
  "l \<noteq> 0 \<Longrightarrow> cell_owned ((None, l, a) # cs) = cell_owned cs"
  "l \<noteq> 0 \<Longrightarrow> cell_owned ((Some s, l, a) # cs) = s # cell_owned cs"
  by (simp_all add: cell_owned_def)

lemma tx_clear_slot_spec:
  assumes "size_ok r" "k < ring_n r" "mapped d = M + cell_maps (cells r)" "tx_clear_slot (dirty_tx r + of_nat k) (r, d) = (r', d')"
  shows "rframe r r' \<and> cells r' = (cells r)[k := clear_cell (cells r ! k)] \<and> mapped d' = M + cell_maps (cells r')
     \<and> released d (cell_owned [cells r ! k]) d'"
proof -
  obtain s l a where c: "cells r ! k = (s, l, a)" by (cases "cells r ! k")
  then have i: "ri_skb (tx_skb r ! ent r k) = s" "ri_len (tx_skb r ! ent r k) = l"
    using assms(2) by (simp_all add: cells_nth)
  have e: "unat ((dirty_tx r + of_nat k) mod num_tx_desc r) = ent r k" by (simp add: ent_def)
  show ?thesis
  proof (cases "l = 0")
    case True
    then have "clear_cell (cells r ! k) = cells r ! k" "cell_owned [cells r ! k] = []"
      using c by (simp_all add: clear_cell_def)
    moreover have "r' = r" "d' = d" using assms(4) True i e by (simp_all add: tx_clear_slot_def Let_def)
    ultimately show ?thesis using assms(1,3) by (simp add: rframe_refl released_refl)
  next
    case False
    obtain r1 d1 where r1: "release_at (ent r k) (r, d) = (r1, d1)" by (cases "release_at (ent r k) (r, d)")
    then have "r' = r1 \<and> d' = (case s of None \<Rightarrow> d1 | Some x \<Rightarrow> d1\<lparr>tx_dropped := tx_dropped d + 1\<rparr>)"
      using assms(4) False i e by (auto simp: tx_clear_slot_def release_at_def Let_def unmap_upd kfree_skb_def split: option.splits)
    with release_at_spec [OF assms(1-3) c False r1] c False show ?thesis
      by (cases s) (auto simp: clear_cell_def released_def)
  qed
qed

lemma tx_clear_range_Suc: "tx_clear_range p (Suc m) rd = tx_clear_range (p + 1) m (tx_clear_slot p rd)"
  by (simp add: tx_clear_range_def upt_rec [of 0 "Suc m"] fold_map comp_def add.assoc flip: map_Suc_upt del: upt_Suc)

lemma tx_clear_range_spec:
  assumes "size_ok r" "k + m \<le> ring_n r" "mapped d = M + cell_maps (cells r)"
    "tx_clear_range (dirty_tx r + of_nat k) m (r, d) = (r', d')"
  shows "rframe r r' \<and> cells r' = overwrite k (map clear_cell (take m (drop k (cells r)))) (cells r)
     \<and> mapped d' = M + cell_maps (cells r') \<and> released d (cell_owned (take m (drop k (cells r)))) d'"
  using assms
proof (induction m arbitrary: k r d)
  case 0
  then show ?case by (auto simp: tx_clear_range_def)
next
  case (Suc m)
  obtain r1 d1 where s: "tx_clear_slot (dirty_tx r + of_nat k) (r, d) = (r1, d1)"
    by (cases "tx_clear_slot (dirty_tx r + of_nat k) (r, d)")
  have k: "k < ring_n r" using Suc.prems(2) by simp
  note s1 = tx_clear_slot_spec [OF Suc.prems(1) k Suc.prems(3) s]
  have f: "num_tx_desc r1 = num_tx_desc r" "dirty_tx r1 = dirty_tx r" "size_ok r1"
    using s1 rframeD [of r r1] by blast+
  have l: "tx_clear_range (dirty_tx r1 + of_nat (Suc k)) m (r1, d1) = (r', d')"
    using Suc.prems(4) s f by (simp add: tx_clear_range_Suc ac_simps)
  have t: "take (Suc m) (drop k (cells r)) = cells r ! k # take m (drop (Suc k) (cells r))"
    using k by (simp add: Cons_nth_drop_Suc [symmetric])
  have o: "cell_owned (c # cs) = cell_owned [c] @ cell_owned cs" for c cs
    by (simp add: cell_owned_def flip: cell_skbs_simps(4))
  have c1: "drop (Suc k) (cells r1) = drop (Suc k) (cells r)" using s1 by simp
  have "Suc k + m \<le> ring_n r1" "mapped d1 = M + cell_maps (cells r1)" using Suc.prems(2) f(1) s1 by simp_all
  note ih = Suc.IH [OF f(3) this l, unfolded c1]
  have "released d (cell_owned (take (Suc m) (drop k (cells r)))) d'"
    unfolding t o [of "cells r ! k" "take m (drop (Suc k) (cells r))"] using s1 ih by (blast intro: released_trans)
  moreover have "rframe r r'" using s1 ih by (blast intro: rframe_trans)
  ultimately show ?case using ih s1 k by (simp add: t overwrite_Cons)
qed


lemma cell_bytes_simps [simp]: "cell_bytes [] = 0" "cell_bytes ((s, l, a) # cs) = ucast l + cell_bytes cs"
  by (simp_all add: cell_bytes_def)

lemma tx_complete_loop_spec:
  assumes "size_ok r" "k + left \<le> ring_n r" "mapped d = M + cell_maps (cells r)"
    "list_all (\<lambda>c. fst (snd c) \<noteq> 0) (take left (drop k (cells r)))"
    "tx_complete_loop left (dirty_tx r + of_nat k) (r, d) = (dirty', r', d')"
  shows "\<exists>j \<le> left. dirty' = dirty_tx r + of_nat (k + j) \<and> (EnableTxNoClose d \<longrightarrow> j = left) \<and> rframe r r'
     \<and> cells r' = overwrite k (replicate j (None, 0, RTL8125_MAGIC_NUMBER)) (cells r)
     \<and> mapped d' = M + cell_maps (cells r') \<and> released d (cell_skbs (take j (drop k (cells r)))) d'
     \<and> tx_packets d' = tx_packets d + of_nat j \<and> tx_bytes d' = tx_bytes d + cell_bytes (take j (drop k (cells r)))
     \<and> tx_dropped d' = tx_dropped d"
  using assms
proof (induction left arbitrary: k r d)
  case 0
  then show ?case by (auto simp: rframe_refl)
next
  case (Suc left)
  have k: "k < ring_n r" using Suc.prems(2) by simp
  have e: "unat ((dirty_tx r + of_nat k) mod num_tx_desc r) = ent r k" by (simp add: ent_def)
  obtain s l a where c: "cells r ! k = (s, l, a)" by (cases "cells r ! k")
  have dc: "drop k (cells r) = (s, l, a) # drop (Suc k) (cells r)"
    using k c by (metis Cons_nth_drop_Suc length_cells)
  have l: "l \<noteq> 0" using Suc.prems(4) dc by simp
  have i: "ri_skb (tx_skb r ! ent r k) = s" "ri_len (tx_skb r ! ent r k) = l"
    using k c by (simp_all add: cells_nth)
  show ?case
  proof (cases "\<not> EnableTxNoClose d \<and> td_opts1 (TxDescArray r ! ent r k) AND DescOwn \<noteq> 0")
    case True
    with Suc.prems(1,3,5) e show ?thesis by (auto simp: Let_def rframe_refl intro!: exI [of _ 0])
  next
    case False
    let ?d = "d\<lparr>tx_bytes := tx_bytes d + ucast l, tx_packets := tx_packets d + 1\<rparr>"
    obtain r1 d1 where rl: "release_at (ent r k) (r, ?d) = (r1, d1)" by (cases "release_at (ent r k) (r, ?d)")
    have m: "mapped ?d = M + cell_maps (cells r)" using Suc.prems(3) by simp
    note s1 = release_at_spec [OF Suc.prems(1) k m c l rl]
    have f: "num_tx_desc r1 = num_tx_desc r" "dirty_tx r1 = dirty_tx r" "size_ok r1"
      using s1 rframeD [of r r1] by blast+
    have d1: "tx_packets d1 = tx_packets d + 1" "tx_bytes d1 = tx_bytes d + ucast l" "tx_dropped d1 = tx_dropped d"
      "EnableTxNoClose d1 = EnableTxNoClose d"
      using rl by (auto simp: release_at_def unmap_upd kfree_skb_def split: option.splits)
    have "released d [] ?d" by (simp add: released_def)
    then have rd: "released d (cell_skbs [(s, l, a)]) d1"
      using s1 released_trans [of d "[]" ?d] by (cases s) auto
    have "tx_complete_loop left (dirty_tx r + of_nat k + 1) (release_at (ent r k) (r, ?d)) = (dirty', r', d')"
      using Suc.prems(5) False e i by (auto simp: Let_def release_at_def split: option.splits)
    then have lp: "tx_complete_loop left (dirty_tx r1 + of_nat (Suc k)) (r1, d1) = (dirty', r', d')"
      unfolding rl f(2) by (simp add: ac_simps)
    have c1: "drop (Suc k) (cells r1) = drop (Suc k) (cells r)" using s1 by simp
    have p: "Suc k + left \<le> ring_n r1" "mapped d1 = M + cell_maps (cells r1)"
      "list_all (\<lambda>c. fst (snd c) \<noteq> 0) (take left (drop (Suc k) (cells r1)))"
      using Suc.prems(2,4) f(1) s1 dc c1 by simp_all
    from Suc.IH [OF f(3) p lp, unfolded c1] obtain j where j: "j \<le> left"
      "dirty' = dirty_tx r1 + of_nat (Suc k + j)" "EnableTxNoClose d1 \<longrightarrow> j = left" "rframe r1 r'"
      "cells r' = overwrite (Suc k) (replicate j (None, 0, RTL8125_MAGIC_NUMBER)) (cells r1)"
      "mapped d' = M + cell_maps (cells r')" "released d1 (cell_skbs (take j (drop (Suc k) (cells r)))) d'"
      "tx_packets d' = tx_packets d1 + of_nat j" "tx_bytes d' = tx_bytes d1 + cell_bytes (take j (drop (Suc k) (cells r)))"
      "tx_dropped d' = tx_dropped d1" by blast
    have "released d (cell_skbs (take (Suc j) (drop k (cells r)))) d'"
      using released_trans [OF rd j(7)] by (simp add: dc flip: cell_skbs_simps(4))
    moreover have "rframe r r'" using s1 j(4) by (blast intro: rframe_trans)
    moreover have "cells r' = overwrite k (replicate (Suc j) (None, 0, RTL8125_MAGIC_NUMBER)) (cells r)"
      using j(5) s1 k by (simp add: overwrite_Cons)
    ultimately show ?thesis
      using j d1 f(2) dc by (intro exI [of _ "Suc j"]) (simp add: ac_simps)
  qed
qed

lemma cells_advance:
  assumes "size_ok r" "j \<le> ring_n r"
  shows "cells (r\<lparr>dirty_tx := dirty_tx r + of_nat j\<rparr>) = drop j (cells r) @ take j (cells r)"
proof -
  let ?r = "r\<lparr>dirty_tx := dirty_tx r + of_nat j\<rparr>"
  have e: "ent ?r k = ent r (j + k)" for k by (simp add: ent_def ac_simps)
  have w: "ent r (k + ring_n r) = ent r k" for k
    using assms(1) by (simp add: ent_eq flip: add.assoc)
  show ?thesis
  proof (rule nth_equalityI)
    fix k assume "k < length (cells ?r)"
    then have k: "k < ring_n r" by simp
    show "cells ?r ! k = (drop j (cells r) @ take j (cells r)) ! k"
    proof (cases "k < ring_n r - j")
      case True
      then have "j + k < ring_n r" by simp
      then show ?thesis using True k assms(2) by (simp add: nth_append cells_nth e)
    next
      case False
      then have "ent r (j + k) = ent r (k - (ring_n r - j))"
        using w [of "k - (ring_n r - j)"] assms(2) by (simp add: ac_simps)
      moreover have "k - (ring_n r - j) < ring_n r" "k - (ring_n r - j) < j" using False k assms(2) by auto
      ultimately show ?thesis using False k assms(2) by (simp add: nth_append cells_nth e)
    qed
  qed (use assms(2) in simp)
qed


section \<open>The ring invariant\<close>

definition ring_ok :: "tx_ring \<Rightarrow> bool" where
  "ring_ok r \<longleftrightarrow> size_ok r \<and> used r \<le> ring_n r \<and> list_all (\<lambda>c. fst (snd c) \<noteq> 0) (take (used r) (cells r))
     \<and> list_all free_cell (drop (used r) (cells r))"

definition pend :: "tx_ring \<Rightarrow> cell list" where
  "pend r = take (used r) (cells r)"

lemma cell_maps_free: "list_all free_cell cs \<Longrightarrow> cell_maps cs = {#}"
  by (induction cs) (auto dest!: free_cellE)

lemma cell_maps_pend:
  assumes "ring_ok r"
  shows "cell_maps (cells r) = cell_maps (pend r)"
proof -
  have "cell_maps (cells r) = cell_maps (pend r @ drop (used r) (cells r))" by (simp add: pend_def)
  also have "\<dots> = cell_maps (pend r)"
    using assms by (simp only: cell_maps_simps(4) ring_ok_def cell_maps_free) simp
  finally show ?thesis .
qed

lemma slots_avail_iff:
  assumes "ring_ok r"
  shows "tx_slots_avail r \<longleftrightarrow> MAX_SKB_FRAGS < ring_n r - used r"
proof -
  have eq: "dirty_tx r + num_tx_desc r - cur_tx r = num_tx_desc r - (cur_tx r - dirty_tx r)" by simp
  have le: "cur_tx r - dirty_tx r \<le> num_tx_desc r"
    using assms by (simp add: ring_ok_def used_def word_le_nat_alt)
  have "unat (dirty_tx r + num_tx_desc r - cur_tx r) = ring_n r - used r"
    by (simp only: eq unat_sub [OF le] used_def)
  then show ?thesis by (simp add: tx_slots_avail_def word_less_nat_alt)
qed

definition sk_wf :: "nat \<Rightarrow> skb \<Rightarrow> bool" where
  "sk_wf n s \<longleftrightarrow> length (sk_frags s) \<le> n \<and> list_all (\<lambda>f. snd f \<noteq> 0) (sk_frags s)
     \<and> sum_list (map (\<lambda>f. unat (snd f)) (sk_frags s)) = unat (sk_data_len s) \<and> sk_data_len s < sk_len s"

definition dkeep :: "'w tx_dev \<Rightarrow> 'w tx_dev \<Rightarrow> bool" where
  "dkeep d d' \<longleftrightarrow> freed d' = freed d
     \<and> d'\<lparr>tx_w := tx_w d, mapped := mapped d, tx_dropped := tx_dropped d, tx_packets := tx_packets d,
          tx_bytes := tx_bytes d\<rparr> = d"

lemma dkeep_refl [intro]: "dkeep d d"
  by (simp add: dkeep_def)

lemma dkeep_trans: "dkeep d d' \<Longrightarrow> dkeep d' d'' \<Longrightarrow> dkeep d d''"
  unfolding dkeep_def by (cases d, cases d', cases d'') simp

lemma dkeepD:
  assumes "dkeep d d'"
  shows "EnableTxNoClose d' = EnableTxNoClose d" "tx_rings d' = tx_rings d" "q_stopped d' = q_stopped d"
    "tx_regs d' = tx_regs d" "freed d' = freed d" "RequireLSOPatch d' = RequireLSOPatch d"
  using assms by (cases d, cases d', simp add: dkeep_def)+

lemma xinv_dkeep: "xinv M r d rd \<Longrightarrow> dkeep d (snd rd)"
  unfolding xinv_def dkeep_def by (cases "snd rd", cases d) simp

lemma released_dkeep: "released d [] d' \<Longrightarrow> dkeep d d'"
  unfolding released_def dkeep_def by (cases d, cases d') simp

text \<open>The state after an error: nothing pending has changed and nothing new is mapped.\<close>

definition undone :: "(u64 \<times> u32) multiset \<Rightarrow> tx_ring \<Rightarrow> 'w tx_dev \<Rightarrow> tx_ring \<times> 'w tx_dev \<Rightarrow> bool" where
  "undone M r d rd \<longleftrightarrow> rframe r (fst rd) \<and> ring_ok (fst rd) \<and> pend (fst rd) = pend r
     \<and> mapped (snd rd) = M + cell_maps (cells (fst rd)) \<and> dkeep d (snd rd)"

lemma clear_frag_cells:
  "list_all frag_cell segs \<Longrightarrow> map clear_cell segs = replicate (length segs) (None, 0, RTL8125_MAGIC_NUMBER)"
  "list_all frag_cell segs \<Longrightarrow> cell_owned segs = []"
  by (induction segs) (auto simp: clear_cell_def frag_cell_def)

lemma clear_segs:
  assumes "ring_ok r" "rframe r r1" "dkeep d d1" "mapped d1 = M + cell_maps (cells r1)" "fills r1 (used r + 1) (cells r) segs"
    "used r + 1 + length segs \<le> ring_n r"
  shows "undone M r d (tx_clear_range (cur_tx r1 + 1) (length segs) (r1, d1))"
proof -
  obtain r2 d2 where c: "tx_clear_range (cur_tx r1 + 1) (length segs) (r1, d1) = (r2, d2)"
    by (cases "tx_clear_range (cur_tx r1 + 1) (length segs) (r1, d1)")
  note f = rframeD [OF assms(2)]
  have p: "cur_tx r1 + 1 = dirty_tx r1 + of_nat (used r + 1)" using f by (simp add: used_def)
  have t: "take (length segs) (drop (used r + 1) (cells r1)) = segs"
    using assms(5,6) by (simp add: fills_def drop_overwrite)
  have z: "map clear_cell segs = replicate (length segs) (None, 0, RTL8125_MAGIC_NUMBER)" "cell_owned segs = []"
    using assms(5) by (simp_all add: fills_def clear_frag_cells)
  have s: "size_ok r1" "used r + 1 + length segs \<le> ring_n r1" using f assms(6) by simp_all
  note sp = tx_clear_range_spec [OF s assms(4) c [unfolded p], unfolded t z]
  let ?z = "replicate (length segs) (None, 0, RTL8125_MAGIC_NUMBER)"
  have c2: "cells r2 = overwrite (used r + 1) ?z (cells r)"
    using sp assms(5,6) by (simp add: fills_def overwrite_overwrite)
  have fr: "rframe r r2" using sp assms(2) by (blast intro: rframe_trans)
  have "drop (used r) (cells r2) = cells r ! used r # ?z @ drop (used r + 1 + length segs) (cells r)"
    using assms(6) by (simp add: c2 overwrite_def take_Suc_conv_app_nth)
  moreover have "drop (used r) (cells r) = cells r ! used r # drop (used r + 1) (cells r)"
    using assms(6) by (simp add: Cons_nth_drop_Suc)
  moreover have "set (drop (used r + 1 + length segs) (cells r)) \<subseteq> set (drop (used r + 1) (cells r))"
    by (rule set_drop_subset_set_drop) simp
  ultimately have "list_all free_cell (drop (used r) (cells r2))"
    using assms(1) by (auto simp: ring_ok_def list_all_iff free_cell_def)
  then have "ring_ok r2" "pend r2 = pend r"
    using assms(1,6) rframeD [OF fr] by (simp_all add: ring_ok_def pend_def c2 take_overwrite)
  then show ?thesis
    using sp c fr assms(3) by (auto simp: undone_def dest: released_dkeep intro: dkeep_trans)
qed


lemma xmit_frags_cases:
  assumes "ring_ok r" "MAX_SKB_FRAGS < ring_n r - used r" "mapped d = M + cell_maps (cells r)"
    "sk_wf (MAX_SKB_FRAGS - lso_extra d) s"
  obtains (failed) rd' where "xmit_frags K s opts (r, d) = (None, rd')" "undone M r d rd'"
    | (filled) r' d' segs where "xmit_frags K s opts (r, d) = (Some (length segs), r', d')" "rframe r r'" "dkeep d d'"
      "mapped d' = M + cell_maps (cells r')" "fills r' (used r + 1) (cells r) segs"
      "used r + 1 + length segs \<le> ring_n r" "cell_len segs = unat (sk_data_len s)"
      "length (sk_frags s) \<le> length segs" "sk_frags s = [] \<longrightarrow> segs = []"
proof -
  have so: "size_ok r" and fr: "list_all free_cell (drop (used r + 1) (cells r))"
    using assms(1) set_drop_subset_set_drop [of "used r" "used r + 1" "cells r"] by (auto simp: ring_ok_def list_all_iff)
  have x: "lso_extra d \<le> 1" by (simp add: lso_extra_def)
  have i: "xinv M r d (r, d)" using so assms(3) by (auto simp: xinv_def)
  have e: "(cur_tx r + 1) mod num_tx_desc r = pos r (used r + 1)" using cur_pos [OF so, of 1] by simp
  obtain ok cf r1 d1 where l: "xmit_loop K opts (length (sk_frags s)) (sk_frags s) 0 (cur_tx r) 0 (r, d) = (ok, cf, r1, d1)"
    by (metis surj_pair)
  have b: "used r + 1 + length (sk_frags s) + lso_extra d \<le> ring_n r"
    using assms(2,4) x by (simp add: sk_wf_def) linarith
  obtain segs where s: "xinv M r d (r1, d1)" "fills r1 (used r + 1) (cells r) segs" "cf = length segs"
    "length segs \<le> length (sk_frags s) + lso_extra d"
    "ok \<longrightarrow> cell_len segs = sum_list (map (\<lambda>f. unat (snd f)) (sk_frags s))" "ok \<longrightarrow> length (sk_frags s) \<le> length segs"
    using xmit_loop_spec [OF l so i e] assms(4) fr b by (auto simp: sk_wf_def)
  note si = s(1) [unfolded xinv_def] and dk = xinv_dkeep [OF s(1)]
  have b': "used r + 1 + length segs \<le> ring_n r" using s(4) b by linarith
  show thesis
  proof (cases ok)
    case True
    have "sk_frags s = [] \<longrightarrow> segs = []" using l s(3) by auto
    with True filled [of segs r1 d1] s si dk l b' assms(4) show thesis
      by (simp add: xmit_frags_def sk_wf_def)
  next
    case False
    have "undone M r d (tx_clear_range (cur_tx r1 + 1) (length segs) (r1, d1))"
      by (rule clear_segs) (use assms(1) si dk s(2) b' in simp_all)
    with False failed l s(3) show thesis by (simp add: xmit_frags_def)
  qed
qed

text \<open>
  What the transmit path relies on in the kernel. \<open>keeps\<close>: a service that may rewrite a socket buffer
  leaves it the same buffer, no shorter and with no more fragments.
\<close>

definition keeps :: "skb \<Rightarrow> skb \<Rightarrow> bool" where
  "keeps s s' \<longleftrightarrow> sk_id s' = sk_id s \<and> sk_len s \<le> sk_len s' \<and> (\<forall>n. sk_wf n s \<longrightarrow> sk_wf n s')"

definition tx_kern_ok :: "'w tx_kern \<Rightarrow> bool" where
  "tx_kern_ok K \<longleftrightarrow>
     (\<forall>s n w. sk_len s < n \<longrightarrow> (\<exists>s' w'. tk_padto K s n w = (Some s', w') \<and> keeps s (s'\<lparr>sk_len := n\<rparr>)))
   \<and> (\<forall>s w s' w'. tk_cow_head K s w = (Some s', w') \<longrightarrow> keeps s s')
   \<and> (\<forall>s w. keeps s (fst (tk_csum_help K s w)))"

lemma keeps_refl [intro, simp]: "keeps s s"
  by (simp add: keeps_def)

lemma keeps_trans: "keeps s s' \<Longrightarrow> keeps s' s'' \<Longrightarrow> keeps s s''"
  by (auto simp: keeps_def)

lemma sk_wf_tcp_check: "sk_wf n (s\<lparr>sk_tcp_check := c\<rparr>) = sk_wf n s"
  by (simp add: sk_wf_def)

lemma keeps_tcp_check: "keeps s s' \<Longrightarrow> keeps s (s'\<lparr>sk_tcp_check := c\<rparr>)"
  using sk_wf_tcp_check by (simp add: keeps_def)

text \<open>
  The padding of small transport packets.
\<close>

definition pad_candidate :: "skb \<Rightarrow> bool" where
  "pad_candidate s \<longleftrightarrow> sk_transport_set s \<and> sk_len s < 175
     \<and> (get_l4_protocol s = IPPROTO_TCP \<or> get_l4_protocol s = IPPROTO_UDP)"

lemma pad_to_minimum:
  fixes n p :: u32
  assumes "n < 175" "p \<le> 60"
  defines "o' \<equiv> (if n + p < ETH_ZLEN then ETH_ZLEN - n else p)"
  shows "o' \<le> 60 \<and> p \<le> o' \<and> unat (n + o') = unat n + unat o' \<and> 60 \<le> unat n + unat o'"
proof -
  have nb: "unat n < 175" "unat p \<le> 60" using assms(1,2) by (simp_all add: word_less_nat_alt word_le_nat_alt)
  have np: "unat (n + p) = unat n + unat p" using nb by (simp add: unat_word_ariths)
  show ?thesis
  proof (cases "n + p < ETH_ZLEN")
    case True
    then have lt: "unat n + unat p < 60" using np by (simp add: word_less_nat_alt)
    then have "n \<le> 60" by (simp add: word_le_nat_alt)
    then have "unat (60 - n) = 60 - unat n" by (simp add: unat_sub)
    with True lt show ?thesis by (simp add: o'_def word_le_nat_alt)
  next
    case False
    then show ?thesis using np nb assms(2) by (simp add: o'_def word_less_nat_alt)
  qed
qed

lemma small_sint:
  fixes t :: u32
  assumes "3 < sint t" "sint t < 47"
  shows "4 \<le> unat t \<and> unat t < 47"
proof -
  have "uint t = sint t" using assms by (simp add: uint_sint [of t] take_bit_eq_mod)
  then show ?thesis using assms by (simp only: unat_eq_nat_uint) linarith
qed

lemma sub_pad:
  fixes t h :: u32
  shows "t \<le> h \<Longrightarrow> unat t + unat (h - t) = unat h"
  by (simp add: unat_sub word_le_nat_alt)

lemma patch_pad_base:
  fixes s
  defines "t \<equiv> sk_len s - word_of_int (sk_transport_offset s)" and "ptp \<equiv> sk_dest_port s = 0x13f \<or> sk_dest_port s = 0x140"
  assumes "pad_candidate s"
  obtains b where "b \<le> 60" "get_patch_pad_len s = (if sk_len s + b < ETH_ZLEN then ETH_ZLEN - sk_len s else b)"
    "get_l4_protocol s = IPPROTO_TCP \<Longrightarrow> 20 \<le> unat t + unat b" "get_l4_protocol s = IPPROTO_UDP \<Longrightarrow> 8 \<le> unat t + unat b"
    "get_l4_protocol s = IPPROTO_UDP \<Longrightarrow> 3 < sint t \<Longrightarrow> sint t < 47 \<Longrightarrow> ptp \<Longrightarrow> 47 \<le> unat t + unat b"
proof (cases "get_l4_protocol s = IPPROTO_UDP \<and> 3 < sint t \<and> sint t < 47 \<and> ptp")
  case True
  then have "t \<le> 47" using small_sint [of t] by (simp add: word_le_nat_alt)
  with True assms(3) small_sint [of t] sub_pad [of t 47] show thesis
    by (intro that [of "47 - t"])
      (auto simp: get_patch_pad_len_def pad_candidate_def t_def ptp_def Let_def word_le_nat_alt)
next
  case False
  define h :: u32 where "h = (if get_l4_protocol s = IPPROTO_TCP then 20 else 8)"
  define b where "b = (if t < h then h - t else 0)"
  have h: "unat h \<le> unat t + unat b" "b \<le> 60"
    using sub_pad [of t h] by (auto simp: b_def h_def word_le_nat_alt word_less_nat_alt)
  have "get_patch_pad_len s = (if sk_len s + b < ETH_ZLEN then ETH_ZLEN - sk_len s else b)"
    using False assms(3) unfolding get_patch_pad_len_def pad_candidate_def Let_def b_def h_def t_def ptp_def
    by (simp split del: if_split cong: if_cong) (auto split: if_splits)
  with h False show thesis by (intro that [of b]) (auto simp: h_def)
qed

lemma patch_pad_none: "\<not> pad_candidate s \<Longrightarrow> get_patch_pad_len s = 0"
  by (auto simp: get_patch_pad_len_def pad_candidate_def Let_def)

lemma patch_pad_some:
  fixes s
  defines "p \<equiv> get_patch_pad_len s"
  assumes "pad_candidate s"
  shows "p \<le> 60 \<and> unat (sk_len s + p) = unat (sk_len s) + unat p \<and> 60 \<le> unat (sk_len s) + unat p"
  using assms(2) by (rule patch_pad_base) (use assms(2) pad_to_minimum in \<open>auto simp: p_def pad_candidate_def\<close>)


lemma patch_pad_grows:
  assumes "0 < get_patch_pad_len s"
  shows "sk_len s < sk_len s + get_patch_pad_len s"
proof -
  have "pad_candidate s" using assms patch_pad_none by fastforce
  then have "unat (sk_len s + get_patch_pad_len s) = unat (sk_len s) + unat (get_patch_pad_len s)"
    using patch_pad_some by blast
  then show ?thesis using assms by (simp add: word_less_nat_alt)
qed

definition wonly :: "'w tx_dev \<Rightarrow> 'w tx_dev \<Rightarrow> bool" where
  "wonly d d' \<longleftrightarrow> d'\<lparr>tx_w := tx_w d\<rparr> = d"

lemma wonly_simps [simp]: "wonly d d" "wonly d (d\<lparr>tx_w := w\<rparr>)"
  by (simp_all add: wonly_def)

lemma wonly_trans: "wonly d d' \<Longrightarrow> wonly d' d'' \<Longrightarrow> wonly d d''"
  unfolding wonly_def by (cases d, cases d', cases d'') simp

lemma wonly_dkeep: "wonly d d' \<Longrightarrow> dkeep d d' \<and> mapped d' = mapped d"
  unfolding wonly_def dkeep_def by (cases d, cases d') simp

lemma pad_with_len_spec:
  assumes "tx_kern_ok K" "sk_len s < n" "skb_pad_with_len K s n d = (ok, s', d')"
  shows "ok \<and> keeps s s' \<and> wonly d d'"
  using assms(1) [unfolded tx_kern_ok_def, THEN conjunct1, rule_format, OF assms(2), of "tx_w d"] assms(3)
  by (auto simp: skb_pad_with_len_def)

lemma cow_head_spec: "\<lbrakk>tx_kern_ok K; tk_cow_head K s w = (Some s', w')\<rbrakk> \<Longrightarrow> keeps s s'"
  unfolding tx_kern_ok_def by blast

lemma giant_check_spec:
  assumes "tx_kern_ok K" "msdn_giant_send_check K s d = (ok, s', d')"
  shows "keeps s s' \<and> wonly d d'"
proof (cases "tk_cow_head K s (tx_w d)")
  case (Pair o' w)
  with assms show ?thesis
    by (cases o') (auto simp: msdn_giant_send_check_def intro: keeps_tcp_check cow_head_spec)
qed

lemma tso_segment_spec:
  assumes "tx_kern_ok K" "tso_segment K s opts d = (ok, s', opts', d')"
  shows "keeps s s' \<and> wonly d d'"
proof -
  obtain okg sg dg where g: "msdn_giant_send_check K s d = (okg, sg, dg)" by (metis surj_pair)
  note gs = giant_check_spec [OF assms(1) g]
  from assms(2) g gs show ?thesis
    by (cases okg) (auto simp: tso_segment_def split: if_splits prod.splits)
qed

lemma csum_patch_pad_spec:
  assumes "tx_kern_ok K" "csum_patch_pad K b s d = (res, s', d')"
  shows "res \<noteq> None \<and> keeps s s' \<and> wonly d d'"
proof (cases "b \<and> 0 < get_patch_pad_len s")
  case True
  obtain ok s1 d1 where p: "skb_pad_with_len K s (sk_len s + get_patch_pad_len s) d = (ok, s1, d1)" by (metis surj_pair)
  have "ok \<and> keeps s s1 \<and> wonly d d1"
    using pad_with_len_spec [OF assms(1) patch_pad_grows p] True by blast
  with True p assms(2) show ?thesis by (auto simp: csum_patch_pad_def Let_def)
next
  case False
  with assms(2) show ?thesis by (auto simp: csum_patch_pad_def Let_def)
qed

lemma csum_short_pad_spec:
  assumes "tx_kern_ok K" "csum_short_pad K c s d = (res, s', d')"
  shows "res \<noteq> None \<and> keeps s s' \<and> wonly d d'"
proof (cases "sk_len s < ETH_ZLEN \<and> (UseSwPaddingShortPkt d \<or> (ShortPacketSwChecksum d \<and> c \<noteq> 0))")
  case True
  obtain ok s1 d1 where p: "skb_pad_with_len K s ETH_ZLEN d = (ok, s1, d1)" by (metis surj_pair)
  have "ok \<and> keeps s s1 \<and> wonly d d1"
    using pad_with_len_spec [OF assms(1) _ p] True by blast
  with True p assms(2) show ?thesis by (auto simp: csum_short_pad_def skb_pad_def)
next
  case False
  with assms(2) show ?thesis by (auto simp: csum_short_pad_def)
qed

lemma csum_help_spec:
  assumes "tx_kern_ok K" "tk_csum_help K s w = (s', w')"
  shows "keeps s s'"
  using assms by (metis fst_conv tx_kern_ok_def)

lemma tso_csum_spec:
  assumes "tx_kern_ok K" "tso_csum K s opts d = (ok, s', opts', d')"
  shows "keeps s s' \<and> wonly d d'"
proof (cases "f_tso d \<and> sk_gso_size s \<noteq> 0")
  case True
  with assms tso_segment_spec show ?thesis by (simp add: tso_csum_def)
next
  case False
  obtain cmd pr where c: "(if sk_partial s then csum_command d s else (0, IPPROTO_RAW)) = (cmd, pr)" by (metis surj_pair)
  obtain o1 s1 d1 where p: "csum_patch_pad K (sk_partial s \<longrightarrow> pr \<noteq> IPPROTO_TCP) s d = (o1, s1, d1)" by (metis surj_pair)
  obtain o2 s2 d2 where q: "csum_short_pad K cmd s1 d1 = (o2, s2, d2)" by (metis surj_pair)
  note ps = csum_patch_pad_spec [OF assms(1) p] and qs = csum_short_pad_spec [OF assms(1) q]
  obtain b1 b2 where o: "o1 = Some b1" "o2 = Some b2" using ps qs by auto
  obtain s3 w3 where h: "tk_csum_help K s2 (tx_w d2) = (s3, w3)" by (cases "tk_csum_help K s2 (tx_w d2)")
  note hs = csum_help_spec [OF assms(1) h]
  have e: "(ok, s', opts', d') = (if (sk_partial s \<and> cmd = 0) \<or> (cmd \<noteq> 0 \<and> (b1 \<or> b2))
      then (True, s3, opts, d2\<lparr>tx_w := w3\<rparr>) else (True, s2, (fst opts, snd opts OR cmd), d2))"
    using assms(2) False by (auto simp: tso_csum_def c p q h o Let_def split: if_splits)
  have "keeps s s2" "wonly d d2" using ps qs keeps_trans wonly_trans by blast+
  then show ?thesis
    using e hs keeps_trans [of s s2 s3] wonly_trans [of d d2 "d2\<lparr>tx_w := w3\<rparr>"] by (auto split: if_splits)
qed


section \<open>Transmission\<close>

lemma xmit_publish_spec:
  fixes q frags r d
  defines "d' \<equiv> xmit_publish q frags (r, d)" and "r' \<equiv> r\<lparr>cur_tx := cur_tx r + of_nat frags + 1\<rparr>"
  shows "tx_rings d' = (tx_rings d)[q := r']" "freed d' = freed d" "mapped d' = mapped d"
    "q_stopped d' = (if tx_slots_avail r' then q_stopped d else (q_stopped d)(q := True))"
    "EnableTxNoClose d \<Longrightarrow> tx_regs d' = (tx_regs d)(sw_tail_ptr_reg r := ucast (cur_tx r' mod MAX_TX_NO_CLOSE_DESC_PTR_V2))"
    "EnableTxNoClose d' = EnableTxNoClose d" "RequireLSOPatch d' = RequireLSOPatch d"
  by (simp_all add: d'_def r'_def xmit_publish_def put_tx_ring_def Let_def)

lemma used_publish:
  assumes "used r + m \<le> ring_n r" "size_ok r"
  shows "used (r\<lparr>cur_tx := cur_tx r + of_nat m\<rparr>) = used r + m"
proof -
  have e: "cur_tx r + of_nat m - dirty_tx r = (cur_tx r - dirty_tx r) + of_nat m" by simp
  have "used (r\<lparr>cur_tx := cur_tx r + of_nat m\<rparr>) = unat (cur_tx r + of_nat m - dirty_tx r)" by (simp add: used_def)
  also have "\<dots> = (used r + m) mod 2 ^ 32" by (simp only: e unat_add_of_nat used_def)
  finally show ?thesis using assms by (simp add: size_ok_def)
qed

lemma cells_publish: "cells (r\<lparr>cur_tx := c\<rparr>) = cells r" "size_ok (r\<lparr>cur_tx := c\<rparr>) = size_ok r"
  by (simp_all add: cells_def ent_def size_ok_def)

text \<open>
  The head descriptor and publication: the packet becomes pending as a whole.
\<close>

lemma publish_packet:
  fixes x m o2 st
  assumes "ring_ok r" "rframe r r1" "fills r1 (used r + 1) (cells r) segs" "used r + 1 + length segs \<le> ring_n r" "len \<noteq> 0"
  defines "r2 \<equiv> put_txd (cur_tx r1 mod num_tx_desc r1) st o2 m len (set_skb (unat (cur_tx r1 mod num_tx_desc r1)) (Some x) r1)"
  defines "r3 \<equiv> r2\<lparr>cur_tx := cur_tx r2 + of_nat (length segs) + 1\<rparr>"
  shows "ring_ok r3" "pend r3 = pend r @ (Some x, len, m) # segs" "cell_maps (cells r3) = add_mset (m, len) (cell_maps (cells r1))"
    "tr_index r3 = tr_index r" "ring_n r3 = ring_n r" "rframe r r2"
proof -
  note f = rframeD [OF assms(2)]
  let ?u = "used r" and ?c = "(Some x, len, m)"
  have p: "cur_tx r1 mod num_tx_desc r1 = pos r1 ?u" using cur_pos [OF f(4), of 0] f by simp
  have u: "?u < ring_n r1" using assms(4) f by simp
  have "r2 = upd_cell (ent r1 ?u) \<lparr>ri_skb = Some x, ri_len = len\<rparr> \<lparr>td_opts1 = st, td_opts2 = o2, td_addr = m\<rparr> r1"
    using ent_lt [OF f(4), of ?u] f(4)
    by (cases "tx_skb r1 ! ent r1 ?u") (simp add: r2_def p unat_pos put_txd_upd set_skb_upd upd_cell_def size_ok_def)
  then have c2: "cells r2 = (cells r1)[?u := ?c]" and fr: "rframe r1 r2"
    using cells_upd_cell [OF f(4) u] f(4) by auto
  note f2 = rframeD [OF fr]
  have c3: "cells r2 = take ?u (cells r) @ (?c # segs) @ drop (?u + 1 + length segs) (cells r)"
    using assms(3,4) unfolding c2 fills_def
    by (simp add: overwrite_def take_Suc_conv_app_nth list_update_append)
  have u3: "used r3 = ?u + 1 + length segs"
    using used_publish [of r2 "length segs + 1"] f f2 assms(4) by (simp add: r3_def ac_simps)
  have c4: "cells r3 = cells r2" "size_ok r3" using f2 by (simp_all add: r3_def cells_publish)
  have t: "take (?u + 1 + length segs) (cells r3) = take ?u (cells r) @ ?c # segs"
      "drop (?u + 1 + length segs) (cells r3) = drop (?u + 1 + length segs) (cells r)"
    using assms(4) by (simp_all add: c4 c3)
  then show "pend r3 = pend r @ ?c # segs" by (simp add: pend_def u3)
  have "list_all free_cell (drop (?u + 1 + length segs) (cells r))"
    using assms(1) set_drop_subset_set_drop [of ?u "?u + 1 + length segs" "cells r"] by (auto simp: ring_ok_def list_all_iff)
  then show "ring_ok r3"
    using assms(1,3,4,5) t c4(2) f f2 u3
    by (auto simp: ring_ok_def fills_def list_all_iff frag_cell_def r3_def)
  have "cells r1 ! ?u = cells r ! ?u" using assms(3,4) by (simp add: fills_def overwrite_def nth_append)
  moreover have "free_cell (cells r ! ?u)"
    using assms(1,4) by (simp add: ring_ok_def Cons_nth_drop_Suc [symmetric])
  ultimately obtain a where "cells r1 ! ?u = (None, 0, a)" using free_cellE by metis
  then show "cell_maps (cells r3) = add_mset (m, len) (cell_maps (cells r1))"
    using cell_maps_fill [of ?u "cells r1" None a len "Some x" m] u assms(5) by (simp add: c4(1) c2)
  show "tr_index r3 = tr_index r" "ring_n r3 = ring_n r" "rframe r r2"
    using f f2 fr assms(2) by (auto simp: r3_def intro: rframe_trans)
qed


text \<open>
  The three outcomes of a transmission.
\<close>

definition xmit_sent :: "nat \<Rightarrow> skb \<Rightarrow> 'w tx_dev \<Rightarrow> tx_ring \<Rightarrow> netdev_tx \<times> 'w tx_dev \<Rightarrow> bool" where
  "xmit_sent q s d r' res \<longleftrightarrow> (case res of (ret, d') \<Rightarrow>
     ret = NETDEV_TX_OK \<and> freed d' = freed d \<and> tx_rings d' = (tx_rings d)[q := r']
     \<and> (\<exists>len m segs. pend r' = pend (tx_rings d ! q) @ (Some (sk_id s), len, m) # segs \<and> len \<noteq> 0
          \<and> list_all frag_cell segs \<and> unat (sk_len s) \<le> unat len + cell_len segs)
     \<and> q_stopped d' = (if tx_slots_avail r' then q_stopped d else (q_stopped d)(q := True))
     \<and> (EnableTxNoClose d \<longrightarrow> tx_regs d' = (tx_regs d)(sw_tail_ptr_reg r' := ucast (cur_tx r' mod MAX_TX_NO_CLOSE_DESC_PTR_V2))))"

definition xmit_dropped :: "nat \<Rightarrow> skb \<Rightarrow> 'w tx_dev \<Rightarrow> tx_ring \<Rightarrow> netdev_tx \<times> 'w tx_dev \<Rightarrow> bool" where
  "xmit_dropped q s d r' res \<longleftrightarrow> (case res of (ret, d') \<Rightarrow>
     ret = NETDEV_TX_OK \<and> freed d' = freed d @ [sk_id s] \<and> tx_rings d' = (tx_rings d)[q := r']
     \<and> rframe (tx_rings d ! q) r' \<and> pend r' = pend (tx_rings d ! q) \<and> q_stopped d' = q_stopped d \<and> tx_regs d' = tx_regs d)"

definition xmit_busy :: "nat \<Rightarrow> 'w tx_dev \<Rightarrow> netdev_tx \<times> 'w tx_dev \<Rightarrow> bool" where
  "xmit_busy q d res \<longleftrightarrow>
     res = (NETDEV_TX_BUSY, d\<lparr>q_stopped := (q_stopped d)(q := True), tx_dropped := tx_dropped d + 1\<rparr>)
     \<and> (EnableTxNoClose d \<longrightarrow> \<not> tx_slots_avail (tx_rings d ! q))"

text \<open>What a transmission leaves alone of the ring's identity and of the device's configuration.\<close>

definition same_ring :: "tx_ring \<Rightarrow> tx_ring \<Rightarrow> bool" where
  "same_ring r r' \<longleftrightarrow> tr_index r' = tr_index r \<and> num_tx_desc r' = num_tx_desc r \<and> dirty_tx r' = dirty_tx r
     \<and> hw_clo_ptr_reg r' = hw_clo_ptr_reg r \<and> sw_tail_ptr_reg r' = sw_tail_ptr_reg r \<and> BeginHwDesCloPtr r' = BeginHwDesCloPtr r"

lemma rframe_same_ring: "rframe r r' \<Longrightarrow> same_ring r r'"
  by (simp add: same_ring_def rframeD)

text \<open>
  The conclusion shared by all exits that release the ring consistently.
\<close>

definition xmit_done :: "(u64 \<times> u32) multiset \<Rightarrow> nat \<Rightarrow> skb \<Rightarrow> 'w tx_dev \<Rightarrow> netdev_tx \<times> 'w tx_dev \<Rightarrow> bool" where
  "xmit_done M q s d res \<longleftrightarrow> (\<exists>r'. same_ring (tx_rings d ! q) r' \<and> ring_ok r' \<and> mapped (snd res) = M + cell_maps (cells r')
     \<and> EnableTxNoClose (snd res) = EnableTxNoClose d \<and> RequireLSOPatch (snd res) = RequireLSOPatch d
     \<and> (xmit_sent q s d r' res \<or> xmit_dropped q s d r' res))"

lemma undone_dropped:
  assumes "undone M (tx_rings d ! q) d rd" "q < length (tx_rings d)" "sk_id s' = sk_id s"
  shows "xmit_done M q s d (xmit_err_dma_0 q s' rd)"
proof -
  obtain r1 d1 where rd: "rd = (r1, d1)" by (cases rd)
  note u = assms(1) [unfolded undone_def rd fst_conv snd_conv]
  have k: "tx_rings d1 = tx_rings d" "freed d1 = freed d" "q_stopped d1 = q_stopped d" "tx_regs d1 = tx_regs d"
    "EnableTxNoClose d1 = EnableTxNoClose d" "RequireLSOPatch d1 = RequireLSOPatch d"
    using u dkeepD [of d d1] by blast+
  have s: "same_ring (tx_rings d ! q) r1" using u rframe_same_ring by blast
  show ?thesis
    unfolding xmit_done_def using u k s assms(3)
    by (intro exI [of _ r1])
      (simp add: xmit_dropped_def xmit_err_dma_0_def put_tx_ring_def kfree_skb_def Let_def rd)
qed

lemma set_skb_none:
  assumes "size_ok r" "k < ring_n r" "fst (cells r ! k) = None"
  shows "cells (set_skb (ent r k) None r) = cells r" "rframe r (set_skb (ent r k) None r)" "cur_tx (set_skb e x r) = cur_tx r"
proof -
  have "(None, ri_len (tx_skb r ! ent r k), td_addr (TxDescArray r ! ent r k)) = cells r ! k"
    using assms(2,3) by (simp add: cells_nth)
  then show "cells (set_skb (ent r k) None r) = cells r"
    using cells_upd_cell [OF assms(1,2)] by (simp add: set_skb_upd)
  show "rframe r (set_skb (ent r k) None r)" "cur_tx (set_skb e x r) = cur_tx r"
    using assms(1) by (auto simp: set_skb_upd)
qed

lemma dma_map_keeps:
  assumes "dma_map_single K a len d = (mo, d')"
  shows "dkeep d d'" "mapped d' = (case mo of None \<Rightarrow> mapped d | Some m \<Rightarrow> add_mset (m, len) (mapped d))"
  using assms by (auto simp: dma_map_single_def dkeep_def split: prod.splits option.splits)

lemma xmit_head_spec:
  fixes q s d
  defines "r \<equiv> tx_rings d ! q"
  assumes "ring_ok r" "q < length (tx_rings d)" "rframe r r1" "dkeep d d1" "mapped d1 = M + cell_maps (cells r1)"
    "fills r1 (used r + 1) (cells r) segs" "used r + 1 + length segs \<le> ring_n r" "cell_len segs = unat (sk_data_len s')"
    "sk_wf n s'" "keeps s s'" "sk_frags s' = [] \<longrightarrow> segs = []" "length (sk_frags s') \<le> length segs"
  shows "xmit_done M q s d (xmit_head K q s' opts (length segs) (r1, d1))"
proof -
  let ?entry = "cur_tx r1 mod num_tx_desc r1"
  let ?len = "if length segs \<noteq> 0 then sk_len s' - sk_data_len s' else sk_len s'"
  have id: "sk_id s' = sk_id s" "unat (sk_len s) \<le> unat (sk_len s')"
    using assms(11) by (simp_all add: keeps_def word_le_nat_alt)
  have hl: "unat (sk_len s' - sk_data_len s') + unat (sk_data_len s') = unat (sk_len s')" "sk_len s' - sk_data_len s' \<noteq> 0"
    using assms(10) by (auto simp: sk_wf_def unat_sub word_less_nat_alt order.strict_implies_order)
  have d0: "segs = [] \<Longrightarrow> sk_data_len s' = 0" using assms(9) by (simp add: unat_eq_0)
  have len: "?len \<noteq> 0" "unat ?len + cell_len segs = unat (sk_len s')"
    using hl d0 assms(9) by (auto split: if_splits)
  obtain mo d2 where dm: "dma_map_single K (sk_data s') ?len d1 = (mo, d2)" by (cases "dma_map_single K (sk_data s') ?len d1")
  have dk2: "dkeep d d2" using dma_map_keeps(1) [OF dm] assms(5) dkeep_trans by blast
  note f = rframeD [OF assms(4)] and dk = dkeepD [OF dk2]
  have e: "unat ?entry = ent r1 (used r)" using cur_pos [OF f(4), of 0] f(5) by (simp add: unat_pos)
  have u: "used r < ring_n r1" using assms(8) f(1) by simp
  show ?thesis
  proof (cases mo)
    case None
    let ?r = "set_skb (ent r1 (used r)) None r1"
    have "free_cell (cells r ! used r)" using assms(2,8) by (simp add: ring_ok_def Cons_nth_drop_Suc [symmetric])
    moreover have "cells r1 ! used r = cells r ! used r" using assms(7,8) by (simp add: fills_def overwrite_def nth_append)
    ultimately have "fst (cells r1 ! used r) = None" by (simp add: free_cell_def)
    note k = set_skb_none [OF f(4) u this]
    have "undone M r d (tx_clear_range (cur_tx ?r + 1) (length segs) (?r, d2))"
      by (rule clear_segs) (use assms(2,4,6-8) k dk2 dma_map_keeps(2) [OF dm] None in
        \<open>auto simp: fills_def intro: rframe_trans\<close>)
    moreover have "xmit_head K q s' opts (length segs) (r1, d1) =
        xmit_err_dma_0 q s' (tx_clear_range (cur_tx ?r + 1) (length segs) (?r, d2))"
      using dm None e k(3) by (simp add: xmit_head_def Let_def)
    ultimately show ?thesis
      using undone_dropped [OF _ assms(3) id(1)] by (simp add: r_def)
  next
    case (Some m)
    let ?o = "get_txd_opts1 r1 (if length segs \<noteq> 0 then fst opts OR FirstFrag else fst opts OR (FirstFrag OR LastFrag)) ?len ?entry"
    let ?r2 = "put_txd ?entry ?o (snd opts) m ?len (set_skb (unat ?entry) (Some (sk_id s')) r1)"
    let ?r3 = "?r2\<lparr>cur_tx := cur_tx ?r2 + of_nat (length segs) + 1\<rparr>"
    note pp = publish_packet [OF assms(2,4,7,8) len(1), where x = "sk_id s'" and m = m and ?o2.0 = "snd opts" and st = ?o]
    have x: "xmit_head K q s' opts (length segs) (r1, d1) = (NETDEV_TX_OK, xmit_publish q (length segs) (?r2, d2))"
      using dm Some by (simp add: xmit_head_def Let_def)
    note pub = xmit_publish_spec [where q = q and frags = "length segs" and r = ?r2 and d = d2]
    have "xmit_sent q s d ?r3 (NETDEV_TX_OK, xmit_publish q (length segs) (?r2, d2))"
      unfolding xmit_sent_def prod.case
    proof (intro conjI exI)
      show "pend ?r3 = pend (tx_rings d ! q) @ (Some (sk_id s), ?len, m) # segs" using pp(2) id(1) by (simp only: r_def)
      show "unat (sk_len s) \<le> unat ?len + cell_len segs" using len(2) id(2) by linarith
      show "list_all frag_cell segs" using assms(7) by (simp add: fills_def)
    qed (use pub dk len(1) in auto)
    moreover have "mapped (xmit_publish q (length segs) (?r2, d2)) = M + cell_maps (cells ?r3)"
      using pub(3) dma_map_keeps(2) [OF dm] Some assms(6) pp(3) by simp
    moreover have "same_ring r ?r3"
      using rframe_same_ring [OF pp(6)] by (simp add: same_ring_def)
    ultimately show ?thesis
      unfolding x xmit_done_def using pp(1) pub(6,7) dk by (intro exI [of _ ?r3]) (simp add: r_def)
  qed
qed


lemma cells_pend_maps: "ring_ok r \<Longrightarrow> mapped d = M + cell_maps (pend r) \<Longrightarrow> mapped d = M + cell_maps (cells r)"
  by (simp add: cell_maps_pend)

lemma start_xmit_done:
  fixes q d
  defines "r \<equiv> tx_rings d ! q"
  assumes "tx_kern_ok K" "q < length (tx_rings d)" "ring_ok r" "mapped d = M + cell_maps (cells r)"
    "sk_wf (MAX_SKB_FRAGS - lso_extra d) s"
  shows "xmit_busy q d (start_xmit K q s d) \<or> xmit_done M q s d (start_xmit K q s d)"
proof (cases "\<not> tx_slots_avail r \<or> (\<not> EnableTxNoClose d \<and> td_opts1 (TxDescArray r ! unat (cur_tx r mod num_tx_desc r)) AND DescOwn \<noteq> 0)")
  case True
  then show ?thesis by (auto simp: start_xmit_def Let_def xmit_busy_def xmit_err_stop_def r_def)
next
  case False
  obtain ok s1 opts d1 where t: "tso_csum K s (DescOwn, tx_vlan_tag s) d = (ok, s1, opts, d1)" by (metis surj_pair)
  have k: "keeps s s1" "dkeep d d1" "mapped d1 = mapped d"
    using tso_csum_spec [OF assms(2) t] wonly_dkeep by blast+
  have id: "sk_id s1 = sk_id s" and wf: "sk_wf (MAX_SKB_FRAGS - lso_extra d1) s1"
    using k(1) assms(6) dkeepD(6) [OF k(2)] by (simp_all add: keeps_def lso_extra_def)
  have m: "mapped d1 = M + cell_maps (cells r)" using k(3) assms(5) by simp
  have av: "MAX_SKB_FRAGS < ring_n r - used r" using False slots_avail_iff [OF assms(4)] by blast
  have st: "start_xmit K q s d = (if ok then (case xmit_frags K s1 opts (r, d1) of
      (None, rd) \<Rightarrow> xmit_err_dma_0 q s1 rd | (Some frags, rd) \<Rightarrow> xmit_head K q s1 opts frags rd)
    else xmit_err_dma_0 q s1 (r, d1))"
    using False t by (auto simp: start_xmit_def Let_def r_def)
  have u: "undone M r d rd" if "undone M r d1 rd" for rd
    using that k(2) dkeep_trans by (auto simp: undone_def)
  show ?thesis
  proof (cases ok)
    case False
    have "undone M r d (r, d1)"
      using assms(4) m k(2) by (auto simp: undone_def ring_ok_def)
    then show ?thesis using undone_dropped [OF _ assms(3) id] st False by (simp add: r_def)
  next
    case True
    show ?thesis
    proof (cases K opts rule: xmit_frags_cases [OF assms(4) av m wf, case_names failed filled])
      case (failed rd')
      with u undone_dropped [OF _ assms(3) id] st True show ?thesis by (simp add: r_def)
    next
      case (filled r' d' segs)
      have "dkeep d d'" using filled(3) k(2) dkeep_trans by blast
      from xmit_head_spec [OF assms(4) [unfolded r_def] assms(3) filled(2) [unfolded r_def] this filled(4)
          filled(5,6) [unfolded r_def] filled(7) wf k(1) filled(9,8)] st True filled(1)
      show ?thesis by simp
    qed
  qed
qed



section \<open>Completion\<close>

lemma fast_mod_eq: "fast_mod a c = (if c = 0 then a else a mod c)"
  by (auto simp: fast_mod_def word_mod_less_divisor mod_word_less)

lemma ring_ok_ptrs: "ring_ok (r\<lparr>NextHwDesCloPtr := a, BeginHwDesCloPtr := b\<rparr>) = ring_ok r"
  "cells (r\<lparr>NextHwDesCloPtr := a, BeginHwDesCloPtr := b\<rparr>) = cells r"
  "pend (r\<lparr>NextHwDesCloPtr := a, BeginHwDesCloPtr := b\<rparr>) = pend r" "used (r\<lparr>NextHwDesCloPtr := a, BeginHwDesCloPtr := b\<rparr>) = used r"
  by (simp_all add: ring_ok_def size_ok_def cells_def ent_def used_def pend_def)

text \<open>How many descriptors the interrupt may release: those filled, or those the chip reports closed.\<close>

definition tx_closed :: "'w tx_dev \<Rightarrow> tx_ring \<Rightarrow> nat" where
  "tx_closed d r = unat (fast_mod (ucast (tx_regs d (hw_clo_ptr_reg r)) - BeginHwDesCloPtr r) MAX_TX_NO_CLOSE_DESC_PTR_V2)"

definition tx_left :: "'w tx_dev \<Rightarrow> tx_ring \<Rightarrow> nat" where
  "tx_left d r = (if EnableTxNoClose d then min (used r) (tx_closed d r) else used r)"

definition tx_sync_ptr :: "'w tx_dev \<Rightarrow> tx_ring \<Rightarrow> tx_ring" where
  "tx_sync_ptr d r =
     (if EnableTxNoClose d
      then r\<lparr>NextHwDesCloPtr := ucast (tx_regs d (hw_clo_ptr_reg r)), BeginHwDesCloPtr := ucast (tx_regs d (hw_clo_ptr_reg r))\<rparr>
      else r)"

lemma advance_ring:
  assumes "ring_ok r" "rframe r r1" "cells r1 = overwrite 0 (replicate j (None, 0, a)) (cells r)" "j \<le> used r"
  shows "ring_ok (r1\<lparr>dirty_tx := dirty_tx r + of_nat j\<rparr>)" "pend (r1\<lparr>dirty_tx := dirty_tx r + of_nat j\<rparr>) = drop j (pend r)"
proof -
  let ?r = "r1\<lparr>dirty_tx := dirty_tx r + of_nat j\<rparr>"
  note f = rframeD [OF assms(2)]
  have u: "used r \<le> ring_n r" "j \<le> ring_n r1" using assms(1,4) f(1) by (simp_all add: ring_ok_def)
  have c: "cells ?r = drop j (cells r) @ replicate j (None, 0, a)"
    using cells_advance [OF f(4) u(2)] u assms(3,4) f(1,2) by (simp add: overwrite_def)
  have e: "cur_tx r - (dirty_tx r + of_nat j) = (cur_tx r - dirty_tx r) - of_nat j" by simp
  have le: "of_nat j \<le> cur_tx r - dirty_tx r"
    using assms(4) u f(1) by (simp add: word_le_nat_alt used_def unat_of_nat)
  have uj: "unat (of_nat j :: u32) = j"
    using u assms(1,4) by (simp add: unat_of_nat ring_ok_def size_ok_def)
  have "used ?r = unat (cur_tx r - (dirty_tx r + of_nat j))" using f(3) by (simp add: used_def)
  also have "\<dots> = used r - j" by (simp only: e unat_sub [OF le] uj used_def)
  finally have us: "used ?r = used r - j" .
  show p: "pend ?r = drop j (pend r)"
    using us u assms(4) by (simp add: pend_def c take_drop)
  show "ring_ok ?r"
    using assms(1,4) us u p f(1,4)
    by (auto simp: ring_ok_def pend_def c list_all_iff free_cell_def size_ok_def dest: in_set_dropD)
qed

lemma cell_maps_rotate: "cell_maps (drop j cs @ take j cs) = cell_maps cs"
  by (metis append_take_drop_id cell_maps_simps(4) add.commute)

lemma tx_interrupt_ring_eq:
  fixes q d
  defines "r \<equiv> tx_rings d ! q"
  assumes "tx_complete_loop (tx_left d r) (dirty_tx r) (tx_sync_ptr d r, d) = (dirty, r1, d1)"
  shows "tx_interrupt_ring q d =
    (if dirty_tx r1 \<noteq> dirty then
       (let r2 = r1\<lparr>dirty_tx := dirty\<rparr>;
            d2 = (if q_stopped d1 (tr_index r1) \<and> tx_slots_avail r2
                  then d1\<lparr>q_stopped := (q_stopped d1)(tr_index r1 := False)\<rparr> else d1);
            d3 = (if \<not> EnableTxNoClose d2 \<and> cur_tx r1 \<noteq> dirty
                  then d2\<lparr>tx_regs := (tx_regs d2)(TPPOLL_8125 := push_bit (tr_index r1) 1)\<rparr> else d2)
        in (dirty - dirty_tx r1, put_tx_ring q (r2, d3)))
     else (0, put_tx_ring q (r1, d1)))"
proof -
  have "unat (if closed < left then closed else left) = min (unat left) (unat closed)" for left closed :: u32
    by (simp add: word_less_nat_alt min_def)
  then show ?thesis
    using assms(2) by (cases "EnableTxNoClose d")
      (simp_all add: tx_interrupt_ring_def r_def tx_left_def tx_closed_def tx_sync_ptr_def used_def Let_def)
qed


lemma tx_interrupt_finish:
  fixes q d cnt d'
  defines "r \<equiv> tx_rings d ! q"
  assumes "tx_complete_loop (tx_left d r) (dirty_tx r) (tx_sync_ptr d r, d) = (dirty, r1, d1)" "tx_interrupt_ring q d = (cnt, d')"
  shows "cnt = dirty - dirty_tx r1" "tx_rings d' = (tx_rings d1)[q := r1\<lparr>dirty_tx := dirty\<rparr>]" "mapped d' = mapped d1"
    "freed d' = freed d1" "tx_packets d' = tx_packets d1" "tx_bytes d' = tx_bytes d1" "EnableTxNoClose d' = EnableTxNoClose d1"
    "RequireLSOPatch d' = RequireLSOPatch d1" "tx_dropped d' = tx_dropped d1"
    "q_stopped d' = (if dirty \<noteq> dirty_tx r1 \<and> tx_slots_avail (r1\<lparr>dirty_tx := dirty\<rparr>)
       then (q_stopped d1)(tr_index r1 := False) else q_stopped d1)"
    "EnableTxNoClose d1 \<Longrightarrow> tx_regs d' = tx_regs d1"
proof -
  note e = assms(3) [unfolded tx_interrupt_ring_eq [OF assms(2) [unfolded r_def]] Let_def put_tx_ring_def prod.case]
  have u: "\<not> q_stopped d1 (tr_index r1) \<Longrightarrow> (q_stopped d1)(tr_index r1 := False) = q_stopped d1" by (simp add: fun_upd_idem)
  show "cnt = dirty - dirty_tx r1" "tx_rings d' = (tx_rings d1)[q := r1\<lparr>dirty_tx := dirty\<rparr>]" "mapped d' = mapped d1"
    "freed d' = freed d1" "tx_packets d' = tx_packets d1" "tx_bytes d' = tx_bytes d1" "EnableTxNoClose d' = EnableTxNoClose d1"
    "RequireLSOPatch d' = RequireLSOPatch d1" "tx_dropped d' = tx_dropped d1"
    "EnableTxNoClose d1 \<Longrightarrow> tx_regs d' = tx_regs d1"
    using e by (auto split: if_splits)
  show "q_stopped d' = (if dirty \<noteq> dirty_tx r1 \<and> tx_slots_avail (r1\<lparr>dirty_tx := dirty\<rparr>)
       then (q_stopped d1)(tr_index r1 := False) else q_stopped d1)"
    using e u by (auto split: if_splits)
qed

lemma tx_interrupt_spec:
  fixes q d
  defines "r \<equiv> tx_rings d ! q"
  assumes "q < length (tx_rings d)" "ring_ok r" "mapped d = M + cell_maps (cells r)" "tx_interrupt_ring q d = (cnt, d')"
  obtains j r' where "j \<le> used r" "EnableTxNoClose d \<longrightarrow> j = tx_left d r" "cnt = of_nat j"
    "tx_rings d' = (tx_rings d)[q := r']" "ring_ok r'" "pend r' = drop j (pend r)" "mapped d' = M + cell_maps (cells r')"
    "freed d' = freed d @ cell_skbs (take j (pend r))" "tx_packets d' = tx_packets d + of_nat j"
    "tx_bytes d' = tx_bytes d + cell_bytes (take j (pend r))" "dirty_tx r' = dirty_tx r + of_nat j" "cur_tx r' = cur_tx r"
    "num_tx_desc r' = num_tx_desc r" "tr_index r' = tr_index r" "EnableTxNoClose d' = EnableTxNoClose d"
    "RequireLSOPatch d' = RequireLSOPatch d" "tx_dropped d' = tx_dropped d"
    "q_stopped d' = (if 0 < j \<and> tx_slots_avail r' then (q_stopped d)(tr_index r := False) else q_stopped d)"
    "hw_clo_ptr_reg r' = hw_clo_ptr_reg r" "sw_tail_ptr_reg r' = sw_tail_ptr_reg r"
    "EnableTxNoClose d \<longrightarrow> BeginHwDesCloPtr r' = ucast (tx_regs d (hw_clo_ptr_reg r)) \<and> tx_regs d' = tx_regs d"
proof -
  let ?s = "tx_sync_ptr d r"
  have s: "ring_ok ?s" "cells ?s = cells r" "used ?s = used r" "dirty_tx ?s = dirty_tx r"
    using assms(3) by (simp_all add: tx_sync_ptr_def ring_ok_ptrs)
  have z: "size_ok ?s" "tx_left d r \<le> used r" "used r \<le> ring_n ?s" "ring_n r = ring_n ?s"
    using s assms(3) by (auto simp: ring_ok_def tx_left_def tx_sync_ptr_def)
  obtain dirty r1 d1 where l: "tx_complete_loop (tx_left d r) (dirty_tx r) (?s, d) = (dirty, r1, d1)" by (metis surj_pair)
  have "list_all (\<lambda>c. fst (snd c) \<noteq> 0) (take (tx_left d r) (drop 0 (cells ?s)))"
    using s(1,3) z(2) set_take_subset_set_take [OF z(2), of "cells ?s"] by (auto simp: ring_ok_def list_all_iff)
  moreover have "0 + tx_left d r \<le> ring_n ?s" "mapped d = M + cell_maps (cells ?s)"
      "tx_complete_loop (tx_left d r) (dirty_tx ?s + of_nat 0) (?s, d) = (dirty, r1, d1)"
    using z s assms(4) l by simp_all
  ultimately obtain j where j: "j \<le> tx_left d r" "dirty = dirty_tx r + of_nat j" "EnableTxNoClose d \<longrightarrow> j = tx_left d r"
    "rframe ?s r1" "cells r1 = overwrite 0 (replicate j (None, 0, RTL8125_MAGIC_NUMBER)) (cells ?s)"
    "mapped d1 = M + cell_maps (cells r1)" "released d (cell_skbs (take j (cells r))) d1"
    "tx_packets d1 = tx_packets d + of_nat j" "tx_bytes d1 = tx_bytes d + cell_bytes (take j (cells r))"
    "tx_dropped d1 = tx_dropped d"
    using tx_complete_loop_spec [OF z(1), of 0 "tx_left d r" d M dirty r1 d1, unfolded add_0 drop_0 s(2,4)]
    unfolding add_0 drop_0 s(2,4) by blast
  let ?r = "r1\<lparr>dirty_tx := dirty\<rparr>"
  note f = rframeD [OF j(4)] and rl = releasedD [OF j(7)]
  have ju: "j \<le> used r" "j < 2 ^ 32" using j(1) z by (auto simp: size_ok_def)
  have a: "ring_ok ?r" "pend ?r = drop j (pend r)"
    using advance_ring [OF s(1) j(4,5)] ju s j(2) by (simp_all add: pend_def)
  have c: "cell_maps (cells ?r) = cell_maps (cells r1)"
    using cells_advance [OF f(4), of j] j(1,2) z f(1,2) s(4) by (simp only: cell_maps_rotate)
  have t: "take j (pend r) = take j (cells r)" using ju(1) by (simp add: pend_def min_def)
  have nz: "dirty_tx r1 \<noteq> dirty \<longleftrightarrow> 0 < j"
    using f(2) s(4) j(2) ju(2) by (cases "j = 0") (auto simp: word_of_nat_eq_0_iff dest: dvd_imp_le)
  have r0: "j = 0 \<Longrightarrow> ?r = r1" using nz by simp
  have r: "tr_index ?r = tr_index r" "num_tx_desc ?r = num_tx_desc r" "cur_tx ?r = cur_tx r"
    "hw_clo_ptr_reg ?r = hw_clo_ptr_reg r" "sw_tail_ptr_reg ?r = sw_tail_ptr_reg r"
    "EnableTxNoClose d \<longrightarrow> BeginHwDesCloPtr ?r = ucast (tx_regs d (hw_clo_ptr_reg r))"
    using f by (simp_all add: tx_sync_ptr_def)
  note d = tx_interrupt_finish [OF l [unfolded r_def] assms(5)]
  have c': "cnt = of_nat j" using d(1) f(2) s(4) j(2) by simp
  have qs: "q_stopped d' = (if 0 < j \<and> tx_slots_avail ?r then (q_stopped d)(tr_index r := False) else q_stopped d)"
    using d(10) nz rl r(1) by (simp add: eq_commute)
  show thesis
    by (rule that [of j ?r]) (use ju j a c t c' qs d(2-9,11) r rl in simp_all)
qed



section \<open>Clearing a ring\<close>

lemma cells_free_iff:
  assumes "size_ok r"
  shows "list_all free_cell (cells r) \<longleftrightarrow> (\<forall>e < ring_n r. ri_skb (tx_skb r ! e) = None \<and> ri_len (tx_skb r ! e) = 0)"
proof -
  have i: "ent r ` {..<ring_n r} = {..<ring_n r}"
    using ent_lt [OF assms] ent_inj [OF assms] by (intro endo_inj_surj) (auto intro!: inj_onI)
  have "(\<forall>e \<in> ent r ` {..<ring_n r}. P e) \<longleftrightarrow> (\<forall>k \<in> {..<ring_n r}. P (ent r k))" for P by simp
  then have "(\<forall>k < ring_n r. P (ent r k)) \<longleftrightarrow> (\<forall>e < ring_n r. P e)" for P
    unfolding i by (simp only: Ball_def lessThan_iff)
  then show ?thesis by (simp add: list_all_length cells_nth free_cell_def)
qed

lemma empty_ring_ok:
  assumes "size_ok r" "list_all free_cell (cells r)"
  shows "ring_ok (r\<lparr>cur_tx := 0, dirty_tx := 0\<rparr>)" "pend (r\<lparr>cur_tx := 0, dirty_tx := 0\<rparr>) = []"
proof -
  let ?r = "r\<lparr>cur_tx := 0, dirty_tx := 0\<rparr>"
  have "size_ok ?r" using assms(1) by (simp add: size_ok_def)
  moreover have "list_all free_cell (cells ?r)"
    using assms \<open>size_ok ?r\<close> by (simp add: cells_free_iff)
  ultimately show "ring_ok ?r" "pend ?r = []" by (simp_all add: ring_ok_def pend_def used_def)
qed

lemma owned_pend:
  assumes "ring_ok r"
  shows "cell_owned (cells r) = cell_skbs (pend r)"
proof -
  let ?P = "\<lambda>c :: cell. fst (snd c) \<noteq> 0"
  have "filter ?P (cells r) = filter ?P (take (used r) (cells r)) @ filter ?P (drop (used r) (cells r))"
    by (metis append_take_drop_id filter_append)
  also have "filter ?P (take (used r) (cells r)) = pend r"
    using assms by (simp add: ring_ok_def pend_def filter_id_conv list_all_iff)
  also have "filter ?P (drop (used r) (cells r)) = []"
    using assms by (simp add: ring_ok_def filter_empty_conv list_all_iff free_cell_def)
  finally show ?thesis by (simp add: cell_owned_def)
qed

lemma tx_clear_ring_spec:
  assumes "i < length (tx_rings d)" "ring_ok (tx_rings d ! i)" "mapped d = M + cell_maps (cells (tx_rings d ! i))"
  obtains r' where "tx_rings (tx_clear_ring i d) = (tx_rings d)[i := r']" "ring_ok r'" "pend r' = []"
    "mapped (tx_clear_ring i d) = M + cell_maps (pend r')" "freed (tx_clear_ring i d) = freed d @ cell_skbs (pend (tx_rings d ! i))"
    "RequireLSOPatch (tx_clear_ring i d) = RequireLSOPatch d" "EnableTxNoClose (tx_clear_ring i d) = EnableTxNoClose d"
    "tr_index r' = tr_index (tx_rings d ! i)"
proof -
  let ?r = "tx_rings d ! i"
  obtain r1 d1 where c: "tx_clear_range (dirty_tx ?r) (ring_n ?r) (?r, d) = (r1, d1)"
    by (cases "tx_clear_range (dirty_tx ?r) (ring_n ?r) (?r, d)")
  have z: "size_ok ?r" using assms(2) by (simp add: ring_ok_def)
  have "rframe ?r r1 \<and> cells r1 = overwrite 0 (map clear_cell (cells ?r)) (cells ?r)
      \<and> mapped d1 = M + cell_maps (cells r1) \<and> released d (cell_owned (cells ?r)) d1"
    using tx_clear_range_spec [OF z, of 0 "ring_n ?r" d M r1 d1] c assms(3) by simp
  then have s: "rframe ?r r1" "cells r1 = map clear_cell (cells ?r)" "mapped d1 = M + cell_maps (cells r1)"
      "released d (cell_skbs (pend ?r)) d1"
    by (simp_all add: overwrite_def owned_pend [OF assms(2)])
  have "set (cells ?r) = set (take (used ?r) (cells ?r)) \<union> set (drop (used ?r) (cells ?r))"
    by (metis append_take_drop_id set_append)
  then have "free_cell (clear_cell c)" if "c \<in> set (cells ?r)" for c
    using that assms(2) by (auto simp: ring_ok_def list_all_iff clear_cell_def free_cell_def)
  then have f: "list_all free_cell (cells r1)" by (simp add: s(2) list_all_iff)
  note rf = rframeD [OF s(1)] and rl = releasedD [OF s(4)]
  note e = empty_ring_ok [OF rf(4) f]
  have t: "tx_clear_ring i d = d1\<lparr>tx_rings := (tx_rings d1)[i := r1\<lparr>cur_tx := 0, dirty_tx := 0\<rparr>]\<rparr>"
    using c by (simp add: tx_clear_ring_def Let_def)
  show thesis
    by (rule that [of "r1\<lparr>cur_tx := 0, dirty_tx := 0\<rparr>"]) (use e t rl rf s(3) cell_maps_free [OF f] in simp_all)
qed


section \<open>The whole device over time\<close>

text \<open>
  Calls into the transmit path, in any order: a packet from the stack for a queue, a completion
  interrupt of a queue, and the clearing of all rings. The second component of the state lists the
  socket buffers the driver took over (return value \<open>NETDEV_TX_OK\<close>).
\<close>

datatype tx_call = TxXmit nat skb | TxIrq nat | TxClear

definition tx_call_step :: "'w tx_kern \<Rightarrow> tx_call \<Rightarrow> 'w tx_dev \<times> nat list \<Rightarrow> 'w tx_dev \<times> nat list" where
  "tx_call_step K c da = (case da of (d, acc) \<Rightarrow>
     (case c of
        TxXmit q s \<Rightarrow> (case start_xmit K q s d of (ret, d') \<Rightarrow> (d', if ret = NETDEV_TX_OK then acc @ [sk_id s] else acc))
      | TxIrq q \<Rightarrow> (snd (tx_interrupt_ring q d), acc)
      | TxClear \<Rightarrow> (tx_clear d, acc)))"

definition tx_run :: "'w tx_kern \<Rightarrow> tx_call list \<Rightarrow> 'w tx_dev \<times> nat list \<Rightarrow> 'w tx_dev \<times> nat list" where
  "tx_run K cs = fold (tx_call_step K) cs"

definition tx_call_ok :: "nat \<Rightarrow> nat \<Rightarrow> tx_call \<Rightarrow> bool" where
  "tx_call_ok n x c = (case c of TxXmit q s \<Rightarrow> q < n \<and> sk_wf (MAX_SKB_FRAGS - x) s | TxIrq q \<Rightarrow> q < n | TxClear \<Rightarrow> True)"

definition all_maps :: "tx_ring list \<Rightarrow> (u64 \<times> u32) multiset" where
  "all_maps rs = sum_list (map (\<lambda>r. cell_maps (pend r)) rs)"

definition all_skbs :: "tx_ring list \<Rightarrow> nat multiset" where
  "all_skbs rs = sum_list (map (\<lambda>r. mset (cell_skbs (pend r))) rs)"

definition tx_inv :: "nat \<Rightarrow> nat \<Rightarrow> 'w tx_dev \<times> nat list \<Rightarrow> bool" where
  "tx_inv n x da \<longleftrightarrow> (case da of (d, acc) \<Rightarrow> length (tx_rings d) = n \<and> lso_extra d = x
     \<and> list_all ring_ok (tx_rings d) \<and> mapped d = all_maps (tx_rings d)
     \<and> mset acc = mset (freed d) + all_skbs (tx_rings d))"

lemma tx_inv_update:
  assumes "tx_inv n x (d, acc)" "q < n" "tx_rings d' = (tx_rings d)[q := r']" "ring_ok r'"
    "mapped d' = sum_others q (\<lambda>r. cell_maps (pend r)) (tx_rings d) + cell_maps (pend r')"
    "mset (freed d') + mset (cell_skbs (pend r')) + mset acc
       = mset (freed d) + mset (cell_skbs (pend (tx_rings d ! q))) + mset acc'"
    "lso_extra d' = lso_extra d"
  shows "tx_inv n x (d', acc')"
proof -
  let ?o = "sum_others q (\<lambda>r. mset (cell_skbs (pend r))) (tx_rings d)"
  have q: "q < length (tx_rings d)" using assms(1,2) by (simp add: tx_inv_def)
  have "all_skbs (tx_rings d) = ?o + mset (cell_skbs (pend (tx_rings d ! q)))"
    unfolding all_skbs_def by (rule sum_others [OF q])
  moreover have "all_skbs (tx_rings d') = ?o + mset (cell_skbs (pend r'))"
    unfolding all_skbs_def assms(3) by (rule sum_list_update_others [OF q])
  moreover have "mset acc = mset (freed d) + all_skbs (tx_rings d)" using assms(1) by (simp add: tx_inv_def)
  ultimately have "mset acc' = mset (freed d') + all_skbs (tx_rings d')"
    using assms(6) by (simp add: ac_simps)
  moreover have "mapped d' = all_maps (tx_rings d')"
    unfolding all_maps_def assms(3) assms(5) by (simp add: sum_list_update_others [OF q])
  moreover have "list_all ring_ok (tx_rings d')"
    using assms(1,3,4) set_update_subset_insert [of "tx_rings d" q r'] by (auto simp: tx_inv_def list_all_iff)
  ultimately show ?thesis using assms(1,3,7) by (simp add: tx_inv_def)
qed

lemma tx_inv_ring:
  assumes "tx_inv n x (d, acc)" "q < n"
  shows "q < length (tx_rings d)" "ring_ok (tx_rings d ! q)"
    "mapped d = sum_others q (\<lambda>r. cell_maps (pend r)) (tx_rings d) + cell_maps (cells (tx_rings d ! q))"
proof -
  show q: "q < length (tx_rings d)" and r: "ring_ok (tx_rings d ! q)"
    using assms by (simp_all add: tx_inv_def list_all_length)
  show "mapped d = sum_others q (\<lambda>r. cell_maps (pend r)) (tx_rings d) + cell_maps (cells (tx_rings d ! q))"
    using assms(1) sum_others [OF q, of "\<lambda>r. cell_maps (pend r)"] by (simp add: tx_inv_def all_maps_def cell_maps_pend [OF r])
qed

lemma frag_skbs: "list_all frag_cell segs \<Longrightarrow> cell_skbs segs = []"
  by (induction segs) (auto simp: frag_cell_def)

lemma tx_inv_xmit:
  assumes "tx_kern_ok K" "tx_inv n x (d, acc)" "q < n" "sk_wf (MAX_SKB_FRAGS - x) s"
  shows "tx_inv n x (tx_call_step K (TxXmit q s) (d, acc))"
proof -
  obtain ret d' where x: "start_xmit K q s d = (ret, d')" by (cases "start_xmit K q s d")
  note i = tx_inv_ring [OF assms(2,3)]
  have wf: "sk_wf (MAX_SKB_FRAGS - lso_extra d) s" using assms(2,4) by (simp add: tx_inv_def)
  from start_xmit_done [OF assms(1) i wf] consider "xmit_busy q d (ret, d')" | r' where "ring_ok r'"
      "mapped d' = sum_others q (\<lambda>r. cell_maps (pend r)) (tx_rings d) + cell_maps (cells r')" "lso_extra d' = lso_extra d"
      "xmit_sent q s d r' (ret, d') \<or> xmit_dropped q s d r' (ret, d')"
    unfolding x xmit_done_def snd_conv by (auto simp: lso_extra_def)
  then show ?thesis
  proof cases
    case 1
    then show ?thesis using assms(2) x by (auto simp: tx_call_step_def tx_inv_def xmit_busy_def lso_extra_def)
  next
    case 2
    then have "ret = NETDEV_TX_OK" "tx_rings d' = (tx_rings d)[q := r']"
        "mset (freed d') + mset (cell_skbs (pend r')) = add_mset (sk_id s) (mset (freed d) + mset (cell_skbs (pend (tx_rings d ! q))))"
      by (auto simp: xmit_sent_def xmit_dropped_def frag_skbs)
    then have "tx_inv n x (d', acc @ [sk_id s])"
      using 2(1-3) by (intro tx_inv_update [OF assms(2,3)]) (simp_all add: cell_maps_pend)
    with x \<open>ret = NETDEV_TX_OK\<close> show ?thesis by (simp add: tx_call_step_def)
  qed
qed

lemma tx_inv_irq:
  assumes "tx_inv n x (d, acc)" "q < n"
  shows "tx_inv n x (tx_call_step K (TxIrq q) (d, acc))"
proof -
  obtain cnt d' where x: "tx_interrupt_ring q d = (cnt, d')" by (cases "tx_interrupt_ring q d")
  have sk: "mset (cell_skbs (take j cs)) + mset (cell_skbs (drop j cs)) = mset (cell_skbs cs)" for j cs
    by (metis append_take_drop_id cell_skbs_simps(4) mset_append)
  have "tx_inv n x (d', acc)"
    by (rule tx_interrupt_spec [OF tx_inv_ring [OF assms] x], erule tx_inv_update [OF assms])
      (simp_all add: cell_maps_pend lso_extra_def sk)
  with x show ?thesis by (simp add: tx_call_step_def)
qed

lemma tx_inv_clear_ring:
  assumes "tx_inv n x (d, acc)" "i < n"
  shows "tx_inv n x (tx_clear_ring i d, acc)"
  by (rule tx_clear_ring_spec [OF tx_inv_ring [OF assms]], erule tx_inv_update [OF assms])
    (simp_all add: lso_extra_def)

interpretation tx_clears: call_sequence tx_clear_ring "\<lambda>i. i < n" "\<lambda>d. tx_inv n x (d, acc)" for n x acc
  by unfold_locales (rule tx_inv_clear_ring)

interpretation tx_calls: call_sequence "tx_call_step K" "tx_call_ok n x" "\<lambda>da. tx_kern_ok K \<and> tx_inv n x da" for K n x
proof unfold_locales
  fix da :: "'a tx_dev \<times> nat list" and c
  assume i: "tx_kern_ok K \<and> tx_inv n x da" and c: "tx_call_ok n x c"
  obtain d acc where da: "da = (d, acc)" by (cases da)
  have "tx_inv n x (tx_clear d, acc)"
    unfolding tx_clear_def by (rule tx_clears.run_inv) (use i in \<open>auto simp: da tx_inv_def list_all_iff\<close>)
  then show "tx_kern_ok K \<and> tx_inv n x (tx_call_step K c da)"
    using i c tx_inv_xmit [of K n x d acc] tx_inv_irq [of n x d acc]
    by (cases c) (auto simp: da tx_call_ok_def, simp add: tx_call_step_def)
qed


definition tx_room :: "tx_ring \<Rightarrow> bool" where
  "tx_room r \<longleftrightarrow> 0 < ring_n r \<and> ring_n r \<le> MAX_NUM_TX_DESC \<and> ring_n r dvd 2 ^ 32 \<and> ring_n r \<le> length (tx_skb r)"

definition tx_sizes :: "tx_ring \<Rightarrow> bool" where
  "tx_sizes r \<longleftrightarrow> MAX_SKB_FRAGS < ring_n r \<and> tx_room r"

lemma tx_sizes_room: "list_all tx_sizes rs \<Longrightarrow> list_all tx_room rs"
  by (simp add: list_all_iff tx_sizes_def)

lemma init_tx_ring_ok:
  assumes "tx_room r"
  shows "ring_ok (init_tx_ring i r)" "pend (init_tx_ring i r) = []" "tr_index (init_tx_ring i r) = i" "num_tx_desc (init_tx_ring i r) = num_tx_desc r"
proof -
  let ?r = "init_tx_ring i r"
  show n: "num_tx_desc ?r = num_tx_desc r" "tr_index ?r = i"
    by (simp_all add: init_tx_ring_def tx_desc_init_def init_tx_indexes_def Let_def)
  have z: "size_ok ?r" "used ?r = 0"
    using assms by (simp_all add: tx_room_def size_ok_def used_def init_tx_ring_def tx_desc_init_def init_tx_indexes_def Let_def
      split: nat.splits)
  have t: "tx_skb ?r = map (\<lambda>_. \<lparr>ri_skb = None, ri_len = 0\<rparr>) (tx_skb r)"
    by (simp add: init_tx_ring_def tx_desc_init_def init_tx_indexes_def Let_def)
  have "list_all free_cell (cells ?r)"
    unfolding cells_free_iff [OF z(1)] using assms t n(1) by (simp add: tx_room_def)
  then show "ring_ok ?r" "pend ?r = []" using z by (simp_all add: ring_ok_def pend_def)
qed

lemma init_tx_rings:
  assumes "list_all tx_room (tx_rings d)" "i < length (tx_rings d)"
  shows "ring_ok (tx_rings (init_tx d) ! i)" "pend (tx_rings (init_tx d) ! i) = []" "tr_index (tx_rings (init_tx d) ! i) = i"
    "num_tx_desc (tx_rings (init_tx d) ! i) = num_tx_desc (tx_rings d ! i)"
  using assms init_tx_ring_ok by (simp_all add: init_tx_def list_all_length)

lemma tx_inv_init:
  assumes "list_all tx_room (tx_rings d)" "mset acc = mset (freed d)" "mapped d = {#}"
  shows "tx_inv (length (tx_rings d)) (lso_extra d) (init_tx d, acc)"
proof -
  have "\<forall>r \<in> set (tx_rings (init_tx d)). ring_ok r \<and> pend r = []"
    using assms(1) init_tx_ring_ok by (auto simp: init_tx_def list_all_length)
  then have "list_all ring_ok (tx_rings (init_tx d))" "all_maps (tx_rings (init_tx d)) = {#}" "all_skbs (tx_rings (init_tx d)) = {#}"
    by (auto simp: list_all_iff all_maps_def all_skbs_def cong: map_cong)
  then show ?thesis using assms by (simp add: tx_inv_def init_tx_def lso_extra_def)
qed


section \<open>The queue is woken\<close>

lemma slots_avail_pend:
  assumes "ring_ok r"
  shows "tx_slots_avail r \<longleftrightarrow> MAX_SKB_FRAGS < ring_n r - length (pend r)"
  using assms slots_avail_iff [OF assms] by (simp add: pend_def ring_ok_def)

definition tx_wake_inv :: "nat \<Rightarrow> nat \<Rightarrow> 'w tx_dev \<times> nat list \<Rightarrow> bool" where
  "tx_wake_inv n x da \<longleftrightarrow> tx_inv n x da \<and> (case da of (d, acc) \<Rightarrow> EnableTxNoClose d
     \<and> (\<forall>q < n. tr_index (tx_rings d ! q) = q \<and> MAX_SKB_FRAGS < ring_n (tx_rings d ! q)
          \<and> (q_stopped d q \<longrightarrow> \<not> tx_slots_avail (tx_rings d ! q))))"

lemma tx_wake_xmit:
  assumes "tx_kern_ok K" "tx_wake_inv n x (d, acc)" "q < n" "sk_wf (MAX_SKB_FRAGS - x) s"
  shows "tx_wake_inv n x (tx_call_step K (TxXmit q s) (d, acc))"
proof -
  obtain ret d' where x: "start_xmit K q s d = (ret, d')" by (cases "start_xmit K q s d")
  have i: "tx_inv n x (d, acc)" and w: "EnableTxNoClose d" "\<And>q. q < n \<Longrightarrow> tr_index (tx_rings d ! q) = q \<and>
      MAX_SKB_FRAGS < ring_n (tx_rings d ! q) \<and> (q_stopped d q \<longrightarrow> \<not> tx_slots_avail (tx_rings d ! q))"
    using assms(2) by (simp_all add: tx_wake_inv_def)
  note ir = tx_inv_ring [OF i assms(3)]
  have wf: "sk_wf (MAX_SKB_FRAGS - lso_extra d) s" and len: "length (tx_rings d) = n" using i assms(4) by (simp_all add: tx_inv_def)
  from start_xmit_done [OF assms(1) ir wf] consider "xmit_busy q d (ret, d')" | r' where "ring_ok r'" "same_ring (tx_rings d ! q) r'"
      "EnableTxNoClose d' = EnableTxNoClose d" "xmit_sent q s d r' (ret, d')"
    | r' where "ring_ok r'" "same_ring (tx_rings d ! q) r'" "EnableTxNoClose d' = EnableTxNoClose d" "xmit_dropped q s d r' (ret, d')"
    unfolding x xmit_done_def snd_conv by blast
  then have "EnableTxNoClose d' \<and> (\<forall>q < n. tr_index (tx_rings d' ! q) = q \<and> MAX_SKB_FRAGS < ring_n (tx_rings d' ! q)
          \<and> (q_stopped d' q \<longrightarrow> \<not> tx_slots_avail (tx_rings d' ! q)))"
  proof cases
    case 1
    then show ?thesis using w by (auto simp: xmit_busy_def)
  next
    case 2
    have "tx_slots_avail r' \<Longrightarrow> tx_slots_avail (tx_rings d ! q)"
      using 2(2,4) slots_avail_pend [OF 2(1)] slots_avail_pend [OF ir(2)] by (auto simp: same_ring_def xmit_sent_def)
    with 2 w assms(3) len show ?thesis
      by (auto simp: xmit_sent_def same_ring_def nth_list_update)
  next
    case 3
    have "tx_slots_avail r' \<longleftrightarrow> tx_slots_avail (tx_rings d ! q)"
      using 3(2,4) slots_avail_pend [OF 3(1)] slots_avail_pend [OF ir(2)] by (auto simp: same_ring_def xmit_dropped_def)
    with 3 w assms(3) len show ?thesis
      by (auto simp: xmit_dropped_def same_ring_def nth_list_update)
  qed
  with tx_inv_xmit [OF assms(1) i assms(3,4)] x show ?thesis
    by (simp add: tx_wake_inv_def tx_call_step_def)
qed

lemma tx_wake_irq:
  assumes "tx_wake_inv n x (d, acc)" "q < n"
  shows "tx_wake_inv n x (tx_call_step K (TxIrq q) (d, acc))"
proof -
  obtain cnt d' where x: "tx_interrupt_ring q d = (cnt, d')" by (cases "tx_interrupt_ring q d")
  have i: "tx_inv n x (d, acc)" and w: "EnableTxNoClose d" "\<And>q. q < n \<Longrightarrow> tr_index (tx_rings d ! q) = q \<and>
      MAX_SKB_FRAGS < ring_n (tx_rings d ! q) \<and> (q_stopped d q \<longrightarrow> \<not> tx_slots_avail (tx_rings d ! q))"
    and len: "length (tx_rings d) = n"
    using assms(1) by (simp_all add: tx_wake_inv_def tx_inv_def)
  note ir = tx_inv_ring [OF i assms(2)]
  obtain j r' where r: "tx_rings d' = (tx_rings d)[q := r']" "ring_ok r'" "pend r' = drop j (pend (tx_rings d ! q))"
    "num_tx_desc r' = num_tx_desc (tx_rings d ! q)" "tr_index r' = tr_index (tx_rings d ! q)" "EnableTxNoClose d' = EnableTxNoClose d"
    "q_stopped d' = (if 0 < j \<and> tx_slots_avail r' then (q_stopped d)(tr_index (tx_rings d ! q) := False) else q_stopped d)"
    by (rule tx_interrupt_spec [OF ir x]) (blast intro: that)
  have "j = 0 \<Longrightarrow> tx_slots_avail r' \<longleftrightarrow> tx_slots_avail (tx_rings d ! q)"
    using r(3,4) slots_avail_pend [OF r(2)] slots_avail_pend [OF ir(2)] by auto
  then have "EnableTxNoClose d' \<and> (\<forall>q < n. tr_index (tx_rings d' ! q) = q \<and> MAX_SKB_FRAGS < ring_n (tx_rings d' ! q)
          \<and> (q_stopped d' q \<longrightarrow> \<not> tx_slots_avail (tx_rings d' ! q)))"
    using r w assms(2) len by (auto simp: nth_list_update)
  with tx_inv_irq [OF i assms(2), of K] x show ?thesis
    by (simp add: tx_wake_inv_def tx_call_step_def)
qed


interpretation tx_traffic: call_sequence "tx_call_step K" "\<lambda>c. tx_call_ok n x c \<and> c \<noteq> TxClear"
  "\<lambda>da. tx_kern_ok K \<and> tx_wake_inv n x da" for K n x
proof unfold_locales
  fix da :: "'a tx_dev \<times> nat list" and c
  assume i: "tx_kern_ok K \<and> tx_wake_inv n x da" and c: "tx_call_ok n x c \<and> c \<noteq> TxClear"
  obtain d acc where "da = (d, acc)" by (cases da)
  then show "tx_kern_ok K \<and> tx_wake_inv n x (tx_call_step K c da)"
    using i c tx_wake_xmit [of K n x d acc] tx_wake_irq [of n x d acc] by (cases c) (auto simp: tx_call_ok_def)
qed

lemma tx_wake_init:
  assumes "list_all tx_sizes (tx_rings d)" "freed d = []" "mapped d = {#}" "EnableTxNoClose d" "\<forall>q. \<not> q_stopped d q"
  shows "tx_wake_inv (length (tx_rings d)) (lso_extra d) (init_tx d, [])"
  using tx_inv_init [OF tx_sizes_room [OF assms(1)] _ assms(3), of "[]"] init_tx_rings [OF tx_sizes_room [OF assms(1)]] assms(1,2,4,5)
  by (simp add: tx_wake_inv_def list_all_length tx_sizes_def) (simp add: init_tx_def)



section \<open>Defects\<close>

text \<open>
  Padding that fails releases the socket buffer twice: \<open>skb_padto\<close> frees it on error, and
  \<open>rtl8125_start_xmit\<close> frees it again at \<open>err_dma_0\<close>. This happens to every packet without a checksum
  request that the driver wants to pad and the kernel cannot pad.
\<close>

theorem pad_failure_double_free:
  assumes "tx_slots_avail (tx_rings d ! q)" "EnableTxNoClose d" "sk_gso_size s = 0" "\<not> sk_partial s" "0 < get_patch_pad_len s"
    "tk_padto K s (sk_len s + get_patch_pad_len s) (tx_w d) = (None, w)" "start_xmit K q s d = (ret, d')"
  shows "ret = NETDEV_TX_OK \<and> freed d' = freed d @ [sk_id s, sk_id s]"
proof -
  have "tso_csum K s (DescOwn, tx_vlan_tag s) d = (False, s, (DescOwn, tx_vlan_tag s), kfree_skb (sk_id s) (d\<lparr>tx_w := w\<rparr>))"
    using assms(3-6) by (simp add: tso_csum_def csum_patch_pad_def skb_pad_with_len_def Let_def)
  then show ?thesis
    using assms(1,2,7) by (auto simp: start_xmit_def Let_def xmit_err_dma_0_def kfree_skb_def put_tx_ring_def)
qed

text \<open>
  The segmentation workaround uses one descriptor more than the room that was checked for.
\<close>

definition maps_all :: "'w tx_kern \<Rightarrow> bool" where
  "maps_all K \<longleftrightarrow> (\<forall>a l w. \<exists>m w'. tk_map K a l w = (Some m, w'))"

definition lso_frame :: "tx_ring \<times> 'w tx_dev \<Rightarrow> tx_ring \<times> 'w tx_dev \<Rightarrow> bool" where
  "lso_frame rd rd' \<longleftrightarrow> cur_tx (fst rd') = cur_tx (fst rd) \<and> dirty_tx (fst rd') = dirty_tx (fst rd)
     \<and> num_tx_desc (fst rd') = num_tx_desc (fst rd) \<and> RequireLSOPatch (snd rd') = RequireLSOPatch (snd rd)
     \<and> tx_rings (snd rd') = tx_rings (snd rd)"

lemma lso_frame_trans: "lso_frame a b \<Longrightarrow> lso_frame b c \<Longrightarrow> lso_frame a c"
  by (simp add: lso_frame_def)

lemma xmit_txd_maps:
  assumes "maps_all K"
  shows "\<exists>rd'. xmit_txd K opts lst addr len entry rd = (True, rd') \<and> lso_frame rd rd'"
proof -
  obtain m w' where m: "tk_map K addr len (tx_w (snd rd)) = (Some m, w')" using assms unfolding maps_all_def by blast
  show ?thesis
    by (cases rd) (use m in \<open>simp add: xmit_txd_def dma_map_single_def Let_def lso_frame_def put_txd_upd\<close>)
qed

lemma xmit_loop_lso:
  assumes "maps_all K" "fs \<noteq> []" "cf + length fs = nr" "RequireLSOPatch (snd rd)" "fst opts AND (GiantSendv4 OR GiantSendv6) \<noteq> 0"
    "cnt + sum_list (map (\<lambda>f. unat (snd f)) (butlast fs)) < ETH_FRAME_LEN" "1 < snd (last fs)"
  shows "\<exists>rd'. xmit_loop K opts nr fs cf entry cnt rd = (True, cf + length fs + 1, rd') \<and> lso_frame rd rd'"
  using assms(2-)
proof (induction fs arbitrary: cf entry cnt rd)
  case (Cons f fs)
  obtain addr len where f: "f = (addr, len)" by (cases f)
  let ?e = "(entry + 1) mod num_tx_desc (fst rd)"
  show ?case
  proof (cases "fs = []")
    case True
    obtain rd1 where r1: "xmit_txd K opts False addr (len - 1) ?e rd = (True, rd1)" "lso_frame rd rd1"
      using xmit_txd_maps [OF assms(1)] by blast
    obtain rd2 where r2: "xmit_txd K opts True (addr + ucast (len - 1)) 1 ((?e + 1) mod num_tx_desc (fst rd1)) rd1 = (True, rd2)"
        "lso_frame rd1 rd2"
      using xmit_txd_maps [OF assms(1)] by blast
    have "cf = nr - 1" using Cons.prems(2) True by auto
    then have "xmit_loop K opts nr (f # fs) cf entry cnt rd = (True, cf + 2, rd2)"
      using Cons.prems r1(1) r2(1) True f by (simp add: Let_def)
    with lso_frame_trans [OF r1(2) r2(2)] True show ?thesis by auto
  next
    case False
    obtain rd1 where r1: "xmit_txd K opts False addr len ?e rd = (True, rd1)" "lso_frame rd rd1"
      using xmit_txd_maps [OF assms(1)] by blast
    have "cf \<noteq> nr - 1" using Cons.prems(2) False by (cases fs) auto
    then have e: "xmit_loop K opts nr (f # fs) cf entry cnt rd = xmit_loop K opts nr fs (cf + 1) ?e (cnt + unat len) rd1"
      using r1(1) f by (simp add: Let_def)
    obtain rd2 where "xmit_loop K opts nr fs (cf + 1) ?e (cnt + unat len) rd1 = (True, cf + 1 + length fs + 1, rd2)" and r2: "lso_frame rd1 rd2"
      using Cons.IH [OF False, of "cf + 1" rd1 "cnt + unat len" ?e] Cons.prems False f r1(2) by (auto simp: lso_frame_def)
    with e lso_frame_trans [OF r1(2) r2] show ?thesis by auto
  qed
qed simp


text \<open>
  On the chips with the segmentation workaround, an IPv4 segmentation request whose last fragment is
  cut in two takes two descriptors more than it has fragments. A packet with the stack's maximum of
  17 fragments therefore needs 19, but the driver goes ahead as soon as 18 are free: with exactly 18
  free the counters run past the ring, and the oldest pending descriptor is overwritten.
\<close>

theorem lso_patch_overruns:
  assumes "maps_all K" "q < length (tx_rings d)" "ring_ok (tx_rings d ! q)" "ring_n (tx_rings d ! q) - used (tx_rings d ! q) = 18"
    "RequireLSOPatch d" "EnableTxNoClose d" "f_tso d" "sk_gso_size s \<noteq> 0" "sk_protocol s = ETH_P_IP"
    "0 \<le> sk_transport_offset s" "sk_transport_offset s \<le> 0x70" "length (sk_frags s) = 17"
    "sum_list (map (\<lambda>f. unat (snd f)) (butlast (sk_frags s))) < ETH_FRAME_LEN" "1 < snd (last (sk_frags s))"
    "start_xmit K q s d = (ret, d')"
  shows "ret = NETDEV_TX_OK \<and> used (tx_rings d' ! q) = ring_n (tx_rings d ! q) + 1 \<and> \<not> ring_ok (tx_rings d' ! q)"
proof -
  let ?r = "tx_rings d ! q"
  have av: "tx_slots_avail ?r" using slots_avail_iff [OF assms(3)] assms(4) by simp
  have off: "word_of_int (sk_transport_offset s) \<le> (0x70 :: u32)"
    using assms(10,11) by (simp add: word_le_def uint_word_of_int)
  define o1 where "o1 = ((DescOwn OR GiantSendv4) OR push_bit 18 (word_of_int (sk_transport_offset s)) :: u32)"
  define o2 where "o2 = tx_vlan_tag s OR push_bit 18 (min (sk_gso_size s) MSS_MAX)"
  have t: "tso_csum K s (DescOwn, tx_vlan_tag s) d = (True, s, (o1, o2), d)"
    using assms(7-9) off by (simp add: tso_csum_def tso_segment_def giant_opts_def o1_def o2_def Let_def)
  have "bit o1 26" by (simp add: o1_def bit_simps)
  then have "bit (o1 AND (GiantSendv4 OR GiantSendv6)) 26" by (simp add: bit_simps)
  then have g: "o1 AND (GiantSendv4 OR GiantSendv6) \<noteq> 0" by (metis bit_0_eq bot_apply bot_bool_def)
  have "sk_frags s \<noteq> []" using assms(12) by auto
  then obtain r1 d1 where l: "xmit_loop K (o1, o2) (length (sk_frags s)) (sk_frags s) 0 (cur_tx ?r) 0 (?r, d) = (True, 18, r1, d1)"
      and f: "lso_frame (?r, d) (r1, d1)"
    using xmit_loop_lso [OF assms(1), of "sk_frags s" 0 _ "(?r, d)" "(o1, o2)" 0] assms(5,12-14) g by fastforce
  let ?len = "sk_len s - sk_data_len s"
  obtain m w where m: "tk_map K (sk_data s) ?len (tx_w d1) = (Some m, w)" using assms(1) unfolding maps_all_def by blast
  obtain r2 d2 where x: "start_xmit K q s d = (NETDEV_TX_OK, xmit_publish q 18 (r2, d2))"
      and r2: "cur_tx r2 = cur_tx r1" "dirty_tx r2 = dirty_tx r1" "num_tx_desc r2 = num_tx_desc r1" "tx_rings d2 = tx_rings d1"
    using av assms(6) l m
    by (simp add: start_xmit_def Let_def t xmit_frags_def xmit_head_def dma_map_single_def put_txd_upd set_skb_upd)
  let ?r' = "r2\<lparr>cur_tx := cur_tx r2 + of_nat 18 + 1\<rparr>"
  have r': "tx_rings d' ! q = ?r'" and ret: "ret = NETDEV_TX_OK"
    using x assms(2,15) xmit_publish_spec(1) [of q 18 r2 d2] r2(4) f by (auto simp: lso_frame_def)
  have c: "used ?r' = unat ((cur_tx ?r - dirty_tx ?r) + of_nat 19)"
    using r2 f by (simp add: used_def lso_frame_def algebra_simps)
  have n: "used ?r < 2000" "ring_n ?r = used ?r + 18" using assms(3,4) by (auto simp: ring_ok_def size_ok_def)
  have "used ?r' = used ?r + 19"
    unfolding c unat_add_of_nat using n(1) by (simp add: used_def)
  with n(2) ret r' r2(3) f show ?thesis by (simp add: ring_ok_def lso_frame_def)
qed


text \<open>
  A ring size that does not divide \<open>2^32\<close> breaks the index arithmetic when the counters wrap: two
  counters that are less than a ring apart have the same index. \<open>rtl8125_set_ringparam\<close> accepts every
  size between 256 and 1024.
\<close>

lemma wrap_aliases:
  assumes "num_tx_desc r = 1000" "dirty_tx r = 0xFFFFFFFF"
  shows "ent r 0 = ent r 296"
  using assms by (simp add: ent_def)

section \<open>Examples\<close>

definition demo_kern :: "unit tx_kern" where
  "demo_kern = \<lparr>tk_map = (\<lambda>a l w. (Some a, w)), tk_padto = (\<lambda>s n w. (Some (s\<lparr>sk_frags := [], sk_data_len := 0\<rparr>), w)),
     tk_cow_head = (\<lambda>s w. (Some s, w)), tk_csum_help = (\<lambda>s w. (s, w)), tk_v6_check = (\<lambda>_. 0)\<rparr>"

definition demo_tx_ring :: tx_ring where
  "demo_tx_ring = \<lparr>tr_index = 0, cur_tx = 0, dirty_tx = 0, num_tx_desc = 32, TxDescArray = [],
     tx_skb = replicate 32 \<lparr>ri_skb = None, ri_len = 0\<rparr>, NextHwDesCloPtr = 0, BeginHwDesCloPtr = 0,
     hw_clo_ptr_reg = 0x2802, sw_tail_ptr_reg = 0x2800\<rparr>"

definition demo_tx :: "unit tx_dev" where
  "demo_tx = \<lparr>tx_rings = [demo_tx_ring], EnableTxNoClose = True, RequireLSOPatch = False, UseSwPaddingShortPkt = False,
     ShortPacketSwChecksum = False, tx_tcp_csum_cmd = 0x40000000, tx_udp_csum_cmd = 0x80000000, tx_ip_csum_cmd = 0x20000000,
     tx_ipv6_csum_cmd = 0x10000000, f_tso = True, f_ip_csum = True, f_ipv6_csum = True, tx_dropped = 0, tx_packets = 0,
     tx_bytes = 0, q_stopped = (\<lambda>_. False), tx_regs = (\<lambda>_. 0), freed = [], mapped = {#}, tx_w = ()\<rparr>"

definition demo_skb :: skb where
  "demo_skb = \<lparr>sk_id = 7, sk_data = 0x1000, sk_len = 100, sk_data_len = 60, sk_frags = [(0x2000, 60)], sk_protocol = ETH_P_IP,
     sk_gso_size = 0, sk_network_offset = 14, sk_transport_set = False, sk_transport_offset = 34, sk_ip_proto = 17,
     sk_nexthdr = 0, sk_dest_port = 53, sk_partial = False, sk_vlan = None, sk_tcp_check = 0\<rparr>"

lemma demo_kern_ok: "tx_kern_ok demo_kern" "maps_all demo_kern"
  by (auto simp: tx_kern_ok_def maps_all_def demo_kern_def keeps_def sk_wf_def word_gt_0 intro: le_less_trans)

lemma demo_tx_sizes: "list_all tx_sizes (tx_rings demo_tx)" "length (tx_rings demo_tx) = 1" "lso_extra demo_tx = 0"
  by (simp_all add: demo_tx_def demo_tx_ring_def tx_sizes_def tx_room_def lso_extra_def)

lemma demo_skb_wf: "sk_wf (MAX_SKB_FRAGS - 0) demo_skb"
  by (simp add: sk_wf_def demo_skb_def)

lemma demo_tx_init:
  "ring_ok (tx_rings (init_tx demo_tx) ! 0)" "pend (tx_rings (init_tx demo_tx) ! 0) = []" "mapped (init_tx demo_tx) = {#}"
  "length (tx_rings (init_tx demo_tx)) = 1" "lso_extra (init_tx demo_tx) = 0" "EnableTxNoClose (init_tx demo_tx)" "freed (init_tx demo_tx) = []"
  using init_tx_rings [OF tx_sizes_room [OF demo_tx_sizes(1)], of 0]
  by (simp_all add: demo_tx_sizes) (simp_all add: init_tx_def demo_tx_def lso_extra_def)





definition demo_big :: skb where
  "demo_big = demo_skb\<lparr>sk_len := 1000, sk_data_len := 900, sk_frags := replicate 15 (0x2000, 60)\<rparr>"

lemma demo_big_stops: "q_stopped (fst (tx_run demo_kern [TxXmit 0 demo_big] (init_tx demo_tx, []))) 0"
  by code_simp


lemma demo_big_wf: "sk_wf (MAX_SKB_FRAGS - 0) demo_big"
  by code_simp


definition nopad_kern :: "unit tx_kern" where
  "nopad_kern = demo_kern\<lparr>tk_padto := (\<lambda>s n w. (None, w))\<rparr>"

definition demo_udp :: skb where
  "demo_udp = demo_skb\<lparr>sk_len := 42, sk_data_len := 0, sk_frags := [], sk_transport_set := True\<rparr>"

theorem pad_failure_double_free_witness:
  "freed (snd (start_xmit nopad_kern 0 demo_udp (init_tx demo_tx))) = [7, 7]"
proof -
  have a: "tx_slots_avail (tx_rings (init_tx demo_tx) ! 0)" by code_simp
  have b: "sk_gso_size demo_udp = 0" "\<not> sk_partial demo_udp" "sk_id demo_udp = 7" by (simp_all add: demo_udp_def demo_skb_def)
  have p: "0 < get_patch_pad_len demo_udp" by code_simp
  have k: "tk_padto nopad_kern s n w = (None, w)" for s n w by (simp add: nopad_kern_def)
  show ?thesis
    using pad_failure_double_free [OF a demo_tx_init(6) b(1,2) p k surjective_pairing] b(3) demo_tx_init(7) by simp
qed

definition demo_lso_tx :: "unit tx_dev" where
  "demo_lso_tx = demo_tx\<lparr>RequireLSOPatch := True, tx_rings := [(init_tx_ring 0 demo_tx_ring)\<lparr>cur_tx := 14,
     tx_skb := replicate 14 \<lparr>ri_skb = Some 3, ri_len = 60\<rparr> @ replicate 18 \<lparr>ri_skb = None, ri_len = 0\<rparr>\<rparr>]\<rparr>"

definition demo_lso :: skb where
  "demo_lso = demo_skb\<lparr>sk_len := 1060, sk_data_len := 1020, sk_gso_size := 500, sk_frags := replicate 17 (0x2000, 60)\<rparr>"

lemma demo_lso_ring:
  "ring_ok (tx_rings demo_lso_tx ! 0)" "ring_n (tx_rings demo_lso_tx ! 0) - used (tx_rings demo_lso_tx ! 0) = 18"
proof -
  have "size_ok (tx_rings demo_lso_tx ! 0)"
    by (simp add: size_ok_def demo_lso_tx_def demo_tx_def init_tx_ring_def tx_desc_init_def init_tx_indexes_def demo_tx_ring_def Let_def)
  moreover have "used (tx_rings demo_lso_tx ! 0) \<le> ring_n (tx_rings demo_lso_tx ! 0)"
      "list_all (\<lambda>c. fst (snd c) \<noteq> 0) (take (used (tx_rings demo_lso_tx ! 0)) (cells (tx_rings demo_lso_tx ! 0)))"
      "list_all free_cell (drop (used (tx_rings demo_lso_tx ! 0)) (cells (tx_rings demo_lso_tx ! 0)))"
    by code_simp+
  ultimately show "ring_ok (tx_rings demo_lso_tx ! 0)" by (simp add: ring_ok_def)
  show "ring_n (tx_rings demo_lso_tx ! 0) - used (tx_rings demo_lso_tx ! 0) = 18" by code_simp
qed

theorem lso_patch_overruns_witness:
  "used (tx_rings (snd (start_xmit demo_kern 0 demo_lso demo_lso_tx)) ! 0) = 33"
proof -
  have d: "0 < length (tx_rings demo_lso_tx)" "RequireLSOPatch demo_lso_tx" "EnableTxNoClose demo_lso_tx" "f_tso demo_lso_tx"
    "ring_n (tx_rings demo_lso_tx ! 0) = 32"
    by code_simp+
  have s: "sk_gso_size demo_lso \<noteq> 0" "sk_protocol demo_lso = ETH_P_IP" "0 \<le> sk_transport_offset demo_lso"
    "sk_transport_offset demo_lso \<le> 0x70" "length (sk_frags demo_lso) = 17"
    "sum_list (map (\<lambda>f. unat (snd f)) (butlast (sk_frags demo_lso))) < ETH_FRAME_LEN" "1 < snd (last (sk_frags demo_lso))"
    by code_simp+
  show ?thesis
    using lso_patch_overruns [OF demo_kern_ok(2) d(1) demo_lso_ring d(2-4) s surjective_pairing] d(5) by simp
qed

text \<open>
  Small transport packets are padded to what the chip can handle: a packet of at most 174 bytes with a
  known TCP or UDP header grows to at least the Ethernet minimum of 60 bytes and to a complete transport
  header, a UDP packet for the event ports 319 and 320 of the time protocol to at least 47 bytes after its
  transport header offset, and the new length never wraps; all other packets are left as they are.
\<close>

theorem patch_padding:
  fixes s :: skb
  defines "p \<equiv> get_patch_pad_len s" and "t \<equiv> sk_len s - word_of_int (sk_transport_offset s)"
  shows "if pad_candidate s
    then p \<le> 60 \<and> unat (sk_len s + p) = unat (sk_len s) + unat p \<and> 60 \<le> unat (sk_len s) + unat p
      \<and> (if get_l4_protocol s = IPPROTO_TCP then 20 \<le> unat t + unat p else 8 \<le> unat t + unat p)
      \<and> (get_l4_protocol s = IPPROTO_UDP \<and> 3 < sint t \<and> sint t < 47 \<and> (sk_dest_port s = 0x13f \<or> sk_dest_port s = 0x140)
          \<longrightarrow> 47 \<le> unat t + unat p)
    else p = 0"
proof (cases "pad_candidate s")
  case True
  then obtain b where b: "b \<le> 60" "p = (if sk_len s + b < ETH_ZLEN then ETH_ZLEN - sk_len s else b)"
    "get_l4_protocol s = IPPROTO_TCP \<Longrightarrow> 20 \<le> unat t + unat b" "get_l4_protocol s = IPPROTO_UDP \<Longrightarrow> 8 \<le> unat t + unat b"
    "get_l4_protocol s = IPPROTO_UDP \<Longrightarrow> 3 < sint t \<Longrightarrow> sint t < 47 \<Longrightarrow>
      sk_dest_port s = 0x13f \<or> sk_dest_port s = 0x140 \<Longrightarrow> 47 \<le> unat t + unat b"
    unfolding p_def t_def by (rule patch_pad_base) blast
  have "sk_len s < 175" and pr: "get_l4_protocol s = IPPROTO_TCP \<or> get_l4_protocol s = IPPROTO_UDP"
    using True by (simp_all add: pad_candidate_def)
  then have m: "p \<le> 60 \<and> b \<le> p \<and> unat (sk_len s + p) = unat (sk_len s) + unat p \<and> 60 \<le> unat (sk_len s) + unat p"
    using pad_to_minimum [of "sk_len s" b] b(1) unfolding b(2) by blast
  then have "unat b \<le> unat p" by (simp add: word_le_nat_alt)
  with b(3-5) m pr True show ?thesis by fastforce
next
  case False
  then show ?thesis by (simp add: p_def patch_pad_none)
qed

theorem patch_padding_witness: "60 \<le> unat (sk_len demo_udp) + unat (get_patch_pad_len demo_udp)"
proof -
  have "pad_candidate demo_udp" by code_simp
  then show ?thesis using patch_padding [of demo_udp] by simp
qed

end
