(* ===== verification/R8125_Rx.thy ===== *)
theory R8125_Rx
  imports R8125_Rss
begin

text \<open>
  The receive path of the Realtek network driver (\<^verbatim>\<open>r8125/src/r8125_n.c\<close>, \<open>rtl8125_free_rx_skb\<close> to
  \<open>rtl8125_init_ring\<close> and \<open>rtl8125_fragmented_frame\<close> to \<open>rtl8125_rx_interrupt\<close>), built for NAPI with VLAN
  and receive-side scaling and without time stamping.

  A receive ring holds descriptors the chip fills, the DMA address of each descriptor's buffer and the
  buffer itself (\<open>Rx_skbuff\<close>). \<open>cur_rx\<close> counts the descriptors processed, \<open>dirty_rx\<close> those that have a
  buffer again. The two descriptor layouts have the same fields at different offsets, so one record
  serves both; \<open>rx_type3\<close> selects the bits. The library interface's data (for the packet hash) is \<open>rx_tp\<close>.

  The kernel is the parameter \<open>rx_kern\<close>: allocation of a socket buffer (\<open>rk_alloc\<close>, the flag tells
  whether from interrupt context), DMA mapping, and the classification of a frame as multicast by
  \<open>eth_type_trans\<close>. \<open>rx_data\<close> is the contents of the buffers, which the chip writes. The state records the
  buffers ever allocated, those freed, the live mappings and the packets handed to the network stack.
\<close>

unbundle bit_operations_syntax

section \<open>State\<close>

record rx_desc =
  rd_opts1 :: u32
  rd_opts2 :: u32
  rd_addr :: u64
  rd_header_info :: u16
  rd_rss_result :: u32

record rx_ring =
  rr_index :: nat
  cur_rx :: u32
  dirty_rx :: u32
  num_rx_desc :: u32
  RxDescArray :: "rx_desc list"
  RxDescPhyAddr :: "u64 list"
  Rx_skbuff :: "nat option list"

record rx_pkt =
  rp_skb :: nat
  rp_len :: u32
  rp_csum_ok :: bool
  rp_vlan :: "u16 option"
  rp_hash :: "(u32 \<times> bool) option"
  rp_data :: "u8 list"
  rp_ring :: nat

record 'w rx_kern =
  rk_alloc :: "bool \<Rightarrow> u32 \<Rightarrow> 'w \<Rightarrow> nat option \<times> 'w"
  rk_map :: "nat \<Rightarrow> u32 \<Rightarrow> 'w \<Rightarrow> u64 option \<times> 'w"
  rk_multicast :: "u8 list \<Rightarrow> bool"

record 'w rx_dev =
  rx_rings :: "rx_ring list"
  rx_tp :: rtl_private
  rx_type3 :: bool
  rx_buf_sz :: u32
  rx_copybreak :: int
  f_rxall :: bool
  f_rxfcs :: bool
  rx_chksum :: bool
  rx_errors :: u64
  rx_length_errors :: u64
  rx_crc_errors :: u64
  rx_dropped :: u64
  rx_bytes :: u64
  rx_packets :: u64
  rx_multicast :: u64
  rx_data :: "nat \<Rightarrow> u8 list"
  rx_alloced :: "nat list"
  rx_freed :: "nat list"
  rx_mapped :: "(u64 \<times> u32) multiset"
  rx_stack :: "rx_pkt list"
  rx_w :: 'w

abbreviation (input) RTL8125_MAGIC :: u64 where "RTL8125_MAGIC \<equiv> 0x0badbadbadbadbad"
abbreviation (input) RTK_RX_ALIGN :: u32 where "RTK_RX_ALIGN \<equiv> 8"
abbreviation (input) RsvdMask :: u32 where "RsvdMask \<equiv> 0x3fffc000"
abbreviation (input) RsvdMaskV3 :: u32 where "RsvdMaskV3 \<equiv> 0x3fff8000"

section \<open>Descriptors\<close>

definition make_unusable_by_asic :: "bool \<Rightarrow> rx_desc \<Rightarrow> rx_desc" where
  "make_unusable_by_asic t3 x =
     x\<lparr>rd_addr := RTL8125_MAGIC, rd_opts1 := rd_opts1 x AND NOT (DescOwn OR (if t3 then RsvdMaskV3 else RsvdMask))\<rparr>"

definition mark_to_asic :: "u32 \<Rightarrow> rx_desc \<Rightarrow> rx_desc" where
  "mark_to_asic sz x = (let eor = rd_opts1 x AND RingEnd in x\<lparr>rd_opts1 := (DescOwn OR eor) OR sz\<rparr>)"

definition upd_desc :: "nat \<Rightarrow> (rx_desc \<Rightarrow> rx_desc) \<Rightarrow> rx_ring \<Rightarrow> rx_ring" where
  "upd_desc i f r = r\<lparr>RxDescArray := (RxDescArray r)[i := f (RxDescArray r ! i)]\<rparr>"

definition map_to_asic :: "nat \<Rightarrow> u64 \<Rightarrow> u32 \<Rightarrow> rx_ring \<Rightarrow> rx_ring" where
  "map_to_asic i m sz r =
     upd_desc i (\<lambda>x. mark_to_asic sz (x\<lparr>rd_addr := m\<rparr>)) (r\<lparr>RxDescPhyAddr := (RxDescPhyAddr r)[i := m]\<rparr>)"

definition mark_as_last_descriptor :: "rx_desc \<Rightarrow> rx_desc" where
  "mark_as_last_descriptor x = x\<lparr>rd_opts1 := rd_opts1 x OR RingEnd\<rparr>"

section \<open>Buffers\<close>

definition rx_alloc :: "'w rx_kern \<Rightarrow> bool \<Rightarrow> u32 \<Rightarrow> 'w rx_dev \<Rightarrow> nat option \<times> 'w rx_dev" where
  "rx_alloc K intr sz d =
     (case rk_alloc K intr sz (rx_w d) of
        (None, w) \<Rightarrow> (None, d\<lparr>rx_w := w\<rparr>)
      | (Some s, w) \<Rightarrow> (Some s, d\<lparr>rx_w := w, rx_alloced := rx_alloced d @ [s]\<rparr>))"

definition rx_kfree :: "nat \<Rightarrow> 'w rx_dev \<Rightarrow> 'w rx_dev" where
  "rx_kfree s d = d\<lparr>rx_freed := rx_freed d @ [s]\<rparr>"

definition rx_unmap :: "u64 \<Rightarrow> 'w rx_dev \<Rightarrow> 'w rx_dev" where
  "rx_unmap a d = d\<lparr>rx_mapped := rx_mapped d - {# (a, rx_buf_sz d) #}\<rparr>"

definition free_rx_skb :: "nat \<Rightarrow> rx_ring \<times> 'w rx_dev \<Rightarrow> rx_ring \<times> 'w rx_dev" where
  "free_rx_skb i rd = (case rd of (r, d) \<Rightarrow>
     (upd_desc i (make_unusable_by_asic (rx_type3 d)) (r\<lparr>Rx_skbuff := (Rx_skbuff r)[i := None]\<rparr>),
      rx_kfree (the (Rx_skbuff r ! i)) (rx_unmap (RxDescPhyAddr r ! i) d)))"

text \<open>
  The flag is the success of the allocation (return value \<open>0\<close> rather than \<open>-ENOMEM\<close>).
\<close>

definition alloc_rx_skb :: "'w rx_kern \<Rightarrow> nat \<Rightarrow> bool \<Rightarrow> rx_ring \<times> 'w rx_dev \<Rightarrow> bool \<times> rx_ring \<times> 'w rx_dev" where
  "alloc_rx_skb K i in_intr rd = (case rd of (r, d) \<Rightarrow>
     (case rx_alloc K in_intr (rx_buf_sz d + RTK_RX_ALIGN) d of
        (None, d) \<Rightarrow> (False, upd_desc i (make_unusable_by_asic (rx_type3 d)) r, d)
      | (Some s, d) \<Rightarrow>
          (case rk_map K s (rx_buf_sz d) (rx_w d) of
             (None, w) \<Rightarrow> (False, upd_desc i (make_unusable_by_asic (rx_type3 d)) r, rx_kfree s (d\<lparr>rx_w := w\<rparr>))
           | (Some m, w) \<Rightarrow>
               (True, map_to_asic i m (rx_buf_sz d) (r\<lparr>Rx_skbuff := (Rx_skbuff r)[i := Some s]\<rparr>),
                d\<lparr>rx_w := w, rx_mapped := add_mset (m, rx_buf_sz d) (rx_mapped d)\<rparr>))))"

definition rx_clear_slot :: "nat \<Rightarrow> rx_ring \<times> 'w rx_dev \<Rightarrow> rx_ring \<times> 'w rx_dev" where
  "rx_clear_slot i rd = (if Rx_skbuff (fst rd) ! i \<noteq> None then free_rx_skb i rd else rd)"

definition rx_clear_ring :: "nat \<Rightarrow> 'w rx_dev \<Rightarrow> 'w rx_dev" where
  "rx_clear_ring q d =
     (let r = rx_rings d ! q in
      case fold rx_clear_slot [0 ..< unat (num_rx_desc r)] (r, d) of (r, d) \<Rightarrow> d\<lparr>rx_rings := (rx_rings d)[q := r]\<rparr>)"

definition rx_clear :: "'w rx_dev \<Rightarrow> 'w rx_dev" where
  "rx_clear d = fold rx_clear_ring [0 ..< length (rx_rings d)] d"

text \<open>
  The refill loop runs while \<open>end - cur\<close> is positive; the argument is that difference. It returns the
  counter it reached.
\<close>

fun rx_fill_loop :: "'w rx_kern \<Rightarrow> bool \<Rightarrow> nat \<Rightarrow> u32 \<Rightarrow> rx_ring \<times> 'w rx_dev \<Rightarrow> u32 \<times> rx_ring \<times> 'w rx_dev" where
  "rx_fill_loop K in_intr 0 cur rd = (cur, rd)"
| "rx_fill_loop K in_intr (Suc n) cur rd =
     (let i = unat (cur mod num_rx_desc (fst rd)) in
      if Rx_skbuff (fst rd) ! i \<noteq> None then rx_fill_loop K in_intr n (cur + 1) rd
      else case alloc_rx_skb K i in_intr rd of
             (False, rd) \<Rightarrow> (cur, rd)
           | (True, rd) \<Rightarrow> rx_fill_loop K in_intr n (cur + 1) rd)"

definition rx_fill :: "'w rx_kern \<Rightarrow> u32 \<Rightarrow> u32 \<Rightarrow> bool \<Rightarrow> rx_ring \<times> 'w rx_dev \<Rightarrow> u32 \<times> rx_ring \<times> 'w rx_dev" where
  "rx_fill K start end' in_intr rd =
     (case rx_fill_loop K in_intr (unat (end' - start)) start rd of (cur, rd) \<Rightarrow> (cur - start, rd))"

section \<open>Initialisation\<close>

definition rx_desc_zero :: rx_desc where
  "rx_desc_zero = \<lparr>rd_opts1 = 0, rd_opts2 = 0, rd_addr = 0, rd_header_info = 0, rd_rss_result = 0\<rparr>"

definition init_rx_indexes :: "nat \<Rightarrow> rx_ring \<Rightarrow> rx_ring" where
  "init_rx_indexes i r = r\<lparr>dirty_rx := 0, cur_rx := 0, rr_index := i\<rparr>"

definition rx_desc_init :: "rx_ring \<Rightarrow> rx_ring" where
  "rx_desc_init r = r\<lparr>RxDescArray := replicate (unat (num_rx_desc r) + 1) rx_desc_zero\<rparr>"

definition init_rx_ring :: "'w rx_kern \<Rightarrow> nat \<Rightarrow> 'w rx_dev \<Rightarrow> bool \<times> 'w rx_dev" where
  "init_rx_ring K q d =
     (let r = rx_rings d ! q; r = r\<lparr>Rx_skbuff := map (\<lambda>_. None) (Rx_skbuff r)\<rparr> in
      case rx_fill K 0 (num_rx_desc r) False (r, d) of (n, r, d) \<Rightarrow>
        if n \<noteq> num_rx_desc r then (False, d\<lparr>rx_rings := (rx_rings d)[q := r]\<rparr>)
        else (True, d\<lparr>rx_rings := (rx_rings d)[q := upd_desc (unat (num_rx_desc r - 1)) mark_as_last_descriptor r]\<rparr>))"

fun init_rx_loop :: "'w rx_kern \<Rightarrow> nat list \<Rightarrow> 'w rx_dev \<Rightarrow> bool \<times> 'w rx_dev" where
  "init_rx_loop K [] d = (True, d)"
| "init_rx_loop K (q # qs) d =
     (case init_rx_ring K q d of (True, d) \<Rightarrow> init_rx_loop K qs d | (False, d) \<Rightarrow> (False, d))"

text \<open>
  The receive part of \<open>rtl8125_init_ring\<close>.
\<close>

definition init_rx :: "'w rx_kern \<Rightarrow> 'w rx_dev \<Rightarrow> int \<times> 'w rx_dev" where
  "init_rx K d =
     (let n = length (rx_rings d);
          d = d\<lparr>rx_rings := map (\<lambda>i. rx_desc_init (init_rx_indexes i (rx_rings d ! i))) [0 ..< n]\<rparr>
      in case init_rx_loop K [0 ..< n] d of (True, d) \<Rightarrow> (0, d) | (False, d) \<Rightarrow> (- ENOMEM, rx_clear d))"

section \<open>Received frames\<close>

definition fragmented_frame :: "bool \<Rightarrow> u32 \<Rightarrow> bool" where
  "fragmented_frame t3 status =
     (if t3 then status AND 0x03000000 \<noteq> 0x03000000 else status AND 0x30000000 \<noteq> 0x30000000)"

text \<open>The test of \<open>RxRES\<close> with the error counters; the flag tells that there is an error.\<close>

definition check_rx_desc_error :: "u32 \<Rightarrow> 'w rx_dev \<Rightarrow> bool \<times> 'w rx_dev" where
  "check_rx_desc_error status d =
     (let res = (if rx_type3 d then 0x00100000 else 0x00200000);
          rwt_runt = (if rx_type3 d then 0x000C0000 else 0x00500000);
          crc = (if rx_type3 d then 0x00020000 else 0x00080000)
      in if status AND res = 0 then (False, d)
         else
           (let d = (if status AND rwt_runt \<noteq> 0 then d\<lparr>rx_length_errors := rx_length_errors d + 1\<rparr> else d);
                d = (if status AND crc \<noteq> 0 then d\<lparr>rx_crc_errors := rx_crc_errors d + 1\<rparr> else d)
            in (True, d)))"

definition rx_v3_csum :: "u32 \<Rightarrow> bool" where
  "rx_v3_csum opts2 \<longleftrightarrow>
     ((opts2 AND 0x40000000 \<noteq> 0 \<and> opts2 AND 0x04000000 = 0) \<or> opts2 AND 0x80000000 \<noteq> 0)
   \<and> ((opts2 AND 0x10000000 \<noteq> 0 \<and> opts2 AND 0x01000000 = 0) \<or> (opts2 AND 0x20000000 \<noteq> 0 \<and> opts2 AND 0x02000000 = 0))"

definition rx_csum :: "bool \<Rightarrow> rx_desc \<Rightarrow> bool" where
  "rx_csum t3 x =
     (if t3 then rx_v3_csum (rd_opts2 x)
      else
        ((rd_opts2 x AND 0x40000000 \<noteq> 0 \<and> rd_opts1 x AND 0x00010000 = 0) \<or> rd_opts2 x AND 0x80000000 \<noteq> 0)
      \<and> ((rd_opts1 x AND 0x00020000 \<noteq> 0 \<and> rd_opts1 x AND 0x00004000 = 0)
         \<or> (rd_opts1 x AND 0x00040000 \<noteq> 0 \<and> rd_opts1 x AND 0x00008000 = 0)))"

definition rx_vlan_tag :: "u32 \<Rightarrow> u16 option" where
  "rx_vlan_tag opts2 =
     (if opts2 AND 0x00010000 \<noteq> 0
      then Some (let v = ucast (opts2 AND 0xffff) in push_bit 8 v OR drop_bit 8 v) else None)"

text \<open>
  A frame shorter than \<open>rx_copybreak\<close> is copied to a fresh buffer, if there is one, and the
  descriptor goes back to the chip at once. The result is the buffer with the frame and whether it is
  a copy.
\<close>

definition try_rx_copy :: "'w rx_kern \<Rightarrow> nat \<Rightarrow> nat \<Rightarrow> u32 \<Rightarrow> rx_ring \<times> 'w rx_dev \<Rightarrow> bool \<times> nat \<times> rx_ring \<times> 'w rx_dev" where
  "try_rx_copy K entry s pkt_size rd = (case rd of (r, d) \<Rightarrow>
     (if uint pkt_size < rx_copybreak d then
        (case rx_alloc K True (pkt_size + RTK_RX_ALIGN) d of
           (None, d) \<Rightarrow> (False, s, r, d)
         | (Some s', d) \<Rightarrow>
             (True, s', upd_desc entry (mark_to_asic (rx_buf_sz d)) r,
              d\<lparr>rx_data := (rx_data d)(s' := take (unat pkt_size) (rx_data d s))\<rparr>))
      else (False, s, r, d)))"

definition rx_deliver :: "'w rx_kern \<Rightarrow> nat \<Rightarrow> nat \<Rightarrow> u32 \<Rightarrow> rx_ring \<times> 'w rx_dev \<Rightarrow> rx_ring \<times> 'w rx_dev" where
  "rx_deliver K entry s pkt_size rd =
     (case try_rx_copy K entry s pkt_size rd of (copied, s, r, d) \<Rightarrow>
        (let (r, d) = (if copied then (r, d)
                       else (r\<lparr>Rx_skbuff := (Rx_skbuff r)[entry := None]\<rparr>, rx_unmap (RxDescPhyAddr r ! entry) d));
             x = RxDescArray r ! entry;
             frame = take (unat pkt_size) (rx_data d s);
             pkt = \<lparr>rp_skb = s, rp_len = pkt_size, rp_csum_ok = (rx_chksum d \<and> rx_csum (rx_type3 d) x),
                    rp_vlan = rx_vlan_tag (rd_opts2 x),
                    rp_hash = rtl8125_rx_hash (rx_tp d) (rd_header_info x) (rd_rss_result x), rp_data = frame, rp_ring = rr_index r\<rparr>;
             d = (if rk_multicast K frame then d\<lparr>rx_multicast := rx_multicast d + 1\<rparr> else d)
         in (upd_desc entry (\<lambda>x. x\<lparr>rd_opts2 := 0\<rparr>) r,
             d\<lparr>rx_stack := rx_stack d @ [pkt], rx_bytes := rx_bytes d + ucast pkt_size, rx_packets := rx_packets d + 1\<rparr>)))"

text \<open>
  The loop of the interrupt handler; \<open>left\<close> is \<open>rx_left\<close>, the result the counter it reached. After a
  fragmented or oversized frame the source continues without advancing the counter.
\<close>

fun rx_loop :: "'w rx_kern \<Rightarrow> nat \<Rightarrow> u32 \<Rightarrow> rx_ring \<times> 'w rx_dev \<Rightarrow> u32 \<times> rx_ring \<times> 'w rx_dev" where
  "rx_loop K 0 cur rd = (cur, rd)"
| "rx_loop K (Suc left) cur rd =
     (let r = fst rd; d = snd rd; entry = unat (cur mod num_rx_desc r); status = rd_opts1 (RxDescArray r ! entry) in
      if status AND DescOwn \<noteq> 0 then (cur, rd)
      else
        (let (err, d) = check_rx_desc_error status d;
             d = (if err then d\<lparr>rx_errors := rx_errors d + 1\<rparr> else d)
         in if err \<and> \<not> f_rxall d
            then rx_loop K left (cur + 1) (upd_desc entry (mark_to_asic (rx_buf_sz d)) r, d)
            else
              (let pkt_size = (status AND 0x3fff) - (if f_rxfcs d then 0 else 4) in
               if fragmented_frame (rx_type3 d) status \<or> rx_buf_sz d < pkt_size
               then rx_loop K left cur
                      (upd_desc entry (mark_to_asic (rx_buf_sz d)) r,
                       d\<lparr>rx_dropped := rx_dropped d + 1, rx_length_errors := rx_length_errors d + 1\<rparr>)
               else case Rx_skbuff r ! entry of
                      None \<Rightarrow> (cur, r, d)
                    | Some s \<Rightarrow> rx_loop K left (cur + 1) (rx_deliver K entry s pkt_size (r, d)))))"

text \<open>
  The whole handler for one ring; it returns the number of descriptors passed.
\<close>

definition rx_interrupt :: "'w rx_kern \<Rightarrow> nat \<Rightarrow> u32 \<Rightarrow> 'w rx_dev \<Rightarrow> u32 \<times> 'w rx_dev" where
  "rx_interrupt K q budget d =
     (let r = rx_rings d ! q;
          rx_left = min (num_rx_desc r + dirty_rx r - cur_rx r) budget
      in if RxDescArray r = [] then (0, d)
         else case rx_loop K (unat rx_left) (cur_rx r) (r, d) of (cur, r, d) \<Rightarrow>
           (let cnt = cur - cur_rx r; r = r\<lparr>cur_rx := cur\<rparr> in
            case rx_fill K (dirty_rx r) (cur_rx r) True (r, d) of (delta, r, d) \<Rightarrow>
              (cnt, d\<lparr>rx_rings := (rx_rings d)[q := r\<lparr>dirty_rx := dirty_rx r + delta\<rparr>]\<rparr>)))"

section \<open>Buffer size\<close>

definition set_rxbufsize :: "u32 \<Rightarrow> u32" where
  "set_rxbufsize mtu = (if 1500 < mtu then mtu + 14 + 8 + 1 else 0x05F3)"

end
