(* ===== verification/R8125_RxRing.thy ===== *)
theory R8125_RxRing
  imports R8125_Rx
begin

text \<open>
  Correctness of the receive path of \<^verbatim>\<open>R8125_Rx\<close>. A ring is well formed when every descriptor the chip
  may own has a buffer. On the level of the device, the buffers ever allocated are those freed, those
  handed to the network stack and those in a ring, and the live DMA mappings are those of the buffers
  in a ring. A last section proves the receive stall after a fragmented frame.
\<close>

unbundle bit_operations_syntax

section \<open>The ring\<close>

abbreviation rx_n :: "rx_ring \<Rightarrow> nat" where "rx_n r \<equiv> unat (num_rx_desc r)"

definition rx_size_ok :: "rx_ring \<Rightarrow> bool" where
  "rx_size_ok r \<longleftrightarrow> 0 < rx_n r \<and> rx_n r \<le> 1024 \<and> rx_n r dvd 2 ^ 32 \<and> rx_n r \<le> length (Rx_skbuff r)
     \<and> rx_n r \<le> length (RxDescPhyAddr r) \<and> length (RxDescArray r) = rx_n r + 1"

definition rent :: "rx_ring \<Rightarrow> nat \<Rightarrow> nat" where
  "rent r k = unat ((dirty_rx r + of_nat k) mod num_rx_desc r)"

definition rused :: "rx_ring \<Rightarrow> nat" where
  "rused r = unat (cur_rx r - dirty_rx r)"

text \<open>The buffers of the ring, each with its DMA address.\<close>

definition bufs :: "rx_ring \<Rightarrow> (nat option \<times> u64) list" where
  "bufs r = zip (take (rx_n r) (Rx_skbuff r)) (take (rx_n r) (RxDescPhyAddr r))"

definition buf_maps :: "u32 \<Rightarrow> rx_ring \<Rightarrow> (u64 \<times> u32) multiset" where
  "buf_maps sz r = mset (map (\<lambda>(s, a). (a, sz)) (filter (\<lambda>(s, a). s \<noteq> None) (bufs r)))"

definition buf_skbs :: "rx_ring \<Rightarrow> nat multiset" where
  "buf_skbs r = mset (map (\<lambda>(s, a). the s) (filter (\<lambda>(s, a). s \<noteq> None) (bufs r)))"

definition rx_ring_ok :: "rx_ring \<Rightarrow> bool" where
  "rx_ring_ok r \<longleftrightarrow> rx_size_ok r \<and> rused r \<le> rx_n r \<and> (\<forall>k. rused r \<le> k \<and> k < rx_n r \<longrightarrow> Rx_skbuff r ! rent r k \<noteq> None)"

lemma length_bufs: "rx_size_ok r \<Longrightarrow> length (bufs r) = rx_n r"
  by (simp add: bufs_def rx_size_ok_def)

lemma bufs_nth: "rx_size_ok r \<Longrightarrow> i < rx_n r \<Longrightarrow> bufs r ! i = (Rx_skbuff r ! i, RxDescPhyAddr r ! i)"
  by (simp add: bufs_def rx_size_ok_def)

lemma bufs_upd:
  assumes "rx_size_ok r" "i < rx_n r"
  shows "bufs (r\<lparr>Rx_skbuff := (Rx_skbuff r)[i := s], RxDescPhyAddr := (RxDescPhyAddr r)[i := a]\<rparr>) = (bufs r)[i := (s, a)]"
    "bufs (r\<lparr>Rx_skbuff := (Rx_skbuff r)[i := s]\<rparr>) = (bufs r)[i := (s, RxDescPhyAddr r ! i)]"
  using assms by (auto simp: bufs_def rx_size_ok_def nth_list_update intro!: nth_equalityI)

lemma buf_update:
  assumes "rx_size_ok r" "i < rx_n r" "bufs r' = (bufs r)[i := (s, a)]"
  shows "buf_maps sz r' + (if Rx_skbuff r ! i \<noteq> None then {# (RxDescPhyAddr r ! i, sz) #} else {#}) =
      buf_maps sz r + (if s \<noteq> None then {# (a, sz) #} else {#})"
    "buf_skbs r' + (if Rx_skbuff r ! i \<noteq> None then {# the (Rx_skbuff r ! i) #} else {#}) =
      buf_skbs r + (if s \<noteq> None then {# the s #} else {#})"
proof -
  have i: "i < length (bufs r)" "bufs r ! i = (Rx_skbuff r ! i, RxDescPhyAddr r ! i)"
    using assms(1,2) by (simp_all add: length_bufs bufs_nth)
  show "buf_maps sz r' + (if Rx_skbuff r ! i \<noteq> None then {# (RxDescPhyAddr r ! i, sz) #} else {#}) =
      buf_maps sz r + (if s \<noteq> None then {# (a, sz) #} else {#})"
    using mset_filter_update [OF i(1), of "\<lambda>(s, a). (a, sz)" "\<lambda>(s, a). s \<noteq> None" "(s, a)", folded assms(3), folded buf_maps_def, unfolded i(2) prod.case]
    by simp
  show "buf_skbs r' + (if Rx_skbuff r ! i \<noteq> None then {# the (Rx_skbuff r ! i) #} else {#}) =
      buf_skbs r + (if s \<noteq> None then {# the s #} else {#})"
    using mset_filter_update [OF i(1), of "\<lambda>(s, a). the s" "\<lambda>(s, a). s \<noteq> None" "(s, a)", folded assms(3), folded buf_skbs_def, unfolded i(2) prod.case]
    by simp
qed


lemma rent_eq:
  assumes "rx_size_ok r"
  shows "rent r k = (unat (dirty_rx r) + k) mod rx_n r"
proof -
  have "rx_n r dvd 2 ^ 32" using assms by (simp only: rx_size_ok_def)
  then show ?thesis
    by (simp only: rent_def unat_mod_distrib unat_add_of_nat mod_mod_cancel)
qed

lemma rent_lt: "rx_size_ok r \<Longrightarrow> rent r k < rx_n r"
  by (simp add: rent_eq rx_size_ok_def)

lemma rent_inj: "\<lbrakk>rx_size_ok r; j < rx_n r; k < rx_n r\<rbrakk> \<Longrightarrow> rent r j = rent r k \<longleftrightarrow> j = k"
  by (metis rent_eq mod_add_inj)

section \<open>Steps on one ring\<close>

text \<open>
  The relation every step of the receive path keeps between ring and device: sizes and counters of the
  ring, the configuration of the device, the live mappings (those of the ring's buffers and \<open>M\<close>) and
  the balance of buffers (\<open>S\<close> stands for the buffers of the other rings).
\<close>

definition rx_same :: "rx_ring \<Rightarrow> rx_ring \<Rightarrow> bool" where
  "rx_same r r' \<longleftrightarrow> num_rx_desc r' = num_rx_desc r \<and> dirty_rx r' = dirty_rx r \<and> cur_rx r' = cur_rx r \<and> rr_index r' = rr_index r"

definition rx_conf :: "'w rx_dev \<Rightarrow> 'w rx_dev \<Rightarrow> bool" where
  "rx_conf d d' \<longleftrightarrow> rx_rings d' = rx_rings d \<and> rx_type3 d' = rx_type3 d \<and> rx_buf_sz d' = rx_buf_sz d
     \<and> rx_copybreak d' = rx_copybreak d \<and> f_rxall d' = f_rxall d \<and> f_rxfcs d' = f_rxfcs d \<and> rx_chksum d' = rx_chksum d
     \<and> rx_tp d' = rx_tp d"

text \<open>The packets handed to the stack since \<open>T\<close> are no longer than \<open>B\<close>.\<close>

definition grown :: "rx_pkt list \<Rightarrow> u32 \<Rightarrow> rx_pkt list \<Rightarrow> bool" where
  "grown T B xs \<longleftrightarrow> (\<exists>ps. xs = T @ ps \<and> list_all (\<lambda>p. rp_len p \<le> B) ps)"

lemma grown_refl [simp]: "grown T B T"
  by (simp add: grown_def)

lemma grown_snoc: "grown T B xs \<Longrightarrow> rp_len p \<le> B \<Longrightarrow> grown T B (xs @ [p])"
  by (auto simp: grown_def)

definition rx_bal :: "rx_pkt list \<Rightarrow> (u64 \<times> u32) multiset \<Rightarrow> nat multiset \<Rightarrow> rx_ring \<times> 'w rx_dev \<Rightarrow> bool" where
  "rx_bal T M S rd \<longleftrightarrow> (case rd of (r, d) \<Rightarrow> rx_size_ok r \<and> rx_mapped d = M + buf_maps (rx_buf_sz d) r
     \<and> mset (rx_alloced d) = mset (rx_freed d) + image_mset rp_skb (mset (rx_stack d)) + S + buf_skbs r
     \<and> grown T (rx_buf_sz d) (rx_stack d))"

lemma rx_same_refl [simp]: "rx_same r r"
  by (simp add: rx_same_def)

lemma rx_same_trans: "rx_same r r' \<Longrightarrow> rx_same r' r'' \<Longrightarrow> rx_same r r''"
  by (simp add: rx_same_def)

lemma rx_conf_refl [simp]: "rx_conf d d"
  by (simp add: rx_conf_def)

lemma rx_conf_trans: "rx_conf d d' \<Longrightarrow> rx_conf d' d'' \<Longrightarrow> rx_conf d d''"
  by (simp add: rx_conf_def)

lemma upd_desc_simps [simp]:
  "num_rx_desc (upd_desc i f r) = num_rx_desc r" "dirty_rx (upd_desc i f r) = dirty_rx r" "cur_rx (upd_desc i f r) = cur_rx r"
  "rr_index (upd_desc i f r) = rr_index r" "Rx_skbuff (upd_desc i f r) = Rx_skbuff r" "RxDescPhyAddr (upd_desc i f r) = RxDescPhyAddr r"
  "rx_size_ok (upd_desc i f r) = rx_size_ok r" "bufs (upd_desc i f r) = bufs r" "buf_maps sz (upd_desc i f r) = buf_maps sz r"
  "buf_skbs (upd_desc i f r) = buf_skbs r"
  by (simp_all add: upd_desc_def rx_size_ok_def bufs_def buf_maps_def buf_skbs_def)

lemma rx_bal_desc [simp]: "rx_bal T M S (upd_desc i f r, d) = rx_bal T M S (r, d)"
  by (simp add: rx_bal_def)

lemma rx_alloc_keeps:
  assumes "rx_alloc K b sz d = (o', d')"
  shows "rx_conf d d'" "rx_mapped d' = rx_mapped d" "rx_freed d' = rx_freed d" "rx_stack d' = rx_stack d"
    "mset (rx_alloced d') = mset (rx_alloced d) + (case o' of None \<Rightarrow> {#} | Some s \<Rightarrow> {# s #})" "rx_data d' = rx_data d"
    "rx_packets d' = rx_packets d" "rx_bytes d' = rx_bytes d"
  using assms by (auto simp: rx_alloc_def rx_conf_def split: prod.splits option.splits)

lemma bufs_map_to_asic:
  assumes "rx_size_ok r" "i < rx_n r"
  shows "bufs (map_to_asic i m sz (r\<lparr>Rx_skbuff := (Rx_skbuff r)[i := Some s]\<rparr>)) = (bufs r)[i := (Some s, m)]"
    "rx_size_ok (map_to_asic i m sz (r\<lparr>Rx_skbuff := (Rx_skbuff r)[i := Some s]\<rparr>))"
  using bufs_upd(1) [OF assms, where s = "Some s" and a = m] assms
  by (simp_all add: map_to_asic_def) (simp add: rx_size_ok_def)

text \<open>What an attempt to give the cell \<open>i\<close> a buffer achieves.\<close>

definition refilled :: "nat \<Rightarrow> bool \<Rightarrow> rx_ring \<Rightarrow> rx_ring \<Rightarrow> bool" where
  "refilled i ok r r' \<longleftrightarrow> rx_same r r' \<and> (Rx_skbuff r' ! i \<noteq> None \<longleftrightarrow> ok) \<and> (\<forall>j. j \<noteq> i \<longrightarrow> Rx_skbuff r' ! j = Rx_skbuff r ! j)"

lemma alloc_rx_skb_spec:
  assumes "rx_bal T M S (r, d)" "i < rx_n r" "Rx_skbuff r ! i = None" "alloc_rx_skb K i b (r, d) = (ok, r', d')"
  shows "rx_bal T M S (r', d') \<and> refilled i ok r r' \<and> rx_conf d d' \<and> rx_stack d' = rx_stack d"
proof -
  obtain o1 d1 where a: "rx_alloc K b (rx_buf_sz d + RTK_RX_ALIGN) d = (o1, d1)" by (cases "rx_alloc K b (rx_buf_sz d + RTK_RX_ALIGN) d")
  note k = rx_alloc_keeps [OF a]
  have z: "rx_size_ok r" and i: "i < length (Rx_skbuff r)" using assms(1,2) by (auto simp: rx_bal_def rx_size_ok_def)
  have c: "rx_buf_sz d1 = rx_buf_sz d" "rx_type3 d1 = rx_type3 d" using k(1) by (simp_all add: rx_conf_def)
  show ?thesis
  proof (cases o1)
    case None
    with a assms(4) have "ok = False" "r' = upd_desc i (make_unusable_by_asic (rx_type3 d1)) r" "d' = d1"
      by (auto simp: alloc_rx_skb_def)
    then show ?thesis using assms(1,3) k c None by (auto simp: rx_bal_def refilled_def rx_same_def)
  next
    case (Some s)
    show ?thesis
    proof (cases "rk_map K s (rx_buf_sz d1) (rx_w d1)")
      case (Pair mo w)
      show ?thesis
      proof (cases mo)
        case None
        with a Some Pair assms(4)
        have "ok = False" "r' = upd_desc i (make_unusable_by_asic (rx_type3 d1)) r" "d' = rx_kfree s (d1\<lparr>rx_w := w\<rparr>)"
          by (auto simp: alloc_rx_skb_def)
        then show ?thesis using assms(1,3) k c Some
          by (auto simp: rx_bal_def rx_kfree_def rx_conf_def refilled_def rx_same_def)
      next
        case m: (Some m)
        let ?r = "map_to_asic i m (rx_buf_sz d1) (r\<lparr>Rx_skbuff := (Rx_skbuff r)[i := Some s]\<rparr>)"
        from a Some Pair m assms(4)
        have e: "ok = True" "r' = ?r" "d' = d1\<lparr>rx_w := w, rx_mapped := add_mset (m, rx_buf_sz d1) (rx_mapped d1)\<rparr>"
          by (auto simp: alloc_rx_skb_def)
        note bm = bufs_map_to_asic [OF z assms(2), of m "rx_buf_sz d1" s]
        have "rx_bal T M S (r', d')"
          using assms(1,3) k c Some e(3) bm(2) buf_update [OF z assms(2) bm(1)] by (simp add: rx_bal_def e(2))
        moreover have "refilled i True r ?r"
          using i by (simp add: refilled_def rx_same_def map_to_asic_def)
        ultimately show ?thesis using k(1,4) e by (simp add: rx_conf_def)
      qed
    qed
  qed
qed

lemma rx_fill_loop_spec:
  assumes "rx_bal T M S (r, d)" "rx_fill_loop K b n (dirty_rx r + of_nat k) (r, d) = (cur, r', d')" "k + n \<le> rx_n r"
  shows "\<exists>j \<le> n. cur = dirty_rx r + of_nat (k + j) \<and> rx_bal T M S (r', d') \<and> rx_same r r' \<and> rx_conf d d' \<and> rx_stack d' = rx_stack d
    \<and> (\<forall>i. k \<le> i \<and> i < k + j \<longrightarrow> Rx_skbuff r' ! rent r i \<noteq> None)
    \<and> (\<forall>e. Rx_skbuff r ! e \<noteq> None \<longrightarrow> Rx_skbuff r' ! e = Rx_skbuff r ! e)"
  using assms
proof (induction n arbitrary: k r d)
  case 0
  then show ?case by auto
next
  case (Suc n)
  have z: "rx_size_ok r" using Suc.prems(1) by (simp add: rx_bal_def)
  have e: "unat ((dirty_rx r + of_nat k) mod num_rx_desc r) = rent r k" by (simp add: rent_def)
  have step: "\<exists>j \<le> Suc n. cur = dirty_rx r + of_nat (k + j) \<and> rx_bal T M S (r', d') \<and> rx_same r r' \<and> rx_conf d d' \<and> rx_stack d' = rx_stack d
      \<and> (\<forall>i. k \<le> i \<and> i < k + j \<longrightarrow> Rx_skbuff r' ! rent r i \<noteq> None)
      \<and> (\<forall>e. Rx_skbuff r ! e \<noteq> None \<longrightarrow> Rx_skbuff r' ! e = Rx_skbuff r ! e)"
    if s: "rx_bal T M S (r1, d1)" "rx_same r r1" "rx_conf d d1" "rx_stack d1 = rx_stack d" "Rx_skbuff r1 ! rent r k \<noteq> None"
      "\<forall>e. Rx_skbuff r ! e \<noteq> None \<longrightarrow> Rx_skbuff r1 ! e = Rx_skbuff r ! e"
      "rx_fill_loop K b n (dirty_rx r + of_nat k + 1) (r1, d1) = (cur, r', d')" for r1 d1
  proof -
    have q: "dirty_rx r1 = dirty_rx r" "num_rx_desc r1 = num_rx_desc r" "rent r1 = rent r"
      using s(2) by (simp_all add: rx_same_def rent_def fun_eq_iff)
    from Suc.IH [OF s(1), of "Suc k"] s(7) q Suc.prems(3)
    obtain j where j: "j \<le> n" "cur = dirty_rx r + of_nat (Suc k + j)" "rx_bal T M S (r', d')" "rx_same r1 r'" "rx_conf d1 d'"
      "rx_stack d' = rx_stack d1" "\<forall>i. Suc k \<le> i \<and> i < Suc k + j \<longrightarrow> Rx_skbuff r' ! rent r i \<noteq> None"
      "\<forall>e. Rx_skbuff r1 ! e \<noteq> None \<longrightarrow> Rx_skbuff r' ! e = Rx_skbuff r1 ! e"
      by (auto simp: ac_simps)
    have "Rx_skbuff r' ! rent r k \<noteq> None" using j(8) s(5) by auto
    then have "\<forall>i. k \<le> i \<and> i < k + Suc j \<longrightarrow> Rx_skbuff r' ! rent r i \<noteq> None"
      using j(7) by (metis Suc_leI add_Suc_right add_Suc le_neq_implies_less)
    moreover have "\<forall>e. Rx_skbuff r ! e \<noteq> None \<longrightarrow> Rx_skbuff r' ! e = Rx_skbuff r ! e" using j(8) s(6) by metis
    ultimately show ?thesis
      using j s rx_same_trans rx_conf_trans by (intro exI [of _ "Suc j"]) (auto simp: ac_simps)
  qed
  show ?case
  proof (cases "Rx_skbuff r ! rent r k")
    case (Some s)
    then show ?thesis using step [of r d] Suc.prems(1,2) e by (simp add: Let_def)
  next
    case None
    obtain ok r1 d1 where a: "alloc_rx_skb K (rent r k) b (r, d) = (ok, r1, d1)" by (metis surj_pair)
    note s = alloc_rx_skb_spec [OF Suc.prems(1) rent_lt [OF z] None a]
    have p: "\<forall>e. Rx_skbuff r ! e \<noteq> None \<longrightarrow> Rx_skbuff r1 ! e = Rx_skbuff r ! e"
      using s None unfolding refilled_def by metis
    show ?thesis
    proof (cases ok)
      case True
      then show ?thesis using step [of r1 d1] s p Suc.prems(2) e a None by (simp add: Let_def refilled_def)
    next
      case False
      then have "cur = dirty_rx r + of_nat k" "r' = r1" "d' = d1" using Suc.prems(2) e a None by (simp_all add: Let_def)
      then show ?thesis using s p by (intro exI [of _ 0]) (auto simp: refilled_def)
    qed
  qed
qed


section \<open>Delivery\<close>

lemma rx_conf_stats [simp]:
  "rx_conf d (d'\<lparr>rx_errors := a\<rparr>) = rx_conf d d'" "rx_conf d (d'\<lparr>rx_length_errors := a\<rparr>) = rx_conf d d'"
  "rx_conf d (d'\<lparr>rx_crc_errors := a\<rparr>) = rx_conf d d'" "rx_conf d (d'\<lparr>rx_dropped := a\<rparr>) = rx_conf d d'"
  by (simp_all add: rx_conf_def)

lemma rx_bal_stats [simp]:
  "rx_bal T M S (r, d\<lparr>rx_errors := a\<rparr>) = rx_bal T M S (r, d)" "rx_bal T M S (r, d\<lparr>rx_length_errors := a\<rparr>) = rx_bal T M S (r, d)"
  "rx_bal T M S (r, d\<lparr>rx_crc_errors := a\<rparr>) = rx_bal T M S (r, d)" "rx_bal T M S (r, d\<lparr>rx_dropped := a\<rparr>) = rx_bal T M S (r, d)"
  by (simp_all add: rx_bal_def)

lemma check_error_keeps:
  "rx_conf d (snd (check_rx_desc_error st d))" "rx_bal T M S (r, snd (check_rx_desc_error st d)) = rx_bal T M S (r, d)"
  by (simp_all add: check_rx_desc_error_def Let_def)

lemma try_rx_copy_spec:
  assumes "rx_bal T M S (r, d)" "i < rx_n r" "Rx_skbuff r ! i = Some s" "try_rx_copy K i s sz (r, d) = (copied, s', r', d')"
  shows "rx_same r r'" "rx_conf d d'" "Rx_skbuff r' = Rx_skbuff r" "RxDescPhyAddr r' = RxDescPhyAddr r" "\<not> copied \<longrightarrow> s' = s"
    "rx_bal T M (S + (if copied then {# s' #} else {#})) (r', d')" "rx_stack d' = rx_stack d"
proof -
  obtain o1 d1 where a: "rx_alloc K True (sz + RTK_RX_ALIGN) d = (o1, d1)" by (cases "rx_alloc K True (sz + RTK_RX_ALIGN) d")
  note k = rx_alloc_keeps [OF a]
  have c: "rx_buf_sz d1 = rx_buf_sz d" using k(1) by (simp add: rx_conf_def)
  show "rx_same r r'" "rx_conf d d'" "Rx_skbuff r' = Rx_skbuff r" "RxDescPhyAddr r' = RxDescPhyAddr r" "\<not> copied \<longrightarrow> s' = s"
      "rx_stack d' = rx_stack d"
    using assms(4) a k by (auto simp: try_rx_copy_def rx_same_def rx_conf_def split: if_splits option.splits)
  show "rx_bal T M (S + (if copied then {# s' #} else {#})) (r', d')"
    using assms(1,4) a k c by (auto simp: try_rx_copy_def rx_bal_def split: if_splits option.splits)
qed

text \<open>
  The buffer leaves the ring for the stack, or its copy does.
\<close>

lemma rx_deliver_spec:
  assumes "rx_bal T M S (r, d)" "i < rx_n r" "Rx_skbuff r ! i = Some s" "sz \<le> rx_buf_sz d" "rx_deliver K i s sz (r, d) = (r', d')"
  shows "rx_bal T M S (r', d') \<and> rx_same r r' \<and> rx_conf d d' \<and> (\<forall>j. j \<noteq> i \<longrightarrow> Rx_skbuff r' ! j = Rx_skbuff r ! j)"
proof -
  obtain c s1 r1 d1 where t: "try_rx_copy K i s sz (r, d) = (c, s1, r1, d1)" by (metis surj_pair)
  note k = try_rx_copy_spec [OF assms(1-3) t]
  have b: "rx_buf_sz d1 = rx_buf_sz d" using k(2) by (simp add: rx_conf_def)
  let ?r = "if c then r1 else r1\<lparr>Rx_skbuff := (Rx_skbuff r1)[i := None]\<rparr>"
  let ?d = "if c then d1 else rx_unmap (RxDescPhyAddr r1 ! i) d1"
  have z: "rx_size_ok r1" "i < rx_n r1" using k(1,6) assms(2) by (auto simp: rx_bal_def rx_same_def)
  have bal: "rx_size_ok ?r \<and> rx_mapped ?d = M + buf_maps (rx_buf_sz d) ?r \<and>
      mset (rx_alloced ?d) = mset (rx_freed ?d) + image_mset rp_skb (mset (rx_stack ?d)) + S + {# s1 #} + buf_skbs ?r"
  proof (cases c)
    case True
    then show ?thesis using k(6) b by (simp add: rx_bal_def)
  next
    case False
    have "buf_maps (rx_buf_sz d) r1 = add_mset (RxDescPhyAddr r1 ! i, rx_buf_sz d) (buf_maps (rx_buf_sz d) (r1\<lparr>Rx_skbuff := (Rx_skbuff r1)[i := None]\<rparr>))"
      "buf_skbs r1 = add_mset s (buf_skbs (r1\<lparr>Rx_skbuff := (Rx_skbuff r1)[i := None]\<rparr>))"
      using buf_update [OF z bufs_upd(2) [OF z]] k(3) assms(3) by simp_all
    then show ?thesis using False k(5,6) b z(1) by (simp add: rx_bal_def rx_unmap_def rx_size_ok_def)
  qed
  have st: "rx_stack ?d = rx_stack d" "rx_conf d ?d" "rx_same r ?r" "\<forall>j. j \<noteq> i \<longrightarrow> Rx_skbuff ?r ! j = Rx_skbuff r ! j"
    using k(1,2,3,7) by (auto simp: rx_unmap_def rx_conf_def rx_same_def)
  have le: "grown T (rx_buf_sz d) (rx_stack d)" using assms(1) by (simp add: rx_bal_def)
  let ?x = "RxDescArray ?r ! i" and ?frame = "take (unat sz) (rx_data ?d s1)"
  define pkt where "pkt = \<lparr>rp_skb = s1, rp_len = sz, rp_csum_ok = (rx_chksum ?d \<and> rx_csum (rx_type3 ?d) ?x),
    rp_vlan = rx_vlan_tag (rd_opts2 ?x), rp_hash = rtl8125_rx_hash (rx_tp ?d) (rd_header_info ?x) (rd_rss_result ?x),
    rp_data = ?frame, rp_ring = rr_index ?r\<rparr>"
  have e: "r' = upd_desc i (\<lambda>x. x\<lparr>rd_opts2 := 0\<rparr>) ?r"
      "d' = ?d\<lparr>rx_multicast := (if rk_multicast K ?frame then rx_multicast ?d + 1 else rx_multicast ?d), rx_stack := rx_stack ?d @ [pkt], rx_bytes := rx_bytes ?d + ucast sz, rx_packets := rx_packets ?d + 1\<rparr>"
      "rp_skb pkt = s1" "rp_len pkt = sz"
    using assms(5) t by (auto simp: rx_deliver_def Let_def pkt_def split: if_splits)
  have bb: "rx_buf_sz ?d = rx_buf_sz d" using st(2) by (simp add: rx_conf_def)
  show ?thesis
    using bal st grown_snoc [OF le] e assms(4) bb by (auto simp: rx_bal_def rx_conf_def rx_same_def)
qed


declare rx_loop.simps(2) [simp del]

text \<open>
  One pass of the loop, by cases; \<open>counted\<close> is the device after the error counters.
\<close>

definition counted :: "u32 \<Rightarrow> 'w rx_dev \<Rightarrow> 'w rx_dev" where
  "counted st d = (case check_rx_desc_error st d of (err, d1) \<Rightarrow> if err then d1\<lparr>rx_errors := rx_errors d1 + 1\<rparr> else d1)"

lemma rx_loop_cases:
  assumes entry: "unat (cur mod num_rx_desc r) = entry" and d1: "d1 = counted (rd_opts1 (RxDescArray r ! entry)) d"
  obtains (stop) d2 where "rx_loop K (Suc left) cur (r, d) = (cur, r, d2)" "d2 = d \<or> d2 = d1"
  | (skip) "rx_loop K (Suc left) cur (r, d) = rx_loop K left (cur + 1) (upd_desc entry (mark_to_asic (rx_buf_sz d1)) r, d1)"
  | (fragment) "rx_loop K (Suc left) cur (r, d) = rx_loop K left cur (upd_desc entry (mark_to_asic (rx_buf_sz d1)) r,
        d1\<lparr>rx_dropped := rx_dropped d1 + 1, rx_length_errors := rx_length_errors d1 + 1\<rparr>)"
  | (deliver) s sz where "rx_loop K (Suc left) cur (r, d) = rx_loop K left (cur + 1) (rx_deliver K entry s sz (r, d1))"
      "Rx_skbuff r ! entry = Some s" "sz \<le> rx_buf_sz d1"
proof -
  let ?st = "rd_opts1 (RxDescArray r ! entry)"
  obtain err d0 where c: "check_rx_desc_error ?st d = (err, d0)" by (cases "check_rx_desc_error ?st d")
  have d0: "d1 = (if err then d0\<lparr>rx_errors := rx_errors d0 + 1\<rparr> else d0)" using c d1 by (simp add: counted_def)
  let ?sz = "(?st AND 0x3fff) - (if f_rxfcs d1 then 0 else 4)"
  have l: "rx_loop K (Suc left) cur (r, d) =
     (if ?st AND DescOwn \<noteq> 0 then (cur, r, d)
      else if err \<and> \<not> f_rxall d1 then rx_loop K left (cur + 1) (upd_desc entry (mark_to_asic (rx_buf_sz d1)) r, d1)
      else if fragmented_frame (rx_type3 d1) ?st \<or> rx_buf_sz d1 < ?sz
      then rx_loop K left cur (upd_desc entry (mark_to_asic (rx_buf_sz d1)) r,
             d1\<lparr>rx_dropped := rx_dropped d1 + 1, rx_length_errors := rx_length_errors d1 + 1\<rparr>)
      else case Rx_skbuff r ! entry of None \<Rightarrow> (cur, r, d1)
             | Some s \<Rightarrow> rx_loop K left (cur + 1) (rx_deliver K entry s ?sz (r, d1)))"
    using c unfolding d0
    by (cases err; cases "Rx_skbuff r ! entry") (simp_all add: rx_loop.simps(2) Let_def entry)
  consider "?st AND DescOwn \<noteq> 0" | "?st AND DescOwn = 0" "err \<and> \<not> f_rxall d1"
    | "?st AND DescOwn = 0" "\<not> (err \<and> \<not> f_rxall d1)" "fragmented_frame (rx_type3 d1) ?st \<or> rx_buf_sz d1 < ?sz"
    | "?st AND DescOwn = 0" "\<not> (err \<and> \<not> f_rxall d1)" "\<not> (fragmented_frame (rx_type3 d1) ?st \<or> rx_buf_sz d1 < ?sz)"
    by blast
  then show thesis
  proof cases
    case 1
    then show thesis using l by (intro stop [of d]) simp_all
  next
    case 2
    then show thesis using l by (intro skip) simp
  next
    case 3
    then show thesis by (intro fragment) (simp only: l if_False if_True not_not simp_thms)
  next
    case 4
    have e: "rx_loop K (Suc left) cur (r, d) = (case Rx_skbuff r ! entry of None \<Rightarrow> (cur, r, d1)
             | Some s \<Rightarrow> rx_loop K left (cur + 1) (rx_deliver K entry s ?sz (r, d1)))"
      using 4 by (simp only: l if_False if_True not_not simp_thms)
    show thesis
    proof (cases "Rx_skbuff r ! entry")
      case None
      then show thesis using e by (intro stop [of d1]) simp_all
    next
      case (Some s)
      have "?sz \<le> rx_buf_sz d1" using 4(3) by (simp only: de_Morgan_disj not_less)
      then show thesis using e Some by (intro deliver [of s ?sz]) simp_all
    qed
  qed
qed

lemma counted_keeps: "rx_conf d (counted st d)" "rx_bal T M S (r, counted st d) = rx_bal T M S (r, d)"
  using check_error_keeps(1) [of d st] check_error_keeps(2) [of T M S r st d] by (auto simp: counted_def split: prod.splits)

lemma rx_loop_spec:
  assumes "rx_bal T M S (r, d)" "k + left \<le> rx_n r" "\<forall>i. k \<le> i \<and> i < rx_n r \<longrightarrow> Rx_skbuff r ! rent r i \<noteq> None"
    "rx_loop K left (dirty_rx r + of_nat k) (r, d) = (cur, r', d')"
  shows "\<exists>j \<le> left. cur = dirty_rx r + of_nat (k + j) \<and> rx_bal T M S (r', d') \<and> rx_same r r' \<and> rx_conf d d'
    \<and> (\<forall>i. k + j \<le> i \<and> i < rx_n r \<longrightarrow> Rx_skbuff r' ! rent r i \<noteq> None)"
  using assms
proof (induction left arbitrary: k r d)
  case 0
  then show ?case by auto
next
  case (Suc left)
  have z: "rx_size_ok r" using Suc.prems(1) by (simp add: rx_bal_def)
  let ?e = "rent r k"
  have e: "unat ((dirty_rx r + of_nat k) mod num_rx_desc r) = ?e" by (simp add: rent_def)
  define d1 where "d1 = counted (rd_opts1 (RxDescArray r ! ?e)) d"
  have k1: "rx_conf d d1" "rx_bal T M S (r, d1)"
    using Suc.prems(1) by (simp_all add: d1_def counted_keeps)
  have step: ?case
    if s: "rx_bal T M S (r1, d2)" "rx_same r r1" "rx_conf d d2" "k + m + left \<le> rx_n r"
      "\<forall>i. k + m \<le> i \<and> i < rx_n r \<longrightarrow> Rx_skbuff r1 ! rent r i \<noteq> None" "m \<le> 1"
      "rx_loop K left (dirty_rx r + of_nat (k + m)) (r1, d2) = (cur, r', d')" for r1 d2 m
  proof -
    have q: "dirty_rx r1 = dirty_rx r" "num_rx_desc r1 = num_rx_desc r" "rent r1 = rent r"
      using s(2) by (simp_all add: rx_same_def rent_def fun_eq_iff)
    obtain j where "j \<le> left" "cur = dirty_rx r + of_nat (k + m + j)" "rx_bal T M S (r', d')" "rx_same r1 r'" "rx_conf d2 d'"
      "\<forall>i. k + m + j \<le> i \<and> i < rx_n r \<longrightarrow> Rx_skbuff r' ! rent r i \<noteq> None"
      using Suc.IH [OF s(1), of "k + m"] s(4,5,7) q by auto
    then show ?thesis
      using s(2,3,6) rx_same_trans rx_conf_trans by (intro exI [of _ "m + j"]) (auto simp: ac_simps)
  qed
  show ?case
  proof (cases K left rule: rx_loop_cases [OF e d1_def, case_names stop skip fragment deliver])
    case (stop d2)
    then show ?thesis using Suc.prems(1,3,4) k1 by (intro exI [of _ 0]) auto
  next
    case skip
    then show ?thesis
      using step [of "upd_desc ?e (mark_to_asic (rx_buf_sz d1)) r" d1 1] Suc.prems(2-4) k1 by (simp add: rx_same_def ac_simps)
  next
    case fragment
    then show ?thesis
      using step [of "upd_desc ?e (mark_to_asic (rx_buf_sz d1)) r"
          "d1\<lparr>rx_dropped := rx_dropped d1 + 1, rx_length_errors := rx_length_errors d1 + 1\<rparr>" 0] Suc.prems(2-4) k1
      by (simp add: rx_same_def)
  next
    case (deliver s sz)
    obtain r1 d2 where rd: "rx_deliver K ?e s sz (r, d1) = (r1, d2)" by (cases "rx_deliver K ?e s sz (r, d1)")
    have sp: "rx_bal T M S (r1, d2)" "rx_same r r1" "rx_conf d1 d2" "\<forall>j. j \<noteq> ?e \<longrightarrow> Rx_skbuff r1 ! j = Rx_skbuff r ! j"
      using rx_deliver_spec [OF k1(2) rent_lt [OF z] deliver(2,3) rd] by blast+
    have "\<forall>i. k + 1 \<le> i \<and> i < rx_n r \<longrightarrow> Rx_skbuff r1 ! rent r i \<noteq> None"
      using sp(4) Suc.prems(2,3) rent_inj [OF z] by (metis Suc_eq_plus1 Suc_leD add_lessD1 less_Suc_eq_le not_less_eq_eq order.strict_trans2)
    then show ?thesis
      using step [of r1 d2 1] deliver(1) rd sp rx_conf_trans [OF k1(1)] Suc.prems(2,4) by (simp add: ac_simps)
  qed
qed


section \<open>The interrupt handler\<close>

lemma rx_cur_pos: "cur_rx r = dirty_rx r + of_nat (rused r)"
  by (simp add: rused_def)

lemma rused_add:
  assumes "m \<le> 1024" "c = dirty_rx r + of_nat m"
  shows "unat (c - dirty_rx r) = m"
  using assms by (simp add: unat_of_nat)

lemma rx_left_eq:
  assumes "rx_ring_ok r"
  shows "unat (min (num_rx_desc r + dirty_rx r - cur_rx r) budget) = min (rx_n r - rused r) (unat budget)"
proof -
  have eq: "num_rx_desc r + dirty_rx r - cur_rx r = num_rx_desc r - (cur_rx r - dirty_rx r)" by simp
  have le: "cur_rx r - dirty_rx r \<le> num_rx_desc r"
    using assms by (simp add: rx_ring_ok_def rused_def word_le_nat_alt)
  have "unat (num_rx_desc r + dirty_rx r - cur_rx r) = rx_n r - rused r"
    by (simp only: eq unat_sub [OF le] rused_def)
  then show ?thesis by (simp add: min_def word_le_nat_alt)
qed

lemma rx_ring_advance:
  assumes "rx_size_ok r" "j \<le> m" "m \<le> rx_n r" "cur_rx r = dirty_rx r + of_nat m"
    "\<forall>i. m \<le> i \<and> i < rx_n r \<longrightarrow> Rx_skbuff r ! rent r i \<noteq> None" "\<forall>i < j. Rx_skbuff r ! rent r i \<noteq> None"
  shows "rx_ring_ok (r\<lparr>dirty_rx := dirty_rx r + of_nat j\<rparr>)"
proof -
  let ?r = "r\<lparr>dirty_rx := dirty_rx r + of_nat j\<rparr>"
  have z: "rx_size_ok ?r" using assms(1) by (simp add: rx_size_ok_def)
  have n: "m \<le> 1024" using assms(1,3) by (simp add: rx_size_ok_def)
  have "cur_rx ?r = dirty_rx ?r + of_nat (m - j)" using assms(2,4) by (simp add: of_nat_diff)
  then have u: "rused ?r = m - j" using rused_add [of "m - j" _ ?r] n by (simp add: rused_def)
  have e: "rent ?r i = rent r (j + i)" for i by (simp add: rent_def ac_simps)
  have w: "rent r (i + rx_n r) = rent r i" for i using assms(1) by (simp add: rent_eq flip: add.assoc)
  have "Rx_skbuff r ! rent r (j + i) \<noteq> None" if "m - j \<le> i" "i < rx_n r" for i
  proof (cases "j + i < rx_n r")
    case True
    then show ?thesis using assms(5) that(1) by auto
  next
    case False
    then have "rent r (j + i) = rent r (j + i - rx_n r)" using w [of "j + i - rx_n r"] by simp
    then show ?thesis using assms(6) that(2) False by auto
  qed
  then show ?thesis using z u assms(3) by (simp add: rx_ring_ok_def e)
qed

lemma rx_interrupt_spec:
  fixes q d
  defines "r \<equiv> rx_rings d ! q"
  assumes "rx_ring_ok r" "rx_bal T M S (r, d)" "rx_interrupt K q budget d = (cnt, d')"
  obtains r' where "rx_rings d' = (rx_rings d)[q := r']" "rx_ring_ok r'" "rx_bal T M S (r', d')" "num_rx_desc r' = num_rx_desc r"
    "rr_index r' = rr_index r" "rx_buf_sz d' = rx_buf_sz d" "unat cnt \<le> unat budget"
proof -
  define lft where "lft = unat (min (num_rx_desc r + dirty_rx r - cur_rx r) budget)"
  have z: "rx_size_ok r" "rused r \<le> rx_n r" and nz: "RxDescArray r \<noteq> []"
    and pos: "\<forall>i. rused r \<le> i \<and> i < rx_n r \<longrightarrow> Rx_skbuff r ! rent r i \<noteq> None"
    using assms(2) by (auto simp: rx_ring_ok_def rx_size_ok_def)
  obtain cur r1 d1 where l: "rx_loop K lft (cur_rx r) (r, d) = (cur, r1, d1)" by (metis surj_pair)
  have le: "rused r + lft \<le> rx_n r" using rx_left_eq [OF assms(2), of budget] z(2) unfolding lft_def by linarith
  from rx_loop_spec [OF assms(3) le pos l [unfolded rx_cur_pos [of r]]]
  obtain j where j: "j \<le> lft" "cur = dirty_rx r + of_nat (rused r + j)" "rx_bal T M S (r1, d1)" "rx_same r r1" "rx_conf d d1"
    "\<forall>i. rused r + j \<le> i \<and> i < rx_n r \<longrightarrow> Rx_skbuff r1 ! rent r i \<noteq> None" by blast
  let ?r1 = "r1\<lparr>cur_rx := cur\<rparr>" and ?m = "rused r + j"
  have q1: "dirty_rx ?r1 = dirty_rx r" "num_rx_desc ?r1 = num_rx_desc r" "rent ?r1 = rent r" "cur_rx r1 = cur_rx r" "rr_index ?r1 = rr_index r"
    using j(4) by (simp_all add: rx_same_def rent_def fun_eq_iff)
  have b1: "rx_bal T M S (?r1, d1)" using j(3) by (simp add: rx_bal_def rx_size_ok_def buf_maps_def buf_skbs_def bufs_def)
  have m: "?m \<le> rx_n r" "?m \<le> 1024" using le j(1) z by (auto simp: rx_size_ok_def)
  obtain c2 r2 d2 where f: "rx_fill_loop K True ?m (dirty_rx r) (?r1, d1) = (c2, r2, d2)" by (metis surj_pair)
  obtain j2 where j2: "j2 \<le> ?m" "c2 = dirty_rx r + of_nat j2" "rx_bal T M S (r2, d2)" "rx_same ?r1 r2" "rx_conf d1 d2"
    "\<forall>i < j2. Rx_skbuff r2 ! rent r i \<noteq> None" "\<forall>e. Rx_skbuff r1 ! e \<noteq> None \<longrightarrow> Rx_skbuff r2 ! e = Rx_skbuff r1 ! e"
    using rx_fill_loop_spec [OF b1, of K True ?m 0 c2 r2 d2] f q1 m by auto
  have q2: "dirty_rx r2 = dirty_rx r" "num_rx_desc r2 = num_rx_desc r" "rent r2 = rent r" "cur_rx r2 = cur" "rr_index r2 = rr_index r"
    "rx_size_ok r2"
    using j2(3,4) q1 by (simp_all add: rx_same_def rent_def fun_eq_iff rx_bal_def)
  let ?r' = "r2\<lparr>dirty_rx := dirty_rx r + of_nat j2\<rparr>"
  have "rx_ring_ok ?r'"
    using rx_ring_advance [OF q2(6) j2(1)] m(1) q2 j(2,6) j2(6,7) by auto
  moreover have d': "cnt = of_nat j" "d' = d2\<lparr>rx_rings := (rx_rings d2)[q := ?r']\<rparr>"
    using assms(4) nz l f rused_add [OF m(2) j(2)] q2(1) j2(2) q1(1,4) j(2)
    by (auto simp: rx_interrupt_def Let_def rx_fill_def r_def [symmetric] lft_def [symmetric] q1(1) rused_def)
  moreover have "rx_bal T M S (?r', d')"
    using j2(3) by (simp add: d'(2) rx_bal_def rx_size_ok_def buf_maps_def buf_skbs_def bufs_def)
  moreover have "unat cnt \<le> unat budget"
    using j(1) m d'(1) by (simp add: lft_def unat_of_nat min_def word_le_nat_alt split: if_splits)
  moreover have "rx_rings d2 = rx_rings d" "rx_buf_sz d2 = rx_buf_sz d" using j(5) j2(5) by (simp_all add: rx_conf_def)
  ultimately show thesis using q2 by (intro that [of ?r']) auto
qed


section \<open>The whole device\<close>

definition rx_inv :: "rx_pkt list \<Rightarrow> 'w rx_dev \<Rightarrow> bool" where
  "rx_inv T d \<longleftrightarrow> list_all rx_size_ok (rx_rings d) \<and> rx_mapped d = sum_list (map (buf_maps (rx_buf_sz d)) (rx_rings d))
     \<and> mset (rx_alloced d) = mset (rx_freed d) + image_mset rp_skb (mset (rx_stack d)) + sum_list (map buf_skbs (rx_rings d))
     \<and> grown T (rx_buf_sz d) (rx_stack d)"

abbreviation other_maps :: "nat \<Rightarrow> 'w rx_dev \<Rightarrow> (u64 \<times> u32) multiset" where
  "other_maps q d \<equiv> sum_others q (buf_maps (rx_buf_sz d)) (rx_rings d)"

abbreviation other_skbs :: "nat \<Rightarrow> 'w rx_dev \<Rightarrow> nat multiset" where
  "other_skbs q d \<equiv> sum_others q buf_skbs (rx_rings d)"

lemma rx_inv_bal:
  assumes "rx_inv T d" "q < length (rx_rings d)"
  shows "rx_bal T (other_maps q d) (other_skbs q d) (rx_rings d ! q, d)"
  using assms sum_others [OF assms(2), of "buf_maps (rx_buf_sz d)"] sum_others [OF assms(2), of buf_skbs]
  by (simp add: rx_inv_def rx_bal_def list_all_length ac_simps)

lemma rx_bal_inv:
  assumes "rx_inv T d" "q < length (rx_rings d)" "rx_bal T (other_maps q d) (other_skbs q d) (r', d')"
    "rx_rings d' = (rx_rings d)[q := r']" "rx_buf_sz d' = rx_buf_sz d"
  shows "rx_inv T d'"
proof -
  have "list_all rx_size_ok (rx_rings d')"
    using assms(1,3,4) set_update_subset_insert [of "rx_rings d" q r'] by (auto simp: rx_inv_def rx_bal_def list_all_iff)
  then show ?thesis
    using assms(3-5) by (simp add: rx_inv_def rx_bal_def sum_list_update_others [OF assms(2)] ac_simps)
qed

lemma rx_clear_slot_spec:
  assumes "rx_bal T M S (r, d)" "i < rx_n r" "rx_clear_slot i (r, d) = (r', d')"
  shows "rx_bal T M S (r', d') \<and> rx_same r r' \<and> rx_conf d d' \<and> rx_stack d' = rx_stack d
    \<and> Rx_skbuff r' ! i = None \<and> (\<forall>j. j \<noteq> i \<longrightarrow> Rx_skbuff r' ! j = Rx_skbuff r ! j)"
proof (cases "Rx_skbuff r ! i")
  case None
  then show ?thesis using assms by (simp add: rx_clear_slot_def)
next
  case (Some s)
  let ?r = "r\<lparr>Rx_skbuff := (Rx_skbuff r)[i := None]\<rparr>"
  have z: "rx_size_ok r" using assms(1) by (simp add: rx_bal_def)
  have i: "i < length (Rx_skbuff r)" using z assms(2) by (simp add: rx_size_ok_def)
  have u: "buf_maps sz r = add_mset (RxDescPhyAddr r ! i, sz) (buf_maps sz ?r)" "buf_skbs r = add_mset s (buf_skbs ?r)" for sz
    using buf_update [OF z assms(2) bufs_upd(2) [OF z assms(2)]] Some by simp_all
  have e: "r' = upd_desc i (make_unusable_by_asic (rx_type3 d)) ?r" "d' = rx_kfree s (rx_unmap (RxDescPhyAddr r ! i) d)"
    using assms(3) Some by (simp_all add: rx_clear_slot_def free_rx_skb_def)
  have "rx_bal T M S (r', d')"
    using assms(1) u z unfolding e by (simp add: rx_bal_def rx_kfree_def rx_unmap_def) (simp add: rx_size_ok_def)
  then show ?thesis using i e by (simp add: rx_same_def rx_conf_def rx_kfree_def rx_unmap_def)
qed

lemma rx_clear_fold:
  assumes "rx_bal T M S (r, d)" "m \<le> rx_n r" "fold rx_clear_slot [0 ..< m] (r, d) = (r', d')"
  shows "rx_bal T M S (r', d') \<and> rx_same r r' \<and> rx_conf d d' \<and> rx_stack d' = rx_stack d \<and> (\<forall>i < m. Rx_skbuff r' ! i = None)"
  using assms
proof (induction m arbitrary: r' d')
  case 0
  then show ?case by simp
next
  case (Suc m)
  obtain r1 d1 where f: "fold rx_clear_slot [0 ..< m] (r, d) = (r1, d1)" by (cases "fold rx_clear_slot [0 ..< m] (r, d)")
  have ih: "rx_bal T M S (r1, d1)" "rx_same r r1" "rx_conf d d1" "rx_stack d1 = rx_stack d" "\<forall>i < m. Rx_skbuff r1 ! i = None"
    using Suc.IH [OF Suc.prems(1) _ f] Suc.prems(2) by simp_all
  have "m < rx_n r1" using ih(2) Suc.prems(2) by (simp add: rx_same_def)
  with rx_clear_slot_spec [OF ih(1), of m r' d'] Suc.prems(3) f ih
  have s: "rx_bal T M S (r', d')" "rx_same r1 r'" "rx_conf d1 d'" "rx_stack d' = rx_stack d1" "Rx_skbuff r' ! m = None"
      "\<forall>j. j \<noteq> m \<longrightarrow> Rx_skbuff r' ! j = Rx_skbuff r1 ! j" by simp_all
  have "\<forall>i < Suc m. Rx_skbuff r' ! i = None" using s(5,6) ih(5) by (metis less_antisym)
  then show ?case using s ih rx_same_trans rx_conf_trans by metis
qed

definition ring_empty :: "rx_ring \<Rightarrow> bool" where
  "ring_empty r \<longleftrightarrow> (\<forall>i < rx_n r. Rx_skbuff r ! i = None)"

lemma ring_empty_bufs:
  assumes "rx_size_ok r" "ring_empty r"
  shows "buf_maps sz r = {#}" "buf_skbs r = {#}"
proof -
  have "fst x = None" if "x \<in> set (bufs r)" for x
    using that assms by (auto simp: in_set_conv_nth length_bufs bufs_nth ring_empty_def)
  then have "filter (\<lambda>(s, a). s \<noteq> None) (bufs r) = []" by (fastforce simp: filter_empty_conv)
  then show "buf_maps sz r = {#}" "buf_skbs r = {#}" by (simp_all only: buf_maps_def buf_skbs_def) simp_all
qed

definition rx_keep :: "'w rx_dev \<Rightarrow> 'w rx_dev \<Rightarrow> bool" where
  "rx_keep d d' \<longleftrightarrow> length (rx_rings d') = length (rx_rings d) \<and> rx_buf_sz d' = rx_buf_sz d \<and> rx_stack d' = rx_stack d"

lemma rx_clear_ring_spec:
  assumes "rx_inv T d" "q < length (rx_rings d)"
  shows "rx_inv T (rx_clear_ring q d)" "rx_keep d (rx_clear_ring q d)" "ring_empty (rx_rings (rx_clear_ring q d) ! q)"
    "\<And>i. i \<noteq> q \<Longrightarrow> rx_rings (rx_clear_ring q d) ! i = rx_rings d ! i"
proof -
  let ?r = "rx_rings d ! q"
  obtain r1 d1 where f: "fold rx_clear_slot [0 ..< rx_n ?r] (?r, d) = (r1, d1)" by (cases "fold rx_clear_slot [0 ..< rx_n ?r] (?r, d)")
  note s = rx_clear_fold [OF rx_inv_bal [OF assms] order_refl f]
  have e: "rx_clear_ring q d = d1\<lparr>rx_rings := (rx_rings d)[q := r1]\<rparr>"
    using f s by (simp add: rx_clear_ring_def Let_def rx_conf_def)
  have b: "rx_bal T (other_maps q d) (other_skbs q d) (r1, rx_clear_ring q d)"
    using conjunct1 [OF s] by (simp add: e rx_bal_def)
  show "rx_inv T (rx_clear_ring q d)"
    by (rule rx_bal_inv [OF assms b]) (use s in \<open>simp_all add: e rx_conf_def\<close>)
  show "rx_keep d (rx_clear_ring q d)" "\<And>i. i \<noteq> q \<Longrightarrow> rx_rings (rx_clear_ring q d) ! i = rx_rings d ! i"
    using s by (simp_all add: e rx_keep_def rx_conf_def)
  show "ring_empty (rx_rings (rx_clear_ring q d) ! q)"
    using s assms(2) by (auto simp: e ring_empty_def rx_same_def)
qed

lemma rx_clear_all:
  assumes "rx_inv T d" "m \<le> length (rx_rings d)"
  shows "rx_inv T (fold rx_clear_ring [0 ..< m] d) \<and> rx_keep d (fold rx_clear_ring [0 ..< m] d)
    \<and> (\<forall>i < m. ring_empty (rx_rings (fold rx_clear_ring [0 ..< m] d) ! i))"
  using assms(2)
proof (induction m)
  case 0
  then show ?case using assms(1) by (simp add: rx_keep_def)
next
  case (Suc m)
  let ?d = "fold rx_clear_ring [0 ..< m] d"
  have ih: "rx_inv T ?d" "rx_keep d ?d" "\<forall>i < m. ring_empty (rx_rings ?d ! i)" using Suc by simp_all
  have m: "m < length (rx_rings ?d)" using ih(2) Suc.prems by (simp add: rx_keep_def)
  note c = rx_clear_ring_spec [OF ih(1) m]
  have "\<forall>i < Suc m. ring_empty (rx_rings (rx_clear_ring m ?d) ! i)" using c(3,4) ih(3) by (metis less_antisym)
  then show ?case using c ih(2) by (simp add: rx_keep_def)
qed

lemma rx_clear_spec:
  assumes "rx_inv T d"
  shows "rx_inv T (rx_clear d)" "rx_keep d (rx_clear d)" "list_all ring_empty (rx_rings (rx_clear d))" "rx_mapped (rx_clear d) = {#}"
    "mset (rx_alloced (rx_clear d)) = mset (rx_freed (rx_clear d)) + image_mset rp_skb (mset (rx_stack (rx_clear d)))"
proof -
  show i: "rx_inv T (rx_clear d)" and k: "rx_keep d (rx_clear d)" and e: "list_all ring_empty (rx_rings (rx_clear d))"
    using rx_clear_all [OF assms order_refl] by (auto simp: rx_clear_def rx_keep_def list_all_length)
  have "\<forall>r \<in> set (rx_rings (rx_clear d)). buf_maps sz r = {#} \<and> buf_skbs r = {#}" for sz
    using i e ring_empty_bufs by (auto simp: rx_inv_def list_all_iff)
  then have "sum_list (map (buf_maps sz) (rx_rings (rx_clear d))) = {#}" "sum_list (map buf_skbs (rx_rings (rx_clear d))) = {#}" for sz
    by (simp_all cong: map_cong)
  then show "rx_mapped (rx_clear d) = {#}"
    "mset (rx_alloced (rx_clear d)) = mset (rx_freed (rx_clear d)) + image_mset rp_skb (mset (rx_stack (rx_clear d)))"
    using i by (simp_all add: rx_inv_def)
qed


section \<open>Initialisation\<close>

definition ring_full :: "rx_ring \<Rightarrow> bool" where
  "ring_full r \<longleftrightarrow> rx_ring_ok r \<and> (\<forall>i < rx_n r. Rx_skbuff r ! i \<noteq> None)"

lemma init_rx_ring_spec:
  assumes "rx_inv T d" "q < length (rx_rings d)" "ring_empty (rx_rings d ! q)" "dirty_rx (rx_rings d ! q) = 0" "cur_rx (rx_rings d ! q) = 0"
    "init_rx_ring K q d = (ok, d')"
  shows "rx_inv T d'" "rx_keep d d'" "ok \<Longrightarrow> ring_full (rx_rings d' ! q)" "\<And>i. i \<noteq> q \<Longrightarrow> rx_rings d' ! i = rx_rings d ! i"
proof -
  define r0 where "r0 = (rx_rings d ! q)\<lparr>Rx_skbuff := map (\<lambda>_. None) (Rx_skbuff (rx_rings d ! q))\<rparr>"
  let ?r = r0
  have r: "(rx_rings d ! q)\<lparr>Rx_skbuff := map (\<lambda>_. None) (Rx_skbuff (rx_rings d ! q))\<rparr> = ?r" by (simp add: r0_def)
  have r0: "num_rx_desc r0 = num_rx_desc (rx_rings d ! q)" "dirty_rx r0 = 0" "cur_rx r0 = 0" using assms(4,5) by (simp_all add: r0_def)
  have "bufs r0 = bufs (rx_rings d ! q)"
    using assms(1-3) by (auto simp: bufs_def r0_def rx_inv_def list_all_length rx_size_ok_def ring_empty_def intro!: nth_equalityI)
  then have b: "rx_bal T (other_maps q d) (other_skbs q d) (?r, d)"
    using rx_inv_bal [OF assms(1,2)] by (simp add: rx_bal_def buf_maps_def buf_skbs_def) (simp add: r0_def rx_size_ok_def)
  obtain c r1 d1 where f: "rx_fill_loop K False (rx_n ?r) 0 (?r, d) = (c, r1, d1)" by (metis surj_pair)
  obtain j where j: "j \<le> rx_n ?r" "c = of_nat j" "rx_bal T (other_maps q d) (other_skbs q d) (r1, d1)" "rx_same ?r r1" "rx_conf d d1"
    "rx_stack d1 = rx_stack d" "\<forall>i < j. Rx_skbuff r1 ! rent ?r i \<noteq> None"
    using rx_fill_loop_spec [OF b, of K False "rx_n ?r" 0 c r1 d1] f r0(2) by auto
  let ?r' = "if ok then upd_desc (unat (num_rx_desc r1 - 1)) mark_as_last_descriptor r1 else r1"
  have sm: "num_rx_desc r1 = num_rx_desc ?r" "dirty_rx r1 = 0" "cur_rx r1 = 0" "rx_rings d1 = rx_rings d" "rx_buf_sz d1 = rx_buf_sz d"
    using j(4,5) r0(2,3) by (simp_all add: rx_same_def rx_conf_def)
  have z: "rx_size_ok r1" using j(3) by (simp add: rx_bal_def)
  have ok: "ok \<longleftrightarrow> of_nat j = num_rx_desc r1" and d': "d' = d1\<lparr>rx_rings := (rx_rings d)[q := ?r']\<rparr>"
    using assms(6) f [unfolded r0(1)] j(2) sm r0(1) by (auto simp: init_rx_ring_def Let_def r rx_fill_def split: if_splits)
  have b': "rx_bal T (other_maps q d) (other_skbs q d) (?r', d')" using j(3) by (simp add: d' rx_bal_def)
  show "rx_inv T d'" by (rule rx_bal_inv [OF assms(1,2) b']) (simp_all add: d' sm)
  show "rx_keep d d'" "\<And>i. i \<noteq> q \<Longrightarrow> rx_rings d' ! i = rx_rings d ! i" using j(6) sm by (simp_all add: d' rx_keep_def)
  show "ring_full (rx_rings d' ! q)" if ok
  proof -
    have "unat (of_nat j :: u32) = j" using j(1) z sm(1) by (simp add: unat_of_nat rx_size_ok_def)
    then have "j = rx_n r1" using ok that by metis
    moreover have "rent r1 = rent ?r" using sm r0 by (simp add: rent_def fun_eq_iff)
    moreover have "rent ?r' = rent r1" by (simp add: rent_def fun_eq_iff)
    moreover have "rent r1 i = i" if "i < rx_n r1" for i using that rent_eq [OF z] sm(2) by simp
    ultimately show ?thesis
      using j(7) z sm that assms(2) by (simp add: d' ring_full_def rx_ring_ok_def rused_def)
  qed
qed

definition rx_ready :: "'w rx_dev \<Rightarrow> nat \<Rightarrow> bool" where
  "rx_ready d q \<longleftrightarrow> ring_empty (rx_rings d ! q) \<and> dirty_rx (rx_rings d ! q) = 0 \<and> cur_rx (rx_rings d ! q) = 0"

lemma init_rx_loop_spec:
  assumes "rx_inv T d" "\<forall>q \<in> set qs. q < length (rx_rings d) \<and> rx_ready d q" "distinct qs" "init_rx_loop K qs d = (ok, d')"
  shows "rx_inv T d' \<and> rx_keep d d' \<and> (ok \<longrightarrow> (\<forall>q \<in> set qs. ring_full (rx_rings d' ! q)))
    \<and> (\<forall>i. i \<notin> set qs \<longrightarrow> rx_rings d' ! i = rx_rings d ! i)"
  using assms
proof (induction qs arbitrary: d)
  case Nil
  then show ?case by (auto simp: rx_keep_def)
next
  case (Cons q qs)
  obtain ok1 d1 where i: "init_rx_ring K q d = (ok1, d1)" by (cases "init_rx_ring K q d")
  have q: "q < length (rx_rings d)" "rx_ready d q" using Cons.prems(2) by simp_all
  note s = init_rx_ring_spec [OF Cons.prems(1) q(1) _ _ _ i]
  have s1: "rx_inv T d1" "rx_keep d d1" "ok1 \<Longrightarrow> ring_full (rx_rings d1 ! q)" "\<And>i. i \<noteq> q \<Longrightarrow> rx_rings d1 ! i = rx_rings d ! i"
    using s q(2) by (simp_all add: rx_ready_def)
  show ?case
  proof (cases ok1)
    case False
    then show ?thesis using Cons.prems(4) i s1 by auto
  next
    case True
    have l: "init_rx_loop K qs d1 = (ok, d')" using Cons.prems(4) i True by simp
    have "rx_rings d1 ! q' = rx_rings d ! q'" if "q' \<in> set qs" for q'
      by (rule s1(4)) (use that Cons.prems(3) in auto)
    then have p: "\<forall>q' \<in> set qs. q' < length (rx_rings d1) \<and> rx_ready d1 q'"
      using Cons.prems(2) s1(2) by (simp add: rx_ready_def rx_keep_def)
    have "distinct qs" "q \<notin> set qs" using Cons.prems(3) by simp_all
    with Cons.IH [OF s1(1) p _ l] s1 True show ?thesis by (auto simp: rx_keep_def)
  qed
qed

text \<open>
  The state in which a device is initialised: no buffer, no mapping, room for its rings; every buffer
  it ever allocated was freed or handed to the stack.
\<close>

definition rx_down :: "'w rx_dev \<Rightarrow> bool" where
  "rx_down d \<longleftrightarrow> rx_mapped d = {#} \<and> mset (rx_alloced d) = mset (rx_freed d) + image_mset rp_skb (mset (rx_stack d))
     \<and> list_all (\<lambda>r. 0 < rx_n r \<and> rx_n r \<le> 1024 \<and> rx_n r dvd 2 ^ 32 \<and> rx_n r \<le> length (Rx_skbuff r)
          \<and> ring_empty r \<and> rx_n r \<le> length (RxDescPhyAddr r)) (rx_rings d)"

lemma init_rx_start:
  assumes "rx_down d"
  defines "d0 \<equiv> d\<lparr>rx_rings := map (\<lambda>i. rx_desc_init (init_rx_indexes i (rx_rings d ! i))) [0 ..< length (rx_rings d)]\<rparr>"
  shows "rx_inv (rx_stack d) d0" "\<forall>q < length (rx_rings d). rx_ready d0 q" "length (rx_rings d0) = length (rx_rings d)" "rx_stack d0 = rx_stack d"
proof -
  have r: "rx_size_ok (rx_desc_init (init_rx_indexes i (rx_rings d ! i))) \<and> ring_empty (rx_desc_init (init_rx_indexes i (rx_rings d ! i)))"
    if "i < length (rx_rings d)" for i
    using assms(1) that
    by (auto simp: rx_down_def list_all_length rx_size_ok_def ring_empty_def rx_desc_init_def init_rx_indexes_def)
  then have "\<forall>x \<in> set (rx_rings d0). rx_size_ok x \<and> buf_maps sz x = {#} \<and> buf_skbs x = {#}" for sz
    using ring_empty_bufs by (auto simp: d0_def)
  then have "sum_list (map (buf_maps sz) (rx_rings d0)) = {#}" "sum_list (map buf_skbs (rx_rings d0)) = {#}" "list_all rx_size_ok (rx_rings d0)" for sz
    by (simp_all add: list_all_iff cong: map_cong)
  then show "rx_inv (rx_stack d) d0" using assms(1) by (simp add: rx_inv_def) (simp add: d0_def rx_down_def)
  show "\<forall>q < length (rx_rings d). rx_ready d0 q" "length (rx_rings d0) = length (rx_rings d)" "rx_stack d0 = rx_stack d"
    using r assms(1) by (auto simp: d0_def rx_ready_def rx_desc_init_def init_rx_indexes_def rx_down_def list_all_length list_all_iff)
qed

lemma init_rx_spec:
  assumes "rx_down d" "init_rx K d = (ret, d')"
  shows "rx_inv (rx_stack d) d'" "ret = 0 \<Longrightarrow> list_all ring_full (rx_rings d')"
    "ret \<noteq> 0 \<Longrightarrow> ret = - ENOMEM \<and> list_all ring_empty (rx_rings d') \<and> rx_mapped d' = {#} \<and> mset (rx_alloced d') = mset (rx_freed d') + image_mset rp_skb (mset (rx_stack d))"
    "length (rx_rings d') = length (rx_rings d)" "rx_stack d' = rx_stack d" "rx_buf_sz d' = rx_buf_sz d"
proof -
  let ?d0 = "d\<lparr>rx_rings := map (\<lambda>i. rx_desc_init (init_rx_indexes i (rx_rings d ! i))) [0 ..< length (rx_rings d)]\<rparr>"
  note s = init_rx_start [OF assms(1)]
  obtain ok d1 where l: "init_rx_loop K [0 ..< length (rx_rings d)] ?d0 = (ok, d1)"
    by (cases "init_rx_loop K [0 ..< length (rx_rings d)] ?d0")
  have q: "\<forall>q \<in> set [0 ..< length (rx_rings d)]. q < length (rx_rings ?d0) \<and> rx_ready ?d0 q" using s(2,3) by simp
  have i: "rx_inv (rx_stack d) d1" "rx_keep ?d0 d1" "ok \<longrightarrow> (\<forall>q < length (rx_rings d). ring_full (rx_rings d1 ! q))"
    using init_rx_loop_spec [OF s(1) q distinct_upt l] by auto
  have e: "(ret, d') = (if ok then (0, d1) else (- ENOMEM, rx_clear d1))"
    using assms(2) l by (cases ok) (simp_all add: init_rx_def Let_def)
  note c = rx_clear_spec [OF i(1)]
  have st: "rx_stack d1 = rx_stack d" "length (rx_rings d1) = length (rx_rings d)" "rx_buf_sz d1 = rx_buf_sz d" using i(2) s(3,4) by (simp_all add: rx_keep_def)
  then have st': "rx_stack (rx_clear d1) = rx_stack d" "length (rx_rings (rx_clear d1)) = length (rx_rings d)" "rx_buf_sz (rx_clear d1) = rx_buf_sz d"
    using c(2) by (simp_all add: rx_keep_def)
  show "rx_inv (rx_stack d) d'" "ret = 0 \<Longrightarrow> list_all ring_full (rx_rings d')"
    "ret \<noteq> 0 \<Longrightarrow> ret = - ENOMEM \<and> list_all ring_empty (rx_rings d') \<and> rx_mapped d' = {#} \<and> mset (rx_alloced d') = mset (rx_freed d') + image_mset rp_skb (mset (rx_stack d))"
    "length (rx_rings d') = length (rx_rings d)" "rx_stack d' = rx_stack d" "rx_buf_sz d' = rx_buf_sz d"
    using e i c st st' by (auto simp: list_all_length split: if_splits)
qed

lemma rx_downI:
  assumes "rx_inv T d" "list_all ring_empty (rx_rings d)" "rx_mapped d = {#}"
    "mset (rx_alloced d) = mset (rx_freed d) + image_mset rp_skb (mset (rx_stack d))"
  shows "rx_down d"
  using assms by (auto simp: rx_down_def rx_inv_def list_all_iff rx_size_ok_def)

section \<open>Traffic\<close>

text \<open>
  What happens to a running device: the chip completes a descriptor it owns (it writes the descriptor
  and the contents of the buffer), the handler polls a ring, or the rings are cleared.
\<close>

datatype rx_call = RxChip nat nat rx_desc "u8 list" | RxPoll nat u32 | RxClear

definition rx_chip :: "nat \<Rightarrow> nat \<Rightarrow> rx_desc \<Rightarrow> u8 list \<Rightarrow> 'w rx_dev \<Rightarrow> 'w rx_dev" where
  "rx_chip q i x bytes d =
     (let r = rx_rings d ! q in
      if rd_opts1 (RxDescArray r ! i) AND DescOwn = 0 then d
      else case Rx_skbuff r ! i of
             None \<Rightarrow> d
           | Some s \<Rightarrow> d\<lparr>rx_rings := (rx_rings d)[q := upd_desc i (\<lambda>_. x) r], rx_data := (rx_data d)(s := bytes)\<rparr>)"

definition rx_call_step :: "'w rx_kern \<Rightarrow> rx_call \<Rightarrow> 'w rx_dev \<Rightarrow> 'w rx_dev" where
  "rx_call_step K c d = (case c of RxChip q i x bytes \<Rightarrow> rx_chip q i x bytes d | RxPoll q budget \<Rightarrow> snd (rx_interrupt K q budget d)
     | RxClear \<Rightarrow> rx_clear d)"

definition rx_run :: "'w rx_kern \<Rightarrow> rx_call list \<Rightarrow> 'w rx_dev \<Rightarrow> 'w rx_dev" where
  "rx_run K cs = fold (rx_call_step K) cs"

definition rx_traffic_ok :: "nat \<Rightarrow> rx_call \<Rightarrow> bool" where
  "rx_traffic_ok n c = (case c of RxChip q i x bytes \<Rightarrow> q < n | RxPoll q budget \<Rightarrow> q < n | RxClear \<Rightarrow> False)"

definition rx_live :: "nat \<Rightarrow> rx_pkt list \<Rightarrow> 'w rx_dev \<Rightarrow> bool" where
  "rx_live n T d \<longleftrightarrow> length (rx_rings d) = n \<and> rx_inv T d \<and> list_all rx_ring_ok (rx_rings d)"

lemma rx_live_upd:
  assumes "rx_live n T d" "q < n" "rx_bal T (other_maps q d) (other_skbs q d) (r', d')" "rx_rings d' = (rx_rings d)[q := r']"
    "rx_buf_sz d' = rx_buf_sz d" "rx_ring_ok r'"
  shows "rx_live n T d'"
proof -
  have "rx_inv T d'"
    by (rule rx_bal_inv [OF _ _ assms(3-5)]) (use assms(1,2) in \<open>simp_all add: rx_live_def\<close>)
  then show ?thesis using assms(1,4,6) set_update_subset_insert [of "rx_rings d" q r'] by (auto simp: rx_live_def list_all_iff)
qed

lemma rx_ring_ok_desc [simp]: "rx_ring_ok (upd_desc i f r) = rx_ring_ok r"
  by (simp add: rx_ring_ok_def rused_def rent_def)

lemma rx_chip_live:
  assumes "rx_live n T d" "q < n"
  shows "rx_live n T (rx_chip q i x bytes d)"
proof -
  let ?r = "rx_rings d ! q"
  have b: "rx_bal T (other_maps q d) (other_skbs q d) (?r, d)" and k: "rx_ring_ok ?r"
    using assms rx_inv_bal [of T d q] by (simp_all add: rx_live_def list_all_length)
  let ?r' = "upd_desc i (\<lambda>_. x) ?r"
  have "rx_live n T (d\<lparr>rx_rings := (rx_rings d)[q := ?r'], rx_data := (rx_data d)(s := bytes)\<rparr>)" for s
    by (rule rx_live_upd [OF assms, of ?r']) (use b k in \<open>simp_all add: rx_bal_def\<close>)
  then show ?thesis using assms(1) by (simp add: rx_chip_def Let_def split: option.splits)
qed

lemma rx_poll_live:
  assumes "rx_live n T d" "q < n"
  shows "rx_live n T (snd (rx_interrupt K q budget d))"
proof -
  let ?r = "rx_rings d ! q"
  have b: "rx_bal T (other_maps q d) (other_skbs q d) (?r, d)" and k: "rx_ring_ok ?r"
    using assms rx_inv_bal [of T d q] by (simp_all add: rx_live_def list_all_length)
  show ?thesis
    by (rule rx_interrupt_spec [OF k b surjective_pairing]) (use rx_live_upd [OF assms] in blast)
qed

interpretation rx_traffic: call_sequence "rx_call_step K" "rx_traffic_ok n" "rx_live n T" for K n T
  by unfold_locales (auto simp: rx_traffic_ok_def rx_call_step_def rx_chip_live rx_poll_live split: rx_call.splits)

interpretation rx_calls: call_sequence "rx_call_step K" "\<lambda>c. c = RxClear" "\<lambda>d. rx_inv T d" for K T
  by unfold_locales (simp add: rx_call_step_def rx_clear_spec)


text \<open>
  The initialisation gives every descriptor of every ring a buffer, or fails with \<open>-ENOMEM\<close> having
  released everything it had allocated and mapped.
\<close>

theorem rx_init_all_or_nothing:
  assumes "rx_down d" "init_rx K d = (ret, d')"
  shows "(ret = 0 \<and> list_all ring_full (rx_rings d') \<and> rx_mapped d' = sum_list (map (buf_maps (rx_buf_sz d')) (rx_rings d'))
      \<and> mset (rx_alloced d') = mset (rx_freed d') + image_mset rp_skb (mset (rx_stack d)) + sum_list (map buf_skbs (rx_rings d')))
    \<or> (ret = - ENOMEM \<and> list_all ring_empty (rx_rings d') \<and> rx_mapped d' = {#}
      \<and> mset (rx_alloced d') = mset (rx_freed d') + image_mset rp_skb (mset (rx_stack d)))"
  using init_rx_spec [OF assms] by (cases "ret = 0") (simp_all add: rx_inv_def)


section \<open>In-order delivery\<close>

text \<open>
  The packet the handler makes of the descriptor \<open>e\<close>: the length without the frame check sequence, the
  first bytes of the buffer, the tag, hash and checksum verdict of the descriptor.
\<close>

definition rx_size :: "'w rx_dev \<Rightarrow> rx_desc \<Rightarrow> u32" where
  "rx_size d x = (rd_opts1 x AND 0x3fff) - (if f_rxfcs d then 0 else 4)"

definition rx_frame :: "'w rx_dev \<Rightarrow> rx_ring \<Rightarrow> nat \<Rightarrow> rx_pkt" where
  "rx_frame d r e = (let x = RxDescArray r ! e; s = the (Rx_skbuff r ! e) in
     \<lparr>rp_skb = s, rp_len = rx_size d x, rp_csum_ok = (rx_chksum d \<and> rx_csum (rx_type3 d) x), rp_vlan = rx_vlan_tag (rd_opts2 x),
      rp_hash = rtl8125_rx_hash (rx_tp d) (rd_header_info x) (rd_rss_result x), rp_data = take (unat (rx_size d x)) (rx_data d s),
      rp_ring = rr_index r\<rparr>)"

text \<open>A descriptor the chip has completed with one whole frame that fits the buffer, and no error.\<close>

definition rx_good :: "'w rx_dev \<Rightarrow> rx_desc \<Rightarrow> bool" where
  "rx_good d x \<longleftrightarrow> rd_opts1 x AND DescOwn = 0 \<and> \<not> fst (check_rx_desc_error (rd_opts1 x) d)
     \<and> \<not> fragmented_frame (rx_type3 d) (rd_opts1 x) \<and> rx_size d x \<le> rx_buf_sz d"

definition rx_obs :: "'w rx_dev \<Rightarrow> 'w rx_dev \<Rightarrow> bool" where
  "rx_obs d d' \<longleftrightarrow> rx_conf d d' \<and> rx_data d' = rx_data d"

lemma rx_good_cong: "rx_obs d d' \<Longrightarrow> rx_good d' x = rx_good d x"
  by (simp add: rx_obs_def rx_conf_def rx_good_def rx_size_def check_rx_desc_error_def Let_def)

lemma rx_frame_cong:
  "\<lbrakk>rx_obs d d'; RxDescArray r' ! e = RxDescArray r ! e; Rx_skbuff r' ! e = Rx_skbuff r ! e; rr_index r' = rr_index r\<rbrakk>
     \<Longrightarrow> rx_frame d' r' e = rx_frame d r e"
  by (simp add: rx_frame_def rx_size_def rx_obs_def rx_conf_def Let_def)

text \<open>One pass of the loop over such a descriptor, without copying.\<close>

lemma rx_loop_good:
  assumes "rx_good d (RxDescArray r ! e)" "Rx_skbuff r ! e = Some s" "unat (cur mod num_rx_desc r) = e" "rx_copybreak d \<le> 0"
  obtains r1 d1 where "rx_loop K (Suc left) cur (r, d) = rx_loop K left (cur + 1) (r1, d1)"
    "rx_stack d1 = rx_stack d @ [rx_frame d r e]" "rx_packets d1 = rx_packets d + 1"
    "rx_bytes d1 = rx_bytes d + ucast (rp_len (rx_frame d r e))" "rx_obs d d1"
    "num_rx_desc r1 = num_rx_desc r" "rr_index r1 = rr_index r" "dirty_rx r1 = dirty_rx r" "cur_rx r1 = cur_rx r" "rx_size_ok r1 = rx_size_ok r"
    "\<forall>j. j \<noteq> e \<longrightarrow> RxDescArray r1 ! j = RxDescArray r ! j \<and> Rx_skbuff r1 ! j = Rx_skbuff r ! j"
proof -
  let ?x = "RxDescArray r ! e"
  let ?sz = "rx_size d ?x"
  have c: "check_rx_desc_error (rd_opts1 ?x) d = (False, d)"
    using assms(1) by (simp add: rx_good_def check_rx_desc_error_def Let_def split: if_splits)
  have nc: "\<not> uint ?sz < rx_copybreak d" using assms(4) uint_nonnegative [of ?sz] by linarith
  let ?r1 = "upd_desc e (\<lambda>x. x\<lparr>rd_opts2 := 0\<rparr>) (r\<lparr>Rx_skbuff := (Rx_skbuff r)[e := None]\<rparr>)"
  let ?d0 = "rx_unmap (RxDescPhyAddr r ! e) d"
  let ?d1 = "?d0\<lparr>rx_multicast := (if rk_multicast K (rp_data (rx_frame d r e)) then rx_multicast d + 1 else rx_multicast d),
     rx_stack := rx_stack d @ [rx_frame d r e], rx_bytes := rx_bytes d + ucast ?sz, rx_packets := rx_packets d + 1\<rparr>"
  have del: "rx_deliver K e s ?sz (r, d) = (?r1, ?d1)"
    using nc assms(2) by (simp add: rx_deliver_def try_rx_copy_def Let_def rx_frame_def rx_unmap_def)
  have l: "rx_loop K (Suc left) cur (r, d) = rx_loop K left (cur + 1) (rx_deliver K e s ?sz (r, d))"
    using assms(1-3) c by (cases "f_rxfcs d") (auto simp: rx_loop.simps(2) Let_def rx_good_def rx_size_def)
  show thesis
    by (rule that [of ?r1 ?d1])
      (simp_all add: l del rx_unmap_def rx_frame_def Let_def upd_desc_def rx_obs_def rx_conf_def rx_size_ok_def)
qed

lemma rx_loop_delivers:
  assumes "rx_size_ok r" "rx_copybreak d \<le> 0" "k + left \<le> rx_n r" "m \<le> left"
    "\<forall>i < m. rx_good d (RxDescArray r ! rent r (k + i)) \<and> Rx_skbuff r ! rent r (k + i) \<noteq> None"
    "m = left \<or> rd_opts1 (RxDescArray r ! rent r (k + m)) AND DescOwn \<noteq> 0"
    "rx_loop K left (dirty_rx r + of_nat k) (r, d) = (cur, r', d')"
  defines "ps \<equiv> map (\<lambda>i. rx_frame d r (rent r (k + i))) [0 ..< m]"
  shows "cur = dirty_rx r + of_nat (k + m) \<and> rx_stack d' = rx_stack d @ ps \<and> rx_packets d' = rx_packets d + of_nat m
    \<and> rx_bytes d' = rx_bytes d + sum_list (map (\<lambda>p. ucast (rp_len p)) ps) \<and> cur_rx r' = cur_rx r"
  using assms(1-7) unfolding ps_def
proof (induction m arbitrary: k left r d)
  case 0
  have e: "unat ((dirty_rx r + of_nat k) mod num_rx_desc r) = rent r k" by (simp add: rent_def)
  from 0 show ?case by (cases left) (auto simp: rx_loop.simps(2) Let_def e)
next
  case (Suc m)
  then obtain left' where left: "left = Suc left'" by (cases left) auto
  have e: "unat ((dirty_rx r + of_nat k) mod num_rx_desc r) = rent r k" by (simp add: rent_def)
  have g: "rx_good d (RxDescArray r ! rent r k)" using Suc.prems(5) by force
  obtain s where s: "Rx_skbuff r ! rent r k = Some s" using Suc.prems(5) by force
  obtain r1 d1 where st: "rx_loop K left (dirty_rx r + of_nat k) (r, d) = rx_loop K left' (dirty_rx r + of_nat k + 1) (r1, d1)"
    "rx_stack d1 = rx_stack d @ [rx_frame d r (rent r k)]" "rx_packets d1 = rx_packets d + 1"
    "rx_bytes d1 = rx_bytes d + ucast (rp_len (rx_frame d r (rent r k)))" "rx_obs d d1"
    and q: "num_rx_desc r1 = num_rx_desc r" "rr_index r1 = rr_index r" "dirty_rx r1 = dirty_rx r" "cur_rx r1 = cur_rx r" "rx_size_ok r1 = rx_size_ok r"
    "\<forall>j. j \<noteq> rent r k \<longrightarrow> RxDescArray r1 ! j = RxDescArray r ! j \<and> Rx_skbuff r1 ! j = Rx_skbuff r ! j"
    unfolding left by (rule rx_loop_good [OF g s e Suc.prems(2)])
  have re: "rent r1 = rent r" using q by (simp add: rent_def fun_eq_iff)
  have ne: "rent r (Suc k + i) \<noteq> rent r k" if "i \<le> m" "k + Suc i < rx_n r" for i
    using that rent_inj [OF Suc.prems(1), of "Suc k + i" k] by simp
  have ih: "cur = dirty_rx r1 + of_nat (Suc k + m) \<and> rx_stack d' = rx_stack d1 @ map (\<lambda>i. rx_frame d1 r1 (rent r1 (Suc k + i))) [0 ..< m]
    \<and> rx_packets d' = rx_packets d1 + of_nat m
    \<and> rx_bytes d' = rx_bytes d1 + sum_list (map (\<lambda>p. ucast (rp_len p)) (map (\<lambda>i. rx_frame d1 r1 (rent r1 (Suc k + i))) [0 ..< m])) \<and> cur_rx r' = cur_rx r1"
  proof (rule Suc.IH [of r1 d1 "Suc k" left'])
    show "rx_size_ok r1" "rx_copybreak d1 \<le> 0" "Suc k + left' \<le> rx_n r1" "m \<le> left'"
      using Suc.prems(1-4) q st(5) left by (simp_all add: rx_obs_def rx_conf_def)
    show "\<forall>i < m. rx_good d1 (RxDescArray r1 ! rent r1 (Suc k + i)) \<and> Rx_skbuff r1 ! rent r1 (Suc k + i) \<noteq> None"
      using Suc.prems(3-5) ne q(6) re rx_good_cong [OF st(5)] by auto
    show "m = left' \<or> rd_opts1 (RxDescArray r1 ! rent r1 (Suc k + m)) AND DescOwn \<noteq> 0"
    proof (cases "m = left'")
      case False
      then have "rent r (Suc k + m) \<noteq> rent r k" using ne [of m] Suc.prems(3,4) left by simp
      then show ?thesis using Suc.prems(6) False q(6) re left by simp
    qed simp
    show "rx_loop K left' (dirty_rx r1 + of_nat (Suc k)) (r1, d1) = (cur, r', d')"
      using Suc.prems(7) st(1) q(3) by (simp add: ac_simps)
  qed
  have fr: "map (\<lambda>i. rx_frame d1 r1 (rent r1 (Suc k + i))) [0 ..< m] = map (\<lambda>i. rx_frame d r (rent r (k + Suc i))) [0 ..< m]"
    using ne q(2,6) re Suc.prems(3,4) by (auto intro!: rx_frame_cong [OF st(5)])
  have up: "map f [0 ..< Suc m] = f 0 # map (\<lambda>i. f (Suc i)) [0 ..< m]" for f :: "nat \<Rightarrow> rx_pkt"
    by (simp add: map_upt_Suc del: upt_Suc)
  show ?case using ih unfolding fr up using st(2-4) q(3,4) by (simp add: ac_simps del: upt_Suc)
qed


text \<open>What the refilling after the loop leaves alone.\<close>

lemma alloc_rx_skb_frame:
  assumes "alloc_rx_skb K i b (r, d) = (ok, r', d')"
  shows "num_rx_desc r' = num_rx_desc r" "e \<noteq> i \<Longrightarrow> RxDescArray r' ! e = RxDescArray r ! e" "rx_packets d' = rx_packets d"
    "rx_bytes d' = rx_bytes d" "rx_stack d' = rx_stack d"
  using assms
  by (auto simp: alloc_rx_skb_def rx_alloc_def upd_desc_def map_to_asic_def rx_kfree_def split: prod.splits option.splits)

lemma rx_fill_loop_frame:
  assumes "rx_fill_loop K b n cur (r, d) = (c, r', d')"
  shows "((\<forall>i < n. unat ((cur + of_nat i) mod num_rx_desc r) \<noteq> e) \<longrightarrow> RxDescArray r' ! e = RxDescArray r ! e)
    \<and> rx_packets d' = rx_packets d \<and> rx_bytes d' = rx_bytes d \<and> rx_stack d' = rx_stack d"
  using assms
proof (induction n arbitrary: cur r d)
  case 0
  then show ?case by simp
next
  case (Suc n)
  let ?i = "unat (cur mod num_rx_desc r)"
  have all: "(\<forall>i < Suc n. unat ((cur + of_nat i) mod N) \<noteq> e) \<longleftrightarrow>
      unat (cur mod N) \<noteq> e \<and> (\<forall>i < n. unat ((cur + 1 + of_nat i) mod N) \<noteq> e)" for N
    by (simp add: All_less_Suc2 ac_simps)
  show ?case
  proof (cases "Rx_skbuff r ! ?i")
    case (Some s)
    then have "rx_fill_loop K b n (cur + 1) (r, d) = (c, r', d')" using Suc.prems by (simp add: Let_def)
    from Suc.IH [OF this] show ?thesis unfolding all by blast
  next
    case None
    obtain ok r1 d1 where a: "alloc_rx_skb K ?i b (r, d) = (ok, r1, d1)" by (metis surj_pair)
    note f = alloc_rx_skb_frame [OF a]
    show ?thesis
    proof (cases ok)
      case True
      then have "rx_fill_loop K b n (cur + 1) (r1, d1) = (c, r', d')" using Suc.prems a None by (simp add: Let_def)
      from Suc.IH [OF this] f show ?thesis unfolding all by metis
    next
      case False
      then have "r' = r1" "d' = d1" using Suc.prems a None by (simp_all add: Let_def)
      then show ?thesis using f unfolding all by metis
    qed
  qed
qed



section \<open>A fragmented frame stalls the ring\<close>

text \<open>
  The handler gives the descriptor of a fragmented (or oversized) frame back to the chip without
  advancing, so the ring's next descriptor is one the chip owns again while the chip goes on with the
  descriptors after it. \<open>stuck\<close> describes that state; only the chip coming round to the descriptor ends it.
\<close>

definition stuck :: "u32 \<Rightarrow> rx_ring \<Rightarrow> bool" where
  "stuck c r \<longleftrightarrow> rx_ring_ok r \<and> rused r < rx_n r \<and> cur_rx r = c \<and> rd_opts1 (RxDescArray r ! unat (c mod num_rx_desc r)) AND DescOwn \<noteq> 0"

lemma cur_entry: "unat (cur_rx r mod num_rx_desc r) = rent r (rused r)"
  by (simp add: rent_def rused_def)

lemma rx_fill_not_cur:
  assumes "rx_ring_ok r" "rused r < rx_n r" "rx_fill_loop K b (rused r) (dirty_rx r) (r, d) = (c, r', d')"
  shows "RxDescArray r' ! rent r (rused r) = RxDescArray r ! rent r (rused r)" "rx_stack d' = rx_stack d"
proof -
  have "rent r i \<noteq> rent r (rused r)" if "i < rused r" for i
    using that assms(1,2) rent_inj [of r i "rused r"] by (simp add: rx_ring_ok_def)
  then show "RxDescArray r' ! rent r (rused r) = RxDescArray r ! rent r (rused r)" "rx_stack d' = rx_stack d"
    using rx_fill_loop_frame [OF assms(3), of "rent r (rused r)"] by (auto simp: rent_def)
qed

text \<open>Polling when the loop stops at once: only the refilling happens.\<close>

lemma rx_poll_refills:
  fixes q d
  defines "r \<equiv> rx_rings d ! q"
  assumes ok: "rx_ring_ok r" "rused r < rx_n r" "rx_bal T M S (r, d)" and q: "q < length (rx_rings d)"
    and l: "rx_loop K (min (rx_n r - rused r) (unat budget)) (cur_rx r) (r, d) = (cur_rx r, r1, d1)"
    and s: "rx_same r r1" "rx_rings d1 = rx_rings d" "rx_ring_ok r1" "rx_bal T M S (r1, d1)"
      "rd_opts1 (RxDescArray r1 ! rent r (rused r)) AND DescOwn \<noteq> 0"
    and i: "rx_interrupt K q budget d = (cnt, d')"
  shows "cnt = 0" "stuck (cur_rx r) (rx_rings d' ! q)" "rx_stack d' = rx_stack d1"
proof -
  have r1: "rused r1 = rused r" "rent r1 = rent r" "dirty_rx r1 = dirty_rx r" "cur_rx r1 = cur_rx r" "num_rx_desc r1 = num_rx_desc r"
    using s(1) by (simp_all add: rx_same_def rused_def rent_def fun_eq_iff)
  have r1c: "r1\<lparr>cur_rx := cur_rx r\<rparr> = r1" using r1(4) by simp
  have nz: "RxDescArray r \<noteq> []" using ok(1) by (auto simp: rx_ring_ok_def rx_size_ok_def)
  obtain c2 r2 d2 where f: "rx_fill_loop K True (rused r1) (dirty_rx r1) (r1, d1) = (c2, r2, d2)" by (metis surj_pair)
  let ?r' = "r2\<lparr>dirty_rx := dirty_rx r2 + (c2 - dirty_rx r)\<rparr>"
  have e: "cnt = 0" "d' = d2\<lparr>rx_rings := (rx_rings d2)[q := ?r']\<rparr>"
    using i l f nz by (simp_all add: rx_interrupt_def Let_def rx_fill_def r_def [symmetric] rx_left_eq [OF ok(1)] r1 r1c rused_def)
  have le: "0 + rused r1 \<le> rx_n r1" using ok(2) r1 by simp
  obtain j where j: "j \<le> rused r" "c2 = dirty_rx r + of_nat j" "rx_same r1 r2" "rx_conf d1 d2"
    using rx_fill_loop_spec [OF s(4) _ le, of K True c2 r2 d2] f r1 by auto
  have "rused r < rx_n r1" "rx_ring_ok r1" using ok s r1 by simp_all
  with rx_fill_not_cur [OF _ _ f] r1 have fr: "RxDescArray r2 ! rent r (rused r) = RxDescArray r1 ! rent r (rused r)" "rx_stack d2 = rx_stack d1"
    by simp_all
  have r2: "cur_rx ?r' = cur_rx r" "num_rx_desc ?r' = num_rx_desc r" "dirty_rx ?r' = dirty_rx r + of_nat j"
    using j r1 by (simp_all add: rx_same_def)
  have n: "rused r \<le> 1024" using ok(1) by (auto simp: rx_ring_ok_def rx_size_ok_def)
  have "cur_rx r = dirty_rx r + of_nat j + of_nat (rused r - j)" using j(1) by (simp add: rused_def of_nat_diff)
  then have "cur_rx ?r' = dirty_rx ?r' + of_nat (rused r - j)" using r2 by simp
  then have u: "rused ?r' = rused r - j" using rused_add [of "rused r - j" _ ?r'] n by (simp add: rused_def)
  have rings: "rx_rings d' ! q = ?r'" using e(2) q j(4) s(2) by (simp add: rx_conf_def)
  have "rx_ring_ok (rx_rings d' ! q)"
    by (rule rx_interrupt_spec [OF ok(1) [unfolded r_def] ok(3) [unfolded r_def] i]) (use q in simp)
  then show "cnt = 0" "stuck (cur_rx r) (rx_rings d' ! q)" "rx_stack d' = rx_stack d1"
    using e fr s(5) r2 u ok(2) rings by (simp_all add: stuck_def cur_entry)
qed

lemma rx_stuck_poll:
  assumes "stuck c (rx_rings d ! q)" "q < length (rx_rings d)" "rx_bal T M S (rx_rings d ! q, d)"
  shows "fst (rx_interrupt K q budget d) = 0" "stuck c (rx_rings (snd (rx_interrupt K q budget d)) ! q)"
    "rx_stack (snd (rx_interrupt K q budget d)) = rx_stack d"
proof -
  let ?r = "rx_rings d ! q"
  have c: "cur_rx ?r = c" and k: "rx_ring_ok ?r" "rused ?r < rx_n ?r" and o: "rd_opts1 (RxDescArray ?r ! rent ?r (rused ?r)) AND DescOwn \<noteq> 0"
    using assms(1) cur_entry [of ?r] by (auto simp: stuck_def)
  have l: "rx_loop K (min (rx_n ?r - rused ?r) (unat budget)) (cur_rx ?r) (?r, d) = (cur_rx ?r, ?r, d)"
    using o cur_entry [of ?r] by (cases "min (rx_n ?r - rused ?r) (unat budget)") (simp_all add: rx_loop.simps(2) Let_def)
  note p = rx_poll_refills [OF k assms(3,2) l rx_same_refl refl k(1) assms(3) o surjective_pairing]
  show "fst (rx_interrupt K q budget d) = 0" "stuck c (rx_rings (snd (rx_interrupt K q budget d)) ! q)"
    "rx_stack (snd (rx_interrupt K q budget d)) = rx_stack d" using p c by simp_all
qed

lemma rx_stuck_chip:
  assumes "stuck c (rx_rings d ! q)" "i \<noteq> unat (c mod num_rx_desc (rx_rings d ! q))"
  shows "stuck c (rx_rings (rx_chip q i x bytes d) ! q)" "rx_stack (rx_chip q i x bytes d) = rx_stack d"
    "num_rx_desc (rx_rings (rx_chip q i x bytes d) ! q) = num_rx_desc (rx_rings d ! q)"
proof -
  let ?r = "upd_desc i (\<lambda>_. x) (rx_rings d ! q)"
  let ?e = "unat (c mod num_rx_desc (rx_rings d ! q))"
  have "rused ?r = rused (rx_rings d ! q)" "RxDescArray ?r ! ?e = RxDescArray (rx_rings d ! q) ! ?e"
    using assms(2) by (simp_all add: rused_def) (simp add: upd_desc_def)
  then have u: "stuck c ?r" using assms by (auto simp: stuck_def)
  consider "rx_chip q i x bytes d = d"
    | s where "rx_chip q i x bytes d = d\<lparr>rx_rings := (rx_rings d)[q := ?r], rx_data := (rx_data d)(s := bytes)\<rparr>"
    by (cases "rd_opts1 (RxDescArray (rx_rings d ! q) ! i) AND DescOwn = 0"; cases "Rx_skbuff (rx_rings d ! q) ! i")
      (simp_all add: rx_chip_def Let_def)
  then have "stuck c (rx_rings (rx_chip q i x bytes d) ! q) \<and> rx_stack (rx_chip q i x bytes d) = rx_stack d
    \<and> num_rx_desc (rx_rings (rx_chip q i x bytes d) ! q) = num_rx_desc (rx_rings d ! q)"
  proof cases
    case 1
    then show ?thesis using assms(1) by simp
  next
    case 2
    then show ?thesis using u assms(1) by (cases "q < length (rx_rings d)") (simp_all add: list_update_beyond)
  qed
  then show "stuck c (rx_rings (rx_chip q i x bytes d) ! q)" "rx_stack (rx_chip q i x bytes d) = rx_stack d"
    "num_rx_desc (rx_rings (rx_chip q i x bytes d) ! q) = num_rx_desc (rx_rings d ! q)" by simp_all
qed

definition stall_call :: "nat \<Rightarrow> nat \<Rightarrow> rx_call \<Rightarrow> bool" where
  "stall_call q e c = (case c of RxChip q' i x bytes \<Rightarrow> q' = q \<and> i \<noteq> e | RxPoll q' budget \<Rightarrow> q' = q | RxClear \<Rightarrow> False)"

definition stalled :: "rx_pkt list \<Rightarrow> nat \<Rightarrow> nat \<Rightarrow> u32 \<Rightarrow> u32 \<Rightarrow> rx_pkt list \<Rightarrow> 'w rx_dev \<Rightarrow> bool" where
  "stalled T n q N c st d \<longleftrightarrow> rx_live n T d \<and> q < n \<and> num_rx_desc (rx_rings d ! q) = N \<and> stuck c (rx_rings d ! q) \<and> rx_stack d = st"

lemma rx_live_ring: "rx_live n T d \<Longrightarrow> q < n \<Longrightarrow> rx_ring_ok (rx_rings d ! q) \<and> rx_bal T (other_maps q d) (other_skbs q d) (rx_rings d ! q, d)"
  using rx_inv_bal [of T d q] by (simp add: rx_live_def list_all_length)

lemma rx_interrupt_num:
  assumes "rx_live n T d" "q < n"
  shows "num_rx_desc (rx_rings (snd (rx_interrupt K q budget d)) ! q) = num_rx_desc (rx_rings d ! q)"
proof -
  have l: "rx_ring_ok (rx_rings d ! q)" "rx_bal T (other_maps q d) (other_skbs q d) (rx_rings d ! q, d)"
    using rx_live_ring [OF assms] by simp_all
  obtain cnt d' where i: "rx_interrupt K q budget d = (cnt, d')" by (cases "rx_interrupt K q budget d")
  show ?thesis by (rule rx_interrupt_spec [OF l i]) (use assms i in \<open>simp add: rx_live_def\<close>)
qed

interpretation rx_stall: call_sequence "rx_call_step K" "stall_call q (unat (c mod N))" "stalled T n q N c st" for T K q c N n st
proof
  fix d :: "'a rx_dev" and call
  assume i: "stalled T n q N c st d" and ok: "stall_call q (unat (c mod N)) call"
  then have l: "rx_live n T d" "q < n" "q < length (rx_rings d)" and s: "stuck c (rx_rings d ! q)" "num_rx_desc (rx_rings d ! q) = N" "rx_stack d = st"
    by (simp_all add: stalled_def rx_live_def)
  show "stalled T n q N c st (rx_call_step K call d)"
  proof (cases call)
    case (RxChip q' i x bytes)
    then show ?thesis
      using ok l s rx_stuck_chip [OF s(1), of i x bytes] rx_chip_live [OF l(1,2)] by (simp add: rx_call_step_def stall_call_def stalled_def)
  next
    case (RxPoll q' budget)
    then show ?thesis
      using ok l s rx_stuck_poll [OF s(1) l(3) conjunct2 [OF rx_live_ring [OF l(1,2)]]] rx_poll_live [OF l(1,2)] rx_interrupt_num [OF l(1,2)]
      by (simp add: rx_call_step_def stall_call_def stalled_def)
  next
    case RxClear
    then show ?thesis using ok by (simp add: stall_call_def)
  qed
qed

lemma mark_to_asic_owns: "rd_opts1 (mark_to_asic sz x) AND DescOwn \<noteq> 0"
proof -
  have "rd_opts1 (mark_to_asic sz x) AND DescOwn = DescOwn"
    by (simp add: mark_to_asic_def Let_def bit.conj_disj_distrib2)
  then show ?thesis by simp
qed

lemma rx_fragment_gives_back:
  assumes "rx_live n T d" "q < n" "r = rx_rings d ! q" "rused r < rx_n r" "0 < budget" "x = RxDescArray r ! rent r (rused r)"
    "rd_opts1 x AND DescOwn = 0" "\<not> fst (check_rx_desc_error (rd_opts1 x) d)"
    "fragmented_frame (rx_type3 d) (rd_opts1 x) \<or> rx_buf_sz d < rx_size d x"
  shows "stalled T n q (num_rx_desc r) (cur_rx r) (rx_stack d) (snd (rx_interrupt K q budget d))"
proof -
  note l = rx_live_ring [OF assms(1,2), folded assms(3)]
  let ?e = "rent r (rused r)"
  let ?r1 = "upd_desc ?e (mark_to_asic (rx_buf_sz d)) r"
  let ?d1 = "d\<lparr>rx_dropped := rx_dropped d + 1, rx_length_errors := rx_length_errors d + 1\<rparr>"
  have q: "q < length (rx_rings d)" using assms(1,2) by (simp add: rx_live_def)
  have "?e < length (RxDescArray r)" using l rent_lt [of r "rused r"] by (simp add: rx_ring_ok_def rx_size_ok_def)
  then have own: "rd_opts1 (RxDescArray ?r1 ! ?e) AND DescOwn \<noteq> 0" by (simp add: upd_desc_def mark_to_asic_owns)
  have c: "check_rx_desc_error (rd_opts1 x) d = (False, d)"
    using assms(8) by (simp add: check_rx_desc_error_def Let_def split: if_splits)
  obtain m where m: "min (rx_n r - rused r) (unat budget) = Suc m"
    using assms(4,5) by (metis diff_is_0_eq' gr0_implies_Suc min_less_iff_conj not_less unat_gt_0 word_neq_0_conv zero_less_diff)
  have "rx_loop K (Suc m) (cur_rx r) (r, d) = rx_loop K m (cur_rx r) (?r1, ?d1)"
    using assms(6,7,9) c by (simp add: rx_loop.simps(2) Let_def cur_entry rx_size_def)
  also have "\<dots> = (cur_rx r, ?r1, ?d1)"
    using own by (cases m) (simp_all add: rx_loop.simps(2) Let_def cur_entry)
  finally have "rx_loop K (min (rx_n r - rused r) (unat budget)) (cur_rx r) (r, d) = (cur_rx r, ?r1, ?d1)" by (simp only: m)
  note p = rx_poll_refills [where q = q and d = d, folded assms(3), OF _ assms(4) _ q this _ _ _ _ own surjective_pairing]
  have "stuck (cur_rx r) (rx_rings (snd (rx_interrupt K q budget d)) ! q)" "rx_stack (snd (rx_interrupt K q budget d)) = rx_stack d"
    using p [of T "other_maps q d" "other_skbs q d"] l by (simp_all add: rx_same_def)
  then show ?thesis
    using rx_poll_live [OF assms(1,2)] rx_interrupt_num [OF assms(1,2)] assms(2,3) by (simp add: stalled_def)
qed


text \<open>
  One fragmented frame stops the ring: after it, whatever frames the chip completes in the ring's other
  descriptors and however often the ring is polled, nothing is handed to the network stack and every
  poll reports no work.
\<close>

theorem rx_fragment_stalls:
  assumes "rx_live n T d" "q < n" "r = rx_rings d ! q" "rused r < rx_n r" "0 < budget" "x = RxDescArray r ! rent r (rused r)"
    "rd_opts1 x AND DescOwn = 0" "\<not> fst (check_rx_desc_error (rd_opts1 x) d)"
    "fragmented_frame (rx_type3 d) (rd_opts1 x) \<or> rx_buf_sz d < rx_size d x"
    "list_all (stall_call q (rent r (rused r))) cs" "d' = rx_run K (RxPoll q budget # cs) d"
  shows "rx_stack d' = rx_stack d \<and> cur_rx (rx_rings d' ! q) = cur_rx r \<and> fst (rx_interrupt K q b d') = 0"
proof -
  let ?d1 = "snd (rx_interrupt K q budget d)"
  note s = rx_fragment_gives_back [OF assms(1-9), of K]
  have "stalled T n q (num_rx_desc r) (cur_rx r) (rx_stack d) d'"
    using rx_stall.run_inv [OF s, of cs K] assms(10) by (simp add: assms(11) rx_run_def rx_call_step_def cur_entry)
  then have d': "rx_live n T d'" "q < n" "stuck (cur_rx r) (rx_rings d' ! q)" "rx_stack d' = rx_stack d"
    by (simp_all add: stalled_def)
  have "q < length (rx_rings d')" using d'(1,2) by (simp add: rx_live_def)
  then show ?thesis
    using rx_stuck_poll(1) [OF d'(3) _ conjunct2 [OF rx_live_ring [OF d'(1,2)]]] d'(3,4) by (simp add: stuck_def)
qed

section \<open>Witnesses\<close>

definition demo_rx_kern :: "nat rx_kern" where
  "demo_rx_kern = \<lparr>rk_alloc = (\<lambda>_ _ w. (Some w, Suc w)), rk_map = (\<lambda>s _ w. (Some (of_nat s * 0x1000), w)), rk_multicast = (\<lambda>b. b \<noteq> [] \<and> hd b = 1)\<rparr>"

definition demo_rx_ring :: rx_ring where
  "demo_rx_ring = \<lparr>rr_index = 0, cur_rx = 0, dirty_rx = 0, num_rx_desc = 4, RxDescArray = [], RxDescPhyAddr = replicate 4 0,
     Rx_skbuff = replicate 4 None\<rparr>"

definition demo_rx :: "nat rx_dev" where
  "demo_rx = \<lparr>rx_rings = [demo_rx_ring], rx_tp = demo_chip, rx_type3 = False, rx_buf_sz = 0x5F3, rx_copybreak = 0, f_rxall = False,
     f_rxfcs = False, rx_chksum = True, rx_errors = 0, rx_length_errors = 0, rx_crc_errors = 0, rx_dropped = 0, rx_bytes = 0,
     rx_packets = 0, rx_multicast = 0, rx_data = (\<lambda>_. []), rx_alloced = [], rx_freed = [], rx_mapped = {#}, rx_stack = [], rx_w = 0\<rparr>"


lemma demo_rx_down: "rx_down demo_rx"
  by (simp add: rx_down_def demo_rx_def demo_rx_ring_def ring_empty_def)

lemma demo_init: "fst (init_rx demo_rx_kern demo_rx) = 0"
  by code_simp

lemma demo_up: "rx_live 1 [] (snd (init_rx demo_rx_kern demo_rx))"
  using init_rx_spec [OF demo_rx_down surjective_pairing, of demo_rx_kern] demo_init
  by (simp add: rx_live_def list_all_iff ring_full_def) (simp add: demo_rx_def)


definition demo_frame :: rx_desc where
  "demo_frame = \<lparr>rd_opts1 = 0x30000040, rd_opts2 = 0, rd_addr = 0, rd_header_info = 0, rd_rss_result = 0\<rparr>"

definition demo_piece :: rx_desc where
  "demo_piece = demo_frame\<lparr>rd_opts1 := 0x20000040\<rparr>"

definition demo_full :: "nat rx_dev" where
  "demo_full = rx_run demo_rx_kern [RxChip 0 0 demo_frame (replicate 60 2 @ [9]), RxChip 0 1 demo_frame (replicate 60 3)] (snd (init_rx demo_rx_kern demo_rx))"

definition demo_frag :: "nat rx_dev" where
  "demo_frag = rx_run demo_rx_kern [RxChip 0 0 demo_piece []] (snd (init_rx demo_rx_kern demo_rx))"

lemma demo_chip_live: "rx_live 1 [] demo_full" "rx_live 1 [] demo_frag"
  unfolding demo_full_def demo_frag_def rx_run_def
  by (rule rx_traffic.run_inv [OF demo_up], simp add: rx_traffic_ok_def)+


theorem rx_init_all_or_nothing_witness: "list_all ring_full (rx_rings (snd (init_rx demo_rx_kern demo_rx)))"
  using rx_init_all_or_nothing [OF demo_rx_down surjective_pairing, of demo_rx_kern] demo_init by simp


theorem rx_fragment_stalls_witness:
  "rx_stack (rx_run demo_rx_kern [RxPoll 0 64, RxChip 0 1 demo_frame [7], RxPoll 0 64] demo_frag) = []"
proof -
  let ?r = "rx_rings demo_frag ! 0"
  have m: "rused ?r < rx_n ?r" "rd_opts1 (RxDescArray ?r ! rent ?r (rused ?r)) AND DescOwn = 0"
    "\<not> fst (check_rx_desc_error (rd_opts1 (RxDescArray ?r ! rent ?r (rused ?r))) demo_frag)"
    "fragmented_frame (rx_type3 demo_frag) (rd_opts1 (RxDescArray ?r ! rent ?r (rused ?r))) \<or> rx_buf_sz demo_frag < rx_size demo_frag (RxDescArray ?r ! rent ?r (rused ?r))"
    "rent ?r (rused ?r) = 0" "rx_stack demo_frag = []" by code_simp+
  show ?thesis
    using rx_fragment_stalls [OF demo_chip_live(2) _ refl m(1) _ refl m(2-4), of 64 "[RxChip 0 1 demo_frame [7], RxPoll 0 64]" _ demo_rx_kern, OF _ _ _ refl]
    by (simp add: stall_call_def m(5,6))
qed

end
