(* ===== verification/R8125_Net.thy ===== *)
theory R8125_Net
  imports R8125_TxQueue R8125_RxRing
begin

text \<open>
  The network device of the Realtek driver as a whole (\<^verbatim>\<open>r8125/src/r8125_n.c\<close>): \<open>rtl8125_open\<close> and
  \<open>rtl8125_close\<close> with the allocation of descriptors, patch buffer and interrupts, \<open>rtl8125_down\<close>,
  \<open>rtl8125_change_mtu\<close>, \<open>rtl8125_set_ringparam\<close>, the reset work and the poll functions. The two paths of
  \<^verbatim>\<open>R8125_Tx\<close> and \<^verbatim>\<open>R8125_Rx\<close> are its fields \<open>nd_tx\<close> and \<open>nd_rx\<close>.

  A descriptor array that is not allocated is the empty list; \<open>TxPhyAddr\<close> and \<open>RxPhyAddr\<close> name the coherent
  memory blocks, \<open>nd_coherent\<close> collects the blocks that are allocated. Enabling a NAPI context that is
  enabled and disabling one that is disabled do not return (the kernel stops, or waits for ever): the
  operations that do so have the result \<^const>\<open>None\<close>. The routines that only program the chip, and the
  notifications to the network stack, are recorded in the order of their calls (\<open>nd_log\<close>). The kernel is the parameter \<open>net_kern\<close>.
\<close>

unbundle bit_operations_syntax

section \<open>State\<close>

datatype hw_call = HwFirmware | HwSetMaster | HwClearMaster | HwExitOob | HwUp | HwCheckLink | HwSetSpeed
  | HwLinkIrq | HwMaskIrq | HwReset | HwConfig | HwD3Para | HwPllDown | HwTimerIrq | HwVectorIrq nat
  | NetProcInit | NetCarrierOff | NetUpdateFeatures

record ('w, 'v, 'u) net_kern =
  nk_tx :: "'w tx_kern"
  nk_rx :: "'v rx_kern"
  nk_coherent :: "nat \<Rightarrow> 'u \<Rightarrow> nat option \<times> 'u"
  nk_irq :: "nat \<Rightarrow> 'u \<Rightarrow> int \<times> 'u"
  nk_complete :: "'u \<Rightarrow> bool \<times> 'u"

record ('w, 'v, 'u) net_dev =
  nd_tx :: "'w tx_dev"
  nd_rx :: "'v rx_dev"
  TxPhyAddr :: "nat list"
  RxPhyAddr :: "nat list"
  RequireRduNonStopPatch :: bool
  ShortPacketEmptyBuffer :: "nat option"
  nd_coherent :: "nat multiset"
  irq_requested :: "bool list"
  msix_vectors :: bool
  napi_on :: "bool list"
  nd_mtu :: u32
  netif_running :: bool
  flag_down :: bool
  reset_pending :: bool
  esd_pending :: bool
  esd_flag :: bool
  resume_not_chg_speed :: bool
  nd_log :: "hw_call list"
  nd_w :: 'u

definition hw_log :: "hw_call list \<Rightarrow> ('w, 'v, 'u) net_dev \<Rightarrow> ('w, 'v, 'u) net_dev" where
  "hw_log cs nd = nd\<lparr>nd_log := nd_log nd @ cs\<rparr>"

section \<open>Descriptor memory\<close>

definition dma_alloc_coherent :: "('w, 'v, 'u) net_kern \<Rightarrow> nat \<Rightarrow> ('w, 'v, 'u) net_dev \<Rightarrow> nat option \<times> ('w, 'v, 'u) net_dev" where
  "dma_alloc_coherent K sz nd =
     (case nk_coherent K sz (nd_w nd) of
        (None, w) \<Rightarrow> (None, nd\<lparr>nd_w := w\<rparr>)
      | (Some b, w) \<Rightarrow> (Some b, nd\<lparr>nd_w := w, nd_coherent := add_mset b (nd_coherent nd)\<rparr>))"

definition dma_free_coherent :: "nat \<Rightarrow> ('w, 'v, 'u) net_dev \<Rightarrow> ('w, 'v, 'u) net_dev" where
  "dma_free_coherent b nd = nd\<lparr>nd_coherent := nd_coherent nd - {# b #}\<rparr>"

definition set_tx_array :: "nat \<Rightarrow> tx_desc list \<Rightarrow> ('w, 'v, 'u) net_dev \<Rightarrow> ('w, 'v, 'u) net_dev" where
  "set_tx_array i xs nd = (let d = nd_tx nd in
     nd\<lparr>nd_tx := d\<lparr>tx_rings := (tx_rings d)[i := (tx_rings d ! i)\<lparr>TxDescArray := xs\<rparr>]\<rparr>\<rparr>)"

definition set_rx_array :: "nat \<Rightarrow> rx_desc list \<Rightarrow> ('w, 'v, 'u) net_dev \<Rightarrow> ('w, 'v, 'u) net_dev" where
  "set_rx_array i xs nd = (let d = nd_rx nd in
     nd\<lparr>nd_rx := d\<lparr>rx_rings := (rx_rings d)[i := (rx_rings d ! i)\<lparr>RxDescArray := xs\<rparr>]\<rparr>\<rparr>)"

text \<open>The flag is success; a ring whose block cannot be allocated has no array, and the loop ends there.\<close>

fun alloc_tx_loop :: "('w, 'v, 'u) net_kern \<Rightarrow> nat list \<Rightarrow> ('w, 'v, 'u) net_dev \<Rightarrow> bool \<times> ('w, 'v, 'u) net_dev" where
  "alloc_tx_loop K [] nd = (True, nd)"
| "alloc_tx_loop K (i # is) nd =
     (let n = unat (num_tx_desc (tx_rings (nd_tx nd) ! i)) + 1 in
      case dma_alloc_coherent K (n * 32) nd of
        (None, nd) \<Rightarrow> (False, set_tx_array i [] nd)
      | (Some b, nd) \<Rightarrow>
          alloc_tx_loop K is (set_tx_array i (replicate n \<lparr>td_opts1 = 0, td_opts2 = 0, td_addr = 0\<rparr>)
            (nd\<lparr>TxPhyAddr := (TxPhyAddr nd)[i := b]\<rparr>)))"

definition alloc_tx_desc :: "('w, 'v, 'u) net_kern \<Rightarrow> ('w, 'v, 'u) net_dev \<Rightarrow> bool \<times> ('w, 'v, 'u) net_dev" where
  "alloc_tx_desc K nd = alloc_tx_loop K [0 ..< length (tx_rings (nd_tx nd))] nd"

fun alloc_rx_loop :: "('w, 'v, 'u) net_kern \<Rightarrow> nat list \<Rightarrow> ('w, 'v, 'u) net_dev \<Rightarrow> bool \<times> ('w, 'v, 'u) net_dev" where
  "alloc_rx_loop K [] nd = (True, nd)"
| "alloc_rx_loop K (i # is) nd =
     (let n = unat (num_rx_desc (rx_rings (nd_rx nd) ! i)) + 1 in
      case dma_alloc_coherent K (n * (if rx_type3 (nd_rx nd) then 32 else 16)) nd of
        (None, nd) \<Rightarrow> (False, set_rx_array i [] nd)
      | (Some b, nd) \<Rightarrow>
          alloc_rx_loop K is (set_rx_array i (replicate n rx_desc_zero) (nd\<lparr>RxPhyAddr := (RxPhyAddr nd)[i := b]\<rparr>)))"

definition alloc_rx_desc :: "('w, 'v, 'u) net_kern \<Rightarrow> ('w, 'v, 'u) net_dev \<Rightarrow> bool \<times> ('w, 'v, 'u) net_dev" where
  "alloc_rx_desc K nd = alloc_rx_loop K [0 ..< length (rx_rings (nd_rx nd))] nd"

definition alloc_patch_mem :: "('w, 'v, 'u) net_kern \<Rightarrow> ('w, 'v, 'u) net_dev \<Rightarrow> bool \<times> ('w, 'v, 'u) net_dev" where
  "alloc_patch_mem K nd =
     (if RequireRduNonStopPatch nd
      then case dma_alloc_coherent K 256 nd of (p, nd) \<Rightarrow> (p \<noteq> None, nd\<lparr>ShortPacketEmptyBuffer := p\<rparr>)
      else (True, nd))"

definition free_tx_one :: "nat \<Rightarrow> ('w, 'v, 'u) net_dev \<Rightarrow> ('w, 'v, 'u) net_dev" where
  "free_tx_one i nd =
     (if TxDescArray (tx_rings (nd_tx nd) ! i) \<noteq> [] then set_tx_array i [] (dma_free_coherent (TxPhyAddr nd ! i) nd) else nd)"

definition free_tx_desc :: "('w, 'v, 'u) net_dev \<Rightarrow> ('w, 'v, 'u) net_dev" where
  "free_tx_desc nd = fold free_tx_one [0 ..< length (tx_rings (nd_tx nd))] nd"

definition free_rx_one :: "nat \<Rightarrow> ('w, 'v, 'u) net_dev \<Rightarrow> ('w, 'v, 'u) net_dev" where
  "free_rx_one i nd =
     (if RxDescArray (rx_rings (nd_rx nd) ! i) \<noteq> [] then set_rx_array i [] (dma_free_coherent (RxPhyAddr nd ! i) nd) else nd)"

definition free_rx_desc :: "('w, 'v, 'u) net_dev \<Rightarrow> ('w, 'v, 'u) net_dev" where
  "free_rx_desc nd = fold free_rx_one [0 ..< length (rx_rings (nd_rx nd))] nd"

definition free_patch_mem :: "('w, 'v, 'u) net_dev \<Rightarrow> ('w, 'v, 'u) net_dev" where
  "free_patch_mem nd =
     (case ShortPacketEmptyBuffer nd of None \<Rightarrow> nd | Some b \<Rightarrow> (dma_free_coherent b nd)\<lparr>ShortPacketEmptyBuffer := None\<rparr>)"

definition free_alloc_resources :: "('w, 'v, 'u) net_dev \<Rightarrow> ('w, 'v, 'u) net_dev" where
  "free_alloc_resources nd = free_patch_mem (free_tx_desc (free_rx_desc nd))"

section \<open>Interrupts and polling contexts\<close>

definition free_irq :: "('w, 'v, 'u) net_dev \<Rightarrow> ('w, 'v, 'u) net_dev" where
  "free_irq nd = nd\<lparr>irq_requested := map (\<lambda>_. False) (irq_requested nd)\<rparr>"

fun irq_loop :: "('w, 'v, 'u) net_kern \<Rightarrow> nat list \<Rightarrow> ('w, 'v, 'u) net_dev \<Rightarrow> int \<times> ('w, 'v, 'u) net_dev" where
  "irq_loop K [] nd = (0, nd)"
| "irq_loop K (i # is) nd =
     (case nk_irq K i (nd_w nd) of
        (rc, w) \<Rightarrow>
          (let nd = nd\<lparr>nd_w := w\<rparr> in
           if rc \<noteq> 0 then (rc, nd) else irq_loop K is (nd\<lparr>irq_requested := (irq_requested nd)[i := True]\<rparr>)))"

definition alloc_irq :: "('w, 'v, 'u) net_kern \<Rightarrow> ('w, 'v, 'u) net_dev \<Rightarrow> int \<times> ('w, 'v, 'u) net_dev" where
  "alloc_irq K nd =
     (case irq_loop K (if msix_vectors nd then [0 ..< length (irq_requested nd)] else [0]) nd of
        (rc, nd) \<Rightarrow> (rc, if rc \<noteq> 0 then free_irq nd else nd))"

definition enable_napi :: "('w, 'v, 'u) net_dev \<Rightarrow> ('w, 'v, 'u) net_dev option" where
  "enable_napi nd = (if list_all Not (napi_on nd) then Some (nd\<lparr>napi_on := map (\<lambda>_. True) (napi_on nd)\<rparr>) else None)"

definition disable_napi :: "('w, 'v, 'u) net_dev \<Rightarrow> ('w, 'v, 'u) net_dev option" where
  "disable_napi nd = (if list_all (\<lambda>b. b) (napi_on nd) then Some (nd\<lparr>napi_on := map (\<lambda>_. False) (napi_on nd)\<rparr>) else None)"

text \<open>\<open>_rtl8125_wait_for_quiescence\<close> and \<open>rtl8125_wait_for_quiescence\<close>.\<close>

definition quiesce :: "('w, 'v, 'u) net_dev \<Rightarrow> ('w, 'v, 'u) net_dev option" where
  "quiesce nd = map_option (hw_log [HwMaskIrq]) (disable_napi nd)"

definition wait_for_quiescence :: "('w, 'v, 'u) net_dev \<Rightarrow> ('w, 'v, 'u) net_dev option" where
  "wait_for_quiescence nd = Option.bind (quiesce nd) enable_napi"

section \<open>Opening and closing\<close>

definition init_ring :: "('w, 'v, 'u) net_kern \<Rightarrow> ('w, 'v, 'u) net_dev \<Rightarrow> int \<times> ('w, 'v, 'u) net_dev" where
  "init_ring K nd = (case init_rx (nk_rx K) (nd_rx nd) of (ret, rx) \<Rightarrow> (ret, nd\<lparr>nd_tx := init_tx (nd_tx nd), nd_rx := rx\<rparr>))"

definition set_rxbufsize_dev :: "('w, 'v, 'u) net_dev \<Rightarrow> ('w, 'v, 'u) net_dev" where
  "set_rxbufsize_dev nd = nd\<lparr>nd_rx := (nd_rx nd)\<lparr>rx_buf_sz := set_rxbufsize (nd_mtu nd)\<rparr>\<rparr>"

definition open_tail :: "('w, 'v, 'u) net_dev \<Rightarrow> ('w, 'v, 'u) net_dev option" where
  "open_tail nd =
     (case enable_napi (hw_log [HwFirmware, HwSetMaster] nd) of
        None \<Rightarrow> None
      | Some nd \<Rightarrow>
          (let nd = (hw_log [HwExitOob, HwUp] nd)\<lparr>flag_down := False\<rparr>;
               nd = hw_log [if resume_not_chg_speed nd then HwCheckLink else HwSetSpeed] nd;
               nd = (if esd_flag nd then nd else nd\<lparr>esd_pending := True\<rparr>)
           in Some (hw_log [HwLinkIrq] nd)))"

definition rtl8125_open :: "('w, 'v, 'u) net_kern \<Rightarrow> ('w, 'v, 'u) net_dev \<Rightarrow> (int \<times> ('w, 'v, 'u) net_dev) option" where
  "rtl8125_open K nd =
     (case alloc_tx_desc K (set_rxbufsize_dev (hw_log [NetProcInit] nd)) of
        (False, nd) \<Rightarrow> Some (- ENOMEM, free_alloc_resources nd)
      | (True, nd) \<Rightarrow>
     (case alloc_rx_desc K nd of
        (False, nd) \<Rightarrow> Some (- ENOMEM, free_alloc_resources nd)
      | (True, nd) \<Rightarrow>
     (case init_ring K nd of
        (retval, nd) \<Rightarrow>
     (if retval < 0 then Some (retval, free_alloc_resources nd)
      else case alloc_patch_mem K nd of
        (False, nd) \<Rightarrow> Some (- 1, free_alloc_resources nd)
      | (True, nd) \<Rightarrow>
     (case alloc_irq K nd of
        (retval, nd) \<Rightarrow>
          if retval < 0 then Some (retval, free_alloc_resources nd)
          else map_option (Pair retval) (open_tail nd))))))"

definition rtl8125_down :: "('w, 'v, 'u) net_dev \<Rightarrow> ('w, 'v, 'u) net_dev option" where
  "rtl8125_down nd =
     (case quiesce (nd\<lparr>nd_tx := (nd_tx nd)\<lparr>q_stopped := (\<lambda>_. True)\<rparr>\<rparr>) of
        None \<Rightarrow> None
      | Some nd \<Rightarrow>
          (let nd = hw_log [NetCarrierOff, HwReset] nd in Some (nd\<lparr>nd_tx := tx_clear (nd_tx nd), nd_rx := rx_clear (nd_rx nd)\<rparr>)))"

definition resource_freed :: "('w, 'v, 'u) net_dev \<Rightarrow> bool" where
  "resource_freed nd \<longleftrightarrow>
     list_all (\<lambda>r. TxDescArray r = []) (tx_rings (nd_tx nd)) \<and> list_all (\<lambda>r. RxDescArray r = []) (rx_rings (nd_rx nd))"

definition rtl8125_close :: "('w, 'v, 'u) net_dev \<Rightarrow> (int \<times> ('w, 'v, 'u) net_dev) option" where
  "rtl8125_close nd =
     (if \<not> resource_freed nd then
        (case rtl8125_down (nd\<lparr>flag_down := True\<rparr>) of
           None \<Rightarrow> None
         | Some nd \<Rightarrow> Some (0, free_alloc_resources (free_irq (hw_log [HwClearMaster, HwD3Para, HwPllDown] nd))))
      else Some (0, hw_log [HwD3Para, HwPllDown] nd))"

section \<open>Reconfiguration\<close>

definition change_mtu :: "('w, 'v, 'u) net_kern \<Rightarrow> u32 \<Rightarrow> ('w, 'v, 'u) net_dev \<Rightarrow> (int \<times> ('w, 'v, 'u) net_dev) option" where
  "change_mtu K new_mtu nd =
     (let nd = nd\<lparr>nd_mtu := new_mtu\<rparr> in
      if \<not> netif_running nd then Some (0, hw_log [NetUpdateFeatures] nd)
      else case rtl8125_down nd of
             None \<Rightarrow> None
           | Some nd \<Rightarrow>
               (case init_ring K (set_rxbufsize_dev nd) of
                  (ret, nd) \<Rightarrow>
                    if ret < 0 then Some (ret, nd)
                    else map_option (\<lambda>nd. (ret, hw_log [HwConfig, HwLinkIrq, HwSetSpeed, NetUpdateFeatures] nd)) (enable_napi nd)))"

definition clamp_u32 :: "u32 \<Rightarrow> u32 \<Rightarrow> u32 \<Rightarrow> u32" where
  "clamp_u32 v lo hi = min (max v lo) hi"

definition set_ring_size :: "u32 \<Rightarrow> u32 \<Rightarrow> ('w, 'v, 'u) net_dev \<Rightarrow> ('w, 'v, 'u) net_dev" where
  "set_ring_size rx tx nd =
     nd\<lparr>nd_rx := (nd_rx nd)\<lparr>rx_rings := map (\<lambda>r. r\<lparr>num_rx_desc := rx\<rparr>) (rx_rings (nd_rx nd))\<rparr>,
        nd_tx := (nd_tx nd)\<lparr>tx_rings := map (\<lambda>r. r\<lparr>num_tx_desc := tx\<rparr>) (tx_rings (nd_tx nd))\<rparr>\<rparr>"

record ringparam =
  rp_rx_max :: u32
  rp_tx_max :: u32
  rp_rx_pending :: u32
  rp_tx_pending :: u32

definition get_ringparam :: "('w, 'v, 'u) net_dev \<Rightarrow> ringparam" where
  "get_ringparam nd =
     \<lparr>rp_rx_max = of_nat MAX_NUM_TX_DESC, rp_tx_max = 1024,
      rp_rx_pending = num_rx_desc (rx_rings (nd_rx nd) ! 0), rp_tx_pending = num_tx_desc (tx_rings (nd_tx nd) ! 0)\<rparr>"

definition set_ringparam :: "('w, 'v, 'u) net_kern \<Rightarrow> u32 \<Rightarrow> u32 \<Rightarrow> u32 \<Rightarrow> u32 \<Rightarrow> ('w, 'v, 'u) net_dev
    \<Rightarrow> (int \<times> ('w, 'v, 'u) net_dev) option" where
  "set_ringparam K rx_mini rx_jumbo rx_pending tx_pending nd =
     (if rx_mini \<noteq> 0 \<or> rx_jumbo \<noteq> 0 then Some (- EINVAL, nd)
      else
        (let new_tx = clamp_u32 tx_pending 256 1024; new_rx = clamp_u32 rx_pending 256 1024 in
         if new_rx = num_rx_desc (rx_rings (nd_rx nd) ! 0) \<and> new_tx = num_tx_desc (tx_rings (nd_tx nd) ! 0) then Some (0, nd)
         else
           (case (if netif_running nd then Option.bind (wait_for_quiescence nd) (\<lambda>nd. map_option snd (rtl8125_close nd)) else Some nd) of
              None \<Rightarrow> None
            | Some nd \<Rightarrow>
                (let nd = set_ring_size new_rx new_tx nd in if netif_running nd then rtl8125_open K nd else Some (0, nd)))))"

section \<open>The reset work\<close>

definition rx_nostuck :: "'v rx_dev \<Rightarrow> bool" where
  "rx_nostuck d = list_all (\<lambda>r. dirty_rx r = cur_rx r) (rx_rings d)"

definition reset_task :: "('w, 'v, 'u) net_kern \<Rightarrow> ('w, 'v, 'u) net_dev \<Rightarrow> ('w, 'v, 'u) net_dev option" where
  "reset_task K nd =
     (if \<not> netif_running nd \<or> flag_down nd \<or> \<not> reset_pending nd then Some nd
      else case wait_for_quiescence (nd\<lparr>reset_pending := False\<rparr>) of
             None \<Rightarrow> None
           | Some nd \<Rightarrow>
               (let rx = fold (\<lambda>q d. snd (rx_interrupt (nk_rx K) q (- 1) d)) [0 ..< length (rx_rings (nd_rx nd))] (nd_rx nd);
                    nd = hw_log [NetCarrierOff, HwReset] nd;
                    nd = nd\<lparr>nd_rx := rx, nd_tx := tx_clear ((nd_tx nd)\<lparr>q_stopped := (\<lambda>_. True)\<rparr>)\<rparr>
                in if rx_nostuck rx then
                     (let nd = snd (init_ring K (nd\<lparr>nd_rx := rx_clear rx\<rparr>)) in
                      if resume_not_chg_speed nd then Some ((hw_log [HwCheckLink] nd)\<lparr>resume_not_chg_speed := False\<rparr>)
                      else Some (hw_log [HwLinkIrq, HwSetSpeed] nd))
                   else Some (nd\<lparr>reset_pending := True\<rparr>)))"

section \<open>Polling\<close>

definition napi_finish :: "('w, 'v, 'u) net_kern \<Rightarrow> hw_call \<Rightarrow> u32 \<Rightarrow> u32 \<Rightarrow> ('w, 'v, 'u) net_dev \<Rightarrow> u32 \<times> ('w, 'v, 'u) net_dev" where
  "napi_finish K irq work_done budget nd =
     (if work_done < budget
      then case nk_complete K (nd_w nd) of
             (done, w) \<Rightarrow> (work_done, if done then hw_log [irq] (nd\<lparr>nd_w := w\<rparr>) else nd\<lparr>nd_w := w\<rparr>)
      else (work_done, nd))"

definition poll_rx_ring :: "('w, 'v, 'u) net_kern \<Rightarrow> u32 \<Rightarrow> nat \<Rightarrow> u32 \<times> 'v rx_dev \<Rightarrow> u32 \<times> 'v rx_dev" where
  "poll_rx_ring K budget q wd = (case rx_interrupt (nk_rx K) q budget (snd wd) of (n, d) \<Rightarrow> (fst wd + n, d))"

definition rtl8125_poll :: "('w, 'v, 'u) net_kern \<Rightarrow> u32 \<Rightarrow> ('w, 'v, 'u) net_dev \<Rightarrow> u32 \<times> ('w, 'v, 'u) net_dev" where
  "rtl8125_poll K budget nd =
     (let tx = fold (\<lambda>q d. snd (tx_interrupt_ring q d)) [0 ..< length (tx_rings (nd_tx nd))] (nd_tx nd);
          (work_done, rx) = fold (poll_rx_ring K budget) [0 ..< length (rx_rings (nd_rx nd))] (0, nd_rx nd)
      in napi_finish K HwTimerIrq work_done budget (nd\<lparr>nd_tx := tx, nd_rx := rx\<rparr>))"

definition poll_msix_tx :: "('w, 'v, 'u) net_kern \<Rightarrow> nat \<Rightarrow> u32 \<Rightarrow> ('w, 'v, 'u) net_dev \<Rightarrow> u32 \<times> ('w, 'v, 'u) net_dev" where
  "poll_msix_tx K message_id budget nd =
     napi_finish K (HwVectorIrq message_id) 0 budget (nd\<lparr>nd_tx := snd (tx_interrupt_with_vector (int message_id) (nd_tx nd))\<rparr>)"

definition poll_msix_rx :: "('w, 'v, 'u) net_kern \<Rightarrow> nat \<Rightarrow> u32 \<Rightarrow> ('w, 'v, 'u) net_dev \<Rightarrow> u32 \<times> ('w, 'v, 'u) net_dev" where
  "poll_msix_rx K message_id budget nd =
     (case rx_interrupt (nk_rx K) message_id budget (nd_rx nd) of
        (work_done, rx) \<Rightarrow> napi_finish K (HwVectorIrq message_id) work_done budget (nd\<lparr>nd_rx := rx\<rparr>))"

end
