(* ===== verification/R8125_NetUp.thy ===== *)
theory R8125_NetUp
  imports R8125_Net
begin

text \<open>
  Correctness of the network device of \<^verbatim>\<open>R8125_Net\<close>, on top of the laws of the two paths. A closed
  device owns nothing; a device that is up owns its descriptor blocks and exactly the buffers and
  mappings of its rings. Opening, traffic, reconfiguration and closing move between the two. The
  error paths that break this are proved at the end.
\<close>

section \<open>Coherent memory\<close>

definition blocks :: "bool list \<Rightarrow> nat list \<Rightarrow> nat multiset" where
  "blocks bs ps = mset (map snd (filter fst (zip bs ps)))"

lemma blocks_update:
  assumes "i < length bs" "length ps = length bs"
  shows "blocks (bs[i := b]) (ps[i := p]) + (if bs ! i then {# ps ! i #} else {#}) = blocks bs ps + (if b then {# p #} else {#})"
  using mset_filter_update [of i "zip bs ps" snd fst "(b, p)"] assms
  by (cases b; cases "bs ! i") (simp_all add: blocks_def update_zip)

lemma blocks_take:
  assumes "i < length bs" "length ps = length bs" "bs ! i"
  shows "blocks bs ps = add_mset (ps ! i) (blocks (bs[i := False]) ps)"
  using blocks_update [of i bs ps False "ps ! i"] assms by simp

lemma blocks_none: "list_all Not bs \<Longrightarrow> blocks bs ps = {#}"
  unfolding blocks_def by (induction bs arbitrary: ps) (auto simp: zip_Cons1 split: list.splits)

definition tx_have :: "('w, 'v, 'u) net_dev \<Rightarrow> bool list" where
  "tx_have nd = map (\<lambda>r. TxDescArray r \<noteq> []) (tx_rings (nd_tx nd))"

definition rx_have :: "('w, 'v, 'u) net_dev \<Rightarrow> bool list" where
  "rx_have nd = map (\<lambda>r. RxDescArray r \<noteq> []) (rx_rings (nd_rx nd))"

definition coh_ok :: "('w, 'v, 'u) net_dev \<Rightarrow> bool" where
  "coh_ok nd \<longleftrightarrow> length (TxPhyAddr nd) = length (tx_rings (nd_tx nd)) \<and> length (RxPhyAddr nd) = length (rx_rings (nd_rx nd))
     \<and> nd_coherent nd = blocks (tx_have nd) (TxPhyAddr nd) + blocks (rx_have nd) (RxPhyAddr nd) + mset_set (set_option (ShortPacketEmptyBuffer nd))"

text \<open>What the memory operations leave alone: everything but the arrays.\<close>

definition tx_strip :: "'w tx_dev \<Rightarrow> 'w tx_dev" where
  "tx_strip d = d\<lparr>tx_rings := map (\<lambda>r. r\<lparr>TxDescArray := []\<rparr>) (tx_rings d)\<rparr>"

definition rx_strip :: "'v rx_dev \<Rightarrow> 'v rx_dev" where
  "rx_strip d = d\<lparr>rx_rings := map (\<lambda>r. r\<lparr>RxDescArray := []\<rparr>) (rx_rings d)\<rparr>"

definition mem_frame :: "('w, 'v, 'u) net_dev \<Rightarrow> ('w, 'v, 'u) net_dev \<Rightarrow> bool" where
  "mem_frame nd nd' \<longleftrightarrow> tx_strip (nd_tx nd') = tx_strip (nd_tx nd) \<and> rx_strip (nd_rx nd') = rx_strip (nd_rx nd)
     \<and> napi_on nd' = napi_on nd \<and> irq_requested nd' = irq_requested nd \<and> netif_running nd' = netif_running nd"

lemma mem_frame_refl [simp]: "mem_frame nd nd"
  by (simp add: mem_frame_def)

lemma mem_frame_trans: "mem_frame a b \<Longrightarrow> mem_frame b c \<Longrightarrow> mem_frame a c"
  by (simp add: mem_frame_def)

lemma tx_strip_set: "tx_strip (nd_tx (set_tx_array i xs nd)) = tx_strip (nd_tx nd)"
proof -
  have "(map (\<lambda>r. r\<lparr>TxDescArray := []\<rparr>) rs)[i := (rs ! i)\<lparr>TxDescArray := []\<rparr>] = map (\<lambda>r. r\<lparr>TxDescArray := []\<rparr>) rs" for rs :: "tx_ring list"
    by (cases "i < length rs") (auto simp: list_update_beyond intro!: nth_equalityI simp: nth_list_update)
  then show ?thesis by (simp add: tx_strip_def set_tx_array_def Let_def map_update)
qed

lemma rx_strip_set: "rx_strip (nd_rx (set_rx_array i xs nd)) = rx_strip (nd_rx nd)"
proof -
  have "(map (\<lambda>r. r\<lparr>RxDescArray := []\<rparr>) rs)[i := (rs ! i)\<lparr>RxDescArray := []\<rparr>] = map (\<lambda>r. r\<lparr>RxDescArray := []\<rparr>) rs" for rs :: "rx_ring list"
    by (cases "i < length rs") (auto simp: list_update_beyond intro!: nth_equalityI simp: nth_list_update)
  then show ?thesis by (simp add: rx_strip_def set_rx_array_def Let_def map_update)
qed

lemma set_tx_array_simps [simp]:
  "nd_rx (set_tx_array i xs nd) = nd_rx nd" "TxPhyAddr (set_tx_array i xs nd) = TxPhyAddr nd" "RxPhyAddr (set_tx_array i xs nd) = RxPhyAddr nd"
  "nd_coherent (set_tx_array i xs nd) = nd_coherent nd" "napi_on (set_tx_array i xs nd) = napi_on nd"
  "irq_requested (set_tx_array i xs nd) = irq_requested nd" "ShortPacketEmptyBuffer (set_tx_array i xs nd) = ShortPacketEmptyBuffer nd"
  "netif_running (set_tx_array i xs nd) = netif_running nd"
  "tx_have (set_tx_array i xs nd) = (tx_have nd)[i := xs \<noteq> []]" "rx_have (set_tx_array i xs nd) = rx_have nd"
  "length (tx_rings (nd_tx (set_tx_array i xs nd))) = length (tx_rings (nd_tx nd))"
  by (simp_all add: set_tx_array_def Let_def tx_have_def rx_have_def map_update)

lemma set_rx_array_simps [simp]:
  "nd_tx (set_rx_array i xs nd) = nd_tx nd" "TxPhyAddr (set_rx_array i xs nd) = TxPhyAddr nd" "RxPhyAddr (set_rx_array i xs nd) = RxPhyAddr nd"
  "nd_coherent (set_rx_array i xs nd) = nd_coherent nd" "napi_on (set_rx_array i xs nd) = napi_on nd"
  "irq_requested (set_rx_array i xs nd) = irq_requested nd" "ShortPacketEmptyBuffer (set_rx_array i xs nd) = ShortPacketEmptyBuffer nd"
  "netif_running (set_rx_array i xs nd) = netif_running nd"
  "rx_have (set_rx_array i xs nd) = (rx_have nd)[i := xs \<noteq> []]" "tx_have (set_rx_array i xs nd) = tx_have nd"
  "length (rx_rings (nd_rx (set_rx_array i xs nd))) = length (rx_rings (nd_rx nd))"
  by (simp_all add: set_rx_array_def Let_def tx_have_def rx_have_def map_update)

lemma have_lengths [simp]: "length (tx_have nd) = length (tx_rings (nd_tx nd))" "length (rx_have nd) = length (rx_rings (nd_rx nd))"
  by (simp_all add: tx_have_def rx_have_def)

lemma have_cong [simp]:
  "tx_have (nd\<lparr>nd_w := w\<rparr>) = tx_have nd" "tx_have (nd\<lparr>nd_coherent := c\<rparr>) = tx_have nd" "tx_have (nd\<lparr>TxPhyAddr := a\<rparr>) = tx_have nd"
  "tx_have (nd\<lparr>RxPhyAddr := a\<rparr>) = tx_have nd" "tx_have (nd\<lparr>ShortPacketEmptyBuffer := p\<rparr>) = tx_have nd"
  "rx_have (nd\<lparr>nd_w := w\<rparr>) = rx_have nd" "rx_have (nd\<lparr>nd_coherent := c\<rparr>) = rx_have nd" "rx_have (nd\<lparr>TxPhyAddr := a\<rparr>) = rx_have nd"
  "rx_have (nd\<lparr>RxPhyAddr := a\<rparr>) = rx_have nd" "rx_have (nd\<lparr>ShortPacketEmptyBuffer := p\<rparr>) = rx_have nd"
  by (simp_all add: tx_have_def rx_have_def)


lemma tx_set_coh:
  assumes "coh_ok nd" "i < length (tx_rings (nd_tx nd))" "\<not> tx_have nd ! i"
  shows "coh_ok (set_tx_array i [] nd)"
    "xs \<noteq> [] \<Longrightarrow> coh_ok (set_tx_array i xs (nd\<lparr>nd_coherent := add_mset b (nd_coherent nd), TxPhyAddr := (TxPhyAddr nd)[i := b]\<rparr>))"
  using assms blocks_update [of i "tx_have nd" "TxPhyAddr nd" False "TxPhyAddr nd ! i"]
    blocks_update [of i "tx_have nd" "TxPhyAddr nd" True b] unfolding coh_ok_def by simp_all

lemma rx_set_coh:
  assumes "coh_ok nd" "i < length (rx_rings (nd_rx nd))" "\<not> rx_have nd ! i"
  shows "coh_ok (set_rx_array i [] nd)"
    "xs \<noteq> [] \<Longrightarrow> coh_ok (set_rx_array i xs (nd\<lparr>nd_coherent := add_mset b (nd_coherent nd), RxPhyAddr := (RxPhyAddr nd)[i := b]\<rparr>))"
  using assms blocks_update [of i "rx_have nd" "RxPhyAddr nd" False "RxPhyAddr nd ! i"]
    blocks_update [of i "rx_have nd" "RxPhyAddr nd" True b] unfolding coh_ok_def by simp_all

lemma coh_ok_w [simp]: "coh_ok (nd\<lparr>nd_w := w\<rparr>) = coh_ok nd"
  by (simp add: coh_ok_def)

lemma mem_frame_fields [simp]:
  "mem_frame nd (nd'\<lparr>nd_w := w\<rparr>) = mem_frame nd nd'" "mem_frame nd (nd'\<lparr>nd_coherent := c\<rparr>) = mem_frame nd nd'"
  "mem_frame nd (nd'\<lparr>TxPhyAddr := a\<rparr>) = mem_frame nd nd'" "mem_frame nd (nd'\<lparr>RxPhyAddr := a\<rparr>) = mem_frame nd nd'"
  "mem_frame nd (nd'\<lparr>ShortPacketEmptyBuffer := p\<rparr>) = mem_frame nd nd'"
  "mem_frame nd (set_tx_array i xs nd') = mem_frame nd nd'" "mem_frame nd (set_rx_array i ys nd') = mem_frame nd nd'"
  by (simp_all add: mem_frame_def tx_strip_set rx_strip_set)

lemma mem_frame_lengths:
  assumes "mem_frame nd nd'"
  shows "length (tx_rings (nd_tx nd')) = length (tx_rings (nd_tx nd))" "length (rx_rings (nd_rx nd')) = length (rx_rings (nd_rx nd))"
proof -
  have "tx_strip (nd_tx nd') = tx_strip (nd_tx nd)" "rx_strip (nd_rx nd') = rx_strip (nd_rx nd)" using assms by (simp_all add: mem_frame_def)
  from arg_cong [OF this(1), of "\<lambda>d. length (tx_rings d)"] arg_cong [OF this(2), of "\<lambda>d. length (rx_rings d)"]
  show "length (tx_rings (nd_tx nd')) = length (tx_rings (nd_tx nd))" "length (rx_rings (nd_rx nd')) = length (rx_rings (nd_rx nd))"
    by (simp_all add: tx_strip_def rx_strip_def)
qed

lemma mem_frame_sel:
  assumes "mem_frame nd nd'"
  shows "lso_extra (nd_tx nd') = lso_extra (nd_tx nd)" "rx_stack (nd_rx nd') = rx_stack (nd_rx nd)" "rx_buf_sz (nd_rx nd') = rx_buf_sz (nd_rx nd)"
proof -
  have "tx_strip (nd_tx nd') = tx_strip (nd_tx nd)" "rx_strip (nd_rx nd') = rx_strip (nd_rx nd)" using assms by (simp_all add: mem_frame_def)
  from arg_cong [OF this(1), of lso_extra] arg_cong [OF this(2), of rx_stack] arg_cong [OF this(2), of rx_buf_sz]
  show "lso_extra (nd_tx nd') = lso_extra (nd_tx nd)" "rx_stack (nd_rx nd') = rx_stack (nd_rx nd)" "rx_buf_sz (nd_rx nd') = rx_buf_sz (nd_rx nd)"
    by (simp_all add: tx_strip_def rx_strip_def lso_extra_def)
qed

lemma alloc_tx_loop_spec:
  assumes "coh_ok nd" "\<forall>i \<in> set is. i < length (tx_rings (nd_tx nd)) \<and> \<not> tx_have nd ! i" "distinct is"
    "alloc_tx_loop K is nd = (ok, nd')"
  shows "coh_ok nd' \<and> mem_frame nd nd' \<and> rx_have nd' = rx_have nd \<and> ShortPacketEmptyBuffer nd' = ShortPacketEmptyBuffer nd
    \<and> (ok \<longrightarrow> (\<forall>i \<in> set is. tx_have nd' ! i))
    \<and> (\<forall>i. i \<notin> set is \<longrightarrow> tx_have nd' ! i = tx_have nd ! i)"
  using assms
proof (induction "is" arbitrary: nd)
  case Nil
  then show ?case by simp
next
  case (Cons i "is")
  let ?n = "unat (num_tx_desc (tx_rings (nd_tx nd) ! i)) + 1"
  have i: "i < length (tx_rings (nd_tx nd))" "\<not> tx_have nd ! i" using Cons.prems(2) by simp_all
  obtain p w where k: "nk_coherent K (?n * 32) (nd_w nd) = (p, w)" by (cases "nk_coherent K (?n * 32) (nd_w nd)")
  show ?case
  proof (cases p)
    case None
    then have "ok = False" "nd' = set_tx_array i [] (nd\<lparr>nd_w := w\<rparr>)"
      using Cons.prems(4) k by (simp_all add: dma_alloc_coherent_def Let_def)
    then show ?thesis using tx_set_coh(1) [of "nd\<lparr>nd_w := w\<rparr>"] Cons.prems(1) i by simp
  next
    case (Some b)
    let ?xs = "replicate ?n \<lparr>td_opts1 = 0, td_opts2 = 0, td_addr = 0\<rparr>"
    define nd1 where "nd1 = set_tx_array i ?xs ((nd\<lparr>nd_w := w\<rparr>)\<lparr>nd_coherent := add_mset b (nd_coherent nd), TxPhyAddr := (TxPhyAddr nd)[i := b]\<rparr>)"
    have l: "alloc_tx_loop K is nd1 = (ok, nd')"
      using Cons.prems(4) k Some by (simp add: dma_alloc_coherent_def Let_def nd1_def)
    have c: "coh_ok nd1" unfolding nd1_def using tx_set_coh(2) [of "nd\<lparr>nd_w := w\<rparr>" i ?xs b] Cons.prems(1) i by simp
    have h: "tx_have nd1 = (tx_have nd)[i := True]" "rx_have nd1 = rx_have nd" "mem_frame nd nd1"
        "ShortPacketEmptyBuffer nd1 = ShortPacketEmptyBuffer nd" "length (tx_rings (nd_tx nd1)) = length (tx_rings (nd_tx nd))"
      by (simp_all add: nd1_def)
    have d: "i \<notin> set is" "distinct is" using Cons.prems(3) by simp_all
    have p: "\<forall>j \<in> set is. j < length (tx_rings (nd_tx nd1)) \<and> \<not> tx_have nd1 ! j"
      using Cons.prems(2) d(1) h(1,5) by (auto simp: nth_list_update)
    from Cons.IH [OF c p d(2) l] h d i show ?thesis
      using mem_frame_trans by (auto simp: nth_list_update)
  qed
qed

lemma alloc_rx_loop_spec:
  assumes "coh_ok nd" "\<forall>i \<in> set is. i < length (rx_rings (nd_rx nd)) \<and> \<not> rx_have nd ! i" "distinct is"
    "alloc_rx_loop K is nd = (ok, nd')"
  shows "coh_ok nd' \<and> mem_frame nd nd' \<and> tx_have nd' = tx_have nd \<and> ShortPacketEmptyBuffer nd' = ShortPacketEmptyBuffer nd
    \<and> (ok \<longrightarrow> (\<forall>i \<in> set is. rx_have nd' ! i))
    \<and> (\<forall>i. i \<notin> set is \<longrightarrow> rx_have nd' ! i = rx_have nd ! i)"
  using assms
proof (induction "is" arbitrary: nd)
  case Nil
  then show ?case by simp
next
  case (Cons i "is")
  let ?n = "unat (num_rx_desc (rx_rings (nd_rx nd) ! i)) + 1"
  let ?sz = "?n * (if rx_type3 (nd_rx nd) then 32 else 16)"
  have i: "i < length (rx_rings (nd_rx nd))" "\<not> rx_have nd ! i" using Cons.prems(2) by simp_all
  obtain p w where k: "nk_coherent K ?sz (nd_w nd) = (p, w)" by (cases "nk_coherent K ?sz (nd_w nd)")
  show ?case
  proof (cases p)
    case None
    then have "ok = False" "nd' = set_rx_array i [] (nd\<lparr>nd_w := w\<rparr>)"
      using Cons.prems(4) k by (simp_all add: dma_alloc_coherent_def Let_def)
    then show ?thesis using rx_set_coh(1) [of "nd\<lparr>nd_w := w\<rparr>"] Cons.prems(1) i by simp
  next
    case (Some b)
    let ?xs = "replicate ?n rx_desc_zero"
    define nd1 where "nd1 = set_rx_array i ?xs ((nd\<lparr>nd_w := w\<rparr>)\<lparr>nd_coherent := add_mset b (nd_coherent nd), RxPhyAddr := (RxPhyAddr nd)[i := b]\<rparr>)"
    have l: "alloc_rx_loop K is nd1 = (ok, nd')"
      using Cons.prems(4) k Some by (simp add: dma_alloc_coherent_def Let_def nd1_def)
    have c: "coh_ok nd1" unfolding nd1_def using rx_set_coh(2) [of "nd\<lparr>nd_w := w\<rparr>" i ?xs b] Cons.prems(1) i by simp
    have h: "rx_have nd1 = (rx_have nd)[i := True]" "tx_have nd1 = tx_have nd" "mem_frame nd nd1"
        "ShortPacketEmptyBuffer nd1 = ShortPacketEmptyBuffer nd" "length (rx_rings (nd_rx nd1)) = length (rx_rings (nd_rx nd))"
      by (simp_all add: nd1_def)
    have d: "i \<notin> set is" "distinct is" using Cons.prems(3) by simp_all
    have p: "\<forall>j \<in> set is. j < length (rx_rings (nd_rx nd1)) \<and> \<not> rx_have nd1 ! j"
      using Cons.prems(2) d(1) h(1,5) by (auto simp: nth_list_update)
    from Cons.IH [OF c p d(2) l] h d i show ?thesis
      using mem_frame_trans by (auto simp: nth_list_update)
  qed
qed


text \<open>Freeing gives every block back.\<close>

lemma free_tx_one_spec:
  assumes "coh_ok nd" "i < length (tx_rings (nd_tx nd))"
  shows "coh_ok (free_tx_one i nd)" "mem_frame nd (free_tx_one i nd)" "rx_have (free_tx_one i nd) = rx_have nd"
    "tx_have (free_tx_one i nd) = (tx_have nd)[i := False]" "ShortPacketEmptyBuffer (free_tx_one i nd) = ShortPacketEmptyBuffer nd"
proof -
  have h: "TxDescArray (tx_rings (nd_tx nd) ! i) \<noteq> [] \<longleftrightarrow> tx_have nd ! i" using assms(2) by (simp add: tx_have_def)
  have u: "(tx_have nd)[i := False] = tx_have nd" if "\<not> tx_have nd ! i" using that by (metis list_update_id)
  show "coh_ok (free_tx_one i nd)"
    using assms by (simp add: free_tx_one_def h coh_ok_def dma_free_coherent_def blocks_take)
  show "mem_frame nd (free_tx_one i nd)" "rx_have (free_tx_one i nd) = rx_have nd"
    "tx_have (free_tx_one i nd) = (tx_have nd)[i := False]" "ShortPacketEmptyBuffer (free_tx_one i nd) = ShortPacketEmptyBuffer nd"
    using u by (simp_all add: free_tx_one_def h dma_free_coherent_def)
qed

lemma free_rx_one_spec:
  assumes "coh_ok nd" "i < length (rx_rings (nd_rx nd))"
  shows "coh_ok (free_rx_one i nd)" "mem_frame nd (free_rx_one i nd)" "tx_have (free_rx_one i nd) = tx_have nd"
    "rx_have (free_rx_one i nd) = (rx_have nd)[i := False]" "ShortPacketEmptyBuffer (free_rx_one i nd) = ShortPacketEmptyBuffer nd"
proof -
  have h: "RxDescArray (rx_rings (nd_rx nd) ! i) \<noteq> [] \<longleftrightarrow> rx_have nd ! i" using assms(2) by (simp add: rx_have_def)
  have u: "(rx_have nd)[i := False] = rx_have nd" if "\<not> rx_have nd ! i" using that by (metis list_update_id)
  show "coh_ok (free_rx_one i nd)"
    using assms by (simp add: free_rx_one_def h coh_ok_def dma_free_coherent_def blocks_take)
  show "mem_frame nd (free_rx_one i nd)" "tx_have (free_rx_one i nd) = tx_have nd"
    "rx_have (free_rx_one i nd) = (rx_have nd)[i := False]" "ShortPacketEmptyBuffer (free_rx_one i nd) = ShortPacketEmptyBuffer nd"
    using u by (simp_all add: free_rx_one_def h dma_free_coherent_def)
qed

lemma free_tx_fold:
  assumes "coh_ok nd" "m \<le> length (tx_rings (nd_tx nd))" "nd' = fold free_tx_one [0 ..< m] nd"
  shows "coh_ok nd' \<and> mem_frame nd nd' \<and> rx_have nd' = rx_have nd \<and> ShortPacketEmptyBuffer nd' = ShortPacketEmptyBuffer nd
    \<and> (\<forall>i < m. \<not> tx_have nd' ! i)"
  using assms(2,3)
proof (induction m arbitrary: nd')
  case 0
  then show ?case using assms(1) by simp
next
  case (Suc m)
  let ?nd = "fold free_tx_one [0 ..< m] nd"
  have ih: "coh_ok ?nd" "mem_frame nd ?nd" "rx_have ?nd = rx_have nd" "ShortPacketEmptyBuffer ?nd = ShortPacketEmptyBuffer nd"
      "\<forall>i < m. \<not> tx_have ?nd ! i" using Suc.IH [OF _ refl] Suc.prems(1) by simp_all
  have m: "m < length (tx_rings (nd_tx ?nd))" using mem_frame_lengths [OF ih(2)] Suc.prems(1) by simp
  show ?case
    using free_tx_one_spec [OF ih(1) m] ih m mem_frame_trans Suc.prems(2) by (auto simp: nth_list_update less_Suc_eq)
qed

lemma free_rx_fold:
  assumes "coh_ok nd" "m \<le> length (rx_rings (nd_rx nd))" "nd' = fold free_rx_one [0 ..< m] nd"
  shows "coh_ok nd' \<and> mem_frame nd nd' \<and> tx_have nd' = tx_have nd \<and> ShortPacketEmptyBuffer nd' = ShortPacketEmptyBuffer nd
    \<and> (\<forall>i < m. \<not> rx_have nd' ! i)"
  using assms(2,3)
proof (induction m arbitrary: nd')
  case 0
  then show ?case using assms(1) by simp
next
  case (Suc m)
  let ?nd = "fold free_rx_one [0 ..< m] nd"
  have ih: "coh_ok ?nd" "mem_frame nd ?nd" "tx_have ?nd = tx_have nd" "ShortPacketEmptyBuffer ?nd = ShortPacketEmptyBuffer nd"
      "\<forall>i < m. \<not> rx_have ?nd ! i" using Suc.IH [OF _ refl] Suc.prems(1) by simp_all
  have m: "m < length (rx_rings (nd_rx ?nd))" using mem_frame_lengths [OF ih(2)] Suc.prems(1) by simp
  show ?case
    using free_rx_one_spec [OF ih(1) m] ih m mem_frame_trans Suc.prems(2) by (auto simp: nth_list_update less_Suc_eq)
qed

lemma resource_freed_have: "resource_freed nd \<longleftrightarrow> list_all Not (tx_have nd) \<and> list_all Not (rx_have nd)"
  by (simp add: resource_freed_def tx_have_def rx_have_def list_all_iff)

lemma free_alloc_spec:
  assumes "coh_ok nd" "nd' = free_alloc_resources nd"
  shows "coh_ok nd'" "mem_frame nd nd'" "resource_freed nd'" "nd_coherent nd' = {#}" "ShortPacketEmptyBuffer nd' = None"
proof -
  have r: "coh_ok (free_rx_desc nd)" "mem_frame nd (free_rx_desc nd)" "tx_have (free_rx_desc nd) = tx_have nd"
    "\<forall>i < length (rx_rings (nd_rx nd)). \<not> rx_have (free_rx_desc nd) ! i"
    using free_rx_fold [OF assms(1) order_refl refl] by (simp_all add: free_rx_desc_def)
  define nd1 where "nd1 = free_tx_desc (free_rx_desc nd)"
  have t: "coh_ok nd1" "mem_frame (free_rx_desc nd) nd1" "rx_have nd1 = rx_have (free_rx_desc nd)"
    "\<forall>i < length (tx_rings (nd_tx (free_rx_desc nd))). \<not> tx_have nd1 ! i"
    using free_tx_fold [OF r(1) order_refl refl] by (simp_all add: free_tx_desc_def nd1_def)
  have n: "list_all Not (tx_have nd1)" "list_all Not (rx_have nd1)"
    using r t mem_frame_lengths [OF r(2)] mem_frame_lengths [OF t(2)] by (simp_all add: list_all_length)
  have p: "nd' = free_patch_mem nd1" using assms(2) by (simp add: free_alloc_resources_def nd1_def)
  have h: "tx_have nd' = tx_have nd1" "rx_have nd' = rx_have nd1"
    by (simp_all add: p free_patch_mem_def dma_free_coherent_def split: option.splits)
  show e: "ShortPacketEmptyBuffer nd' = None" by (simp add: p free_patch_mem_def split: option.splits)
  show c: "coh_ok nd'"
    using t(1) by (auto simp: p free_patch_mem_def dma_free_coherent_def coh_ok_def split: option.splits)
  have "mem_frame nd1 nd'" by (simp add: p free_patch_mem_def dma_free_coherent_def split: option.splits)
  then show "mem_frame nd nd'" using r(2) t(2) mem_frame_trans by blast
  show "resource_freed nd'" using n h by (simp add: resource_freed_have)
  show "nd_coherent nd' = {#}" using c e n h by (simp add: coh_ok_def blocks_none)
qed


section \<open>Closed and open devices\<close>

text \<open>
  \<open>acc\<close> lists the socket buffers the transmit path took over. An idle device holds no buffer and no
  mapping; every buffer it took over is released, every buffer it allocated is freed or was handed to
  the network stack.
\<close>

definition tx_idle :: "nat list \<Rightarrow> 'w tx_dev \<Rightarrow> bool" where
  "tx_idle acc d \<longleftrightarrow> list_all tx_room (tx_rings d) \<and> mset acc = mset (freed d) \<and> mapped d = {#}"

definition net_idle :: "nat list \<Rightarrow> ('w, 'v, 'u) net_dev \<Rightarrow> bool" where
  "net_idle acc nd \<longleftrightarrow> tx_idle acc (nd_tx nd) \<and> rx_down (nd_rx nd) \<and> tx_rings (nd_tx nd) \<noteq> []"

definition net_closed :: "nat list \<Rightarrow> ('w, 'v, 'u) net_dev \<Rightarrow> bool" where
  "net_closed acc nd \<longleftrightarrow> net_idle acc nd \<and> coh_ok nd \<and> resource_freed nd \<and> nd_coherent nd = {#} \<and> ShortPacketEmptyBuffer nd = None
     \<and> list_all Not (irq_requested nd) \<and> list_all Not (napi_on nd)"

definition net_up :: "nat \<Rightarrow> nat \<Rightarrow> nat \<Rightarrow> rx_pkt list \<Rightarrow> ('w, 'v, 'u) net_dev \<times> nat list \<Rightarrow> bool" where
  "net_up n x m T na \<longleftrightarrow> (case na of (nd, acc) \<Rightarrow> 0 < n \<and> tx_inv n x (nd_tx nd, acc) \<and> rx_live m T (nd_rx nd) \<and> coh_ok nd
     \<and> list_all (\<lambda>b. b) (napi_on nd))"

lemma tx_idle_strip: "tx_idle acc (tx_strip d) = tx_idle acc d"
  by (simp add: tx_idle_def tx_strip_def list_all_iff tx_room_def)

lemma rx_down_strip: "rx_down (rx_strip d) = rx_down d"
  by (simp add: rx_down_def rx_strip_def list_all_iff ring_empty_def)

lemma net_idle_frame: "mem_frame nd nd' \<Longrightarrow> net_idle acc nd' = net_idle acc nd"
  using mem_frame_lengths [of nd nd'] tx_idle_strip [of acc "nd_tx nd'"] tx_idle_strip [of acc "nd_tx nd"]
    rx_down_strip [of "nd_rx nd'"] rx_down_strip [of "nd_rx nd"]
  by (auto simp: mem_frame_def net_idle_def)

lemma tx_inv_arrays: "tx_inv n x (d, acc) \<Longrightarrow> list_all (\<lambda>r. TxDescArray r \<noteq> []) (tx_rings d)"
  by (auto simp: tx_inv_def list_all_iff ring_ok_def size_ok_def)

lemma rx_inv_arrays: "rx_inv T d \<Longrightarrow> list_all (\<lambda>r. RxDescArray r \<noteq> []) (rx_rings d)"
  by (auto simp: rx_inv_def list_all_iff rx_size_ok_def)

lemma have_all:
  "list_all (\<lambda>r. TxDescArray r \<noteq> []) (tx_rings (nd_tx nd)) \<Longrightarrow> tx_have nd = replicate (length (tx_rings (nd_tx nd))) True"
  "list_all (\<lambda>r. RxDescArray r \<noteq> []) (rx_rings (nd_rx nd)) \<Longrightarrow> rx_have nd = replicate (length (rx_rings (nd_rx nd))) True"
  by (auto simp: tx_have_def rx_have_def list_all_iff intro!: replicate_eqI)

text \<open>Operations that keep the number of rings and leave every ring its array keep the account of blocks.\<close>

lemma coh_ok_paths:
  assumes "coh_ok nd" "tx_have nd = replicate (length (tx_rings (nd_tx nd))) True" "rx_have nd = replicate (length (rx_rings (nd_rx nd))) True"
    "list_all (\<lambda>r. TxDescArray r \<noteq> []) (tx_rings tx)" "list_all (\<lambda>r. RxDescArray r \<noteq> []) (rx_rings rx)"
    "length (tx_rings tx) = length (tx_rings (nd_tx nd))" "length (rx_rings rx) = length (rx_rings (nd_rx nd))"
  shows "coh_ok (nd\<lparr>nd_tx := tx, nd_rx := rx\<rparr>)"
  using assms have_all [of "nd\<lparr>nd_tx := tx, nd_rx := rx\<rparr>"] by (simp add: coh_ok_def)

lemma init_ring_spec:
  assumes "net_idle acc nd" "coh_ok nd" "tx_have nd = replicate (length (tx_rings (nd_tx nd))) True"
    "rx_have nd = replicate (length (rx_rings (nd_rx nd))) True" "init_ring K nd = (ret, nd')"
  defines "n \<equiv> length (tx_rings (nd_tx nd))" and "m \<equiv> length (rx_rings (nd_rx nd))"
  shows "coh_ok nd'" "0 < n" "tx_inv n (lso_extra (nd_tx nd)) (nd_tx nd', acc)" "rx_inv (rx_stack (nd_rx nd)) (nd_rx nd')"
    "length (rx_rings (nd_rx nd')) = m" "rx_stack (nd_rx nd') = rx_stack (nd_rx nd)" "rx_buf_sz (nd_rx nd') = rx_buf_sz (nd_rx nd)"
    "nd' = nd\<lparr>nd_tx := nd_tx nd', nd_rx := nd_rx nd'\<rparr>" "ret = 0 \<or> ret = - ENOMEM"
    "ret = 0 \<Longrightarrow> rx_live m (rx_stack (nd_rx nd)) (nd_rx nd')" "ret \<noteq> 0 \<Longrightarrow> net_idle acc nd'"
proof -
  have idle: "tx_idle acc (nd_tx nd)" "rx_down (nd_rx nd)" "tx_rings (nd_tx nd) \<noteq> []" using assms(1) by (simp_all add: net_idle_def)
  obtain rx where i: "init_rx (nk_rx K) (nd_rx nd) = (ret, rx)" and e: "nd' = nd\<lparr>nd_tx := init_tx (nd_tx nd), nd_rx := rx\<rparr>"
    using assms(5) by (cases "init_rx (nk_rx K) (nd_rx nd)") (simp add: init_ring_def)
  note r = init_rx_spec [OF idle(2) i]
  have t: "tx_inv n (lso_extra (nd_tx nd)) (init_tx (nd_tx nd), acc)"
    unfolding n_def using idle(1) by (intro tx_inv_init) (simp_all add: tx_idle_def)
  then have ln: "length (tx_rings (init_tx (nd_tx nd))) = n" by (simp add: tx_inv_def)
  show "coh_ok nd'"
    unfolding e using coh_ok_paths [OF assms(2-4) tx_inv_arrays [OF t] rx_inv_arrays [OF r(1)]] ln r(4) by (simp add: n_def)
  show "0 < n" "tx_inv n (lso_extra (nd_tx nd)) (nd_tx nd', acc)" "rx_inv (rx_stack (nd_rx nd)) (nd_rx nd')"
    "length (rx_rings (nd_rx nd')) = m" "rx_stack (nd_rx nd') = rx_stack (nd_rx nd)" "rx_buf_sz (nd_rx nd') = rx_buf_sz (nd_rx nd)"
    "nd' = nd\<lparr>nd_tx := nd_tx nd', nd_rx := nd_rx nd'\<rparr>" "ret = 0 \<or> ret = - ENOMEM"
    using idle(3) t r by (auto simp: e n_def m_def)
  show "rx_live m (rx_stack (nd_rx nd)) (nd_rx nd')" if "ret = 0"
    using r that by (simp add: e rx_live_def m_def list_all_iff ring_full_def)
  show "net_idle acc nd'" if "ret \<noteq> 0"
  proof -
    have "tx_idle acc (init_tx (nd_tx nd))"
      using idle(1) by (auto simp: tx_idle_def init_tx_def list_all_iff tx_room_def init_tx_ring_def tx_desc_init_def init_tx_indexes_def Let_def)
    moreover have "rx_down rx" using rx_downI [OF r(1)] r(3) [OF that] r(5) by simp
    ultimately show ?thesis using ln idle(3) by (auto simp: net_idle_def e n_def)
  qed
qed


section \<open>Opening\<close>

lemma net_closed_log [simp]: "net_closed acc (hw_log l nd) = net_closed acc nd"
  by (simp add: net_closed_def net_idle_def coh_ok_def tx_have_def rx_have_def resource_freed_def hw_log_def)

lemma net_closed_rxbufsize [simp]: "net_closed acc (set_rxbufsize_dev nd) = net_closed acc nd"
  by (simp add: net_closed_def net_idle_def set_rxbufsize_dev_def rx_down_def coh_ok_def resource_freed_def tx_have_def rx_have_def)

lemma freed_have:
  assumes "resource_freed nd"
  shows "i < length (tx_rings (nd_tx nd)) \<Longrightarrow> \<not> tx_have nd ! i" "i < length (rx_rings (nd_rx nd)) \<Longrightarrow> \<not> rx_have nd ! i"
  using assms by (simp_all add: resource_freed_have list_all_length)

lemma have_full:
  "\<forall>i < length (tx_rings (nd_tx nd)). tx_have nd ! i \<Longrightarrow> tx_have nd = replicate (length (tx_rings (nd_tx nd))) True"
  "\<forall>i < length (rx_rings (nd_rx nd)). rx_have nd ! i \<Longrightarrow> rx_have nd = replicate (length (rx_rings (nd_rx nd))) True"
  by (auto intro!: nth_equalityI)

text \<open>The allocation of all descriptors; when it fails, freeing leaves a closed device.\<close>

lemma closed_free:
  assumes "net_idle acc nd" "coh_ok nd" "list_all Not (napi_on nd)" "list_all Not (irq_requested nd)"
  shows "net_closed acc (free_alloc_resources nd)"
proof -
  note f = free_alloc_spec [OF assms(2) refl]
  have "net_idle acc (free_alloc_resources nd)" using net_idle_frame [OF f(2)] assms(1) by simp
  then show ?thesis using f assms(3,4) by (simp add: net_closed_def mem_frame_def)
qed

lemma closed_after_free:
  assumes "net_closed acc nd" "coh_ok nd1" "mem_frame nd nd1"
  shows "net_closed acc (free_alloc_resources nd1)"
  by (rule closed_free [OF _ assms(2)]) (use assms net_idle_frame [OF assms(3)] in \<open>auto simp: net_closed_def mem_frame_def\<close>)

lemma alloc_descs:
  assumes "net_closed acc nd" "alloc_tx_desc K nd = (ok1, nd1)" "alloc_rx_desc K nd1 = (ok2, nd2)"
  shows "coh_ok nd1 \<and> mem_frame nd nd1" "ok1 \<Longrightarrow> coh_ok nd2 \<and> mem_frame nd nd2 \<and> ShortPacketEmptyBuffer nd2 = None"
    "ok1 \<Longrightarrow> ok2 \<Longrightarrow> tx_have nd2 = replicate (length (tx_rings (nd_tx nd2))) True \<and> rx_have nd2 = replicate (length (rx_rings (nd_rx nd2))) True"
proof -
  have c: "coh_ok nd" "resource_freed nd" "ShortPacketEmptyBuffer nd = None" using assms(1) by (simp_all add: net_closed_def)
  have a1: "coh_ok nd1" "mem_frame nd nd1" "rx_have nd1 = rx_have nd" "ShortPacketEmptyBuffer nd1 = None"
      "ok1 \<longrightarrow> (\<forall>i < length (tx_rings (nd_tx nd)). tx_have nd1 ! i)"
    using alloc_tx_loop_spec [OF c(1) _ _ assms(2) [unfolded alloc_tx_desc_def]] freed_have [OF c(2)] c(3) by auto
  note l1 = mem_frame_lengths [OF a1(2)]
  show "coh_ok nd1 \<and> mem_frame nd nd1" using a1 by simp
  have a2: "coh_ok nd2" "mem_frame nd1 nd2" "tx_have nd2 = tx_have nd1" "ShortPacketEmptyBuffer nd2 = None"
      "ok2 \<longrightarrow> (\<forall>i < length (rx_rings (nd_rx nd1)). rx_have nd2 ! i)"
    using alloc_rx_loop_spec [OF a1(1) _ _ assms(3) [unfolded alloc_rx_desc_def]] freed_have [OF c(2)] a1(3,4) l1 by auto
  note l2 = mem_frame_lengths [OF a2(2)]
  show "coh_ok nd2 \<and> mem_frame nd nd2 \<and> ShortPacketEmptyBuffer nd2 = None" using a1 a2 mem_frame_trans by blast
  show "tx_have nd2 = replicate (length (tx_rings (nd_tx nd2))) True \<and> rx_have nd2 = replicate (length (rx_rings (nd_rx nd2))) True"
    if ok1 ok2 using that a1(5) a2(3,5) l1 l2 have_full [of nd2] by simp
qed

lemma alloc_patch_spec:
  assumes "coh_ok nd" "ShortPacketEmptyBuffer nd = None" "alloc_patch_mem K nd = (ok, nd')"
  shows "coh_ok nd'" "mem_frame nd nd'" "nd_tx nd' = nd_tx nd" "nd_rx nd' = nd_rx nd"
  using assms
  by (auto simp: alloc_patch_mem_def dma_alloc_coherent_def coh_ok_def mem_frame_def split: if_splits prod.splits option.splits)

lemma irq_loop_spec:
  "irq_loop K is nd = (rc, nd') \<Longrightarrow>
     coh_ok nd' = coh_ok nd \<and> nd_tx nd' = nd_tx nd \<and> nd_rx nd' = nd_rx nd \<and> napi_on nd' = napi_on nd \<and> nd_coherent nd' = nd_coherent nd
     \<and> TxPhyAddr nd' = TxPhyAddr nd \<and> RxPhyAddr nd' = RxPhyAddr nd \<and> netif_running nd' = netif_running nd"
proof (induction "is" arbitrary: nd)
  case Nil
  then show ?case by simp
next
  case (Cons i "is")
  obtain r w where k: "nk_irq K i (nd_w nd) = (r, w)" by (cases "nk_irq K i (nd_w nd)")
  have c: "coh_ok (nd\<lparr>nd_w := w, irq_requested := q\<rparr>) = coh_ok nd" for q by (simp add: coh_ok_def tx_have_def rx_have_def)
  show ?case
  proof (cases "r = 0")
    case True
    then have "irq_loop K is (nd\<lparr>nd_w := w, irq_requested := (irq_requested nd)[i := True]\<rparr>) = (rc, nd')" using Cons.prems k by simp
    from Cons.IH [OF this] c show ?thesis by simp
  next
    case False
    then show ?thesis using Cons.prems k by auto
  qed
qed

lemma irq_loop_rc: "irq_loop K is nd = (rc, nd') \<Longrightarrow> \<forall>i w. fst (nk_irq K i w) \<le> 0 \<Longrightarrow> rc \<le> 0"
proof (induction "is" arbitrary: nd)
  case Nil
  then show ?case by simp
next
  case (Cons i "is")
  obtain r w where k: "nk_irq K i (nd_w nd) = (r, w)" by (cases "nk_irq K i (nd_w nd)")
  have "r \<le> 0" using Cons.prems(2) k by (metis fst_conv)
  then show ?case using Cons k by (auto simp: Let_def split: if_splits)
qed

lemma alloc_irq_rc:
  assumes "alloc_irq K nd = (rc, nd')" "\<forall>i w. fst (nk_irq K i w) \<le> 0"
  shows "rc \<le> 0"
  using assms(1) irq_loop_rc [OF _ assms(2)] by (auto simp: alloc_irq_def split: prod.splits)

lemma alloc_irq_spec:
  assumes "alloc_irq K nd = (rc, nd')"
  shows "coh_ok nd' = coh_ok nd" "nd_tx nd' = nd_tx nd" "nd_rx nd' = nd_rx nd" "napi_on nd' = napi_on nd"
    "netif_running nd' = netif_running nd" "rc \<noteq> 0 \<Longrightarrow> list_all Not (irq_requested nd')"
proof -
  obtain r nd1 where l: "irq_loop K (if msix_vectors nd then [0 ..< length (irq_requested nd)] else [0]) nd = (r, nd1)"
    by (cases "irq_loop K (if msix_vectors nd then [0 ..< length (irq_requested nd)] else [0]) nd")
  have e: "rc = r" "nd' = (if rc \<noteq> 0 then free_irq nd1 else nd1)" using assms l by (auto simp: alloc_irq_def)
  have c: "coh_ok (free_irq nd1) = coh_ok nd1" by (simp add: coh_ok_def free_irq_def tx_have_def rx_have_def)
  show "coh_ok nd' = coh_ok nd" "nd_tx nd' = nd_tx nd" "nd_rx nd' = nd_rx nd" "napi_on nd' = napi_on nd"
    "netif_running nd' = netif_running nd" "rc \<noteq> 0 \<Longrightarrow> list_all Not (irq_requested nd')"
    using irq_loop_spec [OF l] c by (simp_all add: e) (simp_all add: free_irq_def list_all_iff)
qed


lemma open_tail_spec:
  assumes "list_all Not (napi_on nd)"
  shows "\<exists>nd'. open_tail nd = Some nd' \<and> nd_tx nd' = nd_tx nd \<and> nd_rx nd' = nd_rx nd \<and> coh_ok nd' = coh_ok nd
    \<and> list_all (\<lambda>b. b) (napi_on nd') \<and> netif_running nd' = netif_running nd"
  using assms by (simp add: open_tail_def enable_napi_def hw_log_def Let_def coh_ok_def tx_have_def rx_have_def list_all_iff)

text \<open>
  What is left behind when opening fails after the rings were filled: no descriptor memory, but every
  receive buffer with its mapping.
\<close>

definition buffers_leaked :: "nat list \<Rightarrow> ('w, 'v, 'u) net_dev \<Rightarrow> bool" where
  "buffers_leaked acc nd \<longleftrightarrow> tx_idle acc (nd_tx nd) \<and> resource_freed nd \<and> nd_coherent nd = {#} \<and> ShortPacketEmptyBuffer nd = None
     \<and> list_all Not (napi_on nd) \<and> list_all Not (irq_requested nd)
     \<and> list_all (\<lambda>r. \<forall>i < rx_n r. Rx_skbuff r ! i \<noteq> None) (rx_rings (nd_rx nd))
     \<and> rx_mapped (nd_rx nd) = sum_list (map (buf_maps (rx_buf_sz (nd_rx nd))) (rx_rings (nd_rx nd)))"

lemma rx_strip_full:
  assumes "rx_strip d' = rx_strip d" "list_all (\<lambda>r. \<forall>i < rx_n r. Rx_skbuff r ! i \<noteq> None) (rx_rings d)"
    "rx_mapped d = sum_list (map (buf_maps (rx_buf_sz d)) (rx_rings d))"
  shows "list_all (\<lambda>r. \<forall>i < rx_n r. Rx_skbuff r ! i \<noteq> None) (rx_rings d')"
    "rx_mapped d' = sum_list (map (buf_maps (rx_buf_sz d')) (rx_rings d'))"
proof -
  let ?s = "\<lambda>r. r\<lparr>RxDescArray := []\<rparr>"
  have e: "map ?s (rx_rings d') = map ?s (rx_rings d)" "rx_mapped d' = rx_mapped d" "rx_buf_sz d' = rx_buf_sz d"
    using arg_cong [OF assms(1), of rx_rings] arg_cong [OF assms(1), of rx_mapped] arg_cong [OF assms(1), of rx_buf_sz]
    by (simp_all add: rx_strip_def)
  have f: "(\<forall>i < rx_n r. Rx_skbuff r ! i \<noteq> None) = (\<forall>i < rx_n (?s r). Rx_skbuff (?s r) ! i \<noteq> None)"
    and g: "buf_maps sz r = buf_maps sz (?s r)" for r sz by (simp_all add: buf_maps_def bufs_def)
  have h: "list_all (\<lambda>r. \<forall>i < rx_n r. Rx_skbuff r ! i \<noteq> None) rs = list_all (\<lambda>r. \<forall>i < rx_n r. Rx_skbuff r ! i \<noteq> None) (map ?s rs)" for rs
    by (simp add: list_all_iff)
  show "list_all (\<lambda>r. \<forall>i < rx_n r. Rx_skbuff r ! i \<noteq> None) (rx_rings d')"
    unfolding h [of "rx_rings d'"] e(1) h [of "rx_rings d", symmetric] by (rule assms(2))
  have m: "map (buf_maps sz) rs = map (buf_maps sz) (map ?s rs)" for rs sz by (simp add: comp_def flip: g)
  show "rx_mapped d' = sum_list (map (buf_maps (rx_buf_sz d')) (rx_rings d'))"
    unfolding m [of _ "rx_rings d'"] e m [of _ "rx_rings d", symmetric] by (rule assms(3))
qed

lemma tx_fresh_idle:
  assumes "tx_idle acc d"
  shows "tx_idle acc (init_tx d)"
  using assms by (auto simp: tx_idle_def init_tx_def list_all_iff tx_room_def init_tx_ring_def tx_desc_init_def init_tx_indexes_def Let_def)

lemma leak_after_fill:
  assumes "init_ring K nd2 = (ret, nd3)" "\<not> ret < 0" "net_idle acc nd2" "coh_ok nd4" "nd_tx nd4 = nd_tx nd3" "nd_rx nd4 = nd_rx nd3" "list_all Not (napi_on nd4)" "list_all Not (irq_requested nd4)"
  shows "buffers_leaked acc (free_alloc_resources nd4)"
proof -
  note f = free_alloc_spec [OF assms(4) refl]
  obtain rx where i: "init_rx (nk_rx K) (nd_rx nd2) = (ret, rx)" and e: "nd_tx nd4 = init_tx (nd_tx nd2)" "nd_rx nd4 = rx"
    using assms(1,5,6) by (cases "init_rx (nk_rx K) (nd_rx nd2)") (auto simp: init_ring_def)
  have idle: "tx_idle acc (nd_tx nd2)" "rx_down (nd_rx nd2)" using assms(3) by (simp_all add: net_idle_def)
  note r = init_rx_spec [OF idle(2) i]
  have "ret = 0" using r(3) assms(2) by fastforce
  then have full: "list_all (\<lambda>r. \<forall>i < rx_n r. Rx_skbuff r ! i \<noteq> None) (rx_rings rx)" using r(2) by (simp add: list_all_iff ring_full_def)
  have mp: "rx_mapped rx = sum_list (map (buf_maps (rx_buf_sz rx)) (rx_rings rx))" using r(1) by (simp add: rx_inv_def)
  have st: "tx_strip (nd_tx (free_alloc_resources nd4)) = tx_strip (init_tx (nd_tx nd2))" "rx_strip (nd_rx (free_alloc_resources nd4)) = rx_strip rx"
      "napi_on (free_alloc_resources nd4) = napi_on nd4" "irq_requested (free_alloc_resources nd4) = irq_requested nd4"
    using f(2) e by (simp_all add: mem_frame_def)
  have "tx_idle acc (nd_tx (free_alloc_resources nd4))"
    using tx_idle_strip [of acc "nd_tx (free_alloc_resources nd4)"] tx_idle_strip [of acc "init_tx (nd_tx nd2)"] st(1) tx_fresh_idle [OF idle(1)] by simp
  then show ?thesis using f st(3,4) rx_strip_full [OF st(2) full mp] assms(7,8) by (simp add: buffers_leaked_def)
qed

lemma open_outcome:
  fixes K :: "('w, 'v, 'u) net_kern"
  assumes "net_closed acc nd" "\<forall>i w. fst (nk_irq K i w) \<le> 0"
  shows "\<exists>ret nd'. rtl8125_open K nd = Some (ret, nd') \<and>
    ((ret = 0 \<and> net_up (length (tx_rings (nd_tx nd))) (lso_extra (nd_tx nd)) (length (rx_rings (nd_rx nd))) (rx_stack (nd_rx nd)) (nd', acc)
        \<and> rx_buf_sz (nd_rx nd') = set_rxbufsize (nd_mtu nd))
     \<or> (ret < 0 \<and> (net_closed acc nd' \<or> buffers_leaked acc nd')))"
proof -
  define nd0 where "nd0 = set_rxbufsize_dev (hw_log [NetProcInit] nd)"
  have c0: "net_closed acc nd0" using assms(1) by (simp add: nd0_def)
  have sz: "nd_tx nd0 = nd_tx nd" "rx_rings (nd_rx nd0) = rx_rings (nd_rx nd)" "rx_stack (nd_rx nd0) = rx_stack (nd_rx nd)"
      "rx_buf_sz (nd_rx nd0) = set_rxbufsize (nd_mtu nd)" by (simp_all add: nd0_def set_rxbufsize_dev_def hw_log_def)
  have closed: "napi_on nd0 = napi_on nd" "irq_requested nd0 = irq_requested nd" "list_all Not (napi_on nd)" "list_all Not (irq_requested nd)"
    using assms(1) by (simp_all add: nd0_def set_rxbufsize_dev_def net_closed_def hw_log_def)
  obtain ok1 nd1 where a1: "alloc_tx_desc K nd0 = (ok1, nd1)" by (cases "alloc_tx_desc K nd0")
  obtain ok2 nd2 where a2: "alloc_rx_desc K nd1 = (ok2, nd2)" by (cases "alloc_rx_desc K nd1")
  note a = alloc_descs [OF c0 a1 a2]
  obtain ret3 nd3 where i3: "init_ring K nd2 = (ret3, nd3)" by (cases "init_ring K nd2")
  obtain ok4 nd4 where p4: "alloc_patch_mem K nd3 = (ok4, nd4)" by (cases "alloc_patch_mem K nd3")
  obtain rc nd5 where q5: "alloc_irq K nd4 = (rc, nd5)" by (cases "alloc_irq K nd4")
  note op = rtl8125_open_def [of K nd, folded nd0_def, unfolded a1 prod.case]
  show ?thesis
  proof (cases "ok1 \<and> ok2")
    case False
    then have "rtl8125_open K nd = Some (- ENOMEM, free_alloc_resources (if ok1 then nd2 else nd1))"
      using a2 by (cases ok1) (simp_all add: op)
    moreover have "net_closed acc (free_alloc_resources (if ok1 then nd2 else nd1))"
      using closed_after_free [OF c0] a by simp
    ultimately show ?thesis by auto
  next
    case True
    then have f2: "coh_ok nd2" "mem_frame nd0 nd2" "ShortPacketEmptyBuffer nd2 = None" and h2: "tx_have nd2 = replicate (length (tx_rings (nd_tx nd2))) True"
      "rx_have nd2 = replicate (length (rx_rings (nd_rx nd2))) True" using a by simp_all
    have idle2: "net_idle acc nd2" using net_idle_frame [OF f2(2)] c0 by (simp add: net_closed_def)
    note i = init_ring_spec [OF idle2 f2(1) h2 i3]
    note k2 = mem_frame_sel [OF f2(2)]
    have o2: "rtl8125_open K nd =
       (if ret3 < 0 then Some (ret3, free_alloc_resources nd3)
        else if \<not> ok4 then Some (- 1, free_alloc_resources nd4)
        else if rc < 0 then Some (rc, free_alloc_resources nd5) else map_option (Pair rc) (open_tail nd5))"
      using True a2 i3 p4 q5 by (cases ok4) (simp_all add: op)
    have n3: "napi_on nd3 = napi_on nd" "irq_requested nd3 = irq_requested nd" "ShortPacketEmptyBuffer nd3 = None"
      using arg_cong [OF i(8), of napi_on] arg_cong [OF i(8), of irq_requested] arg_cong [OF i(8), of ShortPacketEmptyBuffer] f2(2,3) closed
      by (simp_all add: mem_frame_def)
    note p = alloc_patch_spec [OF i(1) n3(3) p4] and q = alloc_irq_spec [OF q5]
    have n4: "list_all Not (napi_on nd4)" "list_all Not (irq_requested nd4)" using p(2) n3 closed by (simp_all add: mem_frame_def)
    consider "ret3 < 0" | "\<not> ret3 < 0" "\<not> ok4" | "\<not> ret3 < 0" ok4 "rc < 0" | "\<not> ret3 < 0" ok4 "rc = 0"
      using alloc_irq_rc [OF q5 assms(2)] by fastforce
    then show ?thesis
    proof cases
      case 1
      then have "net_closed acc (free_alloc_resources nd3)" using i(1,11) n3 closed by (intro closed_free) simp_all
      with 1 show ?thesis by (simp add: o2)
    next
      case 2
      then have "buffers_leaked acc (free_alloc_resources nd4)" using leak_after_fill [OF i3 _ idle2 p(1,3,4) n4] by simp
      with 2 show ?thesis by (simp add: o2)
    next
      case 3
      then have "buffers_leaked acc (free_alloc_resources nd5)" using leak_after_fill [OF i3 _ idle2, of nd5] p q n4 by simp
      with 3 show ?thesis by (simp add: o2)
    next
      case 4
      obtain nd' where t: "open_tail nd5 = Some nd'" "nd_tx nd' = nd_tx nd5" "nd_rx nd' = nd_rx nd5" "coh_ok nd' = coh_ok nd5"
        "list_all (\<lambda>b. b) (napi_on nd')" using open_tail_spec [of nd5] q(4) n4(1) by auto
      have "ret3 = 0" using 4(1) i(9) by fastforce
      then have "net_up (length (tx_rings (nd_tx nd))) (lso_extra (nd_tx nd)) (length (rx_rings (nd_rx nd))) (rx_stack (nd_rx nd)) (nd', acc)
          \<and> rx_buf_sz (nd_rx nd') = set_rxbufsize (nd_mtu nd)"
        using i t p q k2 sz mem_frame_lengths [OF f2(2)] by (simp add: net_up_def)
      with 4 t(1) show ?thesis by (simp add: o2)
    qed
  qed
qed


section \<open>Taking the device down\<close>

lemma tx_clear_fold:
  assumes "tx_inv n x (d, acc)" "k \<le> n"
  shows "tx_inv n x (fold tx_clear_ring [0 ..< k] d, acc) \<and> (\<forall>i < k. pend (tx_rings (fold tx_clear_ring [0 ..< k] d) ! i) = [])"
  using assms(2)
proof (induction k)
  case 0
  then show ?case using assms(1) by simp
next
  case (Suc k)
  let ?d = "fold tx_clear_ring [0 ..< k] d"
  have ih: "tx_inv n x (?d, acc)" "\<forall>i < k. pend (tx_rings ?d ! i) = []" and k: "k < n" using Suc by simp_all
  obtain r' where r: "tx_rings (tx_clear_ring k ?d) = (tx_rings ?d)[k := r']" "pend r' = []"
    by (rule tx_clear_ring_spec [OF tx_inv_ring [OF ih(1) k]])
  have "length (tx_rings ?d) = n" using ih(1) by (simp add: tx_inv_def)
  then show ?case using tx_inv_clear_ring [OF ih(1) k] ih(2) r k by (auto simp: nth_list_update less_Suc_eq)
qed

lemma tx_inv_clear:
  assumes "tx_inv n x (d, acc)"
  shows "tx_inv n x (tx_clear d, acc)" "tx_idle acc (tx_clear d)"
proof -
  have n: "length (tx_rings d) = n" using assms by (simp add: tx_inv_def)
  have c: "tx_inv n x (tx_clear d, acc)" "\<forall>i < n. pend (tx_rings (tx_clear d) ! i) = []"
    using tx_clear_fold [OF assms order_refl] by (simp_all add: tx_clear_def n)
  then show "tx_inv n x (tx_clear d, acc)" by simp
  have "\<forall>r \<in> set (tx_rings (tx_clear d)). pend r = []" using c by (auto simp: tx_inv_def in_set_conv_nth)
  then have "all_maps (tx_rings (tx_clear d)) = {#}" "all_skbs (tx_rings (tx_clear d)) = {#}"
    by (simp_all add: all_maps_def all_skbs_def cong: map_cong)
  then show "tx_idle acc (tx_clear d)"
    using c(1) by (auto simp: tx_idle_def tx_inv_def list_all_iff ring_ok_def size_ok_def tx_room_def)
qed

lemma tx_inv_stopped: "tx_inv n x (d\<lparr>q_stopped := f\<rparr>, acc) = tx_inv n x (d, acc)"
  by (simp add: tx_inv_def lso_extra_def)

text \<open>A device on its way down or up: idle rings, descriptor memory present, polling off.\<close>

definition net_down :: "nat \<Rightarrow> nat \<Rightarrow> nat \<Rightarrow> nat list \<Rightarrow> ('w, 'v, 'u) net_dev \<Rightarrow> bool" where
  "net_down n x m acc nd \<longleftrightarrow> 0 < n \<and> net_idle acc nd \<and> coh_ok nd \<and> length (tx_rings (nd_tx nd)) = n \<and> lso_extra (nd_tx nd) = x
     \<and> length (rx_rings (nd_rx nd)) = m \<and> tx_have nd = replicate n True \<and> rx_have nd = replicate m True \<and> list_all Not (napi_on nd)"

lemma down_spec:
  assumes "net_up n x m T (nd, acc)"
  obtains nd' where "rtl8125_down nd = Some nd'" "net_down n x m acc nd'" "rx_stack (nd_rx nd') = rx_stack (nd_rx nd)"
    "irq_requested nd' = irq_requested nd" "netif_running nd' = netif_running nd" "nd_mtu nd' = nd_mtu nd"
proof -
  have u: "0 < n" "tx_inv n x (nd_tx nd, acc)" "rx_inv T (nd_rx nd)" "length (rx_rings (nd_rx nd)) = m" "coh_ok nd" "list_all (\<lambda>b. b) (napi_on nd)"
    using assms by (simp_all add: net_up_def rx_live_def)
  let ?tx = "tx_clear ((nd_tx nd)\<lparr>q_stopped := (\<lambda>_. True)\<rparr>)" and ?rx = "rx_clear (nd_rx nd)"
  have t: "tx_inv n x (?tx, acc)" "tx_idle acc ?tx" using tx_inv_clear [of n x "(nd_tx nd)\<lparr>q_stopped := (\<lambda>_. True)\<rparr>" acc] u(2) by (simp_all add: tx_inv_stopped)
  note r = rx_clear_spec [OF u(3)]
  have lr: "length (rx_rings ?rx) = m" "rx_stack ?rx = rx_stack (nd_rx nd)" using r(2) u(4) by (simp_all add: rx_keep_def)
  have lt: "length (tx_rings ?tx) = n" "lso_extra ?tx = x" "length (tx_rings (nd_tx nd)) = n" using t(1) u(2) by (simp_all add: tx_inv_def)
  define nd' where "nd' = (hw_log [NetCarrierOff, HwReset] (hw_log [HwMaskIrq] (nd\<lparr>nd_tx := (nd_tx nd)\<lparr>q_stopped := (\<lambda>_. True)\<rparr>, napi_on := map (\<lambda>_. False) (napi_on nd)\<rparr>)))\<lparr>nd_tx := ?tx, nd_rx := ?rx\<rparr>"
  have "rtl8125_down nd = Some nd'"
    using u(6) by (simp add: rtl8125_down_def quiesce_def disable_napi_def hw_log_def Let_def nd'_def)
  moreover have c: "coh_ok (nd\<lparr>nd_tx := ?tx, nd_rx := ?rx\<rparr>)"
    using u(5) have_all(1) [OF tx_inv_arrays [OF u(2)]] have_all(2) [OF rx_inv_arrays [OF u(3)]] tx_inv_arrays [OF t(1)] rx_inv_arrays [OF r(1)]
    by (rule coh_ok_paths) (use lt lr u(4) in simp_all)
  then have "coh_ok nd'" by (simp add: nd'_def hw_log_def coh_ok_def tx_have_def rx_have_def)
  moreover have "tx_have nd' = replicate n True" "rx_have nd' = replicate m True"
    using have_all [of nd'] tx_inv_arrays [OF t(1)] rx_inv_arrays [OF r(1)] lt lr by (simp_all add: nd'_def)
  moreover have "net_idle acc nd'"
    using t(2) rx_downI [OF r(1,3,4,5)] lt u(1) by (auto simp: net_idle_def nd'_def)
  ultimately show thesis
    using u(1) lt lr by (intro that [of nd']) (simp_all add: net_down_def nd'_def hw_log_def list_all_iff)
qed

lemma close_spec:
  assumes "net_up n x m T (nd, acc)"
  shows "\<exists>nd'. rtl8125_close nd = Some (0, nd') \<and> net_closed acc nd' \<and> rx_stack (nd_rx nd') = rx_stack (nd_rx nd) \<and> netif_running nd' = netif_running nd"
proof -
  let ?nd = "nd\<lparr>flag_down := True\<rparr>"
  have u: "net_up n x m T (?nd, acc)" using assms by (simp add: net_up_def coh_ok_def tx_have_def rx_have_def)
  have nf: "\<not> resource_freed nd"
    using assms tx_inv_arrays [of n x "nd_tx nd" acc] by (cases "tx_rings (nd_tx nd)") (auto simp: net_up_def resource_freed_def tx_inv_def)
  obtain nd1 where d: "rtl8125_down ?nd = Some nd1" "net_down n x m acc nd1" "rx_stack (nd_rx nd1) = rx_stack (nd_rx nd)"
    "netif_running nd1 = netif_running nd" by (rule down_spec [OF u]) auto
  let ?nd1 = "free_irq (hw_log [HwClearMaster, HwD3Para, HwPllDown] nd1)"
  have c: "coh_ok ?nd1" "net_idle acc ?nd1" "list_all Not (napi_on ?nd1)" "list_all Not (irq_requested ?nd1)"
    using d(2) by (auto simp: net_down_def free_irq_def hw_log_def coh_ok_def tx_have_def rx_have_def net_idle_def list_all_iff)
  note f = free_alloc_spec(2) [OF c(1) refl]
  have "rx_stack (nd_rx (free_alloc_resources ?nd1)) = rx_stack (nd_rx nd)" "netif_running (free_alloc_resources ?nd1) = netif_running nd"
    using mem_frame_sel(2) [OF f] f d(3,4) by (simp_all add: free_irq_def hw_log_def mem_frame_def)
  then show ?thesis using nf d(1) closed_free [OF c(2,1,3,4)] by (simp add: rtl8125_close_def)
qed


section \<open>Traffic\<close>

text \<open>
  Everything that happens to an open device between its opening and its closing: packets to send,
  completions, frames completed by the chip, polls and changes of the packet size. The second component
  of the state lists the socket buffers taken over.
\<close>

datatype net_call = NetXmit nat skb | NetChip nat nat rx_desc "u8 list" | NetPoll u32 | NetPollTx nat u32 | NetPollRx nat u32

definition net_step :: "('w, 'v, 'u) net_kern \<Rightarrow> net_call \<Rightarrow> ('w, 'v, 'u) net_dev \<times> nat list \<Rightarrow> ('w, 'v, 'u) net_dev \<times> nat list" where
  "net_step K c na = (case na of (nd, acc) \<Rightarrow>
     (case c of
        NetXmit q s \<Rightarrow> (case tx_call_step (nk_tx K) (TxXmit q s) (nd_tx nd, acc) of (tx, acc) \<Rightarrow> (nd\<lparr>nd_tx := tx\<rparr>, acc))
      | NetChip q i x bytes \<Rightarrow> (nd\<lparr>nd_rx := rx_chip q i x bytes (nd_rx nd)\<rparr>, acc)
      | NetPoll budget \<Rightarrow> (snd (rtl8125_poll K budget nd), acc)
      | NetPollTx v budget \<Rightarrow> (snd (poll_msix_tx K v budget nd), acc)
      | NetPollRx v budget \<Rightarrow> (snd (poll_msix_rx K v budget nd), acc)))"

definition net_run :: "('w, 'v, 'u) net_kern \<Rightarrow> net_call list \<Rightarrow> ('w, 'v, 'u) net_dev \<times> nat list \<Rightarrow> ('w, 'v, 'u) net_dev \<times> nat list" where
  "net_run K cs = fold (net_step K) cs"

definition net_call_ok :: "nat \<Rightarrow> nat \<Rightarrow> nat \<Rightarrow> net_call \<Rightarrow> bool" where
  "net_call_ok n x m c = (case c of NetXmit q s \<Rightarrow> q < n \<and> sk_wf (MAX_SKB_FRAGS - x) s | NetChip q i d bytes \<Rightarrow> q < m
     | NetPoll budget \<Rightarrow> True | NetPollTx v budget \<Rightarrow> True | NetPollRx v budget \<Rightarrow> v < m)"

lemma napi_finish_frame:
  "nd_tx (snd (napi_finish K irq w b nd)) = nd_tx nd" "nd_rx (snd (napi_finish K irq w b nd)) = nd_rx nd"
  "napi_on (snd (napi_finish K irq w b nd)) = napi_on nd" "coh_ok (snd (napi_finish K irq w b nd)) = coh_ok nd"
  by (simp_all add: napi_finish_def hw_log_def coh_ok_def tx_have_def rx_have_def split: prod.splits)

lemma net_up_paths:
  assumes "net_up n x m T (nd, acc)" "tx_inv n x (tx, acc')" "rx_live m T rx"
  shows "net_up n x m T (nd\<lparr>nd_tx := tx, nd_rx := rx\<rparr>, acc')"
proof -
  have u: "tx_inv n x (nd_tx nd, acc)" "rx_inv T (nd_rx nd)" "coh_ok nd" "length (rx_rings (nd_rx nd)) = m"
    using assms(1) by (simp_all add: net_up_def rx_live_def)
  have "coh_ok (nd\<lparr>nd_tx := tx, nd_rx := rx\<rparr>)"
    using u(3) have_all(1) [OF tx_inv_arrays [OF u(1)]] have_all(2) [OF rx_inv_arrays [OF u(2)]] tx_inv_arrays [OF assms(2)]
    by (rule coh_ok_paths) (use assms(2,3) u rx_inv_arrays in \<open>auto simp: tx_inv_def rx_live_def\<close>)
  then show ?thesis using assms by (simp add: net_up_def)
qed

lemma net_up_finish:
  assumes "net_up n x m T (nd, acc)"
  shows "net_up n x m T (snd (napi_finish K irq w b nd), acc)"
  using assms by (simp add: net_up_def napi_finish_frame)

lemma tx_poll_inv: "tx_inv n x (d, acc) \<Longrightarrow> q < n \<Longrightarrow> tx_inv n x (snd (tx_interrupt_ring q d), acc)"
  using tx_inv_irq [of n x d acc q] by (simp add: tx_call_step_def)

interpretation tx_polls: call_sequence "\<lambda>q d. snd (tx_interrupt_ring q d)" "\<lambda>q. q < n" "\<lambda>d. tx_inv n x (d, acc)" for n x acc
  by unfold_locales (rule tx_poll_inv)

interpretation rx_polls: call_sequence "poll_rx_ring K budget" "\<lambda>q. q < m" "\<lambda>wd. rx_live m T (snd wd)" for K budget m T
proof
  fix wd :: "u32 \<times> 'b rx_dev" and q
  assume "rx_live m T (snd wd)" "q < m"
  from rx_poll_live [OF this, of "nk_rx K" budget] show "rx_live m T (snd (poll_rx_ring K budget q wd))"
    by (cases "rx_interrupt (nk_rx K) q budget (snd wd)") (simp add: poll_rx_ring_def)
qed

lemma net_step_up:
  assumes "net_up n x m T na" "net_call_ok n x m c" "tx_kern_ok (nk_tx K)"
  shows "net_up n x m T (net_step K c na)"
proof -
  obtain nd acc where na: "na = (nd, acc)" by (cases na)
  have u: "net_up n x m T (nd, acc)" "tx_inv n x (nd_tx nd, acc)" "rx_live m T (nd_rx nd)" "length (tx_rings (nd_tx nd)) = n"
    "length (rx_rings (nd_rx nd)) = m" using assms(1) by (simp_all add: na net_up_def tx_inv_def rx_live_def)
  note p = net_up_paths [OF u(1)]
  show ?thesis
  proof (cases c)
    case (NetXmit q s)
    obtain tx acc' where t: "tx_call_step (nk_tx K) (TxXmit q s) (nd_tx nd, acc) = (tx, acc')" by (metis surj_pair)
    have "tx_inv n x (tx, acc')" using tx_inv_xmit [OF assms(3) u(2), of q s] assms(2) t NetXmit by (simp add: net_call_ok_def)
    from p [OF this u(3)] t NetXmit show ?thesis by (simp add: na net_step_def)
  next
    case (NetChip q i y bytes)
    then have "rx_live m T (rx_chip q i y bytes (nd_rx nd))" using rx_chip_live [OF u(3), of q] assms(2) by (simp add: net_call_ok_def)
    from p [OF u(2) this] NetChip show ?thesis by (simp add: na net_step_def)
  next
    case (NetPoll budget)
    define tx where "tx = fold (\<lambda>q d. snd (tx_interrupt_ring q d)) [0 ..< n] (nd_tx nd)"
    obtain wk rx where rx: "fold (poll_rx_ring K budget) [0 ..< m] (0, nd_rx nd) = (wk, rx)" by (metis surj_pair)
    have "tx_inv n x (tx, acc)" unfolding tx_def by (rule tx_polls.run_inv) (use u(2) in \<open>simp_all add: list_all_iff\<close>)
    moreover have "rx_live m T rx"
      using rx_polls.run_inv [of m T "(0, nd_rx nd)" "[0 ..< m]" K budget] u(3) rx by (simp add: list_all_iff)
    ultimately show ?thesis
      using net_up_finish [OF p, of tx acc rx K HwTimerIrq wk budget] rx NetPoll
      by (simp add: na net_step_def rtl8125_poll_def Let_def u(4,5) tx_def)
  next
    case (NetPollTx v budget)
    have "tx_inv n x (snd (tx_interrupt_with_vector (int v) (nd_tx nd)), acc)"
      using u(2) tx_poll_inv [OF u(2), of 0] assms(1) by (simp add: tx_interrupt_with_vector_def na net_up_def)
    from net_up_finish [OF p [OF this u(3)]] NetPollTx show ?thesis by (simp add: na net_step_def poll_msix_tx_def)
  next
    case (NetPollRx v budget)
    obtain wk rx where rx: "rx_interrupt (nk_rx K) v budget (nd_rx nd) = (wk, rx)" by (metis surj_pair)
    have "rx_live m T rx" using rx_poll_live [OF u(3), of v "nk_rx K" budget] assms(2) rx NetPollRx by (simp add: net_call_ok_def)
    from net_up_finish [OF p [OF u(2) this]] rx NetPollRx show ?thesis by (simp add: na net_step_def poll_msix_rx_def)
  qed
qed

interpretation net_traffic: call_sequence "net_step K" "net_call_ok n x m" "\<lambda>na. tx_kern_ok (nk_tx K) \<and> net_up n x m T na" for K n x m T
  by unfold_locales (simp add: net_step_up)




section \<open>Reconfiguration\<close>

lemma down_hangs_close:
  assumes "net_down n x m acc nd" "napi_on nd \<noteq> []"
  shows "rtl8125_close nd = None"
proof -
  have "\<not> list_all (\<lambda>b. b) (napi_on nd)" using assms by (cases "napi_on nd") (auto simp: net_down_def)
  moreover have "\<not> resource_freed nd" using assms(1) by (cases n) (auto simp: net_down_def resource_freed_have)
  ultimately show ?thesis by (simp add: rtl8125_close_def rtl8125_down_def quiesce_def disable_napi_def)
qed

text \<open>
  C33. Changing the packet size of a running device re-creates its rings with buffers for the new size and
  loses nothing. When the buffers cannot be allocated it reports \<open>-ENOMEM\<close> and leaves the device down with
  polling disabled; closing it then never returns, since it disables polling a second time.
\<close>

theorem change_mtu_or_hang:
  assumes "net_up n x m T (nd, acc)" "netif_running nd" "napi_on nd \<noteq> []"
  shows "\<exists>ret nd'. change_mtu K mtu nd = Some (ret, nd') \<and> nd_mtu nd' = mtu \<and>
    ((ret = 0 \<and> net_up n x m (rx_stack (nd_rx nd)) (nd', acc) \<and> rx_buf_sz (nd_rx nd') = set_rxbufsize mtu)
     \<or> (ret = - ENOMEM \<and> net_idle acc nd' \<and> rtl8125_close nd' = None))"
proof -
  let ?nd = "nd\<lparr>nd_mtu := mtu\<rparr>"
  have u: "net_up n x m T (?nd, acc)" using assms(1) by (simp add: net_up_def coh_ok_def tx_have_def rx_have_def)
  obtain nd1 where d: "rtl8125_down ?nd = Some nd1" "net_down n x m acc nd1" "rx_stack (nd_rx nd1) = rx_stack (nd_rx nd)" "nd_mtu nd1 = mtu"
    by (rule down_spec [OF u]) auto
  have na: "napi_on nd1 \<noteq> []"
    using d(1) assms(3) by (auto simp: rtl8125_down_def quiesce_def disable_napi_def hw_log_def Let_def split: if_splits)
  let ?nd1 = "set_rxbufsize_dev nd1"
  have d1: "net_idle acc ?nd1" "coh_ok ?nd1" "tx_have ?nd1 = replicate (length (tx_rings (nd_tx ?nd1))) True"
      "rx_have ?nd1 = replicate (length (rx_rings (nd_rx ?nd1))) True" "length (tx_rings (nd_tx ?nd1)) = n" "lso_extra (nd_tx ?nd1) = x"
      "length (rx_rings (nd_rx ?nd1)) = m" "rx_stack (nd_rx ?nd1) = rx_stack (nd_rx nd)" "rx_buf_sz (nd_rx ?nd1) = set_rxbufsize mtu"
      "napi_on ?nd1 = napi_on nd1" "nd_mtu ?nd1 = mtu"
    using d(2-4) by (simp_all add: net_down_def set_rxbufsize_dev_def net_idle_def rx_down_def coh_ok_def tx_have_def rx_have_def)
  obtain ret nd2 where r: "init_ring K ?nd1 = (ret, nd2)" by (cases "init_ring K ?nd1")
  note i = init_ring_spec [OF d1(1-4) r, unfolded d1(5-9)]
  have k: "napi_on nd2 = napi_on nd1" "nd_mtu nd2 = mtu"
    using arg_cong [OF i(8), of napi_on] arg_cong [OF i(8), of nd_mtu] d1(10,11) by simp_all
  have cm: "change_mtu K mtu nd = (if ret < 0 then Some (ret, nd2)
      else map_option (\<lambda>nd. (ret, hw_log [HwConfig, HwLinkIrq, HwSetSpeed, NetUpdateFeatures] nd)) (enable_napi nd2))"
    using assms(2) d(1) r by (simp add: change_mtu_def Let_def)
  have off: "list_all Not (napi_on nd2)" using d(2) k(1) by (simp add: net_down_def)
  show ?thesis
  proof (cases "ret = 0")
    case True
    let ?nd' = "hw_log [HwConfig, HwLinkIrq, HwSetSpeed, NetUpdateFeatures] (nd2\<lparr>napi_on := map (\<lambda>_. True) (napi_on nd2)\<rparr>)"
    have "change_mtu K mtu nd = Some (0, ?nd')" using cm True off by (simp add: enable_napi_def)
    moreover have "net_up n x m (rx_stack (nd_rx nd)) (?nd', acc)"
      using i True by (simp add: net_up_def hw_log_def coh_ok_def tx_have_def rx_have_def list_all_iff)
    moreover have "rx_buf_sz (nd_rx ?nd') = set_rxbufsize mtu" "nd_mtu ?nd' = mtu" using i(7) k(2) by (simp_all add: hw_log_def)
    ultimately show ?thesis by blast
  next
    case False
    then have e: "ret = - ENOMEM" using i(9) by simp
    have "net_idle acc nd2" using i(11) False by simp
    moreover have "net_down n x m acc nd2"
      using i(1-6) i(11) [OF False] off have_all [of nd2] tx_inv_arrays [OF i(3)] rx_inv_arrays [OF i(4)]
      by (simp add: net_down_def tx_inv_def)
    ultimately show ?thesis using cm e k down_hangs_close [of n x m acc nd2] na by simp
  qed
qed


section \<open>The reset work\<close>

interpretation rx_drain: call_sequence "\<lambda>q d. snd (rx_interrupt K q budget d)" "\<lambda>q. q < m" "rx_live m T" for K budget m T
  by unfold_locales (rule rx_poll_live)

lemma wait_for_quiescence_up:
  assumes "list_all (\<lambda>b. b) (napi_on nd)"
  shows "wait_for_quiescence nd = Some (hw_log [HwMaskIrq] nd)"
proof -
  have "map (\<lambda>_. True) (napi_on nd) = napi_on nd" using assms by (auto simp: list_all_iff intro: map_idI)
  then show ?thesis using assms by (simp add: wait_for_quiescence_def quiesce_def disable_napi_def enable_napi_def hw_log_def list_all_iff comp_def)
qed

lemma coh_ok_log [simp]: "coh_ok (hw_log l nd) = coh_ok nd"
  by (simp add: coh_ok_def hw_log_def tx_have_def rx_have_def)

lemma coh_ok_speed: "coh_ok (nd\<lparr>resume_not_chg_speed := b\<rparr>) = coh_ok nd"
  by (simp add: coh_ok_def tx_have_def rx_have_def)

lemma hw_log_sel [simp]:
  "nd_tx (hw_log l nd) = nd_tx nd" "nd_rx (hw_log l nd) = nd_rx nd" "napi_on (hw_log l nd) = napi_on nd"
  "resume_not_chg_speed (hw_log l nd) = resume_not_chg_speed nd" "reset_pending (hw_log l nd) = reset_pending nd"
  by (simp_all add: hw_log_def)


section \<open>A concrete device\<close>

text \<open>
  One transmit ring of 32 and one receive ring of 4 descriptors, and a kernel that grants everything;
  \<open>demo_net_up\<close> is the device opened. The other kernels deny the interrupt, or any receive buffer.
\<close>

definition demo_net :: "(unit, nat, nat) net_dev" where
  "demo_net = \<lparr>nd_tx = demo_tx, nd_rx = demo_rx, TxPhyAddr = [0], RxPhyAddr = [0], RequireRduNonStopPatch = False,
     ShortPacketEmptyBuffer = None, nd_coherent = {#}, irq_requested = [False], msix_vectors = False, napi_on = [False], nd_mtu = 1500,
     netif_running = True, flag_down = True, reset_pending = False, esd_pending = False, esd_flag = False, resume_not_chg_speed = False,
     nd_log = [], nd_w = 100\<rparr>"

definition demo_net_kern :: "(unit, nat, nat) net_kern" where
  "demo_net_kern = \<lparr>nk_tx = demo_kern, nk_rx = demo_rx_kern, nk_coherent = (\<lambda>_ w. (Some w, Suc w)), nk_irq = (\<lambda>_ w. (0, w)),
     nk_complete = (\<lambda>w. (True, w))\<rparr>"

definition no_irq_kern :: "(unit, nat, nat) net_kern" where
  "no_irq_kern = demo_net_kern\<lparr>nk_irq := (\<lambda>_ w. (- ENOMEM, w))\<rparr>"

definition no_skb_kern :: "(unit, nat, nat) net_kern" where
  "no_skb_kern = demo_net_kern\<lparr>nk_rx := demo_rx_kern\<lparr>rk_alloc := (\<lambda>_ _ w. (None, w))\<rparr>\<rparr>"

definition demo_net_up :: "(unit, nat, nat) net_dev" where
  "demo_net_up = snd (the (rtl8125_open demo_net_kern demo_net))"

lemma demo_net_sel [simp]:
  "nd_tx demo_net = demo_tx" "nd_rx demo_net = demo_rx" "nd_mtu demo_net = 1500" "rx_stack demo_rx = []" "length (rx_rings demo_rx) = 1"
  "nk_tx demo_net_kern = demo_kern" "fst (nk_irq demo_net_kern i w) \<le> 0" "fst (nk_irq no_irq_kern i w) \<le> 0"
  by (simp_all add: demo_net_def demo_net_kern_def no_irq_kern_def demo_rx_def)

lemma demo_net_closed: "net_closed [] demo_net"
proof -
  have "net_idle [] demo_net"
    using demo_rx_down tx_sizes_room [OF demo_tx_sizes(1)] by (simp add: net_idle_def tx_idle_def) (simp add: demo_tx_def)
  then show ?thesis
    by (simp add: net_closed_def) (simp add: demo_net_def demo_tx_def demo_tx_ring_def demo_rx_def demo_rx_ring_def coh_ok_def tx_have_def rx_have_def
      blocks_def resource_freed_def)
qed

lemma demo_net_open: "rtl8125_open demo_net_kern demo_net = Some (0, demo_net_up)"
proof -
  obtain ret nd' where o: "rtl8125_open demo_net_kern demo_net = Some (ret, nd')"
    using open_outcome [OF demo_net_closed, of demo_net_kern] by auto
  moreover have "map_option fst (rtl8125_open demo_net_kern demo_net) = Some 0" by code_simp
  ultimately show ?thesis by (simp add: demo_net_up_def)
qed

lemma demo_net_is_up: "net_up 1 0 1 [] (demo_net_up, [])"
  using open_outcome [OF demo_net_closed, of demo_net_kern] demo_net_open by (simp add: demo_tx_sizes)

definition demo_calls :: "net_call list" where
  "demo_calls = [NetXmit 0 demo_skb, NetChip 0 0 demo_frame (replicate 60 2), NetPoll 64]"



theorem change_mtu_or_hang_witness:
  "\<exists>nd. change_mtu no_skb_kern 9000 demo_net_up = Some (- ENOMEM, nd) \<and> rtl8125_close nd = None"
proof -
  have "map_option fst (change_mtu no_skb_kern 9000 demo_net_up) = Some (- ENOMEM)" "netif_running demo_net_up" "napi_on demo_net_up \<noteq> []"
    by code_simp+
  then show ?thesis
    using change_mtu_or_hang [OF demo_net_is_up, of no_skb_kern 9000] by auto
qed


text \<open>
  After such a reset the first poll finds a descriptor that is not the chip's and hands it back to the
  chip although it has no buffer: the chip owns descriptor 0 with the poison address in it.
\<close>

lemma failed_reset_exposes_descriptor:
  "map_option (\<lambda>nd. let r = rx_rings (nd_rx (snd (rtl8125_poll demo_net_kern 64 nd))) ! 0 in
       (Rx_skbuff r ! 0, rd_opts1 (RxDescArray r ! 0) AND DescOwn, rd_addr (RxDescArray r ! 0)))
     (reset_task no_skb_kern (demo_net_up\<lparr>reset_pending := True\<rparr>)) = Some (None, DescOwn, RTL8125_MAGIC)"
  by code_simp

end
