(* ===== verification/R8125_Reg.thy ===== *)
theory R8125_Reg
  imports Prelude
begin

text \<open>
  Indirect register access of the Realtek driver (\<^verbatim>\<open>r8125/src/r8125_n.c\<close>, \<open>map_phy_ocp_addr\<close> to
  \<open>rtl8125_eri_write\<close>): the PHY, MAC, PCIe-PHY, configuration and extended register spaces are reached
  through a command register and, for some, a data register of the chip; the driver writes a command and
  polls until the chip reports completion, at most \<open>R8125_CHANNEL_WAIT_COUNT\<close> times.

  The registers are a parameter: reading one may change the state of the chip (time passes). Delays and
  kernel warnings have no effect on the state. Register addresses of the extended space are natural
  numbers, as all callers pass constants.
\<close>

unbundle bit_operations_syntax

section \<open>State\<close>

record 'w mmio =
  reg_r32 :: "nat \<Rightarrow> 'w \<Rightarrow> u32 \<times> 'w"
  reg_w32 :: "nat \<Rightarrow> u32 \<Rightarrow> 'w \<Rightarrow> 'w"
  cfg_rb :: "u32 \<Rightarrow> 'w \<Rightarrow> u8 \<times> 'w"
  cfg_wb :: "u32 \<Rightarrow> u8 \<Rightarrow> 'w \<Rightarrow> 'w"

record 'w phy_priv =
  cur_page :: u16
  ocp_base :: u32
  rtk_enable_diag :: bool
  cfg_default :: bool
  pp_w :: 'w

abbreviation (input) CSIDR :: nat where "CSIDR \<equiv> 0x64"
abbreviation (input) CSIAR :: nat where "CSIAR \<equiv> 0x68"
abbreviation (input) ERIDR :: nat where "ERIDR \<equiv> 0x70"
abbreviation (input) ERIAR :: nat where "ERIAR \<equiv> 0x74"
abbreviation (input) EPHYAR :: nat where "EPHYAR \<equiv> 0x80"
abbreviation (input) MACOCP :: nat where "MACOCP \<equiv> 0xB0"
abbreviation (input) PHYOCP :: nat where "PHYOCP \<equiv> 0xB8"
abbreviation (input) REG_FLAG :: u32 where "REG_FLAG \<equiv> 0x80000000"
abbreviation (input) R8125_CHANNEL_WAIT_COUNT :: nat where "R8125_CHANNEL_WAIT_COUNT \<equiv> 20000"

definition reg_write :: "'w mmio \<Rightarrow> nat \<Rightarrow> u32 \<Rightarrow> 'w phy_priv \<Rightarrow> 'w phy_priv" where
  "reg_write M reg v tp = tp\<lparr>pp_w := reg_w32 M reg v (pp_w tp)\<rparr>"

definition reg_read :: "'w mmio \<Rightarrow> nat \<Rightarrow> 'w phy_priv \<Rightarrow> u32 \<times> 'w phy_priv" where
  "reg_read M reg tp = (case reg_r32 M reg (pp_w tp) of (v, w) \<Rightarrow> (v, tp\<lparr>pp_w := w\<rparr>))"

text \<open>The waiting loops: the flag of the result says whether the condition was seen.\<close>

primrec poll_reg :: "'w mmio \<Rightarrow> nat \<Rightarrow> (u32 \<Rightarrow> bool) \<Rightarrow> nat \<Rightarrow> 'w phy_priv \<Rightarrow> bool \<times> 'w phy_priv" where
  "poll_reg M reg c 0 tp = (False, tp)"
| "poll_reg M reg c (Suc n) tp = (case reg_read M reg tp of (v, tp) \<Rightarrow> if c v then (True, tp) else poll_reg M reg c n tp)"

definition wait_set :: "'w mmio \<Rightarrow> nat \<Rightarrow> 'w phy_priv \<Rightarrow> bool \<times> 'w phy_priv" where
  "wait_set M reg = poll_reg M reg (\<lambda>v. v AND REG_FLAG \<noteq> 0) R8125_CHANNEL_WAIT_COUNT"

definition wait_clear :: "'w mmio \<Rightarrow> nat \<Rightarrow> 'w phy_priv \<Rightarrow> 'w phy_priv" where
  "wait_clear M reg tp = snd (poll_reg M reg (\<lambda>v. v AND REG_FLAG = 0) R8125_CHANNEL_WAIT_COUNT tp)"

section \<open>The Ethernet PHY\<close>

definition map_phy_ocp_addr :: "u16 \<Rightarrow> u8 \<Rightarrow> u16" where
  "map_phy_ocp_addr PageNum RegNum =
     (let OcpPageNum = (if PageNum = 0 then 0x0A40 + ucast (RegNum div 8) else PageNum);
          OcpRegNum = (if PageNum = 0 then 0x10 + RegNum mod 8 else RegNum)
      in if OcpRegNum < 16 then 0 else push_bit 4 OcpPageNum + ucast (push_bit 1 (OcpRegNum - 16)))"

definition mdio_real_direct_write_phy_ocp :: "'w mmio \<Rightarrow> u16 \<Rightarrow> u16 \<Rightarrow> 'w phy_priv \<Rightarrow> 'w phy_priv" where
  "mdio_real_direct_write_phy_ocp M RegAddr value tp =
     wait_clear M PHYOCP (reg_write M PHYOCP (push_bit 16 (ucast (RegAddr div 2)) OR (REG_FLAG OR ucast value)) tp)"

definition mdio_direct_write_phy_ocp :: "'w mmio \<Rightarrow> u16 \<Rightarrow> u16 \<Rightarrow> 'w phy_priv \<Rightarrow> 'w phy_priv" where
  "mdio_direct_write_phy_ocp M RegAddr value tp = (if rtk_enable_diag tp then tp else mdio_real_direct_write_phy_ocp M RegAddr value tp)"

definition mdio_real_write_phy_ocp :: "'w mmio \<Rightarrow> u16 \<Rightarrow> u32 \<Rightarrow> u32 \<Rightarrow> 'w phy_priv \<Rightarrow> 'w phy_priv" where
  "mdio_real_write_phy_ocp M PageNum RegAddr value tp =
     mdio_real_direct_write_phy_ocp M (map_phy_ocp_addr PageNum (ucast RegAddr)) (ucast value) tp"

definition mdio_real_write :: "'w mmio \<Rightarrow> u16 \<Rightarrow> u16 \<Rightarrow> 'w phy_priv \<Rightarrow> 'w phy_priv" where
  "mdio_real_write M RegAddr value tp =
     (if RegAddr = 0x1F then tp\<lparr>cur_page := value\<rparr>
      else mdio_real_write_phy_ocp M (cur_page tp) (ucast RegAddr) (ucast value) tp)"

definition rtl8125_mdio_write :: "'w mmio \<Rightarrow> u16 \<Rightarrow> u16 \<Rightarrow> 'w phy_priv \<Rightarrow> 'w phy_priv" where
  "rtl8125_mdio_write M RegAddr value tp = (if rtk_enable_diag tp then tp else mdio_real_write M RegAddr value tp)"

definition rtl8125_mdio_prot_write :: "'w mmio \<Rightarrow> u32 \<Rightarrow> u32 \<Rightarrow> 'w phy_priv \<Rightarrow> 'w phy_priv" where
  "rtl8125_mdio_prot_write M RegAddr value tp = mdio_real_write M (ucast RegAddr) (ucast value) tp"

definition rtl8125_mdio_prot_direct_write_phy_ocp :: "'w mmio \<Rightarrow> u32 \<Rightarrow> u32 \<Rightarrow> 'w phy_priv \<Rightarrow> 'w phy_priv" where
  "rtl8125_mdio_prot_direct_write_phy_ocp M RegAddr value tp = mdio_real_direct_write_phy_ocp M (ucast RegAddr) (ucast value) tp"

definition mdio_real_direct_read_phy_ocp :: "'w mmio \<Rightarrow> u16 \<Rightarrow> 'w phy_priv \<Rightarrow> u32 \<times> 'w phy_priv" where
  "mdio_real_direct_read_phy_ocp M RegAddr tp =
     (let tp = snd (wait_set M PHYOCP (reg_write M PHYOCP (push_bit 16 (ucast (RegAddr div 2))) tp)) in
      case reg_read M PHYOCP tp of (v, tp) \<Rightarrow> (v AND 0xFFFF, tp))"

definition mdio_direct_read_phy_ocp :: "'w mmio \<Rightarrow> u16 \<Rightarrow> 'w phy_priv \<Rightarrow> u32 \<times> 'w phy_priv" where
  "mdio_direct_read_phy_ocp M RegAddr tp = (if rtk_enable_diag tp then (0xFFFFFFFF, tp) else mdio_real_direct_read_phy_ocp M RegAddr tp)"

definition mdio_real_read_phy_ocp :: "'w mmio \<Rightarrow> u16 \<Rightarrow> u32 \<Rightarrow> 'w phy_priv \<Rightarrow> u32 \<times> 'w phy_priv" where
  "mdio_real_read_phy_ocp M PageNum RegAddr tp = mdio_real_direct_read_phy_ocp M (map_phy_ocp_addr PageNum (ucast RegAddr)) tp"

definition mdio_real_read :: "'w mmio \<Rightarrow> u16 \<Rightarrow> 'w phy_priv \<Rightarrow> u32 \<times> 'w phy_priv" where
  "mdio_real_read M RegAddr tp = mdio_real_read_phy_ocp M (cur_page tp) (ucast RegAddr) tp"

definition rtl8125_mdio_read :: "'w mmio \<Rightarrow> u16 \<Rightarrow> 'w phy_priv \<Rightarrow> u32 \<times> 'w phy_priv" where
  "rtl8125_mdio_read M RegAddr tp = (if rtk_enable_diag tp then (0xFFFFFFFF, tp) else mdio_real_read M RegAddr tp)"

definition rtl8125_mdio_prot_read :: "'w mmio \<Rightarrow> u32 \<Rightarrow> 'w phy_priv \<Rightarrow> u32 \<times> 'w phy_priv" where
  "rtl8125_mdio_prot_read M RegAddr tp = mdio_real_read M (ucast RegAddr) tp"

definition rtl8125_mdio_prot_direct_read_phy_ocp :: "'w mmio \<Rightarrow> u32 \<Rightarrow> 'w phy_priv \<Rightarrow> u32 \<times> 'w phy_priv" where
  "rtl8125_mdio_prot_direct_read_phy_ocp M RegAddr tp = mdio_real_direct_read_phy_ocp M (ucast RegAddr) tp"

text \<open>Read, clear some bits, set some bits, write back, over any of the 16-bit spaces.\<close>

definition clear_set :: "u16 \<Rightarrow> u16 \<Rightarrow> u16 \<Rightarrow> u16" where
  "clear_set clearmask setmask v = (v AND NOT clearmask) OR setmask"

definition ClearAndSetEthPhyBit :: "'w mmio \<Rightarrow> u8 \<Rightarrow> u16 \<Rightarrow> u16 \<Rightarrow> 'w phy_priv \<Rightarrow> 'w phy_priv" where
  "ClearAndSetEthPhyBit M addr clearmask setmask tp =
     (case rtl8125_mdio_read M (ucast addr) tp of (v, tp) \<Rightarrow> rtl8125_mdio_write M (ucast addr) (clear_set clearmask setmask (ucast v)) tp)"

definition rtl8125_clear_eth_phy_bit :: "'w mmio \<Rightarrow> u8 \<Rightarrow> u16 \<Rightarrow> 'w phy_priv \<Rightarrow> 'w phy_priv" where
  "rtl8125_clear_eth_phy_bit M addr msk = ClearAndSetEthPhyBit M addr msk 0"

definition rtl8125_set_eth_phy_bit :: "'w mmio \<Rightarrow> u8 \<Rightarrow> u16 \<Rightarrow> 'w phy_priv \<Rightarrow> 'w phy_priv" where
  "rtl8125_set_eth_phy_bit M addr msk = ClearAndSetEthPhyBit M addr 0 msk"

definition ClearAndSetEthPhyOcpBit :: "'w mmio \<Rightarrow> u16 \<Rightarrow> u16 \<Rightarrow> u16 \<Rightarrow> 'w phy_priv \<Rightarrow> 'w phy_priv" where
  "ClearAndSetEthPhyOcpBit M addr clearmask setmask tp =
     (case mdio_direct_read_phy_ocp M addr tp of (v, tp) \<Rightarrow> mdio_direct_write_phy_ocp M addr (clear_set clearmask setmask (ucast v)) tp)"

definition ClearEthPhyOcpBit :: "'w mmio \<Rightarrow> u16 \<Rightarrow> u16 \<Rightarrow> 'w phy_priv \<Rightarrow> 'w phy_priv" where
  "ClearEthPhyOcpBit M addr msk = ClearAndSetEthPhyOcpBit M addr msk 0"

definition SetEthPhyOcpBit :: "'w mmio \<Rightarrow> u16 \<Rightarrow> u16 \<Rightarrow> 'w phy_priv \<Rightarrow> 'w phy_priv" where
  "SetEthPhyOcpBit M addr msk = ClearAndSetEthPhyOcpBit M addr 0 msk"

section \<open>The MAC\<close>

definition rtl8125_mac_ocp_write :: "'w mmio \<Rightarrow> u16 \<Rightarrow> u16 \<Rightarrow> 'w phy_priv \<Rightarrow> 'w phy_priv" where
  "rtl8125_mac_ocp_write M reg_addr value tp =
     reg_write M MACOCP ((push_bit 16 (ucast (reg_addr div 2)) + ucast value) OR REG_FLAG) tp"

definition rtl8125_mac_ocp_read :: "'w mmio \<Rightarrow> u16 \<Rightarrow> 'w phy_priv \<Rightarrow> u32 \<times> 'w phy_priv" where
  "rtl8125_mac_ocp_read M reg_addr tp =
     (case reg_read M MACOCP (reg_write M MACOCP (push_bit 16 (ucast (reg_addr div 2))) tp) of
        (v, tp) \<Rightarrow> (ucast (ucast v :: u16), tp))"

definition mac_mcu_write :: "'w mmio \<Rightarrow> u16 \<Rightarrow> u16 \<Rightarrow> 'w phy_priv \<Rightarrow> 'w phy_priv" where
  "mac_mcu_write M reg value tp =
     (if reg = 0x1f then tp\<lparr>ocp_base := push_bit 4 (ucast value)\<rparr>
      else rtl8125_mac_ocp_write M (ucast (ocp_base tp + ucast reg)) value tp)"

definition mac_mcu_read :: "'w mmio \<Rightarrow> u16 \<Rightarrow> 'w phy_priv \<Rightarrow> u32 \<times> 'w phy_priv" where
  "mac_mcu_read M reg tp = rtl8125_mac_ocp_read M (ucast (ocp_base tp + ucast reg)) tp"

definition ClearAndSetMcuAccessRegBit :: "'w mmio \<Rightarrow> u16 \<Rightarrow> u16 \<Rightarrow> u16 \<Rightarrow> 'w phy_priv \<Rightarrow> 'w phy_priv" where
  "ClearAndSetMcuAccessRegBit M addr clearmask setmask tp =
     (case rtl8125_mac_ocp_read M addr tp of (v, tp) \<Rightarrow> rtl8125_mac_ocp_write M addr (clear_set clearmask setmask (ucast v)) tp)"

definition ClearMcuAccessRegBit :: "'w mmio \<Rightarrow> u16 \<Rightarrow> u16 \<Rightarrow> 'w phy_priv \<Rightarrow> 'w phy_priv" where
  "ClearMcuAccessRegBit M addr msk = ClearAndSetMcuAccessRegBit M addr msk 0"

definition SetMcuAccessRegBit :: "'w mmio \<Rightarrow> u16 \<Rightarrow> u16 \<Rightarrow> 'w phy_priv \<Rightarrow> 'w phy_priv" where
  "SetMcuAccessRegBit M addr msk = ClearAndSetMcuAccessRegBit M addr 0 msk"

section \<open>The PCIe PHY and configuration space\<close>

definition rtl8125_ephy_write :: "'w mmio \<Rightarrow> u32 \<Rightarrow> u32 \<Rightarrow> 'w phy_priv \<Rightarrow> 'w phy_priv" where
  "rtl8125_ephy_write M RegAddr value tp =
     wait_clear M EPHYAR (reg_write M EPHYAR (REG_FLAG OR push_bit 16 (RegAddr AND 0x7f) OR (value AND 0xffff)) tp)"

definition rtl8125_ephy_read :: "'w mmio \<Rightarrow> u32 \<Rightarrow> 'w phy_priv \<Rightarrow> u16 \<times> 'w phy_priv" where
  "rtl8125_ephy_read M RegAddr tp =
     (case wait_set M EPHYAR (reg_write M EPHYAR (push_bit 16 (RegAddr AND 0x7f)) tp) of
        (False, tp) \<Rightarrow> (0xffff, tp)
      | (True, tp) \<Rightarrow> (case reg_read M EPHYAR tp of (v, tp) \<Rightarrow> (ucast (v AND 0xffff), tp)))"

definition ClearAndSetPCIePhyBit :: "'w mmio \<Rightarrow> u8 \<Rightarrow> u16 \<Rightarrow> u16 \<Rightarrow> 'w phy_priv \<Rightarrow> 'w phy_priv" where
  "ClearAndSetPCIePhyBit M addr clearmask setmask tp =
     (case rtl8125_ephy_read M (ucast addr) tp of (v, tp) \<Rightarrow> rtl8125_ephy_write M (ucast addr) (ucast (clear_set clearmask setmask v)) tp)"

definition ClearPCIePhyBit :: "'w mmio \<Rightarrow> u8 \<Rightarrow> u16 \<Rightarrow> 'w phy_priv \<Rightarrow> 'w phy_priv" where
  "ClearPCIePhyBit M addr msk = ClearAndSetPCIePhyBit M addr msk 0"

definition SetPCIePhyBit :: "'w mmio \<Rightarrow> u8 \<Rightarrow> u16 \<Rightarrow> 'w phy_priv \<Rightarrow> 'w phy_priv" where
  "SetPCIePhyBit M addr msk = ClearAndSetPCIePhyBit M addr 0 msk"

definition csi_cmd :: "u8 \<Rightarrow> u32 \<Rightarrow> u32" where
  "csi_cmd sel addr = (push_bit 12 0x0f OR (addr AND 0x0fff)) OR push_bit 16 (ucast sel)"

definition rtl8125_csi_other_fun_read :: "'w mmio \<Rightarrow> u8 \<Rightarrow> u32 \<Rightarrow> 'w phy_priv \<Rightarrow> u32 \<times> 'w phy_priv" where
  "rtl8125_csi_other_fun_read M multi_fun_sel_bit addr tp =
     (let sel = (if cfg_default tp then 0 else multi_fun_sel_bit) in
      if 7 < sel then (0xffffffff, tp)
      else case wait_set M CSIAR (reg_write M CSIAR (csi_cmd sel addr) tp) of
             (False, tp) \<Rightarrow> (0xffffffff, tp)
           | (True, tp) \<Rightarrow> reg_read M CSIDR tp)"

definition rtl8125_csi_other_fun_write :: "'w mmio \<Rightarrow> u8 \<Rightarrow> u32 \<Rightarrow> u32 \<Rightarrow> 'w phy_priv \<Rightarrow> 'w phy_priv" where
  "rtl8125_csi_other_fun_write M multi_fun_sel_bit addr value tp =
     (let tp = reg_write M CSIDR value tp;
          sel = (if cfg_default tp then 0 else multi_fun_sel_bit) in
      if 7 < sel then tp else wait_clear M CSIAR (reg_write M CSIAR (REG_FLAG OR csi_cmd sel addr) tp))"

definition rtl8125_csi_read :: "'w mmio \<Rightarrow> u32 \<Rightarrow> 'w phy_priv \<Rightarrow> u32 \<times> 'w phy_priv" where
  "rtl8125_csi_read M addr = rtl8125_csi_other_fun_read M 0 addr"

definition rtl8125_csi_write :: "'w mmio \<Rightarrow> u32 \<Rightarrow> u32 \<Rightarrow> 'w phy_priv \<Rightarrow> 'w phy_priv" where
  "rtl8125_csi_write M addr value = rtl8125_csi_other_fun_write M 0 addr value"

definition align16 :: "u32 \<Rightarrow> u32" where
  "align16 addr = ucast (ucast (addr AND NOT 3) :: u16)"

definition rtl8125_csi_fun0_read_byte :: "'w mmio \<Rightarrow> u32 \<Rightarrow> 'w phy_priv \<Rightarrow> u8 \<times> 'w phy_priv" where
  "rtl8125_csi_fun0_read_byte M addr tp =
     (if cfg_default tp then (case cfg_rb M addr (pp_w tp) of (b, w) \<Rightarrow> (b, tp\<lparr>pp_w := w\<rparr>))
      else case rtl8125_csi_other_fun_read M 0 (align16 addr) tp of
             (v, tp) \<Rightarrow> (ucast (drop_bit (8 * unat (addr AND 3)) v), tp))"

definition rtl8125_csi_fun0_write_byte :: "'w mmio \<Rightarrow> u32 \<Rightarrow> u8 \<Rightarrow> 'w phy_priv \<Rightarrow> 'w phy_priv" where
  "rtl8125_csi_fun0_write_byte M addr value tp =
     (if cfg_default tp then tp\<lparr>pp_w := cfg_wb M addr value (pp_w tp)\<rparr>
      else case rtl8125_csi_other_fun_read M 0 (align16 addr) tp of
             (v, tp) \<Rightarrow>
               (let s = 8 * unat (addr AND 3);
                    v = (v AND NOT (push_bit s 0xFF)) OR push_bit s (ucast value)
                in rtl8125_csi_other_fun_write M 0 (align16 addr) v tp))"

section \<open>The extended registers\<close>

definition eri_base :: "u32 \<Rightarrow> u32" where
  "eri_base base_address = push_bit 6 (base_address AND 0x00FFF000) OR (base_address AND 0x000FFF)"

definition eri_cmd :: "u32 \<Rightarrow> u32 \<Rightarrow> u32 \<Rightarrow> nat \<Rightarrow> u32" where
  "eri_cmd op base ty addr =
     (let a = of_nat addr :: u32;
          cmd = op OR eri_base base OR push_bit 16 ty OR push_bit 12 0x0f OR (a AND 0x0FFF)
      in if a AND 0xF000 \<noteq> 0 then cmd OR (push_bit 20 (drop_bit 12 (a AND 0xF000)) AND 0x00F00000) else cmd)"

definition eri_mask :: "nat \<Rightarrow> nat \<Rightarrow> u32" where
  "eri_mask len val_shift =
     push_bit (val_shift * 8) (if len = 1 then 0xFF else if len = 2 then 0xFFFF else if len = 3 then 0xFFFFFF else 0xFFFFFFFF)"

text \<open>One transfer of the loop bodies: command, wait, data.\<close>

definition eri_fetch :: "'w mmio \<Rightarrow> u32 \<Rightarrow> u32 \<Rightarrow> nat \<Rightarrow> 'w phy_priv \<Rightarrow> u32 \<times> 'w phy_priv" where
  "eri_fetch M base ty addr tp = reg_read M ERIDR (snd (wait_set M ERIAR (reg_write M ERIAR (eri_cmd 0 base ty addr) tp)))"

definition eri_store :: "'w mmio \<Rightarrow> u32 \<Rightarrow> u32 \<Rightarrow> nat \<Rightarrow> u32 \<Rightarrow> 'w phy_priv \<Rightarrow> 'w phy_priv" where
  "eri_store M base ty addr v tp =
     wait_clear M ERIAR (reg_write M ERIAR (eri_cmd REG_FLAG base ty addr) (reg_write M ERIDR v tp))"

function eri_read_loop :: "'w mmio \<Rightarrow> u32 \<Rightarrow> u32 \<Rightarrow> nat \<Rightarrow> nat \<Rightarrow> nat \<Rightarrow> u32 \<Rightarrow> 'w phy_priv \<Rightarrow> u32 \<times> 'w phy_priv" where
  "eri_read_loop M base ty addr len shift value2 tp =
     (if len = 0 then (value2, tp)
      else
        (let val_shift = addr mod 4; addr = addr - val_shift in
         case eri_fetch M base ty addr tp of
           (v, tp) \<Rightarrow>
             (let value1 = v AND eri_mask len val_shift;
                  value2 = value2 OR push_bit (shift * 8) (drop_bit (val_shift * 8) value1)
              in if len \<le> 4 - val_shift then (value2, tp)
                 else eri_read_loop M base ty (addr + 4) (len - (4 - val_shift)) (4 - val_shift) value2 tp)))"
  by pat_completeness auto
termination
proof (relation "measure (\<lambda>(M, base, ty, addr, len, shift, value2, tp). len)", goal_cases)
  case (2 M base ty addr len shift value2 tp)
  have "addr mod 4 < 4" by simp
  with 2 show ?case by simp
qed simp

definition rtl8125_eri_read_with_oob_base_address :: "'w mmio \<Rightarrow> nat \<Rightarrow> int \<Rightarrow> u32 \<Rightarrow> u32 \<Rightarrow> 'w phy_priv \<Rightarrow> u32 \<times> 'w phy_priv" where
  "rtl8125_eri_read_with_oob_base_address M addr len ty base tp =
     (if 4 < len \<or> len \<le> 0 then (- 1, tp) else eri_read_loop M base ty addr (nat len) 0 0 tp)"

definition rtl8125_eri_read :: "'w mmio \<Rightarrow> nat \<Rightarrow> int \<Rightarrow> u32 \<Rightarrow> 'w phy_priv \<Rightarrow> u32 \<times> 'w phy_priv" where
  "rtl8125_eri_read M addr len ty = rtl8125_eri_read_with_oob_base_address M addr len ty 0"

function eri_write_loop :: "'w mmio \<Rightarrow> u32 \<Rightarrow> u32 \<Rightarrow> u32 \<Rightarrow> nat \<Rightarrow> nat \<Rightarrow> nat \<Rightarrow> 'w phy_priv \<Rightarrow> 'w phy_priv" where
  "eri_write_loop M base ty value addr len shift tp =
     (if len = 0 then tp
      else
        (let val_shift = addr mod 4; addr = addr - val_shift in
         case rtl8125_eri_read_with_oob_base_address M addr 4 ty base tp of
           (v, tp) \<Rightarrow>
             (let value1 = (v AND NOT (eri_mask len val_shift)) OR drop_bit (shift * 8) (push_bit (val_shift * 8) value);
                  tp = eri_store M base ty addr value1 tp
              in if len \<le> 4 - val_shift then tp
                 else eri_write_loop M base ty value (addr + 4) (len - (4 - val_shift)) (4 - val_shift) tp)))"
  by pat_completeness auto
termination
proof (relation "measure (\<lambda>(M, base, ty, value, addr, len, shift, tp). len)", goal_cases)
  case (2 M base ty val addr len shift tp)
  have "addr mod 4 < 4" by simp
  with 2 show ?case by simp
qed simp

definition rtl8125_eri_write_with_oob_base_address ::
    "'w mmio \<Rightarrow> nat \<Rightarrow> int \<Rightarrow> u32 \<Rightarrow> u32 \<Rightarrow> u32 \<Rightarrow> 'w phy_priv \<Rightarrow> int \<times> 'w phy_priv" where
  "rtl8125_eri_write_with_oob_base_address M addr len value ty base tp =
     (if 4 < len \<or> len \<le> 0 then (- 1, tp) else (0, eri_write_loop M base ty value addr (nat len) 0 tp))"

definition rtl8125_eri_write :: "'w mmio \<Rightarrow> nat \<Rightarrow> int \<Rightarrow> u32 \<Rightarrow> u32 \<Rightarrow> 'w phy_priv \<Rightarrow> int \<times> 'w phy_priv" where
  "rtl8125_eri_write M addr len value ty = rtl8125_eri_write_with_oob_base_address M addr len value ty 0"

end
