(* ===== verification/R8125_RegSpace.thy ===== *)
theory R8125_RegSpace
  imports R8125_Reg
begin

text \<open>
  Correctness of the indirect register access of \<^verbatim>\<open>R8125_Reg\<close>. What the chip promises is a hypothesis: a
  command is completed within the number of polls the driver grants, a read command then shows the word
  of the register space in the data register, a write command stores it. What the driver makes of it is
  proved: unaligned accesses of one to four bytes act on exactly those bytes.
\<close>

unbundle bit_operations_syntax

section \<open>Waiting\<close>

definition iter_read :: "'w mmio \<Rightarrow> nat \<Rightarrow> nat \<Rightarrow> 'w \<Rightarrow> 'w" where
  "iter_read M reg n = (\<lambda>w. snd (reg_r32 M reg w)) ^^ n"

definition answers :: "'w mmio \<Rightarrow> nat \<Rightarrow> (u32 \<Rightarrow> bool) \<Rightarrow> 'w \<Rightarrow> nat \<Rightarrow> bool" where
  "answers M reg c w k \<longleftrightarrow> k < R8125_CHANNEL_WAIT_COUNT \<and> (\<forall>j < k. \<not> c (fst (reg_r32 M reg (iter_read M reg j w))))
     \<and> c (fst (reg_r32 M reg (iter_read M reg k w)))"

lemma iter_read_0 [simp]: "iter_read M reg 0 w = w"
  by (simp add: iter_read_def)

lemma iter_read_Suc: "iter_read M reg (Suc n) w = iter_read M reg n (snd (reg_r32 M reg w))"
  by (simp add: iter_read_def funpow_Suc_right del: funpow.simps)

lemma poll_reg_first:
  assumes "k < n" "\<forall>j < k. \<not> c (fst (reg_r32 M reg (iter_read M reg j (pp_w tp))))" "c (fst (reg_r32 M reg (iter_read M reg k (pp_w tp))))"
  shows "poll_reg M reg c n tp = (True, tp\<lparr>pp_w := iter_read M reg (Suc k) (pp_w tp)\<rparr>)"
  using assms
proof (induction n arbitrary: k tp)
  case (Suc n)
  obtain v w where r: "reg_r32 M reg (pp_w tp) = (v, w)" by (cases "reg_r32 M reg (pp_w tp)")
  show ?case
  proof (cases k)
    case 0
    then show ?thesis using Suc.prems r by (simp add: reg_read_def iter_read_Suc)
  next
    case (Suc k')
    have s: "iter_read M reg (Suc j) (pp_w tp) = iter_read M reg j w" for j using r by (simp add: iter_read_Suc)
    have n: "\<not> c v" using Suc.prems(2) Suc r by (metis iter_read_0 zero_less_Suc fst_conv)
    have "\<forall>j < k'. \<not> c (fst (reg_r32 M reg (iter_read M reg j w)))" using Suc.prems(2) Suc s by (metis Suc_less_eq)
    then show ?thesis using Suc.IH [of k' "tp\<lparr>pp_w := w\<rparr>"] Suc.prems(1,3) Suc r n s by (simp add: reg_read_def)
  qed
qed simp

lemma wait_set_answers:
  "answers M reg (\<lambda>v. v AND REG_FLAG \<noteq> 0) (pp_w tp) k \<Longrightarrow> wait_set M reg tp = (True, tp\<lparr>pp_w := iter_read M reg (Suc k) (pp_w tp)\<rparr>)"
  unfolding wait_set_def answers_def by (intro poll_reg_first) simp_all

lemma wait_clear_answers:
  "answers M reg (\<lambda>v. v AND REG_FLAG = 0) (pp_w tp) k \<Longrightarrow> wait_clear M reg tp = tp\<lparr>pp_w := iter_read M reg (Suc k) (pp_w tp)\<rparr>"
  unfolding wait_clear_def answers_def using poll_reg_first [of k R8125_CHANNEL_WAIT_COUNT "\<lambda>v. v AND REG_FLAG = 0" M reg tp] by simp

section \<open>The extended register space\<close>

definition eri_reads :: "'w mmio \<Rightarrow> u32 \<Rightarrow> u32 \<Rightarrow> ('w \<Rightarrow> nat \<Rightarrow> u32) \<Rightarrow> bool" where
  "eri_reads M base ty sp \<longleftrightarrow> (\<forall>w a. a < 0x10000 \<and> 4 dvd a \<longrightarrow>
     (let w1 = reg_w32 M ERIAR (eri_cmd 0 base ty a) w in
      \<exists>k. answers M ERIAR (\<lambda>v. v AND REG_FLAG \<noteq> 0) w1 k
        \<and> (let r = reg_r32 M ERIDR (iter_read M ERIAR (Suc k) w1) in fst r = sp w a \<and> sp (snd r) = sp w)))"

definition eri_writes :: "'w mmio \<Rightarrow> u32 \<Rightarrow> u32 \<Rightarrow> ('w \<Rightarrow> nat \<Rightarrow> u32) \<Rightarrow> bool" where
  "eri_writes M base ty sp \<longleftrightarrow> (\<forall>w a v. a < 0x10000 \<and> 4 dvd a \<longrightarrow>
     (let w1 = reg_w32 M ERIAR (eri_cmd REG_FLAG base ty a) (reg_w32 M ERIDR v w) in
      \<exists>k. answers M ERIAR (\<lambda>v. v AND REG_FLAG = 0) w1 k \<and> sp (iter_read M ERIAR (Suc k) w1) = (sp w)(a := v)))"

lemma eri_fetch_ok:
  assumes "eri_reads M base ty sp" "a < 0x10000" "4 dvd a" "eri_fetch M base ty a tp = (v, tp')"
  shows "v = sp (pp_w tp) a" "sp (pp_w tp') = sp (pp_w tp)"
proof -
  let ?w = "reg_w32 M ERIAR (eri_cmd 0 base ty a) (pp_w tp)"
  obtain k where k: "answers M ERIAR (\<lambda>v. v AND REG_FLAG \<noteq> 0) ?w k"
    "fst (reg_r32 M ERIDR (iter_read M ERIAR (Suc k) ?w)) = sp (pp_w tp) a"
    "sp (snd (reg_r32 M ERIDR (iter_read M ERIAR (Suc k) ?w))) = sp (pp_w tp)"
    using assms(1-3) by (auto simp: eri_reads_def Let_def)
  have "wait_set M ERIAR (reg_write M ERIAR (eri_cmd 0 base ty a) tp) = (True, tp\<lparr>pp_w := iter_read M ERIAR (Suc k) ?w\<rparr>)"
    using wait_set_answers [of M ERIAR "reg_write M ERIAR (eri_cmd 0 base ty a) tp" k] k(1) by (simp add: reg_write_def)
  then show "v = sp (pp_w tp) a" "sp (pp_w tp') = sp (pp_w tp)"
    using assms(4) k(2,3) by (auto simp: eri_fetch_def reg_read_def split: prod.splits)
qed

lemma eri_store_ok:
  assumes "eri_writes M base ty sp" "a < 0x10000" "4 dvd a"
  shows "sp (pp_w (eri_store M base ty a v tp)) = (sp (pp_w tp))(a := v)"
proof -
  let ?w = "reg_w32 M ERIAR (eri_cmd REG_FLAG base ty a) (reg_w32 M ERIDR v (pp_w tp))"
  let ?tp = "reg_write M ERIAR (eri_cmd REG_FLAG base ty a) (reg_write M ERIDR v tp)"
  obtain k where k: "answers M ERIAR (\<lambda>v. v AND REG_FLAG = 0) ?w k" "sp (iter_read M ERIAR (Suc k) ?w) = (sp (pp_w tp))(a := v)"
    using assms unfolding eri_writes_def Let_def by blast
  moreover have "pp_w ?tp = ?w" by (simp add: reg_write_def)
  ultimately have "wait_clear M ERIAR ?tp = ?tp\<lparr>pp_w := iter_read M ERIAR (Suc k) ?w\<rparr>"
    using wait_clear_answers [of M ERIAR ?tp k] by simp
  then show ?thesis using k(2) by (simp add: eri_store_def)
qed

text \<open>The space as a sequence of bits, byte after byte in increasing order.\<close>

definition sbit :: "(nat \<Rightarrow> u32) \<Rightarrow> nat \<Rightarrow> bool" where
  "sbit s b = bit (s (4 * (b div 32))) (b mod 32)"

lemma eri_mask_mask:
  assumes "1 \<le> len" "len \<le> 4"
  shows "eri_mask len vs = push_bit (vs * 8) (mask (8 * len))"
proof -
  consider "len = 1" | "len = 2" | "len = 3" | "len = 4" using assms by linarith
  then show ?thesis by cases (simp_all add: eri_mask_def mask_eq_exp_minus_1)
qed

lemma bit_eri_mask:
  "1 \<le> len \<Longrightarrow> len \<le> 4 \<Longrightarrow> bit (eri_mask len vs) n \<longleftrightarrow> vs * 8 \<le> n \<and> n < vs * 8 + len * 8 \<and> n < 32"
  by (auto simp: eri_mask_mask bit_push_bit_iff bit_mask_iff)

lemma sbit_word: "r < 32 \<Longrightarrow> sbit s (32 * q + r) = bit (s (4 * q)) r"
  by (simp add: sbit_def)


lemma eri_read_loop_ok:
  assumes "eri_reads M base ty sp" "1 \<le> len" "len \<le> 4" "addr + len \<le> 0x10000" "eri_read_loop M base ty addr len 0 0 tp = (v, tp')"
  shows "bit v n \<longleftrightarrow> n < 8 * len \<and> sbit (sp (pp_w tp)) (8 * addr + n)" "sp (pp_w tp') = sp (pp_w tp)"
proof -
  define q vs where "q = addr div 4" and "vs = addr mod 4"
  have a: "addr = 4 * q + vs" "vs < 4" by (simp_all add: q_def vs_def)
  have al: "addr - addr mod 4 = 4 * q" using a by simp
  obtain v1 tp1 where f: "eri_fetch M base ty (4 * q) tp = (v1, tp1)" by (cases "eri_fetch M base ty (4 * q) tp")
  have f1: "v1 = sp (pp_w tp) (4 * q)" "sp (pp_w tp1) = sp (pp_w tp)" using eri_fetch_ok [OF assms(1) _ _ f] assms(2,4) a by auto
  have s1: "sbit (sp (pp_w tp)) (8 * addr + n) = bit v1 (8 * vs + n)" if "8 * vs + n < 32"
    using sbit_word [OF that, of "sp (pp_w tp)" q] a f1 by (simp add: algebra_simps)
  have "(bit v n \<longleftrightarrow> n < 8 * len \<and> sbit (sp (pp_w tp)) (8 * addr + n)) \<and> sp (pp_w tp') = sp (pp_w tp)"
  proof (cases "len \<le> 4 - vs")
    case True
    then have "v = drop_bit (vs * 8) (v1 AND eri_mask len vs)" "tp' = tp1"
      using assms(2,5) f al by (auto simp: vs_def Let_def)
    then show ?thesis using s1 True f1(2) assms(2,3) a(2) by (auto simp: bit_drop_bit_eq bit_and_iff bit_eri_mask algebra_simps)
  next
    case False
    define l2 where "l2 = len - (4 - vs)"
    obtain v2 tp2 where g: "eri_fetch M base ty (4 * q + 4) tp1 = (v2, tp2)" by (cases "eri_fetch M base ty (4 * q + 4) tp1")
    have g1: "v2 = sp (pp_w tp) (4 * (q + 1))" "sp (pp_w tp2) = sp (pp_w tp)"
      using eri_fetch_ok [OF assms(1) _ _ g] assms(4) a False f1(2) by (auto simp: algebra_simps)
    have l: "1 \<le> l2" "l2 \<le> 3" "len = l2 + (4 - vs)" "0 < vs" using False assms(2,3) a(2) by (auto simp: l2_def)
    have "v = drop_bit (vs * 8) (v1 AND eri_mask len vs) OR push_bit ((4 - vs) * 8) (v2 AND eri_mask l2 0)" "tp' = tp2"
      using assms(5) f al g False l by (simp_all add: vs_def [symmetric] l2_def [symmetric] Let_def)
    moreover have "sbit (sp (pp_w tp)) (8 * addr + n) = bit v2 (n - (4 - vs) * 8)" if "(4 - vs) * 8 \<le> n" "n < 8 * len"
      using sbit_word [of "n - (4 - vs) * 8" "sp (pp_w tp)" "q + 1"] that a l g1 by (simp add: algebra_simps)
    ultimately show ?thesis using s1 g1(2) assms(2,3) a(2) l
      by (cases "n < (4 - vs) * 8") (auto simp: bit_drop_bit_eq bit_and_iff bit_or_iff bit_push_bit_iff bit_eri_mask algebra_simps)
  qed
  then show "bit v n \<longleftrightarrow> n < 8 * len \<and> sbit (sp (pp_w tp)) (8 * addr + n)" "sp (pp_w tp') = sp (pp_w tp)" by simp_all
qed


lemma eri_read_word:
  assumes "eri_reads M base ty sp" "4 * q < 0x10000" "rtl8125_eri_read_with_oob_base_address M (4 * q) 4 ty base tp = (v, tp')"
  shows "v = sp (pp_w tp) (4 * q)" "sp (pp_w tp') = sp (pp_w tp)"
proof -
  have e: "eri_read_loop M base ty (4 * q) 4 0 0 tp = (v, tp')" using assms(3) by (simp add: rtl8125_eri_read_with_oob_base_address_def)
  have b: "4 * q + 4 \<le> 0x10000" using assms(2) by presburger
  note r = eri_read_loop_ok [OF assms(1) _ _ b e]
  show "sp (pp_w tp') = sp (pp_w tp)" using r(2) by simp
  show "v = sp (pp_w tp) (4 * q)"
  proof (rule bit_word_eqI)
    fix n assume "n < LENGTH(32)"
    then show "bit v n = bit (sp (pp_w tp) (4 * q)) n" using r(1) [of n] sbit_word [of n "sp (pp_w tp)" q] by simp
  qed
qed

lemma sbit_patch:
  assumes "\<And>r. r < 32 \<Longrightarrow> bit v r = (if lo \<le> r \<and> r < lo + n then f r else bit (s (4 * q)) r)" "lo + n \<le> 32"
  shows "sbit (s(4 * q := v)) b = (if 32 * q + lo \<le> b \<and> b < 32 * q + lo + n then f (b - 32 * q) else sbit s b)"
proof (cases "b div 32 = q")
  case True
  then obtain r where "b = 32 * q + r" "r < 32" by (metis mult_div_mod_eq mod_less_divisor zero_less_numeral)
  then show ?thesis using assms by (simp add: sbit_def)
next
  case False
  then have "\<not> (32 * q + lo \<le> b \<and> b < 32 * q + lo + n)" using assms(2) by auto
  then show ?thesis using False by (auto simp: sbit_def)
qed

lemma eri_write_loop_ok:
  assumes "eri_reads M base ty sp" "eri_writes M base ty sp" "1 \<le> len" "len \<le> 4" "addr + len \<le> 0x10000" "\<And>n. 8 * len \<le> n \<Longrightarrow> \<not> bit val n"
  shows "sbit (sp (pp_w (eri_write_loop M base ty val addr len 0 tp))) b =
    (if 8 * addr \<le> b \<and> b < 8 * (addr + len) then bit val (b - 8 * addr) else sbit (sp (pp_w tp)) b)"
proof -
  define q vs where "q = addr div 4" and "vs = addr mod 4"
  have a: "addr = 4 * q + vs" "vs < 4" by (simp_all add: q_def vs_def)
  have al: "addr - addr mod 4 = 4 * q" using a by simp
  obtain v1 tp1 where f: "rtl8125_eri_read_with_oob_base_address M (4 * q) 4 ty base tp = (v1, tp1)"
    by (cases "rtl8125_eri_read_with_oob_base_address M (4 * q) 4 ty base tp")
  have f1: "v1 = sp (pp_w tp) (4 * q)" "sp (pp_w tp1) = sp (pp_w tp)" using eri_read_word [OF assms(1) _ f] assms(3,5) a by auto
  let ?v = "(v1 AND NOT (eri_mask len vs)) OR push_bit (vs * 8) val"
  define tp2 where "tp2 = eri_store M base ty (4 * q) ?v tp1"
  have s2: "sp (pp_w tp2) = (sp (pp_w tp))(4 * q := ?v)" using eri_store_ok [OF assms(2)] assms(3,5) a f1(2) by (simp add: tp2_def)
  define n1 where "n1 = min (8 * len) (32 - vs * 8)"
  have "bit ?v r = (if vs * 8 \<le> r \<and> r < vs * 8 + n1 then bit val (r - vs * 8) else bit (sp (pp_w tp) (4 * q)) r)" if "r < 32" for r
    using that assms(3,4,6) f1(1) by (auto simp: n1_def bit_or_iff bit_and_iff bit_not_iff bit_push_bit_iff bit_eri_mask)
  then have w1: "sbit (sp (pp_w tp2)) b = (if 8 * addr \<le> b \<and> b < 8 * addr + n1 then bit val (b - 8 * addr) else sbit (sp (pp_w tp)) b)" for b
    using sbit_patch [of ?v "vs * 8" n1 "\<lambda>r. bit val (r - vs * 8)" "sp (pp_w tp)" q b] a
    by (simp add: s2 n1_def algebra_simps)
  show ?thesis
  proof (cases "len \<le> 4 - vs")
    case True
    then have e: "eri_write_loop M base ty val addr len 0 tp = tp2"
      using assms(3) f al by (simp add: vs_def [symmetric] Let_def tp2_def)
    have "n1 = 8 * len" using True a(2) by (simp add: n1_def)
    then show ?thesis using w1 [of b] e by simp
  next
    case False
    define l2 where "l2 = len - (4 - vs)"
    have l: "1 \<le> l2" "l2 \<le> 3" "len = l2 + (4 - vs)" "0 < vs" using False assms(3,4) a(2) by (auto simp: l2_def)
    have b2: "4 * (q + 1) < 0x10000" using assms(5) a False by auto
    obtain v3 tp3 where g: "rtl8125_eri_read_with_oob_base_address M (4 * (q + 1)) 4 ty base tp2 = (v3, tp3)"
      by (cases "rtl8125_eri_read_with_oob_base_address M (4 * (q + 1)) 4 ty base tp2")
    note g1 = eri_read_word [OF assms(1) b2 g]
    let ?u = "(v3 AND NOT (eri_mask l2 0)) OR drop_bit ((4 - vs) * 8) val"
    have e: "eri_write_loop M base ty val addr len 0 tp = eri_store M base ty (4 * (q + 1)) ?u tp3"
      using f al g False l by (simp add: vs_def [symmetric] l2_def [symmetric] Let_def tp2_def add.commute [of "4 * q" 4])
    have s3: "sp (pp_w (eri_store M base ty (4 * (q + 1)) ?u tp3)) = (sp (pp_w tp2))(4 * (q + 1) := ?u)"
      using eri_store_ok [OF assms(2) b2] g1(2) by simp
    have "bit ?u r = (if 0 \<le> r \<and> r < 0 + 8 * l2 then bit val (r + (4 - vs) * 8) else bit (sp (pp_w tp2) (4 * (q + 1))) r)" if "r < 32" for r
      using that assms(6) [of "r + (4 - vs) * 8"] l g1(1) by (auto simp: bit_or_iff bit_and_iff bit_not_iff bit_drop_bit_eq bit_eri_mask algebra_simps)
    then have "sbit (sp (pp_w (eri_write_loop M base ty val addr len 0 tp))) b =
        (if 32 * (q + 1) \<le> b \<and> b < 32 * (q + 1) + 8 * l2 then bit val (b - 32 * (q + 1) + (4 - vs) * 8) else sbit (sp (pp_w tp2)) b)"
      using sbit_patch [of ?u 0 "8 * l2" "\<lambda>r. bit val (r + (4 - vs) * 8)" "sp (pp_w tp2)" "q + 1" b] l unfolding e s3 by simp
    moreover have "8 * addr + n1 = 32 * (q + 1)" "8 * (addr + len) = 32 * (q + 1) + 8 * l2" "8 * addr \<le> 32 * (q + 1)"
      "32 * (q + 1) \<le> b \<Longrightarrow> b - 32 * (q + 1) + (4 - vs) * 8 = b - 8 * addr"
      using a l False by (auto simp: n1_def min_def)
    ultimately show ?thesis using w1 [of b] by auto
  qed
qed


text \<open>
  C35. An access of one to four bytes to the extended registers, at any alignment. Writing a value that fits
  reports success, changes exactly the addressed bytes, little end first, and reading them back gives the
  value; reading changes nothing.
\<close>

theorem eri_write_read:
  assumes "eri_reads M base ty sp" "eri_writes M base ty sp" "1 \<le> len" "len \<le> 4" "addr + len \<le> 0x10000" "unat val < 2 ^ (8 * len)"
    "rtl8125_eri_write_with_oob_base_address M addr (int len) val ty base tp = (rc, tp')"
    "rtl8125_eri_read_with_oob_base_address M addr (int len) ty base tp' = (v, tp'')"
  shows "rc = 0 \<and> v = val \<and> sp (pp_w tp'') = sp (pp_w tp')
    \<and> (\<forall>b. sbit (sp (pp_w tp')) b = (if 8 * addr \<le> b \<and> b < 8 * (addr + len) then bit val (b - 8 * addr) else sbit (sp (pp_w tp)) b))"
proof -
  have nb: "\<not> bit val n" if "8 * len \<le> n" for n
  proof -
    have "unat val < 2 ^ n" using assms(6) that by (meson less_le_trans power_increasing one_le_numeral)
    then have "\<not> bit (unat val) n" by (simp add: bit_iff_odd)
    then show ?thesis using bit_imp_le_length [of val n] by (auto simp: bit_unsigned_iff)
  qed
  have w: "rc = 0" "tp' = eri_write_loop M base ty val addr len 0 tp"
    using assms(3,4,7) by (simp_all add: rtl8125_eri_write_with_oob_base_address_def del: eri_write_loop.simps)
  have r: "eri_read_loop M base ty addr len 0 0 tp' = (v, tp'')"
    using assms(3,4,8) by (simp add: rtl8125_eri_read_with_oob_base_address_def del: eri_read_loop.simps)
  note s = eri_write_loop_ok [OF assms(1-5) nb, of tp, folded w(2)]
  note g = eri_read_loop_ok [OF assms(1,3-5) r]
  have "v = val"
  proof (rule bit_word_eqI)
    fix n assume "n < LENGTH(32)"
    then show "bit v n = bit val n" using g(1) [of n] s [of "8 * addr + n"] nb [of n] by (cases "n < 8 * len") simp_all
  qed
  then show ?thesis using w(1) g(2) s by blast
qed

text \<open>
  A value wider than the access is not cut off: its excess bits are combined into the bytes behind.
\<close>

lemma eri_write_spills:
  assumes "eri_reads M base ty sp" "eri_writes M base ty sp" "1 \<le> len" "len \<le> 4" "4 * q < 0x10000"
    "rtl8125_eri_write_with_oob_base_address M (4 * q) (int len) val ty base tp = (rc, tp')"
  shows "sp (pp_w tp') = (sp (pp_w tp))(4 * q := (sp (pp_w tp) (4 * q) AND NOT (eri_mask len 0)) OR val)"
proof -
  obtain v1 tp1 where f: "rtl8125_eri_read_with_oob_base_address M (4 * q) 4 ty base tp = (v1, tp1)"
    by (cases "rtl8125_eri_read_with_oob_base_address M (4 * q) 4 ty base tp")
  have "tp' = eri_store M base ty (4 * q) ((v1 AND NOT (eri_mask len 0)) OR val) tp1"
    using assms(3,4,6) f by (simp add: rtl8125_eri_write_with_oob_base_address_def)
  then show ?thesis using eri_store_ok [OF assms(2,5)] eri_read_word [OF assms(1,5) f] by simp
qed

section \<open>The PHY registers\<close>

text \<open>The space is indexed by half the register address.\<close>

definition phy_reads :: "'w mmio \<Rightarrow> ('w \<Rightarrow> u16 \<Rightarrow> u16) \<Rightarrow> bool" where
  "phy_reads M sp \<longleftrightarrow> (\<forall>w a. a < 0x8000 \<longrightarrow>
     (let w1 = reg_w32 M PHYOCP (push_bit 16 (ucast a)) w in
      \<exists>k. answers M PHYOCP (\<lambda>v. v AND REG_FLAG \<noteq> 0) w1 k
        \<and> (let r = reg_r32 M PHYOCP (iter_read M PHYOCP (Suc k) w1) in fst r AND 0xFFFF = ucast (sp w a) \<and> sp (snd r) = sp w)))"

definition phy_writes :: "'w mmio \<Rightarrow> ('w \<Rightarrow> u16 \<Rightarrow> u16) \<Rightarrow> bool" where
  "phy_writes M sp \<longleftrightarrow> (\<forall>w a v. a < 0x8000 \<longrightarrow>
     (let w1 = reg_w32 M PHYOCP (push_bit 16 (ucast a) OR (REG_FLAG OR ucast (v :: u16))) w in
      \<exists>k. answers M PHYOCP (\<lambda>v. v AND REG_FLAG = 0) w1 k \<and> sp (iter_read M PHYOCP (Suc k) w1) = (sp w)(a := v)))"

lemma half_less: "(a :: u16) div 2 < 0x8000"
proof -
  have "unat a < 65536" using unsigned_less [of a] by simp
  then show ?thesis by (simp add: word_less_nat_alt unat_div)
qed

lemma phy_read_ok:
  assumes "phy_reads M sp" "mdio_real_direct_read_phy_ocp M a tp = (v, tp')"
  shows "v = ucast (sp (pp_w tp) (a div 2))" "sp (pp_w tp') = sp (pp_w tp)" "tp'\<lparr>pp_w := pp_w tp\<rparr> = tp"
proof -
  let ?tp = "reg_write M PHYOCP (push_bit 16 (ucast (a div 2))) tp"
  have w: "pp_w ?tp = reg_w32 M PHYOCP (push_bit 16 (ucast (a div 2))) (pp_w tp)" by (simp add: reg_write_def)
  obtain k where k: "answers M PHYOCP (\<lambda>v. v AND REG_FLAG \<noteq> 0) (pp_w ?tp) k"
    "fst (reg_r32 M PHYOCP (iter_read M PHYOCP (Suc k) (pp_w ?tp))) AND 0xFFFF = ucast (sp (pp_w tp) (a div 2))"
    "sp (snd (reg_r32 M PHYOCP (iter_read M PHYOCP (Suc k) (pp_w ?tp)))) = sp (pp_w tp)"
    using assms(1) half_less [of a] unfolding phy_reads_def Let_def w by blast
  have "mdio_real_direct_read_phy_ocp M a tp =
      (case reg_r32 M PHYOCP (iter_read M PHYOCP (Suc k) (pp_w ?tp)) of (v, w) \<Rightarrow> (v AND 0xFFFF, ?tp\<lparr>pp_w := w\<rparr>))"
    by (simp add: mdio_real_direct_read_phy_ocp_def Let_def wait_set_answers [OF k(1)] reg_read_def split: prod.splits)
  then show "v = ucast (sp (pp_w tp) (a div 2))" "sp (pp_w tp') = sp (pp_w tp)" "tp'\<lparr>pp_w := pp_w tp\<rparr> = tp"
    using assms(2) k(2,3) by (auto simp: reg_write_def split: prod.splits)
qed

lemma phy_write_ok:
  assumes "phy_writes M sp"
  shows "sp (pp_w (mdio_real_direct_write_phy_ocp M a v tp)) = (sp (pp_w tp))(a div 2 := v)"
    "(mdio_real_direct_write_phy_ocp M a v tp)\<lparr>pp_w := pp_w tp\<rparr> = tp"
proof -
  let ?c = "push_bit 16 (ucast (a div 2)) OR (REG_FLAG OR ucast v)"
  let ?tp = "reg_write M PHYOCP ?c tp"
  have w: "pp_w ?tp = reg_w32 M PHYOCP ?c (pp_w tp)" by (simp add: reg_write_def)
  obtain k where k: "answers M PHYOCP (\<lambda>v. v AND REG_FLAG = 0) (pp_w ?tp) k"
    "sp (iter_read M PHYOCP (Suc k) (pp_w ?tp)) = (sp (pp_w tp))(a div 2 := v)"
    using assms half_less [of a] unfolding phy_writes_def Let_def w by blast
  then show "sp (pp_w (mdio_real_direct_write_phy_ocp M a v tp)) = (sp (pp_w tp))(a div 2 := v)"
    "(mdio_real_direct_write_phy_ocp M a v tp)\<lparr>pp_w := pp_w tp\<rparr> = tp"
    by (simp_all add: mdio_real_direct_write_phy_ocp_def wait_clear_answers [OF k(1)]) (simp add: reg_write_def)
qed

text \<open>The standard registers, page 0, lie one after another in the PHY space; so do the registers of a page.\<close>

lemma map_phy_ocp_addr_std: "map_phy_ocp_addr 0 r = 0xA400 + 2 * ucast r"
proof -
  have r: "unat r < 256" using unsigned_less [of r] by simp
  have d: "unat r div 8 < 32" "unat r mod 8 < 8" using r by auto
  have e: "16 * (unat r div 8) + unat r mod 8 * 2 = 2 * unat r" by presburger
  have "unat (0x10 + r mod 8) = 16 + unat r mod 8" using d by (simp add: unat_word_ariths unat_mod)
  then have n: "\<not> 0x10 + r mod 8 < 16" "0x10 + r mod 8 - 16 = r mod 8" by (simp_all add: word_less_nat_alt)
  have "unat (push_bit 1 (r mod 8)) = 2 * (unat r mod 8)" using d by (simp add: push_bit_eq_mult unat_word_ariths unat_mod)
  moreover have "unat (push_bit 4 (0x0A40 + ucast (r div 8) :: u16)) = 16 * (0x0A40 + unat r div 8)"
    using d by (simp add: push_bit_eq_mult unat_word_ariths unat_div unsigned_ucast_eq take_bit_eq_mod)
  ultimately have "unat (push_bit 4 (0x0A40 + ucast (r div 8) :: u16) + ucast (push_bit 1 (r mod 8))) = 0xA400 + 2 * unat r"
    using r d e by (simp add: unat_word_ariths unsigned_ucast_eq take_bit_eq_mod)
  moreover have "unat (0xA400 + 2 * ucast r :: u16) = 0xA400 + 2 * unat r" using r by (simp add: unat_word_ariths unsigned_ucast_eq take_bit_eq_mod)
  ultimately show ?thesis using n by (simp add: map_phy_ocp_addr_def Let_def word_unat_eq_iff)
qed

lemma map_phy_ocp_addr_page:
  assumes "p \<noteq> 0" "16 \<le> r" "r < 32"
  shows "map_phy_ocp_addr p r = 16 * p + 2 * (ucast r - 16)"
proof -
  have r: "16 \<le> unat r" "unat r < 32" using assms(2,3) by (simp_all add: word_le_nat_alt word_less_nat_alt)
  have s: "unat (r - 16) = unat r - 16" using r by (simp add: unat_sub word_le_nat_alt)
  have "unat (push_bit 1 x) = 2 * unat x" if "unat x < 16" for x :: u8 using that by (simp add: push_bit_eq_mult unat_word_ariths)
  then have "unat (push_bit 1 (r - 16)) = 2 * (unat r - 16)" using r s by (metis diff_less_mono add_diff_cancel_left' numeral_Bit0)
  then have "unat (ucast (push_bit 1 (r - 16)) :: u16) = 2 * (unat r - 16)" using r by (simp only: unsigned_ucast_eq take_bit_eq_mod) simp
  moreover define y :: u16 where "y = ucast r - 16"
  have y: "unat y = unat r - 16" using r by (simp add: y_def unat_sub word_le_nat_alt unsigned_ucast_eq take_bit_eq_mod)
  have "unat (2 * (ucast r - 16) :: u16) = 2 * (unat r - 16)" unfolding y_def [symmetric] using r y by (simp add: unat_word_ariths)
  ultimately have "(ucast (push_bit 1 (r - 16)) :: u16) = 2 * (ucast r - 16)" by (simp add: word_unat_eq_iff)
  moreover have "\<not> r < 16" using assms(2) by (simp only: not_less)
  ultimately show ?thesis using assms(1) by (simp add: map_phy_ocp_addr_def Let_def push_bit_eq_mult mult.commute)
qed

definition phy_word :: "u16 \<Rightarrow> u16 \<Rightarrow> u16" where
  "phy_word p r = map_phy_ocp_addr p (ucast r) div 2"

lemma ucast_via_u32: "(ucast (ucast r :: u32) :: u8) = ucast (r :: u16)" "(ucast (ucast v :: u32) :: u16) = v"
  by (rule bit_word_eqI, simp add: bit_simps)+

lemma mdio_write_ok:
  assumes "phy_writes M sp" "\<not> rtk_enable_diag tp" "r \<noteq> 0x1F"
  shows "sp (pp_w (rtl8125_mdio_write M r v tp)) = (sp (pp_w tp))(phy_word (cur_page tp) r := v)"
    "(rtl8125_mdio_write M r v tp)\<lparr>pp_w := pp_w tp\<rparr> = tp"
  using assms phy_write_ok [OF assms(1)]
  by (simp_all add: rtl8125_mdio_write_def mdio_real_write_def mdio_real_write_phy_ocp_def phy_word_def ucast_via_u32)

lemma mdio_read_ok:
  assumes "phy_reads M sp" "\<not> rtk_enable_diag tp" "rtl8125_mdio_read M r tp = (v, tp')"
  shows "v = ucast (sp (pp_w tp) (phy_word (cur_page tp) r))" "sp (pp_w tp') = sp (pp_w tp)" "tp'\<lparr>pp_w := pp_w tp\<rparr> = tp"
  using phy_read_ok [OF assms(1), of "map_phy_ocp_addr (cur_page tp) (ucast (ucast r :: u32))" tp v tp'] assms(2,3)
  by (simp_all add: rtl8125_mdio_read_def mdio_real_read_def mdio_real_read_phy_ocp_def phy_word_def ucast_via_u32)

text \<open>
  C36. Paged access to the PHY. Selecting a page and writing a register stores the value in the one word of
  the PHY space that the page and the register number name, and nowhere else; reading the register then
  gives the value, and clearing and setting bits changes those bits only. The registers of page 0 are the
  words from \<open>0xA400\<close> on.
\<close>

theorem mdio_paged_access:
  assumes "phy_reads M sp" "phy_writes M sp" "\<not> rtk_enable_diag tp" "r < 0x1F"
    "tp1 = rtl8125_mdio_write M r v (rtl8125_mdio_write M 0x1F p tp)" "rtl8125_mdio_read M r tp1 = (x, tp2)"
    "tp3 = ClearAndSetEthPhyBit M (ucast r) c s tp1"
  shows "sp (pp_w tp1) = (sp (pp_w tp))(phy_word p r := v) \<and> x = ucast v \<and> sp (pp_w tp2) = sp (pp_w tp1) \<and> cur_page tp2 = p
    \<and> sp (pp_w tp3) = (sp (pp_w tp1))(phy_word p r := (v AND NOT c) OR s) \<and> phy_word 0 r = 0x5200 + r"
proof -
  let ?tp = "rtl8125_mdio_write M 0x1F p tp"
  have p: "?tp = tp\<lparr>cur_page := p\<rparr>" using assms(3) by (simp add: rtl8125_mdio_write_def mdio_real_write_def)
  have r: "r \<noteq> 0x1F" using assms(4) by auto
  note w = mdio_write_ok [OF assms(2) _ r, of ?tp v]
  have s1: "sp (pp_w tp1) = (sp (pp_w tp))(phy_word p r := v)" using w assms(3) by (simp add: assms(5) p)
  have f: "\<not> rtk_enable_diag tp1" "cur_page tp1 = p"
    using arg_cong [OF w(2), of rtk_enable_diag] arg_cong [OF w(2), of cur_page] assms(3) by (simp_all add: assms(5) p)
  note g = mdio_read_ok [OF assms(1) f(1) assms(6)]
  have x: "x = ucast v" "sp (pp_w tp2) = sp (pp_w tp1)" using g s1 f(2) by simp_all
  have f2: "cur_page tp2 = p" "\<not> rtk_enable_diag tp2"
    using arg_cong [OF g(3), of cur_page] arg_cong [OF g(3), of rtk_enable_diag] f by simp_all
  have u: "unat r < 31" using assms(4) by (simp add: word_less_nat_alt)
  have ur: "ucast (ucast r :: u8) = r" using u by (simp add: word_unat_eq_iff unsigned_ucast_eq take_bit_eq_mod unat_mod)
  have "tp3 = rtl8125_mdio_write M r (clear_set c s v) tp2"
    using assms(6) x(1) by (simp add: assms(7) ClearAndSetEthPhyBit_def ur ucast_via_u32)
  then have s3: "sp (pp_w tp3) = (sp (pp_w tp1))(phy_word p r := (v AND NOT c) OR s)"
    using mdio_write_ok(1) [OF assms(2) f2(2) r] x(2) f2(1) by (simp add: clear_set_def)
  have "unat (2 * r) = 2 * unat r" "unat (0xA400 + 2 * r) = 0xA400 + 2 * unat r" using u by (simp_all add: unat_word_ariths)
  then have "phy_word 0 r = 0x5200 + r"
    using u by (simp add: phy_word_def map_phy_ocp_addr_std ur word_unat_eq_iff unat_div unat_word_ariths)
  then show ?thesis using s1 x f2(1) s3 by simp
qed

section \<open>A chip that answers at once\<close>

text \<open>
  The extended registers are kept by read command, the PHY registers by half their address; a command is
  carried out when it is written.
\<close>

record reg_chip =
  rc_eri :: "u32 \<Rightarrow> u32"
  rc_eriar :: u32
  rc_eridr :: u32
  rc_phy :: "u16 \<Rightarrow> u16"
  rc_phyocp :: u32

definition chip_w32 :: "nat \<Rightarrow> u32 \<Rightarrow> reg_chip \<Rightarrow> reg_chip" where
  "chip_w32 reg v c =
     (if reg = ERIDR then c\<lparr>rc_eridr := v\<rparr>
      else if reg = ERIAR then
        (if v AND REG_FLAG \<noteq> 0 then c\<lparr>rc_eri := (rc_eri c)(v AND NOT REG_FLAG := rc_eridr c), rc_eriar := v AND NOT REG_FLAG\<rparr>
         else c\<lparr>rc_eridr := rc_eri c v, rc_eriar := v OR REG_FLAG\<rparr>)
      else if reg = PHYOCP then
        (if v AND REG_FLAG \<noteq> 0 then c\<lparr>rc_phy := (rc_phy c)(ucast (drop_bit 16 (v AND NOT REG_FLAG)) := ucast v), rc_phyocp := v AND NOT REG_FLAG\<rparr>
         else c\<lparr>rc_phyocp := REG_FLAG OR ucast (rc_phy c (ucast (drop_bit 16 v)))\<rparr>)
      else c)"

definition chip_r32 :: "nat \<Rightarrow> reg_chip \<Rightarrow> u32 \<times> reg_chip" where
  "chip_r32 reg c = (if reg = ERIDR then rc_eridr c else if reg = ERIAR then rc_eriar c else if reg = PHYOCP then rc_phyocp c else 0, c)"

definition chip_mmio :: "reg_chip mmio" where
  "chip_mmio = \<lparr>reg_r32 = chip_r32, reg_w32 = chip_w32, cfg_rb = (\<lambda>_ c. (0, c)), cfg_wb = (\<lambda>_ _ c. c)\<rparr>"

definition chip_eri :: "reg_chip \<Rightarrow> nat \<Rightarrow> u32" where
  "chip_eri c a = (if a < 0x10000 then rc_eri c (eri_cmd 0 0 0 a) else 0)"

lemma chip_answers: "f (fst (chip_r32 reg c)) \<Longrightarrow> answers chip_mmio reg f c 0" "iter_read chip_mmio reg n c = c"
proof -
  show "iter_read chip_mmio reg n c = c" by (induction n) (simp_all add: iter_read_Suc chip_mmio_def chip_r32_def)
  show "f (fst (chip_r32 reg c)) \<Longrightarrow> answers chip_mmio reg f c 0" by (simp add: answers_def chip_mmio_def)
qed

lemma and_flag: "(v :: u32) AND REG_FLAG \<noteq> 0 \<longleftrightarrow> bit v 31"
proof -
  have "(REG_FLAG :: u32) = 2 ^ 31" by simp
  then show ?thesis by (simp only: and_exp_eq_0_iff_not_bit not_not)
qed

lemma bit_eri_cmd: "bit (eri_cmd 0 0 0 a) n \<longleftrightarrow> n < 32 \<and> (12 \<le> n \<and> n < 16 \<or> n < 12 \<and> bit a n \<or> 20 \<le> n \<and> n < 24 \<and> bit a (n - 8))"
proof -
  define A :: u32 where "A = of_nat a"
  have A: "bit A k \<longleftrightarrow> k < 32 \<and> bit a k" for k by (simp add: A_def bit_of_nat_iff)
  have c: "(0x0FFF :: u32) = mask 12" "(0x0f :: u32) = mask 4" "(0xF000 :: u32) = push_bit 12 (mask 4)" "(0x00F00000 :: u32) = push_bit 20 (mask 4)"
    by (simp_all add: mask_eq_exp_minus_1 push_bit_eq_mult)
  let ?B = "push_bit 20 (drop_bit 12 (A AND push_bit 12 (mask 4))) AND push_bit 20 (mask 4)"
  let ?C = "push_bit 12 (mask 4) OR (A AND mask 12)"
  have e: "eri_cmd 0 0 0 a = (if A AND push_bit 12 (mask 4) \<noteq> 0 then ?C OR ?B else ?C)"
    by (simp only: eri_cmd_def eri_base_def Let_def A_def [symmetric] c) simp
  show ?thesis
  proof (cases "A AND push_bit 12 (mask 4) = 0")
    case True
    have "\<not> bit a (n - 8)" if "20 \<le> n" "n < 24"
      using arg_cong [OF True, of "\<lambda>c. bit c (n - 8)"] that by (simp add: bit_and_iff bit_push_bit_iff bit_mask_iff A) linarith
    then show ?thesis using e True by (auto simp: bit_or_iff bit_and_iff bit_push_bit_iff bit_mask_iff A)
  next
    case False
    then have "eri_cmd 0 0 0 a = ?C OR ?B" using e by simp
    then show ?thesis by (auto simp: bit_or_iff bit_and_iff bit_push_bit_iff bit_drop_bit_eq bit_mask_iff A)
  qed
qed

lemma eri_cmd_inj:
  assumes "a < 0x10000" "b < 0x10000" "eri_cmd 0 0 0 a = eri_cmd 0 0 0 b"
  shows "a = b"
proof (rule bit_eqI)
  fix n
  have "\<not> bit x n" if "x < 0x10000" "16 \<le> n" for x :: nat
  proof -
    have "(2 :: nat) ^ 16 \<le> 2 ^ n" using that(2) by (intro power_increasing) simp_all
    then show ?thesis using that(1) by (simp add: bit_iff_odd)
  qed
  moreover have "bit a n = bit b n" if "n < 12" using arg_cong [OF assms(3), of "\<lambda>c. bit c n"] that by (simp add: bit_eri_cmd)
  moreover have "bit a n = bit b n" if "12 \<le> n" "n < 16"
    using arg_cong [OF assms(3), of "\<lambda>c. bit c (n + 8)"] that by (simp add: bit_eri_cmd)
  ultimately show "bit a n = bit b n" using assms(1,2) by (meson not_less)
qed

lemma bit_flag: "bit (REG_FLAG :: u32) n \<longleftrightarrow> n = 31"
proof -
  have "(REG_FLAG :: u32) = 2 ^ 31" by simp
  then show ?thesis by (simp only: bit_exp_iff) auto
qed

lemma eri_cmd_flag: "eri_cmd REG_FLAG 0 0 a = REG_FLAG OR eri_cmd 0 0 0 a"
  by (simp add: eri_cmd_def eri_base_def Let_def or.assoc)

lemma flag_off: "\<not> bit v 31 \<Longrightarrow> (REG_FLAG OR v) AND NOT REG_FLAG = v"
  by (rule bit_word_eqI) (simp only: bit_or_iff bit_and_iff bit_not_iff bit_flag, auto)

lemma chip_eri_ok: "eri_reads chip_mmio 0 0 chip_eri" "eri_writes chip_mmio 0 0 chip_eri"
proof -
  have n: "\<not> bit (eri_cmd 0 0 0 a) 31" for a by (simp add: bit_eri_cmd)
  have "\<exists>k. answers chip_mmio ERIAR (\<lambda>v. v AND REG_FLAG \<noteq> 0) (chip_w32 ERIAR (eri_cmd 0 0 0 a) w) k
      \<and> fst (chip_r32 ERIDR (chip_w32 ERIAR (eri_cmd 0 0 0 a) w)) = chip_eri w a
      \<and> chip_eri (snd (chip_r32 ERIDR (chip_w32 ERIAR (eri_cmd 0 0 0 a) w))) = chip_eri w" if "a < 0x10000" for w a
    by (intro exI [of _ 0] conjI chip_answers)
      (use n that in \<open>simp_all add: chip_r32_def chip_w32_def and_flag bit_or_iff bit_flag chip_eri_def fun_eq_iff\<close>)
  then show "eri_reads chip_mmio 0 0 chip_eri"
    by (simp add: eri_reads_def Let_def chip_answers(2)) (simp add: chip_mmio_def)
  have "\<exists>k. answers chip_mmio ERIAR (\<lambda>v. v AND REG_FLAG = 0) (chip_w32 ERIAR (eri_cmd REG_FLAG 0 0 a) (chip_w32 ERIDR v w)) k
      \<and> chip_eri (chip_w32 ERIAR (eri_cmd REG_FLAG 0 0 a) (chip_w32 ERIDR v w)) = (chip_eri w)(a := v)" if "a < 0x10000" for w a v
  proof (intro exI [of _ 0] conjI chip_answers)
    have e: "chip_w32 ERIAR (eri_cmd REG_FLAG 0 0 a) (chip_w32 ERIDR v w)
        = w\<lparr>rc_eri := (rc_eri w)(eri_cmd 0 0 0 a := v), rc_eridr := v, rc_eriar := eri_cmd 0 0 0 a\<rparr>"
      using flag_off [OF n] by (simp add: chip_w32_def eri_cmd_flag and_flag bit_or_iff bit_flag)
    show "fst (chip_r32 ERIAR (chip_w32 ERIAR (eri_cmd REG_FLAG 0 0 a) (chip_w32 ERIDR v w))) AND REG_FLAG = 0"
      using n [of a] and_flag [of "eri_cmd 0 0 0 a"] unfolding e by (simp add: chip_r32_def)
    show "chip_eri (chip_w32 ERIAR (eri_cmd REG_FLAG 0 0 a) (chip_w32 ERIDR v w)) = (chip_eri w)(a := v)"
      unfolding e using that eri_cmd_inj [of _ a] by (auto simp: chip_eri_def fun_eq_iff)
  qed
  then show "eri_writes chip_mmio 0 0 chip_eri"
    by (simp add: eri_writes_def Let_def chip_answers(2)) (simp add: chip_mmio_def)
qed

lemma phy_cmd:
  fixes a v :: u16
  assumes "a < 0x8000"
  shows "\<not> bit (push_bit 16 (ucast a) :: u32) 31" "ucast (drop_bit 16 (push_bit 16 (ucast a) :: u32)) = a"
    "push_bit 16 (ucast a) OR (REG_FLAG OR ucast v) = REG_FLAG OR (push_bit 16 (ucast a) OR ucast v :: u32)"
    "\<not> bit (push_bit 16 (ucast a) OR ucast v :: u32) 31" "ucast (drop_bit 16 (push_bit 16 (ucast a) OR ucast v :: u32)) = a"
    "ucast (REG_FLAG OR (push_bit 16 (ucast a) OR ucast v :: u32)) = v" "(REG_FLAG OR ucast v) AND 0xFFFF = (ucast v :: u32)"
proof -
  have m: "(0xFFFF :: u32) = mask 16" by (simp add: mask_eq_exp_minus_1)
  have "unat a < 2 ^ 15" using assms by (simp add: word_less_nat_alt)
  then have "\<not> bit (unat a) 15" by (simp add: bit_iff_odd)
  then have a: "\<not> bit a 15" by (simp add: bit_unsigned_iff)
  show "\<not> bit (push_bit 16 (ucast a) :: u32) 31" "\<not> bit (push_bit 16 (ucast a) OR ucast v :: u32) 31"
    using a bit_imp_le_length [of v 31] by (auto simp: bit_push_bit_iff bit_ucast_iff bit_or_iff)
  show "push_bit 16 (ucast a) OR (REG_FLAG OR ucast v) = REG_FLAG OR (push_bit 16 (ucast a) OR ucast v :: u32)" by (rule or.left_commute)
  show "ucast (drop_bit 16 (push_bit 16 (ucast a) :: u32)) = a" "ucast (drop_bit 16 (push_bit 16 (ucast a) OR ucast v :: u32)) = a"
    by (rule bit_word_eqI, auto simp: bit_ucast_iff bit_drop_bit_eq bit_push_bit_iff bit_or_iff dest: bit_imp_le_length)+
  show "ucast (REG_FLAG OR (push_bit 16 (ucast a) OR ucast v :: u32)) = v"
    by (rule bit_word_eqI) (simp only: bit_ucast_iff bit_or_iff bit_push_bit_iff bit_flag, auto)
  show "(REG_FLAG OR ucast v) AND 0xFFFF = (ucast v :: u32)"
    unfolding m by (rule bit_word_eqI) (simp only: bit_ucast_iff bit_or_iff bit_and_iff bit_mask_iff bit_flag, auto dest: bit_imp_le_length)
qed

lemma chip_phy_ok: "phy_reads chip_mmio rc_phy" "phy_writes chip_mmio rc_phy"
proof -
  have "\<exists>k. answers chip_mmio PHYOCP (\<lambda>v. v AND REG_FLAG \<noteq> 0) (chip_w32 PHYOCP (push_bit 16 (ucast a)) w) k
      \<and> fst (chip_r32 PHYOCP (chip_w32 PHYOCP (push_bit 16 (ucast a)) w)) AND 0xFFFF = ucast (rc_phy w a)
      \<and> rc_phy (snd (chip_r32 PHYOCP (chip_w32 PHYOCP (push_bit 16 (ucast a)) w))) = rc_phy w" if "a < 0x8000" for w a
  proof -
    have "chip_w32 PHYOCP (push_bit 16 (ucast a)) w = w\<lparr>rc_phyocp := REG_FLAG OR ucast (rc_phy w a)\<rparr>"
      using phy_cmd(1,2) [OF that] by (simp add: chip_w32_def and_flag)
    then show ?thesis
      using phy_cmd(7) [OF that] by (intro exI [of _ 0] conjI chip_answers) (simp_all add: chip_r32_def and_flag bit_or_iff bit_flag)
  qed
  then show "phy_reads chip_mmio rc_phy"
    by (simp add: phy_reads_def Let_def chip_answers(2)) (simp add: chip_mmio_def)
  have "\<exists>k. answers chip_mmio PHYOCP (\<lambda>v. v AND REG_FLAG = 0) (chip_w32 PHYOCP (push_bit 16 (ucast a) OR (REG_FLAG OR ucast v)) w) k
      \<and> rc_phy (chip_w32 PHYOCP (push_bit 16 (ucast a) OR (REG_FLAG OR ucast v)) w) = (rc_phy w)(a := v)" if "a < 0x8000" for w a and v :: u16
  proof -
    let ?c = "push_bit 16 (ucast a) OR ucast v :: u32"
    have "chip_w32 PHYOCP (REG_FLAG OR ?c) w = w\<lparr>rc_phy := (rc_phy w)(a := v), rc_phyocp := ?c\<rparr>"
      using flag_off [OF phy_cmd(4) [OF that]] phy_cmd(5,6) [OF that] by (simp add: chip_w32_def and_flag bit_or_iff bit_flag)
    then show ?thesis unfolding phy_cmd(3) [OF that]
      using phy_cmd(4) [OF that] and_flag [of ?c] by (intro exI [of _ 0] conjI chip_answers) (simp_all add: chip_r32_def)
  qed
  then show "phy_writes chip_mmio rc_phy"
    by (simp add: phy_writes_def Let_def chip_answers(2)) (simp add: chip_mmio_def)
qed

definition demo_phy :: "reg_chip phy_priv" where
  "demo_phy = \<lparr>cur_page = 0, ocp_base = 0xA400, rtk_enable_diag = False, cfg_default = False,
     pp_w = \<lparr>rc_eri = (\<lambda>_. 0x11223344), rc_eriar = 0, rc_eridr = 0, rc_phy = (\<lambda>_. 0xFFFF), rc_phyocp = 0\<rparr>\<rparr>"

theorem eri_write_read_witness:
  "fst (rtl8125_eri_read_with_oob_base_address chip_mmio 3 2 0 0
     (snd (rtl8125_eri_write_with_oob_base_address chip_mmio 3 2 0xBEEF 0 0 demo_phy))) = 0xBEEF"
  using eri_write_read [OF chip_eri_ok, of 2 3 "0xBEEF", OF _ _ _ _ surjective_pairing surjective_pairing, of demo_phy] by simp

theorem mdio_paged_access_witness:
  "rc_phy (pp_w (ClearAndSetEthPhyBit chip_mmio 16 0xF0 1 (rtl8125_mdio_write chip_mmio 16 0x1234 (rtl8125_mdio_write chip_mmio 0x1F 0xA42 demo_phy))))
     (phy_word 0xA42 16) = 0x1205"
  using mdio_paged_access [where tp = demo_phy and r = 16 and v = "0x1234" and p = "0xA42" and c = "0xF0" and s = "1", OF chip_phy_ok _ _ refl surjective_pairing refl]
  by (simp add: demo_phy_def)

end
