(* ===== verification/R8125_Fw.thy ===== *)
theory R8125_Fw
  imports R8125_RegSpace
begin

text \<open>
  Firmware of the Realtek PHY and MAC (\<^verbatim>\<open>r8125/src/r8125_firmware.c\<close> and its callers in \<^verbatim>\<open>r8125_n.c\<close>): an
  image read from a file is checked, and then interpreted as a program of 32-bit actions that read,
  modify and write registers and jump.

  The image is a list of bytes; an action outside of it cannot be read, which is the result \<^const>\<open>None\<close>.
  The program counter is a 64-bit word, as the C loop lets it wrap. The loop may run for ever, so the
  interpreter has fuel.
\<close>

unbundle bit_operations_syntax

section \<open>Images\<close>

record rtl_fw =
  fw_data :: "u8 list"
  fw_name :: "u8 list"
  fw_version :: "u8 list"
  pa_start :: nat
  pa_size :: nat

definition le32_at :: "u8 list \<Rightarrow> nat \<Rightarrow> u32" where
  "le32_at bs i = ucast (bs ! i) OR push_bit 8 (ucast (bs ! (i + 1))) OR push_bit 16 (ucast (bs ! (i + 2))) OR push_bit 24 (ucast (bs ! (i + 3)))"

abbreviation (input) FW_OPCODE_SIZE :: nat where "FW_OPCODE_SIZE \<equiv> 4"
abbreviation (input) FW_INFO_SIZE :: nat where "FW_INFO_SIZE \<equiv> 45"
abbreviation (input) RTL8125_VER_SIZE :: nat where "RTL8125_VER_SIZE \<equiv> 32"

definition strscpy :: "u8 list \<Rightarrow> nat \<Rightarrow> u8 list" where
  "strscpy src n = takeWhile (\<lambda>b. b \<noteq> 0) (take (n - 1) src)"

definition rtl8125_fw_format_ok :: "rtl_fw \<Rightarrow> bool \<times> rtl_fw" where
  "rtl8125_fw_format_ok f =
     (let d = fw_data f in
      if length d < FW_OPCODE_SIZE then (False, f)
      else if le32_at d 0 = 0 then
        (if length d < FW_INFO_SIZE then (False, f)
         else if sum_list d \<noteq> 0 then (False, f)
         else
           (let start = unat (le32_at d 36) in
            if length d < start then (False, f)
            else
              (let sz = unat (le32_at d 40) in
               if (length d - start) div FW_OPCODE_SIZE < sz then (False, f)
               else (True, f\<lparr>fw_version := strscpy (take RTL8125_VER_SIZE (drop 4 d)) RTL8125_VER_SIZE, pa_start := start, pa_size := sz\<rparr>))))
      else if length d mod FW_OPCODE_SIZE \<noteq> 0 then (False, f)
      else (True, f\<lparr>fw_version := strscpy (fw_name f) RTL8125_VER_SIZE, pa_start := 0, pa_size := length d div FW_OPCODE_SIZE\<rparr>))"

definition fw_action :: "rtl_fw \<Rightarrow> nat \<Rightarrow> u32 option" where
  "fw_action f i =
     (let p = pa_start f + FW_OPCODE_SIZE * i in
      if p + FW_OPCODE_SIZE \<le> length (fw_data f) then Some (le32_at (fw_data f) p) else None)"

definition act_val :: "u32 \<Rightarrow> u32" where "act_val action = action AND 0x0000ffff"
definition act_regno :: "u32 \<Rightarrow> u32" where "act_regno action = drop_bit 16 (action AND 0x0fff0000)"
definition act_opcode :: "u32 \<Rightarrow> u32" where "act_opcode action = drop_bit 28 action"

abbreviation (input) PHY_READ :: u32 where "PHY_READ \<equiv> 0x0"
abbreviation (input) PHY_DATA_OR :: u32 where "PHY_DATA_OR \<equiv> 0x1"
abbreviation (input) PHY_DATA_AND :: u32 where "PHY_DATA_AND \<equiv> 0x2"
abbreviation (input) PHY_BJMPN :: u32 where "PHY_BJMPN \<equiv> 0x3"
abbreviation (input) PHY_MDIO_CHG :: u32 where "PHY_MDIO_CHG \<equiv> 0x4"
abbreviation (input) PHY_CLEAR_READCOUNT :: u32 where "PHY_CLEAR_READCOUNT \<equiv> 0x7"
abbreviation (input) PHY_WRITE :: u32 where "PHY_WRITE \<equiv> 0x8"
abbreviation (input) PHY_READCOUNT_EQ_SKIP :: u32 where "PHY_READCOUNT_EQ_SKIP \<equiv> 0x9"
abbreviation (input) PHY_COMP_EQ_SKIPN :: u32 where "PHY_COMP_EQ_SKIPN \<equiv> 0xa"
abbreviation (input) PHY_COMP_NEQ_SKIPN :: u32 where "PHY_COMP_NEQ_SKIPN \<equiv> 0xb"
abbreviation (input) PHY_WRITE_PREVIOUS :: u32 where "PHY_WRITE_PREVIOUS \<equiv> 0xc"
abbreviation (input) PHY_SKIPN :: u32 where "PHY_SKIPN \<equiv> 0xd"
abbreviation (input) PHY_DELAY_MS :: u32 where "PHY_DELAY_MS \<equiv> 0xe"

definition fw_action_ok :: "nat \<Rightarrow> nat \<Rightarrow> u32 \<Rightarrow> bool" where
  "fw_action_ok sz index action =
     (let val = act_val action; regno = unat (act_regno action); opc = act_opcode action in
      if opc \<in> {PHY_READ, PHY_DATA_OR, PHY_DATA_AND, PHY_CLEAR_READCOUNT, PHY_WRITE, PHY_WRITE_PREVIOUS, PHY_DELAY_MS} then True
      else if opc = PHY_MDIO_CHG then \<not> 1 < val
      else if opc = PHY_BJMPN then \<not> index < regno
      else if opc = PHY_READCOUNT_EQ_SKIP then \<not> sz \<le> index + 2
      else if opc \<in> {PHY_COMP_EQ_SKIPN, PHY_COMP_NEQ_SKIPN, PHY_SKIPN} then \<not> sz \<le> index + 1 + regno
      else False)"

fun fw_data_loop :: "rtl_fw \<Rightarrow> nat list \<Rightarrow> bool option" where
  "fw_data_loop f [] = Some True"
| "fw_data_loop f (i # is) =
     (case fw_action f i of
        None \<Rightarrow> None
      | Some action \<Rightarrow> if fw_action_ok (pa_size f) i action then fw_data_loop f is else Some False)"

definition rtl8125_fw_data_ok :: "rtl_fw \<Rightarrow> bool option" where
  "rtl8125_fw_data_ok f = fw_data_loop f [0 ..< pa_size f]"

section \<open>The interpreter\<close>

record 's fw_ops =
  fo_phy_write :: "u16 \<Rightarrow> u16 \<Rightarrow> 's \<Rightarrow> 's"
  fo_phy_read :: "u16 \<Rightarrow> 's \<Rightarrow> u32 \<times> 's"
  fo_mac_mcu_write :: "u16 \<Rightarrow> u16 \<Rightarrow> 's \<Rightarrow> 's"
  fo_mac_mcu_read :: "u16 \<Rightarrow> 's \<Rightarrow> u32 \<times> 's"

record 's fw_vm =
  vm_index :: u64
  vm_predata :: u32
  vm_count :: u32
  vm_mcu :: bool
  vm_s :: 's

definition fw_write :: "'s fw_ops \<Rightarrow> u32 \<Rightarrow> u32 \<Rightarrow> 's fw_vm \<Rightarrow> 's fw_vm" where
  "fw_write ops reg v vm = vm\<lparr>vm_s := (if vm_mcu vm then fo_mac_mcu_write ops else fo_phy_write ops) (ucast reg) (ucast v) (vm_s vm)\<rparr>"

definition fw_read :: "'s fw_ops \<Rightarrow> u32 \<Rightarrow> 's fw_vm \<Rightarrow> 's fw_vm" where
  "fw_read ops reg vm =
     (case (if vm_mcu vm then fo_mac_mcu_read ops else fo_phy_read ops) (ucast reg) (vm_s vm) of
        (v, s) \<Rightarrow> vm\<lparr>vm_predata := v, vm_s := s\<rparr>)"

definition fw_exec :: "'s fw_ops \<Rightarrow> u32 \<Rightarrow> 's fw_vm \<Rightarrow> 's fw_vm" where
  "fw_exec ops action vm =
     (let data = act_val action; regno = act_regno action; opc = act_opcode action; skip = vm\<lparr>vm_index := vm_index vm + ucast regno\<rparr> in
      if opc = PHY_READ then (fw_read ops regno vm)\<lparr>vm_count := vm_count vm + 1\<rparr>
      else if opc = PHY_DATA_OR then vm\<lparr>vm_predata := vm_predata vm OR data\<rparr>
      else if opc = PHY_DATA_AND then vm\<lparr>vm_predata := vm_predata vm AND data\<rparr>
      else if opc = PHY_BJMPN then vm\<lparr>vm_index := vm_index vm - (ucast regno + 1)\<rparr>
      else if opc = PHY_MDIO_CHG then vm\<lparr>vm_mcu := (data \<noteq> 0)\<rparr>
      else if opc = PHY_CLEAR_READCOUNT then vm\<lparr>vm_count := 0\<rparr>
      else if opc = PHY_WRITE then fw_write ops regno data vm
      else if opc = PHY_READCOUNT_EQ_SKIP then (if vm_count vm = data then vm\<lparr>vm_index := vm_index vm + 1\<rparr> else vm)
      else if opc = PHY_COMP_EQ_SKIPN then (if vm_predata vm = data then skip else vm)
      else if opc = PHY_COMP_NEQ_SKIPN then (if vm_predata vm \<noteq> data then skip else vm)
      else if opc = PHY_WRITE_PREVIOUS then fw_write ops regno (vm_predata vm) vm
      else if opc = PHY_SKIPN then skip
      else vm)"

datatype 's fw_result = Next "'s fw_vm" | Halt "'s fw_vm" | Fault

text \<open>One round of the loop; the loop variable is incremented at the end.\<close>

definition fw_step :: "'s fw_ops \<Rightarrow> rtl_fw \<Rightarrow> 's fw_vm \<Rightarrow> 's fw_result" where
  "fw_step ops f vm =
     (if \<not> unat (vm_index vm) < pa_size f then Halt vm
      else case fw_action f (unat (vm_index vm)) of
             None \<Rightarrow> Fault
           | Some action \<Rightarrow>
               if action = 0 then Halt vm
               else (let vm = fw_exec ops action vm in Next (vm\<lparr>vm_index := vm_index vm + 1\<rparr>)))"

fun fw_loop :: "'s fw_ops \<Rightarrow> rtl_fw \<Rightarrow> nat \<Rightarrow> 's fw_vm \<Rightarrow> 's fw_result" where
  "fw_loop ops f 0 vm = Next vm"
| "fw_loop ops f (Suc n) vm = (case fw_step ops f vm of Next vm \<Rightarrow> fw_loop ops f n vm | r \<Rightarrow> r)"

definition fw_vm_init :: "'s \<Rightarrow> 's fw_vm" where
  "fw_vm_init s = \<lparr>vm_index = 0, vm_predata = 0, vm_count = 0, vm_mcu = False, vm_s = s\<rparr>"

text \<open>The result \<^const>\<open>Next\<close> means that the fuel did not suffice.\<close>

definition rtl8125_fw_write_firmware :: "'s fw_ops \<Rightarrow> rtl_fw \<Rightarrow> nat \<Rightarrow> 's \<Rightarrow> 's fw_result" where
  "rtl8125_fw_write_firmware ops f fuel s = fw_loop ops f fuel (fw_vm_init s)"

section \<open>Requesting and applying\<close>

record 'w fw_dev =
  fd_priv :: "'w phy_priv"
  rtl_fw_ptr :: "rtl_fw option"
  fd_fw_name :: "u8 list option"
  fd_images :: nat
  hw_ram_code_ver :: u16
  sw_ram_code_ver :: u16
  HwHasWrRamCodeToMicroP :: bool

text \<open>
  \<open>request_firmware\<close> is a parameter: its status and, on success, the bytes of the image. \<open>fd_images\<close> counts
  the images that are held.
\<close>

definition rtl8125_fw_request_firmware :: "(u8 list \<Rightarrow> int \<times> u8 list) \<Rightarrow> rtl_fw \<Rightarrow> 'w fw_dev \<Rightarrow> (int \<times> rtl_fw \<times> 'w fw_dev) option" where
  "rtl8125_fw_request_firmware req f d =
     (case req (fw_name f) of
        (rc, bytes) \<Rightarrow>
          if rc < 0 then Some (rc, f, d)
          else
            (let f = f\<lparr>fw_data := bytes\<rparr>; d = d\<lparr>fd_images := fd_images d + 1\<rparr> in
             case rtl8125_fw_format_ok f of
               (False, f) \<Rightarrow> Some (- EINVAL, f, d\<lparr>fd_images := fd_images d - 1\<rparr>)
             | (True, f) \<Rightarrow>
                 (case rtl8125_fw_data_ok f of
                    None \<Rightarrow> None
                  | Some False \<Rightarrow> Some (- EINVAL, f, d\<lparr>fd_images := fd_images d - 1\<rparr>)
                  | Some True \<Rightarrow> Some (0, f, d))))"

definition rtl8125_request_firmware :: "(u8 list \<Rightarrow> int \<times> u8 list) \<Rightarrow> bool \<Rightarrow> 'w fw_dev \<Rightarrow> 'w fw_dev option" where
  "rtl8125_request_firmware req kzalloc_ok d =
     (case (rtl_fw_ptr d, fd_fw_name d) of
        (None, Some nm) \<Rightarrow>
          if \<not> kzalloc_ok then Some d
          else map_option (\<lambda>(rc, f, d). if rc \<noteq> 0 then d else d\<lparr>rtl_fw_ptr := Some f\<rparr>)
                 (rtl8125_fw_request_firmware req \<lparr>fw_data = [], fw_name = nm, fw_version = [], pa_start = 0, pa_size = 0\<rparr> d)
      | _ \<Rightarrow> Some d)"

definition rtl8125_release_firmware :: "'w fw_dev \<Rightarrow> 'w fw_dev" where
  "rtl8125_release_firmware d =
     (case rtl_fw_ptr d of None \<Rightarrow> d | Some f \<Rightarrow> d\<lparr>fd_images := fd_images d - 1, rtl_fw_ptr := None\<rparr>)"

definition chip_fw_ops :: "'w mmio \<Rightarrow> 'w phy_priv fw_ops" where
  "chip_fw_ops M = \<lparr>fo_phy_write = rtl8125_mdio_write M, fo_phy_read = rtl8125_mdio_read M,
     fo_mac_mcu_write = mac_mcu_write M, fo_mac_mcu_read = mac_mcu_read M\<rparr>"

primrec wait_phy_loop :: "'w mmio \<Rightarrow> nat \<Rightarrow> 'w phy_priv \<Rightarrow> int \<times> 'w phy_priv" where
  "wait_phy_loop M 0 tp = (- 1, tp)"
| "wait_phy_loop M (Suc n) tp =
     (case rtl8125_mdio_read M 0 tp of (v, tp) \<Rightarrow> if v AND 0x8000 = 0 then (0, tp) else wait_phy_loop M n tp)"

definition rtl8125_wait_phy_reset_complete :: "'w mmio \<Rightarrow> 'w phy_priv \<Rightarrow> int \<times> 'w phy_priv" where
  "rtl8125_wait_phy_reset_complete M = wait_phy_loop M 2500"

definition rtl8125_get_hw_phy_mcu_code_ver :: "'w mmio \<Rightarrow> 'w phy_priv \<Rightarrow> u16 \<times> 'w phy_priv" where
  "rtl8125_get_hw_phy_mcu_code_ver M tp =
     (if cfg_default tp then (0xFFFF, tp)
      else case mdio_direct_read_phy_ocp M 0xA438 (mdio_direct_write_phy_ocp M 0xA436 0x801E tp) of (v, tp) \<Rightarrow> (ucast v, tp))"

text \<open>\<^const>\<open>None\<close>: the image was read out of bounds, or the fuel did not suffice.\<close>

definition rtl8125_apply_firmware :: "'w mmio \<Rightarrow> nat \<Rightarrow> 'w fw_dev \<Rightarrow> 'w fw_dev option" where
  "rtl8125_apply_firmware M fuel d =
     (case rtl_fw_ptr d of
        None \<Rightarrow> Some d
      | Some f \<Rightarrow>
          (case rtl8125_fw_write_firmware (chip_fw_ops M) f fuel (fd_priv d) of
             Halt vm \<Rightarrow>
               (let tp = (vm_s vm)\<lparr>ocp_base := 0xA400\<rparr>;
                    tp = snd (rtl8125_wait_phy_reset_complete M tp)
                in case rtl8125_get_hw_phy_mcu_code_ver M tp of
                     (ver, tp) \<Rightarrow> Some (d\<lparr>fd_priv := tp, hw_ram_code_ver := ver, sw_ram_code_ver := ver, HwHasWrRamCodeToMicroP := True\<rparr>))
           | _ \<Rightarrow> None))"

section \<open>What the checks establish\<close>

lemma format_ok_bounds:
  assumes "rtl8125_fw_format_ok f = (True, f')"
  shows "fw_data f' = fw_data f" "pa_start f' + FW_OPCODE_SIZE * pa_size f' \<le> length (fw_data f')"
proof -
  have d: "4 * n \<le> l - st" if "\<not> (l - st) div 4 < n" for n l st :: nat using that by presburger
  show "fw_data f' = fw_data f" using assms by (auto simp: rtl8125_fw_format_ok_def Let_def split: if_splits)
  show "pa_start f' + FW_OPCODE_SIZE * pa_size f' \<le> length (fw_data f')"
    using assms d [of "length (fw_data f)" "unat (le32_at (fw_data f) 36)" "unat (le32_at (fw_data f) 40)"]
    by (auto simp: rtl8125_fw_format_ok_def Let_def split: if_splits)
qed

lemma fw_action_inside:
  assumes "pa_start f + FW_OPCODE_SIZE * pa_size f \<le> length (fw_data f)" "i < pa_size f"
  shows "fw_action f i = Some (le32_at (fw_data f) (pa_start f + FW_OPCODE_SIZE * i))"
  using assms by (simp add: fw_action_def Let_def)

definition fw_accepted :: "rtl_fw \<Rightarrow> bool" where
  "fw_accepted f \<longleftrightarrow> pa_start f + FW_OPCODE_SIZE * pa_size f \<le> length (fw_data f) \<and> pa_size f < 2 ^ 63
     \<and> (\<forall>i < pa_size f. \<exists>a. fw_action f i = Some a \<and> fw_action_ok (pa_size f) i a)"

lemma fw_data_loop_iff:
  assumes "pa_start f + FW_OPCODE_SIZE * pa_size f \<le> length (fw_data f)" "\<forall>i \<in> set is. i < pa_size f"
  shows "fw_data_loop f is \<noteq> None"
    "fw_data_loop f is = Some True \<longleftrightarrow> (\<forall>i \<in> set is. \<exists>a. fw_action f i = Some a \<and> fw_action_ok (pa_size f) i a)"
  using assms(2) by (induction "is") (auto simp: fw_action_inside [OF assms(1)])

lemma request_outcome:
  assumes "length (snd (req (fw_name f))) < 2 ^ 63"
  obtains rc f' d' where "rtl8125_fw_request_firmware req f d = Some (rc, f', d')"
    "rc = 0 \<longrightarrow> fw_accepted f' \<and> fw_data f' = snd (req (fw_name f)) \<and> d' = d\<lparr>fd_images := fd_images d + 1\<rparr>"
    "rc \<noteq> 0 \<longrightarrow> d' = d"
proof -
  obtain rc0 bytes where q: "req (fw_name f) = (rc0, bytes)" by (cases "req (fw_name f)")
  let ?f = "f\<lparr>fw_data := bytes\<rparr>"
  obtain ok f1 where o: "rtl8125_fw_format_ok ?f = (ok, f1)" by (cases "rtl8125_fw_format_ok ?f")
  show thesis
  proof (cases "rc0 < 0")
    case True
    then show thesis using q by (intro that [of rc0 f d]) (simp_all add: rtl8125_fw_request_firmware_def)
  next
    case False
    show thesis
    proof (cases ok)
      case False
      then show thesis using q o \<open>\<not> rc0 < 0\<close> by (intro that [of "- EINVAL" f1 d]) (simp_all add: rtl8125_fw_request_firmware_def Let_def)
    next
      case True
      then have ok: ok "\<not> rc0 < 0" using \<open>\<not> rc0 < 0\<close> by simp_all
      note b = format_ok_bounds [OF o [unfolded eqTrueI [OF ok(1)]]]
      have s: "pa_size f1 < 2 ^ 63" using b assms q by simp
      note l = fw_data_loop_iff [OF b(2), of "[0 ..< pa_size f1]"]
      obtain r where r: "rtl8125_fw_data_ok f1 = Some r" using l(1) by (auto simp: rtl8125_fw_data_ok_def)
      have "fw_accepted f1" if r using l(2) r that b s by (simp add: fw_accepted_def rtl8125_fw_data_ok_def)
      then show thesis using q o ok r b
        by (cases r) (intro that [of "if r then 0 else - EINVAL" f1 "if r then d\<lparr>fd_images := fd_images d + 1\<rparr> else d"],
          simp_all add: rtl8125_fw_request_firmware_def Let_def)+
    qed
  qed
qed

section \<open>Running a checked program\<close>

text \<open>Where control goes: back by the operand of a backward jump, otherwise forward, never beyond the end.\<close>

lemma unat_jump:
  assumes "unat (i :: u64) < 2 ^ 63" "n \<le> 0x1000"
  shows "unat (i + of_nat n + 1) = unat i + n + 1"
proof -
  have "i + of_nat n + 1 = of_nat (unat i + n + 1)" by simp
  moreover have "unat i + n + 1 < 2 ^ 64" using assms by simp
  ultimately show ?thesis by (simp only: unat_of_nat) simp
qed

lemma act_regno_bound: "unat (act_regno a) < 0x1000"
proof -
  have m: "(0x0fff0000 :: u32) = push_bit 16 (mask 12)" by (simp add: mask_eq_exp_minus_1 push_bit_eq_mult)
  have "act_regno a = take_bit 12 (drop_bit 16 a)"
    unfolding act_regno_def m
    by (rule bit_word_eqI) (simp only: bit_drop_bit_eq bit_and_iff bit_push_bit_iff bit_mask_iff bit_take_bit_iff comp_def, auto)
  moreover have "unat (take_bit 12 x) < 2 ^ 12" for x :: u32 by (simp only: unsigned_take_bit_eq take_bit_nat_less_exp)
  ultimately show ?thesis by simp
qed

lemma unat_wide: "unat (ucast (r :: u32) :: u64) = unat r"
proof -
  have "unat r < 2 ^ 64" using unsigned_less [of r, where 'a = nat] by simp
  then show ?thesis by (simp add: unsigned_ucast_eq take_bit_nat_eq_self)
qed

lemma exec_forward:
  assumes "act_opcode a \<noteq> PHY_BJMPN"
  shows "\<exists>n. vm_index (fw_exec ops a vm) = vm_index vm + of_nat n \<and> (n = 0 \<or> act_opcode a = PHY_READCOUNT_EQ_SKIP \<and> n = 1
    \<or> act_opcode a \<in> {PHY_COMP_EQ_SKIPN, PHY_COMP_NEQ_SKIPN, PHY_SKIPN} \<and> n = unat (act_regno a))"
proof -
  have "vm_index (fw_exec ops a vm) \<in> {vm_index vm} \<union> (if act_opcode a = PHY_READCOUNT_EQ_SKIP then {vm_index vm + 1} else {})
      \<union> (if act_opcode a \<in> {PHY_COMP_EQ_SKIPN, PHY_COMP_NEQ_SKIPN, PHY_SKIPN} then {vm_index vm + ucast (act_regno a)} else {})"
    using assms by (simp add: fw_exec_def Let_def fw_read_def fw_write_def split: prod.splits)
  then consider "vm_index (fw_exec ops a vm) = vm_index vm"
    | "vm_index (fw_exec ops a vm) = vm_index vm + 1" "act_opcode a = PHY_READCOUNT_EQ_SKIP"
    | "vm_index (fw_exec ops a vm) = vm_index vm + ucast (act_regno a)" "act_opcode a \<in> {PHY_COMP_EQ_SKIPN, PHY_COMP_NEQ_SKIPN, PHY_SKIPN}"
    by (auto split: if_splits)
  then show ?thesis
  proof cases
    case 1 then show ?thesis by (intro exI [of _ 0]) simp
  next
    case 2 then show ?thesis by (intro exI [of _ 1]) simp
  next
    case 3 then show ?thesis by (intro exI [of _ "unat (act_regno a)"]) simp
  qed
qed

lemma exec_index:
  assumes "fw_action_ok (pa_size f) (unat (vm_index vm)) a" "unat (vm_index vm) < pa_size f" "pa_size f < 2 ^ 63"
  shows "if act_opcode a = PHY_BJMPN
    then unat (act_regno a) \<le> unat (vm_index vm) \<and> unat (vm_index (fw_exec ops a vm) + 1) = unat (vm_index vm) - unat (act_regno a)
    else unat (vm_index vm) < unat (vm_index (fw_exec ops a vm) + 1) \<and> unat (vm_index (fw_exec ops a vm) + 1) \<le> pa_size f"
proof (cases "act_opcode a = PHY_BJMPN")
  case True
  have r: "unat (act_regno a) \<le> unat (vm_index vm)" using assms(1) True by (simp add: fw_action_ok_def Let_def)
  have "vm_index (fw_exec ops a vm) + 1 = vm_index vm - ucast (act_regno a)"
    using True by (simp add: fw_exec_def Let_def)
  moreover have "ucast (act_regno a) \<le> vm_index vm" using r by (simp only: word_le_nat_alt unat_wide)
  then have "unat (vm_index vm - ucast (act_regno a)) = unat (vm_index vm) - unat (act_regno a)"
    by (simp only: unat_sub unat_wide)
  ultimately show ?thesis using True r by simp
next
  case False
  obtain n where n: "vm_index (fw_exec ops a vm) = vm_index vm + of_nat n"
    "n = 0 \<or> act_opcode a = PHY_READCOUNT_EQ_SKIP \<and> n = 1 \<or> act_opcode a \<in> {PHY_COMP_EQ_SKIPN, PHY_COMP_NEQ_SKIPN, PHY_SKIPN} \<and> n = unat (act_regno a)"
    using exec_forward [OF False, of ops vm] by blast
  then have "n \<le> 0x1000" using act_regno_bound [of a] by auto
  then have u: "unat (vm_index (fw_exec ops a vm) + 1) = unat (vm_index vm) + n + 1" using unat_jump [of "vm_index vm" n] assms(2,3) n(1) by simp
  moreover have "unat (vm_index vm) + n + 1 \<le> pa_size f" using n(2) assms(1,2) by (auto simp: fw_action_ok_def Let_def)
  ultimately show ?thesis using False by simp
qed

text \<open>The states of a run, as a relation.\<close>

inductive fw_reach :: "'s fw_ops \<Rightarrow> rtl_fw \<Rightarrow> 's \<Rightarrow> 's fw_vm \<Rightarrow> bool" for ops f s where
  fw_start: "fw_reach ops f s (fw_vm_init s)"
| fw_next: "fw_reach ops f s vm \<Longrightarrow> fw_step ops f vm = Next vm' \<Longrightarrow> fw_reach ops f s vm'"

lemma fw_step_accepted:
  assumes "fw_accepted f" "unat (vm_index vm) \<le> pa_size f"
  shows "fw_step ops f vm \<noteq> Fault"
    "fw_step ops f vm = Next vm' \<Longrightarrow> \<exists>a. fw_action f (unat (vm_index vm)) = Some a \<and> a \<noteq> 0 \<and> unat (vm_index vm) < pa_size f
       \<and> fw_action_ok (pa_size f) (unat (vm_index vm)) a \<and> vm' = (fw_exec ops a vm)\<lparr>vm_index := vm_index (fw_exec ops a vm) + 1\<rparr>"
proof -
  have a: "\<exists>a. fw_action f (unat (vm_index vm)) = Some a \<and> fw_action_ok (pa_size f) (unat (vm_index vm)) a" if "unat (vm_index vm) < pa_size f"
    using assms(1) that by (simp add: fw_accepted_def)
  then show "fw_step ops f vm \<noteq> Fault" by (auto simp: fw_step_def Let_def split: if_splits)
  show "\<exists>a. fw_action f (unat (vm_index vm)) = Some a \<and> a \<noteq> 0 \<and> unat (vm_index vm) < pa_size f
      \<and> fw_action_ok (pa_size f) (unat (vm_index vm)) a \<and> vm' = (fw_exec ops a vm)\<lparr>vm_index := vm_index (fw_exec ops a vm) + 1\<rparr>"
    if "fw_step ops f vm = Next vm'"
    using a that by (auto simp: fw_step_def Let_def split: if_splits)
qed

lemma fw_reach_inside:
  assumes "fw_accepted f" "fw_reach ops f s vm"
  shows "unat (vm_index vm) \<le> pa_size f"
  using assms(2)
proof induction
  case fw_start
  show ?case by (simp add: fw_vm_init_def)
next
  case (fw_next vm vm')
  from fw_step_accepted(2) [OF assms(1) fw_next.IH fw_next.hyps(2)] obtain a where
    a: "unat (vm_index vm) < pa_size f" "fw_action_ok (pa_size f) (unat (vm_index vm)) a"
      "vm' = (fw_exec ops a vm)\<lparr>vm_index := vm_index (fw_exec ops a vm) + 1\<rparr>" by blast
  have "pa_size f < 2 ^ 63" using assms(1) by (simp add: fw_accepted_def)
  from exec_index [OF a(2,1) this, of ops] a(1,3) show ?case by (auto split: if_splits)
qed


definition no_backward :: "rtl_fw \<Rightarrow> bool" where
  "no_backward f = list_all (\<lambda>i. case fw_action f i of None \<Rightarrow> True | Some a \<Rightarrow> act_opcode a \<noteq> PHY_BJMPN) [0 ..< pa_size f]"

lemma forward_loop_halts:
  assumes "fw_accepted f" "no_backward f" "unat (vm_index vm) \<le> pa_size f" "pa_size f - unat (vm_index vm) < n"
  shows "\<exists>vm'. fw_loop ops f n vm = Halt vm'"
  using assms(3,4)
proof (induction n arbitrary: vm)
  case (Suc n)
  show ?case
  proof (cases "fw_step ops f vm")
    case (Next vm')
    from fw_step_accepted(2) [OF assms(1) Suc.prems(1) Next] obtain a where
      a: "fw_action f (unat (vm_index vm)) = Some a" "unat (vm_index vm) < pa_size f" "fw_action_ok (pa_size f) (unat (vm_index vm)) a"
        "vm' = (fw_exec ops a vm)\<lparr>vm_index := vm_index (fw_exec ops a vm) + 1\<rparr>" by blast
    have "pa_size f < 2 ^ 63" using assms(1) by (simp add: fw_accepted_def)
    moreover have "act_opcode a \<noteq> PHY_BJMPN" using assms(2) a(1,2) by (force simp: no_backward_def list_all_iff)
    ultimately have "unat (vm_index vm) < unat (vm_index vm')" "unat (vm_index vm') \<le> pa_size f"
      using exec_index [OF a(3,2), of ops] a(4) by simp_all
    then show ?thesis using Suc.IH [of vm'] Suc.prems Next by simp
  next
    case (Halt vm')
    then show ?thesis by simp
  next
    case Fault
    then show ?thesis using fw_step_accepted(1) [OF assms(1) Suc.prems(1)] by simp
  qed
qed simp

text \<open>
  C38. An accepted program without backward jumps ends after at most as many rounds as it has actions.
\<close>

theorem forward_firmware_terminates:
  assumes "length (snd (req (fw_name f))) < 2 ^ 63" "rtl8125_fw_request_firmware req f d = Some (0, f', d')" "no_backward f'" "pa_size f' < fuel"
  shows "\<exists>vm. rtl8125_fw_write_firmware ops f' fuel s = Halt vm"
proof -
  have "fw_accepted f'" using request_outcome [of req f d] assms(1,2) by auto
  from forward_loop_halts [OF this assms(3), of "fw_vm_init s" fuel ops] assms(4) show ?thesis
    by (simp add: rtl8125_fw_write_firmware_def fw_vm_init_def)
qed

definition fw_actions :: "rtl_fw \<Rightarrow> u32 list" where
  "fw_actions f = map (\<lambda>i. le32_at (fw_data f) (pa_start f + FW_OPCODE_SIZE * i)) [0 ..< pa_size f]"

definition fw_plain :: "u32 \<Rightarrow> bool" where
  "fw_plain a \<longleftrightarrow> a \<noteq> 0 \<and> act_opcode a \<notin> {PHY_BJMPN, PHY_READCOUNT_EQ_SKIP, PHY_COMP_EQ_SKIPN, PHY_COMP_NEQ_SKIPN, PHY_SKIPN}"

lemma plain_exec:
  assumes "fw_plain a"
  shows "vm_index (fw_exec ops a vm) = vm_index vm" "fw_exec ops a (vm\<lparr>vm_index := j\<rparr>) = (fw_exec ops a vm)\<lparr>vm_index := j\<rparr>"
  using assms by (auto simp: fw_plain_def fw_exec_def Let_def fw_read_def fw_write_def split: prod.splits)

lemma plain_fold:
  assumes "list_all fw_plain as"
  shows "vm_index (fold (fw_exec ops) as vm) = vm_index vm"
    "fold (fw_exec ops) as (vm\<lparr>vm_index := j\<rparr>) = (fold (fw_exec ops) as vm)\<lparr>vm_index := j\<rparr>"
  using assms by (induction as arbitrary: vm) (simp_all add: plain_exec)

lemma plain_loop:
  assumes "pa_start f + FW_OPCODE_SIZE * pa_size f \<le> length (fw_data f)" "pa_size f < 2 ^ 63" "list_all fw_plain (fw_actions f)"
    "unat (vm_index vm) \<le> pa_size f" "pa_size f - unat (vm_index vm) < n"
  shows "fw_loop ops f n vm = Halt ((fold (fw_exec ops) (drop (unat (vm_index vm)) (fw_actions f)) vm)\<lparr>vm_index := of_nat (pa_size f)\<rparr>)"
  using assms(4,5)
proof (induction n arbitrary: vm)
  case (Suc n)
  let ?i = "unat (vm_index vm)"
  have l: "length (fw_actions f) = pa_size f" by (simp add: fw_actions_def)
  show ?case
  proof (cases "?i < pa_size f")
    case False
    then have e: "?i = pa_size f" using Suc.prems(1) by simp
    have "of_nat (pa_size f) = vm_index vm" unfolding e [symmetric] by simp
    then show ?thesis using e l by (simp add: fw_step_def)
  next
    case True
    let ?a = "fw_actions f ! ?i"
    have p: "fw_plain ?a" using assms(3) True l by (simp add: list_all_length)
    have a: "fw_action f ?i = Some ?a" using fw_action_inside [OF assms(1) True] True by (simp add: fw_actions_def)
    let ?vm = "(fw_exec ops ?a vm)\<lparr>vm_index := vm_index vm + 1\<rparr>"
    have s: "fw_step ops f vm = Next ?vm" using True a p by (simp add: fw_step_def Let_def plain_exec) (simp add: fw_plain_def)
    have u: "unat (vm_index vm + 1) = ?i + 1" using unat_jump [of "vm_index vm" 0] True assms(2) by simp
    have d: "drop ?i (fw_actions f) = ?a # drop (?i + 1) (fw_actions f)" using True l by (simp add: Cons_nth_drop_Suc)
    have "list_all fw_plain (drop (?i + 1) (fw_actions f))" using assms(3) by (auto simp: list_all_iff dest: in_set_dropD)
    then show ?thesis using Suc.IH [of ?vm] Suc.prems True s u d by (simp add: plain_fold)
  qed
qed simp

text \<open>
  C39. A straight program, one without jumps and skips, is carried out action by action in the order of the
  image, each once, and nothing else happens to the registers.
\<close>

theorem straight_firmware_in_order:
  assumes "length (snd (req (fw_name f))) < 2 ^ 63" "rtl8125_fw_request_firmware req f d = Some (0, f', d')"
    "list_all fw_plain (fw_actions f')" "pa_size f' < fuel"
  shows "\<exists>vm. rtl8125_fw_write_firmware ops f' fuel s = Halt vm \<and> vm_s vm = vm_s (fold (fw_exec ops) (fw_actions f') (fw_vm_init s))"
proof -
  have "fw_accepted f'" using request_outcome [of req f d] assms(1,2) by auto
  then have "pa_start f' + FW_OPCODE_SIZE * pa_size f' \<le> length (fw_data f')" "pa_size f' < 2 ^ 63" by (simp_all add: fw_accepted_def)
  from plain_loop [OF this assms(3), of "fw_vm_init s" fuel ops] assms(4) show ?thesis
    by (simp add: rtl8125_fw_write_firmware_def fw_vm_init_def)
qed

text \<open>
  The check accepts a backward jump over no action. Such a program never ends.
\<close>

definition stuck_image :: "u8 list" where
  "stuck_image = [0, 0, 0, 0x30]"

definition stuck_fw :: rtl_fw where
  "stuck_fw = \<lparr>fw_data = stuck_image, fw_name = [], fw_version = [], pa_start = 0, pa_size = 1\<rparr>"

lemma self_jump_accepted:
  "rtl8125_fw_request_firmware (\<lambda>_. (0, stuck_image)) (stuck_fw\<lparr>fw_data := [], pa_size := 0\<rparr>) d = Some (0, stuck_fw, d\<lparr>fd_images := fd_images d + 1\<rparr>)"
proof -
  have "rtl8125_fw_format_ok (stuck_fw\<lparr>pa_size := 0\<rparr>) = (True, stuck_fw)" "rtl8125_fw_data_ok stuck_fw = Some True" by code_simp+
  moreover have "stuck_fw\<lparr>fw_data := [], pa_size := 0, fw_data := stuck_image\<rparr> = stuck_fw\<lparr>pa_size := 0\<rparr>" by (simp add: stuck_fw_def)
  ultimately show ?thesis by (simp add: rtl8125_fw_request_firmware_def Let_def)
qed

lemma self_jump_never_ends: "rtl8125_fw_write_firmware ops stuck_fw fuel s = Next (fw_vm_init s)"
proof -
  have a: "fw_action stuck_fw 0 = Some 0x30000000" "act_opcode 0x30000000 = PHY_BJMPN" "act_regno 0x30000000 = 0" "pa_size stuck_fw = 1"
    by code_simp+
  have "fw_step ops stuck_fw (fw_vm_init s) = Next (fw_vm_init s)"
    using a by (simp add: fw_step_def fw_vm_init_def fw_exec_def Let_def)
  then show ?thesis unfolding rtl8125_fw_write_firmware_def by (induction fuel) simp_all
qed

section \<open>Images held\<close>

text \<open>
  Requesting and releasing in any order, with any files and any failure: the requests return, the device
  holds one image exactly while it points to one, and a program it points to was accepted.
\<close>

datatype fw_call = FwRequest "u8 list \<Rightarrow> int \<times> u8 list" bool | FwRelease

definition fw_call_step :: "fw_call \<Rightarrow> 'w fw_dev \<Rightarrow> 'w fw_dev" where
  "fw_call_step c d = (case c of FwRequest req ok \<Rightarrow> (case rtl8125_request_firmware req ok d of None \<Rightarrow> d | Some d \<Rightarrow> d) | FwRelease \<Rightarrow> rtl8125_release_firmware d)"

definition fw_call_ok :: "fw_call \<Rightarrow> bool" where
  "fw_call_ok c = (case c of FwRequest req ok \<Rightarrow> (\<forall>nm. length (snd (req nm)) < 2 ^ 63) | FwRelease \<Rightarrow> True)"

definition fw_inv :: "'w fw_dev \<Rightarrow> bool" where
  "fw_inv d = (case rtl_fw_ptr d of None \<Rightarrow> fd_images d = 0 | Some f \<Rightarrow> fd_images d = 1 \<and> fw_accepted f)"

lemma request_firmware_inv:
  assumes "fw_inv d" "\<forall>nm. length (snd (req nm)) < 2 ^ 63"
  shows "\<exists>d'. rtl8125_request_firmware req ok d = Some d' \<and> fw_inv d'"
proof (cases "rtl_fw_ptr d = None \<and> fd_fw_name d \<noteq> None \<and> ok")
  case False
  then show ?thesis using assms(1) by (auto simp: rtl8125_request_firmware_def split: option.splits)
next
  case True
  then obtain nm where nm: "rtl_fw_ptr d = None" "fd_fw_name d = Some nm" ok by auto
  let ?f = "\<lparr>fw_data = [], fw_name = nm, fw_version = [], pa_start = 0, pa_size = 0\<rparr>"
  obtain rc f' d' where r: "rtl8125_fw_request_firmware req ?f d = Some (rc, f', d')"
    "rc = 0 \<longrightarrow> fw_accepted f' \<and> fw_data f' = snd (req (fw_name ?f)) \<and> d' = d\<lparr>fd_images := fd_images d + 1\<rparr>" "rc \<noteq> 0 \<longrightarrow> d' = d"
    using request_outcome [of req ?f d] assms(2) by auto
  then show ?thesis using nm assms(1) by (auto simp: rtl8125_request_firmware_def fw_inv_def)
qed

interpretation fw_calls: call_sequence fw_call_step fw_call_ok fw_inv
proof
  fix s :: "'a fw_dev" and c
  assume "fw_inv s" "fw_call_ok c"
  then show "fw_inv (fw_call_step c s)"
  proof (cases c)
    case (FwRequest req ok)
    with \<open>fw_call_ok c\<close> obtain d' where "rtl8125_request_firmware req ok s = Some d'" "fw_inv d'"
      using request_firmware_inv [OF \<open>fw_inv s\<close>, of req ok] by (auto simp: fw_call_ok_def)
    then show ?thesis by (simp add: FwRequest fw_call_step_def)
  qed (auto simp: fw_call_step_def fw_inv_def rtl8125_release_firmware_def split: option.splits)
qed

theorem firmware_images_held:
  assumes "rtl_fw_ptr d = None" "fd_images d = 0" "list_all fw_call_ok cs"
  shows "case rtl_fw_ptr (fold fw_call_step cs d) of
      None \<Rightarrow> fd_images (fold fw_call_step cs d) = 0
    | Some f \<Rightarrow> fd_images (fold fw_call_step cs d) = 1 \<and> rtl8125_fw_data_ok f = Some True"
proof -
  have "fw_inv (fold fw_call_step cs d)" by (rule fw_calls.run_inv) (use assms in \<open>simp_all add: fw_inv_def\<close>)
  moreover have "rtl8125_fw_data_ok f = Some True" if "fw_accepted f" for f
    using that fw_data_loop_iff(2) [of f "[0 ..< pa_size f]"] by (simp add: fw_accepted_def rtl8125_fw_data_ok_def)
  ultimately show ?thesis by (auto simp: fw_inv_def split: option.splits)
qed

section \<open>A concrete image\<close>

text \<open>
  An image without header: select PHY page 0xA43, write two registers, read one, change a bit, write it
  back.
\<close>

definition demo_image :: "u8 list" where
  "demo_image = [0x43, 0x0A, 0x1F, 0x80,  0x34, 0x12, 0x10, 0x80,  0x00, 0x00, 0x10, 0x00,  0x00, 0x80, 0x00, 0x10,  0x00, 0x00, 0x10, 0xC0]"

definition demo_fw :: rtl_fw where
  "demo_fw = \<lparr>fw_data = [], fw_name = [0x72], fw_version = [], pa_start = 0, pa_size = 0\<rparr>"

definition demo_fw_loaded :: rtl_fw where
  "demo_fw_loaded = demo_fw\<lparr>fw_data := demo_image, fw_version := [0x72], pa_size := 5\<rparr>"

definition demo_fw_dev :: "reg_chip fw_dev" where
  "demo_fw_dev = \<lparr>fd_priv = demo_phy, rtl_fw_ptr = None, fd_fw_name = Some [0x72], fd_images = 0, hw_ram_code_ver = 0, sw_ram_code_ver = 0,
     HwHasWrRamCodeToMicroP = False\<rparr>"

definition log_ops :: "(u16 \<times> u16) list fw_ops" where
  "log_ops = \<lparr>fo_phy_write = (\<lambda>r v s. s @ [(r, v)]), fo_phy_read = (\<lambda>r s. (0x0F, s)), fo_mac_mcu_write = (\<lambda>r v s. s), fo_mac_mcu_read = (\<lambda>r s. (0, s))\<rparr>"

lemma demo_fw_ok:
  "rtl8125_fw_request_firmware (\<lambda>_. (0, demo_image)) demo_fw demo_fw_dev = Some (0, demo_fw_loaded, demo_fw_dev\<lparr>fd_images := 1\<rparr>)"
proof -
  have "rtl8125_fw_format_ok (demo_fw\<lparr>fw_data := demo_image\<rparr>) = (True, demo_fw_loaded)" "rtl8125_fw_data_ok demo_fw_loaded = Some True" by code_simp+
  then show ?thesis by (simp add: rtl8125_fw_request_firmware_def Let_def demo_fw_dev_def)
qed


theorem forward_firmware_terminates_witness:
  "\<exists>vm. rtl8125_fw_write_firmware log_ops demo_fw_loaded 6 [] = Halt vm"
proof -
  have "no_backward demo_fw_loaded" "pa_size demo_fw_loaded < 6" by code_simp+
  then show ?thesis
    using forward_firmware_terminates [of "\<lambda>_. (0, demo_image)" demo_fw, OF _ demo_fw_ok] by (simp add: demo_image_def)
qed

theorem straight_firmware_in_order_witness:
  "\<exists>vm. rtl8125_fw_write_firmware log_ops demo_fw_loaded 6 [] = Halt vm \<and> vm_s vm = [(0x1F, 0xA43), (0x10, 0x1234), (0x10, 0x800F)]"
proof -
  have "list_all fw_plain (fw_actions demo_fw_loaded)" "pa_size demo_fw_loaded < 6"
    "vm_s (fold (fw_exec log_ops) (fw_actions demo_fw_loaded) (fw_vm_init [])) = [(0x1F, 0xA43), (0x10, 0x1234), (0x10, 0x800F)]" by code_simp+
  then show ?thesis
    using straight_firmware_in_order [of "\<lambda>_. (0, demo_image)" demo_fw, OF _ demo_fw_ok, of 6 log_ops "[]"] by (simp add: demo_image_def)
qed

theorem firmware_images_held_witness:
  "fd_images (fold fw_call_step [FwRequest (\<lambda>_. (0, demo_image)) True, FwRequest (\<lambda>_. (0, demo_image)) True, FwRelease] demo_fw_dev) \<le> 1"
  using firmware_images_held [of demo_fw_dev "[FwRequest (\<lambda>_. (0, demo_image)) True, FwRequest (\<lambda>_. (0, demo_image)) True, FwRelease]"]
  by (simp add: demo_fw_dev_def fw_call_ok_def demo_image_def split: option.splits)

end
