(* ===== verification/R8125_Eeprom.thy ===== *)
theory R8125_Eeprom
  imports Prelude
begin

text \<open>
  The serial EEPROM of the Realtek chip (\<^verbatim>\<open>r8125/src/rtl_eeprom.c\<close>): the driver moves the four pins of the
  EEPROM through one register of the chip, clocks a command and an address out and a word in.

  The register is a parameter. Its documented behaviour is the hypothesis \<open>serial_pins\<close>: the select, clock
  and data-in pins follow the bits that are written, the data-out bit reads the pin; the device behind
  the pins, of any kind, sees a rising clock edge together with its data bit while it is selected. The
  theorem says which edges the device sees and what the driver makes of its answers.
\<close>

unbundle bit_operations_syntax

section \<open>State\<close>

datatype eeprom_type = EEPROM_TYPE_NONE | EEPROM_TYPE_93C46 | EEPROM_TYPE_93C56

record 'w ee_port =
  ep_r8 :: "'w \<Rightarrow> u8 \<times> 'w"
  ep_w8 :: "u8 \<Rightarrow> 'w \<Rightarrow> 'w"
  ep_r8_d2 :: "'w \<Rightarrow> u8 \<times> 'w"
  ep_rxconfig :: "'w \<Rightarrow> u32 \<times> 'w"

record 'w ee_priv =
  eeprom_type :: eeprom_type
  eeprom_len :: u16
  ee_default :: bool
  ee_w :: 'w

abbreviation (input) Cfg9346_EEDO :: u8 where "Cfg9346_EEDO \<equiv> 0x01"
abbreviation (input) Cfg9346_EEDI :: u8 where "Cfg9346_EEDI \<equiv> 0x02"
abbreviation (input) Cfg9346_EESK :: u8 where "Cfg9346_EESK \<equiv> 0x04"
abbreviation (input) Cfg9346_EECS :: u8 where "Cfg9346_EECS \<equiv> 0x08"
abbreviation (input) Cfg9346_EEM1 :: u8 where "Cfg9346_EEM1 \<equiv> 0x80"

section \<open>Pins\<close>

text \<open>The clock routines change the caller's copy of the register, which is the first component.\<close>

definition rtl8125_raise_clock :: "'w ee_port \<Rightarrow> u8 \<times> 'w \<Rightarrow> u8 \<times> 'w" where
  "rtl8125_raise_clock P xw = (let x = fst xw OR Cfg9346_EESK in (x, ep_w8 P x (snd xw)))"

definition rtl8125_lower_clock :: "'w ee_port \<Rightarrow> u8 \<times> 'w \<Rightarrow> u8 \<times> 'w" where
  "rtl8125_lower_clock P xw = (let x = fst xw AND NOT Cfg9346_EESK in (x, ep_w8 P x (snd xw)))"

definition shift_out_bit :: "'w ee_port \<Rightarrow> bool \<Rightarrow> u8 \<times> 'w \<Rightarrow> u8 \<times> 'w" where
  "shift_out_bit P b xw =
     (let x = (if b then fst xw OR Cfg9346_EEDI else fst xw AND NOT Cfg9346_EEDI)
      in rtl8125_lower_clock P (rtl8125_raise_clock P (x, ep_w8 P x (snd xw))))"

text \<open>The mask of the loop is the power of two of the argument.\<close>

fun shift_out_loop :: "'w ee_port \<Rightarrow> u32 \<Rightarrow> nat \<Rightarrow> u8 \<times> 'w \<Rightarrow> u8 \<times> 'w" where
  "shift_out_loop P data 0 xw = shift_out_bit P (data AND push_bit 0 1 \<noteq> 0) xw"
| "shift_out_loop P data (Suc k) xw = shift_out_loop P data k (shift_out_bit P (data AND push_bit (Suc k) 1 \<noteq> 0) xw)"

definition rtl8125_shift_out_bits :: "'w ee_port \<Rightarrow> u32 \<Rightarrow> nat \<Rightarrow> 'w \<Rightarrow> 'w" where
  "rtl8125_shift_out_bits P data cnt w =
     (case ep_r8 P w of
        (x, w) \<Rightarrow>
          (case shift_out_loop P data (cnt - 1) (x AND NOT (Cfg9346_EEDI OR Cfg9346_EEDO), w) of
             (x, w) \<Rightarrow> ep_w8 P (x AND NOT Cfg9346_EEDI) w))"

fun shift_in_loop :: "'w ee_port \<Rightarrow> nat \<Rightarrow> u16 \<Rightarrow> u8 \<times> 'w \<Rightarrow> u16 \<times> u8 \<times> 'w" where
  "shift_in_loop P 0 d xw = (d, xw)"
| "shift_in_loop P (Suc i) d xw =
     (case ep_r8 P (snd (rtl8125_raise_clock P xw)) of
        (x, w) \<Rightarrow>
          (let x = x AND NOT Cfg9346_EEDI;
               d = (if x AND Cfg9346_EEDO \<noteq> 0 then push_bit 1 d OR 1 else push_bit 1 d)
           in shift_in_loop P i d (rtl8125_lower_clock P (x, w))))"

definition rtl8125_shift_in_bits :: "'w ee_port \<Rightarrow> 'w \<Rightarrow> u16 \<times> 'w" where
  "rtl8125_shift_in_bits P w =
     (case ep_r8 P w of
        (x, w) \<Rightarrow> (case shift_in_loop P 16 0 (x AND NOT (Cfg9346_EEDI OR Cfg9346_EEDO), w) of (d, x, w) \<Rightarrow> (d, w)))"

definition rtl8125_stand_by :: "'w ee_port \<Rightarrow> 'w \<Rightarrow> 'w" where
  "rtl8125_stand_by P w =
     (case ep_r8 P w of
        (x, w) \<Rightarrow> (let x = x AND NOT (Cfg9346_EECS OR Cfg9346_EESK); w = ep_w8 P x w in ep_w8 P (x OR Cfg9346_EECS) w))"

definition rtl8125_eeprom_cleanup :: "'w ee_port \<Rightarrow> 'w \<Rightarrow> 'w" where
  "rtl8125_eeprom_cleanup P w =
     (case ep_r8 P w of
        (x, w) \<Rightarrow>
          (let x = x AND NOT (Cfg9346_EEDI OR Cfg9346_EECS)
           in snd (rtl8125_lower_clock P (rtl8125_raise_clock P (x, ep_w8 P x w)))))"

primrec cmd_done_loop :: "'w ee_port \<Rightarrow> nat \<Rightarrow> 'w \<Rightarrow> int \<times> 'w" where
  "cmd_done_loop P 0 w = (- 1, w)"
| "cmd_done_loop P (Suc n) w = (case ep_r8 P w of (x, w) \<Rightarrow> if x AND Cfg9346_EEDO \<noteq> 0 then (0, w) else cmd_done_loop P n w)"

definition rtl8125_eeprom_cmd_done :: "'w ee_port \<Rightarrow> 'w \<Rightarrow> int \<times> 'w" where
  "rtl8125_eeprom_cmd_done P w = cmd_done_loop P 50000 (rtl8125_stand_by P w)"

definition rtl8125_set_eeprom_sel_low :: "'w ee_port \<Rightarrow> 'w \<Rightarrow> 'w" where
  "rtl8125_set_eeprom_sel_low P w = ep_w8 P Cfg9346_EEM1 (ep_w8 P (Cfg9346_EEM1 OR Cfg9346_EESK) (ep_w8 P Cfg9346_EEM1 w))"

section \<open>Words\<close>

definition addr_sz :: "eeprom_type \<Rightarrow> nat" where
  "addr_sz t = (case t of EEPROM_TYPE_93C56 \<Rightarrow> 8 | _ \<Rightarrow> 6)"

definition rtl8125_eeprom_read_sc :: "'w ee_port \<Rightarrow> u16 \<Rightarrow> 'w ee_priv \<Rightarrow> u16 \<times> 'w ee_priv" where
  "rtl8125_eeprom_read_sc P reg tp =
     (if eeprom_type tp = EEPROM_TYPE_NONE then (- 1, tp)
      else
        (let w = ep_w8 P (Cfg9346_EEM1 OR Cfg9346_EECS) (ee_w tp);
             w = rtl8125_shift_out_bits P 6 3 w;
             w = rtl8125_shift_out_bits P (ucast reg) (addr_sz (eeprom_type tp)) w
         in case rtl8125_shift_in_bits P w of
              (data, w) \<Rightarrow> (data, tp\<lparr>ee_w := ep_w8 P 0 (rtl8125_eeprom_cleanup P w)\<rparr>)))"

definition rtl8125_eeprom_write_sc :: "'w ee_port \<Rightarrow> u16 \<Rightarrow> u16 \<Rightarrow> 'w ee_priv \<Rightarrow> 'w ee_priv" where
  "rtl8125_eeprom_write_sc P reg data tp =
     (if eeprom_type tp = EEPROM_TYPE_NONE then tp
      else
        (let sz = addr_sz (eeprom_type tp); out = rtl8125_shift_out_bits P;
             w = ep_w8 P (Cfg9346_EEM1 OR Cfg9346_EECS) (ee_w tp);
             w = rtl8125_stand_by P (out (ucast reg) (sz - 2) (out 19 5 w))
         in case rtl8125_eeprom_cmd_done P (out (ucast reg) sz (out 7 3 w)) of
              (rc, w) \<Rightarrow>
                if rc < 0 then tp\<lparr>ee_w := w\<rparr>
                else case rtl8125_eeprom_cmd_done P (out (ucast data) 16 (out (ucast reg) sz (out 5 3 (rtl8125_stand_by P w)))) of
                       (rc, w) \<Rightarrow>
                         if rc < 0 then tp\<lparr>ee_w := w\<rparr>
                         else tp\<lparr>ee_w := ep_w8 P 0 (rtl8125_eeprom_cleanup P (out (ucast reg) (sz - 2) (out 16 5 (rtl8125_stand_by P w))))\<rparr>))"

definition eeprom_none :: "u16 \<Rightarrow> 'w ee_priv \<Rightarrow> 'w ee_priv" where
  "eeprom_none magic tp = (if magic \<noteq> 0x8129 \<and> magic \<noteq> 0x8128 then tp\<lparr>eeprom_type := EEPROM_TYPE_NONE, eeprom_len := 0\<rparr> else tp)"

definition rtl8125_eeprom_type :: "'w ee_port \<Rightarrow> 'w ee_priv \<Rightarrow> 'w ee_priv" where
  "rtl8125_eeprom_type P tp =
     (if ee_default tp then eeprom_none 0 tp
      else case ep_r8_d2 P (ee_w tp) of
             (v, w) \<Rightarrow>
               (let tp = tp\<lparr>ee_w := w\<rparr> in
                if v AND 0x04 \<noteq> 0 then eeprom_none 0 tp
                else case ep_rxconfig P (ee_w tp) of
                       (c, w) \<Rightarrow>
                         (let tp = (if c AND 0x40 \<noteq> 0 then tp\<lparr>ee_w := w, eeprom_type := EEPROM_TYPE_93C56, eeprom_len := 256\<rparr>
                                    else tp\<lparr>ee_w := w, eeprom_type := EEPROM_TYPE_93C46, eeprom_len := 128\<rparr>)
                          in case rtl8125_eeprom_read_sc P 0 tp of (magic, tp) \<Rightarrow> eeprom_none magic tp)))"

section \<open>What the device sees\<close>

definition serial_pins :: "'w ee_port \<Rightarrow> ('w \<Rightarrow> u8) \<Rightarrow> ('w \<Rightarrow> 'd) \<Rightarrow> (bool \<Rightarrow> 'd \<Rightarrow> 'd) \<Rightarrow> ('d \<Rightarrow> bool) \<Rightarrow> ('d \<Rightarrow> 'd) \<Rightarrow> bool" where
  "serial_pins P lst dev edge dout desel \<longleftrightarrow> (\<forall>w x. lst (ep_w8 P x w) = x
     \<and> dev (ep_w8 P x w) = (if x AND Cfg9346_EECS = 0 then desel (dev w)
          else if x AND Cfg9346_EESK \<noteq> 0 \<and> lst w AND Cfg9346_EESK = 0 then edge (x AND Cfg9346_EEDI \<noteq> 0) (dev w) else dev w)
     \<and> fst (ep_r8 P w) = (lst w AND NOT Cfg9346_EEDO) OR (if dout (dev w) then Cfg9346_EEDO else 0)
     \<and> lst (snd (ep_r8 P w)) = lst w \<and> dev (snd (ep_r8 P w)) = dev w)"

lemma pin_bits:
  "(x :: u8) AND Cfg9346_EEDO = 0 \<longleftrightarrow> \<not> bit x 0" "x AND Cfg9346_EEDI = 0 \<longleftrightarrow> \<not> bit x 1"
  "x AND Cfg9346_EESK = 0 \<longleftrightarrow> \<not> bit x 2" "x AND Cfg9346_EECS = 0 \<longleftrightarrow> \<not> bit x 3"
  using and_exp_eq_0_iff_not_bit [of x 0] and_exp_eq_0_iff_not_bit [of x 1] and_exp_eq_0_iff_not_bit [of x 2] and_exp_eq_0_iff_not_bit [of x 3]
  by simp_all

lemma pin_masks:
  "bit (0x01 :: u8) n \<longleftrightarrow> n = 0" "bit (0x02 :: u8) n \<longleftrightarrow> n = 1" "bit (0x04 :: u8) n \<longleftrightarrow> n = 2" "bit (0x08 :: u8) n \<longleftrightarrow> n = 3"
proof -
  have "bit (2 ^ k :: u8) n \<longleftrightarrow> n = k \<and> n < 8" for k by (auto simp: bit_exp_iff)
  from this [of 0] this [of 1] this [of 2] this [of 3]
  show "bit (0x01 :: u8) n \<longleftrightarrow> n = 0" "bit (0x02 :: u8) n \<longleftrightarrow> n = 1" "bit (0x04 :: u8) n \<longleftrightarrow> n = 2" "bit (0x08 :: u8) n \<longleftrightarrow> n = 3"
    by auto
qed

lemma bit_clr: "n < 8 \<Longrightarrow> bit (x AND NOT (m :: u8)) n \<longleftrightarrow> bit x n \<and> \<not> bit m n"
  by (simp add: bit_and_iff bit_not_iff)

lemma pin_set:
  "bit (x OR Cfg9346_EEDI) 1" "bit (x OR Cfg9346_EEDI) 2 = bit x 2" "bit (x OR Cfg9346_EEDI) 3 = bit x 3"
  "bit (x OR Cfg9346_EESK) 1 = bit x 1" "bit (x OR Cfg9346_EESK) 2" "bit (x OR Cfg9346_EESK) 3 = bit x 3"
  by (simp_all only: bit_or_iff pin_masks) simp_all

lemma pin_clear:
  "\<not> bit (x AND NOT Cfg9346_EEDI) 1" "bit (x AND NOT Cfg9346_EEDI) 2 = bit x 2" "bit (x AND NOT Cfg9346_EEDI) 3 = bit x 3"
  "bit (x AND NOT Cfg9346_EEDI) 0 = bit x 0"
  "bit (x AND NOT Cfg9346_EESK) 1 = bit x 1" "\<not> bit (x AND NOT Cfg9346_EESK) 2" "bit (x AND NOT Cfg9346_EESK) 3 = bit x 3"
  "\<not> bit (x AND NOT (Cfg9346_EEDI OR Cfg9346_EEDO)) 1" "bit (x AND NOT (Cfg9346_EEDI OR Cfg9346_EEDO)) 2 = bit x 2"
  "bit (x AND NOT (Cfg9346_EEDI OR Cfg9346_EEDO)) 3 = bit x 3" "\<not> bit (x AND NOT (Cfg9346_EEDI OR Cfg9346_EECS)) 3"
  "\<not> bit ((x AND NOT (Cfg9346_EEDI OR Cfg9346_EECS)) OR Cfg9346_EESK) 3" "\<not> bit (((x AND NOT (Cfg9346_EEDI OR Cfg9346_EECS)) OR Cfg9346_EESK) AND NOT Cfg9346_EESK) 3"
  by (simp_all only: bit_and_iff bit_not_iff bit_or_iff pin_masks) simp_all

lemma mask_bit: "(data :: u32) AND push_bit k 1 \<noteq> 0 \<longleftrightarrow> bit data k"
  using and_exp_eq_0_iff_not_bit [of data k] by (simp add: push_bit_eq_mult)

text \<open>Selected, with the clock low.\<close>

definition pins_ready :: "u8 \<Rightarrow> bool" where
  "pins_ready x \<longleftrightarrow> bit x 3 \<and> \<not> bit x 2"

lemma shift_out_bit_ok:
  assumes "serial_pins P lst dev edge dout desel" "pins_ready x" "shift_out_bit P b (x, w) = (x', w')"
  shows "pins_ready x'" "lst w' = x'" "dev w' = edge b (dev w)"
proof -
  define y where "y = (if b then x OR Cfg9346_EEDI else x AND NOT Cfg9346_EEDI)"
  have y: "bit y 3" "\<not> bit y 2" "bit y 1 = b"
    using assms(2) by (simp_all only: y_def pins_ready_def pin_set pin_clear if_distrib [of "\<lambda>x. bit x _"]) auto
  have s: "lst (ep_w8 P z v) = z" "dev (ep_w8 P z v) = (if \<not> bit z 3 then desel (dev v) else if bit z 2 \<and> \<not> bit (lst v) 2 then edge (bit z 1) (dev v) else dev v)" for z v
    using assms(1) unfolding serial_pins_def pin_bits not_not by blast+
  have e: "x' = (y OR Cfg9346_EESK) AND NOT Cfg9346_EESK" "w' = ep_w8 P x' (ep_w8 P (y OR Cfg9346_EESK) (ep_w8 P y w))"
    using assms(3) by (simp_all only: shift_out_bit_def rtl8125_raise_clock_def rtl8125_lower_clock_def Let_def fst_conv snd_conv prod.inject y_def) blast
  have r: "bit (y OR Cfg9346_EESK) 3" "bit (y OR Cfg9346_EESK) 2" "bit (y OR Cfg9346_EESK) 1 = b" "bit x' 3" "\<not> bit x' 2"
    using y by (simp_all only: e(1) pin_set pin_clear not_False_eq_True)
  show "pins_ready x'" "lst w' = x'" "dev w' = edge b (dev w)" using r y by (simp_all add: pins_ready_def e(2) s)
qed

definition msb_bits :: "u32 \<Rightarrow> nat \<Rightarrow> bool list" where
  "msb_bits data n = rev (map (bit data) [0 ..< n])"

lemma shift_out_loop_ok:
  assumes "serial_pins P lst dev edge dout desel" "pins_ready x" "shift_out_loop P data k (x, w) = (x', w')"
  shows "pins_ready x' \<and> lst w' = x' \<and> dev w' = fold edge (msb_bits data (Suc k)) (dev w)"
  using assms(2,3)
proof (induction k arbitrary: x w)
  case 0
  then show ?case using shift_out_bit_ok [OF assms(1), of x "bit data 0" w] by (simp only: shift_out_loop.simps mask_bit) (simp add: msb_bits_def)
next
  case (Suc k)
  obtain x1 w1 where o: "shift_out_bit P (bit data (Suc k)) (x, w) = (x1, w1)" by (cases "shift_out_bit P (bit data (Suc k)) (x, w)")
  note s = shift_out_bit_ok [OF assms(1) Suc.prems(1) o]
  have "shift_out_loop P data k (x1, w1) = (x', w')" using Suc.prems(2) o by (simp only: shift_out_loop.simps mask_bit)
  from Suc.IH [OF s(1) this] s(3) show ?case by (simp add: msb_bits_def)
qed

lemma pins_laws:
  assumes "serial_pins P lst dev edge dout desel"
  shows "lst (ep_w8 P x w) = x"
    "bit x 3 \<Longrightarrow> dev (ep_w8 P x w) = (if bit x 2 \<and> \<not> bit (lst w) 2 then edge (bit x 1) (dev w) else dev w)"
    "\<not> bit x 3 \<Longrightarrow> dev (ep_w8 P x w) = desel (dev w)"
    "lst (snd (ep_r8 P w)) = lst w" "dev (snd (ep_r8 P w)) = dev w" "bit (fst (ep_r8 P w)) 0 = dout (dev w)"
    "n \<in> {1, 2, 3} \<Longrightarrow> bit (fst (ep_r8 P w)) n = bit (lst w) n"
proof -
  have s: "lst (ep_w8 P x w) = x" "dev (ep_w8 P x w) = (if \<not> bit x 3 then desel (dev w) else if bit x 2 \<and> \<not> bit (lst w) 2 then edge (bit x 1) (dev w) else dev w)"
    "fst (ep_r8 P w) = (lst w AND NOT Cfg9346_EEDO) OR (if dout (dev w) then Cfg9346_EEDO else 0)" "lst (snd (ep_r8 P w)) = lst w" "dev (snd (ep_r8 P w)) = dev w"
    using assms unfolding serial_pins_def pin_bits not_not by blast+
  show "lst (ep_w8 P x w) = x" "bit x 3 \<Longrightarrow> dev (ep_w8 P x w) = (if bit x 2 \<and> \<not> bit (lst w) 2 then edge (bit x 1) (dev w) else dev w)"
    "\<not> bit x 3 \<Longrightarrow> dev (ep_w8 P x w) = desel (dev w)" "lst (snd (ep_r8 P w)) = lst w" "dev (snd (ep_r8 P w)) = dev w"
    using s by simp_all
  show "bit (fst (ep_r8 P w)) 0 = dout (dev w)" unfolding s(3) by (cases "dout (dev w)") (simp_all only: bit_or_iff bit_and_iff bit_not_iff pin_masks if_True if_False, simp_all)
  show "n \<in> {1, 2, 3} \<Longrightarrow> bit (fst (ep_r8 P w)) n = bit (lst w) n"
    unfolding s(3) by (cases "dout (dev w)") (simp_all only: bit_or_iff bit_and_iff bit_not_iff pin_masks if_True if_False, auto)
qed

lemma shift_out_ok:
  assumes "serial_pins P lst dev edge dout desel" "pins_ready (lst w)" "0 < n"
  shows "pins_ready (lst (rtl8125_shift_out_bits P data n w))" "dev (rtl8125_shift_out_bits P data n w) = fold edge (msb_bits data n) (dev w)"
proof -
  note p = pins_laws [OF assms(1)]
  obtain x w1 where r: "ep_r8 P w = (x, w1)" by (cases "ep_r8 P w")
  have w1: "dev w1 = dev w" "bit x 2 = bit (lst w) 2" "bit x 3 = bit (lst w) 3" using p(5) [of w] p(7) [of 2 w] p(7) [of 3 w] r by simp_all
  let ?x = "x AND NOT (Cfg9346_EEDI OR Cfg9346_EEDO)"
  have x: "pins_ready ?x" using assms(2) w1 by (simp only: pins_ready_def pin_clear) simp
  obtain x2 w2 where l: "shift_out_loop P data (n - 1) (?x, w1) = (x2, w2)" by (cases "shift_out_loop P data (n - 1) (?x, w1)")
  note s = shift_out_loop_ok [OF assms(1) x l]
  let ?y = "x2 AND NOT Cfg9346_EEDI"
  have y: "pins_ready ?y" using s by (simp only: pins_ready_def pin_clear) simp
  have e: "rtl8125_shift_out_bits P data n w = ep_w8 P ?y w2" using r l by (simp only: rtl8125_shift_out_bits_def prod.case)
  show "pins_ready (lst (rtl8125_shift_out_bits P data n w))" using y by (simp only: e p(1))
  have "dev (ep_w8 P ?y w2) = dev w2" using p(2) [of ?y w2] y by (simp only: pins_ready_def) simp
  then show "dev (rtl8125_shift_out_bits P data n w) = fold edge (msb_bits data n) (dev w)"
    using s w1(1) assms(3) by (simp only: e) simp
qed

text \<open>The samples of the device after each of the next clock edges, and the word they make.\<close>

definition samples :: "(bool \<Rightarrow> 'd \<Rightarrow> 'd) \<Rightarrow> ('d \<Rightarrow> bool) \<Rightarrow> nat \<Rightarrow> 'd \<Rightarrow> bool list" where
  "samples edge dout n d = map (\<lambda>i. dout ((edge False ^^ Suc i) d)) [0 ..< n]"

definition shift_in_bit :: "bool \<Rightarrow> u16 \<Rightarrow> u16" where
  "shift_in_bit b d = (if b then push_bit 1 d OR 1 else push_bit 1 d)"

lemma samples_Suc: "samples edge dout (Suc n) d = dout (edge False d) # samples edge dout n (edge False d)"
  by (simp add: samples_def upt_conv_Cons funpow_swap1 comp_def flip: map_Suc_upt del: upt_Suc)

lemma shift_in_loop_ok:
  assumes "serial_pins P lst dev edge dout desel" "bit x 3" "\<not> bit x 2" "\<not> bit x 1" "\<not> bit (lst w) 2" "shift_in_loop P n d (x, w) = (d', x', w')"
  shows "d' = fold shift_in_bit (samples edge dout n (dev w)) d \<and> dev w' = (edge False ^^ n) (dev w) \<and> (0 < n \<longrightarrow> bit (lst w') 3)"
  using assms(2-)
proof (induction n arbitrary: d x w)
  case 0
  then show ?case by (simp add: samples_def)
next
  case (Suc n)
  note p = pins_laws [OF assms(1)]
  let ?w = "ep_w8 P (x OR Cfg9346_EESK) w"
  obtain x1 w1 where r: "ep_r8 P ?w = (x1, w1)" by (cases "ep_r8 P ?w")
  have "bit (x OR Cfg9346_EESK) 3" "bit (x OR Cfg9346_EESK) 2" "\<not> bit (x OR Cfg9346_EESK) 1" using Suc.prems(1,3) by (simp_all only: pin_set not_False_eq_True)
  then have dw: "dev ?w = edge False (dev w)" using p(2) [of "x OR Cfg9346_EESK" w] Suc.prems(4) by simp
  have w1: "dev w1 = edge False (dev w)" "bit x1 0 = dout (edge False (dev w))" "bit x1 3"
    using p(5) [of ?w] p(6) [of ?w] p(7) [of 3 ?w] r dw \<open>bit (x OR Cfg9346_EESK) 3\<close> by (simp_all add: p(1))
  let ?x = "(x1 AND NOT Cfg9346_EEDI) AND NOT Cfg9346_EESK"
  have x: "bit ?x 3" "\<not> bit ?x 2" "\<not> bit ?x 1" using w1(3) by (simp_all only: pin_clear not_False_eq_True)
  have dx: "dev (ep_w8 P ?x w1) = edge False (dev w)" using p(2) [OF x(1), of w1] x(2) w1(1) by (simp only:) simp
  have b: "(x1 AND NOT Cfg9346_EEDI) AND Cfg9346_EEDO \<noteq> 0 \<longleftrightarrow> dout (edge False (dev w))"
    using w1(2) by (simp only: pin_bits pin_clear not_not)
  have "shift_in_loop P n (shift_in_bit (dout (edge False (dev w))) d) (?x, ep_w8 P ?x w1) = (d', x', w')"
    using Suc.prems(5) r b by (simp only: shift_in_loop.simps rtl8125_raise_clock_def rtl8125_lower_clock_def Let_def fst_conv snd_conv prod.case shift_in_bit_def)
  from Suc.IH [OF x _ this] x(2) dx have "d' = fold shift_in_bit (samples edge dout n (edge False (dev w))) (shift_in_bit (dout (edge False (dev w))) d)
      \<and> dev w' = (edge False ^^ n) (edge False (dev w)) \<and> (0 < n \<longrightarrow> bit (lst w') 3)" by (simp only: p(1)) simp
  moreover have "n = 0 \<Longrightarrow> bit (lst w') 3"
    using \<open>shift_in_loop P n _ (?x, ep_w8 P ?x w1) = (d', x', w')\<close> x(1) by (auto simp only: shift_in_loop.simps prod.inject p(1))
  ultimately show ?case by (simp add: samples_Suc funpow_swap1) blast
qed

lemma shift_in_ok:
  assumes "serial_pins P lst dev edge dout desel" "pins_ready (lst w)" "rtl8125_shift_in_bits P w = (d, w')"
  shows "d = fold shift_in_bit (samples edge dout 16 (dev w)) 0" "dev w' = (edge False ^^ 16) (dev w)" "bit (lst w') 3"
proof -
  note p = pins_laws [OF assms(1)]
  obtain x w1 where r: "ep_r8 P w = (x, w1)" by (cases "ep_r8 P w")
  have w1: "dev w1 = dev w" "lst w1 = lst w" "bit x 2 = bit (lst w) 2" "bit x 3 = bit (lst w) 3"
    using p(4) [of w] p(5) [of w] p(7) [of 2 w] p(7) [of 3 w] r by simp_all
  let ?x = "x AND NOT (Cfg9346_EEDI OR Cfg9346_EEDO)"
  have x: "bit ?x 3" "\<not> bit ?x 2" "\<not> bit ?x 1" using assms(2) w1 by (simp_all only: pins_ready_def pin_clear not_False_eq_True)
  have lw: "\<not> bit (lst w1) 2" using assms(2) w1 by (simp add: pins_ready_def)
  obtain d2 x2 w2 where l: "shift_in_loop P 16 0 (?x, w1) = (d2, x2, w2)" by (metis surj_pair)
  have "d2 = d" "w2 = w'" using assms(3) r l by (simp_all only: rtl8125_shift_in_bits_def prod.case prod.inject)
  then show "d = fold shift_in_bit (samples edge dout 16 (dev w)) 0" "dev w' = (edge False ^^ 16) (dev w)" "bit (lst w') 3"
    using shift_in_loop_ok [OF assms(1) x lw l] w1(1) by simp_all
qed

lemma bit_shift_in:
  assumes "length bs \<le> 16" "k < 16"
  shows "bit (fold shift_in_bit bs d) k = (if k < length bs then rev bs ! k else bit d (k - length bs))"
  using assms(1)
proof (induction bs arbitrary: d)
  case (Cons b bs)
  have s: "bit (shift_in_bit b d) n = (if n = 0 then b else bit d (n - 1))" if "n < 16" for n
    using that by (cases b) (simp_all only: shift_in_bit_def bit_or_iff bit_push_bit_iff bit_1_iff if_True if_False, auto)
  show ?case using Cons.IH [of "shift_in_bit b d"] Cons.prems s [of "k - length bs"] assms(2) by (auto simp: nth_append)
qed simp

text \<open>
  C40. Reading a word of the EEPROM. Whatever device is behind the pins, it is selected and sees exactly the
  clock edges of a read command: the opcode \<open>110\<close>, the address of six or eight bits, most significant bit
  first, and then sixteen edges with data low; the word returned consists of its answers to those, the
  first being the most significant bit; at the end it is deselected.
\<close>

theorem eeprom_read_transaction:
  assumes "serial_pins P lst dev edge dout desel" "eeprom_type tp \<noteq> EEPROM_TYPE_NONE" "rtl8125_eeprom_read_sc P reg tp = (v, tp')"
    "d = fold edge (msb_bits (ucast reg) (addr_sz (eeprom_type tp))) (fold edge [True, True, False] (dev (ee_w tp)))"
  shows "(\<forall>k < 16. bit v k = dout ((edge False ^^ (16 - k)) d)) \<and> lst (ee_w tp') = 0 \<and> dev (ee_w tp') = (desel ^^ 4) ((edge False ^^ 16) d)"
proof -
  note p = pins_laws [OF assms(1)]
  define w0 where "w0 = ep_w8 P (Cfg9346_EEM1 OR Cfg9346_EECS) (ee_w tp)"
  define w1 where "w1 = rtl8125_shift_out_bits P 6 3 w0"
  define w2 where "w2 = rtl8125_shift_out_bits P (ucast reg) (addr_sz (eeprom_type tp)) w1"
  obtain u w3 where i: "rtl8125_shift_in_bits P w2 = (u, w3)" by (cases "rtl8125_shift_in_bits P w2")
  obtain x w4 where r: "ep_r8 P w3 = (x, w4)" by (cases "ep_r8 P w3")
  have c: "bit (Cfg9346_EEM1 OR Cfg9346_EECS) 3" "\<not> bit (Cfg9346_EEM1 OR Cfg9346_EECS) 2" by code_simp+
  have s0: "pins_ready (lst w0)" "dev w0 = dev (ee_w tp)" using p(2) [OF c(1), of "ee_w tp"] c by (simp_all only: w0_def p(1) pins_ready_def) simp_all
  have m: "msb_bits 6 3 = [True, True, False]" by code_simp
  have s1: "pins_ready (lst w1)" "dev w1 = fold edge [True, True, False] (dev (ee_w tp))"
    using shift_out_ok [OF assms(1) s0(1), of 3 6] s0(2) m by (simp_all add: w1_def)
  have "0 < addr_sz (eeprom_type tp)" by (simp add: addr_sz_def split: eeprom_type.splits)
  note s2 = shift_out_ok [OF assms(1) s1(1) this, of "ucast reg", folded w2_def]
  have d: "dev w2 = d" using s2(2) s1(2) assms(4) by simp
  note s3 = shift_in_ok [OF assms(1) s2(1) i]
  have e: "v = u" "tp' = tp\<lparr>ee_w := ep_w8 P 0 (rtl8125_eeprom_cleanup P w3)\<rparr>"
    using assms(2,3) i by (simp_all add: rtl8125_eeprom_read_sc_def Let_def w0_def w1_def w2_def)
  let ?x = "x AND NOT (Cfg9346_EEDI OR Cfg9346_EECS)"
  have "rtl8125_eeprom_cleanup P w3 = ep_w8 P ((?x OR Cfg9346_EESK) AND NOT Cfg9346_EESK) (ep_w8 P (?x OR Cfg9346_EESK) (ep_w8 P ?x w4))"
    using r by (simp only: rtl8125_eeprom_cleanup_def prod.case Let_def rtl8125_raise_clock_def rtl8125_lower_clock_def fst_conv snd_conv)
  then have "dev (ep_w8 P 0 (rtl8125_eeprom_cleanup P w3)) = desel (desel (desel (desel (dev w4))))"
    using p(3) [OF pin_clear(11)] p(3) [OF pin_clear(12)] p(3) [OF pin_clear(13)] p(3) [of 0] by (simp only:) simp
  moreover have "dev w4 = (edge False ^^ 16) d" using p(5) [of w3] r s3(2) d by simp
  moreover have "bit v k = dout ((edge False ^^ (16 - k)) d)" if "k < 16" for k
  proof -
    have "16 - k = Suc (15 - k)" using that by simp
    then show ?thesis using bit_shift_in [of "samples edge dout 16 d" k 0] that s3(1) d e(1) by (simp add: samples_def rev_nth)
  qed
  ultimately show ?thesis using e(2) p(1) [of 0] by (simp add: numeral_eq_Suc)
qed

section \<open>A concrete EEPROM\<close>

text \<open>A 93C46: it collects the bits of a command, and after a read command answers with the bits of the word.\<close>

record ee_93c46 =
  ee_bits :: "bool list"
  ee_mem :: "nat \<Rightarrow> u16"

definition ee_edge :: "bool \<Rightarrow> ee_93c46 \<Rightarrow> ee_93c46" where
  "ee_edge b d = d\<lparr>ee_bits := ee_bits d @ [b]\<rparr>"

definition ee_dout :: "ee_93c46 \<Rightarrow> bool" where
  "ee_dout d =
     (let n = length (ee_bits d); a = foldl (\<lambda>a b. 2 * a + (if b then 1 else 0)) 0 (take 6 (drop 3 (ee_bits d)))
      in take 3 (ee_bits d) = [True, True, False] \<and> 9 < n \<and> n \<le> 25 \<and> bit (ee_mem d a) (25 - n))"

definition ee_desel :: "ee_93c46 \<Rightarrow> ee_93c46" where
  "ee_desel d = d\<lparr>ee_bits := []\<rparr>"

definition demo_port :: "(u8 \<times> ee_93c46) ee_port" where
  "demo_port = \<lparr>ep_r8 = (\<lambda>(l, d). ((l AND NOT Cfg9346_EEDO) OR (if ee_dout d then Cfg9346_EEDO else 0), l, d)),
     ep_w8 = (\<lambda>x (l, d). (x, if x AND Cfg9346_EECS = 0 then ee_desel d
       else if x AND Cfg9346_EESK \<noteq> 0 \<and> l AND Cfg9346_EESK = 0 then ee_edge (x AND Cfg9346_EEDI \<noteq> 0) d else d)),
     ep_r8_d2 = (\<lambda>w. (0, w)), ep_rxconfig = (\<lambda>w. (0, w))\<rparr>"

definition demo_ee :: "(u8 \<times> ee_93c46) ee_priv" where
  "demo_ee = \<lparr>eeprom_type = EEPROM_TYPE_93C46, eeprom_len = 128, ee_default = False,
     ee_w = (0, \<lparr>ee_bits = [], ee_mem = (\<lambda>a. if a = 5 then 0x8129 else 0)\<rparr>)\<rparr>"

lemma demo_port_pins: "serial_pins demo_port fst snd ee_edge ee_dout ee_desel"
  by (auto simp: serial_pins_def demo_port_def)

lemma ee_edges: "(ee_edge False ^^ n) d = d\<lparr>ee_bits := ee_bits d @ replicate n False\<rparr>"
  by (induction n) (simp_all add: ee_edge_def replicate_append_same)

theorem eeprom_read_transaction_witness: "fst (rtl8125_eeprom_read_sc demo_port 5 demo_ee) = 0x8129"
proof -
  let ?d = "fold ee_edge (msb_bits (ucast (5 :: u16)) (addr_sz (eeprom_type demo_ee))) (fold ee_edge [True, True, False] (snd (ee_w demo_ee)))"
  have n: "eeprom_type demo_ee \<noteq> EEPROM_TYPE_NONE" by (simp add: demo_ee_def)
  have "\<forall>k < 16. bit (fst (rtl8125_eeprom_read_sc demo_port 5 demo_ee)) k = ee_dout ((ee_edge False ^^ (16 - k)) ?d)"
    using eeprom_read_transaction [OF demo_port_pins n surjective_pairing refl, of 5] by blast
  moreover have "msb_bits (ucast (5 :: u16)) (addr_sz (eeprom_type demo_ee)) = [False, False, False, True, False, True]" by code_simp
  then have "ee_dout ((ee_edge False ^^ (16 - k)) ?d) = bit (0x8129 :: u16) k" if "k < 16" for k
    using that by (simp add: ee_edges) (simp add: ee_edge_def demo_ee_def ee_dout_def Let_def)
  ultimately show ?thesis by (intro bit_word_eqI) simp
qed

end
