(* ===== verification/Enabler.thy ===== *)
theory Enabler
  imports Ioss_Of "HOL-Library.While_Combinator"
begin

text \<open>
  The runtime enabler module (\<^verbatim>\<open>pcie-enabler-sources/pcie_enabler_non_es_v1.c\<close>): it resolves the
  kernel's device-tree functions, adds nodes for the Realtek controller and its two offload
  channels to the live device tree, creates the PCIe root complex, and copies the page-table
  description of the IPA's application context to its Ethernet contexts, once at load and then
  from a delayed work item.

  The kernel (allocation, device-tree lookups and updates, platform bus) is the parameter
  \<open>en_kern\<close>. Nodes, devices and page tables are numbered. Reference counts and the number of heap
  blocks are part of the state, so that leaks are visible.
\<close>

unbundle bit_operations_syntax

section \<open>State\<close>

record of_prop =
  pr_name :: string
  pr_value :: "u8 list"

record dt_node =
  dn_name :: string
  dn_full_name :: string
  dn_parent :: nat
  dn_phandle :: u32
  dn_props :: "of_prop list"
  dn_detached :: bool

text \<open>\<open>dt_kids\<close> is the chain of \<^verbatim>\<open>child\<close> and \<^verbatim>\<open>sibling\<close> pointers.\<close>

record devtree =
  dt_nodes :: "nat \<Rightarrow> dt_node option"
  dt_kids :: "nat \<Rightarrow> nat list"
  dt_next :: nat

record pg_data =
  pmds :: u64
  pg_base :: u64
  pg_end :: u64

record 'w en_state =
  kw :: 'w
  dtree :: devtree
  node_refs :: "nat \<Rightarrow> int"
  heap :: int
  syms :: "string \<Rightarrow> bool"
  pcie_node :: "nat option"
  pcie_pdev :: "nat option"
  pg :: "nat \<Rightarrow> pg_data"
  dev_refs :: "nat \<Rightarrow> int"
  pmds_recheck_count :: int
  recheck_queued :: bool

text \<open>
  Lookups by path and by compatible string return a node with a new reference. A device of the
  platform bus has a name and may have an IOMMU domain; a domain may have page-table operations.
\<close>

record 'w en_kern =
  en_alloc :: "'w \<Rightarrow> bool \<times> 'w"
  kallsyms_lookup_name :: "string \<Rightarrow> bool"
  of_find_node_by_path :: "string \<Rightarrow> devtree \<Rightarrow> nat option"
  of_find_compatible_node :: "string \<Rightarrow> devtree \<Rightarrow> nat option"
  find_property :: "nat \<Rightarrow> string \<Rightarrow> devtree \<Rightarrow> bool"
  of_add_property :: "nat \<Rightarrow> of_prop \<Rightarrow> devtree \<Rightarrow> int \<times> devtree"
  of_update_property :: "nat \<Rightarrow> of_prop \<Rightarrow> devtree \<Rightarrow> int \<times> devtree"
  of_platform_device_create :: "nat \<Rightarrow> 'w \<Rightarrow> nat option \<times> 'w"
  of_device_unregister :: "nat \<Rightarrow> 'w \<Rightarrow> 'w"
  platform_bus :: "(string \<times> nat) list"
  iommu_get_domain_for_dev :: "nat \<Rightarrow> nat option"
  pgtbl_ops :: "nat \<Rightarrow> nat option"
  is_vmalloc_addr :: "u64 \<Rightarrow> bool"

abbreviation (input) RTL8125_PHANDLE_RX :: u32 where "RTL8125_PHANDLE_RX \<equiv> 0x8125"
abbreviation (input) RTL8125_PHANDLE_TX :: u32 where "RTL8125_PHANDLE_TX \<equiv> 0x8126"
abbreviation (input) PMDS_RECHECK_MAX :: int where "PMDS_RECHECK_MAX \<equiv> 15"

definition node_ref :: "int \<Rightarrow> nat option \<Rightarrow> 'w en_state \<Rightarrow> 'w en_state" where
  "node_ref k n s = (case n of None \<Rightarrow> s | Some n \<Rightarrow> s\<lparr>node_refs := (node_refs s)(n := node_refs s n + k)\<rparr>)"

abbreviation (input) of_node_put :: "nat option \<Rightarrow> 'w en_state \<Rightarrow> 'w en_state" where "of_node_put \<equiv> node_ref (- 1)"

definition find_node_by_path :: "'w en_kern \<Rightarrow> string \<Rightarrow> 'w en_state \<Rightarrow> nat option \<times> 'w en_state" where
  "find_node_by_path K p s = (let n = of_find_node_by_path K p (dtree s) in (n, node_ref 1 n s))"

definition find_compatible_node :: "'w en_kern \<Rightarrow> string \<Rightarrow> 'w en_state \<Rightarrow> nat option \<times> 'w en_state" where
  "find_compatible_node K c s = (let n = of_find_compatible_node K c (dtree s) in (n, node_ref 1 n s))"

section \<open>Properties\<close>

definition kmalloc :: "'w en_kern \<Rightarrow> 'w en_state \<Rightarrow> bool \<times> 'w en_state" where
  "kmalloc K s = (case en_alloc K (kw s) of (ok, w) \<Rightarrow> (ok, s\<lparr>kw := w, heap := heap s + (if ok then 1 else 0)\<rparr>))"

definition kfree :: "'w en_state \<Rightarrow> 'w en_state" where
  "kfree s = s\<lparr>heap := heap s - 1\<rparr>"

definition pcie_alloc_property :: "'w en_kern \<Rightarrow> string \<Rightarrow> u8 list \<Rightarrow> 'w en_state \<Rightarrow> of_prop option \<times> 'w en_state" where
  "pcie_alloc_property K name value s =
     (case kmalloc K s of (ok, s) \<Rightarrow>
        if \<not> ok then (None, s)
        else (case kmalloc K s of (ok, s) \<Rightarrow>
          if \<not> ok then (None, kfree s)
          else
            let prop = \<lparr>pr_name = name, pr_value = value\<rparr> in
            if length value > 0
            then (case kmalloc K s of (ok, s) \<Rightarrow> if \<not> ok then (None, kfree (kfree s)) else (Some prop, s))
            else (Some prop, s)))"

text \<open>\<^verbatim>\<open>cpu_to_be32\<close> as the bytes in memory, and a C string with its terminator.\<close>

definition cpu_to_be32 :: "u32 \<Rightarrow> u8 list" where
  "cpu_to_be32 x = [ucast (drop_bit 24 x), ucast (drop_bit 16 x), ucast (drop_bit 8 x), ucast x]"

definition c_string :: "string \<Rightarrow> u8 list" where
  "c_string s = map (\<lambda>c. word_of_nat (of_char c)) s @ [0]"

definition pcie_alloc_bool_property :: "'w en_kern \<Rightarrow> string \<Rightarrow> 'w en_state \<Rightarrow> of_prop option \<times> 'w en_state" where
  "pcie_alloc_bool_property K name s = pcie_alloc_property K name [] s"

definition pcie_alloc_string_property :: "'w en_kern \<Rightarrow> string \<Rightarrow> string \<Rightarrow> 'w en_state \<Rightarrow> of_prop option \<times> 'w en_state" where
  "pcie_alloc_string_property K name value s = pcie_alloc_property K name (c_string value) s"

definition pcie_alloc_u32_property :: "'w en_kern \<Rightarrow> string \<Rightarrow> u32 \<Rightarrow> 'w en_state \<Rightarrow> of_prop option \<times> 'w en_state" where
  "pcie_alloc_u32_property K name value s = pcie_alloc_property K name (cpu_to_be32 value) s"

definition pcie_alloc_u32_array_property :: "'w en_kern \<Rightarrow> string \<Rightarrow> u32 list \<Rightarrow> 'w en_state \<Rightarrow> of_prop option \<times> 'w en_state" where
  "pcie_alloc_u32_array_property K name values s =
     (case kmalloc K s of (ok, s) \<Rightarrow>
        if \<not> ok then (None, s)
        else (case pcie_alloc_property K name (concat (map cpu_to_be32 values)) s of (p, s) \<Rightarrow> (p, kfree s)))"

definition pcie_alloc_string_list_property ::
  "'w en_kern \<Rightarrow> string \<Rightarrow> string list \<Rightarrow> 'w en_state \<Rightarrow> of_prop option \<times> 'w en_state" where
  "pcie_alloc_string_list_property K name values s =
     (case kmalloc K s of (ok, s) \<Rightarrow>
        if \<not> ok then (None, s)
        else (case pcie_alloc_property K name (concat (map c_string values)) s of (p, s) \<Rightarrow> (p, kfree s)))"

text \<open>The property is not freed when it cannot be added.\<close>

definition pcie_set_property :: "'w en_kern \<Rightarrow> nat \<Rightarrow> of_prop option \<Rightarrow> 'w en_state \<Rightarrow> int \<times> 'w en_state" where
  "pcie_set_property K n p s =
     (case p of
        None \<Rightarrow> (- ENOMEM, s)
      | Some p \<Rightarrow>
          if \<not> syms s ''of_add_property'' \<or> \<not> syms s ''of_update_property'' then (- ENOENT, s)
          else (case (if find_property K n (pr_name p) (dtree s) then of_update_property K n p (dtree s)
                      else of_add_property K n p (dtree s)) of (rc, t) \<Rightarrow> (rc, s\<lparr>dtree := t\<rparr>)))"

definition pcie_resolve_symbols :: "'w en_kern \<Rightarrow> bool \<Rightarrow> 'w en_state \<Rightarrow> int \<times> 'w en_state" where
  "pcie_resolve_symbols K addr s =
     (if \<not> addr then (- EINVAL, s)
      else
        let s = s\<lparr>syms := kallsyms_lookup_name K\<rparr> in
        if \<not> syms s ''of_mutex'' \<or> \<not> syms s ''devtree_lock'' \<or> \<not> syms s ''of_add_property'' \<or> \<not> syms s ''of_update_property''
        then (- ENOENT, s) else (0, s))"

section \<open>Nodes\<close>

definition full_name_of :: "nat \<Rightarrow> devtree \<Rightarrow> string" where
  "full_name_of n t = (case dt_nodes t n of None \<Rightarrow> [] | Some x \<Rightarrow> dn_full_name x)"

definition phandle_of :: "nat \<Rightarrow> devtree \<Rightarrow> u32" where
  "phandle_of n t = (case dt_nodes t n of None \<Rightarrow> 0 | Some x \<Rightarrow> dn_phandle x)"

definition pcie_alloc_node :: "'w en_kern \<Rightarrow> nat \<Rightarrow> string \<Rightarrow> string \<Rightarrow> u32 \<Rightarrow> 'w en_state \<Rightarrow> nat option \<times> 'w en_state" where
  "pcie_alloc_node K parent name unit_name ph s =
     (case kmalloc K s of (ok, s) \<Rightarrow>
        if \<not> ok then (None, s)
        else (case kmalloc K s of (ok, s) \<Rightarrow>
          if \<not> ok then (None, kfree s)
          else (case kmalloc K s of (ok, s) \<Rightarrow>
            if \<not> ok then (None, kfree (kfree s))
            else
              let t = dtree s; n = dt_next t;
                  x = \<lparr>dn_name = name, dn_full_name = full_name_of parent t @ CHR 0x2F # unit_name, dn_parent = parent,
                       dn_phandle = ph, dn_props = [], dn_detached = True\<rparr>
              in (Some n, s\<lparr>dtree := t\<lparr>dt_nodes := (dt_nodes t)(n \<mapsto> x), dt_next := Suc n\<rparr>\<rparr>))))"

definition pcie_attach_node :: "nat option \<Rightarrow> 'w en_state \<Rightarrow> int \<times> 'w en_state" where
  "pcie_attach_node n s =
     (case n of
        None \<Rightarrow> (- EINVAL, s)
      | Some n \<Rightarrow>
          (case dt_nodes (dtree s) n of
             None \<Rightarrow> (- EINVAL, s)
           | Some x \<Rightarrow>
               let t = dtree s in
               (0, s\<lparr>dtree := t\<lparr>dt_kids := (dt_kids t)(n := [], dn_parent x := n # dt_kids t (dn_parent x)),
                                dt_nodes := (dt_nodes t)(n \<mapsto> x\<lparr>dn_detached := False\<rparr>)\<rparr>\<rparr>)))"

definition has_name :: "string \<Rightarrow> devtree \<Rightarrow> nat \<Rightarrow> bool" where
  "has_name name t n \<longleftrightarrow> (case dt_nodes t n of None \<Rightarrow> False | Some x \<Rightarrow> dn_name x = name)"

text \<open>\<^verbatim>\<open>for_each_child_of_node\<close> holds a reference on the current child: the one returned keeps it.\<close>

definition pcie_find_child_by_name :: "nat \<Rightarrow> string \<Rightarrow> 'w en_state \<Rightarrow> nat option \<times> 'w en_state" where
  "pcie_find_child_by_name parent name s =
     (let n = find (has_name name (dtree s)) (dt_kids (dtree s) parent) in (n, node_ref 1 n s))"

section \<open>The runtime nodes\<close>

text \<open>
  The values the properties take; a property is allocated by the function of its kind and set at
  once. The sequence of \<open>pcie_set_property\<close> calls stops at the first error.
\<close>

datatype prop_value = PBool | PString string | PU32 u32 | PU32s "u32 list" | PStrings "string list"

definition alloc_prop :: "'w en_kern \<Rightarrow> string \<times> prop_value \<Rightarrow> 'w en_state \<Rightarrow> of_prop option \<times> 'w en_state" where
  "alloc_prop K p s =
     (case snd p of
        PBool \<Rightarrow> pcie_alloc_bool_property K (fst p) s
      | PString v \<Rightarrow> pcie_alloc_string_property K (fst p) v s
      | PU32 v \<Rightarrow> pcie_alloc_u32_property K (fst p) v s
      | PU32s vs \<Rightarrow> pcie_alloc_u32_array_property K (fst p) vs s
      | PStrings vs \<Rightarrow> pcie_alloc_string_list_property K (fst p) vs s)"

primrec set_props :: "'w en_kern \<Rightarrow> nat \<Rightarrow> (string \<times> prop_value) list \<Rightarrow> 'w en_state \<Rightarrow> int \<times> 'w en_state" where
  "set_props K n [] s = (0, s)"
| "set_props K n (p # ps) s =
     (case alloc_prop K p s of (pr, s) \<Rightarrow>
        (case pcie_set_property K n pr s of (ret, s) \<Rightarrow> if ret \<noteq> 0 then (ret, s) else set_props K n ps s))"

definition rx_props :: "(string \<times> prop_value) list" where
  "rx_props = [(''phandle'', PU32 RTL8125_PHANDLE_RX), (''linux,phandle'', PU32 RTL8125_PHANDLE_RX), (''name'', PString ''r8125_rx''),
     (''qcom,dir-rx'', PBool), (''qcom,rx-filter-ip'', PBool), (''qcom,ring-size'', PU32 1024), (''qcom,buff-size'', PU32 2048),
     (''qcom,mod-count-min'', PU32 32), (''qcom,mod-count-max'', PU32 64), (''qcom,mod-usecs-min'', PU32 30),
     (''qcom,mod-usecs-max'', PU32 60)]"

definition tx_props :: "(string \<times> prop_value) list" where
  "tx_props = [(''phandle'', PU32 RTL8125_PHANDLE_TX), (''linux,phandle'', PU32 RTL8125_PHANDLE_TX), (''name'', PString ''r8125_tx''),
     (''qcom,dir-tx'', PBool), (''qcom,ring-size'', PU32 1024), (''qcom,buff-size'', PU32 2048),
     (''qcom,mod-count-min'', PU32 32), (''qcom,mod-count-max'', PU32 64), (''qcom,mod-usecs-min'', PU32 30),
     (''qcom,mod-usecs-max'', PU32 60)]"

definition rtl8125_props :: "u32 \<Rightarrow> u32 \<Rightarrow> (string \<times> prop_value) list" where
  "rtl8125_props ioss_ph group_ph = [(''compatible'', PString ''qcom,ioss-v2-device''), (''name'', PString ''realtek,rtl8125''),
     (''reg'', PU32s [0, 0, 0, 0, 0]), (''pci-ids'', PStrings [''10ec:8125'', ''10ec:3000'']), (''qcom,ioss_instance'', PU32 0),
     (''qcom,ioss'', PU32 ioss_ph), (''qcom,iommu-group'', PU32 group_ph),
     (''qcom,ioss_channels'', PU32s [RTL8125_PHANDLE_RX, RTL8125_PHANDLE_TX])]"

text \<open>The test for nodes of an earlier load; the references on the children found are kept.\<close>

definition nodes_present :: "nat \<Rightarrow> nat \<Rightarrow> 'w en_state \<Rightarrow> bool \<times> 'w en_state" where
  "nodes_present soc rp s =
     (case pcie_find_child_by_name soc ''r8125_rx'' s of
        (None, s) \<Rightarrow> (False, s)
      | (Some _, s) \<Rightarrow>
          (case pcie_find_child_by_name soc ''r8125_tx'' s of
             (None, s) \<Rightarrow> (False, s)
           | (Some _, s) \<Rightarrow>
               (case pcie_find_child_by_name rp ''realtek,rtl8125'' s of (c, s) \<Rightarrow> (c \<noteq> None, s))))"

definition attach_three :: "nat \<Rightarrow> nat \<Rightarrow> nat \<Rightarrow> 'w en_state \<Rightarrow> int \<times> 'w en_state" where
  "attach_three rx tx rtl s =
     (case pcie_attach_node (Some rx) s of (ret, s) \<Rightarrow>
        if ret \<noteq> 0 then (ret, s)
        else (case pcie_attach_node (Some tx) s of (ret, s) \<Rightarrow>
               if ret \<noteq> 0 then (ret, s) else pcie_attach_node (Some rtl) s))"

text \<open>From the three allocations on.\<close>

definition build_nodes :: "'w en_kern \<Rightarrow> nat \<Rightarrow> nat \<Rightarrow> nat \<Rightarrow> nat \<Rightarrow> 'w en_state \<Rightarrow> int \<times> 'w en_state" where
  "build_nodes K soc ioss grp rp s =
     (case pcie_alloc_node K soc ''r8125_rx'' ''r8125_rx@eth0'' RTL8125_PHANDLE_RX s of (rx, s) \<Rightarrow>
      case pcie_alloc_node K soc ''r8125_tx'' ''r8125_tx@eth0'' RTL8125_PHANDLE_TX s of (tx, s) \<Rightarrow>
      case pcie_alloc_node K rp ''realtek,rtl8125'' ''realtek,rtl8125@0,0'' 0 s of (rtl, s) \<Rightarrow>
        case (rx, tx, rtl) of
          (Some rx, Some tx, Some rtl) \<Rightarrow>
            (case set_props K rx rx_props s of (ret, s) \<Rightarrow>
               if ret \<noteq> 0 then (ret, s)
               else (case set_props K tx tx_props s of (ret, s) \<Rightarrow>
                 if ret \<noteq> 0 then (ret, s)
                 else (case set_props K rtl (rtl8125_props (phandle_of ioss (dtree s)) (phandle_of grp (dtree s))) s of (ret, s) \<Rightarrow>
                   if ret \<noteq> 0 then (ret, s) else attach_three rx tx rtl s)))
        | _ \<Rightarrow> (- ENOMEM, s))"

definition attach_found :: "'w en_kern \<Rightarrow> nat \<Rightarrow> nat \<Rightarrow> nat \<Rightarrow> nat \<Rightarrow> nat \<Rightarrow> 'w en_state \<Rightarrow> int \<times> 'w en_state" where
  "attach_found K pcie soc ioss grp rp s =
     (case nodes_present soc rp s of (present, s) \<Rightarrow>
        if present then (0, s)
        else (case set_props K pcie [(''status'', PString ''okay'')] s of (ret, s) \<Rightarrow>
               if ret \<noteq> 0 then (ret, s) else build_nodes K soc ioss grp rp s))"

definition pcie_attach_runtime_nodes :: "'w en_kern \<Rightarrow> nat \<Rightarrow> 'w en_state \<Rightarrow> int \<times> 'w en_state" where
  "pcie_attach_runtime_nodes K pcie s =
     (case find_node_by_path K ''/soc'' s of (soc, s) \<Rightarrow>
      case find_node_by_path K ''/soc/qcom,ioss'' s of (ioss, s) \<Rightarrow>
      case find_node_by_path K ''/soc/ipa_eth_group1'' s of (grp, s) \<Rightarrow>
      case pcie_find_child_by_name pcie ''pcie0_rp'' s of (rp, s) \<Rightarrow>
        case (case (soc, ioss, grp, rp) of
                (Some soc, Some ioss, Some grp, Some rp) \<Rightarrow> attach_found K pcie soc ioss grp rp s
              | _ \<Rightarrow> (- ENODEV, s)) of (ret, s) \<Rightarrow>
          (ret, of_node_put soc (of_node_put ioss (of_node_put grp (of_node_put rp s)))))"

section \<open>Page tables\<close>

text \<open>The first device of the platform bus whose name ends in the suffix, with a reference.\<close>

definition smmu_dev_match :: "string \<Rightarrow> string \<times> nat \<Rightarrow> bool" where
  "smmu_dev_match suffix d \<longleftrightarrow>
     length (fst d) \<ge> length suffix \<and> drop (length (fst d) - length suffix) (fst d) = suffix"

definition dev_ref :: "int \<Rightarrow> nat option \<Rightarrow> 'w en_state \<Rightarrow> 'w en_state" where
  "dev_ref k d s = (case d of None \<Rightarrow> s | Some d \<Rightarrow> s\<lparr>dev_refs := (dev_refs s)(d := dev_refs s d + k)\<rparr>)"

definition find_ipa_smmu_dev :: "'w en_kern \<Rightarrow> string \<Rightarrow> 'w en_state \<Rightarrow> nat option \<times> 'w en_state" where
  "find_ipa_smmu_dev K suffix s =
     (let d = map_option snd (find (smmu_dev_match suffix) (platform_bus K)) in (d, dev_ref 1 d s))"

text \<open>The page-table data of a device, through its domain and the operations of that.\<close>

definition dev_pg :: "'w en_kern \<Rightarrow> nat option \<Rightarrow> nat option" where
  "dev_pg K d = (case d of None \<Rightarrow> None | Some d \<Rightarrow>
     (case iommu_get_domain_for_dev K d of None \<Rightarrow> None | Some d \<Rightarrow> pgtbl_ops K d))"

definition fix_one_slave_pmds :: "'w en_kern \<Rightarrow> string \<Rightarrow> 'w en_state \<Rightarrow> bool \<times> 'w en_state" where
  "fix_one_slave_pmds K slave_suffix s =
     (case find_ipa_smmu_dev K '':ipa_smmu_ap'' s of (ap_dev, s) \<Rightarrow>
      case find_ipa_smmu_dev K slave_suffix s of (slave_dev, s) \<Rightarrow>
      case (case (dev_pg K ap_dev, dev_pg K slave_dev) of
              (Some ap, Some slave) \<Rightarrow>
                if \<not> is_vmalloc_addr K (pmds (pg s ap)) then (False, s)
                else if pmds (pg s slave) \<noteq> pmds (pg s ap) \<or> pg_base (pg s slave) \<noteq> pg_base (pg s ap)
                        \<or> pg_end (pg s slave) \<noteq> pg_end (pg s ap)
                then (True, s\<lparr>pg := (pg s)(slave := (pg s slave)\<lparr>pmds := pmds (pg s ap), pg_base := pg_base (pg s ap),
                                                   pg_end := pg_end (pg s ap)\<rparr>)\<rparr>)
                else (False, s)
            | _ \<Rightarrow> (False, s)) of (fixed, s) \<Rightarrow>
        (fixed, dev_ref (- 1) slave_dev (dev_ref (- 1) ap_dev s)))"

definition run_pmds_fix_pass :: "'w en_kern \<Rightarrow> 'w en_state \<Rightarrow> 'w en_state" where
  "run_pmds_fix_pass K s =
     (case fix_one_slave_pmds K '':ipa_smmu_eth'' s of (_, s) \<Rightarrow> snd (fix_one_slave_pmds K '':ipa_smmu_eth1'' s))"

definition pmds_recheck_fn :: "'w en_kern \<Rightarrow> 'w en_state \<Rightarrow> 'w en_state" where
  "pmds_recheck_fn K s =
     (let s = run_pmds_fix_pass K (s\<lparr>recheck_queued := False\<rparr>);
          s = s\<lparr>pmds_recheck_count := pmds_recheck_count s + 1\<rparr>
      in if pmds_recheck_count s < PMDS_RECHECK_MAX then s\<lparr>recheck_queued := True\<rparr> else s)"

definition start_pmds_recheck :: "'w en_state \<Rightarrow> 'w en_state" where
  "start_pmds_recheck s = s\<lparr>pmds_recheck_count := 0, recheck_queued := True\<rparr>"

section \<open>Load and unload\<close>

text \<open>The compatible strings that are tried in turn.\<close>

primrec find_first_compatible :: "'w en_kern \<Rightarrow> string list \<Rightarrow> 'w en_state \<Rightarrow> nat option \<times> 'w en_state" where
  "find_first_compatible K [] s = (None, s)"
| "find_first_compatible K (c # cs) s =
     (case find_compatible_node K c s of (Some n, s) \<Rightarrow> (Some n, s) | (None, s) \<Rightarrow> find_first_compatible K cs s)"

definition find_pcie_node :: "'w en_kern \<Rightarrow> 'w en_state \<Rightarrow> nat option \<times> 'w en_state" where
  "find_pcie_node K s =
     (case find_node_by_path K ''/soc/qcom,pcie@1c00000'' s of
        (Some n, s) \<Rightarrow> (Some n, s)
      | (None, s) \<Rightarrow> find_first_compatible K [''qcom,pci-msm'', ''qcom,pcie-sdx65'', ''qcom,pcie-sdx62'', ''snps,dw-pcie''] s)"

definition pcie_enabler_non_es_init :: "'w en_kern \<Rightarrow> bool \<Rightarrow> 'w en_state \<Rightarrow> int \<times> 'w en_state" where
  "pcie_enabler_non_es_init K addr s =
     (case pcie_resolve_symbols K addr s of (ret, s) \<Rightarrow>
        if ret \<noteq> 0 then (ret, s)
        else (case find_pcie_node K s of (n, s) \<Rightarrow>
          let s = s\<lparr>pcie_node := n\<rparr> in
          case n of
            None \<Rightarrow> (- ENODEV, s)
          | Some pcie \<Rightarrow>
              (case pcie_attach_runtime_nodes K pcie s of (ret, s) \<Rightarrow>
                 if ret \<noteq> 0 then (ret, (of_node_put n s)\<lparr>pcie_node := None\<rparr>)
                 else (case of_platform_device_create K pcie (kw s) of (pdev, w) \<Rightarrow>
                   (0, start_pmds_recheck (run_pmds_fix_pass K (s\<lparr>pcie_pdev := pdev, kw := w\<rparr>)))))))"

definition pcie_enabler_non_es_exit :: "'w en_kern \<Rightarrow> 'w en_state \<Rightarrow> 'w en_state" where
  "pcie_enabler_non_es_exit K s =
     (let s = s\<lparr>recheck_queued := False\<rparr>;
          s = (case pcie_pdev s of None \<Rightarrow> s | Some d \<Rightarrow> s\<lparr>kw := of_device_unregister K d (kw s)\<rparr>)
      in of_node_put (pcie_node s) s)"

section \<open>Lemmas\<close>

subsection \<open>Page tables\<close>

text \<open>The page tables the pass looks at.\<close>

definition table_of :: "'w en_kern \<Rightarrow> string \<Rightarrow> nat option" where
  "table_of K suffix = dev_pg K (map_option snd (find (smmu_dev_match suffix) (platform_bus K)))"

lemma dev_ref_alt: "dev_ref k d s = s\<lparr>dev_refs := \<lambda>x. dev_refs s x + (if d = Some x then k else 0)\<rparr>"
proof (cases d)
  case (Some y)
  have "(dev_refs s)(y := dev_refs s y + k) = (\<lambda>x. dev_refs s x + (if d = Some x then k else 0))" using Some by auto
  with Some show ?thesis by (simp add: dev_ref_def)
qed (simp add: dev_ref_def)

lemma dev_ref_cancel: "dev_ref (- 1) b (dev_ref (- 1) a ((dev_ref 1 b (dev_ref 1 a s))\<lparr>pg := q\<rparr>)) = s\<lparr>pg := q\<rparr>"
proof -
  have "(\<lambda>x. dev_refs s x + (if a = Some x then 1 else 0) + (if b = Some x then 1 else 0)
      + (if a = Some x then - 1 else 0) + (if b = Some x then - 1 else 0)) = dev_refs s" by auto
  then show ?thesis by (simp add: dev_ref_alt)
qed

lemma dev_ref_sel [simp]:
  "pg (dev_ref k d s) = pg s" "pmds_recheck_count (dev_ref k d s) = pmds_recheck_count s" "recheck_queued (dev_ref k d s) = recheck_queued s"
  by (simp_all add: dev_ref_def split: option.splits)

definition fixed_pg :: "'w en_kern \<Rightarrow> string \<Rightarrow> (nat \<Rightarrow> pg_data) \<Rightarrow> nat \<Rightarrow> pg_data" where
  "fixed_pg K suffix q =
     (case (table_of K '':ipa_smmu_ap'', table_of K suffix) of
        (Some ap, Some slave) \<Rightarrow> if is_vmalloc_addr K (pmds (q ap)) then q(slave := q ap) else q
      | _ \<Rightarrow> q)"

text \<open>What one fix does to the state: the table, and nothing else.\<close>

lemma fix_one_state:
  "snd (fix_one_slave_pmds K suffix s) = s\<lparr>pg := fixed_pg K suffix (pg s)\<rparr>"
proof -
  let ?a = "map_option snd (find (smmu_dev_match '':ipa_smmu_ap'') (platform_bus K))"
  let ?b = "map_option snd (find (smmu_dev_match suffix) (platform_bus K))"
  let ?s = "dev_ref 1 ?b (dev_ref 1 ?a s)"
  have same: "q slave = q ap \<Longrightarrow> q(slave := q ap) = q" for q :: "nat \<Rightarrow> pg_data" and slave ap by auto
  have eq: "x = y \<longleftrightarrow> pmds x = pmds y \<and> pg_base x = pg_base y \<and> pg_end x = pg_end y" for x y :: pg_data by auto
  have upd: "x\<lparr>pmds := pmds y, pg_base := pg_base y, pg_end := pg_end y\<rparr> = y" for x y :: pg_data by simp
  have put: "dev_ref (- 1) ?b (dev_ref (- 1) ?a (?s\<lparr>pg := q\<rparr>)) = s\<lparr>pg := q\<rparr>" for q
    by (rule dev_ref_cancel)
  have id: "?s = ?s\<lparr>pg := pg s\<rparr>" by simp
  show ?thesis
  proof (cases "table_of K '':ipa_smmu_ap''")
    case None
    then show ?thesis
      using put [of "pg s"] id by (simp add: fix_one_slave_pmds_def find_ipa_smmu_dev_def Let_def fixed_pg_def table_of_def)
  next
    case (Some ap)
    note ap = this
    show ?thesis
    proof (cases "table_of K suffix")
      case None
      then show ?thesis
        using ap put [of "pg s"] id by (simp add: fix_one_slave_pmds_def find_ipa_smmu_dev_def Let_def fixed_pg_def table_of_def)
    next
      case (Some slave)
      show ?thesis
        using ap Some put [of "pg s"] put [of "(pg s)(slave := pg s ap)"] id same [of "pg s" slave ap] eq [of "pg s slave" "pg s ap"]
        by (auto simp: fix_one_slave_pmds_def find_ipa_smmu_dev_def Let_def fixed_pg_def table_of_def upd)
    qed
  qed
qed

lemma pass_state: "run_pmds_fix_pass K s = s\<lparr>pg := fixed_pg K '':ipa_smmu_eth1'' (fixed_pg K '':ipa_smmu_eth'' (pg s))\<rparr>"
  using fix_one_state [of K "'':ipa_smmu_eth''" s] fix_one_state [of K "'':ipa_smmu_eth1''"]
  by (simp add: run_pmds_fix_pass_def case_prod_beta)

text \<open>
  C17. One pass gives both Ethernet contexts the application context's page tables, provided that
  those lie in vmalloc space, and changes nothing else: no other table, no reference count. A
  second pass finds nothing to do.
\<close>

theorem pmds_pass_effect:
  fixes s :: "'w en_state"
  assumes "table_of K '':ipa_smmu_ap'' = Some ap"
  defines "s' \<equiv> run_pmds_fix_pass K s"
  shows "s' = s\<lparr>pg := pg s'\<rparr>
    \<and> (\<forall>x. pg s' x = (if is_vmalloc_addr K (pmds (pg s ap)) \<and> Some x \<in> {table_of K '':ipa_smmu_eth'', table_of K '':ipa_smmu_eth1''}
                      then pg s ap else pg s x))
    \<and> run_pmds_fix_pass K s' = s'"
proof -
  have one: "fixed_pg K suffix q = (\<lambda>x. if is_vmalloc_addr K (pmds (q ap)) \<and> table_of K suffix = Some x then q ap else q x)"
    for suffix q
    using assms(1) by (cases "table_of K suffix") (auto simp: fixed_pg_def fun_eq_iff)
  show ?thesis by (auto simp: s'_def pass_state one fun_eq_iff)
qed

lemma recheck_step:
  "pmds_recheck_count (pmds_recheck_fn K s) = pmds_recheck_count s + 1
   \<and> (recheck_queued (pmds_recheck_fn K s) \<longleftrightarrow> pmds_recheck_count s + 1 < PMDS_RECHECK_MAX)"
  by (simp add: pmds_recheck_fn_def Let_def pass_state)

lemma recheck_runs:
  assumes "0 < n"
  shows "pmds_recheck_count ((pmds_recheck_fn K ^^ n) (start_pmds_recheck s)) = int n
    \<and> (recheck_queued ((pmds_recheck_fn K ^^ n) (start_pmds_recheck s)) \<longleftrightarrow> n < 15)"
  using assms
proof (induction n)
  case (Suc n)
  show ?case
  proof (cases n)
    case 0
    then show ?thesis using recheck_step [of K "start_pmds_recheck s"] by (simp add: start_pmds_recheck_def)
  next
    case (Suc m)
    with Suc.IH recheck_step [of K "(pmds_recheck_fn K ^^ n) (start_pmds_recheck s)"] show ?thesis by auto
  qed
qed simp

text \<open>
  C18. The delayed work item stops: started at load, it runs exactly fifteen times; after the
  \<open>n\<close>th run it is queued again exactly when \<open>n\<close> is below fifteen, and then the queue is empty.
\<close>

theorem recheck_terminates:
  "while_option recheck_queued (pmds_recheck_fn K) (start_pmds_recheck s) = Some ((pmds_recheck_fn K ^^ 15) (start_pmds_recheck s))
   \<and> pmds_recheck_count ((pmds_recheck_fn K ^^ 15) (start_pmds_recheck s)) = 15"
proof -
  let ?f = "\<lambda>n. (pmds_recheck_fn K ^^ n) (start_pmds_recheck s)"
  have q0: "recheck_queued (?f 0)" by (simp add: start_pmds_recheck_def)
  have stop: "\<not> recheck_queued (?f 15)" using recheck_runs [of 15 K s] by simp
  have go: "recheck_queued (?f n)" if "n < 15" for n
    using q0 recheck_runs [of n K s] that by (cases "n = 0") auto
  have least: "(LEAST k. \<not> recheck_queued (?f k)) = 15"
  proof (rule Least_equality)
    show "\<not> recheck_queued (?f 15)" by (rule stop)
    fix k assume "\<not> recheck_queued (?f k)"
    with go [of k] show "15 \<le> k" by (cases "k < 15") simp_all
  qed
  have ex: "\<exists>k. \<not> recheck_queued (?f k)" using stop by blast
  show ?thesis
    unfolding while_option_def using ex least recheck_runs [of 15 K s] by simp
qed

subsection \<open>Allocation\<close>

text \<open>Allocation touches the heap only.\<close>

definition heap_only :: "'w en_state \<Rightarrow> 'w en_state \<Rightarrow> bool" where
  "heap_only s s' \<longleftrightarrow> (\<exists>w h. s' = s\<lparr>kw := w, heap := h\<rparr>)"

lemma heap_only_sel:
  assumes "heap_only s s'"
  shows "dtree s' = dtree s" "syms s' = syms s" "node_refs s' = node_refs s"
  using assms by (auto simp: heap_only_def)

lemma heap_only_trans: "heap_only a b \<Longrightarrow> heap_only b c \<Longrightarrow> heap_only a c"
  unfolding heap_only_def by (elim exE, hypsubst, intro exI, simp)

lemma heap_kmalloc: "kmalloc K s = (ok, s') \<Longrightarrow> heap_only s s' \<and> heap s' = heap s + (if ok then 1 else 0)"
  by (auto simp: kmalloc_def heap_only_def split: prod.splits)

lemma heap_kfree [simp]: "heap_only s (kfree s')  = heap_only s s'" "heap (kfree s) = heap s - 1"
proof -
  have "s' = (kfree s')\<lparr>kw := kw s', heap := heap s'\<rparr>" "kfree s' = s'\<lparr>kw := kw s', heap := heap s' - 1\<rparr>" by (simp_all add: kfree_def)
  then have "heap_only (kfree s') s'" "heap_only s' (kfree s')" unfolding heap_only_def by blast+
  then show "heap_only s (kfree s')  = heap_only s s'" using heap_only_trans by blast
qed (simp add: kfree_def)

text \<open>The bytes of a property.\<close>

definition enc_prop :: "string \<times> prop_value \<Rightarrow> of_prop" where
  "enc_prop p = \<lparr>pr_name = fst p, pr_value =
     (case snd p of PBool \<Rightarrow> [] | PString v \<Rightarrow> c_string v | PU32 v \<Rightarrow> cpu_to_be32 v
      | PU32s vs \<Rightarrow> concat (map cpu_to_be32 vs) | PStrings vs \<Rightarrow> concat (map c_string vs))\<rparr>"

text \<open>A property was allocated with its name and value, or nothing was.\<close>

definition prop_result :: "string \<Rightarrow> u8 list \<Rightarrow> 'w en_state \<Rightarrow> of_prop option \<Rightarrow> 'w en_state \<Rightarrow> bool" where
  "prop_result name value s p s' \<longleftrightarrow> heap_only s s' \<and> (case p of None \<Rightarrow> heap s' = heap s
     | Some pr \<Rightarrow> pr = \<lparr>pr_name = name, pr_value = value\<rparr> \<and> heap s' = heap s + (if value = [] then 2 else 3))"

lemma alloc_property_result:
  assumes "pcie_alloc_property K name value s = (p, s')"
  shows "prop_result name value s p s'"
proof -
  obtain ok1 s1 where 1: "kmalloc K s = (ok1, s1)" by (metis prod.exhaust)
  obtain ok2 s2 where 2: "kmalloc K s1 = (ok2, s2)" by (metis prod.exhaust)
  obtain ok3 s3 where 3: "kmalloc K s2 = (ok3, s3)" by (metis prod.exhaust)
  note h = heap_kmalloc [OF 1] heap_kmalloc [OF 2] heap_kmalloc [OF 3]
  then have "heap_only s s1" "heap_only s s2" "heap_only s s3" using heap_only_trans by blast+
  with assms 1 2 3 h show ?thesis by (auto simp: pcie_alloc_property_def prop_result_def Let_def split: if_splits)
qed

text \<open>Through a temporary buffer.\<close>

lemma buffered_result:
  assumes "(case kmalloc K s of (ok, s) \<Rightarrow> if \<not> ok then (None, s)
      else (case pcie_alloc_property K nm v s of (p, s) \<Rightarrow> (p, kfree s))) = (pr, s')"
  shows "prop_result nm v s pr s'"
proof -
  obtain ok s1 where k: "kmalloc K s = (ok, s1)" by (metis prod.exhaust)
  obtain q s2 where a: "pcie_alloc_property K nm v s1 = (q, s2)" by (metis prod.exhaust)
  note h = heap_kmalloc [OF k] alloc_property_result [OF a, unfolded prop_result_def]
  have "heap_only s s2" using h heap_only_trans by blast
  with assms k a h show ?thesis by (cases ok; cases q) (auto simp: prop_result_def)
qed

lemma alloc_prop_result:
  assumes "alloc_prop K p s = (pr, s')"
  shows "prop_result (fst p) (pr_value (enc_prop p)) s pr s'"
  using assms
  by (cases "snd p")
    (simp_all add: alloc_prop_def enc_prop_def pcie_alloc_bool_property_def pcie_alloc_string_property_def pcie_alloc_u32_property_def
      pcie_alloc_u32_array_property_def pcie_alloc_string_list_property_def alloc_property_result buffered_result)

text \<open>
  Allocating a property, of whatever kind, either returns it with its name and the bytes of
  its value in two blocks (three with a value), or returns nothing; no block leaks on any failure,
  temporary buffers included, and nothing but the heap changes.
\<close>

theorem alloc_prop_no_leak:
  assumes "alloc_prop K p s = (pr, s')"
  shows "dtree s' = dtree s \<and> node_refs s' = node_refs s
    \<and> (case pr of None \<Rightarrow> heap s' = heap s
       | Some q \<Rightarrow> q = enc_prop p \<and> heap s' = heap s + (if pr_value q = [] then 2 else 3))"
  using alloc_prop_result [OF assms]
  by (cases pr) (auto simp: prop_result_def enc_prop_def dest: heap_only_sel)

subsection \<open>Nodes\<close>

text \<open>
  The laws of the kernel's device-tree functions: a property is found by its name, a new one is
  appended, an update replaces in place, a call that fails changes nothing, and a lookup by path
  returns a node of the tree.
\<close>

definition has_prop :: "nat \<Rightarrow> string \<Rightarrow> devtree \<Rightarrow> bool" where
  "has_prop n nm t \<longleftrightarrow> (case dt_nodes t n of None \<Rightarrow> False | Some x \<Rightarrow> list_ex (\<lambda>q. pr_name q = nm) (dn_props x))"

definition map_props :: "(of_prop list \<Rightarrow> of_prop list) \<Rightarrow> nat \<Rightarrow> devtree \<Rightarrow> devtree" where
  "map_props f n t = t\<lparr>dt_nodes := (dt_nodes t)(n := map_option (\<lambda>x. x\<lparr>dn_props := f (dn_props x)\<rparr>) (dt_nodes t n))\<rparr>"

definition of_laws :: "'w en_kern \<Rightarrow> bool" where
  "of_laws K \<longleftrightarrow> (\<forall>n nm t. find_property K n nm t = has_prop n nm t)
     \<and> (\<forall>n p t rc t'. of_add_property K n p t = (rc, t') \<longrightarrow> t' = (if rc = 0 then map_props (\<lambda>ps. ps @ [p]) n t else t))
     \<and> (\<forall>n p t rc t'. of_update_property K n p t = (rc, t') \<longrightarrow>
          t' = (if rc = 0 then map_props (map (\<lambda>q. if pr_name q = pr_name p then p else q)) n t else t))
     \<and> (\<forall>p t n. of_find_node_by_path K p t = Some n \<longrightarrow> dt_nodes t n \<noteq> None)"

lemma set_property_new:
  assumes "of_laws K" "pcie_set_property K n (Some p) s = (rc, s')" "\<not> has_prop n (pr_name p) (dtree s)"
  shows "s' = s\<lparr>dtree := (if rc = 0 then map_props (\<lambda>ps. ps @ [p]) n (dtree s) else dtree s)\<rparr>"
proof -
  have f: "\<not> find_property K n (pr_name p) (dtree s)" using assms(1,3) by (simp add: of_laws_def)
  obtain r t where a: "of_add_property K n p (dtree s) = (r, t)" by (metis prod.exhaust)
  have "t = (if r = 0 then map_props (\<lambda>ps. ps @ [p]) n (dtree s) else dtree s)" using assms(1) a unfolding of_laws_def by blast
  with assms(2) f a show ?thesis by (auto simp: pcie_set_property_def split: if_splits)
qed

lemma map_props_comp: "map_props f n (map_props g n t) = map_props (f \<circ> g) n t"
  by (cases "dt_nodes t n") (simp_all add: map_props_def)

lemma set_props_new:
  assumes "of_laws K"
  shows "set_props K n ps s = (0, s') \<Longrightarrow> \<forall>p \<in> set ps. \<not> has_prop n (fst p) (dtree s) \<Longrightarrow> distinct (map fst ps)
    \<Longrightarrow> dtree s' = map_props (\<lambda>qs. qs @ map enc_prop ps) n (dtree s) \<and> node_refs s' = node_refs s \<and> syms s' = syms s"
proof (induction ps arbitrary: s)
  case Nil
  have "map_option (\<lambda>x. x\<lparr>dn_props := dn_props x @ []\<rparr>) (dt_nodes (dtree s) n) = dt_nodes (dtree s) n"
    by (cases "dt_nodes (dtree s) n") simp_all
  with Nil show ?case by (simp add: map_props_def)
next
  case (Cons p ps)
  obtain pr s1 where a: "alloc_prop K p s = (pr, s1)" by (metis prod.exhaust)
  obtain rc s2 where b: "pcie_set_property K n pr s1 = (rc, s2)" by (metis prod.exhaust)
  from Cons.prems(1) a b have rc: "rc = 0" and rest: "set_props K n ps s2 = (0, s')" by (auto split: if_splits)
  from b rc obtain q where pr: "pr = Some q" by (cases pr) (auto simp: pcie_set_property_def)
  note res = alloc_prop_result [OF a]
  have q: "q = enc_prop p" and h: "heap_only s s1" using res pr by (auto simp: prop_result_def enc_prop_def)
  note hs = heap_only_sel [OF h]
  have nm: "pr_name q = fst p" by (simp add: q enc_prop_def)
  have new: "\<not> has_prop n (pr_name q) (dtree s1)" using Cons.prems(2) hs(1) nm by simp
  have s2: "s2 = s1\<lparr>dtree := map_props (\<lambda>ps. ps @ [q]) n (dtree s)\<rparr>"
    using set_property_new [OF assms b [unfolded pr] new] rc hs(1) by simp
  have "\<forall>p' \<in> set ps. \<not> has_prop n (fst p') (dtree s2)"
    using Cons.prems(2,3) nm by (auto simp: s2 has_prop_def map_props_def split: option.splits)
  from Cons.IH [OF rest this] Cons.prems(3) show ?case
    by (simp add: s2 hs q map_props_comp comp_def)
qed

text \<open>A well-formed tree: numbers are handed out in order, a child is an attached node of its parent.\<close>

definition wf_tree :: "devtree \<Rightarrow> bool" where
  "wf_tree t \<longleftrightarrow> (\<forall>n x. dt_nodes t n = Some x \<longrightarrow> n < dt_next t)
     \<and> (\<forall>p. distinct (dt_kids t p) \<and> (\<forall>c \<in> set (dt_kids t p). \<exists>x. dt_nodes t c = Some x \<and> dn_parent x = p \<and> \<not> dn_detached x))"

text \<open>Two trees that differ in properties only.\<close>

definition same_shape :: "devtree \<Rightarrow> devtree \<Rightarrow> bool" where
  "same_shape t t' \<longleftrightarrow> dt_kids t' = dt_kids t \<and> dt_next t' = dt_next t
     \<and> (\<forall>n. map_option (\<lambda>x. x\<lparr>dn_props := []\<rparr>) (dt_nodes t' n) = map_option (\<lambda>x. x\<lparr>dn_props := []\<rparr>) (dt_nodes t n))"

lemma same_shape_refl [simp]: "same_shape t t"
  by (simp add: same_shape_def)

lemma same_shape_trans: "same_shape a b \<Longrightarrow> same_shape b c \<Longrightarrow> same_shape a c"
  by (simp add: same_shape_def)

lemma same_shape_props: "same_shape t (map_props f n t)"
  by (auto simp: same_shape_def map_props_def map_option_case split: option.splits)

lemma same_shape_node:
  assumes "same_shape t t'" "dt_nodes t n = Some x"
  shows "\<exists>y. dt_nodes t' n = Some y \<and> dn_parent y = dn_parent x \<and> dn_detached y = dn_detached x \<and> dn_phandle y = dn_phandle x
    \<and> dn_name y = dn_name x"
proof -
  have "map_option (\<lambda>x. x\<lparr>dn_props := []\<rparr>) (dt_nodes t' n) = Some (x\<lparr>dn_props := []\<rparr>)"
    using assms by (simp add: same_shape_def)
  then obtain y where y: "dt_nodes t' n = Some y" "y\<lparr>dn_props := []\<rparr> = x\<lparr>dn_props := []\<rparr>" by auto
  have "dn_parent y = dn_parent x" "dn_detached y = dn_detached x" "dn_phandle y = dn_phandle x" "dn_name y = dn_name x"
    using arg_cong [OF y(2), of dn_parent] arg_cong [OF y(2), of dn_detached] arg_cong [OF y(2), of dn_phandle] arg_cong [OF y(2), of dn_name]
    by simp_all
  with y(1) show ?thesis by blast
qed

lemma same_shape_sym: "same_shape a b \<Longrightarrow> same_shape b a"
  by (simp add: same_shape_def)

lemma same_shape_wf: "same_shape t t' \<Longrightarrow> wf_tree t \<Longrightarrow> wf_tree t'"
proof -
  assume sh: "same_shape t t'" and wf: "wf_tree t"
  have "n < dt_next t'" if "dt_nodes t' n = Some y" for n y
    using same_shape_node [OF same_shape_sym [OF sh] that] wf sh unfolding wf_tree_def same_shape_def by metis
  moreover have "\<exists>y. dt_nodes t' c = Some y \<and> dn_parent y = p \<and> \<not> dn_detached y" if c: "c \<in> set (dt_kids t' p)" for p c
  proof -
    from wf c sh obtain x where "dt_nodes t c = Some x" "dn_parent x = p" "\<not> dn_detached x"
      unfolding wf_tree_def same_shape_def by metis
    with same_shape_node [OF sh this(1)] show ?thesis by auto
  qed
  moreover have "distinct (dt_kids t' p)" for p using sh wf by (simp add: same_shape_def wf_tree_def)
  ultimately show ?thesis unfolding wf_tree_def by blast
qed

lemma set_property_shape:
  assumes "of_laws K" "pcie_set_property K n p s = (rc, s')"
  shows "same_shape (dtree s) (dtree s') \<and> node_refs s' = node_refs s"
proof (cases p)
  case (Some q)
  obtain r t where a: "of_add_property K n q (dtree s) = (r, t)" by (metis prod.exhaust)
  obtain r2 t2 where u: "of_update_property K n q (dtree s) = (r2, t2)" by (metis prod.exhaust)
  from assms(1) a have "t = (if r = 0 then map_props (\<lambda>ps. ps @ [q]) n (dtree s) else dtree s)"
    unfolding of_laws_def by blast
  moreover from assms(1) u
  have "t2 = (if r2 = 0 then map_props (map (\<lambda>x. if pr_name x = pr_name q then q else x)) n (dtree s) else dtree s)"
    unfolding of_laws_def by blast
  ultimately have "same_shape (dtree s) t" "same_shape (dtree s) t2" by (simp_all add: same_shape_props)
  with assms(2) Some a u show ?thesis by (auto simp: pcie_set_property_def split: if_splits)
qed (use assms in \<open>auto simp: pcie_set_property_def\<close>)

lemma set_props_shape:
  assumes "of_laws K"
  shows "set_props K n ps s = (rc, s') \<Longrightarrow> same_shape (dtree s) (dtree s') \<and> node_refs s' = node_refs s"
proof (induction ps arbitrary: s)
  case (Cons p ps)
  obtain pr s1 where a: "alloc_prop K p s = (pr, s1)" by (metis prod.exhaust)
  obtain r s2 where b: "pcie_set_property K n pr s1 = (r, s2)" by (metis prod.exhaust)
  from alloc_prop_result [OF a] have "heap_only s s1" by (simp add: prop_result_def)
  note hs = heap_only_sel [OF this] and sh = set_property_shape [OF assms b]
  show ?case
  proof (cases "r = 0")
    case True
    with Cons.prems a b have "set_props K n ps s2 = (rc, s')" by simp
    from Cons.IH [OF this] sh hs show ?thesis by (auto intro: same_shape_trans)
  qed (use Cons.prems a b sh hs in auto)
qed simp

text \<open>Allocating and attaching a node.\<close>

definition new_node :: "nat \<Rightarrow> string \<Rightarrow> string \<Rightarrow> u32 \<Rightarrow> devtree \<Rightarrow> dt_node" where
  "new_node parent name unit_name ph t = \<lparr>dn_name = name, dn_full_name = full_name_of parent t @ CHR 0x2F # unit_name,
     dn_parent = parent, dn_phandle = ph, dn_props = [], dn_detached = True\<rparr>"

definition add_node :: "dt_node \<Rightarrow> devtree \<Rightarrow> devtree" where
  "add_node x t = t\<lparr>dt_nodes := (dt_nodes t)(dt_next t \<mapsto> x), dt_next := Suc (dt_next t)\<rparr>"

lemma alloc_node_result:
  assumes "pcie_alloc_node K parent name unit_name ph s = (res, s')"
  shows "node_refs s' = node_refs s \<and> (case res of None \<Rightarrow> dtree s' = dtree s
    | Some n \<Rightarrow> n = dt_next (dtree s) \<and> dtree s' = add_node (new_node parent name unit_name ph (dtree s)) (dtree s))"
proof -
  obtain ok1 s1 where 1: "kmalloc K s = (ok1, s1)" by (metis prod.exhaust)
  obtain ok2 s2 where 2: "kmalloc K s1 = (ok2, s2)" by (metis prod.exhaust)
  obtain ok3 s3 where 3: "kmalloc K s2 = (ok3, s3)" by (metis prod.exhaust)
  from heap_kmalloc [OF 1] heap_kmalloc [OF 2] heap_kmalloc [OF 3] heap_only_trans
  have "heap_only s s1" "heap_only s s2" "heap_only s s3" by blast+
  note h = this [THEN heap_only_sel(1)] this [THEN heap_only_sel(3)]
  show ?thesis using assms 1 2 3 h
    by (auto simp: pcie_alloc_node_def Let_def kfree_def add_node_def new_node_def split: if_splits)
qed

lemma add_node_wf:
  assumes "wf_tree t" "dn_detached x"
  shows "wf_tree (add_node x t)"
proof -
  have "dt_nodes t (dt_next t) = None" using assms(1) unfolding wf_tree_def by (metis less_irrefl not_None_eq)
  then have "dt_next t \<notin> set (dt_kids t p)" for p using assms(1) unfolding wf_tree_def by fastforce
  with assms show ?thesis by (auto simp: wf_tree_def add_node_def less_SucI)
qed

lemma attach_wf:
  assumes "wf_tree (dtree s)" "pcie_attach_node (Some n) s = (rc, s')"
    and "\<And>x. dt_nodes (dtree s) n = Some x \<Longrightarrow> dn_detached x \<and> dn_parent x \<noteq> n"
  shows "wf_tree (dtree s') \<and> node_refs s' = node_refs s"
proof (cases "dt_nodes (dtree s) n")
  case (Some x)
  let ?t = "dtree s"
  from assms(3) [OF Some] have x: "dn_detached x" "dn_parent x \<noteq> n" by simp_all
  have out: "n \<notin> set (dt_kids ?t p)" for p
    using assms(1) Some x(1) unfolding wf_tree_def by (metis option.inject)
  let ?t' = "?t\<lparr>dt_kids := (dt_kids ?t)(n := [], dn_parent x := n # dt_kids ?t (dn_parent x)),
                dt_nodes := (dt_nodes ?t)(n \<mapsto> x\<lparr>dn_detached := False\<rparr>)\<rparr>"
  have s': "dtree s' = ?t'" "node_refs s' = node_refs s" using assms(2) Some by (auto simp: pcie_attach_node_def Let_def)
  have "wf_tree ?t'" using assms(1) Some x out by (auto simp: wf_tree_def)
  with s' show ?thesis by simp
qed (use assms in \<open>auto simp: pcie_attach_node_def\<close>)

text \<open>A node waiting to be attached below \<open>p\<close>.\<close>

definition waiting :: "nat \<Rightarrow> nat \<Rightarrow> devtree \<Rightarrow> bool" where
  "waiting n p t \<longleftrightarrow> (\<exists>x. dt_nodes t n = Some x \<and> dn_detached x \<and> dn_parent x = p)"

lemma waiting_shape: "same_shape t t' \<Longrightarrow> waiting n p t \<Longrightarrow> waiting n p t'"
  unfolding waiting_def using same_shape_node by fastforce

lemma attach_other:
  assumes "pcie_attach_node (Some n) s = (rc, s')" "m \<noteq> n"
  shows "dt_nodes (dtree s') m = dt_nodes (dtree s) m"
  using assms by (auto simp: pcie_attach_node_def Let_def split: option.splits)

lemma attach_waiting:
  assumes "wf_tree (dtree s)" "waiting n p (dtree s)" "p < n" "pcie_attach_node (Some n) s = (rc, s')"
  shows "wf_tree (dtree s') \<and> node_refs s' = node_refs s"
  using assms(2,3) by (intro attach_wf [OF assms(1,4)]) (auto simp: waiting_def)

lemma waiting_other: "pcie_attach_node (Some n) s = (rc, s') \<Longrightarrow> m \<noteq> n \<Longrightarrow> waiting m p (dtree s) \<Longrightarrow> waiting m p (dtree s')"
  by (simp add: waiting_def attach_other)

lemma attach_three_wf:
  assumes "wf_tree (dtree s)" "waiting a p (dtree s)" "waiting b p (dtree s)" "waiting c q (dtree s)"
    and "distinct [a, b, c]" "p < a" "p < b" "q < c" "attach_three a b c s = (rc, s')"
  shows "wf_tree (dtree s') \<and> node_refs s' = node_refs s"
proof -
  from assms(5) have ne: "b \<noteq> a" "c \<noteq> a" "c \<noteq> b" by auto
  obtain r1 s1 where 1: "pcie_attach_node (Some a) s = (r1, s1)" by (metis prod.exhaust)
  obtain r2 s2 where 2: "pcie_attach_node (Some b) s1 = (r2, s2)" by (metis prod.exhaust)
  obtain r3 s3 where 3: "pcie_attach_node (Some c) s2 = (r3, s3)" by (metis prod.exhaust)
  note w1 = attach_waiting [OF assms(1,2,6) 1]
  note w2 = attach_waiting [OF conjunct1 [OF w1] waiting_other [OF 1 ne(1) assms(3)] assms(7) 2]
  note w3 = attach_waiting [OF conjunct1 [OF w2] waiting_other [OF 2 ne(3) waiting_other [OF 1 ne(2) assms(4)]] assms(8) 3]
  show ?thesis using assms(9) 1 2 3 w1 w2 w3 by (auto simp: attach_three_def split: if_splits)
qed

lemma build_nodes_wf:
  assumes K: "of_laws K" and wf: "wf_tree (dtree s)" and "dt_nodes (dtree s) soc \<noteq> None" "dt_nodes (dtree s) rp \<noteq> None"
    and run: "build_nodes K soc ioss grp rp s = (rc, s')"
  shows "wf_tree (dtree s') \<and> node_refs s' = node_refs s"
proof -
  obtain rx s1 where 1: "pcie_alloc_node K soc ''r8125_rx'' ''r8125_rx@eth0'' RTL8125_PHANDLE_RX s = (rx, s1)" by (metis prod.exhaust)
  obtain tx s2 where 2: "pcie_alloc_node K soc ''r8125_tx'' ''r8125_tx@eth0'' RTL8125_PHANDLE_TX s1 = (tx, s2)" by (metis prod.exhaust)
  obtain rt s3 where 3: "pcie_alloc_node K rp ''realtek,rtl8125'' ''realtek,rtl8125@0,0'' 0 s2 = (rt, s3)" by (metis prod.exhaust)
  note a = alloc_node_result [OF 1] alloc_node_result [OF 2] alloc_node_result [OF 3]
  have det: "dn_detached (new_node p nm u ph t)" for p nm u ph t by (simp add: new_node_def)
  have w: "wf_tree (dtree s1)" "wf_tree (dtree s2)" "wf_tree (dtree s3)"
    using a wf add_node_wf [OF _ det] by (auto split: option.splits)
  have refs: "node_refs s3 = node_refs s" using a by simp
  show ?thesis
  proof (cases "rx \<noteq> None \<and> tx \<noteq> None \<and> rt \<noteq> None")
    case False
    with run 1 2 3 w refs show ?thesis by (auto simp: build_nodes_def split: option.splits)
  next
    case True
    then obtain x y z where xyz: "rx = Some x" "tx = Some y" "rt = Some z" by auto
    let ?a = "dt_next (dtree s)"
    have ids: "x = ?a" "y = Suc ?a" "z = Suc (Suc ?a)" using a xyz by (simp_all add: add_node_def)
    have lt: "soc < ?a" "rp < ?a" using assms(2-4) by (auto simp: wf_tree_def)
    have wait: "waiting x soc (dtree s3)" "waiting y soc (dtree s3)" "waiting z rp (dtree s3)"
      using a xyz ids by (simp_all add: waiting_def add_node_def new_node_def)
    obtain r4 s4 where 4: "set_props K x rx_props s3 = (r4, s4)" by (metis prod.exhaust)
    obtain r5 s5 where 5: "set_props K y tx_props s4 = (r5, s5)" by (metis prod.exhaust)
    let ?ps = "rtl8125_props (phandle_of ioss (dtree s5)) (phandle_of grp (dtree s5))"
    obtain r6 s6 where 6: "set_props K z ?ps s5 = (r6, s6)" by (metis prod.exhaust)
    note sh = set_props_shape [OF K 4] set_props_shape [OF K 5] set_props_shape [OF K 6]
    have S: "same_shape (dtree s3) (dtree s4)" "same_shape (dtree s3) (dtree s5)" "same_shape (dtree s3) (dtree s6)"
      using sh same_shape_trans by blast+
    obtain r7 s7 where 7: "attach_three x y z s6 = (r7, s7)" by (metis prod.exhaust)
    have "wf_tree (dtree s7) \<and> node_refs s7 = node_refs s6"
      by (rule attach_three_wf [OF same_shape_wf [OF S(3) w(3)] waiting_shape [OF S(3) wait(1)] waiting_shape [OF S(3) wait(2)]
            waiting_shape [OF S(3) wait(3)] _ _ _ _ 7]) (use ids lt in auto)
    moreover note S [THEN same_shape_wf, OF w(3)]
    ultimately show ?thesis using run 1 2 3 xyz 4 5 6 7 refs sh
      by (auto simp: build_nodes_def split: if_splits)
  qed
qed

subsection \<open>References\<close>

lemma node_ref_alt: "node_ref k n s = s\<lparr>node_refs := \<lambda>x. node_refs s x + (if n = Some x then k else 0)\<rparr>"
proof (cases n)
  case (Some y)
  have "(node_refs s)(y := node_refs s y + k) = (\<lambda>x. node_refs s x + (if n = Some x then k else 0))" using Some by auto
  with Some show ?thesis by (simp add: node_ref_def)
qed (simp add: node_ref_def)

lemma node_ref_sel [simp]: "dtree (node_ref k n s) = dtree s" "syms (node_ref k n s) = syms s"
  "node_refs (node_ref k n s) = (\<lambda>x. node_refs s x + (if n = Some x then k else 0))"
  by (simp_all add: node_ref_alt)

text \<open>No channel node of an earlier load.\<close>

definition first_load :: "'w en_kern \<Rightarrow> devtree \<Rightarrow> bool" where
  "first_load K t \<longleftrightarrow> (\<forall>soc. of_find_node_by_path K ''/soc'' t = Some soc \<longrightarrow> find (has_name ''r8125_rx'' t) (dt_kids t soc) = None)"

lemma nodes_present_result:
  "nodes_present soc rp s = (b, s') \<Longrightarrow> dtree s' = dtree s
    \<and> (find (has_name ''r8125_rx'' (dtree s)) (dt_kids (dtree s) soc) = None \<longrightarrow> \<not> b \<and> s' = s)"
  by (auto simp: nodes_present_def pcie_find_child_by_name_def Let_def node_ref_def split: option.splits prod.splits)

lemma attach_found_wf:
  assumes "of_laws K" "wf_tree (dtree s)" "dt_nodes (dtree s) soc \<noteq> None" "dt_nodes (dtree s) rp \<noteq> None"
    and "attach_found K pcie soc ioss grp rp s = (rc, s')"
  shows "wf_tree (dtree s') \<and> (find (has_name ''r8125_rx'' (dtree s)) (dt_kids (dtree s) soc) = None \<longrightarrow> node_refs s' = node_refs s)"
proof -
  obtain b s1 where 1: "nodes_present soc rp s = (b, s1)" by (metis prod.exhaust)
  note p = nodes_present_result [OF 1]
  obtain r s2 where 2: "set_props K pcie [(''status'', PString ''okay'')] s1 = (r, s2)" by (metis prod.exhaust)
  note q = set_props_shape [OF assms(1) 2]
  obtain r3 s3 where 3: "build_nodes K soc ioss grp rp s2 = (r3, s3)" by (metis prod.exhaust)
  have w2: "wf_tree (dtree s2)" using p q same_shape_wf assms(2) by metis
  have n2: "dt_nodes (dtree s2) soc \<noteq> None" "dt_nodes (dtree s2) rp \<noteq> None"
    using p q assms(3,4) same_shape_node [of "dtree s" "dtree s2"] by fastforce+
  note w3 = build_nodes_wf [OF assms(1) w2 n2 3]
  show ?thesis using assms(2,5) 1 2 3 p q w2 w3 by (auto simp: attach_found_def split: if_splits)
qed

lemma attach_runtime_wf:
  assumes "of_laws K" "wf_tree (dtree s)" "pcie_attach_runtime_nodes K pcie s = (rc, s')"
  shows "wf_tree (dtree s') \<and> (first_load K (dtree s) \<longrightarrow> node_refs s' = node_refs s)"
proof -
  let ?t = "dtree s"
  define soc where "soc = of_find_node_by_path K ''/soc'' ?t"
  define ioss where "ioss = of_find_node_by_path K ''/soc/qcom,ioss'' ?t"
  define grp where "grp = of_find_node_by_path K ''/soc/ipa_eth_group1'' ?t"
  define rp where "rp = find (has_name ''pcie0_rp'' ?t) (dt_kids ?t pcie)"
  define s4 where "s4 = node_ref 1 rp (node_ref 1 grp (node_ref 1 ioss (node_ref 1 soc s)))"
  define r where "r = (case (soc, ioss, grp, rp) of (Some soc, Some ioss, Some grp, Some rp) \<Rightarrow> attach_found K pcie soc ioss grp rp s4
              | _ \<Rightarrow> (- ENODEV, s4))"
  have s': "s' = node_ref (- 1) soc (node_ref (- 1) ioss (node_ref (- 1) grp (node_ref (- 1) rp (snd r))))"
    using assms(3) unfolding pcie_attach_runtime_nodes_def find_node_by_path_def pcie_find_child_by_name_def Let_def
      prod.case node_ref_sel soc_def [symmetric] ioss_def [symmetric] grp_def [symmetric] rp_def [symmetric] s4_def [symmetric]
    by (auto simp: r_def case_prod_beta)
  have t4: "dtree s4 = ?t" by (simp add: s4_def)
  have "wf_tree (dtree (snd r)) \<and> (first_load K ?t \<longrightarrow> node_refs (snd r) = node_refs s4)"
  proof (cases "soc \<noteq> None \<and> ioss \<noteq> None \<and> grp \<noteq> None \<and> rp \<noteq> None")
    case True
    then obtain a b c d where f: "soc = Some a" "ioss = Some b" "grp = Some c" "rp = Some d" by auto
    have ex: "dt_nodes ?t a \<noteq> None" using assms(1) f(1) unfolding of_laws_def soc_def by blast
    have dn: "dt_nodes ?t d \<noteq> None"
      using f(4) by (auto simp: rp_def find_Some_iff has_name_def split: option.splits)
    from f have r: "attach_found K pcie a b c d s4 = (fst r, snd r)" by (simp add: r_def)
    have fl: "first_load K ?t \<Longrightarrow> find (has_name ''r8125_rx'' ?t) (dt_kids ?t a) = None"
      using f(1) by (simp add: first_load_def soc_def)
    from attach_found_wf [OF assms(1) _ _ _ r] assms(2) ex dn t4 fl show ?thesis by auto
  next
    case False
    then have "snd r = s4" by (auto simp: r_def split: option.splits)
    with assms(2) t4 show ?thesis by simp
  qed
  moreover have "(\<lambda>x. node_refs s4 x + (if rp = Some x then - 1 else 0) + (if grp = Some x then - 1 else 0)
      + (if ioss = Some x then - 1 else 0) + (if soc = Some x then - 1 else 0)) = node_refs s" by (auto simp: s4_def)
  ultimately show ?thesis by (simp add: s')
qed

lemma resolve_result: "pcie_resolve_symbols K addr s = (rc, s') \<Longrightarrow> dtree s' = dtree s \<and> node_refs s' = node_refs s"
  by (auto simp: pcie_resolve_symbols_def Let_def split: if_splits)

lemma find_first_result: "find_first_compatible K cs s = (n, s') \<Longrightarrow> s' = node_ref 1 n s"
proof (induction cs)
  case (Cons c cs)
  then show ?case
    by (auto simp: find_compatible_node_def Let_def node_ref_def split: option.splits)
qed (simp add: node_ref_def)

lemma find_pcie_result: "find_pcie_node K s = (n, s') \<Longrightarrow> s' = node_ref 1 n s"
proof (cases "of_find_node_by_path K ''/soc/qcom,pcie@1c00000'' (dtree s)")
  case None
  moreover assume "find_pcie_node K s = (n, s')"
  ultimately have "find_first_compatible K [''qcom,pci-msm'', ''qcom,pcie-sdx65'', ''qcom,pcie-sdx62'', ''snps,dw-pcie''] s = (n, s')"
    by (simp add: find_pcie_node_def find_node_by_path_def node_ref_def del: find_first_compatible.simps)
  then show ?thesis by (rule find_first_result)
qed (auto simp: find_pcie_node_def find_node_by_path_def Let_def)

text \<open>Nothing below \<open>pcie_attach_runtime_nodes\<close> assigns \<open>pcie_node\<close>.\<close>

lemma pcie_node_frames:
  "kmalloc K s = (ok, s') \<Longrightarrow> pcie_node s' = pcie_node s" "pcie_node (kfree s) = pcie_node s" "pcie_node (node_ref k n s) = pcie_node s"
  by (auto simp: kmalloc_def kfree_def node_ref_alt split: prod.splits)

lemma heap_only_pcie: "heap_only s s' \<Longrightarrow> pcie_node s' = pcie_node s"
  by (auto simp: heap_only_def)

lemma set_props_pcie: "set_props K n ps s = (rc, s') \<Longrightarrow> pcie_node s' = pcie_node s"
proof (induction ps arbitrary: s)
  case (Cons p ps)
  obtain pr s1 where a: "alloc_prop K p s = (pr, s1)" by (metis prod.exhaust)
  obtain r s2 where b: "pcie_set_property K n pr s1 = (r, s2)" by (metis prod.exhaust)
  have "pcie_node s1 = pcie_node s" using alloc_prop_result [OF a] by (simp add: prop_result_def heap_only_pcie)
  moreover have "pcie_node s2 = pcie_node s1"
    using b by (auto simp: pcie_set_property_def split: option.splits if_splits prod.splits)
  ultimately show ?case using Cons.prems Cons.IH [of s2] a b by (auto split: if_splits)
qed simp

lemma alloc_node_pcie: "pcie_alloc_node K p nm u ph s = (n, s') \<Longrightarrow> pcie_node s' = pcie_node s"
  by (auto simp: pcie_alloc_node_def Let_def pcie_node_frames split: prod.splits if_splits dest!: pcie_node_frames(1))

lemma attach_node_pcie: "pcie_attach_node n s = (rc, s') \<Longrightarrow> pcie_node s' = pcie_node s"
  by (auto simp: pcie_attach_node_def Let_def split: option.splits)

lemma build_nodes_pcie: "build_nodes K soc ioss grp rp s = (rc, s') \<Longrightarrow> pcie_node s' = pcie_node s"
  by (auto simp: build_nodes_def attach_three_def split: prod.splits option.splits if_splits
      dest!: alloc_node_pcie set_props_pcie attach_node_pcie)

lemma attach_runtime_pcie: "pcie_attach_runtime_nodes K p s = (rc, s') \<Longrightarrow> pcie_node s' = pcie_node s"
  by (auto simp: pcie_attach_runtime_nodes_def find_node_by_path_def pcie_find_child_by_name_def Let_def attach_found_def
      nodes_present_def pcie_node_frames split: prod.splits option.splits if_splits
      dest!: build_nodes_pcie set_props_pcie simp del: set_props.simps)

text \<open>What a load leaves behind, on every path.\<close>

lemma init_result:
  assumes "of_laws K" "wf_tree (dtree s)" "pcie_enabler_non_es_init K addr s = (rc, s')"
  shows "wf_tree (dtree s') \<and> (first_load K (dtree s) \<longrightarrow>
    node_refs s' = (\<lambda>x. node_refs s x + (if rc = 0 \<and> pcie_node s' = Some x then 1 else 0)))"
proof -
  obtain r1 s1 where 1: "pcie_resolve_symbols K addr s = (r1, s1)" by (metis prod.exhaust)
  note p1 = resolve_result [OF 1]
  obtain n s2 where 2: "find_pcie_node K s1 = (n, s2)" by (metis prod.exhaust)
  note p2 = find_pcie_result [OF 2]
  let ?s = "s2\<lparr>pcie_node := n\<rparr>"
  show ?thesis
  proof (cases "r1 = 0 \<and> n \<noteq> None")
    case False
    with assms(2,3) 1 2 p1 p2 show ?thesis
      by (auto simp: pcie_enabler_non_es_init_def Let_def split: if_splits)
  next
    case True
    then obtain pc where n: "n = Some pc" by auto
    obtain r3 s3 where 3: "pcie_attach_runtime_nodes K pc ?s = (r3, s3)" by (metis prod.exhaust)
    have t2: "dtree ?s = dtree s" using p1 p2 by simp
    from attach_runtime_wf [OF assms(1) _ 3] assms(2) t2
    have p3: "wf_tree (dtree s3)" "first_load K (dtree s) \<longrightarrow> node_refs s3 = node_refs ?s" by simp_all
    have refs: "node_refs ?s = (\<lambda>x. node_refs s x + (if n = Some x then 1 else 0))" using p1 p2 by simp
    show ?thesis
    proof (cases "r3 = 0")
      case False
      with assms(3) 1 2 3 n True p3 refs show ?thesis
        by (auto simp: pcie_enabler_non_es_init_def Let_def fun_eq_iff)
    next
      case ok: True
      have "pcie_node s3 = n" using attach_runtime_pcie [OF 3] by simp
      with assms(3) 1 2 3 n True ok p3 refs show ?thesis
        by (auto simp: pcie_enabler_non_es_init_def Let_def start_pmds_recheck_def pass_state split: prod.splits)
    qed
  qed
qed

text \<open>
  C19. The device tree stays well formed: on every path of a load, successful or not, node numbers
  are handed out in order, every child list is free of repetitions and its members are attached
  nodes that name that parent, and no node that was allocated but not attached is reachable.
\<close>

theorem load_keeps_tree_wf:
  assumes "of_laws K" "wf_tree (dtree s)"
  shows "wf_tree (dtree (snd (pcie_enabler_non_es_init K addr s)))"
  using init_result [OF assms] by (metis prod.collapse)


text \<open>
  A second load finds the nodes of the first and keeps a reference on each of the three for ever.
\<close>

lemma reload_leaks_references:
  assumes "find (has_name ''r8125_rx'' (dtree s)) (dt_kids (dtree s) soc) = Some a"
    and "find (has_name ''r8125_tx'' (dtree s)) (dt_kids (dtree s) soc) = Some b"
    and "find (has_name ''realtek,rtl8125'' (dtree s)) (dt_kids (dtree s) rp) = Some c"
  shows "attach_found K pcie soc ioss grp rp s = (0, node_ref 1 (Some c) (node_ref 1 (Some b) (node_ref 1 (Some a) s)))"
  using assms by (simp add: attach_found_def nodes_present_def pcie_find_child_by_name_def Let_def)

subsection \<open>The nodes built\<close>

definition node_is :: "nat \<Rightarrow> string \<Rightarrow> nat \<Rightarrow> u32 \<Rightarrow> (string \<times> prop_value) list \<Rightarrow> devtree \<Rightarrow> bool" where
  "node_is n name parent ph ps t \<longleftrightarrow> (\<exists>x. dt_nodes t n = Some x \<and> dn_name x = name \<and> dn_parent x = parent \<and> dn_phandle x = ph
     \<and> dn_props x = map enc_prop ps \<and> \<not> dn_detached x)"

lemma set_props_fresh:
  assumes "of_laws K" "set_props K n ps s = (0, s')" "dt_nodes (dtree s) n = Some x" "dn_props x = []" "distinct (map fst ps)"
  shows "dt_nodes (dtree s') = (dt_nodes (dtree s))(n \<mapsto> x\<lparr>dn_props := map enc_prop ps\<rparr>)
    \<and> dt_kids (dtree s') = dt_kids (dtree s) \<and> dt_next (dtree s') = dt_next (dtree s)"
proof -
  have "\<forall>p \<in> set ps. \<not> has_prop n (fst p) (dtree s)" using assms(3,4) by (simp add: has_prop_def)
  from set_props_new [OF assms(1,2) this assms(5)] assms(3,4) show ?thesis by (simp add: map_props_def)
qed

lemma props_distinct: "distinct (map fst rx_props)" "distinct (map fst tx_props)" "distinct (map fst (rtl8125_props a b))"
  by (simp_all add: rx_props_def tx_props_def rtl8125_props_def)

lemma attach_node_ok:
  assumes "dt_nodes (dtree s) n = Some x"
  shows "\<exists>s'. pcie_attach_node (Some n) s = (0, s') \<and> dt_nodes (dtree s') = (dt_nodes (dtree s))(n \<mapsto> x\<lparr>dn_detached := False\<rparr>)
    \<and> dt_kids (dtree s') = (dt_kids (dtree s))(n := [], dn_parent x := n # dt_kids (dtree s) (dn_parent x))"
  using assms by (simp add: pcie_attach_node_def Let_def)

lemma attach_three_ok:
  assumes "dt_nodes (dtree s) a = Some x" "dt_nodes (dtree s) b = Some y" "dt_nodes (dtree s) c = Some z" "distinct [a, b, c]"
    and "dn_parent x = p" "dn_parent y = p" "dn_parent z = q" "p \<noteq> q" "p \<notin> {a, b, c}" "q \<notin> {a, b, c}"
    and "attach_three a b c s = (rc, s')"
  shows "dt_nodes (dtree s') = (dt_nodes (dtree s))(a \<mapsto> x\<lparr>dn_detached := False\<rparr>, b \<mapsto> y\<lparr>dn_detached := False\<rparr>, c \<mapsto> z\<lparr>dn_detached := False\<rparr>)
    \<and> dt_kids (dtree s') p = b # a # dt_kids (dtree s) p \<and> dt_kids (dtree s') q = c # dt_kids (dtree s) q \<and> dt_kids (dtree s') c = []"
proof -
  from attach_node_ok [OF assms(1)] obtain s1 where 1: "pcie_attach_node (Some a) s = (0, s1)"
    "dt_nodes (dtree s1) = (dt_nodes (dtree s))(a \<mapsto> x\<lparr>dn_detached := False\<rparr>)"
    "dt_kids (dtree s1) = (dt_kids (dtree s))(a := [], p := a # dt_kids (dtree s) p)" using assms(5) by blast
  have y1: "dt_nodes (dtree s1) b = Some y" "dt_nodes (dtree s1) c = Some z" using 1(2) assms(2,3,4) by auto
  from attach_node_ok [OF y1(1)] obtain s2 where 2: "pcie_attach_node (Some b) s1 = (0, s2)"
    "dt_nodes (dtree s2) = (dt_nodes (dtree s1))(b \<mapsto> y\<lparr>dn_detached := False\<rparr>)"
    "dt_kids (dtree s2) = (dt_kids (dtree s1))(b := [], p := b # dt_kids (dtree s1) p)" using assms(6) by blast
  have z2: "dt_nodes (dtree s2) c = Some z" using 2(2) y1(2) assms(4) by auto
  from attach_node_ok [OF z2] obtain s3 where 3: "pcie_attach_node (Some c) s2 = (0, s3)"
    "dt_nodes (dtree s3) = (dt_nodes (dtree s2))(c \<mapsto> z\<lparr>dn_detached := False\<rparr>)"
    "dt_kids (dtree s3) = (dt_kids (dtree s2))(c := [], q := c # dt_kids (dtree s2) q)" using assms(7) by blast
  have "s' = s3" using assms(11) 1(1) 2(1) 3(1) by (simp add: attach_three_def)
  with 1 2 3 assms(4,8,9,10) show ?thesis by (auto simp: fun_upd_twist)
qed

lemma build_nodes_ok:
  assumes K: "of_laws K" and wf: "wf_tree (dtree s)" and ex: "dt_nodes (dtree s) soc \<noteq> None" "dt_nodes (dtree s) rp \<noteq> None"
      "dt_nodes (dtree s) ioss \<noteq> None" "dt_nodes (dtree s) grp \<noteq> None"
    and ne: "soc \<noteq> rp" and run: "build_nodes K soc ioss grp rp s = (0, s')"
  defines "a \<equiv> dt_next (dtree s)"
  shows "node_is a ''r8125_rx'' soc RTL8125_PHANDLE_RX rx_props (dtree s')
    \<and> node_is (a + 1) ''r8125_tx'' soc RTL8125_PHANDLE_TX tx_props (dtree s')
    \<and> node_is (a + 2) ''realtek,rtl8125'' rp 0 (rtl8125_props (phandle_of ioss (dtree s)) (phandle_of grp (dtree s))) (dtree s')
    \<and> dt_kids (dtree s') soc = (a + 1) # a # dt_kids (dtree s) soc \<and> dt_kids (dtree s') rp = (a + 2) # dt_kids (dtree s) rp
    \<and> dt_kids (dtree s') (a + 2) = [] \<and> (\<forall>n. n \<noteq> a \<and> n \<noteq> a + 1 \<and> n \<noteq> a + 2 \<longrightarrow> dt_nodes (dtree s') n = dt_nodes (dtree s) n)"
proof -
  obtain rx s1 where 1: "pcie_alloc_node K soc ''r8125_rx'' ''r8125_rx@eth0'' RTL8125_PHANDLE_RX s = (rx, s1)" by (metis prod.exhaust)
  obtain tx s2 where 2: "pcie_alloc_node K soc ''r8125_tx'' ''r8125_tx@eth0'' RTL8125_PHANDLE_TX s1 = (tx, s2)" by (metis prod.exhaust)
  obtain rt s3 where 3: "pcie_alloc_node K rp ''realtek,rtl8125'' ''realtek,rtl8125@0,0'' 0 s2 = (rt, s3)" by (metis prod.exhaust)
  note al = alloc_node_result [OF 1] alloc_node_result [OF 2] alloc_node_result [OF 3]
  from run 1 2 3 have some: "rx \<noteq> None" "tx \<noteq> None" "rt \<noteq> None" by (auto simp: build_nodes_def split: option.splits)
  define x where "x = new_node soc ''r8125_rx'' ''r8125_rx@eth0'' RTL8125_PHANDLE_RX (dtree s)"
  define y where "y = new_node soc ''r8125_tx'' ''r8125_tx@eth0'' RTL8125_PHANDLE_TX (dtree s1)"
  define z where "z = new_node rp ''realtek,rtl8125'' ''realtek,rtl8125@0,0'' 0 (dtree s2)"
  have ids: "rx = Some a" "tx = Some (a + 1)" "rt = Some (a + 2)"
    and t3: "dtree s3 = add_node z (add_node y (add_node x (dtree s)))"
    using al some by (auto simp: add_node_def a_def x_def y_def z_def)
  have n3: "dt_nodes (dtree s3) = (dt_nodes (dtree s))(a \<mapsto> x, a + 1 \<mapsto> y, a + 2 \<mapsto> z)" "dt_kids (dtree s3) = dt_kids (dtree s)"
    using t3 by (simp_all add: add_node_def a_def)
  have lt: "soc < a" "rp < a" "ioss < a" "grp < a" using wf ex by (auto simp: wf_tree_def a_def)
  obtain r4 s4 where 4: "set_props K a rx_props s3 = (r4, s4)" by (metis prod.exhaust)
  obtain r5 s5 where 5: "set_props K (a + 1) tx_props s4 = (r5, s5)" by (metis prod.exhaust)
  let ?g = "(phandle_of ioss (dtree s5), phandle_of grp (dtree s5))"
  obtain r6 s6 where 6: "set_props K (a + 2) (rtl8125_props (fst ?g) (snd ?g)) s5 = (r6, s6)" by (metis prod.exhaust)
  from run 1 2 3 ids 4 5 6 have z0: "r4 = 0" "r5 = 0" "r6 = 0" and 7: "attach_three a (a + 1) (a + 2) s6 = (0, s')"
    by (auto simp: build_nodes_def split: if_splits)
  have e: "dn_props x = []" "dn_props y = []" "dn_props z = []" by (simp_all add: x_def y_def z_def new_node_def)
  have f4: "dt_nodes (dtree s4) = (dt_nodes (dtree s3))(a \<mapsto> x\<lparr>dn_props := map enc_prop rx_props\<rparr>) \<and> dt_kids (dtree s4) = dt_kids (dtree s)"
    using set_props_fresh [OF K 4 [unfolded z0] _ e(1) props_distinct(1)] n3 by simp
  have f5: "dt_nodes (dtree s5) = (dt_nodes (dtree s4))(a + 1 \<mapsto> y\<lparr>dn_props := map enc_prop tx_props\<rparr>) \<and> dt_kids (dtree s5) = dt_kids (dtree s)"
    using set_props_fresh [OF K 5 [unfolded z0] _ e(2) props_distinct(2)] n3 f4 by simp
  have f6: "dt_nodes (dtree s6) = (dt_nodes (dtree s5))(a + 2 \<mapsto> z\<lparr>dn_props := map enc_prop (rtl8125_props (fst ?g) (snd ?g))\<rparr>)
      \<and> dt_kids (dtree s6) = dt_kids (dtree s)"
    using set_props_fresh [OF K 6 [unfolded z0] _ e(3) props_distinct(3)] n3 f4 f5 by simp
  let ?x = "x\<lparr>dn_props := map enc_prop rx_props\<rparr>" and ?y = "y\<lparr>dn_props := map enc_prop tx_props\<rparr>"
    and ?z = "z\<lparr>dn_props := map enc_prop (rtl8125_props (fst ?g) (snd ?g))\<rparr>"
  have fin: "dt_nodes (dtree s') = (dt_nodes (dtree s6))(a \<mapsto> ?x\<lparr>dn_detached := False\<rparr>, a + 1 \<mapsto> ?y\<lparr>dn_detached := False\<rparr>, a + 2 \<mapsto> ?z\<lparr>dn_detached := False\<rparr>)
    \<and> dt_kids (dtree s') soc = (a + 1) # a # dt_kids (dtree s6) soc \<and> dt_kids (dtree s') rp = (a + 2) # dt_kids (dtree s6) rp
    \<and> dt_kids (dtree s') (a + 2) = []"
    by (rule attach_three_ok [OF _ _ _ _ _ _ _ ne _ _ 7]) (use lt n3 f4 f5 f6 in \<open>auto simp: x_def y_def z_def new_node_def\<close>)
  show ?thesis
  proof (intro conjI)
    have "phandle_of ioss (dtree s5) = phandle_of ioss (dtree s)" "phandle_of grp (dtree s5) = phandle_of grp (dtree s)"
      using lt n3 f4 f5 by (simp_all add: phandle_of_def)
    then show "node_is (a + 2) ''realtek,rtl8125'' rp 0 (rtl8125_props (phandle_of ioss (dtree s)) (phandle_of grp (dtree s))) (dtree s')"
      using fin by (simp add: node_is_def z_def new_node_def)
    show "node_is a ''r8125_rx'' soc RTL8125_PHANDLE_RX rx_props (dtree s')"
      "node_is (a + 1) ''r8125_tx'' soc RTL8125_PHANDLE_TX tx_props (dtree s')"
      using fin by (simp_all add: node_is_def x_def y_def new_node_def)
    show "\<forall>n. n \<noteq> a \<and> n \<noteq> a + 1 \<and> n \<noteq> a + 2 \<longrightarrow> dt_nodes (dtree s') n = dt_nodes (dtree s) n" using fin n3 f4 f5 f6 by simp
  qed (use fin f6 in simp_all)
qed

text \<open>
  C21. A load that builds the nodes builds exactly what it means to: three new nodes with their
  names, parents, phandles and all their properties byte for byte, the two channels below the
  bus, the controller below the root port, in front of the existing children; the references to
  the offload root and to the IOMMU group are those nodes' phandles; no existing node changes.
\<close>

theorem runtime_nodes_built:
  assumes "of_laws K" "wf_tree (dtree s)" "dt_nodes (dtree s) soc \<noteq> None" "dt_nodes (dtree s) rp \<noteq> None"
    and "dt_nodes (dtree s) ioss \<noteq> None" "dt_nodes (dtree s) grp \<noteq> None"
    and "soc \<noteq> rp" "build_nodes K soc ioss grp rp s = (0, s')"
  defines "a \<equiv> dt_next (dtree s)"
  shows "node_is a ''r8125_rx'' soc RTL8125_PHANDLE_RX rx_props (dtree s')
    \<and> node_is (a + 1) ''r8125_tx'' soc RTL8125_PHANDLE_TX tx_props (dtree s')
    \<and> node_is (a + 2) ''realtek,rtl8125'' rp 0 (rtl8125_props (phandle_of ioss (dtree s)) (phandle_of grp (dtree s))) (dtree s')
    \<and> dt_kids (dtree s') soc = (a + 1) # a # dt_kids (dtree s) soc \<and> dt_kids (dtree s') rp = (a + 2) # dt_kids (dtree s) rp
    \<and> dt_kids (dtree s') (a + 2) = [] \<and> (\<forall>n. n \<noteq> a \<and> n \<noteq> a + 1 \<and> n \<noteq> a + 2 \<longrightarrow> dt_nodes (dtree s') n = dt_nodes (dtree s) n)"
  using build_nodes_ok [OF assms(1-8)] by (simp add: a_def)

subsection \<open>What the offload subsystem makes of the nodes\<close>

text \<open>
  The device-tree interface the offload subsystem reads the tree through: names and children are
  those of the tree; a property holding a list of phandles is counted and resolved entry by entry.
\<close>

definition reads_tree :: "nat of_api \<Rightarrow> devtree \<Rightarrow> bool" where
  "reads_tree T t \<longleftrightarrow> (\<forall>n x. dt_nodes t n = Some x \<longrightarrow> of_node_name T n = dn_name x) \<and> (\<forall>n. of_children T n = dt_kids t n)
     \<and> (\<forall>n x nm phs. dt_nodes t n = Some x \<and> \<lparr>pr_name = nm, pr_value = concat (map cpu_to_be32 phs)\<rparr> \<in> set (dn_props x) \<longrightarrow>
          of_count_phandle T n nm = int (length phs)
          \<and> (\<forall>i m. of_parse_phandle T n nm i = Some m \<longrightarrow> i < length phs \<and> (\<exists>y. dt_nodes t m = Some y \<and> dn_phandle y = phs ! i)))"

lemma no_channel_found:
  assumes "reads_tree T t" "dt_nodes t np = Some x" "\<lparr>pr_name = ''qcom,ioss_channels'', pr_value = concat (map cpu_to_be32 phs)\<rparr> \<in> set (dn_props x)"
    and "dt_kids t np = []" "\<And>m y. dt_nodes t m = Some y \<Longrightarrow> dn_phandle y = phs ! 0 \<Longrightarrow> \<not> is_channel_name (dn_name y)"
  shows "ioss_of_parse_one T K np 0 d w = (- EINVAL, d, w)"
proof -
  have "\<not> is_channel_name (of_node_name T m)" if m: "of_parse_phandle T np ''qcom,ioss_channels'' 0 = Some m" for m
  proof -
    from assms(1-3) m obtain y where y: "dt_nodes t m = Some y" "dn_phandle y = phs ! 0" unfolding reads_tree_def by blast
    moreover from assms(1) y(1) have "of_node_name T m = dn_name y" unfolding reads_tree_def by blast
    ultimately show ?thesis using assms(5) by simp
  qed
  moreover have "of_children T np = []" using assms(1,4) by (simp add: reads_tree_def)
  ultimately show ?thesis
    by (simp add: ioss_of_parse_one_def Let_def ioss_of_find_fallback_channel_def nth_opt_def split: option.split)
qed

lemma parse_v2_fails:
  assumes "reads_tree T t" "dt_nodes t np = Some x" "\<lparr>pr_name = ''qcom,ioss_channels'', pr_value = concat (map cpu_to_be32 phs)\<rparr> \<in> set (dn_props x)"
    and "phs \<noteq> []" "dt_kids t np = []" "\<And>m y. dt_nodes t m = Some y \<Longrightarrow> dn_phandle y = phs ! 0 \<Longrightarrow> \<not> is_channel_name (dn_name y)"
    and "channels (interface d) = []" "of_parse_matched T K np d w = (rc, d', w')"
  shows "rc \<noteq> 0 \<and> channels (interface d') = [] \<and> real_dev d' = real_dev d"
proof -
  have one: "ioss_of_parse_one T K np 0 d w = (- EINVAL, d, w)" for d w
    by (rule no_channel_found [OF assms(1,2,3,5,6)])
  have cnt: "of_count_phandle T np ''qcom,ioss_channels'' = int (length phs)"
    using assms(1,2,3) unfolding reads_tree_def by blast
  obtain n where n: "length phs = Suc n" using assms(4) by (cases phs) auto
  have loop: "ioss_of_parse_loop T K np (nat (of_count_phandle T np ''qcom,ioss_channels'')) 0 d w = (- EINVAL, d, w)" for d w
    unfolding cnt n nat_int by (simp add: one)
  show ?thesis using assms(7,8)
    by (auto simp: of_parse_matched_def ioss_of_parse_v2_def Let_def loop split: if_splits prod.splits option.splits)
qed

text \<open>
  The channel nodes the enabler adds are never used: the offload subsystem only accepts
  channel nodes whose name begins with \<^verbatim>\<open>channel-\<close>, and these are called \<^verbatim>\<open>r8125_rx\<close> and
  \<^verbatim>\<open>r8125_tx\<close>. A Realtek device bound to the new node therefore gets the built-in channels, whose
  receive ring has 1023 entries, not the 1024 the node asks for.
\<close>

theorem enabler_channels_unused:
  fixes d d' :: "'r ioss_device"
  assumes "of_laws K" "wf_tree (dtree s)" "dt_nodes (dtree s) soc \<noteq> None" "dt_nodes (dtree s) rp \<noteq> None"
    and "dt_nodes (dtree s) ioss \<noteq> None" "dt_nodes (dtree s) grp \<noteq> None"
    and "soc \<noteq> rp" "build_nodes K soc ioss grp rp s = (0, s')"
    and unused: "\<And>n x. dt_nodes (dtree s) n = Some x \<Longrightarrow> dn_phandle x \<noteq> RTL8125_PHANDLE_RX"
    and tree: "reads_tree T (dtree s')" and dev: "ioss_is_r8125_pci_dev d" "channels (interface d) = []"
    and parse: "ioss_of_parse T M root (Some (dt_next (dtree s) + 2)) d w = (0, d', w')"
  shows "map (\<lambda>ch. (direction ch, ring_size (default_config ch))) (channels (interface d')) = [(CH_DIR_RX, 1023), (CH_DIR_TX, 1024)]"
proof -
  let ?a = "dt_next (dtree s)" and ?t = "dtree s'"
  note built = build_nodes_ok [OF assms(1-8)]
  then obtain x where x: "dt_nodes ?t (?a + 2) = Some x" "dn_phandle x = 0"
      "dn_props x = map enc_prop (rtl8125_props (phandle_of ioss (dtree s)) (phandle_of grp (dtree s)))" by (auto simp: node_is_def)
  have pr: "\<lparr>pr_name = ''qcom,ioss_channels'', pr_value = concat (map cpu_to_be32 [RTL8125_PHANDLE_RX, RTL8125_PHANDLE_TX])\<rparr> \<in> set (dn_props x)"
    by (simp add: x(3) rtl8125_props_def enc_prop_def)
  have nm: "\<not> is_channel_name (dn_name y)" if y: "dt_nodes ?t m = Some y" "dn_phandle y = [RTL8125_PHANDLE_RX, RTL8125_PHANDLE_TX] ! 0" for m y
  proof -
    consider "m = ?a" | "m = ?a + 1" | "m = ?a + 2" | "m \<noteq> ?a \<and> m \<noteq> ?a + 1 \<and> m \<noteq> ?a + 2" by blast
    then show ?thesis
    proof cases
      case 4
      with built y(1) have "dt_nodes (dtree s) m = Some y" by metis
      with unused y(2) show ?thesis by auto
    qed (use built y x in \<open>auto simp: node_is_def is_channel_name_def\<close>)
  qed
  have kids: "dt_kids ?t (?a + 2) = []" using built by blast
  define np where "np = ?a + 2"
  have fail: "rc \<noteq> 0 \<and> channels (interface e') = [] \<and> real_dev e' = real_dev d"
    if "of_parse_matched T M np d w = (rc, e', v')" for rc e' v'
    by (rule parse_v2_fails [OF tree x(1) pr _ kids _ dev(2) that [unfolded np_def]]) (use nm in auto)
  have fb: "channels (interface e') = [fallback_channel CH_DIR_RX, fallback_channel CH_DIR_TX]"
    if "ioss_of_parse_r8125_fallback M e v = (0, e', v')" "channels (interface e) = []" for e e' :: "'r ioss_device" and v v'
    using that by (auto simp: ioss_of_parse_r8125_fallback_def ioss_of_add_fallback_channel_def alloc_channel_def Let_def
        split: prod.splits if_splits)
  have "channels (interface d') = [fallback_channel CH_DIR_RX, fallback_channel CH_DIR_TX]"
    using parse [folded np_def] dev unfolding ioss_of_parse_def
    by (auto split: option.splits if_splits prod.splits dest!: fail fb)
  then show ?thesis by (simp add: fallback_channel_def)
qed

subsection \<open>Examples\<close>

text \<open>A kernel in which every call succeeds, and a tree with the nodes the module looks for.\<close>

definition path_lookup :: "string \<Rightarrow> devtree \<Rightarrow> nat option" where
  "path_lookup p t = find (\<lambda>n. case dt_nodes t n of None \<Rightarrow> False | Some x \<Rightarrow> dn_full_name x = p) [0 ..< dt_next t]"

definition ok_en :: "unit en_kern" where
  "ok_en = \<lparr>en_alloc = (\<lambda>w. (True, w)), kallsyms_lookup_name = (\<lambda>_. True), of_find_node_by_path = path_lookup,
     of_find_compatible_node = (\<lambda>_ _. None), find_property = has_prop,
     of_add_property = (\<lambda>n p t. (0, map_props (\<lambda>ps. ps @ [p]) n t)),
     of_update_property = (\<lambda>n p t. (0, map_props (map (\<lambda>q. if pr_name q = pr_name p then p else q)) n t)),
     of_platform_device_create = (\<lambda>n w. (Some 0, w)), of_device_unregister = (\<lambda>d w. w),
     platform_bus = [(''soc:ipa_smmu_ap'', 0), (''soc:ipa_smmu_eth'', 1)], iommu_get_domain_for_dev = Some, pgtbl_ops = Some,
     is_vmalloc_addr = (\<lambda>a. a \<ge> 0xf0000000)\<rparr>"

definition old_node :: "string \<Rightarrow> string \<Rightarrow> nat \<Rightarrow> u32 \<Rightarrow> dt_node" where
  "old_node nm full p ph = \<lparr>dn_name = nm, dn_full_name = full, dn_parent = p, dn_phandle = ph, dn_props = [], dn_detached = False\<rparr>"

definition demo_dt :: devtree where
  "demo_dt = \<lparr>dt_nodes = [0 \<mapsto> old_node '''' ''/'' 0 0, 1 \<mapsto> old_node ''soc'' ''/soc'' 0 0, 2 \<mapsto> old_node ''qcom,ioss'' ''/soc/qcom,ioss'' 1 7,
       3 \<mapsto> old_node ''ipa_eth_group1'' ''/soc/ipa_eth_group1'' 1 8, 4 \<mapsto> old_node ''qcom,pcie'' ''/soc/qcom,pcie@1c00000'' 1 9,
       5 \<mapsto> old_node ''pcie0_rp'' ''pcie0_rp'' 4 10],
     dt_kids = (\<lambda>_. [])(0 := [1], 1 := [2, 3, 4], 4 := [5]), dt_next = 6\<rparr>"

definition demo_en :: "unit en_state" where
  "demo_en = \<lparr>kw = (), dtree = demo_dt, node_refs = (\<lambda>_. 1), heap = 0, syms = (\<lambda>_. True), pcie_node = None, pcie_pdev = None,
     pg = (\<lambda>n. \<lparr>pmds = 0xf0000000 + word_of_nat n, pg_base = 0, pg_end = 0xffffffff\<rparr>), dev_refs = (\<lambda>_. 0),
     pmds_recheck_count = 0, recheck_queued = False\<rparr>"

lemma ok_en_laws: "of_laws ok_en"
  by (auto simp: of_laws_def ok_en_def path_lookup_def find_Some_iff split: option.splits)

lemma demo_en_wf: "wf_tree (dtree demo_en)"
  by (simp add: wf_tree_def demo_en_def demo_dt_def old_node_def split: if_splits)

lemma ok_alloc_prop: "\<exists>q s'. alloc_prop ok_en p s = (Some q, s') \<and> syms s' = syms s"
  by (cases "snd p")
    (simp_all add: alloc_prop_def pcie_alloc_bool_property_def pcie_alloc_string_property_def pcie_alloc_u32_property_def
      pcie_alloc_u32_array_property_def pcie_alloc_string_list_property_def pcie_alloc_property_def kmalloc_def kfree_def ok_en_def Let_def)

lemma ok_set_props: "syms s = (\<lambda>_. True) \<Longrightarrow> \<exists>s'. set_props ok_en n ps s = (0, s') \<and> syms s' = (\<lambda>_. True)"
proof (induction ps arbitrary: s)
  case (Cons p ps)
  from ok_alloc_prop obtain q s1 where a: "alloc_prop ok_en p s = (Some q, s1)" "syms s1 = syms s" by blast
  have "\<exists>s2. pcie_set_property ok_en n (Some q) s1 = (0, s2) \<and> syms s2 = (\<lambda>_. True)"
    using a(2) Cons.prems
    by (cases "has_prop n (pr_name q) (dtree s1)") (simp_all add: pcie_set_property_def ok_en_def)
  then obtain s2 where b: "pcie_set_property ok_en n (Some q) s1 = (0, s2)" "syms s2 = (\<lambda>_. True)" by blast
  from Cons.IH [OF b(2)] a b show ?case by simp
qed simp

lemma ok_alloc_node: "\<exists>s'. pcie_alloc_node ok_en p nm u ph s = (Some (dt_next (dtree s)), s') \<and> syms s' = syms s"
  by (simp add: pcie_alloc_node_def kmalloc_def ok_en_def Let_def)

lemma demo_builds: "\<exists>s'. build_nodes ok_en 1 2 3 5 demo_en = (0, s')"
proof -
  obtain s1 where 1: "pcie_alloc_node ok_en 1 ''r8125_rx'' ''r8125_rx@eth0'' RTL8125_PHANDLE_RX demo_en = (Some 6, s1)"
    "syms s1 = (\<lambda>_. True)" "dt_next (dtree s1) = 7" "dt_nodes (dtree s1) 6 \<noteq> None"
    by (simp add: pcie_alloc_node_def kmalloc_def ok_en_def Let_def demo_en_def demo_dt_def)
  obtain s2 where 2: "pcie_alloc_node ok_en 1 ''r8125_tx'' ''r8125_tx@eth0'' RTL8125_PHANDLE_TX s1 = (Some 7, s2)"
    "syms s2 = (\<lambda>_. True)" "dt_next (dtree s2) = 8" "dt_nodes (dtree s2) 6 \<noteq> None" "dt_nodes (dtree s2) 7 \<noteq> None"
    using 1 by (simp add: pcie_alloc_node_def kmalloc_def ok_en_def Let_def)
  obtain s3 where 3: "pcie_alloc_node ok_en 5 ''realtek,rtl8125'' ''realtek,rtl8125@0,0'' 0 s2 = (Some 8, s3)"
    "syms s3 = (\<lambda>_. True)" "dt_nodes (dtree s3) 6 \<noteq> None" "dt_nodes (dtree s3) 7 \<noteq> None" "dt_nodes (dtree s3) 8 \<noteq> None"
    using 2 by (simp add: pcie_alloc_node_def kmalloc_def ok_en_def Let_def)
  from ok_set_props [OF 3(2)] obtain s4 where 4: "set_props ok_en 6 rx_props s3 = (0, s4)" "syms s4 = (\<lambda>_. True)" by blast
  from ok_set_props [OF 4(2)] obtain s5 where 5: "set_props ok_en 7 tx_props s4 = (0, s5)" "syms s5 = (\<lambda>_. True)" by blast
  let ?ps = "rtl8125_props (phandle_of 2 (dtree s5)) (phandle_of 3 (dtree s5))"
  from ok_set_props [OF 5(2)] obtain s6 where 6: "set_props ok_en 8 ?ps s5 = (0, s6)" by blast
  have sh: "same_shape (dtree s3) (dtree s6)"
    using set_props_shape [OF ok_en_laws 4(1)] set_props_shape [OF ok_en_laws 5(1)] set_props_shape [OF ok_en_laws 6] same_shape_trans by blast
  have "\<exists>s'. attach_three 6 7 8 s6 = (0, s')"
  proof -
    obtain x y z where xyz: "dt_nodes (dtree s6) 6 = Some x" "dt_nodes (dtree s6) 7 = Some y" "dt_nodes (dtree s6) 8 = Some z"
      using same_shape_node [OF sh] 3(3-5) by (metis not_None_eq)
    then show ?thesis by (simp add: attach_three_def pcie_attach_node_def Let_def)
  qed
  with 1(1) 2(1) 3(1) 4(1) 5(1) 6 show ?thesis by (simp add: build_nodes_def)
qed

lemma demo_nodes: "dt_nodes (dtree demo_en) 1 \<noteq> None" "dt_nodes (dtree demo_en) 5 \<noteq> None" "dt_nodes (dtree demo_en) 2 \<noteq> None"
  "dt_nodes (dtree demo_en) 3 \<noteq> None" "(1 :: nat) \<noteq> 5"
  by (simp_all add: demo_en_def demo_dt_def)

theorem runtime_nodes_built_witness:
  "\<exists>s'. build_nodes ok_en 1 2 3 5 demo_en = (0, s') \<and> dt_kids (dtree s') 1 = [7, 6, 2, 3, 4]"
proof -
  from demo_builds obtain s' where b: "build_nodes ok_en 1 2 3 5 demo_en = (0, s')" by blast
  from runtime_nodes_built [OF ok_en_laws demo_en_wf demo_nodes b] b show ?thesis
    by (auto simp: demo_en_def demo_dt_def)
qed

theorem load_keeps_tree_wf_witness: "wf_tree (dtree (snd (pcie_enabler_non_es_init ok_en True demo_en)))"
  by (rule load_keeps_tree_wf [OF ok_en_laws demo_en_wf])

lemma demo_first_load: "first_load ok_en (dtree demo_en)"
  by (simp add: first_load_def ok_en_def path_lookup_def demo_en_def demo_dt_def old_node_def has_name_def upt_rec)


lemma demo_tables: "table_of ok_en '':ipa_smmu_ap'' = Some 0" "table_of ok_en '':ipa_smmu_eth'' = Some 1"
  by (simp_all add: table_of_def ok_en_def dev_pg_def smmu_dev_match_def)

theorem pmds_pass_effect_witness: "pg (run_pmds_fix_pass ok_en demo_en) 1 = pg demo_en 0"
proof -
  have v: "is_vmalloc_addr ok_en (pmds (pg demo_en 0))" by (simp add: ok_en_def demo_en_def)
  show ?thesis
    using conjunct1 [OF conjunct2 [OF pmds_pass_effect [OF demo_tables(1), of demo_en]], rule_format, of 1] v demo_tables(2) by simp
qed

theorem alloc_prop_no_leak_witness:
  "fst (alloc_prop ok_en (''qcom,ring-size'', PU32 1024) demo_en) = Some (enc_prop (''qcom,ring-size'', PU32 1024))"
proof -
  let ?r = "alloc_prop ok_en (''qcom,ring-size'', PU32 1024) demo_en"
  have r: "?r = (fst ?r, snd ?r)" by simp
  from ok_alloc_prop obtain q s' where "?r = (Some q, s')" by blast
  with alloc_prop_no_leak [OF r] show ?thesis by simp
qed

text \<open>The tree read back: cells of a property, a phandle, the interface the subsystem uses.\<close>

fun cells :: "u8 list \<Rightarrow> u32 list" where
  "cells (a # b # c # d # xs) = (push_bit 24 (ucast a) OR push_bit 16 (ucast b) OR push_bit 8 (ucast c) OR ucast d) # cells xs"
| "cells _ = []"

lemma be32_cell:
  fixes x :: u32
  shows "(push_bit 24 (ucast (ucast (drop_bit 24 x) :: u8)) OR push_bit 16 (ucast (ucast (drop_bit 16 x) :: u8))
   OR push_bit 8 (ucast (ucast (drop_bit 8 x) :: u8)) OR ucast (ucast x :: u8) :: u32) = x" (is "?l = x")
proof (rule bit_word_eqI)
  fix n assume "n < LENGTH(32)"
  then consider "n < 8" | "8 \<le> n" "n < 16" | "16 \<le> n" "n < 24" | "24 \<le> n" "n < 32" by force
  then show "bit ?l n = bit x n" by cases (auto simp: bit_simps)
qed

lemma cells_enc: "cells (concat (map cpu_to_be32 phs)) = phs"
  by (induction phs) (simp_all add: cpu_to_be32_def be32_cell)

definition prop_cells :: "devtree \<Rightarrow> nat \<Rightarrow> string \<Rightarrow> u32 list option" where
  "prop_cells t n nm = (case dt_nodes t n of None \<Rightarrow> None | Some x \<Rightarrow>
     map_option (\<lambda>p. cells (pr_value p)) (find (\<lambda>p. pr_name p = nm) (dn_props x)))"

definition tree_api :: "devtree \<Rightarrow> nat of_api" where
  "tree_api t = \<lparr>of_find_property = (\<lambda>n nm. has_prop n nm t),
     of_property_read_u32 = (\<lambda>n nm. case prop_cells t n nm of Some (c # _) \<Rightarrow> Some c | _ \<Rightarrow> None),
     of_count_phandle = (\<lambda>n nm. case prop_cells t n nm of None \<Rightarrow> - 2 | Some cs \<Rightarrow> int (length cs)),
     of_parse_phandle = (\<lambda>n nm i. case prop_cells t n nm of None \<Rightarrow> None | Some cs \<Rightarrow>
        if i < length cs then find (\<lambda>m. case dt_nodes t m of None \<Rightarrow> False | Some y \<Rightarrow> dn_phandle y = cs ! i) [0 ..< dt_next t] else None),
     of_node_name = (\<lambda>n. case dt_nodes t n of None \<Rightarrow> [] | Some x \<Rightarrow> dn_name x),
     of_node_name_eq = (\<lambda>n nm. case dt_nodes t n of None \<Rightarrow> False | Some x \<Rightarrow> dn_name x = nm),
     of_children = dt_kids t, of_compatible = (\<lambda>n c. True), of_root_pdev = (\<lambda>n. Some n)\<rparr>"

lemma find_named: "distinct (map pr_name ps) \<Longrightarrow> p \<in> set ps \<Longrightarrow> find (\<lambda>q. pr_name q = pr_name p) ps = Some p"
  by (induction ps) (auto simp: image_iff)

lemma tree_api_reads:
  assumes "\<And>n x. dt_nodes t n = Some x \<Longrightarrow> distinct (map pr_name (dn_props x))"
  shows "reads_tree (tree_api t) t"
  unfolding reads_tree_def
proof (intro conjI allI impI)
  fix n x nm phs
  assume a: "dt_nodes t n = Some x \<and> \<lparr>pr_name = nm, pr_value = concat (map cpu_to_be32 phs)\<rparr> \<in> set (dn_props x)"
  have c: "prop_cells t n nm = Some phs"
    using find_named [OF assms, of n x "\<lparr>pr_name = nm, pr_value = concat (map cpu_to_be32 phs)\<rparr>"] a
    by (simp add: prop_cells_def cells_enc)
  then show "of_count_phandle (tree_api t) n nm = int (length phs)" by (simp add: tree_api_def)
  fix i m
  assume "of_parse_phandle (tree_api t) n nm i = Some m"
  with c show "i < length phs" "\<exists>y. dt_nodes t m = Some y \<and> dn_phandle y = phs ! i"
    by (auto simp: tree_api_def find_Some_iff split: if_splits option.splits)
qed (simp_all add: tree_api_def)

abbreviation rtl_idev :: "unit ioss_device" where "rtl_idev \<equiv> idev_zero rtl8125_ident"

lemma rtl_idev_dev: "ioss_is_r8125_pci_dev rtl_idev" "channels (interface rtl_idev) = []"
  by (simp_all add: ioss_is_r8125_pci_dev_def idev_zero_def rtl8125_ident_def iface_zero_def)

lemma rtl_parses:
  assumes "\<And>m. of_root_pdev T m = Some m"
  shows "\<exists>r d' w'. ioss_of_parse T ok_kern r (Some n) rtl_idev () = (0, d', w')"
proof -
  have kz: "kzalloc ok_kern w = (True, w)" for w by (simp add: ok_kern_def)
  note fb = fallback_ok [of ok_kern, OF kz]
  show ?thesis
  proof (cases "of_parse_phandle T n ''qcom,ioss'' 0")
    case None
    with rtl_idev_dev fb [of rtl_idev "()"] show ?thesis by (simp add: ioss_of_parse_def)
  next
    case (Some m)
    obtain rc e v where p: "of_parse_matched T ok_kern n rtl_idev () = (rc, e, v)" by (metis prod_cases3)
    have e: "rc \<noteq> 0 \<Longrightarrow> real_dev e = real_dev rtl_idev \<and> channels (interface e) = []"
      using p rtl_idev_dev(2) parse_v2_cases [of T ok_kern n rtl_idev "()" rc e v] by (auto simp: of_parse_matched_def split: if_splits)
    have "\<exists>d' w'. ioss_of_parse T ok_kern m (Some n) rtl_idev () = (0, d', w')"
    proof (cases "rc = 0")
      case False
      with e have "ioss_is_r8125_pci_dev e" "channels (interface e) = []" using rtl_idev_dev(1) by (simp_all add: ioss_is_r8125_pci_dev_def)
      with Some p False assms fb [of e v] show ?thesis by (simp add: ioss_of_parse_def)
    qed (use Some p assms in \<open>simp add: ioss_of_parse_def\<close>)
    then show ?thesis by blast
  qed
qed

lemma enc_names: "map pr_name (map enc_prop ps) = map fst ps"
  by (simp add: enc_prop_def comp_def)

theorem enabler_channels_unused_witness:
  "\<exists>s' root d' w'. build_nodes ok_en 1 2 3 5 demo_en = (0, s')
     \<and> ioss_of_parse (tree_api (dtree s')) ok_kern root (Some 8) rtl_idev () = (0, d', w')
     \<and> map (\<lambda>ch. (direction ch, ring_size (default_config ch))) (channels (interface d')) = [(CH_DIR_RX, 1023), (CH_DIR_TX, 1024)]"
proof -
  from demo_builds obtain s' where b: "build_nodes ok_en 1 2 3 5 demo_en = (0, s')" by blast
  let ?t = "dtree s'" and ?T = "tree_api (dtree s')"
  note built = build_nodes_ok [OF ok_en_laws demo_en_wf demo_nodes b]
  have six: "dt_next (dtree demo_en) = 6" by (simp add: demo_en_def demo_dt_def)
  have old: "dt_nodes (dtree demo_en) n = Some x \<Longrightarrow> dn_props x = [] \<and> dn_phandle x \<noteq> RTL8125_PHANDLE_RX" for n x
    by (auto simp: demo_en_def demo_dt_def old_node_def split: if_splits)
  have "distinct (map pr_name (dn_props x))" if x: "dt_nodes ?t n = Some x" for n x
  proof -
    have other: "n \<noteq> 6 \<Longrightarrow> n \<noteq> 7 \<Longrightarrow> n \<noteq> 8 \<Longrightarrow> dt_nodes (dtree demo_en) n = Some x" using built x by (simp add: six)
    have three: "n = 6 \<Longrightarrow> dn_props x = map enc_prop rx_props" "n = 7 \<Longrightarrow> dn_props x = map enc_prop tx_props"
      "n = 8 \<Longrightarrow> \<exists>a b. dn_props x = map enc_prop (rtl8125_props a b)"
      using built x by (auto simp: six node_is_def)
    consider "n = 6" | "n = 7" | "n = 8" | "n \<noteq> 6" "n \<noteq> 7" "n \<noteq> 8" by blast
    then show ?thesis
    proof cases
      case 1
      show ?thesis unfolding three(1) [OF 1] enc_names by (rule props_distinct)
    next
      case 2
      show ?thesis unfolding three(2) [OF 2] enc_names by (rule props_distinct)
    next
      case 3
      from three(3) [OF 3] obtain a b where ab: "dn_props x = map enc_prop (rtl8125_props a b)" by blast
      show ?thesis unfolding ab enc_names by (rule props_distinct)
    next
      case 4
      with old [OF other] show ?thesis by simp
    qed
  qed
  then have rd: "reads_tree ?T ?t" by (rule tree_api_reads)
  from rtl_parses [of ?T 8] obtain r d' w' where p: "ioss_of_parse ?T ok_kern r (Some 8) rtl_idev () = (0, d', w')"
    by (auto simp: tree_api_def)
  have e: "8 = dt_next (dtree demo_en) + 2" by (simp add: six)
  have "map (\<lambda>ch. (direction ch, ring_size (default_config ch))) (channels (interface d')) = [(CH_DIR_RX, 1023), (CH_DIR_TX, 1024)]"
    by (rule enabler_channels_unused [OF ok_en_laws demo_en_wf demo_nodes b _ rd rtl_idev_dev p [unfolded e]]) (use old in blast)
  with b p show ?thesis by (intro exI conjI)
qed

end
