(* ===== verification/Spec2Isabelle.thy ===== *)
theory Spec2Isabelle
  imports Bridge_Ioctl Ioss_Bus R8125_Online R8125_Stats R8125_NetUp R8125_Fw R8125_Eeprom Enabler
begin

text \<open>
  Verification of the T99W373 hardware-offload work: the programs under \<^verbatim>\<open>src/final-working-files\<close>
  that make the modem forward Ethernet traffic through the IPA hardware.

  \<^bold>\<open>The program.\<close> Four parts work together.

  \<^item> The ABI bridge (\<^verbatim>\<open>ipa-final/ipacm_abi_bridge_v5.c\<close>) is preloaded into the routing daemon. It interposes
    \<^verbatim>\<open>ioctl\<close> on the IPA device and rewrites requests and replies between the structure layouts of the
    daemon and those of the kernel, in place or through a scratch buffer.
  \<^item> The enabler module (\<^verbatim>\<open>pcie-enabler-sources/pcie_enabler_non_es_v1.c\<close>) builds the missing device-tree
    nodes at run time and repairs the page-table pointers of the IPA contexts.
  \<^item> The offload subsystem (\<^verbatim>\<open>drivers/ioss\<close>) binds to the Ethernet device, takes channels (rings with
    their buffers and events) from its driver and registers them as pipes with the IPA driver.
  \<^item> The Realtek 8125 driver (\<^verbatim>\<open>drivers/r8125\<close>) with its library interface lends rings to the subsystem
    and carries the ordinary traffic itself; \<^verbatim>\<open>drivers/r8125_ioss\<close> is the glue between the two.

  The enabler's nodes are read by the subsystem's device-tree parser; the state machine of the subsystem
  calls the glue, the glue calls the library, the library programs rings of the driver; the pipes that
  result are what the bridge's rules refer to.

  \<^bold>\<open>Theories and sources.\<close>

  \<^item> \<^verbatim>\<open>Prelude\<close>: machine integers, error numbers, the crash monad (a NULL dereference is the value
    \<^const>\<open>None\<close>), list lemmas, the locale \<open>call_sequence\<close>.
  \<^item> \<^verbatim>\<open>Bridge_Mem\<close>, \<^verbatim>\<open>Bridge_Cfg\<close>, \<^verbatim>\<open>Bridge_Log\<close>, \<^verbatim>\<open>Bridge_Query\<close>, \<^verbatim>\<open>Bridge_Rules\<close>, \<^verbatim>\<open>Bridge_Ioctl\<close>: the bridge
    in the order of its source. Memory is a function from addresses to bytes; structures are read and
    written at their offsets, so that overlap of old and new layouts is explicit. The system calls are a
    parameter.
  \<^item> \<^verbatim>\<open>Ioss_Base\<close> (\<^verbatim>\<open>ioss.h\<close>), \<^verbatim>\<open>Ioss_Util\<close> (\<^verbatim>\<open>ioss_utils.c\<close>), \<^verbatim>\<open>Ioss_Mem\<close> (\<^verbatim>\<open>ioss_mem.c\<close>), \<^verbatim>\<open>Ioss_Of\<close>
    (\<^verbatim>\<open>ioss_of.c\<close>), \<^verbatim>\<open>Ioss_Ipa\<close> (\<^verbatim>\<open>ioss_ipa.c\<close>, \<^verbatim>\<open>ioss_ipa_hal.c\<close>), \<^verbatim>\<open>Ioss_Debugfs\<close> and \<^verbatim>\<open>Ioss_Stats\<close>
    (\<^verbatim>\<open>ioss_debugfs.c\<close>), \<^verbatim>\<open>Ioss_Net\<close> (\<^verbatim>\<open>ioss_net.c\<close>), \<^verbatim>\<open>Ioss_Pci\<close> (\<^verbatim>\<open>ioss_pci.c\<close>), \<^verbatim>\<open>Ioss_Bus\<close>
    (\<^verbatim>\<open>ioss_bus.c\<close>, \<^verbatim>\<open>ioss_main.c\<close>): the subsystem. Driver operations and kernel services are records of
    functions that are passed as arguments.
  \<^item> \<^verbatim>\<open>R8125_State\<close>, \<^verbatim>\<open>R8125_Lib\<close> (\<^verbatim>\<open>r8125_lib.c\<close>), \<^verbatim>\<open>R8125_Rss\<close> (\<^verbatim>\<open>r8125_rss.c\<close>), \<^verbatim>\<open>R8125_Ioss\<close> and
    \<^verbatim>\<open>R8125_Stats\<close> (\<^verbatim>\<open>r8125_ioss.c\<close>), \<^verbatim>\<open>R8125_Online\<close>: lending of rings, spreading of receive traffic, the
    glue, and the state machine of the subsystem running on it.
  \<^item> \<^verbatim>\<open>R8125_Tx\<close>, \<^verbatim>\<open>R8125_Rx\<close>, \<^verbatim>\<open>R8125_Net\<close> (\<^verbatim>\<open>r8125_n.c\<close>): the transmit path, the receive path and the
    network device that owns both; \<^verbatim>\<open>R8125_TxQueue\<close>, \<^verbatim>\<open>R8125_RxRing\<close>, \<^verbatim>\<open>R8125_NetUp\<close> hold their theorems.
  \<^item> \<^verbatim>\<open>R8125_Reg\<close> (\<^verbatim>\<open>r8125_n.c\<close>) with \<^verbatim>\<open>R8125_RegSpace\<close>: indirect access to the register spaces of the chip;
    \<^verbatim>\<open>R8125_Fw\<close> (\<^verbatim>\<open>r8125_firmware.c\<close>): the firmware image, its check and its interpreter; \<^verbatim>\<open>R8125_Eeprom\<close>
    (\<^verbatim>\<open>rtl_eeprom.c\<close>): the serial EEPROM behind the chip.
  \<^item> \<^verbatim>\<open>Enabler\<close>: the enabler module, with the device tree and its reference counts as state.

  \<^bold>\<open>What the theorems show.\<close>

  \<^item> Bridge: rewriting keeps the meaning of every property and rule although the arrays overlap, touches
    nothing else, and calls that are not meant for translation pass unchanged (\<^verbatim>\<open>Bridge_Ioctl\<close>). The
    configuration is the one the environment determines (\<open>interface_list_match\<close> below for its lists).
  \<^item> Subsystem: the preflight accepts exactly the pipes IPA can use; registration, binding, loading and
    parsing are all or nothing; the error state is final (\<^verbatim>\<open>Ioss_Ipa\<close>, \<^verbatim>\<open>Ioss_Net\<close>, \<^verbatim>\<open>Ioss_Bus\<close>,
    \<^verbatim>\<open>Ioss_Of\<close>, \<^verbatim>\<open>Ioss_Pci\<close>).
  \<^item> Lent rings: a granted ring is ready and its buffers lie in their block; going on line loses no ring
    and going off line returns every ring (\<^verbatim>\<open>R8125_Lib\<close>, \<^verbatim>\<open>R8125_Online\<close>); the chip holds the spreading
    table the driver believes it holds (\<^verbatim>\<open>R8125_Rss\<close>).
  \<^item> Traffic: the transmit ring refines a bounded queue of packets, the receive handler delivers exactly
    the completed good frames in order, and over every sequence of calls buffers and DMA mappings are
    accounted for with multiplicity (\<^verbatim>\<open>R8125_TxQueue\<close>, \<^verbatim>\<open>R8125_RxRing\<close>). Opening, any traffic and closing
    are balanced; the outcomes of opening, of a change of the packet size and of the reset work are
    characterised, failures included (\<^verbatim>\<open>R8125_NetUp\<close>).
  \<^item> Chip access: unaligned accesses to the extended registers and paged accesses to the PHY act on exactly
    the bytes and words they name (\<^verbatim>\<open>R8125_RegSpace\<close>); a firmware image of any content is safe to check and,
    once accepted, to run; programs without backward jumps end, straight programs are carried out in
    order (\<^verbatim>\<open>R8125_Fw\<close>); a word is read from the EEPROM with exactly the clock edges of a read command
    (\<^verbatim>\<open>R8125_Eeprom\<close>).
  \<^item> Enabler: the repair pass does what it should and is idempotent, the periodic check ends, the nodes
    built are the intended ones and references balance (\<^verbatim>\<open>Enabler\<close>).

  Theorems about concrete failures of the code (leaks, a double free, a call that never returns) stand in
  the theory of the component concerned, beside the properties that hold.

  \<^bold>\<open>Interfaces.\<close> The contracts between components are locales, interpreted on the definitions of the model:
  \<open>inplace_array\<close> (an array converted in place, for transmit and receive properties), \<open>rule_array\<close> with
  \<open>rule_array_out\<close> and \<open>rule_array_back\<close> (arrays of rules copied out and back, for routing and filtering),
  \<open>undoable\<close>, \<open>undoable_total\<close> and \<open>undoable_sure\<close> (an action with its undo under the subsystem's
  all-or-nothing walk, for the channels and events of the Realtek glue), \<open>call_sequence\<close> (an invariant over
  any sequence of calls, for the tightly coupled memory, the spreading table, both traffic paths, the
  network device and the firmware images).

  \<^bold>\<open>Bounds and loops.\<close> Machine integers keep their width. Loops are structural recursion, folds over the
  index range of the C loop, or recursion with a termination measure (the scans of strings by position and
  the byte loops of the extended registers): the receive loop runs over the work it may do, the refill loop
  over the difference of its two counters, the completion loop over the number of descriptors the chip
  reports, a waiting loop over the polls granted. Only the firmware interpreter, which may loop for ever,
  has fuel; fuel above the number of actions is enough without backward jumps. Ring sizes are assumed to
  divide \<open>2\<^sup>3\<^sup>2\<close>, without which the counters misbehave at the wrap (\<open>wrap_aliases\<close> in
  \<^verbatim>\<open>R8125_TxQueue\<close>). Calls that do not return are the value \<^const>\<open>None\<close>.

  \<^bold>\<open>Assumptions on parameters.\<close> Kernel services are arbitrary functions with a world state; the hypotheses
  on them are named: \<open>tx_kern_ok\<close> (padding succeeds and, like unsharing and the software checksum, keeps
  the packet's identity and shape; what happens when padding fails is a theorem of its own), \<open>request_irq\<close>
  returns \<open>0\<close> or a negative number, \<open>eri_reads\<close>, \<open>eri_writes\<close>, \<open>phy_reads\<close> and \<open>phy_writes\<close> (the chip completes a
  command within the polls granted and its registers are memory), \<open>serial_pins\<close> (the pins of the EEPROM
  follow their register), and those stated with the theorems on the bridge and the subsystem. Each is met by a concrete kernel in the witness of the theorem.

  \<^bold>\<open>Not modelled.\<close> Concurrency inside one call: an interrupt handler and a transmission are atomic steps, in
  any order. Routines of \<^verbatim>\<open>r8125_n.c\<close> that only program the chip (PHY tables, link and power set-up,
  wake-up) appear as calls recorded in order; their register sequences have no
  specification in the repository to prove them against. Time stamping and remote management are compiled
  out. The register dumps at a panic write to a log only. The drivers of other controllers in the same tree
  (\<^verbatim>\<open>qps615\<close>, \<^verbatim>\<open>qps615_ioss\<close>, \<^verbatim>\<open>aqc_ioss\<close>, \<^verbatim>\<open>emac_shim\<close>, \<^verbatim>\<open>emac_ctrl_fe\<close>) and superseded versions of
  the enabler and the bridge are not used on this modem.
\<close>

section \<open>The bridge's configuration\<close>

text \<open>
  C6. An interface list means what it says: apart from the wildcard, a name is accepted exactly
  when it is one of the trimmed, comma-separated entries of the list, for every list without
  embedded NUL and every name, whatever blanks and repeated separators the list contains.
\<close>

theorem interface_list_match:
  assumes "NUL \<notin> set csv"
  shows "csv_has mx csv name \<longleftrightarrow>
    csv \<noteq> [] \<and> (csv = ''*'' \<or> take mx (cstr name) \<in> set (csv_tokens csv))"
  using assms by (rule csv_has_tokens)

theorem interface_list_match_witness:
  "csv_has 32 ''eth0, rmnet_data0'' ''eth0'' \<longleftrightarrow> take 32 (cstr ''eth0'') \<in> set (csv_tokens ''eth0, rmnet_data0'')"
  using interface_list_match [of "''eth0, rmnet_data0''" 32 "''eth0''"] by simp

end
